(* ===== verification/Laelia_Prelude.thy ===== *)
theory Laelia_Prelude
  imports Main "HOL-Library.Sublist" "HOL-Library.Char_ord" "HOL-Library.List_Lexorder"
    "HOL-Library.Monad_Syntax"
begin

text \<open>
  Shared ground of the development: the collections of simplification rules the component
  theories fill, the result type of fallible Go functions, Go's fixed-width integers with
  their wrap-around written out, the parts of Go's \<open>strings\<close> and \<open>strconv\<close> packages the
  sources use, and generic lemmas on lists, options and maps.

  A Go string is modelled by its bytes: a \<open>string\<close> is the list of its UTF-8 bytes, and
  \<open>length\<close> is Go's \<open>len\<close>.
\<close>

section \<open>Rule collections\<close>

named_theorems go_defs \<open>definitions of Go library helpers\<close>
named_theorems bounds_rules \<open>range facts on fixed-width integers\<close>

section \<open>Results\<close>

text \<open>A Go \<open>(T, error)\<close> result: \<open>Inl\<close> carries the error, \<open>Inr\<close> the value.\<close>

type_synonym ('e, 'a) result = "'e + 'a"

definition bind_result :: "('e, 'a) result \<Rightarrow> ('a \<Rightarrow> ('e, 'b) result) \<Rightarrow> ('e, 'b) result" where
  "bind_result r f = (case r of Inl e \<Rightarrow> Inl e | Inr a \<Rightarrow> f a)"

lemma bind_result_simps [simp]:
  "bind_result (Inl e) f = Inl e"
  "bind_result (Inr a) f = f a"
  by (simp_all add: bind_result_def)

lemma bind_result_Inr_iff [simp]:
  "bind_result r f = Inr b \<longleftrightarrow> (\<exists>a. r = Inr a \<and> f a = Inr b)"
  by (cases r) simp_all

section \<open>Fixed-width integers\<close>

text \<open>Two's complement wrap-around of a mathematical integer to Go's \<open>int32\<close> and \<open>int64\<close>.\<close>

definition i32 :: "int \<Rightarrow> int" where
  "i32 x = (x + 2 ^ 31) mod 2 ^ 32 - 2 ^ 31"

definition i64 :: "int \<Rightarrow> int" where
  "i64 x = (x + 2 ^ 63) mod 2 ^ 64 - 2 ^ 63"

definition max_int32 :: int where
  "max_int32 = 2 ^ 31 - 1"

definition max_int64 :: int where
  "max_int64 = 2 ^ 63 - 1"

lemma i32_id: "- (2 ^ 31) \<le> x \<Longrightarrow> x < 2 ^ 31 \<Longrightarrow> i32 x = x"
  unfolding i32_def by (simp add: mod_pos_pos_trivial)

lemma i64_id: "- (2 ^ 63) \<le> x \<Longrightarrow> x < 2 ^ 63 \<Longrightarrow> i64 x = x"
  unfolding i64_def by (simp add: mod_pos_pos_trivial)

lemma i64_mod: "i64 x mod 2 ^ 64 = x mod 2 ^ 64"
  unfolding i64_def by (simp add: mod_diff_left_eq)

lemma i64_add: "i64 (i64 a + i64 b) = i64 (a + b)"
proof -
  have "(i64 a + i64 b + 2 ^ 63) mod 2 ^ 64 = (a + b + 2 ^ 63) mod 2 ^ 64"
    by (intro mod_add_cong i64_mod refl)
  then show ?thesis by (simp add: i64_def [of "i64 a + i64 b"] i64_def [of "a + b"])
qed

lemma i64_range [bounds_rules]: "- (2 ^ 63) \<le> i64 x" "i64 x < 2 ^ 63"
  unfolding i64_def by simp_all

lemma i32_range [bounds_rules]: "- (2 ^ 31) \<le> i32 x" "i32 x < 2 ^ 31"
  unfolding i32_def by simp_all

section \<open>Go's strings and strconv packages\<close>

text \<open>The UTF-8 encodings of every rune for which \<open>unicode.IsSpace\<close> holds.\<close>

definition space_seqs :: "string list" where
  "space_seqs =
     [[CHR 0x09], [CHR 0x0A], [CHR 0x0B], [CHR 0x0C], [CHR 0x0D], [CHR 0x20],
      [CHR 0xC2, CHR 0x85], [CHR 0xC2, CHR 0xA0], [CHR 0xE1, CHR 0x9A, CHR 0x80],
      [CHR 0xE2, CHR 0x80, CHR 0x80], [CHR 0xE2, CHR 0x80, CHR 0x81],
      [CHR 0xE2, CHR 0x80, CHR 0x82], [CHR 0xE2, CHR 0x80, CHR 0x83],
      [CHR 0xE2, CHR 0x80, CHR 0x84], [CHR 0xE2, CHR 0x80, CHR 0x85],
      [CHR 0xE2, CHR 0x80, CHR 0x86], [CHR 0xE2, CHR 0x80, CHR 0x87],
      [CHR 0xE2, CHR 0x80, CHR 0x88], [CHR 0xE2, CHR 0x80, CHR 0x89],
      [CHR 0xE2, CHR 0x80, CHR 0x8A], [CHR 0xE2, CHR 0x80, CHR 0xA8],
      [CHR 0xE2, CHR 0x80, CHR 0xA9], [CHR 0xE2, CHR 0x80, CHR 0xAF],
      [CHR 0xE2, CHR 0x81, CHR 0x9F], [CHR 0xE3, CHR 0x80, CHR 0x80]]"

definition leading_space :: "string \<Rightarrow> string option" where
  "leading_space s = find (\<lambda>p. prefix p s) space_seqs"

definition trailing_space :: "string \<Rightarrow> string option" where
  "trailing_space s = find (\<lambda>p. suffix p s) space_seqs"

lemma space_seqs_nonempty: "[] \<notin> set space_seqs"
  by (simp add: space_seqs_def)

lemma leading_space_SomeD:
  "leading_space s = Some p \<Longrightarrow> prefix p s \<and> p \<noteq> []"
  using space_seqs_nonempty by (auto simp: leading_space_def find_Some_iff dest: nth_mem)

lemma trailing_space_SomeD:
  "trailing_space s = Some p \<Longrightarrow> suffix p s \<and> p \<noteq> []"
  using space_seqs_nonempty by (auto simp: trailing_space_def find_Some_iff dest: nth_mem)

function trim_left :: "string \<Rightarrow> string" where
  "trim_left s =
     (case leading_space s of None \<Rightarrow> s | Some p \<Rightarrow> trim_left (drop (length p) s))"
  by pat_completeness auto
termination
  by (relation "measure length")
    (auto dest!: leading_space_SomeD simp: prefix_def neq_Nil_conv)

function trim_right :: "string \<Rightarrow> string" where
  "trim_right s =
     (case trailing_space s of None \<Rightarrow> s | Some p \<Rightarrow> trim_right (take (length s - length p) s))"
  by pat_completeness auto
termination
  by (relation "measure length")
    (auto dest!: trailing_space_SomeD simp: suffix_def neq_Nil_conv)

declare trim_left.simps [simp del] trim_right.simps [simp del]

text \<open>\<open>strings.TrimSpace\<close>.\<close>

definition trim_space :: "string \<Rightarrow> string" where
  "trim_space s = trim_right (trim_left s)"

lemma trim_left_id: "leading_space s = None \<Longrightarrow> trim_left s = s"
  by (simp add: trim_left.simps)

lemma trim_right_id: "trailing_space s = None \<Longrightarrow> trim_right s = s"
  by (simp add: trim_right.simps)

text \<open>Printable ASCII bytes are never part of a space.\<close>

definition is_graph :: "char \<Rightarrow> bool" where
  "is_graph c \<longleftrightarrow> 33 \<le> (of_char c :: nat) \<and> (of_char c :: nat) \<le> 126"

lemma space_seqs_not_graph: "p \<in> set space_seqs \<Longrightarrow> \<not> is_graph (hd p) \<and> \<not> is_graph (last p)"
  by (auto simp: space_seqs_def is_graph_def)

lemma leading_space_graph: "s = [] \<or> is_graph (hd s) \<Longrightarrow> leading_space s = None"
  using space_seqs_nonempty space_seqs_not_graph
  by (auto simp: leading_space_def find_None_iff prefix_def)
    (metis append_is_Nil_conv hd_append2)+

lemma trailing_space_graph: "s = [] \<or> is_graph (last s) \<Longrightarrow> trailing_space s = None"
  using space_seqs_nonempty space_seqs_not_graph
  by (auto simp: trailing_space_def find_None_iff suffix_def)
    (metis last_appendR)+

lemma trim_space_id:
  assumes "s = [] \<or> is_graph (hd s) \<and> is_graph (last s)"
  shows "trim_space s = s"
  using assms
  by (simp add: trim_space_def trim_left_id trim_right_id leading_space_graph
      trailing_space_graph disj_imp)

text \<open>\<open>strings.TrimPrefix\<close>, \<open>strings.TrimSuffix\<close> and \<open>strings.CutPrefix\<close>.\<close>

definition trim_prefix :: "string \<Rightarrow> string \<Rightarrow> string" where
  "trim_prefix s p = (if prefix p s then drop (length p) s else s)"

definition trim_suffix :: "string \<Rightarrow> string \<Rightarrow> string" where
  "trim_suffix s p = (if suffix p s then take (length s - length p) s else s)"

definition cut_prefix :: "string \<Rightarrow> string \<Rightarrow> string option" where
  "cut_prefix s p = (if prefix p s then Some (drop (length p) s) else None)"

lemma trim_prefix_append [simp]: "trim_prefix (p @ s) p = s"
  by (simp add: trim_prefix_def)

lemma trim_suffix_append [simp]: "trim_suffix (s @ p) p = s"
  by (simp add: trim_suffix_def suffix_def)

lemma cut_prefix_append [simp]: "cut_prefix (p @ s) p = Some s"
  by (simp add: cut_prefix_def)

lemma cut_prefix_Some_iff: "cut_prefix s p = Some r \<longleftrightarrow> s = p @ r"
  by (auto simp: cut_prefix_def prefix_def)

text \<open>\<open>strings.Split\<close> with a one-byte separator.\<close>

fun split_on :: "char \<Rightarrow> string \<Rightarrow> string list" where
  "split_on c [] = [[]]"
| "split_on c (x # xs) =
     (if x = c then [] # split_on c xs
      else (case split_on c xs of [] \<Rightarrow> [[x]] | w # ws \<Rightarrow> (x # w) # ws))"

lemma split_on_nonempty [simp]: "split_on c s \<noteq> []"
  by (induction s) (auto split: list.splits)

lemma split_on_free: "c \<notin> set s \<Longrightarrow> split_on c s = [s]"
  by (induction s) auto

lemma split_on_sep: "c \<notin> set s \<Longrightarrow> split_on c (s @ c # t) = s # split_on c t"
  by (induction s) auto

text \<open>\<open>strings.Join\<close> with a one-byte separator is a left inverse of \<open>split_on\<close>.\<close>

fun join_with :: "char \<Rightarrow> string list \<Rightarrow> string" where
  "join_with c [] = []"
| "join_with c [w] = w"
| "join_with c (w # ws) = w @ c # join_with c ws"

lemma join_with_Cons: "ws \<noteq> [] \<Longrightarrow> join_with c (w # ws) = w @ c # join_with c ws"
  by (cases ws) auto

lemma join_split_on: "join_with c (split_on c s) = s"
proof (induction s)
  case Nil
  then show ?case by simp
next
  case (Cons x xs)
  obtain w ws where sp: "split_on c xs = w # ws"
    by (cases "split_on c xs") auto
  with Cons show ?case
    by (cases "ws = []") (auto simp: join_with_Cons)
qed

lemma split_on_tokens_free: "w \<in> set (split_on c s) \<Longrightarrow> c \<notin> set w"
proof (induction s arbitrary: w)
  case Nil
  then show ?case by simp
next
  case (Cons x xs)
  then show ?case
    by (cases "split_on c xs") (auto split: if_splits)
qed

text \<open>\<open>strings.Cut\<close> at a one-byte separator: before, after, found.\<close>

fun cut_at :: "char \<Rightarrow> string \<Rightarrow> string \<times> string \<times> bool" where
  "cut_at c [] = ([], [], False)"
| "cut_at c (x # xs) =
     (if x = c then ([], xs, True)
      else (let (b, a, f) = cut_at c xs in (x # b, a, f)))"

lemma cut_at_found: "c \<notin> set b \<Longrightarrow> cut_at c (b @ c # a) = (b, a, True)"
  by (induction b) auto

lemma cut_at_free: "c \<notin> set s \<Longrightarrow> cut_at c s = (s, [], False)"
  by (induction s) auto

text \<open>Decimal digits: \<open>strconv.ParseUint\<close> in base 10 and \<open>strconv.Itoa\<close>.\<close>

definition is_digit :: "char \<Rightarrow> bool" where
  "is_digit c \<longleftrightarrow> 48 \<le> (of_char c :: nat) \<and> (of_char c :: nat) \<le> 57"

lemma is_digit_is_graph: "is_digit c \<Longrightarrow> is_graph c"
  by (simp add: is_digit_def is_graph_def)

definition digit_val :: "char \<Rightarrow> nat" where
  "digit_val c = of_char c - 48"

definition digits_val :: "string \<Rightarrow> nat" where
  "digits_val s = fold (\<lambda>c n. 10 * n + digit_val c) s 0"

definition parse_uint :: "nat \<Rightarrow> string \<Rightarrow> nat option" where
  "parse_uint bits s =
     (if s = [] \<or> \<not> list_all is_digit s then None
      else let v = digits_val s in if v < 2 ^ bits then Some v else None)"

lemma parse_uint_bound [bounds_rules]: "parse_uint bits s = Some v \<Longrightarrow> v < 2 ^ bits"
  by (auto simp: parse_uint_def Let_def split: if_splits)

definition digit_char :: "nat \<Rightarrow> char" where
  "digit_char d = char_of (48 + d)"

fun nat_string :: "nat \<Rightarrow> string" where
  "nat_string n =
     (if n < 10 then [digit_char n] else nat_string (n div 10) @ [digit_char (n mod 10)])"

declare nat_string.simps [simp del]

definition int_string :: "int \<Rightarrow> string" where
  "int_string i = (if i < 0 then CHR ''-'' # nat_string (nat (- i)) else nat_string (nat i))"

lemma digit_char_props:
  "d < 10 \<Longrightarrow> is_digit (digit_char d)"
  "d < 10 \<Longrightarrow> digit_val (digit_char d) = d"
  by (simp_all add: is_digit_def digit_char_def digit_val_def of_char_of take_bit_eq_mod)

lemma nat_string_digits: "list_all is_digit (nat_string n)"
proof (induction n rule: nat_string.induct)
  case (1 n)
  show ?case
  proof (cases "n < 10")
    case True
    then show ?thesis by (subst nat_string.simps) (simp add: digit_char_props)
  next
    case False
    with 1 show ?thesis by (subst nat_string.simps) (simp add: digit_char_props)
  qed
qed

lemma nat_string_nonempty [simp]: "nat_string n \<noteq> []"
  by (subst nat_string.simps) simp

lemma digits_val_snoc: "digits_val (s @ [c]) = 10 * digits_val s + digit_val c"
  by (simp add: digits_val_def)

lemma digits_val_nat_string [simp]: "digits_val (nat_string n) = n"
proof (induction n rule: nat_string.induct)
  case (1 n)
  show ?case
  proof (cases "n < 10")
    case True
    then show ?thesis
      by (subst nat_string.simps) (simp add: digits_val_def digit_char_props)
  next
    case False
    with 1 have "digits_val (nat_string (n div 10)) = n div 10" by simp
    with False show ?thesis
      by (subst nat_string.simps) (simp add: digits_val_snoc digit_char_props)
  qed
qed

lemma nat_string_inject [simp]: "nat_string m = nat_string n \<longleftrightarrow> m = n"
  by (metis digits_val_nat_string)

lemma is_digit_not_punct:
  "is_digit c \<Longrightarrow> c \<noteq> CHR ''-''" "is_digit c \<Longrightarrow> c \<noteq> CHR ''|''" "is_digit c \<Longrightarrow> c \<noteq> CHR ''.''"
  by (auto simp: is_digit_def)

lemma nat_string_free: "c \<in> set (nat_string n) \<Longrightarrow> is_digit c"
  using nat_string_digits by (auto simp: list_all_iff)

lemma int_string_inject [simp]: "int_string i = int_string j \<longleftrightarrow> i = j"
proof
  assume eq: "int_string i = int_string j"
  have no_minus: "nat_string m \<noteq> CHR ''-'' # s" for m s
    using nat_string_free [of "CHR ''-''" m] is_digit_not_punct(1) [of "CHR ''-''"] by auto
  from eq no_minus [of "nat i"] no_minus [of "nat j"] show "i = j"
    by (auto simp: int_string_def split: if_splits) (metis no_minus)
qed simp

lemma int_string_no_bar: "CHR ''|'' \<notin> set (int_string i)"
  using nat_string_free is_digit_not_punct(2) by (auto simp: int_string_def)

section \<open>Lists and maps\<close>

lemma upt_front: "[n..<Suc (n + k)] = n # [Suc n..<Suc (n + k)]"
  by (simp add: upt_conv_Cons del: upt_Suc)

lemma find_found: "find P xs = Some x \<Longrightarrow> P x \<and> x \<in> set xs"
  by (induction xs) (auto split: if_splits)

lemma filter_key_unique: "distinct (map k xs) \<Longrightarrow> x \<in> set xs \<Longrightarrow> filter (\<lambda>y. k y = k x) xs = [x]"
  by (induction xs) (auto simp: filter_empty_conv rev_image_eqI image_iff)

lemma sorted_wrt_key_unique:
  fixes f :: "'a \<Rightarrow> 'b :: linorder"
  shows "sorted_wrt (\<lambda>a b. f a < f b) xs \<Longrightarrow> sorted_wrt (\<lambda>a b. f a < f b) ys \<Longrightarrow> set xs = set ys \<Longrightarrow> xs = ys"
proof (induction xs arbitrary: ys)
  case (Cons x xs)
  then obtain y ys' where ys: "ys = y # ys'" by (cases ys) auto
  have x: "x \<in> set (y # ys')" and y: "y \<in> set (x # xs)" using Cons.prems(3) ys by auto
  have "x = y"
  proof (rule ccontr)
    assume "x \<noteq> y"
    with x y Cons.prems(1,2) ys have "f y < f x" "f x < f y" by auto
    then show False by simp
  qed
  moreover have "x \<notin> set xs" "y \<notin> set ys'" using Cons.prems(1,2) ys by auto
  ultimately have "set xs = set ys'" using Cons.prems(3) ys by auto
  with Cons ys \<open>x = y\<close> show ?case by simp
qed simp

lemma list_all2_right: "list_all2 P xs ys \<Longrightarrow> y \<in> set ys \<Longrightarrow> \<exists>x \<in> set xs. P x y"
  by (induction rule: list_all2_induct) auto

lemma list_all2_left: "list_all2 P xs ys \<Longrightarrow> x \<in> set xs \<Longrightarrow> \<exists>y \<in> set ys. P x y"
  by (induction rule: list_all2_induct) auto

text \<open>A Go map as a finite partial function: iteration over it visits its entries in an
  unspecified order, so the models that range over a map do so over a list of its keys.\<close>

definition map_keys_list :: "('k :: linorder \<rightharpoonup> 'v) \<Rightarrow> 'k list" where
  "map_keys_list m = sorted_list_of_set (dom m)"

end
