(* ===== verification/Quantity.thy ===== *)
theory Quantity
  imports Laelia_Prelude
begin

text \<open>
  The k8s-quantity subset of machine provisioning
  (\<open>backend/common/quantity/quantity.go\<close>): parsing of numbers with an SI suffix into
  thousandths of a unit, kept in a Go \<open>int64\<close> (wrap-around written out with \<open>i64\<close>).
  The lemmas show which inputs are refused, that an accepted input denotes exactly the
  number it spells as long as the sum of its two products fits, and where it does not.
\<close>

section \<open>The parser\<close>

datatype quantity_error =
    EmptyQuantity
  | NegativeQuantity
  | UnsupportedSuffix string
  | NotADigit
  | TrailingPoint
  | TooManyFractionDigits
  | BadInteger
  | BadFraction
  | BelowMilli
  | TooLarge

definition milliMax :: int where
  "milliMax = max_int64"

definition milliTable :: "string \<Rightarrow> int option" where
  "milliTable = map_of
     [('''', 1000), (''m'', 1), (''k'', 1000000), (''M'', 1000000000),
      (''G'', 1000000000000), (''T'', 1000000000000000), (''P'', 1000000000000000000),
      (''Ki'', 1000 * 2 ^ 10), (''Mi'', 1000 * 2 ^ 20), (''Gi'', 1000 * 2 ^ 30),
      (''Ti'', 1000 * 2 ^ 40), (''Pi'', 1000 * 2 ^ 50)]"

definition head_char :: "char \<Rightarrow> bool" where
  "head_char c \<longleftrightarrow> c = CHR ''.'' \<or> is_digit c"

fun pad_milli :: "nat \<Rightarrow> int \<Rightarrow> int" where
  "pad_milli 0 f = f"
| "pad_milli (Suc k) f = pad_milli k (i64 (f * 10))"

definition parseHead :: "string \<Rightarrow> (quantity_error, int \<times> int) result" where
  "parseHead head =
     (if head = [] \<or> hd head = CHR ''.'' then Inl NotADigit
      else
        (let (wholeStr, fracStr, hasDot) = cut_at CHR ''.'' head in
         if hasDot \<and> fracStr = [] then Inl TrailingPoint
         else if length fracStr > 3 then Inl TooManyFractionDigits
         else
           (case parse_uint 63 wholeStr of
              None \<Rightarrow> Inl BadInteger
            | Some whole64 \<Rightarrow>
                if fracStr = [] then Inr (int whole64, 0)
                else
                  (case parse_uint 32 fracStr of
                     None \<Rightarrow> Inl BadFraction
                   | Some frac64 \<Rightarrow>
                       Inr (int whole64, pad_milli (3 - length fracStr) (int frac64))))))"

definition Parse :: "string \<Rightarrow> (quantity_error, int) result" where
  "Parse s0 =
     (let s = trim_space s0 in
      case s of
        [] \<Rightarrow> Inl EmptyQuantity
      | c # _ \<Rightarrow>
          if c = CHR ''+'' \<or> c = CHR ''-'' then Inl NegativeQuantity
          else
            (let head = takeWhile head_char s; suffix = trim_prefix s head in
             case milliTable suffix of
               None \<Rightarrow> Inl (UnsupportedSuffix suffix)
             | Some mult \<Rightarrow>
                 (case parseHead head of
                    Inl e \<Rightarrow> Inl e
                  | Inr (whole, frac) \<Rightarrow>
                      if suffix = ''m'' \<and> frac \<noteq> 0 then Inl BelowMilli
                      else if whole > milliMax div mult then Inl TooLarge
                      else Inr (i64 (i64 (whole * mult) + i64 (frac * (mult div 1000)))))))"

section \<open>The suffix table\<close>

lemma milliTable_mult:
  assumes "milliTable sfx = Some mult"
  shows "0 < mult" and "mult \<le> 2 ^ 60" and "sfx \<noteq> ''m'' \<Longrightarrow> 1000 dvd mult"
    and "sfx = ''m'' \<Longrightarrow> mult = 1"
  using assms by (auto simp: milliTable_def split: if_splits)

lemma milliTable_sfx:
  assumes "milliTable sfx = Some mult"
  shows "sfx = [] \<or> \<not> head_char (hd sfx) \<and> is_graph (last sfx)"
  using assms
  by (auto simp: milliTable_def head_char_def is_digit_def is_graph_def split: if_splits)

section \<open>Reading a spelled number\<close>

text \<open>
  The reference reading of a quantity: \<open>w\<close> the digits before the point, \<open>f\<close> those after
  it (none when there is no point), \<open>sfx\<close> the suffix.
\<close>

definition spell :: "string \<Rightarrow> string \<Rightarrow> string \<Rightarrow> string" where
  "spell w f sfx = w @ (if f = [] then [] else CHR ''.'' # f) @ sfx"

definition spelled_milli :: "string \<Rightarrow> string \<Rightarrow> int \<Rightarrow> int" where
  "spelled_milli w f mult =
     int (digits_val w) * mult
       + int (digits_val f * 10 ^ (3 - length f)) * (mult div 1000)"

definition digit_string :: "string \<Rightarrow> bool" where
  "digit_string s \<longleftrightarrow> list_all is_digit s"

lemma digit_string_free: "digit_string s \<Longrightarrow> CHR ''.'' \<notin> set s"
  using is_digit_not_punct(3) by (auto simp: digit_string_def list_all_iff)

lemma digits_val_fold_bound:
  "list_all is_digit s \<Longrightarrow> fold (\<lambda>c n. 10 * n + digit_val c) s a < (a + 1) * 10 ^ length s"
proof (induction s arbitrary: a)
  case Nil
  then show ?case by simp
next
  case (Cons c s)
  then have "digit_val c \<le> 9" by (auto simp: is_digit_def digit_val_def)
  then have "(10 * a + digit_val c + 1) * 10 ^ length s \<le> (10 * a + 10) * 10 ^ length s"
    by (intro mult_le_mono1) simp
  moreover have "fold (\<lambda>c n. 10 * n + digit_val c) s (10 * a + digit_val c)
      < (10 * a + digit_val c + 1) * 10 ^ length s"
    using Cons by simp
  ultimately have "fold (\<lambda>c n. 10 * n + digit_val c) s (10 * a + digit_val c)
      < (10 * a + 10) * 10 ^ length s"
    by (rule less_le_trans [rotated])
  then show ?case by (simp add: algebra_simps)
qed

lemma digits_val_bound: "digit_string s \<Longrightarrow> digits_val s < 10 ^ length s"
  using digits_val_fold_bound [of s 0] by (simp add: digits_val_def digit_string_def)

lemma pad_milli_exact:
  "0 \<le> f \<Longrightarrow> f * 10 ^ k < 2 ^ 63 \<Longrightarrow> pad_milli k f = f * 10 ^ k"
proof (induction k arbitrary: f)
  case 0
  then show ?case by simp
next
  case (Suc k)
  have "f * 10 \<le> f * 10 * 10 ^ k"
    using Suc.prems(1) by (simp add: mult_le_cancel_left1)
  with Suc.prems have "f * 10 < 2 ^ 63" by (simp add: algebra_simps)
  with Suc.prems(1) have "i64 (f * 10) = f * 10" by (simp add: i64_id)
  with Suc show ?case by (simp add: algebra_simps)
qed

lemma pad_milli_frac:
  assumes "digit_string f" "length f \<le> 3"
  shows "pad_milli (3 - length f) (int (digits_val f)) = int (digits_val f * 10 ^ (3 - length f))"
    and "digits_val f * 10 ^ (3 - length f) < 1000"
proof -
  have "digits_val f * 10 ^ (3 - length f) < 10 ^ length f * 10 ^ (3 - length f)"
    using digits_val_bound [OF assms(1)] by (intro mult_strict_right_mono) simp_all
  also have "\<dots> = 1000" using assms(2) by (simp flip: power_add)
  finally show b: "digits_val f * 10 ^ (3 - length f) < 1000" .
  then have "int (digits_val f) * 10 ^ (3 - length f) < 1000"
    by (metis of_nat_less_iff of_nat_mult of_nat_numeral of_nat_power)
  then show "pad_milli (3 - length f) (int (digits_val f)) = int (digits_val f * 10 ^ (3 - length f))"
    by (subst pad_milli_exact) simp_all
qed

lemma parseHead_spell:
  assumes "digit_string w" "w \<noteq> []" "digits_val w < 2 ^ 63" "digit_string f" "length f \<le> 3"
  shows "parseHead (w @ (if f = [] then [] else CHR ''.'' # f)) =
    Inr (int (digits_val w), int (digits_val f * 10 ^ (3 - length f)))"
proof -
  from assms(1,2) have hd: "hd w \<noteq> CHR ''.''" "w \<noteq> []"
    using digit_string_free by (metis list.set_sel(1))+
  have whole: "parse_uint 63 w = Some (digits_val w)"
    using assms(1-3) by (simp add: parse_uint_def digit_string_def)
  show ?thesis
  proof (cases "f = []")
    case True
    then show ?thesis using hd whole cut_at_free [OF digit_string_free [OF assms(1)]]
      by (simp add: parseHead_def digits_val_def)
  next
    case False
    have "(10::nat) ^ length f \<le> 10 ^ 3"
      using assms(5) by (rule power_increasing) simp
    with digits_val_bound [OF assms(4)] have "digits_val f < 10 ^ 3"
      by (rule less_le_trans)
    with False assms(4) have "parse_uint 32 f = Some (digits_val f)"
      by (simp add: parse_uint_def digit_string_def)
    with False hd whole pad_milli_frac [OF assms(4,5)] assms(5)
      cut_at_found [OF digit_string_free [OF assms(1)]]
    show ?thesis by (simp add: parseHead_def)
  qed
qed

lemma takeWhile_head_spell:
  assumes "digit_string w" "digit_string f" "milliTable sfx = Some mult"
  shows "takeWhile head_char (spell w f sfx) = w @ (if f = [] then [] else CHR ''.'' # f)"
proof -
  let ?h = "w @ (if f = [] then [] else CHR ''.'' # f)"
  have "\<forall>c \<in> set ?h. head_char c"
    using assms(1,2) by (auto simp: digit_string_def list_all_iff head_char_def)
  moreover have "takeWhile head_char sfx = []"
    using milliTable_sfx [OF assms(3)] by (cases sfx) auto
  ultimately show ?thesis
    unfolding spell_def by (metis append.assoc append_Nil2 takeWhile_append2)
qed

lemma trim_space_spell:
  assumes "digit_string w" "w \<noteq> []" "digit_string f" "milliTable sfx = Some mult"
  shows "trim_space (spell w f sfx) = spell w f sfx"
proof (rule trim_space_id, rule disjI2, rule conjI)
  show "is_graph (hd (spell w f sfx))"
    using assms(1,2) is_digit_is_graph
    by (cases w) (auto simp: spell_def digit_string_def)
  have "sfx = [] \<or> is_graph (last sfx)" using milliTable_sfx [OF assms(4)] by blast
  then show "is_graph (last (spell w f sfx))"
    using assms(1-3) is_digit_is_graph
    by (auto simp: spell_def digit_string_def list_all_iff last_append)
qed

lemma Parse_spell:
  assumes "digit_string w" "w \<noteq> []" "digits_val w < 2 ^ 63"
    and "digit_string f" "length f \<le> 3"
    and "milliTable sfx = Some mult" "sfx = ''m'' \<Longrightarrow> digits_val f = 0"
  shows "Parse (spell w f sfx) =
    (if int (digits_val w) > milliMax div mult then Inl TooLarge
     else Inr (i64 (spelled_milli w f mult)))"
proof -
  obtain c r where s: "spell w f sfx = c # r" "is_digit c"
    using assms(1,2) by (cases w) (auto simp: spell_def digit_string_def)
  have sfx: "trim_prefix (spell w f sfx) (w @ (if f = [] then [] else CHR ''.'' # f)) = sfx"
    by (metis spell_def append.assoc trim_prefix_append)
  have "c \<noteq> CHR ''+''" "c \<noteq> CHR ''-''" using s(2) by (auto simp: is_digit_def)
  then show ?thesis
    using s sfx trim_space_spell [OF assms(1,2,4,6)] takeWhile_head_spell [OF assms(1,4,6)]
      parseHead_spell [OF assms(1-5)] assms(6,7)
    by (simp add: Parse_def Let_def i64_add spelled_milli_def)
qed

section \<open>Properties\<close>

text \<open>C40: A quantity spelled as digits, an optional point with at most three further digits,
  and a suffix of the table (no non-zero fraction of a milli-unit) is accepted whenever its
  exact value in milli-units fits in an \<open>int64\<close>, and the parsed value is that exact value;
  nothing is rounded.\<close>

theorem Parse_exact:
  assumes "digit_string w" "w \<noteq> []" "digit_string f" "length f \<le> 3"
    and "milliTable sfx = Some mult" "sfx = ''m'' \<longrightarrow> digits_val f = 0"
    and fits: "spelled_milli w f mult \<le> max_int64"
  shows "Parse (spell w f sfx) = Inr (spelled_milli w f mult)"
proof -
  note m = milliTable_mult [OF assms(5)]
  have nonneg: "0 \<le> int (digits_val f * 10 ^ (3 - length f)) * (mult div 1000)"
    using m(1) by (simp add: pos_imp_zdiv_nonneg_iff)
  with fits have prod: "int (digits_val w) * mult \<le> max_int64"
    by (simp add: spelled_milli_def)
  then have "int (digits_val w) \<le> milliMax div mult"
    using m(1) zdiv_mono1 [OF prod m(1)] by (simp add: milliMax_def)
  moreover have "int (digits_val w) * 1 \<le> int (digits_val w) * mult"
    using m(1) by (intro mult_left_mono) simp_all
  with prod have "int (digits_val w) < 2 ^ 63" by (simp add: max_int64_def)
  then have "digits_val w < 2 ^ 63"
    by (metis of_nat_less_iff of_nat_numeral of_nat_power)
  moreover have "i64 (spelled_milli w f mult) = spelled_milli w f mult"
  proof (rule i64_id)
    have "0 \<le> int (digits_val w) * mult" using m(1) by simp
    with nonneg show "- (2 ^ 63) \<le> spelled_milli w f mult" by (simp add: spelled_milli_def)
  qed (use fits in \<open>simp add: max_int64_def\<close>)
  ultimately show ?thesis
    using Parse_spell [OF assms(1,2) _ assms(3-5)] assms(6) by auto
qed

theorem Parse_exact_witness:
  "Parse (spell ''1'' ''5'' ''Gi'') = Inr 1610612736000"
  using Parse_exact [of "''1''" "''5''" "''Gi''" "1000 * 2 ^ 30"]
  by (simp add: digit_string_def is_digit_def milliTable_def spelled_milli_def digits_val_def
      digit_val_def max_int64_def)

text \<open>The overflow guard compares only the whole part with \<open>milliMax / mult\<close>; a
  fraction can still carry the sum past the \<open>int64\<close> range, and the quantity is then accepted
  with a wrapped, negative value instead of being refused as too large. (The integers alone
  never wrap: with no fraction every accepted value lies between 0 and \<open>MaxInt64\<close>.)\<close>

theorem Parse_fraction_wraps:
  "Parse ''9.999P'' = Inr (- 8447744073709551616) \<and>
   (\<forall>w sfx mult m. digit_string w \<longrightarrow> w \<noteq> [] \<longrightarrow> digits_val w < 2 ^ 63 \<longrightarrow>
      milliTable sfx = Some mult \<longrightarrow> Parse (spell w [] sfx) = Inr m \<longrightarrow>
      0 \<le> m \<and> m \<le> max_int64)"
proof (intro conjI allI impI)
  have "Parse (spell ''9'' ''999'' ''P'') = Inr (- 8447744073709551616)"
    by (subst Parse_spell [where mult = "1000000000000000000"])
      (simp_all add: digit_string_def is_digit_def milliTable_def spelled_milli_def
        digits_val_def digit_val_def milliMax_def max_int64_def i64_def)
  then show "Parse ''9.999P'' = Inr (- 8447744073709551616)" by (simp add: spell_def)
next
  fix w sfx mult m
  assume a: "digit_string w" "w \<noteq> []" "digits_val w < 2 ^ 63" "milliTable sfx = Some mult"
    "Parse (spell w [] sfx) = Inr m"
  have "Parse (spell w [] sfx) =
    (if int (digits_val w) > milliMax div mult then Inl TooLarge
     else Inr (i64 (spelled_milli w [] mult)))"
    by (rule Parse_spell) (use a in \<open>simp_all add: digit_string_def digits_val_def\<close>)
  with a(5) have le: "int (digits_val w) \<le> milliMax div mult"
    and m: "m = i64 (int (digits_val w) * mult)"
    by (simp_all add: spelled_milli_def digits_val_def split: if_splits)
  have "int (digits_val w) * mult \<le> milliMax div mult * mult"
    using le milliTable_mult(1) [OF a(4)] by (intro mult_right_mono) simp_all
  also have "\<dots> \<le> milliMax"
    using milliTable_mult(1) [OF a(4)] by (simp add: minus_mod_eq_div_mult [symmetric])
  finally have hi: "int (digits_val w) * mult \<le> max_int64" by (simp add: milliMax_def)
  have lo: "0 \<le> int (digits_val w) * mult" using milliTable_mult(1) [OF a(4)] by simp
  from lo hi have "m = int (digits_val w) * mult"
    unfolding m by (intro i64_id) (simp_all add: max_int64_def)
  with lo hi show "0 \<le> m" "m \<le> max_int64" by simp_all
qed

theorem Parse_fraction_wraps_witness:
  "Parse (spell ''5'' [] ''Ki'') = Inr 5120000 \<and> (0::int) \<le> 5120000 \<and> 5120000 \<le> max_int64"
proof -
  have p: "Parse (spell ''5'' [] ''Ki'') = Inr 5120000"
    using Parse_spell [of "''5''" "[]" "''Ki''" "1000 * 2 ^ 10"]
    by (simp add: digit_string_def is_digit_def milliTable_def spelled_milli_def digits_val_def
        digit_val_def milliMax_def max_int64_def i64_def)
  have "digit_string ''5''" "digits_val ''5'' < 2 ^ 63" "milliTable ''Ki'' = Some (1000 * 2 ^ 10)"
    by (simp_all add: digit_string_def is_digit_def digits_val_def digit_val_def milliTable_def)
  then show ?thesis using p Parse_fraction_wraps by blast
qed

end
