(* ===== verification/Resource_Names.thy ===== *)
theory Resource_Names
  imports Laelia_Prelude
begin

text \<open>
  Resource names and handles (\<open>backend/common/resource_name.go\<close>,
  \<open>backend/common/handle.go\<close>): the parser of \<open>prefix/token\<close> names with its rejection of
  dangerous characters, the formatter and getter of each resource kind, and the handle
  suffix that tells users and agents apart. The interface \<open>name_codec\<close> states what a
  formatter and its getter promise each other; every kind of resource interprets it.
\<close>

section \<open>Parsing resource names\<close>

datatype name_error =
    InvalidRequest string
  | InvalidPrefix string string
  | InvalidToken string string
  | InvalidSuffix string string
  | IndexOutOfRange

definition WorkspacePrefix :: string where "WorkspacePrefix = ''workspaces/''"
definition ProjectNamePrefix :: string where "ProjectNamePrefix = ''projects/''"
definition UserNamePrefix :: string where "UserNamePrefix = ''users/''"
definition IdentityProviderNamePrefix :: string where "IdentityProviderNamePrefix = ''idps/''"
definition SettingNamePrefix :: string where "SettingNamePrefix = ''settings/''"
definition RolePrefix :: string where "RolePrefix = ''roles/''"
definition GroupPrefix :: string where "GroupPrefix = ''groups/''"
definition AgentNamePrefix :: string where "AgentNamePrefix = ''agents/''"
definition MachineNamePrefix :: string where "MachineNamePrefix = ''machines/''"
definition ConversationNamePrefix :: string where "ConversationNamePrefix = ''conversations/''"
definition APIProviderNamePrefix :: string where "APIProviderNamePrefix = ''apiProviders/''"
definition APIProviderEntryPrefix :: string where "APIProviderEntryPrefix = ''entries/''"
definition McpServerNamePrefix :: string where "McpServerNamePrefix = ''mcpServers/''"
definition AgentTeamNamePrefix :: string where "AgentTeamNamePrefix = ''agentTeams/''"
definition ProvisionerNamePrefix :: string where "ProvisionerNamePrefix = ''provisioners/''"

lemmas prefix_defs = WorkspacePrefix_def ProjectNamePrefix_def UserNamePrefix_def
  IdentityProviderNamePrefix_def SettingNamePrefix_def RolePrefix_def GroupPrefix_def
  AgentNamePrefix_def MachineNamePrefix_def ConversationNamePrefix_def APIProviderNamePrefix_def
  APIProviderEntryPrefix_def McpServerNamePrefix_def AgentTeamNamePrefix_def
  ProvisionerNamePrefix_def

definition invalidTokenChars :: string where
  "invalidTokenChars =
     [CHR 0x27, CHR 0x22, CHR '';'', CHR 0x5C, CHR ''('', CHR '')'', CHR 0x00]"

definition contains_any :: "string \<Rightarrow> string \<Rightarrow> bool" where
  "contains_any s cs \<longleftrightarrow> list_ex (\<lambda>c. List.member cs c) s"

text \<open>The loop of \<open>GetNameParentTokens\<close> over the prefixes, two parts at a time.\<close>

fun name_tokens ::
  "string \<Rightarrow> string list \<Rightarrow> string list \<Rightarrow> (name_error, string list) result" where
  "name_tokens name parts [] = Inr []"
| "name_tokens name (p # token # parts) (tokenPrefix # pfxs) =
     (if p @ ''/'' \<noteq> tokenPrefix then Inl (InvalidPrefix tokenPrefix name)
      else if contains_any token invalidTokenChars then Inl (InvalidToken token name)
      else
        (case name_tokens name parts pfxs of
           Inl e \<Rightarrow> Inl e
         | Inr tokens \<Rightarrow> Inr (token # tokens)))"
| "name_tokens name parts (tokenPrefix # pfxs) = Inl IndexOutOfRange"

definition GetNameParentTokens ::
  "string \<Rightarrow> string list \<Rightarrow> (name_error, string list) result" where
  "GetNameParentTokens name tokenPrefixes =
     (let parts = split_on CHR ''/'' name in
      if length parts \<noteq> 2 * length tokenPrefixes then Inl (InvalidRequest name)
      else name_tokens name parts tokenPrefixes)"

definition TrimSuffix :: "string \<Rightarrow> string \<Rightarrow> (name_error, string) result" where
  "TrimSuffix name sfx =
     (if \<not> suffix sfx name then Inl (InvalidSuffix name sfx) else Inr (trim_suffix name sfx))"

definition first_token :: "string \<Rightarrow> string \<Rightarrow> (name_error, string) result" where
  "first_token name tokenPrefix =
     (case GetNameParentTokens name [tokenPrefix] of
        Inl e \<Rightarrow> Inl e
      | Inr [] \<Rightarrow> Inl IndexOutOfRange
      | Inr (t # _) \<Rightarrow> Inr t)"

section \<open>The getters and formatters of each resource\<close>

definition GetUserHandle :: "string \<Rightarrow> (name_error, string) result" where
  "GetUserHandle name = first_token name UserNamePrefix"

definition GetSettingName :: "string \<Rightarrow> (name_error, string) result" where
  "GetSettingName name = first_token name SettingNamePrefix"

definition GetIdentityProviderID :: "string \<Rightarrow> (name_error, string) result" where
  "GetIdentityProviderID name = first_token name IdentityProviderNamePrefix"

definition GetRoleID :: "string \<Rightarrow> (name_error, string) result" where
  "GetRoleID name = first_token name RolePrefix"

definition GetGroupEmail :: "string \<Rightarrow> (name_error, string) result" where
  "GetGroupEmail name = first_token name GroupPrefix"

definition GetProjectID :: "string \<Rightarrow> (name_error, string) result" where
  "GetProjectID name = first_token name ProjectNamePrefix"

definition GetAgentResourceID :: "string \<Rightarrow> (name_error, string) result" where
  "GetAgentResourceID name = first_token name AgentNamePrefix"

definition GetAgentTeamResourceID :: "string \<Rightarrow> (name_error, string) result" where
  "GetAgentTeamResourceID name = first_token name AgentTeamNamePrefix"

definition GetMachineResourceID :: "string \<Rightarrow> (name_error, string) result" where
  "GetMachineResourceID name = first_token name MachineNamePrefix"

definition GetConversationResourceID :: "string \<Rightarrow> (name_error, string) result" where
  "GetConversationResourceID name = first_token name ConversationNamePrefix"

definition GetAPIProviderResourceID :: "string \<Rightarrow> (name_error, string) result" where
  "GetAPIProviderResourceID name = first_token name APIProviderNamePrefix"

definition GetMcpServerResourceID :: "string \<Rightarrow> (name_error, string) result" where
  "GetMcpServerResourceID name = first_token name McpServerNamePrefix"

definition GetProvisionerResourceID :: "string \<Rightarrow> (name_error, string) result" where
  "GetProvisionerResourceID name = first_token name ProvisionerNamePrefix"

definition FormatUserEmail :: "string \<Rightarrow> string" where
  "FormatUserEmail email = UserNamePrefix @ email"

definition FormatUserHandle :: "string \<Rightarrow> string" where
  "FormatUserHandle handle = UserNamePrefix @ handle"

definition FormatRole :: "string \<Rightarrow> string" where
  "FormatRole role = RolePrefix @ role"

definition FormatGroupName :: "string \<Rightarrow> string" where
  "FormatGroupName identifier = GroupPrefix @ identifier"

definition FormatAgentUID :: "string \<Rightarrow> string" where
  "FormatAgentUID uid = AgentNamePrefix @ uid"

definition FormatAgentTeamName :: "string \<Rightarrow> string" where
  "FormatAgentTeamName tid = AgentTeamNamePrefix @ tid"

definition FormatMachineUID :: "string \<Rightarrow> string" where
  "FormatMachineUID uid = MachineNamePrefix @ uid"

definition FormatConversationName :: "string \<Rightarrow> string" where
  "FormatConversationName cid = ConversationNamePrefix @ cid"

definition FormatAPIProviderUID :: "string \<Rightarrow> string" where
  "FormatAPIProviderUID pid = APIProviderNamePrefix @ pid"

definition FormatMcpServerUID :: "string \<Rightarrow> string" where
  "FormatMcpServerUID mid = McpServerNamePrefix @ mid"

definition FormatProvisionerUID :: "string \<Rightarrow> string" where
  "FormatProvisionerUID pid = ProvisionerNamePrefix @ pid"

definition avatarNameSuffix :: string where
  "avatarNameSuffix = ''/avatar''"

definition FormatUserAvatar :: "string \<Rightarrow> string" where
  "FormatUserAvatar handle = UserNamePrefix @ handle @ avatarNameSuffix"

definition ParseUserAvatarName :: "string \<Rightarrow> (name_error, string) result" where
  "ParseUserAvatarName name = bind_result (TrimSuffix name avatarNameSuffix) GetUserHandle"

definition FormatAgentAvatar :: "string \<Rightarrow> string" where
  "FormatAgentAvatar resourceID = AgentNamePrefix @ resourceID @ avatarNameSuffix"

definition ParseAgentAvatarName :: "string \<Rightarrow> (name_error, string) result" where
  "ParseAgentAvatarName name = bind_result (TrimSuffix name avatarNameSuffix) GetAgentResourceID"

definition FormatAPIProviderEntryName :: "string \<Rightarrow> string \<Rightarrow> string" where
  "FormatAPIProviderEntryName providerID entryID =
     APIProviderNamePrefix @ providerID @ ''/entries/'' @ entryID"

definition ParseAPIProviderEntryName :: "string \<Rightarrow> (name_error, string \<times> string) result" where
  "ParseAPIProviderEntryName name =
     (case GetNameParentTokens name [APIProviderNamePrefix, APIProviderEntryPrefix] of
        Inl e \<Rightarrow> Inl e
      | Inr (p # e # _) \<Rightarrow> Inr (p, e)
      | Inr _ \<Rightarrow> Inl IndexOutOfRange)"

lemmas getter_defs = GetUserHandle_def GetSettingName_def GetIdentityProviderID_def GetRoleID_def
  GetGroupEmail_def GetProjectID_def GetAgentResourceID_def GetAgentTeamResourceID_def
  GetMachineResourceID_def GetConversationResourceID_def GetAPIProviderResourceID_def
  GetMcpServerResourceID_def GetProvisionerResourceID_def

lemmas formatter_defs = FormatUserEmail_def FormatUserHandle_def FormatRole_def FormatGroupName_def
  FormatAgentUID_def FormatAgentTeamName_def FormatMachineUID_def FormatConversationName_def
  FormatAPIProviderUID_def FormatMcpServerUID_def FormatProvisionerUID_def

section \<open>What the parser accepts\<close>

text \<open>A token a name can carry: no separator, none of the dangerous characters.\<close>

definition valid_token :: "string \<Rightarrow> bool" where
  "valid_token t \<longleftrightarrow> CHR ''/'' \<notin> set t \<and> \<not> contains_any t invalidTokenChars"

fun interleave :: "string list \<Rightarrow> string list \<Rightarrow> string list" where
  "interleave (p # ps) (t # ts) = p # t # interleave ps ts"
| "interleave _ _ = []"

lemma name_tokens_Inr:
  "length parts = 2 * length ps \<Longrightarrow>
   name_tokens name parts (map (\<lambda>p. p @ ''/'') ps) = Inr ts \<longleftrightarrow>
     length ts = length ps \<and> parts = interleave ps ts \<and>
     (\<forall>t \<in> set ts. \<not> contains_any t invalidTokenChars)"
proof (induction ps arbitrary: parts ts)
  case Nil
  then show ?case by (cases ts) auto
next
  case (Cons p ps)
  then obtain q t rest where parts: "parts = q # t # rest" "length rest = 2 * length ps"
    by (metis (no_types, lifting) Suc_length_conv length_Cons mult_Suc_right plus_1_eq_Suc
        plus_nat.simps(2) one_add_one)
  show ?case
  proof (cases ts)
    case Nil
    then show ?thesis by (auto simp: parts split: sum.splits)
  next
    case (Cons t' ts')
    then show ?thesis
      using Cons.IH [OF parts(2), of ts'] by (auto simp: parts split: sum.splits)
  qed
qed

lemma split_on_join:
  "ws \<noteq> [] \<Longrightarrow> (\<forall>w \<in> set ws. c \<notin> set w) \<Longrightarrow> split_on c (join_with c ws) = ws"
proof (induction ws)
  case Nil
  then show ?case by simp
next
  case (Cons w ws)
  then show ?case
    by (cases "ws = []") (auto simp: split_on_free split_on_sep join_with_Cons)
qed

lemma split_on_eq_iff:
  "split_on c s = ws \<longleftrightarrow> ws \<noteq> [] \<and> (\<forall>w \<in> set ws. c \<notin> set w) \<and> s = join_with c ws"
  using split_on_tokens_free [of _ c s] split_on_join [of ws c] join_split_on [of c s]
  by (metis split_on_nonempty)

lemma length_interleave: "length ts = length ps \<Longrightarrow> length (interleave ps ts) = 2 * length ps"
  by (induction ps ts rule: interleave.induct) auto

lemma interleave_Nil: "length ts = length ps \<Longrightarrow> interleave ps ts = [] \<longleftrightarrow> ps = []"
  by (cases ps; cases ts) auto

lemma set_interleave:
  "length ts = length ps \<Longrightarrow> set (interleave ps ts) = set ps \<union> set ts"
  by (induction ps ts rule: interleave.induct) auto

lemma GetNameParentTokens_Inr:
  assumes "ps \<noteq> []" "\<forall>p \<in> set ps. CHR ''/'' \<notin> set p"
  shows "GetNameParentTokens name (map (\<lambda>p. p @ ''/'') ps) = Inr ts \<longleftrightarrow>
    length ts = length ps \<and> (\<forall>t \<in> set ts. valid_token t) \<and>
    name = join_with CHR ''/'' (interleave ps ts)"
proof -
  let ?parts = "split_on CHR ''/'' name"
  have "GetNameParentTokens name (map (\<lambda>p. p @ ''/'') ps) = Inr ts \<longleftrightarrow>
      length ?parts = 2 * length ps \<and> length ts = length ps \<and> ?parts = interleave ps ts \<and>
      (\<forall>t \<in> set ts. \<not> contains_any t invalidTokenChars)"
    using name_tokens_Inr [of ?parts ps name ts]
    by (auto simp: GetNameParentTokens_def Let_def split: if_splits)
  also have "\<dots> \<longleftrightarrow> length ts = length ps \<and> (\<forall>t \<in> set ts. valid_token t) \<and>
      name = join_with CHR ''/'' (interleave ps ts)"
    using assms split_on_eq_iff [of "CHR ''/''" name "interleave ps ts"] interleave_Nil [of ts ps]
    by (auto simp: length_interleave set_interleave valid_token_def)
  finally show ?thesis .
qed

lemma first_token_Inr:
  assumes "tokenPrefix \<noteq> []" "last tokenPrefix = CHR ''/''" "CHR ''/'' \<notin> set (butlast tokenPrefix)"
  shows "first_token name tokenPrefix = Inr t \<longleftrightarrow> name = tokenPrefix @ t \<and> valid_token t"
proof -
  define p where "p = butlast tokenPrefix"
  have tp: "tokenPrefix = p @ ''/''"
    unfolding p_def using assms(1,2) append_butlast_last_id [of tokenPrefix] by simp
  have *: "GetNameParentTokens name [tokenPrefix] = Inr ts \<longleftrightarrow>
      (\<exists>t. ts = [t] \<and> valid_token t \<and> name = tokenPrefix @ t)" for ts
    using GetNameParentTokens_Inr [of "[p]" name ts] assms(3)
    by (auto simp: length_Suc_conv tp p_def [symmetric])
  show ?thesis
  proof (cases "GetNameParentTokens name [tokenPrefix]")
    case (Inl e)
    with * [of "[t]"] show ?thesis by (auto simp: first_token_def)
  next
    case (Inr ts)
    with * [of ts] * [of "[t]"] show ?thesis by (auto simp: first_token_def)
  qed
qed

lemma prefix_tokens:
  shows "first_token n UserNamePrefix = Inr t \<longleftrightarrow> n = UserNamePrefix @ t \<and> valid_token t"
    and "first_token n RolePrefix = Inr t \<longleftrightarrow> n = RolePrefix @ t \<and> valid_token t"
    and "first_token n GroupPrefix = Inr t \<longleftrightarrow> n = GroupPrefix @ t \<and> valid_token t"
    and "first_token n AgentNamePrefix = Inr t \<longleftrightarrow> n = AgentNamePrefix @ t \<and> valid_token t"
    and "first_token n AgentTeamNamePrefix = Inr t \<longleftrightarrow> n = AgentTeamNamePrefix @ t \<and> valid_token t"
    and "first_token n MachineNamePrefix = Inr t \<longleftrightarrow> n = MachineNamePrefix @ t \<and> valid_token t"
    and "first_token n ConversationNamePrefix = Inr t \<longleftrightarrow>
      n = ConversationNamePrefix @ t \<and> valid_token t"
    and "first_token n APIProviderNamePrefix = Inr t \<longleftrightarrow>
      n = APIProviderNamePrefix @ t \<and> valid_token t"
    and "first_token n McpServerNamePrefix = Inr t \<longleftrightarrow> n = McpServerNamePrefix @ t \<and> valid_token t"
    and "first_token n ProvisionerNamePrefix = Inr t \<longleftrightarrow>
      n = ProvisionerNamePrefix @ t \<and> valid_token t"
  by (rule first_token_Inr; simp add: prefix_defs)+

section \<open>The interface between a formatter and its getter\<close>

locale name_codec =
  fixes fmt :: "string \<Rightarrow> string"
    and get :: "string \<Rightarrow> (name_error, string) result"
  assumes get_iff: "get n = Inr t \<longleftrightarrow> n = fmt t \<and> valid_token t"
begin

lemma get_fmt: "valid_token t \<Longrightarrow> get (fmt t) = Inr t"
  by (simp add: get_iff)

lemma fmt_inject: "valid_token s \<Longrightarrow> valid_token t \<Longrightarrow> fmt s = fmt t \<Longrightarrow> s = t"
  by (metis get_fmt sum.inject(2))

lemma get_token: "get n = Inr t \<Longrightarrow> valid_token t"
  by (simp add: get_iff)

lemma get_refuses: "\<not> valid_token t \<Longrightarrow> get (fmt t) \<noteq> Inr t"
  by (simp add: get_iff)

end

interpretation user_name: name_codec FormatUserHandle GetUserHandle
  by unfold_locales (simp add: getter_defs formatter_defs prefix_tokens)

interpretation role_name: name_codec FormatRole GetRoleID
  by unfold_locales (simp add: getter_defs formatter_defs prefix_tokens)

interpretation group_name: name_codec FormatGroupName GetGroupEmail
  by unfold_locales (simp add: getter_defs formatter_defs prefix_tokens)

interpretation agent_name: name_codec FormatAgentUID GetAgentResourceID
  by unfold_locales (simp add: getter_defs formatter_defs prefix_tokens)

interpretation team_name: name_codec FormatAgentTeamName GetAgentTeamResourceID
  by unfold_locales (simp add: getter_defs formatter_defs prefix_tokens)

interpretation machine_name: name_codec FormatMachineUID GetMachineResourceID
  by unfold_locales (simp add: getter_defs formatter_defs prefix_tokens)

interpretation conversation_name: name_codec FormatConversationName GetConversationResourceID
  by unfold_locales (simp add: getter_defs formatter_defs prefix_tokens)

interpretation provider_name: name_codec FormatAPIProviderUID GetAPIProviderResourceID
  by unfold_locales (simp add: getter_defs formatter_defs prefix_tokens)

interpretation mcp_name: name_codec FormatMcpServerUID GetMcpServerResourceID
  by unfold_locales (simp add: getter_defs formatter_defs prefix_tokens)

interpretation provisioner_name: name_codec FormatProvisionerUID GetProvisionerResourceID
  by unfold_locales (simp add: getter_defs formatter_defs prefix_tokens)

lemma TrimSuffix_Inr: "TrimSuffix n sfx = Inr r \<longleftrightarrow> n = r @ sfx"
  by (auto simp: TrimSuffix_def suffix_def)

interpretation user_avatar: name_codec FormatUserAvatar ParseUserAvatarName
  by unfold_locales
    (auto simp: ParseUserAvatarName_def FormatUserAvatar_def TrimSuffix_Inr GetUserHandle_def
      prefix_tokens)

interpretation agent_avatar: name_codec FormatAgentAvatar ParseAgentAvatarName
  by unfold_locales
    (auto simp: ParseAgentAvatarName_def FormatAgentAvatar_def TrimSuffix_Inr
      GetAgentResourceID_def prefix_tokens)

lemma ParseAPIProviderEntryName_Inr:
  "ParseAPIProviderEntryName n = Inr (p, e) \<longleftrightarrow>
     n = FormatAPIProviderEntryName p e \<and> valid_token p \<and> valid_token e"
proof -
  have *: "GetNameParentTokens n [APIProviderNamePrefix, APIProviderEntryPrefix] = Inr ts \<longleftrightarrow>
      (\<exists>p e. ts = [p, e] \<and> valid_token p \<and> valid_token e \<and>
         n = FormatAPIProviderEntryName p e)" for ts
    using GetNameParentTokens_Inr [of "[''apiProviders'', ''entries'']" n ts]
    by (auto simp: prefix_defs FormatAPIProviderEntryName_def length_Suc_conv)
  show ?thesis
  proof (cases "GetNameParentTokens n [APIProviderNamePrefix, APIProviderEntryPrefix]")
    case (Inl err)
    with * [of "[p, e]"] show ?thesis by (auto simp: ParseAPIProviderEntryName_def)
  next
    case (Inr ts)
    with * [of ts] * [of "[p, e]"] show ?thesis by (auto simp: ParseAPIProviderEntryName_def)
  qed
qed

section \<open>Handles\<close>

definition HandleKindUser :: string where "HandleKindUser = ''user''"
definition HandleKindAgent :: string where "HandleKindAgent = ''agent''"
definition SystemBotHandle :: string where "SystemBotHandle = ''system-bot''"

text \<open>\<open>strings.LastIndex\<close>.\<close>

definition last_index :: "string \<Rightarrow> string \<Rightarrow> nat option" where
  "last_index s sub = find (\<lambda>i. prefix sub (drop i s)) (rev [0..<Suc (length s)])"

definition FormatHandle :: "string \<Rightarrow> string \<Rightarrow> int \<Rightarrow> string" where
  "FormatHandle slug kind seq = slug @ ''-'' @ kind @ ''-'' @ int_string seq"

definition HandleKindOf :: "string \<Rightarrow> string \<Rightarrow> bool" where
  "HandleKindOf handle kind =
     (let sfx = ''-'' @ kind @ ''-'' in
      case last_index handle sfx of
        None \<Rightarrow> False
      | Some i \<Rightarrow>
          (let rest = drop (i + length sfx) handle in rest \<noteq> [] \<and> list_all is_digit rest))"

text \<open>
  The slug is built rune by rune; a rune is its code point. The tables of Go's
  \<open>unicode\<close> package enter as the four functions of \<open>unicode_tables\<close>.
\<close>

record unicode_tables =
  IsLetter :: "nat \<Rightarrow> bool"
  IsDigit :: "nat \<Rightarrow> bool"
  IsSpace :: "nat \<Rightarrow> bool"
  ToLower :: "nat \<Rightarrow> nat"

definition dash :: nat where "dash = 45"
definition underscore :: nat where "underscore = 95"

fun slug_loop :: "unicode_tables \<Rightarrow> bool \<Rightarrow> nat list \<Rightarrow> nat list" where
  "slug_loop U prevDash [] = []"
| "slug_loop U prevDash (r # rs) =
     (if IsLetter U r \<or> IsDigit U r \<or> r = underscore then r # slug_loop U False rs
      else if IsSpace U r then
        (if \<not> prevDash then dash # slug_loop U True rs else slug_loop U prevDash rs)
      else if r = dash then
        (if \<not> prevDash then dash # slug_loop U True rs else slug_loop U prevDash rs)
      else slug_loop U prevDash rs)"

definition SlugifyHandle :: "unicode_tables \<Rightarrow> nat list \<Rightarrow> nat list" where
  "SlugifyHandle U name =
     (let trimmed = rev (dropWhile (IsSpace U) (rev (dropWhile (IsSpace U) name)));
          b = slug_loop U True (map (ToLower U) trimmed)
      in if b \<noteq> [] \<and> last b = dash then butlast b else b)"

lemma last_index_Some:
  "last_index s sub = Some i \<Longrightarrow>
     i \<le> length s \<and> prefix sub (drop i s) \<and> (\<forall>j. i < j \<longrightarrow> j \<le> length s \<longrightarrow> \<not> prefix sub (drop j s))"
proof -
  assume "last_index s sub = Some i"
  then obtain k where k: "k < Suc (length s)" "rev [0..<Suc (length s)] ! k = i"
      "prefix sub (drop i s)" "\<forall>j<k. \<not> prefix sub (drop (rev [0..<Suc (length s)] ! j) s)"
    unfolding last_index_def find_Some_iff by auto
  have nth: "rev [0..<Suc (length s)] ! j = length s - j" if "j \<le> length s" for j
    using that by (simp add: rev_nth del: upt_Suc)
  have i: "i = length s - k" using k(1,2) nth by simp
  have "\<not> prefix sub (drop j s)" if "i < j" "j \<le> length s" for j
  proof -
    have "length s - j < k" using that k(1) i by simp
    then have "\<not> prefix sub (drop (rev [0..<Suc (length s)] ! (length s - j)) s)"
      using k(4) by blast
    then show ?thesis using nth [of "length s - j"] that by simp
  qed
  with i k show ?thesis by simp
qed

lemma last_index_None: "last_index s sub = None \<Longrightarrow> i \<le> length s \<Longrightarrow> \<not> prefix sub (drop i s)"
  unfolding last_index_def find_None_iff by (auto simp del: upt_Suc)

text \<open>A handle carries a kind exactly when it is a formatted handle of that kind, up to the
  spelling of the counter.\<close>

lemma HandleKindOf_iff:
  assumes "\<forall>c \<in> set kind. \<not> is_digit c"
  shows "HandleKindOf h kind \<longleftrightarrow>
    (\<exists>slug n. h = slug @ ''-'' @ kind @ ''-'' @ n \<and> n \<noteq> [] \<and> list_all is_digit n)"
    (is "_ \<longleftrightarrow> ?R")
proof
  let ?sfx = "''-'' @ kind @ ''-''"
  assume "HandleKindOf h kind"
  then obtain i where i: "last_index h ?sfx = Some i"
    and rest: "drop (i + length ?sfx) h \<noteq> []" "list_all is_digit (drop (i + length ?sfx) h)"
    by (auto simp: HandleKindOf_def Let_def split: option.splits)
  from last_index_Some [OF i] have "prefix ?sfx (drop i h)" by blast
  then have "h = take i h @ ?sfx @ drop (i + length ?sfx) h"
    by (metis append_take_drop_id append_eq_conv_conj prefix_def drop_drop add.commute)
  with rest show ?R by (metis append.assoc)
next
  let ?sfx = "''-'' @ kind @ ''-''"
  assume ?R
  then obtain slug n where h: "h = slug @ ?sfx @ n" and n: "n \<noteq> []" "list_all is_digit n"
    by auto
  have dash: "\<not> is_digit CHR ''-''" by (simp add: is_digit_def)
  have at: "prefix ?sfx (drop (length slug) h)" by (simp add: h)
  obtain i where i: "last_index h ?sfx = Some i"
    using at last_index_None [of h ?sfx "length slug"] h by (cases "last_index h ?sfx") auto
  note li = last_index_Some [OF i]
  have "i = length slug"
  proof (rule ccontr)
    assume ne: "i \<noteq> length slug"
    with li at h have gt: "length slug < i" by (metis length_append le_add1 nat_neq_iff)
    from li obtain r where r: "drop i h = ?sfx @ r" by (auto simp: prefix_def)
    define k where "k = i - length slug"
    have k: "0 < k" and dr: "drop i h = drop k (?sfx @ n)"
      using gt by (auto simp: k_def h)
    have "length (drop i h) \<ge> length ?sfx" by (simp add: r)
    then have kn: "k \<le> length n" using dr by simp
    \<comment> \<open>the last character of the later occurrence is a dash inside the digits\<close>
    have "(?sfx @ n) ! (k + (length kind + 1)) = CHR ''-''"
    proof -
      have "(?sfx @ n) ! (k + (length kind + 1)) = drop i h ! (length kind + 1)"
        using kn by (simp add: dr nth_drop)
      also have "\<dots> = CHR ''-''" by (simp add: r nth_append)
      finally show ?thesis .
    qed
    moreover have "(?sfx @ n) ! (k + (length kind + 1)) = n ! (k - 1)"
      using k by (simp add: nth_append)
    moreover have "is_digit (n ! (k - 1))"
      using n(2) k kn by (simp add: list_all_length)
    ultimately show False using dash by simp
  qed
  then show "HandleKindOf h kind"
    using i n by (simp add: HandleKindOf_def h)
qed

lemma kinds_not_digits:
  "\<forall>c \<in> set HandleKindUser. \<not> is_digit c" "\<forall>c \<in> set HandleKindAgent. \<not> is_digit c"
  by (simp_all add: HandleKindUser_def HandleKindAgent_def is_digit_def)

lemma HandleKindOf_format:
  assumes "\<forall>c \<in> set kind. \<not> is_digit c"
  shows "HandleKindOf (FormatHandle slug kind (int n)) kind"
  unfolding HandleKindOf_iff [OF assms]
  by (intro exI [of _ slug] exI [of _ "nat_string n"])
    (simp add: FormatHandle_def int_string_def nat_string_digits)

text \<open>Reading a handle from its end: the digits, then the kind.\<close>

lemma handle_tail_unique:
  assumes "s @ ''-'' @ k @ ''-'' @ n = s' @ ''-'' @ k' @ ''-'' @ n'"
    and "list_all is_digit n" "list_all is_digit n'"
  shows "n = n'" and "s @ ''-'' @ k = s' @ ''-'' @ k'"
proof -
  have d: "takeWhile is_digit (rev (x @ ''-'' @ y)) = rev y" if "list_all is_digit y" for x y
  proof -
    have "takeWhile is_digit (rev y @ CHR ''-'' # rev x) = rev y @ takeWhile is_digit (CHR ''-'' # rev x)"
      by (rule takeWhile_append2) (use that in \<open>simp add: list_all_iff\<close>)
    then show ?thesis by (simp add: is_digit_def)
  qed
  have "rev n = rev n'"
    using d [of n "s @ ''-'' @ k"] d [of n' "s' @ ''-'' @ k'"] assms by (metis append.assoc)
  then show n: "n = n'" by simp
  with assms(1) show "s @ ''-'' @ k = s' @ ''-'' @ k'" by (metis append.assoc append_same_eq)
qed

lemma kind_tail_distinct: "s @ ''-'' @ HandleKindUser \<noteq> s' @ ''-'' @ HandleKindAgent"
proof
  assume "s @ ''-'' @ HandleKindUser = s' @ ''-'' @ HandleKindAgent"
  then have "last (s @ ''-'' @ HandleKindUser) = last (s' @ ''-'' @ HandleKindAgent)" by simp
  then show False by (simp add: HandleKindUser_def HandleKindAgent_def)
qed

lemma slug_loop_set:
  "r \<in> set (slug_loop U b rs) \<Longrightarrow> IsLetter U r \<or> IsDigit U r \<or> r = underscore \<or> r = dash"
  by (induction U b rs rule: slug_loop.induct) (auto split: if_splits)

text \<open>No dash follows a dash, and with \<open>prevDash\<close> set none comes first.\<close>

definition no_double_dash :: "nat list \<Rightarrow> bool" where
  "no_double_dash xs \<longleftrightarrow> (\<forall>i. Suc i < length xs \<longrightarrow> \<not> (xs ! i = dash \<and> xs ! Suc i = dash))"

lemma no_double_dash_Cons:
  "no_double_dash (x # xs) \<longleftrightarrow> no_double_dash xs \<and> \<not> (x = dash \<and> xs \<noteq> [] \<and> hd xs = dash)"
  by (cases xs) (auto simp: no_double_dash_def nth_Cons split: nat.splits)

lemma slug_loop_dashes:
  assumes "\<not> IsLetter U dash" "\<not> IsDigit U dash"
  shows "no_double_dash (slug_loop U b rs) \<and>
    (b \<longrightarrow> slug_loop U b rs = [] \<or> hd (slug_loop U b rs) \<noteq> dash)"
  using assms
proof (induction U b rs rule: slug_loop.induct)
  case (1 U b)
  then show ?case by (simp add: no_double_dash_def)
next
  case (2 U b r rs)
  then show ?case
    by (auto simp: no_double_dash_Cons underscore_def dash_def)
qed

lemma butlast_dash_free:
  assumes "no_double_dash b"
  shows "let r = (if b \<noteq> [] \<and> last b = dash then butlast b else b)
         in no_double_dash r \<and> (r \<noteq> [] \<longrightarrow> last r \<noteq> dash)"
proof (cases "b \<noteq> [] \<and> last b = dash")
  case True
  then obtain a where b: "b = a @ [dash]" by (metis append_butlast_last_id)
  have "no_double_dash a"
    unfolding no_double_dash_def
  proof (intro allI impI)
    fix i assume i: "Suc i < length a"
    then have "\<not> (b ! i = dash \<and> b ! Suc i = dash)"
      using assms by (simp add: b no_double_dash_def)
    with i show "\<not> (a ! i = dash \<and> a ! Suc i = dash)" by (simp add: b nth_append)
  qed
  moreover have "a \<noteq> [] \<longrightarrow> last a \<noteq> dash"
  proof
    assume "a \<noteq> []"
    then have "Suc (length a - 1) < length b" "b ! (length a - 1) = last a" "b ! Suc (length a - 1) = dash"
      by (auto simp: b nth_append last_conv_nth)
    then show "last a \<noteq> dash" using assms by (metis no_double_dash_def)
  qed
  ultimately show ?thesis by (simp add: b)
next
  case False
  then show ?thesis using assms by auto
qed

section \<open>Properties\<close>

text \<open>C39: For every kind of resource the getter and the formatter are exact inverses: a getter
  succeeds on a name precisely when the name is the formatted form of a token that holds no
  separator and none of the characters \<open>' " ; \ ( )\<close> and NUL, and then it returns that token.
  So no accepted name can smuggle a dangerous character or a further path segment, and two
  valid tokens never share a name.\<close>

theorem resource_names_exact:
  "(GetUserHandle n = Inr t \<longleftrightarrow> n = FormatUserHandle t \<and> valid_token t) \<and>
   (GetRoleID n = Inr t \<longleftrightarrow> n = FormatRole t \<and> valid_token t) \<and>
   (GetGroupEmail n = Inr t \<longleftrightarrow> n = FormatGroupName t \<and> valid_token t) \<and>
   (GetAgentResourceID n = Inr t \<longleftrightarrow> n = FormatAgentUID t \<and> valid_token t) \<and>
   (GetAgentTeamResourceID n = Inr t \<longleftrightarrow> n = FormatAgentTeamName t \<and> valid_token t) \<and>
   (GetMachineResourceID n = Inr t \<longleftrightarrow> n = FormatMachineUID t \<and> valid_token t) \<and>
   (GetConversationResourceID n = Inr t \<longleftrightarrow> n = FormatConversationName t \<and> valid_token t) \<and>
   (GetAPIProviderResourceID n = Inr t \<longleftrightarrow> n = FormatAPIProviderUID t \<and> valid_token t) \<and>
   (GetMcpServerResourceID n = Inr t \<longleftrightarrow> n = FormatMcpServerUID t \<and> valid_token t) \<and>
   (GetProvisionerResourceID n = Inr t \<longleftrightarrow> n = FormatProvisionerUID t \<and> valid_token t) \<and>
   (ParseUserAvatarName n = Inr t \<longleftrightarrow> n = FormatUserAvatar t \<and> valid_token t) \<and>
   (ParseAgentAvatarName n = Inr t \<longleftrightarrow> n = FormatAgentAvatar t \<and> valid_token t) \<and>
   (ParseAPIProviderEntryName n = Inr (t, e) \<longleftrightarrow>
      n = FormatAPIProviderEntryName t e \<and> valid_token t \<and> valid_token e)"
  by (intro conjI user_name.get_iff role_name.get_iff group_name.get_iff agent_name.get_iff
      team_name.get_iff machine_name.get_iff conversation_name.get_iff provider_name.get_iff
      mcp_name.get_iff provisioner_name.get_iff user_avatar.get_iff agent_avatar.get_iff
      ParseAPIProviderEntryName_Inr)

text \<open>The suffix of a handle is a reliable discriminator: no handle is both a user and an
  agent handle, and a formatted handle is recognised as its own kind whatever its slug
  contains, even another kind's suffix.\<close>

theorem handle_kind_discriminates:
  "\<not> (HandleKindOf h HandleKindUser \<and> HandleKindOf h HandleKindAgent) \<and>
   HandleKindOf (FormatHandle slug HandleKindUser (int n)) HandleKindUser \<and>
   HandleKindOf (FormatHandle slug HandleKindAgent (int n)) HandleKindAgent"
proof (intro conjI)
  show "\<not> (HandleKindOf h HandleKindUser \<and> HandleKindOf h HandleKindAgent)"
    unfolding HandleKindOf_iff [OF kinds_not_digits(1)] HandleKindOf_iff [OF kinds_not_digits(2)]
    using handle_tail_unique(2) kind_tail_distinct by metis
  show "HandleKindOf (FormatHandle slug HandleKindUser (int n)) HandleKindUser"
    by (rule HandleKindOf_format [OF kinds_not_digits(1)])
  show "HandleKindOf (FormatHandle slug HandleKindAgent (int n)) HandleKindAgent"
    by (rule HandleKindOf_format [OF kinds_not_digits(2)])
qed

text \<open>A slug consists of letters, digits, underscores and dashes only, has no two dashes in
  a row and neither begins nor ends with one, provided the Unicode tables do not class the
  dash itself as a letter or a digit. In particular a rune that is not a letter or a digit
  (\<open>@\<close>, \<open>/\<close>, a space) never reaches a mention token.\<close>

theorem SlugifyHandle_safe:
  assumes "\<not> IsLetter U dash" "\<not> IsDigit U dash"
  shows "(\<forall>r \<in> set (SlugifyHandle U name). IsLetter U r \<or> IsDigit U r \<or> r = underscore \<or> r = dash)
    \<and> no_double_dash (SlugifyHandle U name)
    \<and> (SlugifyHandle U name \<noteq> [] \<longrightarrow>
         hd (SlugifyHandle U name) \<noteq> dash \<and> last (SlugifyHandle U name) \<noteq> dash)"
proof -
  define b where "b = slug_loop U True (map (ToLower U)
    (rev (dropWhile (IsSpace U) (rev (dropWhile (IsSpace U) name)))))"
  have s: "SlugifyHandle U name = (if b \<noteq> [] \<and> last b = dash then butlast b else b)"
    by (simp add: SlugifyHandle_def b_def Let_def)
  have d: "no_double_dash b" "b = [] \<or> hd b \<noteq> dash"
    using slug_loop_dashes [OF assms, of True] by (auto simp: b_def)
  have "\<forall>r \<in> set b. IsLetter U r \<or> IsDigit U r \<or> r = underscore \<or> r = dash"
    unfolding b_def by (blast dest: slug_loop_set)
  moreover have "butlast b \<noteq> [] \<Longrightarrow> hd (butlast b) = hd b" by (cases b) auto
  ultimately show ?thesis
    using d butlast_dash_free [OF d(1)] unfolding s Let_def by (auto dest: in_set_butlastD)
qed

definition ascii_tables :: unicode_tables where
  "ascii_tables = \<lparr>IsLetter = (\<lambda>r. 65 \<le> r \<and> r \<le> 90 \<or> 97 \<le> r \<and> r \<le> 122),
     IsDigit = (\<lambda>r. 48 \<le> r \<and> r \<le> 57), IsSpace = (\<lambda>r. r = 32 \<or> 9 \<le> r \<and> r \<le> 13),
     ToLower = (\<lambda>r. if 65 \<le> r \<and> r \<le> 90 then r + 32 else r)\<rparr>"

theorem SlugifyHandle_safe_witness:
  "SlugifyHandle ascii_tables [32, 82, 64, 45, 32, 97, 47, 32] = [114, 45, 97] \<and>
   no_double_dash (SlugifyHandle ascii_tables [32, 82, 64, 45, 32, 97, 47, 32])"
proof -
  have "\<not> IsLetter ascii_tables dash" "\<not> IsDigit ascii_tables dash"
    by (simp_all add: ascii_tables_def dash_def)
  note h = SlugifyHandle_safe [OF this, of "[32, 82, 64, 45, 32, 97, 47, 32]"]
  have "SlugifyHandle ascii_tables [32, 82, 64, 45, 32, 97, 47, 32] = [114, 45, 97]"
    by (simp add: SlugifyHandle_def ascii_tables_def dash_def underscore_def)
  with h show ?thesis by blast
qed

end
