(* ===== verification/Upload_Wire.thy ===== *)
theory Upload_Wire
  imports Laelia_Prelude
begin

text \<open>
  The messages that travel between a machine's outbox and the manager: the
  \<open>UploadCommandData\<close> entry with its progress, event and result payloads, and the response
  with its acknowledgement watermarks and rejections
  (\<open>backend/generated-go/v1/machine.pb.go\<close>, \<open>command.pb.go\<close>). Protobuf enums are open, so an
  enum value is its number; \<open>int32\<close> fields are integers; a timestamp is an optional number
  of nanoseconds (\<open>None\<close> for a missing or invalid one).
\<close>

section \<open>Kinds\<close>

definition KIND_PROGRESS :: int where "KIND_PROGRESS = 1"
definition KIND_EVENT :: int where "KIND_EVENT = 2"
definition KIND_RESULT :: int where "KIND_RESULT = 3"

lemmas kind_defs = KIND_PROGRESS_def KIND_EVENT_def KIND_RESULT_def

lemma kinds_distinct [simp]:
  "KIND_PROGRESS \<noteq> KIND_EVENT" "KIND_PROGRESS \<noteq> KIND_RESULT" "KIND_EVENT \<noteq> KIND_RESULT"
  "KIND_EVENT \<noteq> KIND_PROGRESS" "KIND_RESULT \<noteq> KIND_PROGRESS" "KIND_RESULT \<noteq> KIND_EVENT"
  by (simp_all add: kind_defs)

definition STREAM_STDOUT :: int where "STREAM_STDOUT = 1"
definition STREAM_STDERR :: int where "STREAM_STDERR = 2"
definition STREAM_SYSTEM :: int where "STREAM_SYSTEM = 3"
definition STREAM_ASSISTANT :: int where "STREAM_ASSISTANT = 4"

definition EVENT_LIFECYCLE :: int where "EVENT_LIFECYCLE = 1"
definition EVENT_TEXT_DELTA :: int where "EVENT_TEXT_DELTA = 2"
definition EVENT_TOOL_CALL_STARTED :: int where "EVENT_TOOL_CALL_STARTED = 3"
definition EVENT_TOOL_CALL_FINISHED :: int where "EVENT_TOOL_CALL_FINISHED = 4"
definition EVENT_DIFF_EMITTED :: int where "EVENT_DIFF_EMITTED = 5"
definition EVENT_WARNING :: int where "EVENT_WARNING = 6"
definition EVENT_RAW_ACP :: int where "EVENT_RAW_ACP = 7"
definition EVENT_FINAL_SUMMARY :: int where "EVENT_FINAL_SUMMARY = 8"
definition EVENT_CONTEXT_COMPACTION_STARTED :: int where "EVENT_CONTEXT_COMPACTION_STARTED = 12"
definition EVENT_CONTEXT_COMPACTION_FINISHED :: int where "EVENT_CONTEXT_COMPACTION_FINISHED = 13"
definition EVENT_CONTEXT_USAGE_UPDATE :: int where "EVENT_CONTEXT_USAGE_UPDATE = 14"
definition EVENT_TOKEN_USAGE :: int where "EVENT_TOKEN_USAGE = 15"
definition EVENT_SYSTEM :: int where "EVENT_SYSTEM = 16"

lemmas event_type_defs = EVENT_LIFECYCLE_def EVENT_TEXT_DELTA_def EVENT_TOOL_CALL_STARTED_def
  EVENT_TOOL_CALL_FINISHED_def EVENT_DIFF_EMITTED_def EVENT_WARNING_def EVENT_RAW_ACP_def
  EVENT_FINAL_SUMMARY_def EVENT_CONTEXT_COMPACTION_STARTED_def
  EVENT_CONTEXT_COMPACTION_FINISHED_def EVENT_CONTEXT_USAGE_UPDATE_def EVENT_TOKEN_USAGE_def
  EVENT_SYSTEM_def

section \<open>Messages\<close>

record token_usage =
  tu_input :: int
  tu_output :: int
  tu_cache_read :: int
  tu_cache_write :: int
  tu_total :: int

text \<open>The arms of the event's payload \<open>oneof\<close>; an arm whose fields no code here reads keeps
  its message as an uninterpreted string.\<close>

datatype event_payload =
    Lifecycle string
  | TextDelta string
  | ToolCallStarted string
  | ToolCallFinished string
  | DiffEmitted string
  | Warning string
  | RawAcp string
  | FinalSummaryPayload string
  | ContextCompaction string
  | ContextUsage string
  | TokenUsage token_usage

record command_progress =
  pr_command_id :: string
  pr_type :: int
  pr_content :: string
  pr_seq_no :: int
  pr_timestamp :: "int option"

record command_event =
  ev_command_id :: string
  ev_seq_no :: int
  ev_type :: int
  ev_summary :: string
  ev_timestamp :: "int option"
  ev_payload :: "event_payload option"

record command_result =
  cr_command_id :: string
  cr_exit_code :: int
  cr_duration_ms :: int
  cr_error_message :: string
  cr_last_seq_no :: int
  cr_final_summary :: string
  cr_result :: "string option"

datatype entry_payload =
    NoPayload
  | ProgressPayload command_progress
  | EventPayload command_event
  | ResultPayload command_result

record upload_entry =
  ue_command_id :: string
  ue_kind :: int
  ue_seq_no :: int
  ue_timestamp :: "int option"
  ue_payload :: entry_payload

record upload_ack =
  ack_command_id :: string
  ack_last_progress_seq :: int
  ack_last_event_seq :: int
  ack_result_acked :: bool

record upload_rejection =
  rej_command_id :: string
  rej_kind :: int
  rej_seq_no :: int
  rej_reason :: string

record upload_response =
  resp_acks :: "upload_ack list"
  resp_rejected :: "upload_rejection list"

text \<open>The key under which the manager deduplicates and the machine matches rejections.\<close>

definition entry_key :: "upload_entry \<Rightarrow> string \<times> int \<times> int" where
  "entry_key e = (ue_command_id e, ue_kind e, ue_seq_no e)"

section \<open>Envelopes built by the turn loop\<close>

text \<open>\<open>progressEnvelope\<close>, \<open>eventEnvelope\<close> and \<open>resultEnvelope\<close> of
  \<open>backend/agent/client/command_outbox.go\<close>; \<open>now\<close> is the clock reading.\<close>

record output_chunk =
  oc_stream_type :: int
  oc_content :: string
  oc_seq_no :: int
  oc_timestamp :: "int option"

definition progressEnvelope :: "int \<Rightarrow> string \<Rightarrow> output_chunk \<Rightarrow> upload_entry" where
  "progressEnvelope now commandID chunk =
     (let timestamp = (case oc_timestamp chunk of None \<Rightarrow> Some now | Some t \<Rightarrow> Some t) in
      \<lparr>ue_command_id = commandID, ue_kind = KIND_PROGRESS, ue_seq_no = oc_seq_no chunk,
       ue_timestamp = timestamp,
       ue_payload = ProgressPayload
         \<lparr>pr_command_id = commandID, pr_type = oc_stream_type chunk,
          pr_content = oc_content chunk, pr_seq_no = oc_seq_no chunk,
          pr_timestamp = timestamp\<rparr>\<rparr>)"

definition eventEnvelope :: "int \<Rightarrow> string \<Rightarrow> int \<Rightarrow> command_event \<Rightarrow> upload_entry" where
  "eventEnvelope now commandID seqNo event =
     \<lparr>ue_command_id = commandID, ue_kind = KIND_EVENT, ue_seq_no = seqNo,
      ue_timestamp = Some now, ue_payload = EventPayload event\<rparr>"

definition resultEnvelope :: "command_result \<Rightarrow> upload_entry" where
  "resultEnvelope result =
     \<lparr>ue_command_id = cr_command_id result, ue_kind = KIND_RESULT, ue_seq_no = 1,
      ue_timestamp = None, ue_payload = ResultPayload result\<rparr>"

end
