(* ===== verification/Outbox.thy ===== *)
theory Outbox
  imports Upload_Wire
begin

text \<open>
  The machine-side durable buffer (\<open>backend/agent/outbox/outbox.go\<close>). The write-ahead log
  library (\<open>github.com/tidwall/wal\<close>), the file system and protobuf serialisation are not part
  of the repository: they are the functions of the record \<open>wal_env\<close>, over a type \<open>'w\<close> of
  states of the log's directory and handle. What the outbox relies on of them is the
  predicate \<open>wal_contract\<close>, stated from the package's own description of the library: indices
  without gaps, an empty log reported as first = last + 1, and a serialisation that reads
  back. WAL indices are \<open>uint64\<close>; the model counts them as naturals, since no log holds
  \<open>2 ^ 64\<close> records.

  The lemmas show that the outbox is a queue: appending, flushing, reading and evicting
  refine the operations on the list of its records, that reading terminates, and what every
  operation does on a closed outbox or a failing disk.
\<close>

section \<open>The environment\<close>

datatype wal_error = WalCorrupt | WalNotFound | WalOutOfRange | WalOther nat

datatype outbox_error =
    ErrClosed
  | ErrWal wal_error
  | ErrJoin outbox_error outbox_error

datatype read_dir = DirNotExist | DirError | DirEntries "(bool \<times> nat option) list"

type_synonym bytes = string

record 'w wal_env =
  wal_Open :: "'w \<Rightarrow> wal_error option \<times> 'w"
  wal_Close :: "'w \<Rightarrow> wal_error option \<times> 'w"
  wal_FirstIndex :: "'w \<Rightarrow> (wal_error, nat) result"
  wal_LastIndex :: "'w \<Rightarrow> (wal_error, nat) result"
  wal_WriteBatch :: "'w \<Rightarrow> (nat \<times> bytes) list \<Rightarrow> wal_error option \<times> 'w"
  wal_Read :: "'w \<Rightarrow> nat \<Rightarrow> (wal_error, bytes) result"
  wal_TruncateFront :: "'w \<Rightarrow> nat \<Rightarrow> wal_error option \<times> 'w"
  os_Rename :: "'w \<Rightarrow> wal_error option \<times> 'w"
  os_ReadDir :: "'w \<Rightarrow> read_dir"
  proto_Marshal :: "upload_entry \<Rightarrow> bytes option"
  proto_Unmarshal :: "bytes \<Rightarrow> upload_entry option"
  proto_Size :: "upload_entry \<Rightarrow> nat"

section \<open>The outbox\<close>

definition flushThresholdBytes :: int where "flushThresholdBytes = 64 * 1024"
definition MaxBytes :: int where "MaxBytes = 512 * 2 ^ 20"
definition ReadBatchMaxEntries :: nat where "ReadBatchMaxEntries = 4096"

text \<open>A \<open>Record\<close>: a WAL index with its envelope, \<open>None\<close> for a poison record.\<close>

record wal_record =
  rec_Index :: nat
  rec_Entry :: "upload_entry option"

text \<open>\<open>ob_log\<close> tells whether the WAL handle is set (Go's \<open>log != nil\<close>).\<close>

record 'w outbox =
  ob_world :: 'w
  ob_log :: bool
  ob_closed :: bool
  ob_buffered :: "upload_entry list"
  ob_bufferedBytes :: int

definition openWAL :: "'w wal_env \<Rightarrow> 'w \<Rightarrow> wal_error option \<times> 'w" where
  "openWAL env w = wal_Open env w"

definition quarantine :: "'w wal_env \<Rightarrow> 'w \<Rightarrow> wal_error option \<times> 'w" where
  "quarantine env w = os_Rename env w"

definition fresh_outbox :: "'w \<Rightarrow> 'w outbox" where
  "fresh_outbox w = \<lparr>ob_world = w, ob_log = True, ob_closed = False, ob_buffered = [],
     ob_bufferedBytes = 0\<rparr>"

definition Open :: "'w wal_env \<Rightarrow> 'w \<Rightarrow> (outbox_error, 'w outbox) result" where
  "Open env w =
     (case openWAL env w of
        (None, w1) \<Rightarrow> Inr (fresh_outbox w1)
      | (Some err, w1) \<Rightarrow>
          if err \<noteq> WalCorrupt then Inl (ErrWal err)
          else
            (case openWAL env w1 of
               (None, w2) \<Rightarrow> Inr (fresh_outbox w2)
             | (Some _, w2) \<Rightarrow>
                 (case openWAL env (snd (quarantine env w2)) of
                    (None, w4) \<Rightarrow> Inr (fresh_outbox w4)
                  | (Some err4, w4) \<Rightarrow> Inl (ErrWal err4))))"

definition walRange :: "'w wal_env \<Rightarrow> 'w \<Rightarrow> (outbox_error, nat \<times> nat) result" where
  "walRange env w =
     (case wal_FirstIndex env w of
        Inl e \<Rightarrow> Inl (ErrWal e)
      | Inr lo \<Rightarrow>
          (case wal_LastIndex env w of
             Inl e \<Rightarrow> Inl (ErrWal e)
           | Inr hi \<Rightarrow> Inr (lo, hi)))"

definition marshalEnvelope :: "'w wal_env \<Rightarrow> upload_entry \<Rightarrow> bytes" where
  "marshalEnvelope env e = (case proto_Marshal env e of None \<Rightarrow> [] | Some data \<Rightarrow> data)"

fun wal_batch :: "'w wal_env \<Rightarrow> nat \<Rightarrow> upload_entry list \<Rightarrow> (nat \<times> bytes) list" where
  "wal_batch env next [] = []"
| "wal_batch env next (e # es) = (next, marshalEnvelope env e) # wal_batch env (next + 1) es"

definition appendBatchLocked ::
  "'w wal_env \<Rightarrow> 'w outbox \<Rightarrow> upload_entry list \<Rightarrow> outbox_error option \<times> 'w outbox" where
  "appendBatchLocked env ob entries =
     (if \<not> ob_log ob then (Some ErrClosed, ob)
      else
        (case walRange env (ob_world ob) of
           Inl e \<Rightarrow> (Some e, ob)
         | Inr (_, hi) \<Rightarrow>
             (case wal_WriteBatch env (ob_world ob) (wal_batch env (hi + 1) entries) of
                (err, w) \<Rightarrow> (map_option ErrWal err, ob\<lparr>ob_world := w\<rparr>))))"

definition reopenLocked :: "'w wal_env \<Rightarrow> 'w outbox \<Rightarrow> outbox_error option \<times> 'w outbox" where
  "reopenLocked env ob =
     (let w0 = (if ob_log ob then snd (wal_Close env (ob_world ob)) else ob_world ob) in
      case openWAL env w0 of
        (Some e, w1) \<Rightarrow> (Some (ErrWal e), ob\<lparr>ob_world := w1, ob_log := False\<rparr>)
      | (None, w1) \<Rightarrow> (None, ob\<lparr>ob_world := w1, ob_log := True\<rparr>))"

definition writeLocked ::
  "'w wal_env \<Rightarrow> 'w outbox \<Rightarrow> upload_entry list \<Rightarrow> outbox_error option \<times> 'w outbox" where
  "writeLocked env ob entries =
     (case appendBatchLocked env ob entries of
        (None, ob1) \<Rightarrow> (None, ob1)
      | (Some _, ob1) \<Rightarrow>
          (case reopenLocked env ob1 of
             (Some e, ob2) \<Rightarrow> (Some e, ob2)
           | (None, ob2) \<Rightarrow>
               (case appendBatchLocked env ob2 entries of
                  (None, ob3) \<Rightarrow> (None, ob3)
                | (Some err, ob3) \<Rightarrow>
                    (let w4 = (if ob_log ob3 then snd (wal_Close env (ob_world ob3)) else ob_world ob3);
                         w5 = snd (quarantine env w4)
                     in case openWAL env w5 of
                          (Some openErr, w6) \<Rightarrow>
                            (Some (ErrJoin err (ErrWal openErr)),
                             ob3\<lparr>ob_world := w6, ob_log := False\<rparr>)
                        | (None, w6) \<Rightarrow> (Some err, ob3\<lparr>ob_world := w6, ob_log := True\<rparr>)))))"

definition flushLocked :: "'w wal_env \<Rightarrow> 'w outbox \<Rightarrow> outbox_error option \<times> 'w outbox" where
  "flushLocked env ob =
     (if ob_buffered ob = [] then (None, ob)
      else
        (case writeLocked env ob (ob_buffered ob) of
           (Some err, ob1) \<Rightarrow> (Some err, ob1)
         | (None, ob1) \<Rightarrow> (None, ob1\<lparr>ob_buffered := [], ob_bufferedBytes := 0\<rparr>)))"

definition Append ::
  "'w wal_env \<Rightarrow> 'w outbox \<Rightarrow> upload_entry \<Rightarrow> outbox_error option \<times> 'w outbox" where
  "Append env ob entry =
     (if ob_closed ob then (Some ErrClosed, ob)
      else
        (let ob1 = ob\<lparr>ob_buffered := ob_buffered ob @ [entry],
                      ob_bufferedBytes := ob_bufferedBytes ob + int (proto_Size env entry)\<rparr>
         in if ob_bufferedBytes ob1 \<ge> flushThresholdBytes then flushLocked env ob1
            else (None, ob1)))"

definition Flush :: "'w wal_env \<Rightarrow> 'w outbox \<Rightarrow> outbox_error option \<times> 'w outbox" where
  "Flush env ob = (if ob_closed ob then (Some ErrClosed, ob) else flushLocked env ob)"

definition ensureLogLocked :: "'w wal_env \<Rightarrow> 'w outbox \<Rightarrow> outbox_error option \<times> 'w outbox" where
  "ensureLogLocked env ob =
     (if ob_log ob then (None, ob)
      else if ob_closed ob then (Some ErrClosed, ob)
      else
        (case openWAL env (ob_world ob) of
           (Some e, w) \<Rightarrow> (Some (ErrWal e), ob\<lparr>ob_world := w\<rparr>)
         | (None, w) \<Rightarrow> (None, ob\<lparr>ob_world := w, ob_log := True\<rparr>)))"

text \<open>
  The read loop. The library's answers are functions of its state, so a log that keeps
  answering \<open>ErrNotFound\<close> inside its own range makes the Go loop spin; the model is
  therefore partial, \<open>None\<close> standing for a loop that does not end.
\<close>

datatype read_out =
    ReadDone "wal_record list"
  | ReadRangeErr outbox_error
  | ReadFault wal_error

definition read_record :: "'w wal_env \<Rightarrow> nat \<Rightarrow> bytes \<Rightarrow> wal_record" where
  "read_record env idx data = \<lparr>rec_Index = idx, rec_Entry = proto_Unmarshal env data\<rparr>"

partial_function (option) read_loop ::
  "'w wal_env \<Rightarrow> 'w \<Rightarrow> nat \<Rightarrow> int \<Rightarrow> nat \<Rightarrow> nat \<Rightarrow> wal_record list \<Rightarrow> read_out option" where
  "read_loop env w maxRecords maxBytes lo hi records =
     (if \<not> length records < maxRecords then Some (ReadDone records)
      else if hi < lo then Some (ReadDone records)
      else
        (case wal_Read env w lo of
           Inl rErr \<Rightarrow>
             if rErr = WalNotFound then
               (case walRange env w of
                  Inl e \<Rightarrow> Some (ReadRangeErr e)
                | Inr (lo', hi') \<Rightarrow>
                    if hi' < lo' then Some (ReadDone records)
                    else read_loop env w maxRecords maxBytes lo' hi' records)
             else Some (ReadFault rErr)
         | Inr data \<Rightarrow>
             if records \<noteq> [] \<and> maxBytes - int (length data) < 0 then Some (ReadDone records)
             else
               (let records' = records @ [read_record env lo data];
                    maxBytes' = maxBytes - int (length data)
                in if maxBytes' \<le> 0 then Some (ReadDone records')
                   else read_loop env w maxRecords maxBytes' (lo + 1) hi records')))"

definition ReadRecords ::
  "'w wal_env \<Rightarrow> 'w outbox \<Rightarrow> nat \<Rightarrow> int \<Rightarrow> nat \<Rightarrow>
     ((outbox_error, wal_record list) result \<times> 'w outbox) option" where
  "ReadRecords env ob maxRecords maxBytes from =
     (if ob_closed ob then Some (Inl ErrClosed, ob)
      else
        (case ensureLogLocked env ob of
           (Some e, ob1) \<Rightarrow> Some (Inl e, ob1)
         | (None, ob1) \<Rightarrow>
             (case flushLocked env ob1 of
                (Some e, ob2) \<Rightarrow> Some (Inl e, ob2)
              | (None, ob2) \<Rightarrow>
                  (case walRange env (ob_world ob2) of
                     Inl e \<Rightarrow> Some (Inl e, ob2)
                   | Inr (lo, hi) \<Rightarrow>
                       (let from' = (if from > hi + 1 then lo else from);
                            start = (if from' > lo then from' else lo)
                        in case read_loop env (ob_world ob2) maxRecords maxBytes start hi [] of
                             None \<Rightarrow> None
                           | Some (ReadDone records) \<Rightarrow> Some (Inr records, ob2)
                           | Some (ReadRangeErr e) \<Rightarrow> Some (Inl e, ob2)
                           | Some (ReadFault rErr) \<Rightarrow>
                               (case reopenLocked env ob2 of
                                  (Some oErr, ob3) \<Rightarrow> Some (Inl (ErrJoin (ErrWal rErr) oErr), ob3)
                                | (None, ob3) \<Rightarrow> Some (Inl (ErrWal rErr), ob3)))))))"

definition EvictThrough ::
  "'w wal_env \<Rightarrow> 'w outbox \<Rightarrow> nat \<Rightarrow> outbox_error option \<times> 'w outbox" where
  "EvictThrough env ob idx =
     (if ob_closed ob then (Some ErrClosed, ob)
      else
        (case ensureLogLocked env ob of
           (Some e, ob1) \<Rightarrow> (Some e, ob1)
         | (None, ob1) \<Rightarrow>
             (case walRange env (ob_world ob1) of
                Inl e \<Rightarrow> (Some e, ob1)
              | Inr (lo, hi) \<Rightarrow>
                  if hi < lo \<or> idx < lo then (None, ob1)
                  else
                    (let idx' = (if idx > hi then hi else idx) in
                     case wal_TruncateFront env (ob_world ob1) (idx' + 1) of
                       (None, w) \<Rightarrow> (None, ob1\<lparr>ob_world := w\<rparr>)
                     | (Some err, w) \<Rightarrow>
                         if err = WalOutOfRange then (None, ob1\<lparr>ob_world := w\<rparr>)
                         else
                           (case reopenLocked env (ob1\<lparr>ob_world := w\<rparr>) of
                              (Some rErr, ob2) \<Rightarrow> (Some (ErrJoin (ErrWal err) rErr), ob2)
                            | (None, ob2) \<Rightarrow> (Some (ErrWal err), ob2))))))"

text \<open>\<open>Empty\<close> returns its boolean even beside an error, as the Go signature does.\<close>

definition Empty :: "'w wal_env \<Rightarrow> 'w outbox \<Rightarrow> (bool \<times> outbox_error option) \<times> 'w outbox" where
  "Empty env ob =
     (if ob_closed ob then ((True, Some ErrClosed), ob)
      else
        (case ensureLogLocked env ob of
           (Some e, ob1) \<Rightarrow> ((True, Some e), ob1)
         | (None, ob1) \<Rightarrow>
             if ob_buffered ob1 \<noteq> [] then ((False, None), ob1)
             else
               (case walRange env (ob_world ob1) of
                  Inl e \<Rightarrow> ((True, Some e), ob1)
                | Inr (lo, hi) \<Rightarrow> ((hi < lo, None), ob1))))"

definition dirSize :: "'w wal_env \<Rightarrow> 'w \<Rightarrow> int option" where
  "dirSize env w =
     (case os_ReadDir env w of
        DirNotExist \<Rightarrow> Some 0
      | DirError \<Rightarrow> None
      | DirEntries ents \<Rightarrow>
          Some (sum_list (map (\<lambda>(isDir, info).
            if isDir then 0 else (case info of None \<Rightarrow> 0 | Some n \<Rightarrow> int n)) ents)))"

definition EnforceCap :: "'w wal_env \<Rightarrow> 'w outbox \<Rightarrow> 'w outbox" where
  "EnforceCap env ob =
     (if ob_closed ob \<or> \<not> ob_log ob then ob
      else
        (case dirSize env (ob_world ob) of
           None \<Rightarrow> ob
         | Some sz \<Rightarrow>
             if sz < MaxBytes then ob
             else
               (case walRange env (ob_world ob) of
                  Inl _ \<Rightarrow> ob
                | Inr (lo, hi) \<Rightarrow>
                    if hi < lo then ob
                    else
                      (case wal_TruncateFront env (ob_world ob) (hi + 1) of
                         (None, w) \<Rightarrow> ob\<lparr>ob_world := w\<rparr>
                       | (Some _, w) \<Rightarrow> snd (reopenLocked env (ob\<lparr>ob_world := w\<rparr>))))))"

definition Close :: "'w wal_env \<Rightarrow> 'w outbox \<Rightarrow> outbox_error option \<times> 'w outbox" where
  "Close env ob =
     (let ob1 = ob\<lparr>ob_closed := True\<rparr> in
      if \<not> ob_log ob1 then (None, ob1)
      else
        (case wal_Close env (ob_world ob1) of
           (err, w) \<Rightarrow> (map_option ErrWal err, ob1\<lparr>ob_world := w, ob_log := False\<rparr>)))"

definition rangeForMetrics :: "'w wal_env \<Rightarrow> 'w outbox \<Rightarrow> (outbox_error, nat \<times> nat) result" where
  "rangeForMetrics env ob =
     (if ob_closed ob \<or> \<not> ob_log ob then Inl ErrClosed else walRange env (ob_world ob))"

section \<open>What the outbox relies on\<close>

text \<open>
  \<open>ok\<close> holds of the states in which the library works, \<open>view\<close> gives the first index and the
  payloads of the log. The clauses are the library's documented behaviour on a working log:
  its index range (first = last + 1 when empty), reads inside and outside the range, batches
  written at the next index, truncation of a prefix.
\<close>

definition wal_contract ::
  "'w wal_env \<Rightarrow> ('w \<Rightarrow> bool) \<Rightarrow> ('w \<Rightarrow> nat \<times> bytes list) \<Rightarrow> bool" where
  "wal_contract env ok view \<longleftrightarrow>
     (\<forall>w lo ds. ok w \<longrightarrow> view w = (lo, ds) \<longrightarrow>
        0 < lo \<and>
        wal_FirstIndex env w = Inr lo \<and>
        wal_LastIndex env w = Inr (lo + length ds - 1) \<and>
        (\<forall>i. wal_Read env w i =
           (if lo \<le> i \<and> i < lo + length ds then Inr (ds ! (i - lo)) else Inl WalNotFound)) \<and>
        (\<forall>ps. map fst ps = [lo + length ds..<lo + length ds + length ps] \<longrightarrow>
           (\<exists>w'. wal_WriteBatch env w ps = (None, w') \<and> ok w' \<and> view w' = (lo, ds @ map snd ps))) \<and>
        (\<forall>i. lo \<le> i \<longrightarrow> i \<le> lo + length ds \<longrightarrow>
           (\<exists>w'. wal_TruncateFront env w i = (None, w') \<and> ok w' \<and> view w' = (i, drop (i - lo) ds))))"

text \<open>An entry that protobuf serialises, reads back and sizes correctly.\<close>

definition roundtrips :: "'w wal_env \<Rightarrow> upload_entry \<Rightarrow> bool" where
  "roundtrips env e \<longleftrightarrow>
     (\<exists>b. proto_Marshal env e = Some b \<and> proto_Unmarshal env b = Some e \<and> proto_Size env e = length b)"

lemma wal_contractD:
  assumes "wal_contract env ok view" "ok w" "view w = (lo, ds)"
  shows "0 < lo" "wal_FirstIndex env w = Inr lo" "wal_LastIndex env w = Inr (lo + length ds - 1)"
    and "wal_Read env w i =
      (if lo \<le> i \<and> i < lo + length ds then Inr (ds ! (i - lo)) else Inl WalNotFound)"
    and "map fst ps = [lo + length ds..<lo + length ds + length ps] \<Longrightarrow>
      \<exists>w'. wal_WriteBatch env w ps = (None, w') \<and> ok w' \<and> view w' = (lo, ds @ map snd ps)"
    and "lo \<le> i \<Longrightarrow> i \<le> lo + length ds \<Longrightarrow>
      \<exists>w'. wal_TruncateFront env w i = (None, w') \<and> ok w' \<and> view w' = (i, drop (i - lo) ds)"
  using assms(1) [unfolded wal_contract_def, rule_format, OF assms(2,3)] by blast+

lemma walRange_ok:
  "wal_contract env ok view \<Longrightarrow> ok w \<Longrightarrow> view w = (lo, ds) \<Longrightarrow>
     walRange env w = Inr (lo, lo + length ds - 1)"
  by (simp add: walRange_def wal_contractD)

section \<open>The outbox as a queue\<close>

definition healthy :: "'w wal_env \<Rightarrow> ('w \<Rightarrow> bool) \<Rightarrow> 'w outbox \<Rightarrow> bool" where
  "healthy env ok ob \<longleftrightarrow>
     ob_log ob \<and> \<not> ob_closed ob \<and> ok (ob_world ob) \<and> (\<forall>e \<in> set (ob_buffered ob). roundtrips env e)"

definition log_base :: "('w \<Rightarrow> nat \<times> bytes list) \<Rightarrow> 'w outbox \<Rightarrow> nat" where
  "log_base view ob = fst (view (ob_world ob))"

definition log_data :: "('w \<Rightarrow> nat \<times> bytes list) \<Rightarrow> 'w outbox \<Rightarrow> bytes list" where
  "log_data view ob = snd (view (ob_world ob))"

text \<open>The records waiting for upload, oldest first: those in the log (\<open>None\<close> for a payload
  that does not parse) and those still in the append buffer.\<close>

definition queue ::
  "'w wal_env \<Rightarrow> ('w \<Rightarrow> nat \<times> bytes list) \<Rightarrow> 'w outbox \<Rightarrow> upload_entry option list" where
  "queue env view ob =
     map (proto_Unmarshal env) (log_data view ob) @ map Some (ob_buffered ob)"

lemma wal_batch_fst: "map fst (wal_batch env n es) = [n..<n + length es]"
  by (induction es arbitrary: n) (simp_all add: upt_front del: upt_Suc)

lemma wal_batch_snd: "map snd (wal_batch env n es) = map (marshalEnvelope env) es"
  by (induction es arbitrary: n) auto

lemma length_wal_batch [simp]: "length (wal_batch env n es) = length es"
  by (induction es arbitrary: n) auto

lemma unmarshal_marshal: "roundtrips env e \<Longrightarrow> proto_Unmarshal env (marshalEnvelope env e) = Some e"
  by (auto simp: roundtrips_def marshalEnvelope_def)

lemma appendBatch_ok:
  assumes "wal_contract env ok view" "healthy env ok ob"
  shows "\<exists>w'. appendBatchLocked env ob es = (None, ob\<lparr>ob_world := w'\<rparr>) \<and> ok w' \<and>
    view w' = (log_base view ob, log_data view ob @ map (marshalEnvelope env) es)"
proof -
  obtain lo ds where v: "view (ob_world ob) = (lo, ds)" by (cases "view (ob_world ob)")
  from assms(2) have h: "ok (ob_world ob)" "ob_log ob" by (auto simp: healthy_def)
  note c = wal_contractD [OF assms(1) h(1) v]
  have nxt: "lo + length ds - 1 + 1 = lo + length ds" using c(1) by simp
  let ?ps = "wal_batch env (lo + length ds) es"
  obtain w' where w': "wal_WriteBatch env (ob_world ob) ?ps = (None, w')" "ok w'"
      "view w' = (lo, ds @ map snd ?ps)"
    using c(5) [of ?ps] by (auto simp: wal_batch_fst)
  then show ?thesis
    using h v walRange_ok [OF assms(1) h(1) v] nxt
    by (intro exI [of _ w']) (simp add: appendBatchLocked_def wal_batch_snd log_base_def log_data_def)
qed

lemma flush_ok:
  assumes "wal_contract env ok view" "healthy env ok ob"
  shows "\<exists>ob'. flushLocked env ob = (None, ob') \<and> healthy env ok ob' \<and> ob_buffered ob' = [] \<and>
    queue env view ob' = queue env view ob \<and> log_base view ob' = log_base view ob \<and>
    log_data view ob' = log_data view ob @ map (marshalEnvelope env) (ob_buffered ob)"
proof (cases "ob_buffered ob = []")
  case True
  with assms(2) show ?thesis by (simp add: flushLocked_def)
next
  case False
  obtain w' where w': "appendBatchLocked env ob (ob_buffered ob) = (None, ob\<lparr>ob_world := w'\<rparr>)" "ok w'"
      "view w' = (log_base view ob, log_data view ob @ map (marshalEnvelope env) (ob_buffered ob))"
    using appendBatch_ok [OF assms] by blast
  have "map (proto_Unmarshal env \<circ> marshalEnvelope env) (ob_buffered ob) = map Some (ob_buffered ob)"
    using assms(2) by (simp add: healthy_def unmarshal_marshal)
  with w' False assms(2) show ?thesis
    by (simp add: flushLocked_def writeLocked_def healthy_def queue_def log_base_def log_data_def)
qed

lemma Append_ok:
  assumes "wal_contract env ok view" "healthy env ok ob" "roundtrips env e"
  shows "\<exists>ob'. Append env ob e = (None, ob') \<and> healthy env ok ob' \<and>
    queue env view ob' = queue env view ob @ [Some e] \<and> log_base view ob' = log_base view ob"
proof -
  let ?ob1 = "ob\<lparr>ob_buffered := ob_buffered ob @ [e],
    ob_bufferedBytes := ob_bufferedBytes ob + int (proto_Size env e)\<rparr>"
  have h1: "healthy env ok ?ob1" using assms(2,3) by (auto simp: healthy_def)
  have q1: "queue env view ?ob1 = queue env view ob @ [Some e]"
    "log_base view ?ob1 = log_base view ob"
    by (simp_all add: queue_def log_data_def log_base_def)
  obtain ob' where "flushLocked env ?ob1 = (None, ob')" "healthy env ok ob'"
      "queue env view ob' = queue env view ?ob1" "log_base view ob' = log_base view ?ob1"
    using flush_ok [OF assms(1) h1] by blast
  with h1 q1 assms(2) show ?thesis
    by (auto simp: Append_def healthy_def Let_def)
qed

lemma Append_log_grows:
  assumes "wal_contract env ok view" "healthy env ok ob" "roundtrips env e"
  shows "length (log_data view ob) \<le> length (log_data view (snd (Append env ob e)))"
proof -
  let ?ob1 = "ob\<lparr>ob_buffered := ob_buffered ob @ [e],
    ob_bufferedBytes := ob_bufferedBytes ob + int (proto_Size env e)\<rparr>"
  have h1: "healthy env ok ?ob1" using assms(2,3) by (auto simp: healthy_def)
  obtain ob' where f: "flushLocked env ?ob1 = (None, ob')" "ob_buffered ob' = []"
      "queue env view ob' = queue env view ?ob1"
    using flush_ok [OF assms(1) h1] by blast
  have "length (log_data view ob) \<le> length (log_data view ob')"
    using arg_cong [OF f(3), of length] f(2) by (simp add: queue_def log_data_def)
  with f assms(2) show ?thesis
    by (auto simp: Append_def healthy_def Let_def log_data_def)
qed

lemma ensureLog_ok: "healthy env ok ob \<Longrightarrow> ensureLogLocked env ob = (None, ob)"
  by (simp add: ensureLogLocked_def healthy_def)

subsection \<open>Reading\<close>

text \<open>
  The reference reading of a shard: payloads in log order, at most \<open>n\<close> of them, stopping
  before the payload that would exceed the byte budget (never before the first one) and
  after the payload that uses it up.
\<close>

fun shard :: "bool \<Rightarrow> nat \<Rightarrow> int \<Rightarrow> bytes list \<Rightarrow> bytes list" where
  "shard some n cap [] = []"
| "shard some 0 cap ds = []"
| "shard some (Suc n) cap (d # ds) =
     (if some \<and> cap - int (length d) < 0 then []
      else if cap - int (length d) \<le> 0 then [d]
      else d # shard True n (cap - int (length d)) ds)"

definition numbered :: "'w wal_env \<Rightarrow> nat \<Rightarrow> bytes list \<Rightarrow> wal_record list" where
  "numbered env i ds = map (\<lambda>(j, d). read_record env j d) (zip [i..<i + length ds] ds)"

lemma numbered_Nil [simp]: "numbered env i [] = []"
  by (simp add: numbered_def)

lemma numbered_Cons [simp]: "numbered env i (d # ds) = read_record env i d # numbered env (Suc i) ds"
proof -
  have "[i..<i + length (d # ds)] = i # [Suc i..<Suc i + length ds]"
    by (simp add: upt_front del: upt_Suc)
  then show ?thesis by (simp add: numbered_def del: upt_Suc)
qed

lemma length_numbered [simp]: "length (numbered env i ds) = length ds"
  by (simp add: numbered_def)

lemma numbered_entries: "map rec_Entry (numbered env i ds) = map (proto_Unmarshal env) ds"
  by (induction ds arbitrary: i) (auto simp: read_record_def)

lemma numbered_indices: "map rec_Index (numbered env i ds) = [i..<i + length ds]"
  by (induction ds arbitrary: i)
    (simp_all add: read_record_def upt_front del: upt_Suc)

lemma shard_prefix: "prefix (shard some n cap ds) ds"
  by (induction some n cap ds rule: shard.induct) auto

lemma shard_length: "length (shard some n cap ds) \<le> n"
  by (induction some n cap ds rule: shard.induct) auto

lemma shard_progress: "ds \<noteq> [] \<Longrightarrow> 0 < n \<Longrightarrow> shard False n cap ds \<noteq> []"
  by (cases ds; cases n) auto

lemma shard_bytes:
  "0 \<le> cap \<or> \<not> some \<Longrightarrow> int (sum_list (map length (shard some n cap ds))) \<le> cap \<or>
     (\<not> some \<and> length (shard some n cap ds) \<le> 1)"
proof (induction some n cap ds rule: shard.induct)
  case (3 some n cap d ds)
  then show ?case by (auto split: if_splits)
qed auto

lemma read_loop_ok:
  assumes "wal_contract env ok view" "ok w" "view w = (lo, ds)"
  shows "lo \<le> i \<Longrightarrow> rest = drop (i - lo) ds \<Longrightarrow>
    read_loop env w n cap i (lo + length ds - 1) acc =
      Some (ReadDone (acc @ numbered env i (shard (acc \<noteq> []) (n - length acc) cap rest)))"
proof (induction rest arbitrary: i cap acc)
  case Nil
  then have "lo + length ds - 1 < i"
    using wal_contractD(1) [OF assms] by (simp add: drop_eq_Nil)
  then show ?case by (subst read_loop.simps) simp
next
  case (Cons d rest)
  from Cons.prems have i: "i - lo < length ds" by (metis drop_all list.distinct(1) not_le)
  with Cons.prems have d: "ds ! (i - lo) = d" and rest: "rest = drop (Suc i - lo) ds"
    by (metis Cons_nth_drop_Suc list.inject Suc_diff_le)+
  have rd: "wal_Read env w i = Inr d"
    using wal_contractD(4) [OF assms, of i] i Cons.prems(1) d by auto
  have nlt: "\<not> lo + length ds - 1 < i" using i Cons.prems(1) by linarith
  let ?acc = "acc @ [read_record env i d]"
  have IH: "read_loop env w n (cap - int (length d)) (Suc i) (lo + length ds - 1) ?acc =
      Some (ReadDone (?acc @ numbered env (Suc i)
        (shard True (n - length ?acc) (cap - int (length d)) rest)))"
    using Cons.IH [OF _ rest, of "cap - int (length d)" ?acc] Cons.prems(1) by simp
  show ?case
  proof (cases "length acc < n")
    case False
    then show ?thesis by (subst read_loop.simps) simp
  next
    case True
    then obtain m where m: "n - length acc = Suc m" by (metis Suc_diff_Suc)
    then have "n - length ?acc = m" by simp
    with True m IH rd nlt show ?thesis by (subst read_loop.simps) (auto simp: Let_def)
  qed
qed

lemma ReadRecords_ok:
  assumes "wal_contract env ok view" "healthy env ok ob"
  shows "\<exists>ob'. healthy env ok ob' \<and> ob_buffered ob' = [] \<and>
    queue env view ob' = queue env view ob \<and> log_base view ob' = log_base view ob \<and>
    log_data view ob' = log_data view ob @ map (marshalEnvelope env) (ob_buffered ob) \<and>
    (let lo = log_base view ob'; ds = log_data view ob';
         start = (if from > lo + length ds then lo else max lo from)
     in ReadRecords env ob n cap from =
          Some (Inr (numbered env start (shard False n cap (drop (start - lo) ds))), ob'))"
proof -
  obtain ob' where ob': "flushLocked env ob = (None, ob')" "healthy env ok ob'" "ob_buffered ob' = []"
      "queue env view ob' = queue env view ob" "log_base view ob' = log_base view ob"
      "log_data view ob' = log_data view ob @ map (marshalEnvelope env) (ob_buffered ob)"
    using flush_ok [OF assms] by blast
  obtain lo ds where v: "view (ob_world ob') = (lo, ds)" by (cases "view (ob_world ob')")
  have okw: "ok (ob_world ob')" using ob'(2) by (simp add: healthy_def)
  note lo = wal_contractD(1) [OF assms(1) okw v]
  have "lo + length ds - 1 + 1 = lo + length ds" using lo by simp
  then have "ReadRecords env ob n cap from =
      Some (Inr (numbered env (if from > lo + length ds then lo else max lo from)
        (shard False n cap (drop ((if from > lo + length ds then lo else max lo from) - lo) ds))), ob')"
    using assms(2) ob'(1) ensureLog_ok [OF assms(2)] walRange_ok [OF assms(1) okw v]
      read_loop_ok [OF assms(1) okw v, where n = n and cap = cap and acc = "[]"]
    by (auto simp: ReadRecords_def healthy_def Let_def max_def)
  with ob' v show ?thesis
    by (intro exI [of _ ob']) (simp add: log_base_def log_data_def)
qed

text \<open>What a caller sees of a read.\<close>

lemma ReadRecords_run:
  assumes "wal_contract env ok view" "healthy env ok ob"
  shows "\<exists>rs ob' start. ReadRecords env ob n cap from = Some (Inr rs, ob') \<and>
    healthy env ok ob' \<and> queue env view ob' = queue env view ob \<and>
    log_base view ob' = log_base view ob \<and>
    start = (if from > log_base view ob + length (queue env view ob) then log_base view ob
             else max (log_base view ob) from) \<and>
    map rec_Index rs = [start..<start + length rs] \<and>
    map rec_Entry rs = take (length rs) (drop (start - log_base view ob) (queue env view ob)) \<and>
    length rs \<le> n \<and>
    (start < log_base view ob + length (queue env view ob) \<longrightarrow> 0 < n \<longrightarrow> rs \<noteq> []) \<and>
    (length rs \<le> 1 \<or>
     int (sum_list (map length (take (length rs)
       (drop (start - log_base view ob) (log_data view ob'))))) \<le> cap)"
proof -
  obtain ob' where ob': "healthy env ok ob'" "ob_buffered ob' = []"
      "queue env view ob' = queue env view ob" "log_base view ob' = log_base view ob"
    and rd: "let lo = log_base view ob'; ds = log_data view ob';
         start = (if from > lo + length ds then lo else max lo from)
     in ReadRecords env ob n cap from =
          Some (Inr (numbered env start (shard False n cap (drop (start - lo) ds))), ob')"
    using ReadRecords_ok [OF assms] by blast
  define lo ds where "lo = log_base view ob" and "ds = log_data view ob'"
  define start where "start = (if from > lo + length ds then lo else max lo from)"
  define sh where "sh = shard False n cap (drop (start - lo) ds)"
  have q: "queue env view ob = map (proto_Unmarshal env) ds"
    using ob'(2,3) by (simp add: queue_def ds_def)
  have rd': "ReadRecords env ob n cap from = Some (Inr (numbered env start sh), ob')"
    using rd ob'(4) by (simp add: Let_def lo_def ds_def start_def sh_def)
  have sh: "sh = take (length sh) (drop (start - lo) ds)"
    unfolding sh_def by (metis shard_prefix append_eq_conv_conj prefix_def)
  have entries: "map (proto_Unmarshal env) sh =
      take (length sh) (drop (start - lo) (map (proto_Unmarshal env) ds))"
    by (metis sh drop_map take_map)
  have "start < lo + length ds \<Longrightarrow> drop (start - lo) ds \<noteq> []"
    by (cases ds) (auto simp: start_def max_def split: if_splits)
  then have progress: "start < lo + length ds \<longrightarrow> 0 < n \<longrightarrow> sh \<noteq> []"
    using shard_progress [of "drop (start - lo) ds" n cap] by (simp add: sh_def)
  have len: "length sh \<le> n" unfolding sh_def by (rule shard_length)
  have bytes: "length sh \<le> 1 \<or> int (sum_list (map length (take (length sh) (drop (start - lo) ds)))) \<le> cap"
    using shard_bytes [of cap False n "drop (start - lo) ds"] sh [symmetric] by (auto simp: sh_def)
  have "log_base view ob = lo" by (simp add: lo_def)
  moreover have "log_data view ob' = ds" by (simp add: ds_def)
  moreover have "length (numbered env start sh) = length sh"
    by (metis length_map numbered_entries)
  moreover have "numbered env start sh = [] \<longleftrightarrow> sh = []"
    by (metis calculation(3) length_0_conv)
  ultimately show ?thesis
    using rd' ob'(1,3,4) q entries progress len bytes
    by (intro exI [of _ "numbered env start sh"] exI [of _ ob'] exI [of _ start] conjI)
      (simp_all add: numbered_entries numbered_indices start_def)
qed

subsection \<open>Eviction, emptiness, the retention cap\<close>

lemma EvictThrough_ok:
  assumes "wal_contract env ok view" "healthy env ok ob"
  shows "\<exists>ob'. EvictThrough env ob idx = (None, ob') \<and> healthy env ok ob' \<and>
    ob_buffered ob' = ob_buffered ob \<and>
    log_data view ob' = drop (Suc idx - log_base view ob) (log_data view ob) \<and>
    log_base view ob' =
      (if log_data view ob = [] \<or> idx < log_base view ob then log_base view ob
       else min (Suc idx) (log_base view ob + length (log_data view ob)))"
proof -
  obtain lo ds where v: "view (ob_world ob) = (lo, ds)" by (cases "view (ob_world ob)")
  from assms(2) have h: "ok (ob_world ob)" "ob_log ob" "\<not> ob_closed ob"
    by (auto simp: healthy_def)
  note c = wal_contractD [OF assms(1) h(1) v]
  note r = walRange_ok [OF assms(1) h(1) v]
  note start = EvictThrough_def ensureLog_ok [OF assms(2)] r h(3)
  show ?thesis
  proof (cases "ds = [] \<or> idx < lo")
    case True
    have "lo + length ds - 1 < lo \<longleftrightarrow> ds = []" using c(1) by (cases ds) auto
    with True v assms(2) show ?thesis
      by (auto simp: start log_data_def log_base_def)
  next
    case False
    define j where "j = (if lo + length ds - 1 < idx then lo + length ds - 1 else idx)"
    have j: "lo \<le> j + 1" "j + 1 \<le> lo + length ds" "j + 1 = min (Suc idx) (lo + length ds)"
      using False c(1) by (auto simp: j_def min_def Suc_le_eq)
    obtain w' where w': "wal_TruncateFront env (ob_world ob) (j + 1) = (None, w')" "ok w'"
        "view w' = (j + 1, drop (j + 1 - lo) ds)"
      using c(6) [OF j(1,2)] by blast
    have nz: "\<not> lo + length ds - 1 < lo" and "Suc (lo + length ds - 1) = lo + length ds"
      using False by (cases ds; auto)+
    then have "EvictThrough env ob idx = (None, ob\<lparr>ob_world := w'\<rparr>)"
      using False w'(1) unfolding j_def
      by (cases "lo + length ds - 1 < idx") (auto simp: start Let_def)
    moreover have "drop (j + 1 - lo) ds = drop (Suc idx - lo) ds"
      using j(3) by (auto simp: min_def split: if_splits)
    ultimately show ?thesis
      using w'(2,3) False assms(2) v j(3)
      by (simp add: healthy_def log_data_def log_base_def)
  qed
qed

lemma Empty_ok:
  assumes "wal_contract env ok view" "healthy env ok ob"
  shows "Empty env ob = ((queue env view ob = [], None), ob)"
proof -
  obtain lo ds where v: "view (ob_world ob) = (lo, ds)" by (cases "view (ob_world ob)")
  from assms(2) have h: "ok (ob_world ob)" by (simp add: healthy_def)
  have "lo + length ds - 1 < lo \<longleftrightarrow> ds = []"
    using wal_contractD(1) [OF assms(1) h v] by (cases ds) auto
  then show ?thesis
    using assms(2) walRange_ok [OF assms(1) h v] ensureLog_ok [OF assms(2)] v
    by (simp add: Empty_def healthy_def queue_def log_data_def)
qed

lemma EnforceCap_ok:
  assumes "wal_contract env ok view" "healthy env ok ob"
  shows "healthy env ok (EnforceCap env ob) \<and> ob_buffered (EnforceCap env ob) = ob_buffered ob \<and>
    log_data view (EnforceCap env ob) =
      (case dirSize env (ob_world ob) of
         Some sz \<Rightarrow> if MaxBytes \<le> sz then [] else log_data view ob
       | None \<Rightarrow> log_data view ob)"
proof -
  obtain lo ds where v: "view (ob_world ob) = (lo, ds)" by (cases "view (ob_world ob)")
  from assms(2) have h: "ok (ob_world ob)" "ob_log ob" "\<not> ob_closed ob" by (auto simp: healthy_def)
  note c = wal_contractD [OF assms(1) h(1) v]
  have suc: "Suc (lo + length ds - 1) = lo + length ds" using c(1) by simp
  obtain w' where w': "wal_TruncateFront env (ob_world ob) (lo + length ds) = (None, w')" "ok w'"
      "view w' = (lo + length ds, [])"
    using c(6) [of "lo + length ds"] by auto
  have "lo + length ds - 1 < lo \<longleftrightarrow> ds = []" using c(1) by (cases ds) auto
  then show ?thesis
    using h w' walRange_ok [OF assms(1) h(1) v] v assms(2)
    by (auto simp: EnforceCap_def healthy_def log_data_def suc split: option.splits)
qed

section \<open>Failures\<close>

lemma appendBatch_frame:
  "appendBatchLocked env ob es = (r, ob') \<Longrightarrow>
     ob_buffered ob' = ob_buffered ob \<and> ob_bufferedBytes ob' = ob_bufferedBytes ob \<and>
     ob_closed ob' = ob_closed ob"
  by (auto simp: appendBatchLocked_def split: if_splits sum.splits prod.splits)

lemma reopen_frame:
  "reopenLocked env ob = (r, ob') \<Longrightarrow>
     ob_buffered ob' = ob_buffered ob \<and> ob_bufferedBytes ob' = ob_bufferedBytes ob \<and>
     ob_closed ob' = ob_closed ob"
  by (auto simp: reopenLocked_def Let_def split: prod.splits option.splits)

lemma write_frame:
  "writeLocked env ob es = (r, ob') \<Longrightarrow>
     ob_buffered ob' = ob_buffered ob \<and> ob_bufferedBytes ob' = ob_bufferedBytes ob \<and>
     ob_closed ob' = ob_closed ob"
  by (auto simp: writeLocked_def Let_def split: prod.splits option.splits
      dest!: appendBatch_frame reopen_frame)

lemma flush_frame:
  assumes "flushLocked env ob = (r, ob')"
  shows "(r = None \<longrightarrow> ob_buffered ob' = []) \<and> (r \<noteq> None \<longrightarrow> ob_buffered ob' = ob_buffered ob) \<and>
    ob_closed ob' = ob_closed ob"
  using assms
  by (auto simp: flushLocked_def split: if_splits prod.splits option.splits dest: write_frame)

section \<open>A reference log\<close>

text \<open>A log kept as a list, with an encoding of the entries of a given list: it satisfies the
  contract, so the hypotheses of the theorems below can hold together.\<close>

definition reference_wal :: "upload_entry list \<Rightarrow> (nat \<times> bytes list) wal_env" where
  "reference_wal es =
     \<lparr>wal_Open = (\<lambda>w. (None, w)), wal_Close = (\<lambda>w. (None, w)),
      wal_FirstIndex = (\<lambda>(lo, ds). Inr lo),
      wal_LastIndex = (\<lambda>(lo, ds). Inr (lo + length ds - 1)),
      wal_WriteBatch = (\<lambda>(lo, ds) ps. (None, (lo, ds @ map snd ps))),
      wal_Read = (\<lambda>(lo, ds) i.
        if lo \<le> i \<and> i < lo + length ds then Inr (ds ! (i - lo)) else Inl WalNotFound),
      wal_TruncateFront = (\<lambda>(lo, ds) i.
        if lo \<le> i \<and> i \<le> lo + length ds then (None, (i, drop (i - lo) ds))
        else (Some WalOutOfRange, (lo, ds))),
      os_Rename = (\<lambda>w. (None, w)), os_ReadDir = (\<lambda>w. DirEntries []),
      proto_Marshal = (\<lambda>e. map_option (\<lambda>i. replicate (Suc i) CHR ''x'')
        (find (\<lambda>i. es ! i = e) [0..<length es])),
      proto_Unmarshal = (\<lambda>b. if b \<noteq> [] \<and> length b \<le> length es then Some (es ! (length b - 1)) else None),
      proto_Size = (\<lambda>e. case find (\<lambda>i. es ! i = e) [0..<length es] of None \<Rightarrow> 0 | Some i \<Rightarrow> Suc i)\<rparr>"

definition reference_ok :: "nat \<times> bytes list \<Rightarrow> bool" where
  "reference_ok w \<longleftrightarrow> 0 < fst w"

lemma reference_contract: "wal_contract (reference_wal es) reference_ok id"
  by (auto simp: wal_contract_def reference_wal_def reference_ok_def)

lemma reference_roundtrips: "e \<in> set es \<Longrightarrow> roundtrips (reference_wal es) e"
proof -
  assume "e \<in> set es"
  then obtain k where k: "k < length es" "es ! k = e" by (auto simp: in_set_conv_nth)
  have "find (\<lambda>i. es ! i = e) [0..<length es] \<noteq> None"
    using k by (auto simp: find_None_iff)
  then obtain i where i: "find (\<lambda>i. es ! i = e) [0..<length es] = Some i" by blast
  then have "i < length es" "es ! i = e" by (auto simp: find_Some_iff)
  with i show ?thesis by (auto simp: roundtrips_def reference_wal_def)
qed

definition reference_outbox :: "upload_entry list \<Rightarrow> (nat \<times> bytes list) outbox" where
  "reference_outbox buf = (fresh_outbox (1, []))\<lparr>ob_buffered := buf\<rparr>"

lemma reference_healthy: "set buf \<subseteq> set es \<Longrightarrow> healthy (reference_wal es) reference_ok (reference_outbox buf)"
  by (auto simp: healthy_def reference_outbox_def fresh_outbox_def reference_ok_def
      intro: reference_roundtrips)

lemma reference_queue: "queue (reference_wal es) id (reference_outbox buf) = map Some buf"
  by (simp add: queue_def log_data_def reference_outbox_def fresh_outbox_def)

lemma reference_log_base: "log_base id (reference_outbox buf) = 1"
  by (simp add: log_base_def reference_outbox_def fresh_outbox_def)

definition sample_entry :: "int \<Rightarrow> upload_entry" where
  "sample_entry n = resultEnvelope
     \<lparr>cr_command_id = ''c'', cr_exit_code = n, cr_duration_ms = 0, cr_error_message = [],
      cr_last_seq_no = 0, cr_final_summary = [], cr_result = None\<rparr>"

section \<open>Properties\<close>

text \<open>C33: On a working log the outbox is a queue. \<open>Append\<close> adds its record at the end whether
  or not it triggers the byte-threshold flush, \<open>Flush\<close> moves the buffer into the log without
  changing the queue, \<open>Empty\<close> answers whether the queue is empty, and \<open>EvictThrough\<close> removes
  exactly the logged records at or below the index, never a buffered one; each keeps the
  outbox healthy and reports no error.\<close>

theorem outbox_refines_queue:
  assumes "wal_contract env ok view" "healthy env ok ob" "roundtrips env e"
  shows "\<exists>ob1 ob2 ob3.
    Append env ob e = (None, ob1) \<and> healthy env ok ob1 \<and>
      queue env view ob1 = queue env view ob @ [Some e] \<and>
    Flush env ob = (None, ob2) \<and> healthy env ok ob2 \<and> ob_buffered ob2 = [] \<and>
      queue env view ob2 = queue env view ob \<and>
    Empty env ob = ((queue env view ob = [], None), ob) \<and>
    EvictThrough env ob idx = (None, ob3) \<and> healthy env ok ob3 \<and>
      queue env view ob3 =
        drop (min (Suc idx - log_base view ob) (length (log_data view ob))) (queue env view ob)"
proof -
  have flush: "Flush env ob = flushLocked env ob" using assms(2) by (simp add: Flush_def healthy_def)
  obtain ob3 where ob3: "EvictThrough env ob idx = (None, ob3)" "healthy env ok ob3"
      "ob_buffered ob3 = ob_buffered ob"
      "log_data view ob3 = drop (Suc idx - log_base view ob) (log_data view ob)"
    using EvictThrough_ok [OF assms(1,2)] by blast
  have "queue env view ob3 =
      drop (min (Suc idx - log_base view ob) (length (log_data view ob))) (queue env view ob)"
    unfolding queue_def ob3(3,4) by (cases "Suc idx - log_base view ob \<le> length (log_data view ob)")
      (simp_all add: drop_map min_def)
  then show ?thesis
    using Append_ok [OF assms] flush_ok [OF assms(1,2)] Empty_ok [OF assms(1,2)] ob3 flush by metis
qed

theorem outbox_refines_queue_witness:
  "\<exists>ob1. Append (reference_wal [sample_entry 0, sample_entry 1]) (reference_outbox [sample_entry 0])
      (sample_entry 1) = (None, ob1) \<and>
    queue (reference_wal [sample_entry 0, sample_entry 1]) id ob1 =
      [Some (sample_entry 0), Some (sample_entry 1)]"
proof -
  let ?es = "[sample_entry 0, sample_entry 1]"
  have "healthy (reference_wal ?es) reference_ok (reference_outbox [sample_entry 0])"
    by (rule reference_healthy) simp
  moreover have "roundtrips (reference_wal ?es) (sample_entry 1)"
    by (rule reference_roundtrips) simp
  ultimately show ?thesis
    using outbox_refines_queue [OF reference_contract [of ?es], of "reference_outbox [sample_entry 0]"
        "sample_entry 1" 0]
    by (auto simp: reference_queue)
qed

text \<open>C34: Reading the outbox terminates and returns a contiguous run of the queue: it flushes
  first, starts at the cursor (at the log's start when the cursor lies before it, or beyond
  its end because the index space was reset), returns records in log order with consecutive
  indices, at least one when there is one, never more than \<open>maxRecords\<close>, and never more
  payload bytes than the cap unless it returns a single record.\<close>

theorem ReadRecords_contiguous:
  assumes "wal_contract env ok view" "healthy env ok ob"
  shows "\<exists>rs ob' start. ReadRecords env ob n cap from = Some (Inr rs, ob') \<and>
    healthy env ok ob' \<and> queue env view ob' = queue env view ob \<and>
    log_base view ob' = log_base view ob \<and>
    start = (if from > log_base view ob + length (queue env view ob) then log_base view ob
             else max (log_base view ob) from) \<and>
    map rec_Index rs = [start..<start + length rs] \<and>
    map rec_Entry rs = take (length rs) (drop (start - log_base view ob) (queue env view ob)) \<and>
    length rs \<le> n \<and>
    (start < log_base view ob + length (queue env view ob) \<longrightarrow> 0 < n \<longrightarrow> rs \<noteq> []) \<and>
    (length rs \<le> 1 \<or>
     int (sum_list (map length (take (length rs)
       (drop (start - log_base view ob) (log_data view ob'))))) \<le> cap)"
  by (rule ReadRecords_run [OF assms])

theorem ReadRecords_contiguous_witness:
  "\<exists>rs ob'. ReadRecords (reference_wal [sample_entry 0]) (reference_outbox [sample_entry 0]) 5 100 0
      = Some (Inr rs, ob') \<and> rs \<noteq> []"
  using ReadRecords_contiguous [OF reference_contract, of "[sample_entry 0]"
      "reference_outbox [sample_entry 0]" 5 100 0]
    reference_healthy [of "[sample_entry 0]" "[sample_entry 0]"]
  by (auto simp: reference_queue reference_log_base)

text \<open>In every environment, whatever the disk and the library do: a flush that fails keeps
  the buffered records for a later attempt and one that succeeds empties the buffer; an
  \<open>Append\<close> that reports a disk error still holds its record; a closed outbox refuses every
  operation without touching its state and is never reopened.\<close>

theorem outbox_failures_lose_nothing:
  "(\<forall>err ob'. Flush env ob = (Some err, ob') \<longrightarrow> ob_buffered ob' = ob_buffered ob) \<and>
   (\<forall>ob'. Flush env ob = (None, ob') \<longrightarrow> ob_buffered ob' = []) \<and>
   (\<forall>err ob'. \<not> ob_closed ob \<longrightarrow> Append env ob e = (Some err, ob') \<longrightarrow>
      ob_buffered ob' = ob_buffered ob @ [e]) \<and>
   (ob_closed ob \<longrightarrow>
      Append env ob e = (Some ErrClosed, ob) \<and> Flush env ob = (Some ErrClosed, ob) \<and>
      ReadRecords env ob n cap from = Some (Inl ErrClosed, ob) \<and>
      EvictThrough env ob idx = (Some ErrClosed, ob) \<and>
      Empty env ob = ((True, Some ErrClosed), ob) \<and> EnforceCap env ob = ob)"
proof (intro conjI allI impI)
  fix err ob'
  show "Flush env ob = (Some err, ob') \<Longrightarrow> ob_buffered ob' = ob_buffered ob"
    by (auto simp: Flush_def dest: flush_frame split: if_splits)
  show "Append env ob e = (Some err, ob') \<Longrightarrow> \<not> ob_closed ob \<Longrightarrow>
      ob_buffered ob' = ob_buffered ob @ [e]"
    by (auto simp: Append_def Let_def dest!: flush_frame split: if_splits)
qed (auto simp: Flush_def Append_def ReadRecords_def EvictThrough_def Empty_def EnforceCap_def
    dest: flush_frame split: if_splits)

theorem outbox_failures_lose_nothing_witness:
  "Append (reference_wal []) ((fresh_outbox (1, []))\<lparr>ob_closed := True\<rparr>) (sample_entry 0)
     = (Some ErrClosed, (fresh_outbox (1, []))\<lparr>ob_closed := True\<rparr>)"
  using outbox_failures_lose_nothing
    [of "reference_wal []" "(fresh_outbox (1, []))\<lparr>ob_closed := True\<rparr>" "sample_entry 0"]
  by (simp add: fresh_outbox_def)

text \<open>\<open>Close\<close> does not flush: it closes the log as it stands, so records accepted by
  \<open>Append\<close> and still in the buffer are written to no log, and every later attempt to flush
  them is refused.\<close>

theorem Close_skips_flush:
  assumes "ob_log ob"
  shows "ob_world (snd (Close env ob)) = snd (wal_Close env (ob_world ob)) \<and>
    ob_buffered (snd (Close env ob)) = ob_buffered ob \<and>
    Flush env (snd (Close env ob)) = (Some ErrClosed, snd (Close env ob))"
  using assms by (auto simp: Close_def Flush_def split: prod.splits)

theorem Close_skips_flush_witness:
  "ob_world (snd (Close (reference_wal [sample_entry 0]) (reference_outbox [sample_entry 0]))) = (1, [])
   \<and> ob_buffered (snd (Close (reference_wal [sample_entry 0]) (reference_outbox [sample_entry 0])))
     = [sample_entry 0]"
  using Close_skips_flush [of "reference_outbox [sample_entry 0]" "reference_wal [sample_entry 0]"]
  by (simp add: reference_outbox_def fresh_outbox_def reference_wal_def)

end
