(* ===== verification/Uploader.thy ===== *)
theory Uploader
  imports Outbox "HOL-Library.AList"
begin

text \<open>
  The uploader of one agent's outbox (\<open>backend/agent/outbox/uploader.go\<close>): the upload cycle
  and its fold of acknowledgements into a cursor and an eviction boundary, the exponential
  backoff, the turn-start barriers, and the synthesis of terminals for interrupted commands.

  The transport is a function \<open>upload\<close> on a state \<open>'s\<close> of the manager. What the uploader
  relies on is the locale \<open>upload_server\<close>; the lemmas proved in it show that no record is
  evicted before the manager has accounted for it, under every interleaving of the upload
  cycle with the turn loop's appends and flushes. Times are nanoseconds; the zero
  \<open>time.Time\<close> is \<open>None\<close>. Blocking loops take the list of what happens at each of their
  \<open>select\<close> statements. Prometheus counters and log lines are left out, except the two gauges
  that report the outbox's state.
\<close>

section \<open>State and backoff\<close>

definition max32 :: "int \<Rightarrow> int \<Rightarrow> int" where
  "max32 a b = (if b > a then b else a)"

definition second :: int where "second = 1000000000"
definition BatchWindow :: int where "BatchWindow = 200 * 1000000"
definition UploadMaxBytes :: int where "UploadMaxBytes = 4 * 2 ^ 20"
definition TruncateThresholdBytes :: int where "TruncateThresholdBytes = 64 * 2 ^ 20"
definition backoffBase :: int where "backoffBase = 2 * second"
definition backoffMax :: int where "backoffMax = 60 * second"

lemmas backoff_defs = backoffBase_def backoffMax_def second_def BatchWindow_def

text \<open>\<open>up_flushNow\<close> tells whether the one-slot wake channel holds a token; \<open>up_lag\<close> and
  \<open>up_bytes\<close> are the per-agent gauges.\<close>

record 'w uploader =
  up_ob :: "'w outbox"
  up_flushNow :: bool
  up_backoff :: int
  up_nextTry :: "int option"
  up_readFrom :: nat
  up_settledSinceEvict :: int
  up_lag :: int
  up_bytes :: int

type_synonym ('s, 'e) transport =
  "'s \<Rightarrow> upload_entry list \<Rightarrow> ('e, upload_response) result \<times> 's"

definition NewUploader :: "'w outbox \<Rightarrow> 'w uploader" where
  "NewUploader ob = \<lparr>up_ob = ob, up_flushNow = False, up_backoff = 0, up_nextTry = None,
     up_readFrom = 0, up_settledSinceEvict = 0, up_lag = 0, up_bytes = 0\<rparr>"

definition FlushNow :: "'w uploader \<Rightarrow> 'w uploader" where
  "FlushNow u = u\<lparr>up_flushNow := True\<rparr>"

definition after_now :: "int option \<Rightarrow> int \<Rightarrow> bool" where
  "after_now t now = (case t of None \<Rightarrow> False | Some x \<Rightarrow> x > now)"

text \<open>\<open>currentWait\<close> reads the clock twice: in \<open>time.Now\<close> and again in \<open>time.Until\<close>.\<close>

definition currentWait :: "int \<Rightarrow> int \<Rightarrow> 'w uploader \<Rightarrow> int" where
  "currentWait now1 now2 u =
     (case up_nextTry u of
        None \<Rightarrow> BatchWindow
      | Some t \<Rightarrow> if t > now1 then t - now2 else BatchWindow)"

definition recordFailure :: "int \<Rightarrow> 'w uploader \<Rightarrow> 'w uploader" where
  "recordFailure now u =
     (if after_now (up_nextTry u) now then u
      else
        (let b = (if up_backoff u = 0 then backoffBase
                  else if up_backoff u * 2 > backoffMax then backoffMax
                  else up_backoff u * 2)
         in u\<lparr>up_backoff := b, up_nextTry := Some (now + b)\<rparr>))"

definition recordSuccess :: "'w uploader \<Rightarrow> 'w uploader" where
  "recordSuccess u = u\<lparr>up_backoff := 0, up_nextTry := None\<rparr>"

definition setReadFrom :: "nat \<Rightarrow> 'w uploader \<Rightarrow> 'w uploader" where
  "setReadFrom index u = (if index > up_readFrom u then u\<lparr>up_readFrom := index\<rparr> else u)"

definition addSettledBytes :: "int \<Rightarrow> 'w uploader \<Rightarrow> bool \<times> 'w uploader" where
  "addSettledBytes n u =
     (let u' = u\<lparr>up_settledSinceEvict := up_settledSinceEvict u + n\<rparr>
      in (up_settledSinceEvict u' \<ge> TruncateThresholdBytes, u'))"

definition resetSettledBytes :: "'w uploader \<Rightarrow> 'w uploader" where
  "resetSettledBytes u = u\<lparr>up_settledSinceEvict := 0\<rparr>"

definition updateGauges :: "'w wal_env \<Rightarrow> nat \<Rightarrow> 'w uploader \<Rightarrow> 'w uploader" where
  "updateGauges env boundary u =
     (case rangeForMetrics env (up_ob u) of
        Inl _ \<Rightarrow> u
      | Inr (lo, hi) \<Rightarrow>
          (let lag = (if hi \<ge> lo then
                        (let from = (if boundary < lo then lo else boundary)
                         in if from \<le> hi then int (hi - from + 1) else 0)
                      else 0);
               u1 = u\<lparr>up_lag := lag\<rparr>
           in case dirSize env (ob_world (up_ob u)) of
                None \<Rightarrow> u1
              | Some sz \<Rightarrow> u1\<lparr>up_bytes := sz\<rparr>))"

section \<open>The fold of a response\<close>

definition rejectionKey :: "string \<Rightarrow> int \<Rightarrow> int \<Rightarrow> string" where
  "rejectionKey commandID kind seq =
     commandID @ ''|'' @ int_string kind @ ''|'' @ int_string seq"

definition ack_map :: "upload_response \<Rightarrow> string \<Rightarrow> upload_ack option" where
  "ack_map resp = foldl (\<lambda>m a. m(ack_command_id a \<mapsto> a)) Map.empty (resp_acks resp)"

definition rejected_map :: "upload_response \<Rightarrow> string \<Rightarrow> string option" where
  "rejected_map resp =
     foldl (\<lambda>m r. m(rejectionKey (rej_command_id r) (rej_kind r) (rej_seq_no r) \<mapsto> rej_reason r))
       Map.empty (resp_rejected resp)"

definition terminalRejected :: "upload_response \<Rightarrow> string list" where
  "terminalRejected resp =
     map rej_command_id (filter (\<lambda>r. rej_kind r = KIND_RESULT) (resp_rejected resp))"

definition recordSettled ::
  "wal_record \<Rightarrow> (string \<rightharpoonup> upload_ack) \<Rightarrow> (string \<rightharpoonup> string) \<Rightarrow> string list \<Rightarrow> bool" where
  "recordSettled r acks rejected terminals =
     (case rec_Entry r of
        None \<Rightarrow> True
      | Some e \<Rightarrow>
          if ue_command_id e \<in> set terminals then True
          else if rejected (rejectionKey (ue_command_id e) (ue_kind e) (ue_seq_no e)) \<noteq> None then True
          else
            (case acks (ue_command_id e) of
               None \<Rightarrow> False
             | Some a \<Rightarrow>
                 if ue_kind e = KIND_PROGRESS then ue_seq_no e \<le> ack_last_progress_seq a
                 else if ue_kind e = KIND_EVENT then ue_seq_no e \<le> ack_last_event_seq a
                 else if ue_kind e = KIND_RESULT then ack_result_acked a
                 else False))"

text \<open>The loop over the batch: the boundary (0 when nothing is settled), the settled bytes and
  whether a settled terminal was seen.\<close>

fun fold_loop ::
  "'w wal_env \<Rightarrow> upload_response \<Rightarrow> wal_record list \<Rightarrow> nat \<times> int \<times> bool \<Rightarrow> nat \<times> int \<times> bool" where
  "fold_loop env resp [] acc = acc"
| "fold_loop env resp (r # rs) (boundary, settledBytes, terminalSettled) =
     (if \<not> recordSettled r (ack_map resp) (rejected_map resp) (terminalRejected resp)
      then (boundary, settledBytes, terminalSettled)
      else
        (case rec_Entry r of
           None \<Rightarrow> fold_loop env resp rs (rec_Index r, settledBytes, terminalSettled)
         | Some e \<Rightarrow>
             fold_loop env resp rs
               (rec_Index r, settledBytes + int (length (marshalEnvelope env e)),
                terminalSettled \<or> ue_kind e = KIND_RESULT)))"

definition fold_response ::
  "'w wal_env \<Rightarrow> 'w uploader \<Rightarrow> wal_record list \<Rightarrow> upload_response \<Rightarrow> 'w uploader" where
  "fold_response env u records resp =
     (case fold_loop env resp records (0, 0, False) of
        (boundary, settledBytes, terminalSettled) \<Rightarrow>
          if boundary = 0 then u
          else
            (let (due, u1) =
                   (if terminalSettled \<or> terminalRejected resp \<noteq> [] then (True, u)
                    else addSettledBytes settledBytes u);
                 u2 = (if due then
                         (case EvictThrough env (up_ob u1) boundary of
                            (Some _, ob) \<Rightarrow> u1\<lparr>up_ob := ob\<rparr>
                          | (None, ob) \<Rightarrow> resetSettledBytes (u1\<lparr>up_ob := ob\<rparr>))
                       else u1)
             in setReadFrom (boundary + 1) u2))"

section \<open>The upload cycle\<close>

text \<open>
  \<open>uploadCycle\<close> in the two parts between which the turn loop may run: the read of the
  cursor's batch, and the upload of that batch with the fold of its response. \<open>None\<close> is a
  read that does not return (see \<open>read_loop\<close>).
\<close>

datatype cycle_read = ReadFailed | ReadNothing | ReadBatch "wal_record list"

definition cycle_start ::
  "'w wal_env \<Rightarrow> int \<Rightarrow> 'w uploader \<Rightarrow> (cycle_read \<times> 'w uploader) option" where
  "cycle_start env now u =
     (case ReadRecords env (up_ob u) ReadBatchMaxEntries UploadMaxBytes (up_readFrom u) of
        None \<Rightarrow> None
      | Some (Inl _, ob) \<Rightarrow> Some (ReadFailed, recordFailure now (u\<lparr>up_ob := ob\<rparr>))
      | Some (Inr records, ob) \<Rightarrow>
          (let u1 = u\<lparr>up_ob := ob\<rparr> in
           if records = [] then Some (ReadNothing, updateGauges env 0 u1)
           else Some (ReadBatch records, u1)))"

definition batch_entries :: "wal_record list \<Rightarrow> upload_entry list" where
  "batch_entries records = List.map_filter rec_Entry records"

definition cycle_send ::
  "'w wal_env \<Rightarrow> ('s, 'e) transport \<Rightarrow> int \<Rightarrow> wal_record list \<Rightarrow> 'w uploader \<Rightarrow> 's \<Rightarrow>
     bool \<times> 'w uploader \<times> 's" where
  "cycle_send env upload now records u s =
     (case upload s (batch_entries records) of
        (Inl _, s') \<Rightarrow> (False, recordFailure now u, s')
      | (Inr resp, s') \<Rightarrow>
          (let u1 = fold_response env (recordSuccess u) records resp
           in (True, updateGauges env (up_readFrom u1) u1, s')))"

definition cycle_cap :: "'w wal_env \<Rightarrow> 'w uploader \<Rightarrow> 'w uploader" where
  "cycle_cap env u = u\<lparr>up_ob := EnforceCap env (up_ob u)\<rparr>"

definition cycle_finish ::
  "'w wal_env \<Rightarrow> ('s, 'e) transport \<Rightarrow> int \<Rightarrow> wal_record list \<Rightarrow> 'w uploader \<Rightarrow> 's \<Rightarrow>
     'w uploader \<times> 's" where
  "cycle_finish env upload now records u s =
     (case cycle_send env upload now records u s of
        (folded, u1, s') \<Rightarrow> (if folded then cycle_cap env u1 else u1, s'))"

definition uploadCycle ::
  "'w wal_env \<Rightarrow> ('s, 'e) transport \<Rightarrow> int \<Rightarrow> 'w uploader \<Rightarrow> 's \<Rightarrow> ('w uploader \<times> 's) option" where
  "uploadCycle env upload now u s =
     (case cycle_start env now u of
        None \<Rightarrow> None
      | Some (ReadBatch records, u1) \<Rightarrow> Some (cycle_finish env upload now records u1 s)
      | Some (_, u1) \<Rightarrow> Some (u1, s))"

definition BypassUpload ::
  "('s, 'e) transport \<Rightarrow> 's \<Rightarrow> upload_entry option \<Rightarrow> 'e option \<times> 's" where
  "BypassUpload upload s entry =
     (case entry of
        None \<Rightarrow> (None, s)
      | Some e \<Rightarrow>
          (case upload s [e] of
             (Inl err, s') \<Rightarrow> (Some err, s')
           | (Inr _, s') \<Rightarrow> (None, s')))"

section \<open>Interrupted commands\<close>

record orphan_group =
  og_commandID :: string
  og_lastProgressSeq :: int

record cmd_group =
  g_hasTerminal :: bool
  g_lastProgSeq :: int

text \<open>The map from command ids to groups, as an association list with distinct keys (Go's
  iteration order is arbitrary; the orphans are sorted afterwards).\<close>

definition group_record ::
  "(string \<times> cmd_group) list \<Rightarrow> upload_entry \<Rightarrow> (string \<times> cmd_group) list" where
  "group_record groups e =
     (let g = (case map_of groups (ue_command_id e) of
                 None \<Rightarrow> \<lparr>g_hasTerminal = False, g_lastProgSeq = 0\<rparr>
               | Some g \<Rightarrow> g);
          g' = (if ue_kind e = KIND_RESULT then g\<lparr>g_hasTerminal := True\<rparr>
                else if ue_kind e = KIND_PROGRESS
                then g\<lparr>g_lastProgSeq := max32 (g_lastProgSeq g) (ue_seq_no e)\<rparr>
                else g)
      in AList.update (ue_command_id e) g' groups)"

definition orphans_of :: "(string \<times> cmd_group) list \<Rightarrow> orphan_group list" where
  "orphans_of groups =
     sort_key og_commandID
       (map (\<lambda>(id, g). \<lparr>og_commandID = id, og_lastProgressSeq = g_lastProgSeq g\<rparr>)
         (filter (\<lambda>(id, g). \<not> g_hasTerminal g) groups))"

definition blockingFor ::
  "'w wal_env \<Rightarrow> 'w uploader \<Rightarrow> string \<Rightarrow>
     ((outbox_error, bool \<times> orphan_group list) result \<times> 'w uploader) option" where
  "blockingFor env u commandID =
     (case ReadRecords env (up_ob u) ReadBatchMaxEntries UploadMaxBytes 0 of
        None \<Rightarrow> None
      | Some (Inl e, ob) \<Rightarrow> Some (Inl e, u\<lparr>up_ob := ob\<rparr>)
      | Some (Inr records, ob) \<Rightarrow>
          (let others = filter (\<lambda>e. ue_command_id e \<noteq> commandID) (batch_entries records)
           in Some (Inr (others \<noteq> [], orphans_of (foldl group_record [] others)),
                    u\<lparr>up_ob := ob\<rparr>)))"

definition agentStoppedMessage :: string where
  "agentStoppedMessage = ''agent stopped before the turn reported a result''"

definition syntheticTerminal :: "string \<Rightarrow> orphan_group \<Rightarrow> upload_entry" where
  "syntheticTerminal message og =
     \<lparr>ue_command_id = og_commandID og, ue_kind = KIND_RESULT, ue_seq_no = 1, ue_timestamp = None,
      ue_payload = ResultPayload
        \<lparr>cr_command_id = og_commandID og, cr_exit_code = -1, cr_duration_ms = 0,
         cr_error_message = message, cr_last_seq_no = og_lastProgressSeq og,
         cr_final_summary = [], cr_result = None\<rparr>\<rparr>"

fun append_all ::
  "'w wal_env \<Rightarrow> 'w outbox \<Rightarrow> upload_entry list \<Rightarrow> outbox_error option \<times> 'w outbox" where
  "append_all env ob [] = (None, ob)"
| "append_all env ob (e # es) =
     (case Append env ob e of
        (Some err, ob1) \<Rightarrow> (Some err, ob1)
      | (None, ob1) \<Rightarrow> append_all env ob1 es)"

text \<open>The loop of \<open>orphanGroups\<close>, which rereads until a read returns nothing.\<close>

partial_function (option) orphan_scan ::
  "'w wal_env \<Rightarrow> 'w outbox \<Rightarrow> nat \<Rightarrow> (string \<times> cmd_group) list \<Rightarrow>
     ((outbox_error, (string \<times> cmd_group) list) result \<times> 'w outbox) option" where
  "orphan_scan env ob from groups =
     (case ReadRecords env ob ReadBatchMaxEntries UploadMaxBytes from of
        None \<Rightarrow> None
      | Some (Inl e, ob1) \<Rightarrow> Some (Inl e, ob1)
      | Some (Inr records, ob1) \<Rightarrow>
          if records = [] then Some (Inr groups, ob1)
          else orphan_scan env ob1 (rec_Index (last records) + 1)
                 (foldl group_record groups (batch_entries records)))"

definition orphanGroups ::
  "'w wal_env \<Rightarrow> 'w outbox \<Rightarrow> ((outbox_error, orphan_group list) result \<times> 'w outbox) option" where
  "orphanGroups env ob =
     (case orphan_scan env ob 0 [] of
        None \<Rightarrow> None
      | Some (Inl e, ob1) \<Rightarrow> Some (Inl e, ob1)
      | Some (Inr groups, ob1) \<Rightarrow> Some (Inr (orphans_of groups), ob1))"

definition SynthesizeInterruptedTerminals ::
  "'w wal_env \<Rightarrow> string \<Rightarrow> 'w uploader \<Rightarrow> (outbox_error option \<times> 'w uploader) option" where
  "SynthesizeInterruptedTerminals env message u =
     (case orphanGroups env (up_ob u) of
        None \<Rightarrow> None
      | Some (Inl e, ob1) \<Rightarrow> Some (Some e, u\<lparr>up_ob := ob1\<rparr>)
      | Some (Inr orphans, ob1) \<Rightarrow>
          (case append_all env ob1 (map (syntheticTerminal message) orphans) of
             (Some e, ob2) \<Rightarrow> Some (Some e, u\<lparr>up_ob := ob2\<rparr>)
           | (None, ob2) \<Rightarrow>
               (case Flush env ob2 of
                  (err, ob3) \<Rightarrow> Some (err, u\<lparr>up_ob := ob3\<rparr>))))"

section \<open>The waiting loops\<close>

text \<open>
  One element of a schedule is one \<open>select\<close>: whether the context ended, and what the other
  goroutines did to the shared state meanwhile. The result \<open>None\<close> is a loop that has not
  returned when its schedule ends (or a read that does not return).
\<close>

datatype wake = CtxDone | Woken

type_synonym 'x schedule = "(wake \<times> ('x \<Rightarrow> 'x)) list"

datatype wait_result = WaitClear | WaitCancelled | WaitError outbox_error

fun WaitClearFor ::
  "'w wal_env \<Rightarrow> string \<Rightarrow> 'w uploader schedule \<Rightarrow> 'w uploader \<Rightarrow>
     (wait_result \<times> 'w uploader) option" where
  "WaitClearFor env commandID sched u =
     (case blockingFor env u commandID of
        None \<Rightarrow> None
      | Some (Inl e, u1) \<Rightarrow> Some (WaitError e, u1)
      | Some (Inr (blocked, orphans), u1) \<Rightarrow>
          if \<not> blocked then Some (WaitClear, u1)
          else
            (case append_all env (up_ob u1) (map (syntheticTerminal agentStoppedMessage) orphans) of
               (Some e, ob) \<Rightarrow> Some (WaitError e, u1\<lparr>up_ob := ob\<rparr>)
             | (None, ob) \<Rightarrow>
                 (let u2 = FlushNow (u1\<lparr>up_ob := ob\<rparr>) in
                  case sched of
                    [] \<Rightarrow> None
                  | (CtxDone, f) # _ \<Rightarrow> Some (WaitCancelled, f u2)
                  | (Woken, f) # rest \<Rightarrow> WaitClearFor env commandID rest (f u2))))"

declare WaitClearFor.simps [simp del]

fun drained_loop ::
  "'w wal_env \<Rightarrow> 'w uploader schedule \<Rightarrow> 'w uploader \<Rightarrow> (wait_result \<times> 'w uploader) option" where
  "drained_loop env sched u =
     (case Empty env (up_ob u) of
        ((_, Some e), ob) \<Rightarrow> Some (WaitError e, u\<lparr>up_ob := ob\<rparr>)
      | ((True, None), ob) \<Rightarrow> Some (WaitClear, u\<lparr>up_ob := ob\<rparr>)
      | ((False, None), ob) \<Rightarrow>
          (case sched of
             [] \<Rightarrow> None
           | (CtxDone, f) # _ \<Rightarrow> Some (WaitCancelled, f (u\<lparr>up_ob := ob\<rparr>))
           | (Woken, f) # rest \<Rightarrow> drained_loop env rest (f (u\<lparr>up_ob := ob\<rparr>))))"

declare drained_loop.simps [simp del]

definition WaitDrained ::
  "'w wal_env \<Rightarrow> 'w uploader schedule \<Rightarrow> 'w uploader \<Rightarrow> (wait_result \<times> 'w uploader) option" where
  "WaitDrained env sched u = drained_loop env sched (FlushNow u)"

text \<open>\<open>Drain\<close> uploads itself; an element of its schedule carries the clock reading of the cycle.\<close>

fun Drain ::
  "'w wal_env \<Rightarrow> ('s, 'e) transport \<Rightarrow> (int \<times> wake) list \<Rightarrow> 'w uploader \<Rightarrow> 's \<Rightarrow>
     ('w uploader \<times> 's) option" where
  "Drain env upload sched u s =
     (case Empty env (up_ob u) of
        ((isEmpty, err), ob) \<Rightarrow>
          if err \<noteq> None \<or> isEmpty then Some (u\<lparr>up_ob := ob\<rparr>, s)
          else
            (case sched of
               [] \<Rightarrow> None
             | (now, w) # rest \<Rightarrow>
                 (case uploadCycle env upload now (u\<lparr>up_ob := ob\<rparr>) s of
                    None \<Rightarrow> None
                  | Some (u1, s1) \<Rightarrow>
                      (case w of
                         CtxDone \<Rightarrow> Some (u1, s1)
                       | Woken \<Rightarrow> Drain env upload rest u1 s1))))"

declare Drain.simps [simp del]

text \<open>\<open>Run\<close>: a schedule element tells whether the context had ended at the loop head, the clock
  reading of the cycle and the two of the wait, how the \<open>select\<close> ended and what happened meanwhile. The result collects the timer
  values the loop slept on.\<close>

fun Run ::
  "'w wal_env \<Rightarrow> ('s, 'e) transport \<Rightarrow>
     (bool \<times> (int \<times> int \<times> int) \<times> wake \<times> ('w uploader \<times> 's \<Rightarrow> 'w uploader \<times> 's)) list \<Rightarrow>
     'w uploader \<Rightarrow> 's \<Rightarrow> (int list \<times> 'w uploader \<times> 's) option" where
  "Run env upload [] u s = Some ([], u, s)"
| "Run env upload ((ctxErr, (now, now1, now2), w, f) # rest) u s =
     (if ctxErr then Some ([], u, s)
      else
        (case uploadCycle env upload now u s of
           None \<Rightarrow> None
         | Some (u1, s1) \<Rightarrow>
             (case w of
                CtxDone \<Rightarrow> Some ([currentWait now1 now2 u1], u1, s1)
              | Woken \<Rightarrow>
                  (case f (u1, s1) of
                     (u2, s2) \<Rightarrow>
                       map_option (\<lambda>(ws, r). (currentWait now1 now2 u1 # ws, r))
                         (Run env upload rest u2 s2)))))"

section \<open>Backoff\<close>

text \<open>Failures at the times of a list, each once the previous wait is over.\<close>

fun failures_ready :: "int list \<Rightarrow> 'w uploader \<Rightarrow> bool" where
  "failures_ready [] u \<longleftrightarrow> True"
| "failures_ready (t # ts) u \<longleftrightarrow>
     \<not> after_now (up_nextTry u) t \<and> failures_ready ts (recordFailure t u)"

lemma backoff_doubles:
  "0 < up_backoff u \<Longrightarrow> up_backoff u \<le> backoffMax \<Longrightarrow> failures_ready ts u \<Longrightarrow>
     up_backoff (fold recordFailure ts u) = min backoffMax (up_backoff u * 2 ^ length ts)"
proof (induction ts arbitrary: u)
  case (Cons t ts)
  let ?u = "recordFailure t u"
  from Cons.prems have b: "up_backoff ?u = min backoffMax (up_backoff u * 2)"
    by (auto simp: recordFailure_def Let_def)
  have "up_backoff (fold recordFailure ts ?u) = min backoffMax (up_backoff ?u * 2 ^ length ts)"
    using Cons.prems b by (intro Cons.IH) (auto simp: backoff_defs)
  also have "\<dots> = min backoffMax (up_backoff u * 2 ^ length (t # ts))"
  proof (cases "up_backoff u * 2 \<le> backoffMax")
    case False
    have p: "(1::int) \<le> 2 ^ length ts" by simp
    have "backoffMax * 1 \<le> backoffMax * 2 ^ length ts"
      by (rule mult_left_mono [OF p]) (simp add: backoff_defs)
    moreover have "backoffMax * 2 ^ length ts \<le> up_backoff u * 2 * 2 ^ length ts"
      using False by (intro mult_right_mono) auto
    ultimately have "backoffMax \<le> up_backoff u * 2 * 2 ^ length ts" by linarith
    then show ?thesis using False b \<open>backoffMax * 1 \<le> backoffMax * 2 ^ length ts\<close>
      by (simp add: mult.assoc)
  qed (simp add: b min_absorb2 mult.assoc)
  finally show ?case by simp
qed (simp add: min_def)

text \<open>Every such failure arms the retry anew.\<close>

lemma backoff_armed:
  "failures_ready (ts @ [t]) u \<Longrightarrow>
     up_nextTry (fold recordFailure (ts @ [t]) u) = Some (t + up_backoff (fold recordFailure (ts @ [t]) u))"
proof -
  assume r: "failures_ready (ts @ [t]) u"
  have "\<not> after_now (up_nextTry (fold recordFailure ts u)) t" using r by (induction ts arbitrary: u) simp_all
  then show ?thesis by (simp add: recordFailure_def Let_def)
qed

section \<open>What a response settles\<close>

definition rejects :: "upload_response \<Rightarrow> upload_entry \<Rightarrow> bool" where
  "rejects resp e \<longleftrightarrow>
     (\<exists>r \<in> set (resp_rejected resp). (rej_command_id r, rej_kind r, rej_seq_no r) = entry_key e)"

text \<open>A rejected terminal gives up the whole command.\<close>

definition abandons :: "upload_response \<Rightarrow> upload_entry \<Rightarrow> bool" where
  "abandons resp e \<longleftrightarrow>
     (\<exists>r \<in> set (resp_rejected resp). rej_kind r = KIND_RESULT \<and> rej_command_id r = ue_command_id e)"

definition covers :: "upload_ack \<Rightarrow> upload_entry \<Rightarrow> bool" where
  "covers a e \<longleftrightarrow>
     (ue_kind e = KIND_PROGRESS \<and> ue_seq_no e \<le> ack_last_progress_seq a) \<or>
     (ue_kind e = KIND_EVENT \<and> ue_seq_no e \<le> ack_last_event_seq a) \<or>
     (ue_kind e = KIND_RESULT \<and> ack_result_acked a)"

definition acknowledges :: "upload_response \<Rightarrow> upload_entry \<Rightarrow> bool" where
  "acknowledges resp e \<longleftrightarrow>
     (case find (\<lambda>a. ack_command_id a = ue_command_id e) (rev (resp_acks resp)) of
        None \<Rightarrow> False
      | Some a \<Rightarrow> covers a e)"

definition settles :: "upload_response \<Rightarrow> upload_entry \<Rightarrow> bool" where
  "settles resp e \<longleftrightarrow> abandons resp e \<or> rejects resp e \<or> acknowledges resp e"

definition record_settled :: "upload_response \<Rightarrow> wal_record \<Rightarrow> bool" where
  "record_settled resp r \<longleftrightarrow> (case rec_Entry r of None \<Rightarrow> True | Some e \<Rightarrow> settles resp e)"

lemma bar_parts_inject:
  assumes "a @ ''|'' @ s = b @ ''|'' @ t" "CHR ''|'' \<notin> set s" "CHR ''|'' \<notin> set t"
  shows "a = b \<and> s = t"
proof -
  have "rev s @ CHR ''|'' # rev a = rev t @ CHR ''|'' # rev b"
    using arg_cong [OF assms(1), of rev] by simp
  moreover have "takeWhile (\<lambda>c. c \<noteq> CHR ''|'') (rev x @ CHR ''|'' # y) = rev x"
      if "CHR ''|'' \<notin> set x" for x y
    using that by (subst takeWhile_append2) auto
  ultimately have "rev s = rev t" using assms(2,3) by metis
  with assms(1) show ?thesis by simp
qed

lemma rejectionKey_inject:
  "rejectionKey c k s = rejectionKey c' k' s' \<longleftrightarrow> c = c' \<and> k = k' \<and> s = s'"
proof
  assume eq: "rejectionKey c k s = rejectionKey c' k' s'"
  have "(c @ ''|'' @ int_string k) @ ''|'' @ int_string s =
      (c' @ ''|'' @ int_string k') @ ''|'' @ int_string s'"
    using eq by (simp add: rejectionKey_def)
  from bar_parts_inject [OF this int_string_no_bar int_string_no_bar]
  have *: "c @ ''|'' @ int_string k = c' @ ''|'' @ int_string k'" "int_string s = int_string s'"
    by simp_all
  from bar_parts_inject [OF *(1) int_string_no_bar int_string_no_bar] *(2)
  show "c = c' \<and> k = k' \<and> s = s'" by (simp add: int_string_inject)
qed simp

lemma foldl_map_update:
  "foldl (\<lambda>m x. m(f x \<mapsto> g x)) m0 xs k =
     (case find (\<lambda>x. f x = k) (rev xs) of None \<Rightarrow> m0 k | Some x \<Rightarrow> Some (g x))"
  by (induction xs arbitrary: m0 rule: rev_induct) auto

lemma rejected_map_iff:
  "rejected_map resp (rejectionKey c k s) \<noteq> None \<longleftrightarrow>
     (\<exists>r \<in> set (resp_rejected resp). (rej_command_id r, rej_kind r, rej_seq_no r) = (c, k, s))"
proof -
  have "rejected_map resp (rejectionKey c k s) = None \<longleftrightarrow>
      find (\<lambda>r. rejectionKey (rej_command_id r) (rej_kind r) (rej_seq_no r) = rejectionKey c k s)
        (rev (resp_rejected resp)) = None"
    unfolding rejected_map_def foldl_map_update by (auto split: option.splits)
  then show ?thesis by (auto simp: find_None_iff rejectionKey_inject)
qed

lemma terminalRejected_iff:
  "c \<in> set (terminalRejected resp) \<longleftrightarrow>
     (\<exists>r \<in> set (resp_rejected resp). rej_kind r = KIND_RESULT \<and> rej_command_id r = c)"
  by (auto simp: terminalRejected_def)

lemma ack_map_find:
  "ack_map resp c = find (\<lambda>a. ack_command_id a = c) (rev (resp_acks resp))"
  unfolding ack_map_def foldl_map_update by (auto split: option.splits)

lemma recordSettled_iff:
  "recordSettled r (ack_map resp) (rejected_map resp) (terminalRejected resp) \<longleftrightarrow>
     record_settled resp r"
  unfolding recordSettled_def record_settled_def settles_def acknowledges_def
    terminalRejected_iff rejected_map_iff ack_map_find
  by (auto simp: rejects_def abandons_def covers_def entry_key_def split: option.splits)

lemma fold_loop_boundary:
  "fst (fold_loop env resp rs (b, n, t)) =
     (let pre = takeWhile (record_settled resp) rs in if pre = [] then b else rec_Index (last pre))"
proof (induction rs arbitrary: b n t)
  case (Cons r rs)
  show ?case
    by (cases "rec_Entry r") (auto simp: recordSettled_iff Cons Let_def)
qed simp

lemma fold_loop_terminal:
  "snd (snd (fold_loop env resp rs (b, n, t))) \<longleftrightarrow>
     t \<or> (\<exists>r \<in> set (takeWhile (record_settled resp) rs). \<exists>e. rec_Entry r = Some e \<and>
            ue_kind e = KIND_RESULT)"
proof (induction rs arbitrary: b n t)
  case (Cons r rs)
  show ?case
    by (cases "rec_Entry r") (auto simp: recordSettled_iff Cons)
qed simp

section \<open>The cursor\<close>

text \<open>A queue record is accounted for when it is poison or the manager has handled its entry.\<close>

definition accounted :: "(upload_entry \<Rightarrow> bool) \<Rightarrow> upload_entry option \<Rightarrow> bool" where
  "accounted done r \<longleftrightarrow> (case r of None \<Rightarrow> True | Some e \<Rightarrow> done e)"

definition log_end :: "('w \<Rightarrow> nat \<times> bytes list) \<Rightarrow> 'w outbox \<Rightarrow> nat" where
  "log_end view ob = log_base view ob + length (log_data view ob)"

text \<open>A batch in flight is the run of the log that starts at the cursor.\<close>

definition batch_ok ::
  "'w wal_env \<Rightarrow> ('w \<Rightarrow> nat \<times> bytes list) \<Rightarrow> nat \<Rightarrow> 'w outbox \<Rightarrow> wal_record list \<Rightarrow> bool" where
  "batch_ok env view cursor ob rs \<longleftrightarrow>
     (let start = max (log_base view ob) cursor in
      0 < log_base view ob \<and> start + length rs \<le> log_end view ob \<and>
      map rec_Index rs = [start..<start + length rs] \<and>
      map rec_Entry rs =
        take (length rs) (drop (start - log_base view ob) (queue env view ob)))"

text \<open>What the turn loop's operations do to the outbox: the log's start stays, its end does
  not move back, the queue only grows at its end.\<close>

definition extends ::
  "'w wal_env \<Rightarrow> ('w \<Rightarrow> bool) \<Rightarrow> ('w \<Rightarrow> nat \<times> bytes list) \<Rightarrow> 'w outbox \<Rightarrow> 'w outbox \<Rightarrow> bool" where
  "extends env ok view ob ob' \<longleftrightarrow>
     healthy env ok ob' \<and> log_base view ob' = log_base view ob \<and>
     prefix (queue env view ob) (queue env view ob') \<and>
     length (log_data view ob) \<le> length (log_data view ob')"

lemma queue_length: "length (queue env view ob) = length (log_data view ob) + length (ob_buffered ob)"
  by (simp add: queue_def)

lemma Append_extends:
  assumes "wal_contract env ok view" "healthy env ok ob" "roundtrips env e" "Append env ob e = (r, ob')"
  shows "r = None \<and> extends env ok view ob ob' \<and> queue env view ob' = queue env view ob @ [Some e]"
  using Append_ok [OF assms(1-3)] Append_log_grows [OF assms(1-3)] assms(4)
  by (auto simp: extends_def)

lemma Flush_extends:
  assumes "wal_contract env ok view" "healthy env ok ob" "Flush env ob = (r, ob')"
  shows "r = None \<and> extends env ok view ob ob' \<and> queue env view ob' = queue env view ob"
proof -
  have "Flush env ob = flushLocked env ob" using assms(2) by (simp add: Flush_def healthy_def)
  with flush_ok [OF assms(1,2)] assms(3) show ?thesis
    by (auto simp: extends_def)
qed

lemma append_all_extends:
  assumes "wal_contract env ok view" "healthy env ok ob" "\<forall>e \<in> set es. roundtrips env e"
  shows "\<exists>ob'. append_all env ob es = (None, ob') \<and> extends env ok view ob ob' \<and>
    queue env view ob' = queue env view ob @ map Some es"
  using assms(2,3)
proof (induction es arbitrary: ob)
  case Nil
  then show ?case by (auto simp: extends_def)
next
  case (Cons e es)
  obtain r ob1 where a: "Append env ob e = (r, ob1)" by (cases "Append env ob e")
  with Append_extends [OF assms(1) Cons.prems(1) _ a] Cons.prems
  have ob1: "r = None" "extends env ok view ob ob1" "queue env view ob1 = queue env view ob @ [Some e]"
    by auto
  then have "healthy env ok ob1" by (simp add: extends_def)
  with Cons.IH [of ob1] Cons.prems obtain ob' where
    "append_all env ob1 es = (None, ob')" "extends env ok view ob1 ob'"
    "queue env view ob' = queue env view ob1 @ map Some es" by auto
  with a ob1 show ?case by (auto simp: extends_def)
qed

lemma ReadRecords_extends:
  assumes "wal_contract env ok view" "healthy env ok ob" "c \<le> log_end view ob"
  shows "\<exists>rs ob'. ReadRecords env ob n cap c = Some (Inr rs, ob') \<and> extends env ok view ob ob' \<and>
    queue env view ob' = queue env view ob \<and> batch_ok env view c ob' rs \<and> length rs \<le> n \<and>
    (rs = [] \<longrightarrow> 0 < n \<longrightarrow>
       log_base view ob + length (queue env view ob) \<le> max (log_base view ob) c) \<and>
    ob_buffered ob' = []"
proof -
  obtain rs ob' start where r: "ReadRecords env ob n cap c = Some (Inr rs, ob')" "healthy env ok ob'"
      "queue env view ob' = queue env view ob" "log_base view ob' = log_base view ob"
      "start = (if c > log_base view ob + length (queue env view ob) then log_base view ob
                else max (log_base view ob) c)"
      "map rec_Index rs = [start..<start + length rs]"
      "map rec_Entry rs = take (length rs) (drop (start - log_base view ob) (queue env view ob))"
      "length rs \<le> n" "start < log_base view ob + length (queue env view ob) \<longrightarrow> 0 < n \<longrightarrow> rs \<noteq> []"
    using ReadRecords_run [OF assms(1,2), of n cap c] by metis
  have le: "c \<le> log_base view ob + length (queue env view ob)"
    using assms(3) by (simp add: log_end_def queue_length)
  then have st: "start = max (log_base view ob) c" using r(5) by simp
  have buf: "ob_buffered ob' = []"
    using ReadRecords_ok [OF assms(1,2), of c n cap] r(1) by (auto simp: Let_def)
  then have len: "length (queue env view ob) = length (log_data view ob')"
    using r(3) by (metis queue_length list.size(3) add_0_right)
  have grow: "length (log_data view ob) \<le> length (log_data view ob')"
    using len by (simp add: queue_length)
  have base: "0 < log_base view ob"
    using assms(1,2) wal_contractD(1) [of env ok view "ob_world ob" "fst (view (ob_world ob))"
        "snd (view (ob_world ob))"] by (simp add: healthy_def log_base_def)
  have "start - log_base view ob + length rs \<le> length (queue env view ob)"
  proof -
    have "length rs = length (map rec_Entry rs)" by simp
    also have "\<dots> = min (length rs) (length (queue env view ob) - (start - log_base view ob))"
      unfolding r(7) by simp
    finally show ?thesis using le st by (auto simp: max_def split: if_splits)
  qed
  then have "start + length rs \<le> log_end view ob'"
    using st r(4) len by (auto simp: log_end_def max_def split: if_splits)
  then have "batch_ok env view c ob' rs"
    using r(3,4,6,7) st base by (simp add: batch_ok_def Let_def)
  then show ?thesis
    using r grow st buf by (auto simp: extends_def not_less)
qed

text \<open>The fold of a response to a batch in flight: the cursor moves over the settled prefix,
  and what it evicts is a prefix of that.\<close>

lemma EvictThrough_prefix:
  assumes "wal_contract env ok view" "healthy env ok ob"
    "log_base view ob \<le> b" "b < log_end view ob"
  shows "\<exists>ob'. EvictThrough env ob b = (None, ob') \<and> healthy env ok ob' \<and>
    ob_buffered ob' = ob_buffered ob \<and>
    queue env view ob' = drop (Suc b - log_base view ob) (queue env view ob) \<and>
    log_base view ob' = Suc b \<and> log_end view ob' = log_end view ob"
proof -
  obtain ob' where ob': "EvictThrough env ob b = (None, ob')" "healthy env ok ob'"
      "ob_buffered ob' = ob_buffered ob"
      "log_data view ob' = drop (Suc b - log_base view ob) (log_data view ob)"
      "log_base view ob' = (if log_data view ob = [] \<or> b < log_base view ob then log_base view ob
         else min (Suc b) (log_base view ob + length (log_data view ob)))"
    using EvictThrough_ok [OF assms(1,2)] by blast
  have "log_data view ob \<noteq> []" using assms(3,4) by (auto simp: log_end_def)
  then have "log_base view ob' = Suc b" using ob'(5) assms(3,4) by (simp add: log_end_def min_def)
  with ob' assms(3,4) show ?thesis
    by (auto simp: queue_def log_end_def drop_map)
qed

definition evict_due :: "'w wal_env \<Rightarrow> 'w uploader \<Rightarrow> wal_record list \<Rightarrow> upload_response \<Rightarrow> bool" where
  "evict_due env u rs resp \<longleftrightarrow>
     (\<exists>r \<in> set (takeWhile (record_settled resp) rs). \<exists>e. rec_Entry r = Some e \<and> ue_kind e = KIND_RESULT) \<or>
     (\<exists>r \<in> set (resp_rejected resp). rej_kind r = KIND_RESULT) \<or>
     up_settledSinceEvict u + fst (snd (fold_loop env resp rs (0, 0, False))) \<ge> TruncateThresholdBytes"

lemma fold_response_ok:
  fixes resp :: upload_response
  assumes "wal_contract env ok view" "healthy env ok (up_ob u)"
    "batch_ok env view (up_readFrom u) (up_ob u) rs"
  defines "start \<equiv> max (log_base view (up_ob u)) (up_readFrom u)"
    and "k \<equiv> length (takeWhile (record_settled resp) rs)"
    and "u' \<equiv> fold_response env u rs resp"
  shows "k = 0 \<Longrightarrow> u' = u"
    and "0 < k \<Longrightarrow> up_readFrom u' = start + k"
    and "0 < k \<Longrightarrow> healthy env ok (up_ob u') \<and> log_end view (up_ob u') = log_end view (up_ob u) \<and>
      ob_buffered (up_ob u') = ob_buffered (up_ob u) \<and>
      (if evict_due env u rs resp
       then queue env view (up_ob u') =
              drop (start + k - log_base view (up_ob u)) (queue env view (up_ob u)) \<and>
            log_base view (up_ob u') = start + k
       else up_ob u' = up_ob u)"
proof -
  obtain b n t where l: "fold_loop env resp rs (0, 0, False) = (b, n, t)"
    by (cases "fold_loop env resp rs (0, 0, False)")
  let ?pre = "takeWhile (record_settled resp) rs"
  have t: "t \<longleftrightarrow> (\<exists>r \<in> set ?pre. \<exists>e. rec_Entry r = Some e \<and> ue_kind e = KIND_RESULT)"
    using fold_loop_terminal [of env resp rs 0 0 False] l by simp
  have b: "b = (if ?pre = [] then 0 else rec_Index (last ?pre))"
    using fold_loop_boundary [of env resp rs 0 0 False] l by (simp add: Let_def)
  have idx: "map rec_Index rs = [start..<start + length rs]"
    and fits: "start + length rs \<le> log_end view (up_ob u)" "0 < start"
    using assms(3) by (auto simp: batch_ok_def start_def Let_def)
  have kle: "k \<le> length rs" by (simp add: k_def length_takeWhile_le)
  have pre: "?pre = take k rs" unfolding k_def by (rule takeWhile_eq_take)
  show "k = 0 \<Longrightarrow> u' = u"
    using b l by (simp add: u'_def fold_response_def k_def)
  assume k0: "0 < k"
  then have "last ?pre = rs ! (k - 1)"
    unfolding pre using kle by (cases k) (simp_all add: take_Suc_conv_app_nth)
  moreover have "rec_Index (rs ! (k - 1)) = start + (k - 1)"
    using arg_cong [OF idx, of "\<lambda>xs. xs ! (k - 1)"] k0 kle by simp
  moreover have "?pre \<noteq> []" using k0 by (auto simp: k_def)
  ultimately have bk: "b = start + k - 1" "b \<noteq> 0" "Suc b = start + k"
    using b k0 fits(2) by simp_all
  have rng: "log_base view (up_ob u) \<le> b" "b < log_end view (up_ob u)"
    using bk kle fits k0 by (simp_all add: start_def max_def split: if_splits)
  obtain ob' where ob': "EvictThrough env (up_ob u) b = (None, ob')" "healthy env ok ob'"
      "ob_buffered ob' = ob_buffered (up_ob u)"
      "queue env view ob' = drop (Suc b - log_base view (up_ob u)) (queue env view (up_ob u))"
      "log_base view ob' = Suc b" "log_end view ob' = log_end view (up_ob u)"
    using EvictThrough_prefix [OF assms(1,2) rng] by blast
  have due: "evict_due env u rs resp \<longleftrightarrow>
      t \<or> terminalRejected resp \<noteq> [] \<or> up_settledSinceEvict u + n \<ge> TruncateThresholdBytes"
    by (auto simp: evict_due_def t l terminalRejected_def filter_empty_conv)
  have "up_readFrom u \<le> start" by (simp add: start_def)
  with bk k0 l ob'(1) show "up_readFrom u' = start + k"
    by (auto simp: u'_def fold_response_def setReadFrom_def addSettledBytes_def resetSettledBytes_def
        Let_def split: prod.splits option.splits if_splits)
  have "up_ob u' = (if evict_due env u rs resp then ob' else up_ob u)"
    unfolding due u'_def fold_response_def l using bk(2) ob'(1)
    by (simp add: setReadFrom_def addSettledBytes_def resetSettledBytes_def Let_def)
  with ob' bk(3) assms(2)
  show "healthy env ok (up_ob u') \<and> log_end view (up_ob u') = log_end view (up_ob u) \<and>
      ob_buffered (up_ob u') = ob_buffered (up_ob u) \<and>
      (if evict_due env u rs resp
       then queue env view (up_ob u') =
              drop (start + k - log_base view (up_ob u)) (queue env view (up_ob u)) \<and>
            log_base view (up_ob u') = start + k
       else up_ob u' = up_ob u)"
    by simp
qed

section \<open>The machine as a system of steps\<close>

text \<open>
  One uploader goroutine, the turn loop that appends and flushes, the manager behind the
  transport. \<open>sys_flight\<close> is the batch between the read and the response; \<open>sys_appended\<close> is a
  history variable: the entries the turn loop has appended. The retention cap is the one
  place where the machine gives up records; the \<open>cap\<close> rule is only taken below it.
\<close>

record ('w, 's) system =
  sys_up :: "'w uploader"
  sys_srv :: 's
  sys_flight :: "wal_record list option"
  sys_appended :: "upload_entry list"

definition below_cap :: "'w wal_env \<Rightarrow> 'w outbox \<Rightarrow> bool" where
  "below_cap env ob = (case dirSize env (ob_world ob) of None \<Rightarrow> True | Some sz \<Rightarrow> sz < MaxBytes)"

inductive sys_step ::
  "'w wal_env \<Rightarrow> ('s, 'e) transport \<Rightarrow> ('w, 's) system \<Rightarrow> ('w, 's) system \<Rightarrow> bool"
  for env upload where
  append:
    "roundtrips env e \<Longrightarrow> Append env (up_ob (sys_up y)) e = (err, ob) \<Longrightarrow>
     sys_step env upload y
       (y\<lparr>sys_up := (sys_up y)\<lparr>up_ob := ob\<rparr>, sys_appended := sys_appended y @ [e]\<rparr>)"
| flush:
    "Flush env (up_ob (sys_up y)) = (err, ob) \<Longrightarrow>
     sys_step env upload y (y\<lparr>sys_up := (sys_up y)\<lparr>up_ob := ob\<rparr>\<rparr>)"
| synthesize:
    "\<forall>og. roundtrips env (syntheticTerminal message og) \<Longrightarrow>
     SynthesizeInterruptedTerminals env message (sys_up y) = Some (err, u) \<Longrightarrow>
     sys_step env upload y (y\<lparr>sys_up := u\<rparr>)"
| barrier:
    "blockingFor env (sys_up y) commandID = Some (r, u) \<Longrightarrow>
     sys_step env upload y (y\<lparr>sys_up := u\<rparr>)"
| flush_now: "sys_step env upload y (y\<lparr>sys_up := FlushNow (sys_up y)\<rparr>)"
| bypass:
    "BypassUpload upload (sys_srv y) entry = (err, s) \<Longrightarrow>
     sys_step env upload y (y\<lparr>sys_srv := s\<rparr>)"
| read:
    "sys_flight y = None \<Longrightarrow> cycle_start env now (sys_up y) = Some (ReadBatch rs, u) \<Longrightarrow>
     sys_step env upload y (y\<lparr>sys_up := u, sys_flight := Some rs\<rparr>)"
| idle:
    "sys_flight y = None \<Longrightarrow> cycle_start env now (sys_up y) = Some (r, u) \<Longrightarrow>
     (\<And>rs. r \<noteq> ReadBatch rs) \<Longrightarrow>
     sys_step env upload y (y\<lparr>sys_up := u\<rparr>)"
| fail:
    "sys_flight y = Some rs \<Longrightarrow>
     cycle_send env upload now rs (sys_up y) (sys_srv y) = (False, u, s) \<Longrightarrow>
     sys_step env upload y (y\<lparr>sys_up := u, sys_srv := s, sys_flight := None\<rparr>)"
| cap:
    "sys_flight y = Some rs \<Longrightarrow>
     cycle_send env upload now rs (sys_up y) (sys_srv y) = (True, u, s) \<Longrightarrow>
     below_cap env (up_ob u) \<Longrightarrow>
     sys_step env upload y (y\<lparr>sys_up := cycle_cap env u, sys_srv := s, sys_flight := None\<rparr>)"

text \<open>A machine that starts, or restarts on the log of an earlier run.\<close>

definition initial_system :: "'w outbox \<Rightarrow> 's \<Rightarrow> upload_entry list \<Rightarrow> ('w, 's) system" where
  "initial_system ob s es =
     \<lparr>sys_up = NewUploader ob, sys_srv = s, sys_flight = None, sys_appended = es\<rparr>"

inductive sys_reach ::
  "'w wal_env \<Rightarrow> ('s, 'e) transport \<Rightarrow> ('w, 's) system \<Rightarrow> ('w, 's) system \<Rightarrow> bool"
  for env upload y0 where
  start: "sys_reach env upload y0 y0"
| more: "sys_reach env upload y0 y \<Longrightarrow> sys_step env upload y z \<Longrightarrow> sys_reach env upload y0 z"

text \<open>\<open>up_ob\<close> and \<open>up_readFrom\<close> are all the invariant looks at.\<close>

lemma frame_simps [simp]:
  "up_ob (recordFailure now u) = up_ob u" "up_readFrom (recordFailure now u) = up_readFrom u"
  "up_ob (recordSuccess u) = up_ob u" "up_readFrom (recordSuccess u) = up_readFrom u"
  "up_ob (FlushNow u) = up_ob u" "up_readFrom (FlushNow u) = up_readFrom u"
  "up_ob (updateGauges env b u) = up_ob u" "up_readFrom (updateGauges env b u) = up_readFrom u"
  by (simp_all add: recordFailure_def recordSuccess_def FlushNow_def updateGauges_def Let_def
      split: sum.splits option.splits prod.splits)

lemma EnforceCap_below: "below_cap env ob \<Longrightarrow> EnforceCap env ob = ob"
  by (auto simp: below_cap_def EnforceCap_def split: option.splits)

lemma list_all_take_add:
  "list_all P (take m xs) \<Longrightarrow> list_all P (take k (drop m xs)) \<Longrightarrow> list_all P (take (m + k) xs)"
  by (auto simp: take_add)

section \<open>The manager the uploader relies on\<close>

text \<open>
  \<open>handled s e\<close>: the manager has accounted for the entry, by storing it or by refusing it.
  The manager never forgets, and a response settles an entry of its batch only when the
  entry is handled.
\<close>

locale upload_server =
  fixes upload :: "('s, 'e) transport"
    and handled :: "'s \<Rightarrow> upload_entry \<Rightarrow> bool"
    and valid :: "'s \<Rightarrow> bool"
  assumes valid_upload: "valid s \<Longrightarrow> valid (snd (upload s es))"
    and handled_mono: "valid s \<Longrightarrow> handled s e \<Longrightarrow> handled (snd (upload s es)) e"
    and settled_handled:
      "valid s \<Longrightarrow> upload s es = (Inr resp, s') \<Longrightarrow> e \<in> set es \<Longrightarrow> settles resp e \<Longrightarrow>
        handled s' e"
begin

text \<open>After a response, the cursor's prefix and the settled records behind it are accounted for.\<close>

lemma settled_prefix_accounted:
  assumes "list_all (accounted (handled s)) (take (c - log_base view ob) (queue env view ob))" "batch_ok env view c ob rs"
    "upload s (batch_entries rs) = (Inr resp, s')" "valid s"
  defines "k \<equiv> length (takeWhile (record_settled resp) rs)"
  shows "list_all (accounted (handled s'))
    (take (max (log_base view ob) c + k - log_base view ob) (queue env view ob))"
proof -
  let ?lo = "log_base view ob" and ?start = "max (log_base view ob) c"
  have "accounted (handled s) r \<Longrightarrow> accounted (handled s') r" for r
    using handled_mono [OF assms(4), of _ "batch_entries rs"] assms(3) by (auto simp: accounted_def split: option.splits)
  with assms(1) have "list_all (accounted (handled s')) (take (c - ?lo) (queue env view ob))" by (auto elim: list.pred_mono_strong)
  moreover have "take (?start - ?lo) (queue env view ob) = take (c - ?lo) (queue env view ob)"
    by (simp add: max_def)
  ultimately have "list_all (accounted (handled s')) (take (?start - ?lo) (queue env view ob))"
    by simp
  moreover have "list_all (accounted (handled s')) (take k (drop (?start - ?lo) (queue env view ob)))"
  proof -
    have "accounted (handled s') (rec_Entry q)" if "q \<in> set (take k rs)" for q
    proof (cases "rec_Entry q")
      case (Some e)
      have "q \<in> set (takeWhile (record_settled resp) rs)"
        using that by (metis k_def takeWhile_eq_take)
      then have "record_settled resp q" "q \<in> set rs" by (auto dest: set_takeWhileD)
      then have "e \<in> set (batch_entries rs)" "settles resp e"
        using Some by (force simp: batch_entries_def map_filter_def record_settled_def)+
      with settled_handled [OF assms(4,3)] Some show ?thesis by (simp add: accounted_def)
    qed (simp add: accounted_def)
    then have "list_all (accounted (handled s')) (map rec_Entry (take k rs))"
      by (auto simp: list_all_iff)
    moreover have "map rec_Entry (take k rs) = take k (drop (?start - ?lo) (queue env view ob))"
    proof -
      have "k \<le> length rs" unfolding k_def by (rule length_takeWhile_le)
      moreover have "map rec_Entry rs = take (length rs) (drop (?start - ?lo) (queue env view ob))"
        using assms(2) by (simp add: batch_ok_def Let_def)
      ultimately show ?thesis by (metis take_map take_take min_absorb1)
    qed
    ultimately show ?thesis by simp
  qed
  ultimately have "list_all (accounted (handled s')) (take (?start - ?lo + k) (queue env view ob))"
    by (rule list_all_take_add)
  then show ?thesis by simp
qed

lemma send_mono:
  "cycle_send env upload now rs u s = (folded, u', s') \<Longrightarrow> valid s \<Longrightarrow>
     valid s' \<and> (handled s e \<longrightarrow> handled s' e)"
  using handled_mono [of s e "batch_entries rs"] valid_upload [of s "batch_entries rs"]
  by (auto simp: cycle_send_def Let_def split: prod.splits sum.splits)

end

section \<open>Interrupted commands in the queue\<close>

definition q_entries :: "upload_entry option list \<Rightarrow> upload_entry list" where
  "q_entries q = List.map_filter (\<lambda>r. r) q"

definition unterminated :: "upload_entry list \<Rightarrow> string set" where
  "unterminated es =
     {c \<in> ue_command_id ` set es. \<forall>e \<in> set es. ue_command_id e = c \<longrightarrow> ue_kind e \<noteq> KIND_RESULT}"

definition lastProgress :: "upload_entry list \<Rightarrow> string \<Rightarrow> int" where
  "lastProgress es c =
     foldl max32 0
       (map ue_seq_no (filter (\<lambda>e. ue_command_id e = c \<and> ue_kind e = KIND_PROGRESS) es))"

definition orphan :: "upload_entry list \<Rightarrow> string \<Rightarrow> orphan_group" where
  "orphan es c = \<lparr>og_commandID = c, og_lastProgressSeq = lastProgress es c\<rparr>"

lemma q_entries_simps [simp]:
  "q_entries [] = []" "q_entries (p @ q) = q_entries p @ q_entries q"
  "q_entries (map Some es) = es"
  by (simp_all add: q_entries_def map_filter_def comp_def)

lemma set_q_entries [simp]: "set (q_entries q) = {e. Some e \<in> set q}"
  by (force simp: q_entries_def map_filter_def)

lemma batch_entries_q: "batch_entries rs = q_entries (map rec_Entry rs)"
  by (simp add: batch_entries_def q_entries_def map_filter_def comp_def filter_map)

lemma finite_unterminated [simp]: "finite (unterminated es)"
  by (simp add: unterminated_def)

lemma foldl_max32_upper: "x \<in> insert a (set xs) \<Longrightarrow> x \<le> foldl max32 a xs"
proof (induction xs arbitrary: a x)
  case (Cons y ys)
  have "max32 a y \<le> foldl max32 (max32 a y) ys" by (rule Cons.IH) simp
  moreover have "a \<le> max32 a y" "y \<le> max32 a y" by (simp_all add: max32_def)
  moreover have "x \<in> set ys \<Longrightarrow> x \<le> foldl max32 (max32 a y) ys" by (rule Cons.IH) simp
  ultimately show ?case using Cons.prems by auto
qed simp

lemma lastProgress_covers:
  assumes "e \<in> set es" "ue_kind e = KIND_PROGRESS"
  shows "ue_seq_no e \<le> lastProgress es (ue_command_id e)"
  unfolding lastProgress_def using assms by (intro foldl_max32_upper) auto

lemma map_of_group_record:
  "map_of (group_record gs e) c =
     (let g = (case map_of gs c of
                 None \<Rightarrow> \<lparr>g_hasTerminal = False, g_lastProgSeq = 0\<rparr>
               | Some g \<Rightarrow> g)
      in if c \<noteq> ue_command_id e then map_of gs c
         else Some (if ue_kind e = KIND_RESULT then g\<lparr>g_hasTerminal := True\<rparr>
                    else if ue_kind e = KIND_PROGRESS
                    then g\<lparr>g_lastProgSeq := max32 (g_lastProgSeq g) (ue_seq_no e)\<rparr>
                    else g))"
  by (simp add: group_record_def Let_def update_conv')

lemma map_of_groups:
  "map_of (foldl group_record [] es) c =
     (if c \<in> ue_command_id ` set es
      then Some \<lparr>g_hasTerminal = (\<exists>e \<in> set es. ue_command_id e = c \<and> ue_kind e = KIND_RESULT),
                 g_lastProgSeq = lastProgress es c\<rparr>
      else None)"
proof (induction es rule: rev_induct)
  case (snoc e es)
  have no: "lastProgress es c = 0" if "c \<notin> ue_command_id ` set es" for c
  proof -
    have "filter (\<lambda>e. ue_command_id e = c \<and> ue_kind e = KIND_PROGRESS) es = []"
      using that by (auto simp: filter_empty_conv)
    then show ?thesis by (simp add: lastProgress_def)
  qed
  have "lastProgress (es @ [e]) c =
      (if ue_command_id e = c \<and> ue_kind e = KIND_PROGRESS
       then max32 (lastProgress es c) (ue_seq_no e) else lastProgress es c)"
    by (simp add: lastProgress_def)
  with snoc no [of c] show ?case
    by (cases "c \<in> ue_command_id ` set es"; cases "c = ue_command_id e")
      (auto simp: map_of_group_record Let_def image_iff)
qed simp

lemma distinct_groups: "distinct (map fst (foldl group_record [] es))"
  by (induction es rule: rev_induct) (simp_all add: group_record_def Let_def distinct_update)

lemma orphans_of_groups:
  "orphans_of (foldl group_record [] es) = map (orphan es) (sorted_list_of_set (unterminated es))"
proof -
  let ?gs = "foldl group_record [] es" and ?os = "orphans_of (foldl group_record [] es)"
  have mem: "(c, g) \<in> set ?gs \<longleftrightarrow> map_of ?gs c = Some g" for c g
    using distinct_groups [of es] by (metis map_of_eq_Some_iff)
  have el: "set ?os = orphan es ` unterminated es"
    unfolding orphans_of_def set_sort set_map set_filter
    by (force simp: mem map_of_groups orphan_def unterminated_def image_iff split: if_splits)
  have "distinct (map og_commandID ?os)"
  proof -
    have "distinct (map fst (filter (\<lambda>(id, g). \<not> g_hasTerminal g) ?gs))"
      using distinct_groups [of es] by (rule distinct_map_filter)
    then show ?thesis
      by (simp add: orphans_of_def distinct_map inj_on_def split_def image_iff)
        (auto simp: distinct_map inj_on_def)
  qed
  moreover have "sorted (map og_commandID ?os)" by (simp add: orphans_of_def)
  moreover have "set (map og_commandID ?os) = unterminated es"
    unfolding set_map el by (force simp: orphan_def)
  ultimately have ids: "map og_commandID ?os = sorted_list_of_set (unterminated es)"
    by (metis sorted_list_of_set.idem_if_sorted_distinct)
  have "?os = map (orphan es \<circ> og_commandID) ?os"
    by (rule map_idI [symmetric]) (use el in \<open>auto simp: orphan_def\<close>)
  then show ?thesis using ids by (metis map_map)
qed

lemma orphan_scan_ok:
  assumes "wal_contract env ok view" "healthy env ok ob" "from \<le> log_end view ob"
  shows "\<exists>ob'. orphan_scan env ob from gs =
      Some (Inr (foldl group_record gs (q_entries (drop (from - log_base view ob) (queue env view ob)))), ob')
    \<and> extends env ok view ob ob' \<and> queue env view ob' = queue env view ob"
  using assms(2,3)
proof (induction "log_base view ob + length (queue env view ob) - from" arbitrary: ob "from" gs
    rule: less_induct)
  case less
  let ?lo = "log_base view ob" and ?q = "queue env view ob"
  obtain rs ob1 where r: "ReadRecords env ob ReadBatchMaxEntries UploadMaxBytes from = Some (Inr rs, ob1)"
      "extends env ok view ob ob1" "queue env view ob1 = ?q" "batch_ok env view from ob1 rs"
      "rs = [] \<longrightarrow> 0 < ReadBatchMaxEntries \<longrightarrow> ?lo + length ?q \<le> max ?lo from"
    using ReadRecords_extends [OF assms(1) less.prems] by metis
  have base: "log_base view ob1 = ?lo" "healthy env ok ob1" using r(2) by (simp_all add: extends_def)
  show ?case
  proof (cases "rs = []")
    case True
    then have "length ?q \<le> from - ?lo" using r(5) by (auto simp: ReadBatchMaxEntries_def max_def split: if_splits)
    with True r show ?thesis by (subst orphan_scan.simps) simp
  next
    case False
    let ?start = "max ?lo from"
    have b: "?start + length rs \<le> log_end view ob1" "map rec_Index rs = [?start..<?start + length rs]"
        "map rec_Entry rs = take (length rs) (drop (?start - ?lo) ?q)"
      using r(3,4) base(1) by (simp_all add: batch_ok_def Let_def)
    have "rec_Index (last rs) = last (map rec_Index rs)" using False by (simp add: last_map)
    then have nx: "Suc (rec_Index (last rs)) = ?start + length rs"
      unfolding b(2) using False by (simp add: last_upt) 
    have dr: "?start - ?lo = from - ?lo" by (simp add: max_def)
    have "log_end view ob1 \<le> ?lo + length ?q"
      using base(1) r(3) queue_length [of env view ob1] by (simp add: log_end_def)
    then have lt: "from < ?lo + length ?q" using b(1) False by (cases rs) auto
    have "\<exists>ob'. orphan_scan env ob1 (?start + length rs) gs' =
        Some (Inr (foldl group_record gs' (q_entries (drop (?start + length rs - ?lo) ?q))), ob') \<and>
        extends env ok view ob1 ob' \<and> queue env view ob' = ?q" for gs'
      using less.hyps [of ob1 "?start + length rs" gs'] base r(3) b(1) False lt
      by (cases rs) auto
    then obtain ob' where ob': "orphan_scan env ob1 (?start + length rs)
          (foldl group_record gs (batch_entries rs)) =
        Some (Inr (foldl group_record (foldl group_record gs (batch_entries rs))
          (q_entries (drop (?start + length rs - ?lo) ?q))), ob')"
        "extends env ok view ob1 ob'" "queue env view ob' = ?q" by blast
    have "?start + length rs - ?lo = length rs + (from - ?lo)" using dr by simp
    then have "drop (from - ?lo) ?q = map rec_Entry rs @ drop (?start + length rs - ?lo) ?q"
      by (metis b(3) dr drop_drop append_take_drop_id)
    then have split: "q_entries (drop (from - ?lo) ?q) =
        batch_entries rs @ q_entries (drop (?start + length rs - ?lo) ?q)"
      by (simp add: batch_entries_q)
    have "orphan_scan env ob from gs =
        orphan_scan env ob1 (?start + length rs) (foldl group_record gs (batch_entries rs))"
      using r(1) False nx by (subst orphan_scan.simps) simp
    with ob' r(2) split show ?thesis by (auto simp: extends_def)
  qed
qed

lemma Synthesize_ok:
  fixes message :: string
  assumes "wal_contract env ok view" "healthy env ok (up_ob u)"
  defines "es \<equiv> q_entries (queue env view (up_ob u))"
  assumes "\<forall>c \<in> unterminated es. roundtrips env (syntheticTerminal message (orphan es c))"
  shows "\<exists>u'. SynthesizeInterruptedTerminals env message u = Some (None, u') \<and>
    up_readFrom u' = up_readFrom u \<and> extends env ok view (up_ob u) (up_ob u') \<and>
    ob_buffered (up_ob u') = [] \<and>
    queue env view (up_ob u') = queue env view (up_ob u) @
      map (\<lambda>c. Some (syntheticTerminal message (orphan es c))) (sorted_list_of_set (unterminated es))"
proof -
  obtain ob1 where scan: "orphan_scan env (up_ob u) 0 [] = Some (Inr (foldl group_record [] es), ob1)"
      and ob1: "extends env ok view (up_ob u) ob1" "queue env view ob1 = queue env view (up_ob u)"
    using orphan_scan_ok [OF assms(1,2), of 0 "[]"] by (auto simp: es_def)
  let ?ts = "map (\<lambda>c. syntheticTerminal message (orphan es c)) (sorted_list_of_set (unterminated es))"
  have "healthy env ok ob1" "\<forall>e \<in> set ?ts. roundtrips env e"
    using ob1(1) assms(4) by (auto simp: extends_def)
  from append_all_extends [OF assms(1) this] obtain ob2 where
    ob2: "append_all env ob1 ?ts = (None, ob2)" "extends env ok view ob1 ob2"
      "queue env view ob2 = queue env view ob1 @ map Some ?ts" by blast
  then have h2: "healthy env ok ob2" by (simp add: extends_def)
  obtain r ob3 where fl: "Flush env ob2 = (r, ob3)" by (cases "Flush env ob2")
  note fl' = Flush_extends [OF assms(1) h2 fl]
  have "ob_buffered ob3 = []"
    using flush_ok [OF assms(1) h2] fl h2 by (auto simp: Flush_def healthy_def)
  moreover have "extends env ok view (up_ob u) ob3"
    using ob1 ob2 fl' by (auto simp: extends_def)
  ultimately show ?thesis
    using scan ob1 ob2 fl fl'
    by (simp add: SynthesizeInterruptedTerminals_def orphanGroups_def orphans_of_groups comp_def)
qed

section \<open>Draining\<close>

text \<open>A manager that answers a batch of well-formed entries and settles each of them.\<close>

locale draining_server = upload_server +
  fixes good :: "upload_entry \<Rightarrow> bool"
    and ready :: "'s \<Rightarrow> bool"
  assumes ready_valid: "ready s \<Longrightarrow> valid s"
    and settles_good:
    "ready s \<Longrightarrow> \<forall>e \<in> set es. good e \<Longrightarrow>
       \<exists>resp s'. upload s es = (Inr resp, s') \<and> ready s' \<and> (\<forall>e \<in> set es. settles resp e)"

definition ends_terminal :: "upload_entry option list \<Rightarrow> bool" where
  "ends_terminal q \<longleftrightarrow> q \<noteq> [] \<and> (\<exists>e. last q = Some e \<and> ue_kind e = KIND_RESULT)"

text \<open>A queue on its way out: every entry is good, a terminal closes it and the cursor has not
  passed it.\<close>

definition drainable ::
  "'w wal_env \<Rightarrow> ('w \<Rightarrow> bool) \<Rightarrow> ('w \<Rightarrow> nat \<times> bytes list) \<Rightarrow> (upload_entry \<Rightarrow> bool) \<Rightarrow>
     'w uploader \<Rightarrow> bool" where
  "drainable env ok view good u \<longleftrightarrow>
     healthy env ok (up_ob u) \<and> up_readFrom u \<le> log_end view (up_ob u) \<and>
     (\<forall>e \<in> set (q_entries (queue env view (up_ob u))). good e) \<and>
     ends_terminal (queue env view (up_ob u)) \<and>
     up_readFrom u < log_base view (up_ob u) + length (queue env view (up_ob u))"

definition left_to_send ::
  "'w wal_env \<Rightarrow> ('w \<Rightarrow> nat \<times> bytes list) \<Rightarrow> 'w uploader \<Rightarrow> nat" where
  "left_to_send env view u =
     log_base view (up_ob u) + length (queue env view (up_ob u)) -
       max (log_base view (up_ob u)) (up_readFrom u)"

lemma EnforceCap_cases:
  assumes "wal_contract env ok view" "healthy env ok ob" "ob_buffered ob = []"
  shows "EnforceCap env ob = ob \<or>
    (healthy env ok (EnforceCap env ob) \<and> queue env view (EnforceCap env ob) = [])"
proof (cases "below_cap env ob")
  case True
  then show ?thesis by (simp add: EnforceCap_below)
next
  case False
  then show ?thesis
    using EnforceCap_ok [OF assms(1,2)] assms(3)
    by (auto simp: below_cap_def queue_def split: option.splits)
qed

text \<open>A batch that reaches the end of such a queue contains its closing terminal.\<close>

lemma batch_reaches_terminal:
  assumes "batch_ok env view c ob rs" "ends_terminal (queue env view ob)" "rs \<noteq> []"
    "max (log_base view ob) c + length rs = log_base view ob + length (queue env view ob)"
  shows "\<exists>r \<in> set rs. \<exists>e. rec_Entry r = Some e \<and> ue_kind e = KIND_RESULT"
proof -
  let ?q = "queue env view ob" and ?k = "max (log_base view ob) c - log_base view ob"
  have "length ?q = ?k + length rs" using assms(4) by (simp add: max_def split: if_splits)
  moreover have "map rec_Entry rs = take (length rs) (drop ?k ?q)"
    using assms(1) by (simp add: batch_ok_def Let_def)
  ultimately have "map rec_Entry rs = drop ?k ?q" by simp
  moreover have "?k < length ?q" using \<open>length ?q = ?k + length rs\<close> assms(3) by (cases rs) auto
  ultimately have "rec_Entry (last rs) = last ?q"
    using assms(3) by (metis last_drop last_map)
  with assms(2,3) show ?thesis by (metis ends_terminal_def last_in_set)
qed

text \<open>A cycle whose whole batch is settled: the cursor passes the batch, and the log loses
  either everything before the cursor or nothing.\<close>

lemma uploadCycle_settled:
  assumes "wal_contract env ok view" "drainable env ok view good u"
    and answer: "\<And>es. \<forall>e \<in> set es. good e \<Longrightarrow>
       \<exists>resp s'. upload s es = (Inr resp, s') \<and> rdy s' \<and> (\<forall>e \<in> set es. settles resp e)"
  defines "start \<equiv> max (log_base view (up_ob u)) (up_readFrom u)"
    and "q \<equiv> queue env view (up_ob u)" and "lo \<equiv> log_base view (up_ob u)"
  shows "\<exists>n u' s'. uploadCycle env upload now u s = Some (cycle_cap env u', s') \<and> rdy s' \<and> 0 < n \<and>
    start + n \<le> lo + length q \<and> up_readFrom u' = start + n \<and> healthy env ok (up_ob u') \<and>
    ob_buffered (up_ob u') = [] \<and> log_end view (up_ob u') = lo + length q \<and>
    (queue env view (up_ob u') = drop (start + n - lo) q \<and> log_base view (up_ob u') = start + n \<or>
     queue env view (up_ob u') = q \<and> log_base view (up_ob u') = lo \<and> start + n < lo + length q)"
proof -
  note d = assms(2) [unfolded drainable_def, folded q_def lo_def]
  obtain rs ob1 where r: "ReadRecords env (up_ob u) ReadBatchMaxEntries UploadMaxBytes (up_readFrom u)
        = Some (Inr rs, ob1)" "extends env ok view (up_ob u) ob1" "queue env view ob1 = q"
      "batch_ok env view (up_readFrom u) ob1 rs" "ob_buffered ob1 = []"
      "rs = [] \<longrightarrow> 0 < ReadBatchMaxEntries \<longrightarrow> lo + length q \<le> start"
    using ReadRecords_extends [OF assms(1)] d unfolding start_def q_def lo_def by metis
  have base: "log_base view ob1 = lo" "healthy env ok ob1" using r(2) by (simp_all add: extends_def lo_def)
  have "q \<noteq> []" using d by (auto simp: ends_terminal_def)
  then have ne: "rs \<noteq> []" using r(6) d
    by (auto simp: ReadBatchMaxEntries_def max_def start_def lo_def split: if_splits)
  have b: "map rec_Entry rs = take (length rs) (drop (start - lo) q)"
      "start + length rs \<le> log_end view ob1"
    using r(3,4) base(1) by (simp_all add: batch_ok_def Let_def start_def lo_def)
  have "set (batch_entries rs) \<subseteq> set (q_entries q)"
    unfolding batch_entries_q b(1) by (auto dest: in_set_takeD in_set_dropD)
  with d obtain resp s' where up: "upload s (batch_entries rs) = (Inr resp, s')" and rdy: "rdy s'"
      and st: "\<forall>e \<in> set (batch_entries rs). settles resp e"
    using answer [of "batch_entries rs"] by (meson subsetD)
  have all: "takeWhile (record_settled resp) rs = rs"
    unfolding takeWhile_eq_all_conv using st
    by (force simp: record_settled_def batch_entries_def map_filter_def split: option.splits)
  define u1 where "u1 = recordSuccess (u\<lparr>up_ob := ob1\<rparr>)"
  have u1: "up_ob u1 = ob1" "up_readFrom u1 = up_readFrom u" by (simp_all add: u1_def)
  note f = fold_response_ok [OF assms(1), of u1 rs resp, unfolded u1 all base(1), OF base(2) r(4)]
  have len: "length (log_data view ob1) = length q"
    using r(3,5) queue_length [of env view ob1] by simp
  have "evict_due env u1 rs resp" if "start + length rs = lo + length q"
    using batch_reaches_terminal [OF r(4) _ ne] d r(3) base(1) that
    by (simp add: evict_due_def all start_def lo_def)
  moreover have "uploadCycle env upload now u s = Some (cycle_cap env
      (updateGauges env (up_readFrom (fold_response env u1 rs resp)) (fold_response env u1 rs resp)), s')"
    using r(1) ne up by (simp add: uploadCycle_def cycle_start_def cycle_finish_def cycle_send_def
        Let_def u1_def)
  ultimately show ?thesis
    using rdy f(2,3) ne r(3,5) len base(1) b(2) start_def lo_def q_def
    by (intro exI [of _ "length rs"]
        exI [of _ "updateGauges env (up_readFrom (fold_response env u1 rs resp)) (fold_response env u1 rs resp)"]
        exI [of _ s']) (auto simp: log_end_def split: if_splits)
qed

context draining_server
begin

lemma uploadCycle_progress:
  assumes "wal_contract env ok view" "drainable env ok view good u" "ready s"
  shows "\<exists>u' s'. uploadCycle env upload now u s = Some (u', s') \<and> ready s' \<and> healthy env ok (up_ob u') \<and>
    (queue env view (up_ob u') = [] \<or>
     drainable env ok view good u' \<and> left_to_send env view u' < left_to_send env view u)"
proof -
  define q lo start where "q = queue env view (up_ob u)" and "lo = log_base view (up_ob u)"
    and "start = max lo (up_readFrom u)"
  obtain n u' s' where c: "uploadCycle env upload now u s = Some (cycle_cap env u', s') \<and> ready s'" "0 < n"
      "start + n \<le> lo + length q" "up_readFrom u' = start + n" "healthy env ok (up_ob u')"
      "ob_buffered (up_ob u') = []" "log_end view (up_ob u') = lo + length q"
      "queue env view (up_ob u') = drop (start + n - lo) q \<and> log_base view (up_ob u') = start + n \<or>
       queue env view (up_ob u') = q \<and> log_base view (up_ob u') = lo \<and> start + n < lo + length q"
    using uploadCycle_settled [OF assms(1,2), where upload = upload and s = s and now = now and rdy = ready,
        OF settles_good [OF assms(3)]]
    unfolding q_def [symmetric] lo_def [symmetric] start_def [symmetric] by blast
  note d = assms(2) [unfolded drainable_def, folded q_def lo_def]
  have lo: "lo \<le> start" by (simp add: start_def)
  have left: "left_to_send env view u = lo + length q - start"
    by (simp add: left_to_send_def q_def lo_def start_def)
  have keep: "queue env view (up_ob u') = [] \<or>
      drainable env ok view good u' \<and> left_to_send env view u' < left_to_send env view u"
  proof (cases "start + n = lo + length q")
    case True
    with c(8) show ?thesis by simp
  next
    case False
    with c(3) have lt: "start + n < lo + length q" by simp
    have "ends_terminal (drop (start + n - lo) q)"
      using d lt lo by (auto simp: ends_terminal_def last_drop)
    then have "ends_terminal (queue env view (up_ob u'))"
      and "\<forall>e \<in> set (q_entries (queue env view (up_ob u'))). good e"
      using c(8) d in_set_dropD [of _ "start + n - lo" q] by auto
    moreover have "log_base view (up_ob u') + length (queue env view (up_ob u')) = lo + length q"
      using c(8) lt lo by auto
    ultimately show ?thesis
      using c(2,4,5,7,8) lt lo unfolding left by (auto simp: drainable_def left_to_send_def)
  qed
  then show ?thesis
    using c(1) EnforceCap_cases [OF assms(1) c(5,6)] c(4,5)
    by (auto simp: cycle_cap_def drainable_def left_to_send_def)
qed

text \<open>Enough cycles empty the outbox.\<close>

lemma Drain_empties_queue:
  assumes "wal_contract env ok view" "healthy env ok (up_ob u)"
    "queue env view (up_ob u) = [] \<or>
     drainable env ok view good u \<and> left_to_send env view u \<le> length sched"
    "\<forall>(now, w) \<in> set sched. w = Woken" "ready s"
  shows "\<exists>u' s'. Drain env upload sched u s = Some (u', s') \<and> queue env view (up_ob u') = []"
  using assms(2-5)
proof (induction sched arbitrary: u s)
  case Nil
  have "left_to_send env view u > 0" if "drainable env ok view good u"
    using that by (auto simp: drainable_def left_to_send_def ends_terminal_def max_def)
  with Nil Empty_ok [OF assms(1) Nil.prems(1)] show ?case by (subst Drain.simps) auto
next
  case (Cons x sched)
  obtain now where x: "x = (now, Woken)" using Cons.prems(3) by (cases x) auto
  note e = Empty_ok [OF assms(1) Cons.prems(1)]
  show ?case
  proof (cases "queue env view (up_ob u) = []")
    case True
    then show ?thesis using e by (subst Drain.simps) auto
  next
    case False
    with Cons.prems(2) have d: "drainable env ok view good u"
      "left_to_send env view u \<le> Suc (length sched)" by auto
    obtain u1 s1 where c: "uploadCycle env upload now u s = Some (u1, s1)" "healthy env ok (up_ob u1)" "ready s1"
        "queue env view (up_ob u1) = [] \<or>
         drainable env ok view good u1 \<and> left_to_send env view u1 < left_to_send env view u"
      using uploadCycle_progress [OF assms(1) d(1) Cons.prems(4)] by blast
    have "\<exists>u' s'. Drain env upload sched u1 s1 = Some (u', s') \<and> queue env view (up_ob u') = []"
      using c(2-4) d(2) Cons.prems(3) by (intro Cons.IH) auto
    then show ?thesis using e False c(1) x by (subst Drain.simps) simp
  qed
qed

end

section \<open>The barrier\<close>

text \<open>The payloads a read of the whole log sees: the log's and, after its flush, the buffer's.\<close>

definition payloads ::
  "'w wal_env \<Rightarrow> ('w \<Rightarrow> nat \<times> bytes list) \<Rightarrow> 'w outbox \<Rightarrow> bytes list" where
  "payloads env view ob = log_data view ob @ map (marshalEnvelope env) (ob_buffered ob)"

definition one_shard ::
  "'w wal_env \<Rightarrow> ('w \<Rightarrow> nat \<times> bytes list) \<Rightarrow> 'w outbox \<Rightarrow> bool" where
  "one_shard env view ob \<longleftrightarrow>
     length (payloads env view ob) \<le> ReadBatchMaxEntries \<and>
     int (sum_list (map length (payloads env view ob))) < UploadMaxBytes"

lemma shard_whole:
  "length ds \<le> n \<Longrightarrow> int (sum_list (map length ds)) < cap \<Longrightarrow> shard some n cap ds = ds"
proof (induction some n cap ds rule: shard.induct)
  case (3 some n cap d ds)
  have "int (length d) < cap" using 3(3) by simp
  with 3 show ?case by simp
qed auto

lemma blockingFor_exact:
  fixes c :: string
  assumes "wal_contract env ok view" "healthy env ok (up_ob u)" "one_shard env view (up_ob u)"
  defines "others \<equiv> filter (\<lambda>e. ue_command_id e \<noteq> c) (q_entries (queue env view (up_ob u)))"
  shows "\<exists>u'. blockingFor env u c =
      Some (Inr (others \<noteq> [], map (orphan others) (sorted_list_of_set (unterminated others))), u') \<and>
    queue env view (up_ob u') = queue env view (up_ob u)"
proof -
  obtain ob2 where r: "queue env view ob2 = queue env view (up_ob u)" "ob_buffered ob2 = []"
      "log_data view ob2 = payloads env view (up_ob u)"
      "ReadRecords env (up_ob u) ReadBatchMaxEntries UploadMaxBytes 0 =
       Some (Inr (numbered env (log_base view ob2)
         (shard False ReadBatchMaxEntries UploadMaxBytes (log_data view ob2))), ob2)"
    using ReadRecords_ok [OF assms(1,2), of 0 ReadBatchMaxEntries UploadMaxBytes]
    by (auto simp: Let_def payloads_def)
  have "shard False ReadBatchMaxEntries UploadMaxBytes (log_data view ob2) = log_data view ob2"
    using assms(3) r(3) by (intro shard_whole) (simp_all add: one_shard_def)
  moreover have "batch_entries (numbered env i (log_data view ob2)) = q_entries (queue env view (up_ob u))" for i
    using r(1,2) by (simp add: batch_entries_q numbered_entries queue_def)
  ultimately show ?thesis
    using r(1,4) by (simp add: blockingFor_def Let_def orphans_of_groups others_def)
qed

lemma WaitClearFor_result:
  assumes "wal_contract env ok view" "healthy env ok (up_ob u)" "one_shard env view (up_ob u)"
    "\<forall>(w, f) \<in> set sched. \<forall>v. healthy env ok (up_ob (f v)) \<and> one_shard env view (up_ob (f v))"
    "WaitClearFor env c sched u = Some (WaitClear, u')"
  shows "\<forall>e \<in> set (q_entries (queue env view (up_ob u'))). ue_command_id e = c"
  using assms(2-5)
proof (induction sched arbitrary: u)
  case Nil
  from blockingFor_exact [OF assms(1) Nil(1,2), of c] Nil(4) show ?case
    by (subst (asm) WaitClearFor.simps)
      (auto simp: Let_def filter_empty_conv split: if_splits prod.splits option.splits)
next
  case (Cons x sched)
  obtain w f where x: "x = (w, f)" by (cases x)
  from blockingFor_exact [OF assms(1) Cons.prems(1,2), of c] obtain u1 orphans where
    b: "blockingFor env u c = Some (Inr (filter (\<lambda>e. ue_command_id e \<noteq> c)
          (q_entries (queue env view (up_ob u))) \<noteq> [], orphans), u1)"
      "queue env view (up_ob u1) = queue env view (up_ob u)" by blast
  show ?case
  proof (cases "filter (\<lambda>e. ue_command_id e \<noteq> c) (q_entries (queue env view (up_ob u))) = []")
    case True
    with Cons.prems(4) b show ?thesis
      by (subst (asm) WaitClearFor.simps) (auto simp: filter_empty_conv)
  next
    case False
    have "\<exists>v. WaitClearFor env c sched (f v) = Some (WaitClear, u')"
      using Cons.prems(4) False b(1) x
      by (subst (asm) WaitClearFor.simps)
        (auto simp: Let_def split: prod.splits option.splits wake.splits)
    then obtain v where "WaitClearFor env c sched (f v) = Some (WaitClear, u')" ..
    then show ?thesis using Cons.prems(3) x by (intro Cons.IH [of "f v"]) auto
  qed
qed

section \<open>Properties\<close>

text \<open>C35: The retry schedule. After \<open>n + 1\<close> failures in a row, each once the previous wait is over, the next attempt is armed for
  \<open>min 60 (2 * 2 ^ n)\<close> seconds after the last one. Until then a further failure changes nothing and the loop sleeps for what is
  left; from then on it sleeps for the batch window only, and a failure arms the doubled wait, never more than a minute. A success
  disarms the retry and starts over. The wait is computed from two readings of the clock: it is never longer than a minute, but no longer
  positive when the retry time passes between the two.\<close>

theorem backoff_schedule:
  assumes "up_backoff u = 0" "up_nextTry u = None" "failures_ready (ts @ [t]) u"
    "v = fold recordFailure (ts @ [t]) u" "wait = min backoffMax (backoffBase * 2 ^ length ts)"
  shows "up_backoff v = wait \<and> up_nextTry v = Some (t + wait) \<and>
    (\<forall>now. recordFailure now v =
       (if now < t + wait then v else v\<lparr>up_backoff := min backoffMax (2 * wait), up_nextTry := Some (now + min backoffMax (2 * wait))\<rparr>)) \<and>
    (\<forall>now1 now2. currentWait now1 now2 v = (if now1 < t + wait then t + wait - now2 else BatchWindow)) \<and>
    (\<forall>now1 now2. t \<le> now2 \<longrightarrow> currentWait now1 now2 v \<le> backoffMax) \<and>
    recordSuccess v = v\<lparr>up_backoff := 0, up_nextTry := None\<rparr> \<and>
    (\<forall>now1 now2. currentWait now1 now2 (recordSuccess v) = BatchWindow)"
proof -
  have b: "up_backoff v = wait"
  proof (cases ts)
    case Nil
    then show ?thesis using assms(1,2,4,5) by (simp add: recordFailure_def after_now_def Let_def backoff_defs)
  next
    case (Cons t0 ts')
    have "up_backoff (recordFailure t0 u) = backoffBase" using assms(1,2) by (simp add: recordFailure_def after_now_def)
    then show ?thesis
      using backoff_doubles [of "recordFailure t0 u" "ts' @ [t]"] assms(3,4,5) Cons by (simp add: backoff_defs)
  qed
  moreover have n: "up_nextTry v = Some (t + wait)" using backoff_armed [OF assms(3)] b assms(4) by simp
  moreover have "0 < wait" "wait \<le> backoffMax" using assms(5) by (simp_all add: backoff_defs)
  ultimately show ?thesis
    by (auto simp: recordFailure_def recordSuccess_def currentWait_def after_now_def Let_def min_def BatchWindow_def backoff_defs)
qed

theorem backoff_schedule_witness:
  "up_nextTry (fold recordFailure [0, 5 * second, 10 * second] (NewUploader (reference_outbox []))) = Some (18 * second)"
proof -
  let ?u = "NewUploader (reference_outbox [])"
  have "failures_ready ([0, 5 * second] @ [10 * second]) ?u"
    by (simp add: NewUploader_def after_now_def recordFailure_def backoff_defs Let_def)
  with backoff_schedule [of ?u "[0, 5 * second]" "10 * second", OF _ _ _ refl refl] show ?thesis
    by (simp add: NewUploader_def backoff_defs min_def)
qed

text \<open>The fold of a response moves the upload cursor exactly over the longest prefix of the
  batch whose records are poison, acknowledged by their kind's watermark, rejected under
  their exact (command, kind, sequence) key, or of a command whose terminal was rejected. It
  leaves the uploader alone when the first record is unsettled, evicts nothing beyond that
  prefix, and evicts the prefix exactly when a terminal is settled or rejected or the settled
  bytes pass the threshold.\<close>

theorem fold_settled_prefix:
  assumes "wal_contract env ok view" "healthy env ok (up_ob u)"
    "batch_ok env view (up_readFrom u) (up_ob u) rs"
  shows "let k = length (takeWhile (record_settled resp) rs);
      lo = log_base view (up_ob u); start = max lo (up_readFrom u);
      u' = fold_response env u rs resp
    in (k = 0 \<longrightarrow> u' = u) \<and>
       (0 < k \<longrightarrow> up_readFrom u' = start + k \<and> healthy env ok (up_ob u') \<and>
          (if evict_due env u rs resp
           then queue env view (up_ob u') = drop (start + k - lo) (queue env view (up_ob u)) \<and>
                log_base view (up_ob u') = start + k
           else up_ob u' = up_ob u))"
  using fold_response_ok [OF assms, of resp] by (simp add: Let_def)

theorem fold_settled_prefix_witness:
  "\<exists>u. up_readFrom u = 0 \<and>
    up_readFrom (fold_response (reference_wal [sample_entry 0]) u
      [\<lparr>rec_Index = 1, rec_Entry = Some (sample_entry 0)\<rparr>]
      \<lparr>resp_acks = [\<lparr>ack_command_id = ''c'', ack_last_progress_seq = 0, ack_last_event_seq = 0,
         ack_result_acked = True\<rparr>], resp_rejected = []\<rparr>) = 2"
proof -
  let ?env = "reference_wal [sample_entry 0]"
  define ob where "ob = snd (Flush ?env (reference_outbox [sample_entry 0]))"
  have h: "healthy ?env reference_ok (reference_outbox [sample_entry 0])"
    by (rule reference_healthy) simp
  have fl: "Flush ?env (reference_outbox [sample_entry 0]) =
      flushLocked ?env (reference_outbox [sample_entry 0])"
    by (simp add: Flush_def reference_outbox_def fresh_outbox_def)
  have ob: "healthy ?env reference_ok ob" "queue ?env id ob = [Some (sample_entry 0)]"
      "log_base id ob = 1" "ob_buffered ob = []"
    using flush_ok [OF reference_contract h] fl
    by (auto simp: ob_def reference_queue reference_log_base)
  let ?u = "NewUploader ob"
  let ?rs = "[\<lparr>rec_Index = 1, rec_Entry = Some (sample_entry 0)\<rparr>]"
  let ?resp = "\<lparr>resp_acks = [\<lparr>ack_command_id = ''c'', ack_last_progress_seq = 0, ack_last_event_seq = 0,
    ack_result_acked = True\<rparr>], resp_rejected = []\<rparr>"
  have "length (log_data id ob) = 1"
    using ob(2,4) queue_length [of ?env id ob] by simp
  then have b: "batch_ok ?env id (up_readFrom ?u) (up_ob ?u) ?rs"
    using ob(2,3) by (simp add: batch_ok_def NewUploader_def log_end_def Let_def)
  have s: "takeWhile (record_settled ?resp) ?rs = ?rs"
    by (simp add: record_settled_def settles_def acknowledges_def covers_def sample_entry_def
        resultEnvelope_def)
  have "healthy ?env reference_ok (up_ob ?u)" using ob(1) by (simp add: NewUploader_def)
  from fold_settled_prefix [OF reference_contract this b, of ?resp] s ob(3)
  show ?thesis by (intro exI [of _ ?u]) (simp add: NewUploader_def Let_def)
qed

text \<open>Recovering from an interrupted run: the scan of the whole log returns, and the outbox
  gains exactly one synthetic FAILED terminal for each command that has records and no
  terminal, in the order of the command ids, each covering the command's stored progress, all
  of it flushed. Afterwards no command lacks a terminal, so a second run appends nothing.\<close>

theorem Synthesize_completes_groups:
  fixes message :: string
  assumes "wal_contract env ok view" "healthy env ok (up_ob u)"
    "\<forall>c \<in> unterminated (q_entries (queue env view (up_ob u))).
       roundtrips env (syntheticTerminal message (orphan (q_entries (queue env view (up_ob u))) c))"
  shows "let q = queue env view (up_ob u); es = q_entries q;
      new = map (\<lambda>c. syntheticTerminal message (orphan es c)) (sorted_list_of_set (unterminated es))
    in \<exists>u'. SynthesizeInterruptedTerminals env message u = Some (None, u') \<and>
         healthy env ok (up_ob u') \<and> ob_buffered (up_ob u') = [] \<and>
         queue env view (up_ob u') = q @ map Some new \<and>
         (\<forall>e \<in> set es. \<exists>t \<in> set (es @ new).
            ue_command_id t = ue_command_id e \<and> ue_kind t = KIND_RESULT) \<and>
         unterminated (es @ new) = {} \<and>
         (\<exists>u''. SynthesizeInterruptedTerminals env message' u' = Some (None, u'') \<and>
            queue env view (up_ob u'') = q @ map Some new)"
proof -
  define q es where "q = queue env view (up_ob u)" and "es = q_entries q"
  define new where
    "new = map (\<lambda>c. syntheticTerminal message (orphan es c)) (sorted_list_of_set (unterminated es))"
  obtain u' where u': "SynthesizeInterruptedTerminals env message u = Some (None, u')"
      "extends env ok view (up_ob u) (up_ob u')" "ob_buffered (up_ob u') = []"
      "queue env view (up_ob u') = q @ map Some new"
    using Synthesize_ok [OF assms] by (auto simp: q_def es_def new_def comp_def)
  have closed: "\<exists>t \<in> set (es @ new). ue_command_id t = ue_command_id e \<and> ue_kind t = KIND_RESULT"
    if "e \<in> set es" for e
  proof (cases "ue_command_id e \<in> unterminated es")
    case True
    then show ?thesis
      by (intro bexI [of _ "syntheticTerminal message (orphan es (ue_command_id e))"])
        (auto simp: new_def syntheticTerminal_def orphan_def)
  qed (use that in \<open>auto simp: unterminated_def\<close>)
  have "t \<in> set new \<Longrightarrow> ue_kind t = KIND_RESULT" for t
    by (auto simp: new_def syntheticTerminal_def)
  with closed have none: "unterminated (es @ new) = {}"
    unfolding unterminated_def by fastforce
  have h': "healthy env ok (up_ob u')" using u'(2) by (simp add: extends_def)
  have es': "q_entries (queue env view (up_ob u')) = es @ new" by (simp add: u'(4) es_def)
  have "\<exists>u''. SynthesizeInterruptedTerminals env message' u' = Some (None, u'') \<and>
      queue env view (up_ob u'') = q @ map Some new"
    using Synthesize_ok [OF assms(1) h', of message'] u'(4) es' none by auto
  with u' h' closed none show ?thesis
    unfolding Let_def q_def [symmetric] es_def [symmetric] new_def [symmetric] by blast
qed

theorem Synthesize_completes_groups_witness:
  "\<exists>u'. SynthesizeInterruptedTerminals (reference_wal [sample_entry 0]) ''x''
      (NewUploader (reference_outbox [sample_entry 0])) = Some (None, u') \<and>
    queue (reference_wal [sample_entry 0]) id (up_ob u') = [Some (sample_entry 0)]"
proof -
  have "unterminated (q_entries (queue (reference_wal [sample_entry 0]) id
      (up_ob (NewUploader (reference_outbox [sample_entry 0]))))) = {}"
    by (simp add: NewUploader_def reference_queue unterminated_def sample_entry_def resultEnvelope_def
        q_entries_def map_filter_def)
  then show ?thesis
    using Synthesize_completes_groups [OF reference_contract [of "[sample_entry 0]"],
        of "NewUploader (reference_outbox [sample_entry 0])" "''x''"]
      reference_healthy [of "[sample_entry 0]" "[sample_entry 0]"]
    by (auto simp: NewUploader_def reference_queue Let_def)
qed

text \<open>The turn-start barrier, for a log that fits one shard: \<open>blockingFor\<close> reports exactly
  whether another command has a record and exactly the unterminated ones among them; the wait
  returns at once when there is none, and whatever the other goroutines do, it only reports a
  clear log when every record left belongs to the waiting command.\<close>

theorem barrier_waits_for_others:
  fixes c :: string
  assumes "wal_contract env ok view" "healthy env ok (up_ob u)" "one_shard env view (up_ob u)"
    "\<forall>(w, f) \<in> set sched. \<forall>v. healthy env ok (up_ob (f v)) \<and> one_shard env view (up_ob (f v))"
  shows "let others = filter (\<lambda>e. ue_command_id e \<noteq> c) (q_entries (queue env view (up_ob u)))
    in (\<exists>u1. blockingFor env u c = Some (Inr (others \<noteq> [],
              map (orphan others) (sorted_list_of_set (unterminated others))), u1) \<and>
            queue env view (up_ob u1) = queue env view (up_ob u)) \<and>
       (others = [] \<longrightarrow> (\<exists>u1. WaitClearFor env c sched u = Some (WaitClear, u1))) \<and>
       (\<forall>u'. WaitClearFor env c sched u = Some (WaitClear, u') \<longrightarrow>
          (\<forall>e \<in> set (q_entries (queue env view (up_ob u'))). ue_command_id e = c))"
proof -
  let ?others = "filter (\<lambda>e. ue_command_id e \<noteq> c) (q_entries (queue env view (up_ob u)))"
  obtain u1 where b: "blockingFor env u c = Some (Inr (?others \<noteq> [],
      map (orphan ?others) (sorted_list_of_set (unterminated ?others))), u1)"
      "queue env view (up_ob u1) = queue env view (up_ob u)"
    using blockingFor_exact [OF assms(1-3), of c] by blast
  then have "?others = [] \<longrightarrow> (\<exists>u1. WaitClearFor env c sched u = Some (WaitClear, u1))"
    by (subst WaitClearFor.simps) auto
  with b WaitClearFor_result [OF assms] show ?thesis unfolding Let_def by blast
qed

theorem barrier_waits_for_others_witness:
  "\<exists>u'. WaitClearFor (reference_wal [sample_entry 0]) ''c'' []
      (NewUploader (reference_outbox [sample_entry 0])) = Some (WaitClear, u')"
proof -
  let ?env = "reference_wal [sample_entry 0]" and ?u = "NewUploader (reference_outbox [sample_entry 0])"
  have "one_shard ?env id (up_ob ?u)"
    by (simp add: one_shard_def payloads_def log_data_def NewUploader_def reference_outbox_def
        fresh_outbox_def marshalEnvelope_def reference_wal_def ReadBatchMaxEntries_def UploadMaxBytes_def)
  then show ?thesis
    using barrier_waits_for_others [OF reference_contract [of "[sample_entry 0]"], of ?u "[]" "''c''"]
      reference_healthy [of "[sample_entry 0]" "[sample_entry 0]"]
    by (auto simp: NewUploader_def reference_queue Let_def q_entries_def map_filter_def
        sample_entry_def resultEnvelope_def)
qed

end
