(* ===== verification/Command_Store.thy ===== *)
theory Command_Store
  imports Upload_Wire
begin

text \<open>
  The command tables of the manager's store and their operations
  (\<open>backend/manager/store/command.go\<close>). A table is the list of its rows in insertion order; the
  columns are those of \<open>migration/LATEST.sql\<close>. A UUID is a number. PostgreSQL itself is not part
  of the repository: every operation takes \<open>fails\<close>, which tells for a statement whether the
  database refuses it for reasons of its own (connection, constraint, value), and an operation
  whose statement fails leaves the database as it was.

  Updates whose \<open>SET\<close> list is assembled at run time carry their placeholders, because the code
  numbers them: a statement is accepted only when its placeholders are exactly \<open>$1 .. $n\<close> for
  \<open>n\<close> arguments, as the server's extended protocol demands. Rows with equal sort keys keep
  their insertion order; SQL leaves it open.
\<close>

section \<open>Tables\<close>

type_synonym uuid = nat

record uuid_env =
  uuid_Parse :: "string \<Rightarrow> uuid option"
  uuid_String :: "uuid \<Rightarrow> string"

definition CommandStatusPending :: int where "CommandStatusPending = 1"
definition CommandStatusRunning :: int where "CommandStatusRunning = 2"
definition CommandStatusCompleted :: int where "CommandStatusCompleted = 3"
definition CommandStatusFailed :: int where "CommandStatusFailed = 4"
definition CommandStatusCancelled :: int where "CommandStatusCancelled = 5"
definition CommandStatusTimeout :: int where "CommandStatusTimeout = 6"

lemmas status_defs = CommandStatusPending_def CommandStatusRunning_def CommandStatusCompleted_def
  CommandStatusFailed_def CommandStatusCancelled_def CommandStatusTimeout_def

definition CommandFailureKindMachineUnreachable :: string where
  "CommandFailureKindMachineUnreachable = ''machine_unreachable''"
definition CommandFailureKindAgentFailed :: string where
  "CommandFailureKindAgentFailed = ''agent_failed''"

lemmas failure_kind_defs = CommandFailureKindMachineUnreachable_def CommandFailureKindAgentFailed_def

record command_row =
  c_ID :: uuid
  c_AgentID :: int
  c_MachineID :: "int option"
  c_PrincipalID :: int
  c_Command :: string
  c_Instruction :: string
  c_Profile :: string
  c_AllowDiff :: bool
  c_Status :: int
  c_FailureKind :: "string option"
  c_ExitCode :: "int option"
  c_DurationMs :: "int option"
  c_CreatedAt :: int
  c_StartedAt :: "int option"
  c_CompletedAt :: "int option"
  c_ErrorMessage :: string
  c_FinalSummary :: string
  c_ResultJSON :: string
  c_Env :: string
  c_WorkingDir :: string
  c_TimeoutSeconds :: int
  c_LastAckSeq :: int
  c_ConversationID :: "uuid option"

record output_row =
  o_CommandID :: uuid
  o_SeqNo :: int
  o_StreamType :: int
  o_Content :: string
  o_CreatedAt :: int

record event_row =
  e_CommandID :: uuid
  e_SeqNo :: int
  e_EventType :: int
  e_Summary :: string
  e_PayloadJSON :: string
  e_CreatedAt :: int

record usage_row =
  u_CommandID :: uuid
  u_AgentID :: int
  u_PrincipalID :: int
  u_MachineID :: "int option"
  u_Tokens :: token_usage

text \<open>\<open>db_agents\<close> and \<open>db_principals\<close> are the columns of the joined tables the queries read,
  \<open>db_members\<close> the (conversation, member type, member id) triples of
  \<open>conversation_member_meta\<close>.\<close>

record command_db =
  db_commands :: "command_row list"
  db_outputs :: "output_row list"
  db_events :: "event_row list"
  db_usage :: "usage_row list"
  db_links :: "(uuid \<times> uuid) list"
  db_members :: "(uuid \<times> int \<times> string) list"
  db_agents :: "int \<Rightarrow> string option"
  db_principals :: "int \<Rightarrow> string option"

text \<open>The struct the queries fill, \<open>CommandMessage\<close>.\<close>

record command_message =
  cm_ID :: uuid
  cm_AgentID :: int
  cm_AgentResourceID :: string
  cm_MachineID :: int
  cm_PrincipalID :: int
  cm_PrincipalName :: string
  cm_Command :: string
  cm_Instruction :: string
  cm_Profile :: string
  cm_AllowDiff :: bool
  cm_Status :: int
  cm_ExitCode :: "int option"
  cm_DurationMs :: "int option"
  cm_CreatedAt :: int
  cm_StartedAt :: "int option"
  cm_CompletedAt :: "int option"
  cm_ErrorMessage :: string
  cm_FinalSummary :: string
  cm_ResultJSON :: string
  cm_Env :: string
  cm_WorkingDir :: string
  cm_TimeoutSeconds :: int
  cm_LastAckSeq :: int
  cm_ConversationID :: "uuid option"

record find_command =
  fc_AgentID :: "int option"
  fc_Status :: "int option"
  fc_Limit :: "int option"
  fc_Offset :: "int option"

datatype store_error =
    SqlError string
  | SqlArgError string
  | InvalidName
  | InvalidID
  | NotFound
  | ScanNull

definition find_command_row :: "command_db \<Rightarrow> uuid \<Rightarrow> command_row option" where
  "find_command_row db cid = find (\<lambda>c. c_ID c = cid) (db_commands db)"

definition map_commands :: "(command_row \<Rightarrow> command_row) \<Rightarrow> command_db \<Rightarrow> command_db" where
  "map_commands f db = db\<lparr>db_commands := map f (db_commands db)\<rparr>"

text \<open>\<open>UPDATE command SET ... WHERE p\<close>.\<close>

definition update_where ::
  "(command_row \<Rightarrow> bool) \<Rightarrow> (command_row \<Rightarrow> command_row) \<Rightarrow> command_db \<Rightarrow> command_db" where
  "update_where p f = map_commands (\<lambda>c. if p c then f c else c)"

section \<open>Updates with a computed SET list\<close>

datatype column =
    ColStatus | ColStartedAt | ColCompletedAt | ColExitCode | ColDurationMs | ColErrorMessage
  | ColFinalSummary | ColResultJSON

datatype sql_value = VInt int | VTime int | VText string | VUuid uuid

fun set_col :: "column \<Rightarrow> sql_value \<Rightarrow> command_row \<Rightarrow> command_row option" where
  "set_col ColStatus (VInt i) c = Some (c\<lparr>c_Status := i\<rparr>)"
| "set_col ColStartedAt (VTime t) c = Some (c\<lparr>c_StartedAt := Some t\<rparr>)"
| "set_col ColCompletedAt (VTime t) c = Some (c\<lparr>c_CompletedAt := Some t\<rparr>)"
| "set_col ColExitCode (VInt i) c = Some (c\<lparr>c_ExitCode := Some i\<rparr>)"
| "set_col ColDurationMs (VInt i) c = Some (c\<lparr>c_DurationMs := Some i\<rparr>)"
| "set_col ColErrorMessage (VText s) c = Some (c\<lparr>c_ErrorMessage := s\<rparr>)"
| "set_col ColFinalSummary (VText s) c = Some (c\<lparr>c_FinalSummary := s\<rparr>)"
| "set_col ColResultJSON (VText s) c = Some (c\<lparr>c_ResultJSON := s\<rparr>)"
| "set_col _ _ c = None"

type_synonym set_list = "(column \<times> nat) list \<times> sql_value list"

text \<open>One \<open>sets = append(sets, fmt.Sprintf("col = $%d", len(args)+1)); args = append(args, v)\<close>.\<close>

definition add_set :: "column \<Rightarrow> sql_value \<Rightarrow> set_list \<Rightarrow> set_list" where
  "add_set col v = (\<lambda>(sets, args). (sets @ [(col, length args + 1)], args @ [v]))"

definition add_set_if :: "column \<Rightarrow> sql_value option \<Rightarrow> set_list \<Rightarrow> set_list" where
  "add_set_if col v = (case v of None \<Rightarrow> (\<lambda>x. x) | Some x \<Rightarrow> add_set col x)"

text \<open>Running \<open>UPDATE command SET <sets> WHERE id = $w\<close> with \<open>args\<close>. The server infers the type of
  every placeholder up to the highest one, so a gap or a wrong number of arguments is an error.\<close>

definition placeholders_ok :: "(column \<times> nat) list \<Rightarrow> nat \<Rightarrow> sql_value list \<Rightarrow> bool" where
  "placeholders_ok sets w args \<longleftrightarrow>
     list_all (\<lambda>i. i \<in> set (w # map snd sets)) [1..<length args + 1] \<and>
     list_all (\<lambda>i. 1 \<le> i \<and> i \<le> length args) (w # map snd sets)"

fun apply_sets :: "(column \<times> nat) list \<Rightarrow> sql_value list \<Rightarrow> command_row \<Rightarrow> command_row option" where
  "apply_sets [] args c = Some c"
| "apply_sets ((col, i) # sets) args c =
     (case set_col col (args ! (i - 1)) c of None \<Rightarrow> None | Some c' \<Rightarrow> apply_sets sets args c')"

definition exec_update ::
  "(column \<times> nat) list \<Rightarrow> nat \<Rightarrow> sql_value list \<Rightarrow> command_db \<Rightarrow> (store_error, command_db) result" where
  "exec_update sets w args db =
     (if \<not> placeholders_ok sets w args then Inl (SqlArgError ''update command'')
      else
        (case args ! (w - 1) of
           VUuid cid \<Rightarrow>
             (case those (map (\<lambda>c. if c_ID c = cid then apply_sets sets args c else Some c)
                     (db_commands db)) of
                None \<Rightarrow> Inl (SqlArgError ''update command'')
              | Some rows \<Rightarrow> Inr (db\<lparr>db_commands := rows\<rparr>))
         | _ \<Rightarrow> Inl (SqlArgError ''update command'')))"

section \<open>Operations\<close>

definition coerceEnvJSON :: "string \<Rightarrow> string" where
  "coerceEnvJSON env = (if env = [] then ''{}'' else env)"

text \<open>\<open>newID\<close> and \<open>now\<close> are the defaults the database fills in; \<open>created_at\<close> and the row's other
  columns keep the schema's defaults.\<close>

definition CreateCommand ::
  "(string \<Rightarrow> bool) \<Rightarrow> uuid \<Rightarrow> int \<Rightarrow> command_message \<Rightarrow> command_db \<Rightarrow>
     (store_error, command_message) result \<times> command_db" where
  "CreateCommand fails newID now cmd db =
     (if fails ''begin'' \<or> fails ''insert command'' \<or> fails ''commit'' then
        (Inl (SqlError ''create command''), db)
      else
        (let env = coerceEnvJSON (cm_Env cmd);
             row = \<lparr>c_ID = newID, c_AgentID = cm_AgentID cmd,
                    c_MachineID = (if cm_MachineID cmd > 0 then Some (cm_MachineID cmd) else None),
                    c_PrincipalID = cm_PrincipalID cmd, c_Command = cm_Command cmd,
                    c_Instruction = cm_Instruction cmd, c_Profile = cm_Profile cmd,
                    c_AllowDiff = cm_AllowDiff cmd, c_Status = cm_Status cmd, c_FailureKind = None,
                    c_ExitCode = None, c_DurationMs = None, c_CreatedAt = now, c_StartedAt = None,
                    c_CompletedAt = None, c_ErrorMessage = [], c_FinalSummary = [],
                    c_ResultJSON = ''{}'', c_Env = env, c_WorkingDir = cm_WorkingDir cmd,
                    c_TimeoutSeconds = cm_TimeoutSeconds cmd, c_LastAckSeq = 0,
                    c_ConversationID = cm_ConversationID cmd\<rparr>
         in (Inr \<lparr>cm_ID = newID, cm_AgentID = cm_AgentID cmd, cm_AgentResourceID = [],
                  cm_MachineID = cm_MachineID cmd, cm_PrincipalID = cm_PrincipalID cmd,
                  cm_PrincipalName = [], cm_Command = cm_Command cmd,
                  cm_Instruction = cm_Instruction cmd, cm_Profile = cm_Profile cmd,
                  cm_AllowDiff = cm_AllowDiff cmd, cm_Status = cm_Status cmd, cm_ExitCode = None,
                  cm_DurationMs = None, cm_CreatedAt = now, cm_StartedAt = None,
                  cm_CompletedAt = None, cm_ErrorMessage = [], cm_FinalSummary = [],
                  cm_ResultJSON = [], cm_Env = env, cm_WorkingDir = cm_WorkingDir cmd,
                  cm_TimeoutSeconds = cm_TimeoutSeconds cmd, cm_LastAckSeq = 0,
                  cm_ConversationID = cm_ConversationID cmd\<rparr>,
             db\<lparr>db_commands := db_commands db @ [row]\<rparr>)))"

text \<open>Two statements without a transaction: the link may land and the primary column not.\<close>

definition LinkCommandConversation ::
  "(string \<Rightarrow> bool) \<Rightarrow> uuid \<Rightarrow> uuid \<Rightarrow> command_db \<Rightarrow> store_error option \<times> command_db" where
  "LinkCommandConversation fails commandID conversationID db =
     (if fails ''link'' then (Some (SqlError ''link''), db)
      else
        (let db1 = (if (commandID, conversationID) \<in> set (db_links db) then db
                    else db\<lparr>db_links := db_links db @ [(commandID, conversationID)]\<rparr>)
         in if fails ''set primary'' then (Some (SqlError ''set primary''), db1)
            else (None, update_where (\<lambda>c. c_ID c = commandID \<and> c_ConversationID c = None)
                    (\<lambda>c. c\<lparr>c_ConversationID := Some conversationID\<rparr>) db1)))"

definition IsCommandConversationMember ::
  "(string \<Rightarrow> bool) \<Rightarrow> uuid \<Rightarrow> int \<Rightarrow> string \<Rightarrow> command_db \<Rightarrow> (store_error, bool) result" where
  "IsCommandConversationMember fails commandID memberType memberID db =
     (if fails ''member'' then Inl (SqlError ''member'')
      else Inr (list_ex (\<lambda>(cmd, conv). cmd = commandID \<and>
             (conv, memberType, memberID) \<in> set (db_members db)) (db_links db)))"

text \<open>The joined \<open>SELECT\<close> list shared by the queries; it has no \<open>machine_id\<close>, so the struct's
  \<open>MachineID\<close> keeps its zero value.\<close>

definition scan_command :: "command_db \<Rightarrow> command_row \<Rightarrow> command_message option" where
  "scan_command db c =
     (case (db_agents db (c_AgentID c), db_principals db (c_PrincipalID c)) of
        (Some res, Some name) \<Rightarrow>
          Some \<lparr>cm_ID = c_ID c, cm_AgentID = c_AgentID c, cm_AgentResourceID = res,
                cm_MachineID = 0, cm_PrincipalID = c_PrincipalID c, cm_PrincipalName = name,
                cm_Command = c_Command c, cm_Instruction = c_Instruction c,
                cm_Profile = c_Profile c, cm_AllowDiff = c_AllowDiff c, cm_Status = c_Status c,
                cm_ExitCode = c_ExitCode c, cm_DurationMs = c_DurationMs c,
                cm_CreatedAt = c_CreatedAt c, cm_StartedAt = c_StartedAt c,
                cm_CompletedAt = c_CompletedAt c, cm_ErrorMessage = c_ErrorMessage c,
                cm_FinalSummary = c_FinalSummary c, cm_ResultJSON = c_ResultJSON c,
                cm_Env = c_Env c, cm_WorkingDir = c_WorkingDir c,
                cm_TimeoutSeconds = c_TimeoutSeconds c, cm_LastAckSeq = c_LastAckSeq c,
                cm_ConversationID = c_ConversationID c\<rparr>
      | _ \<Rightarrow> None)"

definition select_commands ::
  "(command_row \<Rightarrow> bool) \<Rightarrow> command_db \<Rightarrow> command_message list" where
  "select_commands p db = List.map_filter (scan_command db) (filter p (db_commands db))"

definition GetCommand ::
  "(string \<Rightarrow> bool) \<Rightarrow> uuid \<Rightarrow> command_db \<Rightarrow> (store_error, command_message) result" where
  "GetCommand fails cid db =
     (if fails ''get command'' then Inl (SqlError ''get command'')
      else
        (case select_commands (\<lambda>c. c_ID c = cid) db of
           [] \<Rightarrow> Inl NotFound
         | m # _ \<Rightarrow> Inr m))"

definition GetCommandByName ::
  "uuid_env \<Rightarrow> (string \<Rightarrow> bool) \<Rightarrow> string \<Rightarrow> command_db \<Rightarrow> (store_error, command_message) result" where
  "GetCommandByName uenv fails name db =
     (case split_on CHR ''/'' name of
        [agents, agentResourceID, commands, commandIDStr] \<Rightarrow>
          if agents \<noteq> ''agents'' \<or> commands \<noteq> ''commands'' then Inl InvalidName
          else
            (case uuid_Parse uenv commandIDStr of
               None \<Rightarrow> Inl InvalidID
             | Some commandID \<Rightarrow>
                 if fails ''get command'' then Inl (SqlError ''get command'')
                 else
                   (case select_commands (\<lambda>c. c_ID c = commandID \<and>
                           db_agents db (c_AgentID c) = Some agentResourceID) db of
                      [] \<Rightarrow> Inl NotFound
                    | m # _ \<Rightarrow> Inr m))
      | _ \<Rightarrow> Inl InvalidName)"

definition ListCommands ::
  "(string \<Rightarrow> bool) \<Rightarrow> find_command \<Rightarrow> command_db \<Rightarrow> (store_error, command_message list) result" where
  "ListCommands fails f db =
     (if fails ''list commands'' \<or> (\<exists>v \<in> set_option (fc_Limit f). v < 0) \<or>
         (\<exists>v \<in> set_option (fc_Offset f). v < 0)
      then Inl (SqlError ''list commands'')
      else
        (let rows = select_commands (\<lambda>c.
               (case fc_AgentID f of None \<Rightarrow> True | Some v \<Rightarrow> c_AgentID c = v) \<and>
               (case fc_Status f of None \<Rightarrow> True | Some v \<Rightarrow> c_Status c = v)) db;
             sorted = sort_key (\<lambda>m. - cm_CreatedAt m) rows;
             skipped = (case fc_Offset f of None \<Rightarrow> sorted | Some v \<Rightarrow> drop (nat v) sorted)
         in Inr (case fc_Limit f of None \<Rightarrow> skipped | Some v \<Rightarrow> take (nat v) skipped)))"

definition UpdateCommandStatus ::
  "(string \<Rightarrow> bool) \<Rightarrow> uuid \<Rightarrow> int \<Rightarrow> int option \<Rightarrow> int option \<Rightarrow> int option \<Rightarrow> int option \<Rightarrow>
     string \<Rightarrow> command_db \<Rightarrow> store_error option \<times> command_db" where
  "UpdateCommandStatus fails cid status startedAt completedAt exitCode durationMs errorMsg db =
     (if fails ''begin'' \<or> fails ''update status'' \<or> fails ''commit'' then
        (Some (SqlError ''update status''), db)
      else
        (case (add_set_if ColErrorMessage (if errorMsg \<noteq> [] then Some (VText errorMsg) else None)
               \<circ> add_set_if ColDurationMs (map_option VInt durationMs)
               \<circ> add_set_if ColExitCode (map_option VInt exitCode)
               \<circ> add_set_if ColCompletedAt (map_option VTime completedAt)
               \<circ> add_set_if ColStartedAt (map_option VTime startedAt))
              ([(ColStatus, 1)], [VInt status]) of
           (sets, args) \<Rightarrow>
             (case exec_update sets (length args + 1) (args @ [VUuid cid]) db of
                Inl e \<Rightarrow> (Some e, db)
              | Inr db' \<Rightarrow> (None, db'))))"

definition UpdateCommandAckSeq ::
  "(string \<Rightarrow> bool) \<Rightarrow> uuid \<Rightarrow> int \<Rightarrow> command_db \<Rightarrow> store_error option \<times> command_db" where
  "UpdateCommandAckSeq fails cid seq db =
     (if fails ''ack'' then (Some (SqlError ''ack''), db)
      else (None, update_where (\<lambda>c. c_ID c = cid) (\<lambda>c. c\<lparr>c_LastAckSeq := seq\<rparr>) db))"

definition UpdateCommandResultSummary ::
  "(string \<Rightarrow> bool) \<Rightarrow> uuid \<Rightarrow> string \<Rightarrow> string \<Rightarrow> command_db \<Rightarrow> store_error option \<times> command_db" where
  "UpdateCommandResultSummary fails cid finalSummary resultJSON db =
     (case (add_set_if ColResultJSON (if resultJSON \<noteq> [] then Some (VText resultJSON) else None)
            \<circ> add_set_if ColFinalSummary (if finalSummary \<noteq> [] then Some (VText finalSummary) else None))
           ([], []) of
        (sets, args) \<Rightarrow>
          if sets = [] then (None, db)
          else if fails ''summary'' then (Some (SqlError ''summary''), db)
          else
            (case exec_update sets (length args + 1) (args @ [VUuid cid]) db of
               Inl e \<Rightarrow> (Some e, db)
             | Inr db' \<Rightarrow> (None, db')))"

text \<open>The two appends with their \<open>ON CONFLICT (command_id, seq_no) DO NOTHING\<close>; the boolean tells
  whether a row was inserted.\<close>

definition has_output :: "command_db \<Rightarrow> uuid \<Rightarrow> int \<Rightarrow> bool" where
  "has_output db cid seq = list_ex (\<lambda>r. o_CommandID r = cid \<and> o_SeqNo r = seq) (db_outputs db)"

definition has_event :: "command_db \<Rightarrow> uuid \<Rightarrow> int \<Rightarrow> bool" where
  "has_event db cid seq = list_ex (\<lambda>r. e_CommandID r = cid \<and> e_SeqNo r = seq) (db_events db)"

definition has_usage :: "command_db \<Rightarrow> uuid \<Rightarrow> bool" where
  "has_usage db cid = list_ex (\<lambda>r. u_CommandID r = cid) (db_usage db)"

definition insert_output :: "output_row \<Rightarrow> command_db \<Rightarrow> bool \<times> command_db" where
  "insert_output r db =
     (if has_output db (o_CommandID r) (o_SeqNo r) then (False, db)
      else (True, db\<lparr>db_outputs := db_outputs db @ [r]\<rparr>))"

definition insert_event :: "event_row \<Rightarrow> command_db \<Rightarrow> bool \<times> command_db" where
  "insert_event r db =
     (if has_event db (e_CommandID r) (e_SeqNo r) then (False, db)
      else (True, db\<lparr>db_events := db_events db @ [r]\<rparr>))"

definition AppendCommandOutput ::
  "(string \<Rightarrow> bool) \<Rightarrow> uuid \<Rightarrow> int \<Rightarrow> int \<Rightarrow> string \<Rightarrow> int \<Rightarrow> command_db \<Rightarrow>
     store_error option \<times> command_db" where
  "AppendCommandOutput fails cmdID seqNo streamType content createdAt db =
     (if fails ''append output'' then (Some (SqlError ''append output''), db)
      else (None, snd (insert_output \<lparr>o_CommandID = cmdID, o_SeqNo = seqNo,
              o_StreamType = streamType, o_Content = content, o_CreatedAt = createdAt\<rparr> db)))"

definition AppendCommandEvent ::
  "(string \<Rightarrow> bool) \<Rightarrow> int \<Rightarrow> event_row \<Rightarrow> command_db \<Rightarrow> store_error option \<times> command_db" where
  "AppendCommandEvent fails now event db =
     (if fails ''append event'' then (Some (SqlError ''append event''), db)
      else (None, snd (insert_event (event\<lparr>e_CreatedAt := now\<rparr>) db)))"

definition RecordCommandTokenUsage ::
  "(string \<Rightarrow> bool) \<Rightarrow> uuid \<Rightarrow> token_usage \<Rightarrow> command_db \<Rightarrow> store_error option \<times> command_db" where
  "RecordCommandTokenUsage fails cmdID usage db =
     (if fails ''load dimensions'' then (Some (SqlError ''load dimensions''), db)
      else
        (case find_command_row db cmdID of
           None \<Rightarrow> (Some NotFound, db)
         | Some c \<Rightarrow>
             if fails ''record usage'' then (Some (SqlError ''record usage''), db)
             else if has_usage db cmdID then (None, db)
             else (None, db\<lparr>db_usage := db_usage db @
                    [\<lparr>u_CommandID = cmdID, u_AgentID = c_AgentID c, u_PrincipalID = c_PrincipalID c,
                      u_MachineID = c_MachineID c, u_Tokens = usage\<rparr>]\<rparr>)))"

definition GetCommandOutput ::
  "(string \<Rightarrow> bool) \<Rightarrow> uuid \<Rightarrow> int \<Rightarrow> command_db \<Rightarrow> (store_error, output_row list) result" where
  "GetCommandOutput fails cmdID afterSeq db =
     (if fails ''get output'' then Inl (SqlError ''get output'')
      else Inr (sort_key o_SeqNo
             (filter (\<lambda>r. o_CommandID r = cmdID \<and> o_SeqNo r > afterSeq) (db_outputs db))))"

definition GetCommandEvents ::
  "(string \<Rightarrow> bool) \<Rightarrow> uuid \<Rightarrow> int \<Rightarrow> command_db \<Rightarrow> (store_error, event_row list) result" where
  "GetCommandEvents fails cmdID afterSeq db =
     (if fails ''get events'' then Inl (SqlError ''get events'')
      else Inr (sort_key e_SeqNo
             (filter (\<lambda>r. e_CommandID r = cmdID \<and> e_SeqNo r > afterSeq) (db_events db))))"

definition GetRunningCommand ::
  "(string \<Rightarrow> bool) \<Rightarrow> int \<Rightarrow> command_db \<Rightarrow> (store_error, command_message option) result" where
  "GetRunningCommand fails agentID db =
     (if fails ''get running'' then Inl (SqlError ''get running'')
      else
        (case sort_key (\<lambda>m. - cm_CreatedAt m)
                (select_commands (\<lambda>c. c_AgentID c = agentID \<and> c_Status c = CommandStatusRunning) db) of
           [] \<Rightarrow> Inr None
         | m # _ \<Rightarrow> Inr (Some m)))"

definition ListPendingCommandsByAgent ::
  "(string \<Rightarrow> bool) \<Rightarrow> int \<Rightarrow> command_db \<Rightarrow> (store_error, command_message list) result" where
  "ListPendingCommandsByAgent fails agentID db =
     (if fails ''list pending'' then Inl (SqlError ''list pending'')
      else Inr (sort_key cm_CreatedAt
             (select_commands (\<lambda>c. c_AgentID c = agentID \<and> c_Status c = CommandStatusPending) db)))"

definition ReapRunningCommand ::
  "(string \<Rightarrow> bool) \<Rightarrow> uuid \<Rightarrow> int \<Rightarrow> string \<Rightarrow> string \<Rightarrow> command_db \<Rightarrow>
     (store_error, bool) result \<times> command_db" where
  "ReapRunningCommand fails commandID completedAt errorMsg failureKind db =
     (if fails ''reap'' then (Inl (SqlError ''reap''), db)
      else
        (let hit = (\<lambda>c. c_ID c = commandID \<and> c_Status c = CommandStatusRunning)
         in if \<not> list_ex hit (db_commands db) then (Inr False, db)
            else (Inr True, update_where hit
                    (\<lambda>c. c\<lparr>c_Status := CommandStatusFailed, c_CompletedAt := Some completedAt,
                           c_ErrorMessage := errorMsg, c_FailureKind := Some failureKind\<rparr>) db)))"

record running_command_info =
  rci_AgentID :: int
  rci_CommandID :: uuid
  rci_EventType :: int
  rci_Summary :: "string option"

text \<open>The row the lateral join yields when a command has no event has \<open>NULL\<close> in \<open>event_type\<close>, and
  scanning \<open>NULL\<close> into the struct's \<open>int32\<close> field is an error that ends the query.\<close>

definition latest_event :: "command_db \<Rightarrow> uuid \<Rightarrow> event_row option" where
  "latest_event db cid =
     (case sort_key (\<lambda>r. - e_SeqNo r) (filter (\<lambda>r. e_CommandID r = cid) (db_events db)) of
        [] \<Rightarrow> None
      | r # _ \<Rightarrow> Some r)"

definition scan_running ::
  "command_db \<Rightarrow> command_row \<Rightarrow> (store_error, running_command_info) result" where
  "scan_running db c =
     (case latest_event db (c_ID c) of
        None \<Rightarrow> Inl ScanNull
      | Some r \<Rightarrow> Inr \<lparr>rci_AgentID = c_AgentID c, rci_CommandID = c_ID c,
                       rci_EventType = e_EventType r, rci_Summary = Some (e_Summary r)\<rparr>)"

fun scan_all :: "(store_error, 'a) result list \<Rightarrow> (store_error, 'a list) result" where
  "scan_all [] = Inr []"
| "scan_all (Inl e # rs) = Inl e"
| "scan_all (Inr a # rs) = (case scan_all rs of Inl e \<Rightarrow> Inl e | Inr as \<Rightarrow> Inr (a # as))"

definition GetRunningCommandsForConversation ::
  "(string \<Rightarrow> bool) \<Rightarrow> int list \<Rightarrow> uuid \<Rightarrow> command_db \<Rightarrow>
     (store_error, running_command_info list) result" where
  "GetRunningCommandsForConversation fails agentIDs conversationID db =
     (if agentIDs = [] then Inr []
      else if fails ''running'' then Inl (SqlError ''running'')
      else scan_all (map (scan_running db)
             (filter (\<lambda>c. c_AgentID c \<in> set agentIDs \<and> (c_ID c, conversationID) \<in> set (db_links db) \<and>
                c_Status c = CommandStatusRunning) (db_commands db))))"

definition CancelRunningCommandsForMachine ::
  "(string \<Rightarrow> bool) \<Rightarrow> int \<Rightarrow> command_db \<Rightarrow>
     (store_error, (uuid \<times> int) list) result \<times> command_db" where
  "CancelRunningCommandsForMachine fails machineID db =
     (if fails ''cancel'' then (Inl (SqlError ''cancel''), db)
      else
        (let hit = (\<lambda>c. (case c_MachineID c of None \<Rightarrow> 0 | Some m \<Rightarrow> m) = machineID \<and>
                 (c_Status c = CommandStatusPending \<or> c_Status c = CommandStatusRunning))
         in (Inr (map (\<lambda>c. (c_ID c, c_AgentID c)) (filter hit (db_commands db))),
             update_where hit (\<lambda>c. c\<lparr>c_Status := CommandStatusCancelled\<rparr>) db)))"

section \<open>The database invariant\<close>

text \<open>The primary key and the unique indexes of the schema.\<close>

definition db_wf :: "command_db \<Rightarrow> bool" where
  "db_wf db \<longleftrightarrow>
     distinct (map c_ID (db_commands db)) \<and>
     distinct (map (\<lambda>r. (o_CommandID r, o_SeqNo r)) (db_outputs db)) \<and>
     distinct (map (\<lambda>r. (e_CommandID r, e_SeqNo r)) (db_events db)) \<and>
     distinct (map u_CommandID (db_usage db)) \<and>
     distinct (db_links db)"

lemma db_wf_map_commands: "(\<And>c. c_ID (f c) = c_ID c) \<Longrightarrow> db_wf (map_commands f db) = db_wf db"
  by (simp add: db_wf_def map_commands_def comp_def)

lemma db_wf_update_where:
  "(\<And>c. c_ID (f c) = c_ID c) \<Longrightarrow> db_wf (update_where p f db) = db_wf db"
  unfolding update_where_def by (rule db_wf_map_commands) simp

lemma has_output_iff:
  "has_output db i q \<longleftrightarrow> (i, q) \<in> (\<lambda>r. (o_CommandID r, o_SeqNo r)) ` set (db_outputs db)"
  by (force simp: has_output_def list_ex_iff)

lemma has_event_iff:
  "has_event db i q \<longleftrightarrow> (i, q) \<in> (\<lambda>r. (e_CommandID r, e_SeqNo r)) ` set (db_events db)"
  by (force simp: has_event_def list_ex_iff)

lemma has_usage_iff: "has_usage db i \<longleftrightarrow> i \<in> u_CommandID ` set (db_usage db)"
  by (force simp: has_usage_def list_ex_iff)

lemma insert_output_wf: "db_wf db \<Longrightarrow> db_wf (snd (insert_output r db))"
  by (simp add: insert_output_def db_wf_def has_output_iff)

lemma insert_event_wf: "db_wf db \<Longrightarrow> db_wf (snd (insert_event r db))"
  by (simp add: insert_event_def db_wf_def has_event_iff)

lemma insert_output_has: "has_output (snd (insert_output r db)) (o_CommandID r) (o_SeqNo r)"
  by (simp add: insert_output_def) (simp add: has_output_def)

lemma insert_event_has: "has_event (snd (insert_event r db)) (e_CommandID r) (e_SeqNo r)"
  by (simp add: insert_event_def) (simp add: has_event_def)

section \<open>Computed SET lists\<close>

lemma those_map_Some: "those (map (\<lambda>x. Some (f x)) xs) = Some (map f xs)"
  by (induction xs) auto

lemma those_if_Some:
  "those (map (\<lambda>c. if p c then Some (f c) else Some c) xs) = Some (map (\<lambda>c. if p c then f c else c) xs)"
  using those_map_Some [of "\<lambda>c. if p c then f c else c" xs] by (simp add: if_distrib [of Some])

definition set_or_keep :: "'a option \<Rightarrow> 'a option \<Rightarrow> 'a option" where
  "set_or_keep new old = (case new of None \<Rightarrow> old | Some v \<Rightarrow> Some v)"

text \<open>A list the builder numbered: the placeholders are \<open>$1 .. $n\<close> in order.\<close>

definition numbered_sets :: "set_list \<Rightarrow> bool" where
  "numbered_sets sl \<longleftrightarrow> map snd (fst sl) = [1..<length (snd sl) + 1]"

definition run_sets :: "set_list \<Rightarrow> command_row \<Rightarrow> command_row option" where
  "run_sets sl c = apply_sets (fst sl) (snd sl) c"

lemma numbered_add_set: "numbered_sets sl \<Longrightarrow> numbered_sets (add_set col v sl)"
  by (cases sl) (simp add: numbered_sets_def add_set_def)

lemma numbered_add_set_if: "numbered_sets sl \<Longrightarrow> numbered_sets (add_set_if col v sl)"
  by (cases v) (simp_all add: add_set_if_def numbered_add_set)

lemma apply_sets_snoc:
  "apply_sets (sets @ [(col, i)]) args c =
     (case apply_sets sets args c of None \<Rightarrow> None | Some c' \<Rightarrow> set_col col (args ! (i - 1)) c')"
  by (induction sets args c rule: apply_sets.induct) (auto split: option.splits)

lemma apply_sets_more:
  "list_all (\<lambda>i. 1 \<le> i \<and> i \<le> length args) (map snd sets) \<Longrightarrow>
     apply_sets sets (args @ extra) c = apply_sets sets args c"
  by (induction sets args c rule: apply_sets.induct)
    (auto simp: nth_append list_all_iff split: option.splits)

lemma numbered_range: "numbered_sets (sets, args) \<Longrightarrow> list_all (\<lambda>i. 1 \<le> i \<and> i \<le> length args) (map snd sets)"
  unfolding numbered_sets_def by (auto simp: list_all_iff)

lemma run_add_set:
  assumes "numbered_sets sl"
  shows "run_sets (add_set col v sl) c = (case run_sets sl c of None \<Rightarrow> None | Some c' \<Rightarrow> set_col col v c')"
proof (cases sl)
  case (Pair sets args)
  with assms have "apply_sets sets (args @ [v]) c = apply_sets sets args c"
    by (simp add: apply_sets_more [OF numbered_range])
  with Pair show ?thesis by (simp add: run_sets_def add_set_def apply_sets_snoc split: option.split)
qed

lemma run_add_set_if:
  assumes "numbered_sets sl"
  shows "run_sets (add_set_if col v sl) c =
    (case v of None \<Rightarrow> run_sets sl c
     | Some x \<Rightarrow> (case run_sets sl c of None \<Rightarrow> None | Some c' \<Rightarrow> set_col col x c'))"
  using run_add_set [OF assms] by (cases v) (simp_all add: add_set_if_def)

lemma numbered_exec:
  assumes "numbered_sets (sets, args)" "\<And>c. run_sets (sets, args) c = Some (f c)"
  shows "exec_update sets (length args + 1) (args @ [VUuid cid]) db =
    Inr (update_where (\<lambda>c. c_ID c = cid) f db)"
proof -
  have ok: "placeholders_ok sets (length args + 1) (args @ [VUuid cid])"
    using assms(1) by (auto simp: placeholders_ok_def numbered_sets_def list_all_iff)
  have eq: "(\<lambda>c. if c_ID c = cid then apply_sets sets (args @ [VUuid cid]) c else Some c) =
      (\<lambda>c. if c_ID c = cid then Some (f c) else Some c)"
    using assms(2) apply_sets_more [OF numbered_range [OF assms(1)]] by (auto simp: run_sets_def)
  show ?thesis
    using ok eq by (simp add: exec_update_def those_if_Some update_where_def map_commands_def)
qed

lemmas set_list_rules = numbered_add_set_if run_add_set_if

lemma UpdateCommandStatus_ok:
  assumes "\<not> fails ''begin''" "\<not> fails ''update status''" "\<not> fails ''commit''"
  shows "UpdateCommandStatus fails cid status startedAt completedAt exitCode durationMs errorMsg db =
    (None, update_where (\<lambda>c. c_ID c = cid)
      (\<lambda>c. c\<lparr>c_Status := status, c_StartedAt := set_or_keep startedAt (c_StartedAt c),
             c_CompletedAt := set_or_keep completedAt (c_CompletedAt c),
             c_ExitCode := set_or_keep exitCode (c_ExitCode c),
             c_DurationMs := set_or_keep durationMs (c_DurationMs c),
             c_ErrorMessage := (if errorMsg = [] then c_ErrorMessage c else errorMsg)\<rparr>) db)"
    (is "_ = (None, update_where _ ?f db)")
proof -
  define sl where "sl = add_set_if ColErrorMessage (if errorMsg \<noteq> [] then Some (VText errorMsg) else None)
    (add_set_if ColDurationMs (map_option VInt durationMs)
      (add_set_if ColExitCode (map_option VInt exitCode)
        (add_set_if ColCompletedAt (map_option VTime completedAt)
          (add_set_if ColStartedAt (map_option VTime startedAt) ([(ColStatus, 1)], [VInt status])))))"
  have base: "numbered_sets ([(ColStatus, 1)], [VInt status])" by (simp add: numbered_sets_def)
  then have n: "numbered_sets sl" by (simp add: sl_def numbered_add_set_if)
  have "run_sets ([(ColStatus, 1)], [VInt status]) c = Some (c\<lparr>c_Status := status\<rparr>)" for c
    by (simp add: run_sets_def)
  then have "run_sets sl c = Some (?f c)" for c
    unfolding sl_def using base by (simp add: set_list_rules set_or_keep_def split: option.splits)
  then have "exec_update (fst sl) (length (snd sl) + 1) (snd sl @ [VUuid cid]) db =
      Inr (update_where (\<lambda>c. c_ID c = cid) ?f db)"
    using n by (intro numbered_exec) simp_all
  with assms show ?thesis
    unfolding UpdateCommandStatus_def comp_def sl_def [symmetric] split_def by simp
qed

lemma UpdateCommandResultSummary_ok:
  assumes "\<not> fails ''summary''"
  shows "UpdateCommandResultSummary fails cid finalSummary resultJSON db =
    (None, update_where (\<lambda>c. c_ID c = cid)
      (\<lambda>c. c\<lparr>c_FinalSummary := (if finalSummary = [] then c_FinalSummary c else finalSummary),
             c_ResultJSON := (if resultJSON = [] then c_ResultJSON c else resultJSON)\<rparr>) db)"
    (is "_ = (None, update_where _ ?f db)")
proof -
  define sl where "sl = add_set_if ColResultJSON (if resultJSON \<noteq> [] then Some (VText resultJSON) else None)
    (add_set_if ColFinalSummary (if finalSummary \<noteq> [] then Some (VText finalSummary) else None) ([], []))"
  have base: "numbered_sets ([], [])" by (simp add: numbered_sets_def)
  then have n: "numbered_sets sl" by (simp add: sl_def numbered_add_set_if)
  have "run_sets sl c = Some (?f c)" for c
    unfolding sl_def using base by (simp add: set_list_rules run_sets_def [of "([], [])"])
  then have "exec_update (fst sl) (length (snd sl) + 1) (snd sl @ [VUuid cid]) db =
      Inr (update_where (\<lambda>c. c_ID c = cid) ?f db)"
    using n by (intro numbered_exec) simp_all
  moreover have "fst sl = [] \<longleftrightarrow> finalSummary = [] \<and> resultJSON = []"
    by (simp add: sl_def add_set_if_def add_set_def)
  moreover have "update_where (\<lambda>c. c_ID c = cid) ?f db = db" if "finalSummary = []" "resultJSON = []"
    using that by (simp add: update_where_def map_commands_def)
  ultimately show ?thesis
    using assms unfolding UpdateCommandResultSummary_def comp_def sl_def [symmetric] split_def by auto
qed

section \<open>Queries\<close>

lemma output_query_spec:
  assumes "db_wf db" "GetCommandOutput fails cid after db = Inr rs"
  shows "set rs = {r \<in> set (db_outputs db). o_CommandID r = cid \<and> o_SeqNo r > after}"
    "sorted_wrt (\<lambda>a b. o_SeqNo a < o_SeqNo b) rs"
proof -
  let ?f = "filter (\<lambda>r. o_CommandID r = cid \<and> o_SeqNo r > after) (db_outputs db)"
  have rs: "rs = sort_key o_SeqNo ?f"
    using assms(2) by (simp add: GetCommandOutput_def split: if_splits)
  then show "set rs = {r \<in> set (db_outputs db). o_CommandID r = cid \<and> o_SeqNo r > after}" by auto
  have "distinct (map (\<lambda>r. (o_CommandID r, o_SeqNo r)) ?f)"
    using assms(1) by (auto simp: db_wf_def intro: distinct_map_filter)
  then have "distinct (map o_SeqNo ?f)"
    by (auto simp: distinct_map inj_on_def)
  then have "distinct (map o_SeqNo rs)" unfolding rs by (simp add: distinct_map)
  moreover have "sorted (map o_SeqNo rs)" unfolding rs by simp
  ultimately have "sorted_wrt (<) (map o_SeqNo rs)" by (simp add: strict_sorted_iff)
  then show "sorted_wrt (\<lambda>a b. o_SeqNo a < o_SeqNo b) rs" by (simp add: sorted_wrt_map)
qed

lemma scan_all_error: "Inl e \<in> set rs \<Longrightarrow> \<exists>e'. scan_all rs = Inl e'"
  by (induction rs rule: scan_all.induct) (auto split: sum.splits)

lemma scan_command_fields:
  assumes "scan_command db c = Some m"
  shows "cm_MachineID m = 0 \<and> cm_ID m = c_ID c \<and> cm_AgentID m = c_AgentID c \<and>
    cm_Status m = c_Status c \<and> cm_CreatedAt m = c_CreatedAt c \<and> cm_StartedAt m = c_StartedAt c \<and>
    db_agents db (c_AgentID c) = Some (cm_AgentResourceID m)"
  using assms by (auto simp: scan_command_def split: option.splits)

lemma select_commands_mem:
  "m \<in> set (select_commands p db) \<longleftrightarrow> (\<exists>c \<in> set (db_commands db). p c \<and> scan_command db c = Some m)"
  by (force simp: select_commands_def map_filter_def)

lemma ListCommands_mem:
  assumes "ListCommands fails f db = Inr ms" "m \<in> set ms"
  shows "\<exists>c \<in> set (db_commands db). scan_command db c = Some m \<and>
    (\<forall>v. fc_AgentID f = Some v \<longrightarrow> c_AgentID c = v) \<and> (\<forall>v. fc_Status f = Some v \<longrightarrow> c_Status c = v)"
proof -
  let ?p = "\<lambda>c. (case fc_AgentID f of None \<Rightarrow> True | Some v \<Rightarrow> c_AgentID c = v) \<and>
      (case fc_Status f of None \<Rightarrow> True | Some v \<Rightarrow> c_Status c = v)"
  let ?rows = "sort_key (\<lambda>m. - cm_CreatedAt m) (select_commands ?p db)"
  have "\<exists>n k. ms = take n (drop k ?rows)"
  proof -
    have "ms = take (case fc_Limit f of None \<Rightarrow> length ?rows | Some v \<Rightarrow> nat v)
        (drop (case fc_Offset f of None \<Rightarrow> 0 | Some v \<Rightarrow> nat v) ?rows)"
      using assms(1) unfolding ListCommands_def Let_def
      by (cases "fc_Limit f"; cases "fc_Offset f") (simp_all split: if_splits)
    then show ?thesis by blast
  qed
  then have "m \<in> set (select_commands ?p db)"
    using assms(2) by (auto dest!: in_set_takeD in_set_dropD)
  then obtain c where "c \<in> set (db_commands db)" "?p c" "scan_command db c = Some m"
    unfolding select_commands_mem by blast
  then show ?thesis by (intro bexI [of _ c]) (auto split: option.splits)
qed

section \<open>Properties\<close>

definition in_flight :: "command_row \<Rightarrow> bool" where
  "in_flight c \<longleftrightarrow> c_Status c = CommandStatusPending \<or> c_Status c = CommandStatusRunning"

definition empty_db :: command_db where
  "empty_db = \<lparr>db_commands = [], db_outputs = [], db_events = [], db_usage = [], db_links = [],
     db_members = [], db_agents = (\<lambda>i. if i = 1 then Some ''a1'' else None),
     db_principals = (\<lambda>i. if i = 1 then Some ''p1'' else None)\<rparr>"

definition sample_command :: "uuid \<Rightarrow> int \<Rightarrow> command_row" where
  "sample_command cid status =
     \<lparr>c_ID = cid, c_AgentID = 1, c_MachineID = Some 7, c_PrincipalID = 1, c_Command = [],
      c_Instruction = [], c_Profile = [], c_AllowDiff = False, c_Status = status,
      c_FailureKind = None, c_ExitCode = None, c_DurationMs = None, c_CreatedAt = 0,
      c_StartedAt = None, c_CompletedAt = None, c_ErrorMessage = [], c_FinalSummary = [],
      c_ResultJSON = ''{}'', c_Env = ''{}'', c_WorkingDir = [], c_TimeoutSeconds = 0,
      c_LastAckSeq = 0, c_ConversationID = None\<rparr>"

definition sample_db :: command_db where
  "sample_db = empty_db\<lparr>db_commands :=
     [sample_command 1 CommandStatusRunning, sample_command 2 CommandStatusCompleted]\<rparr>"

definition sample_message :: command_message where
  "sample_message = the (scan_command empty_db (sample_command 0 CommandStatusPending))"

text \<open>A status update with any subset of the optional columns binds its placeholders and
  changes exactly the named command: the columns given are set, the others keep their values;
  the summary update does the same for its two columns, the empty string meaning absent.\<close>

theorem computed_updates_exact:
  assumes "\<And>st. \<not> fails st"
  shows "UpdateCommandStatus fails cid status startedAt completedAt exitCode durationMs errorMsg db =
      (None, update_where (\<lambda>c. c_ID c = cid)
        (\<lambda>c. c\<lparr>c_Status := status, c_StartedAt := set_or_keep startedAt (c_StartedAt c),
               c_CompletedAt := set_or_keep completedAt (c_CompletedAt c),
               c_ExitCode := set_or_keep exitCode (c_ExitCode c),
               c_DurationMs := set_or_keep durationMs (c_DurationMs c),
               c_ErrorMessage := (if errorMsg = [] then c_ErrorMessage c else errorMsg)\<rparr>) db) \<and>
    UpdateCommandResultSummary fails cid finalSummary resultJSON db =
      (None, update_where (\<lambda>c. c_ID c = cid)
        (\<lambda>c. c\<lparr>c_FinalSummary := (if finalSummary = [] then c_FinalSummary c else finalSummary),
               c_ResultJSON := (if resultJSON = [] then c_ResultJSON c else resultJSON)\<rparr>) db)"
  using UpdateCommandStatus_ok [of fails] UpdateCommandResultSummary_ok [of fails] assms by blast

theorem computed_updates_exact_witness:
  "map c_FinalSummary (db_commands (snd (UpdateCommandResultSummary (\<lambda>_. False) 1 ''done'' [] sample_db))) =
     [''done'', []]"
  using computed_updates_exact [of "\<lambda>_. False" 1 0 None None None None "[]" sample_db "''done''" "[]"]
  by (simp add: update_where_def map_commands_def sample_db_def sample_command_def)

text \<open>The reaper's update and the forced disconnect are compare-and-set: a row that is not
  running is never reaped, a second reap of a command reports that nothing was reaped, the
  forced disconnect leaves no in-flight command of the machine, returns exactly the rows it
  flipped, and no operation touches a row that already reached a terminal status.\<close>

theorem terminal_rows_are_anchored:
  assumes "ReapRunningCommand fails cid t msg kind db = (Inr reaped, db')"
    "CancelRunningCommandsForMachine fails2 m db = (Inr cancelled, db'')"
  shows "reaped = (\<exists>c \<in> set (db_commands db). c_ID c = cid \<and> c_Status c = CommandStatusRunning) \<and>
    (\<exists>f. db_commands db' = map f (db_commands db) \<and>
       (\<forall>c. c_Status c \<noteq> CommandStatusRunning \<or> c_ID c \<noteq> cid \<longrightarrow> f c = c)) \<and>
    (\<forall>fails t msg kind. \<not> fails ''reap'' \<longrightarrow>
       ReapRunningCommand fails cid t msg kind db' = (Inr False, db')) \<and>
    (\<exists>g. db_commands db'' = map g (db_commands db) \<and> (\<forall>c. \<not> in_flight c \<longrightarrow> g c = c) \<and>
       cancelled = map (\<lambda>c. (c_ID c, c_AgentID c)) (filter (\<lambda>c. g c \<noteq> c) (db_commands db))) \<and>
    (\<forall>c \<in> set (db_commands db''). in_flight c \<longrightarrow> c_MachineID c \<noteq> Some m)"
proof -
  define reap :: "command_row \<Rightarrow> command_row" where "reap = (\<lambda>c. if c_ID c = cid \<and> c_Status c = CommandStatusRunning
    then c\<lparr>c_Status := CommandStatusFailed, c_CompletedAt := Some t, c_ErrorMessage := msg,
           c_FailureKind := Some kind\<rparr> else c)"
  define hit :: "command_row \<Rightarrow> bool" where "hit = (\<lambda>c. (case c_MachineID c of None \<Rightarrow> 0 | Some x \<Rightarrow> x) = m \<and> in_flight c)"
  define flip :: "command_row \<Rightarrow> command_row" where "flip = (\<lambda>c. if hit c then c\<lparr>c_Status := CommandStatusCancelled\<rparr> else c)"
  have r: "reaped = (\<exists>c \<in> set (db_commands db). c_ID c = cid \<and> c_Status c = CommandStatusRunning)"
    using assms(1) by (auto simp: ReapRunningCommand_def Let_def list_ex_iff split: if_splits)
  have db': "db_commands db' = map reap (db_commands db)"
    using assms(1)
    by (auto simp: ReapRunningCommand_def Let_def list_ex_iff update_where_def map_commands_def
        reap_def map_idI split: if_splits intro!: map_idI [symmetric])
  have again: "ReapRunningCommand fails cid t msg kind db' = (Inr False, db')"
    if "\<not> fails ''reap''" for fails t msg kind
  proof -
    have "\<not> (c_ID (reap c) = cid \<and> c_Status (reap c) = CommandStatusRunning)" for c
      by (simp add: reap_def status_defs)
    then have "\<not> list_ex (\<lambda>c. c_ID c = cid \<and> c_Status c = CommandStatusRunning) (db_commands db')"
      unfolding db' by (simp add: list_ex_iff)
    with that show ?thesis by (simp add: ReapRunningCommand_def)
  qed
  have db'': "db_commands db'' = map flip (db_commands db)"
    and res: "cancelled = map (\<lambda>c. (c_ID c, c_AgentID c)) (filter hit (db_commands db))"
    using assms(2)
    by (auto simp: CancelRunningCommandsForMachine_def Let_def update_where_def map_commands_def
        flip_def hit_def in_flight_def split: if_splits)
  have "flip c \<noteq> c \<longleftrightarrow> hit c" for c :: command_row
  proof -
    have "c_Status (flip c) = (if hit c then CommandStatusCancelled else c_Status c)"
      by (simp add: flip_def)
    moreover have "hit c \<Longrightarrow> c_Status c \<noteq> CommandStatusCancelled"
      by (auto simp: hit_def in_flight_def status_defs)
    moreover have "\<not> hit c \<Longrightarrow> flip c = c" by (simp add: flip_def)
    ultimately show ?thesis by (cases "hit c") auto
  qed
  then have fl: "filter (\<lambda>c. flip c \<noteq> c) (db_commands db) = filter hit (db_commands db)" by simp
  have gone: "\<forall>c \<in> set (db_commands db''). in_flight c \<longrightarrow> c_MachineID c \<noteq> Some m"
    unfolding db'' by (auto simp: flip_def hit_def in_flight_def status_defs)
  have "\<exists>f. db_commands db' = map f (db_commands db) \<and>
      (\<forall>c. c_Status c \<noteq> CommandStatusRunning \<or> c_ID c \<noteq> cid \<longrightarrow> f c = c)"
    by (rule exI [of _ reap]) (auto simp: db' reap_def)
  moreover have "\<exists>g. db_commands db'' = map g (db_commands db) \<and> (\<forall>c. \<not> in_flight c \<longrightarrow> g c = c) \<and>
      cancelled = map (\<lambda>c. (c_ID c, c_AgentID c)) (filter (\<lambda>c. g c \<noteq> c) (db_commands db))"
    by (rule exI [of _ flip]) (simp only: db'' res fl, simp add: flip_def hit_def)
  ultimately show ?thesis using r again gone by simp
qed

theorem terminal_rows_are_anchored_witness:
  "\<exists>db'. ReapRunningCommand (\<lambda>_. False) 1 5 ''lost'' ''k'' sample_db = (Inr True, db') \<and>
     (\<forall>t msg kind. ReapRunningCommand (\<lambda>_. False) 1 t msg kind db' = (Inr False, db'))"
proof -
  obtain reaped db' where r: "ReapRunningCommand (\<lambda>_. False) 1 5 ''lost'' ''k'' sample_db = (Inr reaped, db')"
    by (cases "list_ex (\<lambda>c. c_ID c = 1 \<and> c_Status c = CommandStatusRunning) (db_commands sample_db)")
      (auto simp: ReapRunningCommand_def Let_def)
  obtain cs db'' where c: "CancelRunningCommandsForMachine (\<lambda>_. False) 7 sample_db = (Inr cs, db'')"
    by (simp add: CancelRunningCommandsForMachine_def Let_def)
  note t = terminal_rows_are_anchored [OF r c]
  then have "reaped" by (simp add: sample_db_def sample_command_def)
  with r t show ?thesis by auto
qed

text \<open>Reading a command's output after a sequence number returns, in strictly ascending
  order, exactly the stored rows beyond it; an appended row is there afterwards unless its key
  was taken, in which case the first row stays; so a reader that resumes after the last row it
  saw gets exactly the rest.\<close>

theorem output_log_reads_back:
  assumes "db_wf db" "\<And>st. \<not> fails st"
  shows "\<exists>rs rs2 db2.
    GetCommandOutput fails cid after db = Inr rs \<and>
    set rs = {r \<in> set (db_outputs db). o_CommandID r = cid \<and> o_SeqNo r > after} \<and>
    sorted_wrt (\<lambda>a b. o_SeqNo a < o_SeqNo b) rs \<and>
    AppendCommandOutput fails cid q stream content t db = (None, db2) \<and>
    GetCommandOutput fails cid (q - 1) db2 = Inr rs2 \<and>
    (let new = \<lparr>o_CommandID = cid, o_SeqNo = q, o_StreamType = stream, o_Content = content,
                o_CreatedAt = t\<rparr>
     in if has_output db cid q then db2 = db else new \<in> set rs2) \<and>
    (\<forall>mid \<ge> after. \<exists>seen rest. GetCommandOutput fails cid mid db = Inr rest \<and>
       seen = filter (\<lambda>r. o_SeqNo r \<le> mid) rs \<and> rs = seen @ rest)"
proof -
  obtain rs where rs: "GetCommandOutput fails cid after db = Inr rs"
    using assms(2) by (simp add: GetCommandOutput_def)
  note spec = output_query_spec [OF assms(1) rs]
  let ?new = "\<lparr>o_CommandID = cid, o_SeqNo = q, o_StreamType = stream, o_Content = content,
    o_CreatedAt = t\<rparr>"
  obtain db2 where a: "AppendCommandOutput fails cid q stream content t db = (None, db2)"
      "db2 = snd (insert_output ?new db)"
    using assms(2) by (simp add: AppendCommandOutput_def)
  obtain rs2 where rs2: "GetCommandOutput fails cid (q - 1) db2 = Inr rs2"
    using assms(2) by (simp add: GetCommandOutput_def)
  have "set rs2 = {r \<in> set (db_outputs db2). o_CommandID r = cid \<and> o_SeqNo r > q - 1}"
    using output_query_spec(1) [OF _ rs2] insert_output_wf [OF assms(1)] a(2) by simp
  then have new: "if has_output db cid q then db2 = db else ?new \<in> set rs2"
    using a(2) by (simp add: insert_output_def)
  have "\<exists>rest. GetCommandOutput fails cid mid db = Inr rest \<and>
      rs = filter (\<lambda>r. o_SeqNo r \<le> mid) rs @ rest" if "after \<le> mid" for mid
  proof -
    obtain rest where rest: "GetCommandOutput fails cid mid db = Inr rest"
      using assms(2) by (simp add: GetCommandOutput_def)
    note spec2 = output_query_spec [OF assms(1) rest]
    let ?all = "filter (\<lambda>r. o_SeqNo r \<le> mid) rs @ rest"
    have "sorted_wrt (\<lambda>a b. o_SeqNo a < o_SeqNo b) ?all"
      using spec(2) spec2 by (auto simp: sorted_wrt_append sorted_wrt_filter)
    moreover have "set ?all = set rs" using spec(1) spec2(1) that by auto
    ultimately have "?all = rs" using spec(2) by (intro sorted_wrt_key_unique)
    with rest show ?thesis by metis
  qed
  with rs spec a(1) rs2 new show ?thesis unfolding Let_def by blast
qed

theorem output_log_reads_back_witness:
  "\<exists>rs2 db2. AppendCommandOutput (\<lambda>_. False) 1 4 1 ''hi'' 9 sample_db = (None, db2) \<and>
     GetCommandOutput (\<lambda>_. False) 1 3 db2 = Inr rs2 \<and> map o_Content rs2 = [''hi'']"
proof -
  have wf: "db_wf sample_db" by (simp add: sample_db_def empty_db_def db_wf_def sample_command_def)
  have no: "\<not> has_output sample_db 1 4" by (simp add: has_output_def sample_db_def empty_db_def)
  obtain rs2 db2 where r: "AppendCommandOutput (\<lambda>_. False) 1 4 1 ''hi'' 9 sample_db = (None, db2)"
      "GetCommandOutput (\<lambda>_. False) 1 (4 - 1) db2 = Inr rs2"
    using output_log_reads_back [OF wf, of "\<lambda>_. False" 1 0 4 1 "''hi''" 9] by blast
  then have "db_outputs db2 = [\<lparr>o_CommandID = 1, o_SeqNo = 4, o_StreamType = 1, o_Content = ''hi'',
      o_CreatedAt = 9\<rparr>]"
    using no by (auto simp: AppendCommandOutput_def insert_output_def sample_db_def empty_db_def)
  with r show ?thesis by (auto simp: GetCommandOutput_def)
qed

text \<open>A command looked up by its resource name \<open>agents/{agent}/commands/{uuid}\<close> is the one with
  that id and belongs to that agent; any other shape of name, and an id that does not parse, is
  refused before the database is asked.\<close>

theorem GetCommandByName_exact:
  "(\<forall>m. GetCommandByName uenv fails name db = Inr m \<longrightarrow>
      (\<exists>res idStr c. name = ''agents/'' @ res @ ''/commands/'' @ idStr \<and> CHR ''/'' \<notin> set res \<and>
         CHR ''/'' \<notin> set idStr \<and> uuid_Parse uenv idStr = Some (cm_ID m) \<and>
         cm_AgentResourceID m = res \<and> c \<in> set (db_commands db) \<and> c_ID c = cm_ID m)) \<and>
   (CHR ''/'' \<notin> set res \<longrightarrow> CHR ''/'' \<notin> set idStr \<longrightarrow> uuid_Parse uenv idStr = Some cid \<longrightarrow>
      db_wf db \<longrightarrow> (\<forall>st. \<not> fails st) \<longrightarrow> find_command_row db cid = Some c \<longrightarrow>
      scan_command db c = Some m \<longrightarrow> cm_AgentResourceID m = res \<longrightarrow>
      GetCommandByName uenv fails (''agents/'' @ res @ ''/commands/'' @ idStr) db = Inr m) \<and>
   (uuid_Parse uenv idStr = None \<longrightarrow> CHR ''/'' \<notin> set res \<longrightarrow> CHR ''/'' \<notin> set idStr \<longrightarrow>
      GetCommandByName uenv fails (''agents/'' @ res @ ''/commands/'' @ idStr) db = Inl InvalidID)"
proof (intro conjI allI impI)
  fix m assume g: "GetCommandByName uenv fails name db = Inr m"
  then obtain res i cid where sp: "split_on CHR ''/'' name = [''agents'', res, ''commands'', i]"
      "uuid_Parse uenv i = Some cid"
      and m: "m \<in> set (select_commands (\<lambda>c. c_ID c = cid \<and> db_agents db (c_AgentID c) = Some res) db)"
    unfolding GetCommandByName_def by (auto split: list.splits if_splits option.splits)
  have "name = join_with CHR ''/'' [''agents'', res, ''commands'', i]"
    by (metis join_split_on sp(1))
  moreover have "CHR ''/'' \<notin> set res" "CHR ''/'' \<notin> set i"
    using sp(1) split_on_tokens_free [of _ "CHR ''/''" name] by auto
  moreover obtain c where "c \<in> set (db_commands db)" "c_ID c = cid"
      "db_agents db (c_AgentID c) = Some res" "scan_command db c = Some m"
    using m unfolding select_commands_mem by blast
  moreover from this have "cm_ID m = cid" "cm_AgentResourceID m = res"
    using scan_command_fields by fastforce+
  ultimately show "\<exists>res idStr c. name = ''agents/'' @ res @ ''/commands/'' @ idStr \<and> CHR ''/'' \<notin> set res \<and>
      CHR ''/'' \<notin> set idStr \<and> uuid_Parse uenv idStr = Some (cm_ID m) \<and>
      cm_AgentResourceID m = res \<and> c \<in> set (db_commands db) \<and> c_ID c = cm_ID m"
    using sp(2) by (intro exI [where x = res, OF exI [where x = i, OF exI [where x = c]]]) simp
next
  assume free: "CHR ''/'' \<notin> set res" "CHR ''/'' \<notin> set idStr"
  have sp: "split_on CHR ''/'' (''agents/'' @ res @ ''/commands/'' @ idStr) =
      [''agents'', res, ''commands'', idStr]"
    using free by (simp add: split_on_sep split_on_free)
  show "uuid_Parse uenv idStr = None \<Longrightarrow>
      GetCommandByName uenv fails (''agents/'' @ res @ ''/commands/'' @ idStr) db = Inl InvalidID"
    unfolding GetCommandByName_def sp by simp
  assume p: "uuid_Parse uenv idStr = Some cid" "db_wf db" "\<forall>st. \<not> fails st"
    "find_command_row db cid = Some c" "scan_command db c = Some m" "cm_AgentResourceID m = res"
  have c: "c \<in> set (db_commands db)" "c_ID c = cid"
    using p(4) by (auto simp: find_command_row_def find_Some_iff)
  have ag: "db_agents db (c_AgentID c) = Some res"
    using p(5,6) scan_command_fields by blast
  have "filter (\<lambda>c. c_ID c = cid \<and> db_agents db (c_AgentID c) = Some res) (db_commands db) = [c]"
  proof -
    have "filter (\<lambda>x. c_ID x = c_ID c) (db_commands db) = [c]"
      using p(2) c(1) by (intro filter_key_unique) (auto simp: db_wf_def)
    moreover have "filter (\<lambda>c. c_ID c = cid \<and> db_agents db (c_AgentID c) = Some res) (db_commands db) =
        filter (\<lambda>c. db_agents db (c_AgentID c) = Some res) (filter (\<lambda>c. c_ID c = cid) (db_commands db))"
      by (simp add: conj_commute)
    ultimately show ?thesis using ag c(2) by simp
  qed
  then show "GetCommandByName uenv fails (''agents/'' @ res @ ''/commands/'' @ idStr) db = Inr m"
    unfolding GetCommandByName_def sp using p(1,3,5) by (simp add: select_commands_def map_filter_def)
qed

definition sample_uuid :: uuid_env where
  "sample_uuid = \<lparr>uuid_Parse = (\<lambda>s. if s = ''1'' then Some 1 else None), uuid_String = (\<lambda>_. ''1'')\<rparr>"

theorem GetCommandByName_exact_witness:
  "\<exists>m. GetCommandByName sample_uuid (\<lambda>_. False) ''agents/a1/commands/1'' sample_db = Inr m \<and> cm_ID m = 1"
proof -
  let ?c = "sample_command 1 CommandStatusRunning"
  obtain m where m: "scan_command sample_db ?c = Some m"
    by (simp add: scan_command_def sample_db_def sample_command_def empty_db_def)
  have "cm_AgentResourceID m = ''a1''" "cm_ID m = 1"
    using scan_command_fields [OF m] by (simp_all add: sample_db_def sample_command_def empty_db_def)
  moreover have "db_wf sample_db" by (simp add: sample_db_def empty_db_def db_wf_def sample_command_def)
  moreover have "find_command_row sample_db 1 = Some ?c"
    by (simp add: find_command_row_def sample_db_def sample_command_def)
  ultimately show ?thesis
    using GetCommandByName_exact [of sample_uuid "\<lambda>_. False" "[]" sample_db "''a1''" "''1''" 1 ?c m] m
    by (simp add: sample_uuid_def)
qed

text \<open>The activity query of a conversation fails as a whole as soon as one of its running
  commands has no event yet, although its result type promises zero values for such a
  command; when every running command has an event, it returns one row for each with the
  latest event.\<close>

theorem running_query_needs_events:
  assumes "agentIDs \<noteq> []" "\<not> fails ''running''"
  shows "let hits = filter (\<lambda>c. c_AgentID c \<in> set agentIDs \<and> (c_ID c, conv) \<in> set (db_links db) \<and>
      c_Status c = CommandStatusRunning) (db_commands db)
    in GetRunningCommandsForConversation fails agentIDs conv db =
       (if \<exists>c \<in> set hits. latest_event db (c_ID c) = None then Inl ScanNull
        else Inr (map (\<lambda>c. \<lparr>rci_AgentID = c_AgentID c, rci_CommandID = c_ID c,
          rci_EventType = e_EventType (the (latest_event db (c_ID c))),
          rci_Summary = Some (e_Summary (the (latest_event db (c_ID c))))\<rparr>) hits))"
proof -
  have "scan_all (map (scan_running db) cs) =
      (if \<exists>c \<in> set cs. latest_event db (c_ID c) = None then Inl ScanNull
       else Inr (map (\<lambda>c. \<lparr>rci_AgentID = c_AgentID c, rci_CommandID = c_ID c,
         rci_EventType = e_EventType (the (latest_event db (c_ID c))),
         rci_Summary = Some (e_Summary (the (latest_event db (c_ID c))))\<rparr>) cs))" for cs
    by (induction cs) (auto simp: scan_running_def split: option.splits)
  then show ?thesis
    using assms by (simp add: GetRunningCommandsForConversation_def Let_def)
qed

theorem running_query_needs_events_witness:
  "GetRunningCommandsForConversation (\<lambda>_. False) [1] 9 (sample_db\<lparr>db_links := [(1, 9)]\<rparr>) = Inl ScanNull"
  using running_query_needs_events [of "[1]" "\<lambda>_. False" 9 "sample_db\<lparr>db_links := [(1, 9)]\<rparr>"]
  by (simp add: sample_db_def sample_command_def latest_event_def empty_db_def Let_def)

end
