(* ===== verification/Dispatcher.thy ===== *)
theory Dispatcher
  imports Command_Store "HOL-Library.AList"
begin

text \<open>
  The manager's dispatcher (\<open>backend/manager/component/dispatcher\<close>): the live watchers of command
  output and events (\<open>command_bus.go\<close>), the current command of each agent
  (\<open>command_tracker.go\<close>), the correlation of requests with replies (\<open>pending_replies.go\<close>), the
  registry of machine and provisioner sessions with its lifecycle and liveness checks
  (\<open>session_registry.go\<close>, \<open>session_lifecycle.go\<close>, \<open>liveness.go\<close>), and the reaper of stale
  commands (\<open>command_reaper.go\<close>).

  Go channels live in a heap, the list of all channels made so far; a channel or session
  pointer is an index. A send on a closed channel and the second close of a channel panic in
  Go: \<open>None\<close>. What runs under one lock is one step. An operation that leaves the lock between two statements takes what the other
  goroutines do there as a function \<open>others\<close> on the registry, and the sessions are a system whose steps are the locked parts.
\<close>

unbundle bit_operations_syntax

section \<open>The command bus\<close>

definition watcherBufSize :: nat where "watcherBufSize = 256"

record 'm chan =
  ch_buf :: "'m list"
  ch_closed :: bool

text \<open>The watchers of a command: each a channel and its count of dropped messages.\<close>

record 'm bus =
  bus_chans :: "'m chan list"
  bus_watch :: "string \<Rightarrow> (nat \<times> int) list"

definition newBus :: "'m bus" where
  "newBus = \<lparr>bus_chans = [], bus_watch = (\<lambda>_. [])\<rparr>"

definition close_chan :: "nat \<Rightarrow> 'm chan list \<Rightarrow> 'm chan list option" where
  "close_chan n cs = (if ch_closed (cs ! n) then None else Some (cs[n := (cs ! n)\<lparr>ch_closed := True\<rparr>]))"

definition subscribe :: "string \<Rightarrow> 'm bus \<Rightarrow> nat \<times> 'm bus" where
  "subscribe commandID b =
     (let n = length (bus_chans b) in
      (n, b\<lparr>bus_chans := bus_chans b @ [\<lparr>ch_buf = [], ch_closed = False\<rparr>],
            bus_watch := (bus_watch b)(commandID := bus_watch b commandID @ [(n, 0)])\<rparr>))"

definition unsubscribe :: "string \<Rightarrow> nat \<Rightarrow> 'm bus \<Rightarrow> 'm bus option" where
  "unsubscribe commandID ch b =
     (if ch \<in> fst ` set (bus_watch b commandID) then
        (case close_chan ch (bus_chans b) of
           None \<Rightarrow> None
         | Some cs \<Rightarrow>
             Some (b\<lparr>bus_chans := cs,
                     bus_watch := (bus_watch b)(commandID :=
                       filter (\<lambda>w. fst w \<noteq> ch) (bus_watch b commandID))\<rparr>))
      else Some b)"

text \<open>\<open>watcher.drop\<close>: the new total, and whether this drop is logged.\<close>

definition watcher_drop :: "int \<Rightarrow> int \<times> bool" where
  "watcher_drop dropped = (let n = i64 (dropped + 1) in (n, n AND i64 (n - 1) = 0))"

fun broadcast_loop ::
  "'m \<Rightarrow> (nat \<times> int) list \<Rightarrow> 'm chan list \<Rightarrow> ((nat \<times> int) list \<times> 'm chan list) option" where
  "broadcast_loop m [] cs = Some ([], cs)"
| "broadcast_loop m ((n, d) # ws) cs =
     (if ch_closed (cs ! n) then None
      else if length (ch_buf (cs ! n)) < watcherBufSize then
        (case broadcast_loop m ws (cs[n := (cs ! n)\<lparr>ch_buf := ch_buf (cs ! n) @ [m]\<rparr>]) of
           None \<Rightarrow> None
         | Some (ws', cs') \<Rightarrow> Some ((n, d) # ws', cs'))
      else
        (case broadcast_loop m ws cs of
           None \<Rightarrow> None
         | Some (ws', cs') \<Rightarrow> Some ((n, fst (watcher_drop d)) # ws', cs')))"

definition broadcast :: "string \<Rightarrow> 'm \<Rightarrow> 'm bus \<Rightarrow> 'm bus option" where
  "broadcast commandID m b =
     (case broadcast_loop m (bus_watch b commandID) (bus_chans b) of
        None \<Rightarrow> None
      | Some (ws, cs) \<Rightarrow> Some (b\<lparr>bus_chans := cs, bus_watch := (bus_watch b)(commandID := ws)\<rparr>))"

fun close_loop :: "nat list \<Rightarrow> 'm chan list \<Rightarrow> 'm chan list option" where
  "close_loop [] cs = Some cs"
| "close_loop (n # ns) cs = (case close_chan n cs of None \<Rightarrow> None | Some cs' \<Rightarrow> close_loop ns cs')"

definition close_watchers :: "string \<Rightarrow> 'm bus \<Rightarrow> 'm bus option" where
  "close_watchers commandID b =
     (case close_loop (map fst (bus_watch b commandID)) (bus_chans b) of
        None \<Rightarrow> None
      | Some cs \<Rightarrow> Some (b\<lparr>bus_chans := cs, bus_watch := (bus_watch b)(commandID := [])\<rparr>))"

text \<open>A consumer takes the oldest message of its channel.\<close>

definition receive :: "nat \<Rightarrow> 'm bus \<Rightarrow> 'm option \<times> 'm bus" where
  "receive ch b =
     (case ch_buf (bus_chans b ! ch) of
        [] \<Rightarrow> (None, b)
      | m # ms \<Rightarrow> (Some m, b\<lparr>bus_chans := (bus_chans b)[ch := (bus_chans b ! ch)\<lparr>ch_buf := ms\<rparr>]\<rparr>))"

definition watched :: "'m bus \<Rightarrow> string \<Rightarrow> nat set" where
  "watched b c = fst ` set (bus_watch b c)"

text \<open>Watched channels exist, are open and within their buffer, and belong to one watcher.\<close>

definition bus_wf :: "'m bus \<Rightarrow> bool" where
  "bus_wf b \<longleftrightarrow>
     (\<forall>c. distinct (map fst (bus_watch b c)) \<and>
        (\<forall>n \<in> watched b c. n < length (bus_chans b) \<and> \<not> ch_closed (bus_chans b ! n)) \<and>
        (\<forall>c'. c \<noteq> c' \<longrightarrow> watched b c \<inter> watched b c' = {})) \<and>
     (\<forall>ch \<in> set (bus_chans b). length (ch_buf ch) \<le> watcherBufSize)"

lemma bus_wfD:
  assumes "bus_wf b"
  shows "distinct (map fst (bus_watch b c))"
    and "n \<in> watched b c \<Longrightarrow> n < length (bus_chans b)"
    and "n \<in> watched b c \<Longrightarrow> \<not> ch_closed (bus_chans b ! n)"
    and "c \<noteq> c' \<Longrightarrow> n \<in> watched b c \<Longrightarrow> n \<notin> watched b c'"
    and "n < length (bus_chans b) \<Longrightarrow> length (ch_buf (bus_chans b ! n)) \<le> watcherBufSize"
  using assms by (fastforce simp: bus_wf_def)+

lemma watched_upd: "watched (b\<lparr>bus_chans := cs, bus_watch := (bus_watch b)(c := ws)\<rparr>) c' =
    (if c' = c then fst ` set ws else watched b c')"
  by (simp add: watched_def)

definition deliver :: "'m \<Rightarrow> 'm chan \<Rightarrow> 'm chan" where
  "deliver m ch = (if length (ch_buf ch) < watcherBufSize then ch\<lparr>ch_buf := ch_buf ch @ [m]\<rparr> else ch)"

lemma broadcast_loop_spec:
  assumes "distinct (map fst ws)" "\<forall>(n, d) \<in> set ws. n < length cs \<and> \<not> ch_closed (cs ! n)"
  shows "\<exists>ws' cs'. broadcast_loop m ws cs = Some (ws', cs') \<and> length cs' = length cs \<and>
    map fst ws' = map fst ws \<and>
    (\<forall>n < length cs. cs' ! n = (if n \<in> fst ` set ws then deliver m (cs ! n) else cs ! n)) \<and>
    list_all2 (\<lambda>(n, d) (n', d'). d' = (if length (ch_buf (cs ! n)) < watcherBufSize then d
      else fst (watcher_drop d))) ws ws'"
  using assms
proof (induction ws arbitrary: cs)
  case (Cons w ws)
  obtain n d where w: "w = (n, d)" by (cases w)
  let ?cs = "if length (ch_buf (cs ! n)) < watcherBufSize
    then cs[n := (cs ! n)\<lparr>ch_buf := ch_buf (cs ! n) @ [m]\<rparr>] else cs"
  have n: "n < length cs" "\<not> ch_closed (cs ! n)" "n \<notin> fst ` set ws"
    using Cons.prems w by auto
  have same: "?cs ! k = cs ! k" if "k \<in> fst ` set ws" for k
    using that n(3) by (cases "k = n") auto
  have "\<forall>(k, d) \<in> set ws. k < length ?cs \<and> \<not> ch_closed (?cs ! k)"
    using Cons.prems(2) w same by (force simp: split_def)
  then obtain ws' cs' where ih: "broadcast_loop m ws ?cs = Some (ws', cs')" "length cs' = length ?cs"
      "map fst ws' = map fst ws"
      "\<forall>k < length ?cs. cs' ! k = (if k \<in> fst ` set ws then deliver m (?cs ! k) else ?cs ! k)"
      "list_all2 (\<lambda>(n, d) (n', d'). d' = (if length (ch_buf (?cs ! n)) < watcherBufSize then d
        else fst (watcher_drop d))) ws ws'"
    using Cons.IH [of ?cs] Cons.prems(1) w by auto
  have l2: "list_all2 (\<lambda>(n, d) (n', d'). d' = (if length (ch_buf (cs ! n)) < watcherBufSize then d
        else fst (watcher_drop d))) ws ws'"
    by (rule list.rel_mono_strong [OF ih(5)]) (use same in \<open>force simp: split_def\<close>)
  show ?case
  proof (cases "length (ch_buf (cs ! n)) < watcherBufSize")
    case True
    with ih l2 n w show ?thesis
      by (auto simp: deliver_def nth_list_update)
  next
    case False
    with ih l2 n w show ?thesis by (auto simp: deliver_def)
  qed
qed auto

lemma subscribe_wf:
  assumes "bus_wf b" "subscribe c b = (n, b')"
  shows "bus_wf b' \<and> n = length (bus_chans b) \<and> n \<notin> watched b c' \<and> bus_chans b' = bus_chans b @ [\<lparr>ch_buf = [], ch_closed = False\<rparr>] \<and>
    watched b' c' = (if c' = c then insert n (watched b c) else watched b c')"
proof -
  have n: "n = length (bus_chans b)"
    and b': "b' = b\<lparr>bus_chans := bus_chans b @ [\<lparr>ch_buf = [], ch_closed = False\<rparr>],
      bus_watch := (bus_watch b)(c := bus_watch b c @ [(n, 0)])\<rparr>"
    using assms(2) by (auto simp: subscribe_def Let_def)
  have new: "n \<notin> watched b c'" for c' using bus_wfD(2) [OF assms(1), of n c'] n by auto
  have ws: "watched b' c' = (if c' = c then insert n (watched b c) else watched b c')" for c'
    unfolding b' watched_upd by (auto simp: watched_def)
  have "distinct (map fst (bus_watch b' c'))" for c'
    using bus_wfD(1) [OF assms(1)] new [of c] by (auto simp: b' watched_def)
  moreover have "k < length (bus_chans b') \<and> \<not> ch_closed (bus_chans b' ! k)" if "k \<in> watched b' c'" for k c'
    using that bus_wfD(2,3) [OF assms(1)] n unfolding ws
    by (auto simp: b' nth_append less_Suc_eq split: if_splits)
  moreover have "watched b' c1 \<inter> watched b' c2 = {}" if "c1 \<noteq> c2" for c1 c2
    using that new bus_wfD(4) [OF assms(1)] unfolding ws by (auto split: if_splits)
  moreover have "\<forall>ch \<in> set (bus_chans b'). length (ch_buf ch) \<le> watcherBufSize"
    using assms(1) by (auto simp: b' bus_wf_def)
  ultimately show ?thesis using new ws n by (simp add: bus_wf_def b')
qed

text \<open>Closing some watched channels of one command and dropping their watchers.\<close>

lemma close_loop_spec:
  assumes "distinct ns" "\<forall>n \<in> set ns. n < length cs \<and> \<not> ch_closed (cs ! n)"
  shows "\<exists>cs'. close_loop ns cs = Some cs' \<and> length cs' = length cs \<and>
    (\<forall>n < length cs. cs' ! n = (if n \<in> set ns then (cs ! n)\<lparr>ch_closed := True\<rparr> else cs ! n))"
  using assms
proof (induction ns arbitrary: cs)
  case (Cons n ns)
  let ?cs = "cs[n := (cs ! n)\<lparr>ch_closed := True\<rparr>]"
  have "\<forall>k \<in> set ns. k < length ?cs \<and> \<not> ch_closed (?cs ! k)"
    using Cons.prems by (auto simp: nth_list_update)
  then obtain cs' where "close_loop ns ?cs = Some cs'" "length cs' = length ?cs"
      "\<forall>k < length ?cs. cs' ! k = (if k \<in> set ns then (?cs ! k)\<lparr>ch_closed := True\<rparr> else ?cs ! k)"
    using Cons.IH [of ?cs] Cons.prems(1) by auto
  with Cons.prems show ?case by (auto simp: close_chan_def nth_list_update)
qed auto

lemma drop_watchers_wf:
  assumes "bus_wf b" "length cs = length (bus_chans b)" "set ws \<subseteq> set (bus_watch b c)"
    "distinct (map fst ws)"
    "\<forall>n < length cs. n \<notin> watched b c - fst ` set ws \<longrightarrow> cs ! n = bus_chans b ! n"
    "\<forall>n < length cs. ch_buf (cs ! n) = ch_buf (bus_chans b ! n)"
  shows "bus_wf (b\<lparr>bus_chans := cs, bus_watch := (bus_watch b)(c := ws)\<rparr>)"
proof -
  let ?b = "b\<lparr>bus_chans := cs, bus_watch := (bus_watch b)(c := ws)\<rparr>"
  have sub: "watched ?b c' \<subseteq> watched b c'" for c'
    using assms(3) by (auto simp: watched_def)
  have "k < length cs \<and> \<not> ch_closed (cs ! k)" if k: "k \<in> watched ?b c'" for k c'
  proof -
    have kb: "k \<in> watched b c'" using sub k by blast
    have "k \<notin> watched b c - fst ` set ws"
      using k kb bus_wfD(4) [OF assms(1), of c' c k] by (cases "c' = c") (auto simp: watched_def)
    with assms(5) kb bus_wfD(2,3) [OF assms(1) kb] assms(2) show ?thesis by simp
  qed
  moreover have "distinct (map fst (bus_watch ?b c'))" for c'
    using assms(4) bus_wfD(1) [OF assms(1)] by simp
  moreover have "watched ?b c1 \<inter> watched ?b c2 = {}" if "c1 \<noteq> c2" for c1 c2
    using sub that bus_wfD(4) [OF assms(1) that] by blast
  moreover have "\<forall>ch \<in> set cs. length (ch_buf ch) \<le> watcherBufSize"
    using assms(2,6) bus_wfD(5) [OF assms(1)] by (auto simp: in_set_conv_nth)
  ultimately show ?thesis by (simp add: bus_wf_def)
qed

text \<open>A call that closes the channels of a set and leaves every other channel as it is.\<close>

definition closes :: "nat set \<Rightarrow> 'm bus \<Rightarrow> 'm bus \<Rightarrow> bool" where
  "closes N b b' \<longleftrightarrow> length (bus_chans b') = length (bus_chans b) \<and>
     (\<forall>n < length (bus_chans b). bus_chans b' ! n =
        (if n \<in> N then (bus_chans b ! n)\<lparr>ch_closed := True\<rparr> else bus_chans b ! n))"

lemma unsubscribe_wf:
  assumes "bus_wf b"
  shows "\<exists>b'. unsubscribe c n b = Some b' \<and> bus_wf b' \<and> closes (watched b c \<inter> {n}) b b' \<and>
    (\<forall>c'. watched b' c' = (if c' = c then watched b c - {n} else watched b c'))"
proof (cases "n \<in> watched b c")
  case True
  note o = bus_wfD(2,3) [OF assms True]
  let ?cs = "(bus_chans b)[n := (bus_chans b ! n)\<lparr>ch_closed := True\<rparr>]"
  let ?ws = "filter (\<lambda>w. fst w \<noteq> n) (bus_watch b c)"
  have "bus_wf (b\<lparr>bus_chans := ?cs, bus_watch := (bus_watch b)(c := ?ws)\<rparr>)"
    by (rule drop_watchers_wf [OF assms])
      (use True o bus_wfD(1) [OF assms] in
        \<open>auto simp: nth_list_update watched_def image_iff intro: distinct_map_filter\<close>)
  moreover have "fst ` set ?ws = watched b c - {n}" by (auto simp: watched_def)
  ultimately show ?thesis
    using True o by (auto simp: unsubscribe_def close_chan_def watched_def closes_def)
next
  case False
  then show ?thesis using assms by (auto simp: unsubscribe_def watched_def closes_def)
qed

lemma close_watchers_wf:
  assumes "bus_wf b"
  shows "\<exists>b'. close_watchers c b = Some b' \<and> bus_wf b' \<and> closes (watched b c) b b' \<and>
    (\<forall>c'. watched b' c' = (if c' = c then {} else watched b c'))"
proof -
  have "\<forall>n \<in> set (map fst (bus_watch b c)). n < length (bus_chans b) \<and> \<not> ch_closed (bus_chans b ! n)"
    using bus_wfD(2,3) [OF assms] by (auto simp: watched_def)
  then obtain cs where cs: "close_loop (map fst (bus_watch b c)) (bus_chans b) = Some cs"
      "length cs = length (bus_chans b)"
      "\<forall>n < length (bus_chans b). cs ! n =
        (if n \<in> watched b c then (bus_chans b ! n)\<lparr>ch_closed := True\<rparr> else bus_chans b ! n)"
    using close_loop_spec [OF bus_wfD(1) [OF assms, of c], of "bus_chans b"] by (auto simp: watched_def)
  have "bus_wf (b\<lparr>bus_chans := cs, bus_watch := (bus_watch b)(c := [])\<rparr>)"
    by (rule drop_watchers_wf [OF assms]) (use cs in auto)
  then show ?thesis
    using cs by (simp add: close_watchers_def watched_upd closes_def)
qed

lemma broadcast_wf:
  assumes "bus_wf b"
  shows "\<exists>b'. broadcast c m b = Some b' \<and> bus_wf b' \<and> length (bus_chans b') = length (bus_chans b) \<and>
    (\<forall>c'. watched b' c' = watched b c') \<and>
    (\<forall>n < length (bus_chans b). bus_chans b' ! n =
       (if n \<in> watched b c then deliver m (bus_chans b ! n) else bus_chans b ! n))"
proof -
  have "\<forall>(n, d) \<in> set (bus_watch b c). n < length (bus_chans b) \<and> \<not> ch_closed (bus_chans b ! n)"
    using bus_wfD(2,3) [OF assms] by (force simp: watched_def)
  then obtain ws cs where l: "broadcast_loop m (bus_watch b c) (bus_chans b) = Some (ws, cs)"
      "length cs = length (bus_chans b)" "map fst ws = map fst (bus_watch b c)"
      "\<forall>n < length (bus_chans b). cs ! n =
        (if n \<in> watched b c then deliver m (bus_chans b ! n) else bus_chans b ! n)"
    using broadcast_loop_spec [OF bus_wfD(1) [OF assms, of c], of "bus_chans b" m]
    by (auto simp: watched_def)
  let ?b = "b\<lparr>bus_chans := cs, bus_watch := (bus_watch b)(c := ws)\<rparr>"
  have w: "watched ?b c' = watched b c'" for c'
    using arg_cong [OF l(3), of set] by (auto simp: watched_def)
  have "\<forall>ch \<in> set cs. length (ch_buf ch) \<le> watcherBufSize"
    using l(2,4) bus_wfD(5) [OF assms] by (auto simp: in_set_conv_nth deliver_def)
  moreover have "distinct (map fst (bus_watch ?b c'))" for c'
    using l(3) bus_wfD(1) [OF assms] by (cases "c' = c") simp_all
  moreover have "n < length cs \<and> \<not> ch_closed (cs ! n)" if "n \<in> watched ?b c'" for n c'
    using that l(2,4) bus_wfD(2,3) [OF assms, of n c'] unfolding w by (simp add: deliver_def)
  ultimately have "bus_wf ?b"
    using bus_wfD(4) [OF assms] w unfolding bus_wf_def by auto
  with l w show ?thesis by (simp add: broadcast_def)
qed

lemma receive_wf:
  assumes "bus_wf b" "ch < length (bus_chans b)"
  shows "bus_wf (snd (receive ch b))"
proof (cases "ch_buf (bus_chans b ! ch)")
  case Nil
  with assms show ?thesis by (simp add: receive_def)
next
  case (Cons m ms)
  let ?cs = "(bus_chans b)[ch := (bus_chans b ! ch)\<lparr>ch_buf := ms\<rparr>]"
  have "\<forall>x \<in> set ?cs. length (ch_buf x) \<le> watcherBufSize"
    using assms bus_wfD(5) [OF assms] Cons
    by (auto simp: bus_wf_def dest!: subsetD [OF set_update_subset_insert])
  moreover have "ch_closed (?cs ! n) = ch_closed (bus_chans b ! n)" for n
    using assms(2) by (cases "n = ch") auto
  ultimately show ?thesis
    using assms(1) Cons by (simp add: receive_def bus_wf_def watched_def)
qed

subsection \<open>Logged drops\<close>

text \<open>\<open>n & (n - 1) == 0\<close> holds of the powers of two.\<close>

lemma and_pred_zero_iff: "(0 :: int) < n \<Longrightarrow> n AND (n - 1) = 0 \<longleftrightarrow> (\<exists>k. n = 2 ^ k)"
proof (induction "nat n" arbitrary: n rule: less_induct)
  case less
  show ?case
  proof (cases "even n")
    case True
    then obtain h where h: "n = 2 * h" by blast
    have hpos: "0 < h" using less.prems h by simp
    have "n AND (n - 1) = 2 * (h AND (h - 1))"
    proof -
      have "(2 * h - 1) div 2 = h - 1" by presburger
      then show ?thesis unfolding h by (simp add: and_rec [of "2 * h"])
    qed
    moreover have "h AND (h - 1) = 0 \<longleftrightarrow> (\<exists>k. h = 2 ^ k)"
      using less.hyps [of h] hpos h by simp
    moreover have "(\<exists>k. n = 2 ^ k) \<longleftrightarrow> (\<exists>k. h = 2 ^ k)"
    proof
      assume "\<exists>k. n = 2 ^ k"
      then obtain k where k: "n = 2 ^ k" by blast
      with True obtain j where "k = Suc j" by (cases k) auto
      with k h show "\<exists>k. h = 2 ^ k" by auto
    qed (use h in \<open>metis power_Suc\<close>)
    ultimately show ?thesis by simp
  next
    case False
    then obtain h where h: "n = 2 * h + 1" by (auto elim: oddE)
    have "n AND (n - 1) = 2 * h"
      unfolding h by (simp add: and_rec [of "2 * h + 1"])
    moreover have "(\<exists>k. n = 2 ^ k) \<longleftrightarrow> n = 1"
    proof
      assume "\<exists>k. n = 2 ^ k"
      then obtain k where "n = 2 ^ k" by blast
      with False show "n = 1" by (cases k) auto
    qed (auto intro: exI [of _ 0])
    ultimately show ?thesis using h by auto
  qed
qed

section \<open>The current command of an agent\<close>

type_synonym tracker = "int \<Rightarrow> string option"

definition tracker_set :: "int \<Rightarrow> string \<Rightarrow> tracker \<Rightarrow> tracker" where
  "tracker_set agentID commandID t = t(agentID \<mapsto> commandID)"

definition tracker_clear :: "int \<Rightarrow> string \<Rightarrow> tracker \<Rightarrow> tracker" where
  "tracker_clear agentID commandID t =
     (if (case t agentID of None \<Rightarrow> [] | Some c \<Rightarrow> c) = commandID then t(agentID := None) else t)"

definition tracker_get :: "int \<Rightarrow> tracker \<Rightarrow> string" where
  "tracker_get agentID t = (case t agentID of None \<Rightarrow> [] | Some c \<Rightarrow> c)"

section \<open>Pending replies\<close>

text \<open>One-slot reply channels in a heap; \<open>pr_map\<close> from request ids to channels.\<close>

record 'm pending =
  pr_slots :: "'m option list"
  pr_map :: "string \<Rightarrow> nat option"

definition newPendingReplies :: "'m pending" where
  "newPendingReplies = \<lparr>pr_slots = [], pr_map = Map.empty\<rparr>"

definition pr_register :: "string \<Rightarrow> 'm pending \<Rightarrow> nat \<times> 'm pending" where
  "pr_register requestID p =
     (let n = length (pr_slots p) in
      (n, p\<lparr>pr_slots := pr_slots p @ [None], pr_map := (pr_map p)(requestID \<mapsto> n)\<rparr>))"

definition pr_cancel :: "string \<Rightarrow> 'm pending \<Rightarrow> 'm pending" where
  "pr_cancel requestID p = p\<lparr>pr_map := (pr_map p)(requestID := None)\<rparr>"

definition pr_complete :: "string \<Rightarrow> 'm \<Rightarrow> 'm pending \<Rightarrow> 'm pending" where
  "pr_complete requestID msg p =
     (case pr_map p requestID of
        None \<Rightarrow> p
      | Some n \<Rightarrow>
          (let p1 = p\<lparr>pr_map := (pr_map p)(requestID := None)\<rparr> in
           case pr_slots p ! n of
             None \<Rightarrow> p1\<lparr>pr_slots := (pr_slots p)[n := Some msg]\<rparr>
           | Some _ \<Rightarrow> p1))"

text \<open>Registered slots exist, are still empty and are registered under one id.\<close>

definition pending_wf :: "'m pending \<Rightarrow> bool" where
  "pending_wf p \<longleftrightarrow>
     (\<forall>r n. pr_map p r = Some n \<longrightarrow> n < length (pr_slots p) \<and> pr_slots p ! n = None) \<and>
     (\<forall>r r' n. pr_map p r = Some n \<longrightarrow> pr_map p r' = Some n \<longrightarrow> r = r')"

lemma pr_register_wf: "pending_wf p \<Longrightarrow> pending_wf (snd (pr_register r p))"
  by (fastforce simp: pending_wf_def pr_register_def Let_def nth_append split: if_splits)

lemma pr_cancel_wf: "pending_wf p \<Longrightarrow> pending_wf (pr_cancel r p)"
  by (auto simp: pending_wf_def pr_cancel_def)

lemma pr_complete_wf: "pending_wf p \<Longrightarrow> pending_wf (pr_complete r m p)"
  unfolding pr_complete_def
  by (cases "pr_map p r") (auto simp: pending_wf_def Let_def nth_list_update)

section \<open>Sessions\<close>

text \<open>
  A session is a heap cell; \<open>se_send\<close> tells whether its atomic send pointer is set. One
  registry of the model is the machine half or the provisioner half of \<open>sessionRegistry\<close>: the
  two have the same operations. The map of reported upgrades that \<open>RegisterMachine\<close> clears as well is left out;
  a stream that fails while it is written to is not told apart from one that takes the message.
\<close>

record session =
  se_owner :: int
  se_resource :: string
  se_send :: bool
  se_lastPing :: int
  se_connectedAt :: int

record registry =
  rg_heap :: "session list"
  rg_live :: "(int \<times> nat) list"

definition newRegistry :: registry where
  "newRegistry = \<lparr>rg_heap = [], rg_live = []\<rparr>"

definition set_session :: "nat \<Rightarrow> (session \<Rightarrow> session) \<Rightarrow> registry \<Rightarrow> registry" where
  "set_session p f r = r\<lparr>rg_heap := (rg_heap r)[p := f (rg_heap r ! p)]\<rparr>"

definition invalidate :: "nat \<Rightarrow> registry \<Rightarrow> registry" where
  "invalidate p = set_session p (\<lambda>s. s\<lparr>se_send := False\<rparr>)"

definition getMachine :: "int \<Rightarrow> registry \<Rightarrow> nat option" where
  "getMachine machineID r = map_of (rg_live r) machineID"

definition IsMachineConnected :: "int \<Rightarrow> registry \<Rightarrow> bool" where
  "IsMachineConnected machineID r \<longleftrightarrow> getMachine machineID r \<noteq> None"

definition RegisterMachine :: "int \<Rightarrow> string \<Rightarrow> int \<Rightarrow> registry \<Rightarrow> nat \<times> registry" where
  "RegisterMachine machineID resourceID now r =
     (let r1 = (case getMachine machineID r of None \<Rightarrow> r | Some old \<Rightarrow> invalidate old r);
          p = length (rg_heap r1)
      in (p, r1\<lparr>rg_heap := rg_heap r1 @
                  [\<lparr>se_owner = machineID, se_resource = resourceID, se_send = True,
                    se_lastPing = now, se_connectedAt = now\<rparr>],
                rg_live := AList.update machineID p (rg_live r1)\<rparr>))"

definition deleteMachine :: "int \<Rightarrow> registry \<Rightarrow> nat option \<times> registry" where
  "deleteMachine machineID r =
     (getMachine machineID r, r\<lparr>rg_live := AList.delete machineID (rg_live r)\<rparr>)"

definition deleteMachineIf :: "int \<Rightarrow> nat \<Rightarrow> registry \<Rightarrow> bool \<times> registry" where
  "deleteMachineIf machineID sess r =
     (if getMachine machineID r \<noteq> Some sess then (False, r)
      else (True, r\<lparr>rg_live := AList.delete machineID (rg_live r)\<rparr>))"

definition teardownMachineSession :: "nat \<Rightarrow> registry \<Rightarrow> registry" where
  "teardownMachineSession = invalidate"

text \<open>Between the look-up or deletion, under the lock, and what follows, the other goroutines may run.\<close>

definition UnregisterMachine :: "(registry \<Rightarrow> registry) \<Rightarrow> int \<Rightarrow> registry \<Rightarrow> registry" where
  "UnregisterMachine others machineID r =
     (case deleteMachine machineID r of
        (None, r1) \<Rightarrow> r1
      | (Some sess, r1) \<Rightarrow> teardownMachineSession sess (others r1))"

definition UnregisterMachineIf :: "(registry \<Rightarrow> registry) \<Rightarrow> int \<Rightarrow> nat \<Rightarrow> registry \<Rightarrow> registry" where
  "UnregisterMachineIf others machineID sess r =
     (case deleteMachineIf machineID sess r of
        (False, r1) \<Rightarrow> r1
      | (True, r1) \<Rightarrow> teardownMachineSession sess (others r1))"

definition record_ping :: "int \<Rightarrow> nat \<Rightarrow> registry \<Rightarrow> registry" where
  "record_ping now p = set_session p (\<lambda>s. s\<lparr>se_lastPing := now\<rparr>)"

definition HandleMachinePing :: "(registry \<Rightarrow> registry) \<Rightarrow> int \<Rightarrow> int \<Rightarrow> registry \<Rightarrow> registry" where
  "HandleMachinePing others machineID now r =
     (case getMachine machineID r of None \<Rightarrow> r | Some p \<Rightarrow> record_ping now p (others r))"

text \<open>\<open>sendToMachine\<close>: the session whose stream the message is written to, or the error.\<close>

datatype send_error = NotConnected | Invalidated

definition Send :: "nat \<Rightarrow> registry \<Rightarrow> (send_error, nat) result" where
  "Send p r = (if se_send (rg_heap r ! p) then Inr p else Inl Invalidated)"

definition sendToMachine :: "(registry \<Rightarrow> registry) \<Rightarrow> int \<Rightarrow> registry \<Rightarrow> (send_error, nat) result" where
  "sendToMachine others machineID r =
     (case getMachine machineID r of None \<Rightarrow> Inl NotConnected | Some p \<Rightarrow> Send p (others r))"

definition pingTimeout :: int where "pingTimeout = 45 * 1000000000"

text \<open>\<open>checkSessionLiveness\<close> on one half of the registry: a snapshot, then one check per session.\<close>

definition check_session :: "(registry \<Rightarrow> registry) \<Rightarrow> int \<Rightarrow> registry \<Rightarrow> nat \<Rightarrow> registry" where
  "check_session others now r p =
     (let s = rg_heap r ! p in
      if \<not> se_send s then r
      else if now - se_lastPing s > pingTimeout then UnregisterMachineIf others (se_owner s) p r
      else r)"

definition checkSessionLiveness :: "(registry \<Rightarrow> registry) \<Rightarrow> int \<Rightarrow> registry \<Rightarrow> registry" where
  "checkSessionLiveness others now r = foldl (\<lambda>r p. check_session others now (others r) p) r (map snd (rg_live r))"

text \<open>
  \<open>T\<close>: the sessions that have left the map and are not torn down yet. A registered session can be written to; one that can be
  written to is registered or being torn down.
\<close>

definition registry_inv :: "nat set \<Rightarrow> registry \<Rightarrow> bool" where
  "registry_inv T r \<longleftrightarrow>
     distinct (map fst (rg_live r)) \<and>
     (\<forall>m p. getMachine m r = Some p \<longrightarrow>
        p < length (rg_heap r) \<and> se_owner (rg_heap r ! p) = m \<and> se_send (rg_heap r ! p) \<and> p \<notin> T) \<and>
     (\<forall>p < length (rg_heap r).
        se_send (rg_heap r ! p) \<longrightarrow> getMachine (se_owner (rg_heap r ! p)) r = Some p \<or> p \<in> T)"

definition registry_wf :: "registry \<Rightarrow> bool" where
  "registry_wf = registry_inv {}"

lemma registry_invD:
  assumes "registry_inv T r"
  shows "getMachine m r = Some p \<Longrightarrow> p < length (rg_heap r)"
    and "getMachine m r = Some p \<Longrightarrow> se_owner (rg_heap r ! p) = m"
    and "getMachine m r = Some p \<Longrightarrow> se_send (rg_heap r ! p)"
    and "getMachine m r = Some p \<Longrightarrow> p \<notin> T"
    and "p < length (rg_heap r) \<Longrightarrow> se_send (rg_heap r ! p) \<Longrightarrow> p \<notin> T \<Longrightarrow> getMachine (se_owner (rg_heap r ! p)) r = Some p"
    and "distinct (map fst (rg_live r))"
  using assms unfolding registry_inv_def by blast+

lemmas registry_wfD = registry_invD [where T = "{}", folded registry_wf_def]

lemma live_iff:
  assumes "registry_wf r"
  shows "p \<in> set (map snd (rg_live r)) \<longleftrightarrow> (\<exists>m. getMachine m r = Some p)"
proof -
  have "distinct (map fst (rg_live r))" by (rule registry_wfD(6) [OF assms])
  then have "getMachine m r = Some p \<longleftrightarrow> (m, p) \<in> set (rg_live r)" for m
    unfolding getMachine_def by (rule map_of_eq_Some_iff)
  then show ?thesis by force
qed

lemma invalidate_heap:
  "rg_heap (invalidate p r) = (rg_heap r)[p := (rg_heap r ! p)\<lparr>se_send := False\<rparr>]"
  "rg_live (invalidate p r) = rg_live r" "getMachine m (invalidate p r) = getMachine m r"
  by (simp_all add: invalidate_def set_session_def getMachine_def)

lemma teardown_registered [simp]: "getMachine m (teardownMachineSession p r) = getMachine m r"
  by (simp add: teardownMachineSession_def invalidate_heap)

text \<open>The locked parts, one by one.\<close>

lemma delete_inv:
  assumes "registry_inv T r" "getMachine m r = Some p"
  shows "registry_inv (insert p T) (r\<lparr>rg_live := AList.delete m (rg_live r)\<rparr>)"
    and "getMachine m' (r\<lparr>rg_live := AList.delete m (rg_live r)\<rparr>) = (if m' = m then None else getMachine m' r)"
proof -
  let ?r = "r\<lparr>rg_live := AList.delete m (rg_live r)\<rparr>"
  show g: "getMachine m' ?r = (if m' = m then None else getMachine m' r)" for m'
    by (simp add: getMachine_def delete_conv')
  note i = registry_invD [OF assms(1)]
  have "q \<noteq> p" if "getMachine m' r = Some q" "m' \<noteq> m" for m' q using i(2) [OF that(1)] i(2) [OF assms(2)] that(2) by blast
  moreover have "se_owner (rg_heap r ! q) = m \<Longrightarrow> q = p" if "q < length (rg_heap r)" "se_send (rg_heap r ! q)" "q \<notin> T" for q
    using i(5) [OF that] assms(2) by simp
  ultimately show "registry_inv (insert p T) ?r"
    using i unfolding registry_inv_def g by (auto simp: distinct_delete split: if_splits)
qed

lemma teardown_inv:
  assumes "registry_inv T r" "p \<in> T" "T' \<subseteq> T" "T - {p} \<subseteq> T'"
  shows "registry_inv T' (teardownMachineSession p r)"
proof -
  note i = registry_invD [OF assms(1)]
  have "q \<noteq> p" if "getMachine m r = Some q" for m q using i(4) [OF that] assms(2) by blast
  moreover have h: "rg_heap (invalidate p r) ! q = rg_heap r ! q" if "q \<noteq> p" for q using that by (simp add: invalidate_heap)
  moreover have "\<not> se_send (rg_heap (invalidate p r) ! p)" if "p < length (rg_heap r)" using that by (simp add: invalidate_heap)
  moreover have "length (rg_heap (invalidate p r)) = length (rg_heap r)" by (simp add: invalidate_heap)
  moreover have "se_send (rg_heap (invalidate p r) ! q) \<longrightarrow> getMachine (se_owner (rg_heap (invalidate p r) ! q)) r = Some q \<or> q \<in> T'"
    if "q < length (rg_heap r)" for q
    using that i(5) [OF that] h assms(4) calculation(3) by (cases "q = p") auto
  ultimately show "registry_inv T' (teardownMachineSession p r)"
    using i assms(3) unfolding registry_inv_def teardownMachineSession_def invalidate_heap(2,3) by (metis subsetD)
qed

lemma ping_inv:
  assumes "registry_inv T r"
  shows "registry_inv T (record_ping now p r)" "getMachine m (record_ping now p r) = getMachine m r"
    "length (rg_heap (record_ping now p r)) = length (rg_heap r)"
    "p < length (rg_heap r) \<Longrightarrow> se_lastPing (rg_heap (record_ping now p r) ! p) = now"
proof -
  have g: "getMachine m (record_ping now p r) = getMachine m r" for m by (simp add: record_ping_def set_session_def getMachine_def)
  have h: "se_owner (rg_heap (record_ping now p r) ! q) = se_owner (rg_heap r ! q)"
    "se_send (rg_heap (record_ping now p r) ! q) = se_send (rg_heap r ! q)" for q
    by (cases "p < length (rg_heap r)"; cases "q = p"; simp add: record_ping_def set_session_def list_update_beyond)+
  have l: "length (rg_heap (record_ping now p r)) = length (rg_heap r)" "rg_live (record_ping now p r) = rg_live r"
    by (simp_all add: record_ping_def set_session_def)
  show "registry_inv T (record_ping now p r)" using assms unfolding registry_inv_def g h l .
  show "getMachine m (record_ping now p r) = getMachine m r" "length (rg_heap (record_ping now p r)) = length (rg_heap r)" by (fact g l)+
  show "p < length (rg_heap r) \<Longrightarrow> se_lastPing (rg_heap (record_ping now p r) ! p) = now" by (simp add: record_ping_def set_session_def)
qed

lemma RegisterMachine_inv:
  assumes "registry_inv T r" "\<forall>p \<in> T. p < length (rg_heap r)" "RegisterMachine m res now r = (p, r')"
  shows "registry_inv T r' \<and> p = length (rg_heap r) \<and> length (rg_heap r') = Suc p \<and>
    getMachine m' r' = (if m' = m then Some p else getMachine m' r) \<and>
    (\<forall>old. getMachine m r = Some old \<longrightarrow> \<not> se_send (rg_heap r' ! old) \<and> old \<noteq> p)"
proof -
  define r1 where "r1 = (case getMachine m r of None \<Rightarrow> r | Some old \<Rightarrow> invalidate old r)"
  note i = registry_invD [OF assms(1)]
  have live: "rg_live r1 = rg_live r" and len: "length (rg_heap r1) = length (rg_heap r)"
    by (simp_all add: r1_def invalidate_heap split: option.splits)
  have h1: "rg_heap r1 ! q = (if getMachine m r = Some q then (rg_heap r ! q)\<lparr>se_send := False\<rparr>
      else rg_heap r ! q)" if "q < length (rg_heap r)" for q
    using that by (auto simp: r1_def invalidate_heap nth_list_update split: option.splits)
  let ?new = "\<lparr>se_owner = m, se_resource = res, se_send = True, se_lastPing = now, se_connectedAt = now\<rparr>"
  have p: "p = length (rg_heap r)" and r': "rg_heap r' = rg_heap r1 @ [?new]"
      "rg_live r' = AList.update m p (rg_live r)"
    using assms(3) live len by (auto simp: RegisterMachine_def Let_def r1_def)
  have g: "getMachine m' r' = (if m' = m then Some p else getMachine m' r)" for m'
    by (simp add: getMachine_def r'(2) update_conv')
  have h: "rg_heap r' ! q = (if q = p then ?new else if getMachine m r = Some q
      then (rg_heap r ! q)\<lparr>se_send := False\<rparr> else rg_heap r ! q)" if "q \<le> p" for q
    using that h1 [of q] p len by (auto simp: r'(1) nth_append)
  have l: "length (rg_heap r') = Suc p" using len p by (simp add: r'(1))
  have "distinct (map fst (rg_live r'))" using i(6) by (simp add: r'(2) distinct_update)
  moreover have "q < length (rg_heap r') \<and> se_owner (rg_heap r' ! q) = x \<and> se_send (rg_heap r' ! q) \<and> q \<notin> T"
    if q: "getMachine x r' = Some q" for x q
  proof (cases "x = m")
    case True
    then show ?thesis using q h [of p] l assms(2) p by (auto simp: g)
  next
    case False
    then have "getMachine x r = Some q" using q by (simp add: g)
    note o = i(1-4) [OF this]
    moreover have "getMachine m r \<noteq> Some q" using i(2) [of m q] o(2) False by blast
    ultimately show ?thesis using h [of q] l p by simp
  qed
  moreover have "getMachine (se_owner (rg_heap r' ! q)) r' = Some q \<or> q \<in> T"
    if "q < length (rg_heap r')" "se_send (rg_heap r' ! q)" for q
  proof (cases "q = p")
    case True
    then show ?thesis using h [of q] by (simp add: g)
  next
    case False
    then have q: "q < length (rg_heap r)" "getMachine m r \<noteq> Some q" "rg_heap r' ! q = rg_heap r ! q"
      using that h [of q] l p by (auto split: if_splits)
    then have "getMachine (se_owner (rg_heap r ! q)) r = Some q \<or> q \<in> T" using that(2) i(5) by auto
    then show ?thesis using q by (auto simp: g)
  qed
  ultimately have "registry_inv T r'" unfolding registry_inv_def by blast
  moreover have "\<not> se_send (rg_heap r' ! old) \<and> old \<noteq> p" if "getMachine m r = Some old" for old
    using that h [of old] i(1) [OF that] p by simp
  ultimately show ?thesis using g p l by simp
qed

subsection \<open>An operation that no other interrupts\<close>

definition alone :: "registry \<Rightarrow> registry" where "alone r = r"

lemma UnregisterMachineIf_wf:
  assumes "registry_wf r"
  shows "registry_wf (UnregisterMachineIf alone m p r) \<and>
    getMachine m' (UnregisterMachineIf alone m p r) =
      (if m' = m \<and> getMachine m r = Some p then None else getMachine m' r)"
proof (cases "getMachine m r = Some p")
  case True
  note d = delete_inv [OF assms [unfolded registry_wf_def] True]
  have "registry_wf (teardownMachineSession p (r\<lparr>rg_live := AList.delete m (rg_live r)\<rparr>))"
    unfolding registry_wf_def by (rule teardown_inv [OF d(1)]) simp_all
  then show ?thesis using True d(2) by (simp add: UnregisterMachineIf_def deleteMachineIf_def alone_def)
qed (use assms in \<open>simp add: UnregisterMachineIf_def deleteMachineIf_def\<close>)

definition stale :: "int \<Rightarrow> registry \<Rightarrow> nat \<Rightarrow> bool" where
  "stale now r p \<longleftrightarrow> now - se_lastPing (rg_heap r ! p) > pingTimeout"

lemma UnregisterMachineIf_heap:
  "length (rg_heap (UnregisterMachineIf alone m p r)) = length (rg_heap r)"
  "se_lastPing (rg_heap (UnregisterMachineIf alone m p r) ! q) = se_lastPing (rg_heap r ! q)"
proof -
  have "f (xs[p := g (xs ! p)] ! q) = f (xs ! q)" if "\<And>x. f (g x) = f x"
    for f :: "session \<Rightarrow> int" and g and xs
    using that by (cases "p < length xs"; cases "q = p") (auto simp: list_update_beyond)
  then show "se_lastPing (rg_heap (UnregisterMachineIf alone m p r) ! q) = se_lastPing (rg_heap r ! q)"
    by (cases "getMachine m r = Some p")
      (simp_all add: UnregisterMachineIf_def deleteMachineIf_def teardownMachineSession_def invalidate_heap alone_def)
  show "length (rg_heap (UnregisterMachineIf alone m p r)) = length (rg_heap r)"
    by (cases "getMachine m r = Some p")
      (simp_all add: UnregisterMachineIf_def deleteMachineIf_def teardownMachineSession_def invalidate_heap alone_def)
qed

lemma check_session_spec:
  assumes "registry_wf r" "p < length (rg_heap r)"
  shows "registry_wf (check_session alone now r p) \<and>
    length (rg_heap (check_session alone now r p)) = length (rg_heap r) \<and>
    (\<forall>q. se_lastPing (rg_heap (check_session alone now r p) ! q) = se_lastPing (rg_heap r ! q)) \<and>
    getMachine m (check_session alone now r p) =
      (if getMachine m r = Some p \<and> stale now r p then None else getMachine m r)"
proof (cases "se_send (rg_heap r ! p) \<and> stale now r p")
  case True
  let ?o = "se_owner (rg_heap r ! p)"
  have "check_session alone now r p = UnregisterMachineIf alone ?o p r"
    using True by (simp add: check_session_def stale_def Let_def)
  moreover have "getMachine ?o r = Some p" using registry_wfD(5) [OF assms] True by simp
  moreover have "getMachine m r = Some p \<longleftrightarrow> m = ?o"
    using registry_wfD(2) [OF assms(1)] calculation(2) by blast
  ultimately show ?thesis
    using True UnregisterMachineIf_wf [OF assms(1), of ?o p m]
    by (simp add: UnregisterMachineIf_heap)
next
  case False
  then have "check_session alone now r p = r" by (auto simp: check_session_def stale_def Let_def)
  moreover have "\<not> (getMachine m r = Some p \<and> stale now r p)"
    using False registry_wfD(3) [OF assms(1)] by blast
  ultimately show ?thesis using assms(1) by auto
qed

lemma liveness_loop:
  assumes "registry_wf r" "\<forall>p \<in> set ps. p < length (rg_heap r)"
  shows "registry_wf (foldl (check_session alone now) r ps) \<and>
    getMachine m (foldl (check_session alone now) r ps) =
      (case getMachine m r of
         None \<Rightarrow> None
       | Some p \<Rightarrow> if p \<in> set ps \<and> stale now r p then None else Some p)"
  using assms
proof (induction ps arbitrary: r)
  case (Cons p ps)
  have p: "p < length (rg_heap r)" using Cons.prems(2) by simp
  note c = check_session_spec [OF Cons.prems(1) p, of now]
  have st: "stale now (check_session alone now r p) q = stale now r q" for q
    using c by (simp add: stale_def)
  have "\<forall>q \<in> set ps. q < length (rg_heap (check_session alone now r p))" using Cons.prems(2) c by simp
  with Cons.IH [of "check_session alone now r p"] c
  have ih: "registry_wf (foldl (check_session alone now) (check_session alone now r p) ps)"
    "getMachine m (foldl (check_session alone now) (check_session alone now r p) ps) =
      (case getMachine m (check_session alone now r p) of None \<Rightarrow> None
       | Some q \<Rightarrow> if q \<in> set ps \<and> stale now r q then None else Some q)"
    unfolding st by simp_all
  moreover have "getMachine m (check_session alone now r p) =
      (if getMachine m r = Some p \<and> stale now r p then None else getMachine m r)"
    using c by blast
  ultimately show ?case by (auto split: option.splits)
qed (auto split: option.splits)

lemma checkSessionLiveness_ok:
  assumes "registry_wf r"
  shows "registry_wf (checkSessionLiveness alone now r) \<and>
    getMachine m (checkSessionLiveness alone now r) =
      (case getMachine m r of None \<Rightarrow> None | Some p \<Rightarrow> if stale now r p then None else Some p)"
proof -
  have "\<forall>p \<in> set (map snd (rg_live r)). p < length (rg_heap r)"
    using live_iff [OF assms] registry_wfD(1) [OF assms] by blast
  from liveness_loop [OF assms this, of now m]
  show ?thesis
    using live_iff [OF assms] by (auto simp: checkSessionLiveness_def alone_def split: option.splits)
qed

section \<open>The sessions as a system of steps\<close>

text \<open>
  The steps are the parts that run under one lock or write one atomic pointer. \<open>ss_ending\<close>: the sessions taken out of the map
  whose teardown has not run yet; \<open>ss_found\<close>: the sessions that some sender or ping handler has looked up.
\<close>

record sessions =
  ss_reg :: registry
  ss_ending :: "nat list"
  ss_found :: "nat set"

inductive session_step :: "sessions \<Rightarrow> sessions \<Rightarrow> bool" where
  register: "RegisterMachine m res now (ss_reg y) = (p, r) \<Longrightarrow> session_step y (y\<lparr>ss_reg := r\<rparr>)"
| unregister: "deleteMachine m (ss_reg y) = (Some p, r) \<Longrightarrow> session_step y (y\<lparr>ss_reg := r, ss_ending := p # ss_ending y\<rparr>)"
| unregister_if: "deleteMachineIf m p (ss_reg y) = (True, r) \<Longrightarrow> session_step y (y\<lparr>ss_reg := r, ss_ending := p # ss_ending y\<rparr>)"
| teardown: "p \<in> set (ss_ending y) \<Longrightarrow>
    session_step y (y\<lparr>ss_reg := teardownMachineSession p (ss_reg y), ss_ending := remove1 p (ss_ending y)\<rparr>)"
| look_up: "getMachine m (ss_reg y) = Some p \<Longrightarrow> session_step y (y\<lparr>ss_found := insert p (ss_found y)\<rparr>)"
| ping: "p \<in> ss_found y \<Longrightarrow> session_step y (y\<lparr>ss_reg := record_ping now p (ss_reg y)\<rparr>)"

abbreviation session_steps :: "sessions \<Rightarrow> sessions \<Rightarrow> bool" where
  "session_steps \<equiv> session_step\<^sup>*\<^sup>*"

definition no_sessions :: sessions where
  "no_sessions = \<lparr>ss_reg = newRegistry, ss_ending = [], ss_found = {}\<rparr>"

definition sessions_inv :: "sessions \<Rightarrow> bool" where
  "sessions_inv y \<longleftrightarrow> registry_inv (set (ss_ending y)) (ss_reg y) \<and> (\<forall>p \<in> set (ss_ending y). p < length (rg_heap (ss_reg y)))"

lemma session_step_inv: "session_step y z \<Longrightarrow> sessions_inv y \<Longrightarrow> sessions_inv z"
proof (induction rule: session_step.induct)
  case (register m res now y p r)
  then show ?case using RegisterMachine_inv [of "set (ss_ending y)" "ss_reg y" m res now p r] by (fastforce simp: sessions_inv_def)
next
  case (unregister m y p r)
  then have "getMachine m (ss_reg y) = Some p" "r = (ss_reg y)\<lparr>rg_live := AList.delete m (rg_live (ss_reg y))\<rparr>"
    by (simp_all add: deleteMachine_def)
  with unregister.prems show ?case using delete_inv(1) registry_invD(1) by (auto simp: sessions_inv_def)
next
  case (unregister_if m p y r)
  then have "getMachine m (ss_reg y) = Some p" "r = (ss_reg y)\<lparr>rg_live := AList.delete m (rg_live (ss_reg y))\<rparr>"
    by (auto simp: deleteMachineIf_def split: if_splits)
  with unregister_if.prems show ?case using delete_inv(1) registry_invD(1) by (auto simp: sessions_inv_def)
next
  case (teardown p y)
  have "registry_inv (set (remove1 p (ss_ending y))) (teardownMachineSession p (ss_reg y))"
    by (rule teardown_inv [OF conjunct1 [OF teardown.prems [unfolded sessions_inv_def]] teardown.hyps])
      (auto simp: set_remove1_subset dest: in_set_remove1)
  with teardown show ?case
    by (auto simp: sessions_inv_def teardownMachineSession_def invalidate_heap dest: subsetD [OF set_remove1_subset])
next
  case (ping p y now)
  then show ?case using ping_inv(1,3) [of "set (ss_ending y)" "ss_reg y" now p] by (simp add: sessions_inv_def)
qed (simp add: sessions_inv_def)

lemma sessions_reach_inv: "session_steps no_sessions y \<Longrightarrow> sessions_inv y"
proof (induction rule: rtranclp_induct)
  case base
  show ?case by (simp add: sessions_inv_def registry_inv_def no_sessions_def newRegistry_def getMachine_def)
qed (rule session_step_inv)

section \<open>The reaper of stale commands\<close>

record machine_status =
  ms_online :: bool
  ms_lastHeartbeatAt :: int

record machine_row =
  mr_Deleted :: bool
  mr_Status :: "machine_status option"

definition reaperGraceSeconds :: int where "reaperGraceSeconds = 600"

definition machineUnreachableReapReason :: string where
  "machineUnreachableReapReason = ''machine unreachable; command reaped after the disconnect grace''"

text \<open>The pure judgment over a loaded row; \<open>now\<close> in seconds.\<close>

definition machineLost_row :: "int \<Rightarrow> machine_row option \<Rightarrow> bool" where
  "machineLost_row now machine =
     (case machine of
        None \<Rightarrow> True
      | Some m \<Rightarrow>
          if mr_Deleted m then True
          else
            (case mr_Status m of
               None \<Rightarrow> True
             | Some st \<Rightarrow> \<not> ms_online st \<or> now - ms_lastHeartbeatAt st \<ge> reaperGraceSeconds))"

text \<open>\<open>getMachineRow\<close> is \<open>store.GetMachine\<close>, \<open>None\<close> its error.\<close>

definition machineLost ::
  "(int \<Rightarrow> machine_row option option) \<Rightarrow> registry \<Rightarrow> int \<Rightarrow> int \<Rightarrow> bool" where
  "machineLost getMachineRow r machineID now =
     (if machineID = 0 then False
      else if IsMachineConnected machineID r then False
      else
        (case getMachineRow machineID of
           None \<Rightarrow> False
         | Some row \<Rightarrow> machineLost_row now row))"

record ('o, 'e) command_bus =
  cb_output :: "'o bus"
  cb_event :: "'e bus"

definition close_command :: "string \<Rightarrow> ('o, 'e) command_bus \<Rightarrow> ('o, 'e) command_bus option" where
  "close_command commandID b =
     (case close_watchers commandID (cb_output b) of
        None \<Rightarrow> None
      | Some ob \<Rightarrow>
          (case close_watchers commandID (cb_event b) of
             None \<Rightarrow> None
           | Some eb \<Rightarrow> Some \<lparr>cb_output = ob, cb_event = eb\<rparr>))"

definition reap_one ::
  "uuid_env \<Rightarrow> (string \<Rightarrow> bool) \<Rightarrow> int \<Rightarrow> command_db \<times> ('o, 'e) command_bus \<Rightarrow> command_message \<Rightarrow>
     command_db \<times> ('o, 'e) command_bus" where
  "reap_one uenv fails now st cmd =
     (case st of (db, b) \<Rightarrow>
        (case ReapRunningCommand fails (cm_ID cmd) now machineUnreachableReapReason
                CommandFailureKindMachineUnreachable db of
           (Inl _, db1) \<Rightarrow> (db1, b)
         | (Inr False, db1) \<Rightarrow> (db1, b)
         | (Inr True, db1) \<Rightarrow>
             (case close_command (uuid_String uenv (cm_ID cmd)) b of
                None \<Rightarrow> (db1, b)
              | Some b1 \<Rightarrow> (db1, b1))))"

definition running_filter :: find_command where
  "running_filter = \<lparr>fc_AgentID = None, fc_Status = Some CommandStatusRunning, fc_Limit = None,
     fc_Offset = None\<rparr>"

definition sweepStaleCommands ::
  "uuid_env \<Rightarrow> (string \<Rightarrow> bool) \<Rightarrow> (int \<Rightarrow> machine_row option option) \<Rightarrow> registry \<Rightarrow> int \<Rightarrow>
     command_db \<times> ('o, 'e) command_bus \<Rightarrow> command_db \<times> ('o, 'e) command_bus" where
  "sweepStaleCommands uenv fails getMachineRow r now st =
     (case ListCommands fails running_filter (fst st) of
        Inl _ \<Rightarrow> st
      | Inr cmds \<Rightarrow>
          foldl (\<lambda>st machineID.
              if machineLost getMachineRow r machineID now
              then foldl (reap_one uenv fails now) st (filter (\<lambda>c. cm_MachineID c = machineID) cmds)
              else st)
            st (remdups (map cm_MachineID cmds)))"

section \<open>Properties\<close>

text \<open>C37: The live streams of commands never panic: on a well-formed bus every operation
  succeeds and keeps it well formed. A subscription appends a fresh open channel and adds it to the watchers of its command; a broadcast
  appends its message to every watcher of that command whose buffer has room; unsubscribing closes the named channel if it
  watches the command, and closing the command closes its watchers, which leave the command. Each of them leaves every other
  channel, and the watchers of every other command, as they were.\<close>

theorem bus_never_panics:
  assumes "bus_wf b"
  shows "(\<forall>n b'. subscribe c b = (n, b') \<longrightarrow> bus_wf b' \<and> n = length (bus_chans b) \<and>
      bus_chans b' = bus_chans b @ [\<lparr>ch_buf = [], ch_closed = False\<rparr>] \<and>
      (\<forall>c'. n \<notin> watched b c' \<and> watched b' c' = (if c' = c then insert n (watched b c) else watched b c'))) \<and>
    (\<exists>b'. unsubscribe c ch b = Some b' \<and> bus_wf b' \<and> closes (watched b c \<inter> {ch}) b b' \<and>
      (\<forall>c'. watched b' c' = (if c' = c then watched b c - {ch} else watched b c'))) \<and>
    (\<exists>b'. close_watchers c b = Some b' \<and> bus_wf b' \<and> closes (watched b c) b b' \<and>
      (\<forall>c'. watched b' c' = (if c' = c then {} else watched b c'))) \<and>
    (\<exists>b'. broadcast c m b = Some b' \<and> bus_wf b' \<and> (\<forall>c'. watched b' c' = watched b c') \<and>
      length (bus_chans b') = length (bus_chans b) \<and>
      (\<forall>n < length (bus_chans b). bus_chans b' ! n =
         (if n \<in> watched b c \<and> length (ch_buf (bus_chans b ! n)) < watcherBufSize
          then (bus_chans b ! n)\<lparr>ch_buf := ch_buf (bus_chans b ! n) @ [m]\<rparr> else bus_chans b ! n))) \<and>
    (ch < length (bus_chans b) \<longrightarrow> bus_wf (snd (receive ch b)))"
proof -
  obtain b' where b': "broadcast c m b = Some b'" "bus_wf b'" "\<forall>c'. watched b' c' = watched b c'"
      "length (bus_chans b') = length (bus_chans b)"
      "\<forall>n < length (bus_chans b). bus_chans b' ! n =
         (if n \<in> watched b c then deliver m (bus_chans b ! n) else bus_chans b ! n)"
    using broadcast_wf [OF assms] by blast
  from b'(5) have "\<forall>n < length (bus_chans b). bus_chans b' ! n =
         (if n \<in> watched b c \<and> length (ch_buf (bus_chans b ! n)) < watcherBufSize
          then (bus_chans b ! n)\<lparr>ch_buf := ch_buf (bus_chans b ! n) @ [m]\<rparr> else bus_chans b ! n)"
    by (simp add: deliver_def)
  with b' have bc: "\<exists>b'. broadcast c m b = Some b' \<and> bus_wf b' \<and> (\<forall>c'. watched b' c' = watched b c') \<and>
      length (bus_chans b') = length (bus_chans b) \<and>
      (\<forall>n < length (bus_chans b). bus_chans b' ! n =
         (if n \<in> watched b c \<and> length (ch_buf (bus_chans b ! n)) < watcherBufSize
          then (bus_chans b ! n)\<lparr>ch_buf := ch_buf (bus_chans b ! n) @ [m]\<rparr> else bus_chans b ! n))" by blast
  have "\<forall>n b'. subscribe c b = (n, b') \<longrightarrow> bus_wf b' \<and> n = length (bus_chans b) \<and>
      bus_chans b' = bus_chans b @ [\<lparr>ch_buf = [], ch_closed = False\<rparr>] \<and>
      (\<forall>c'. n \<notin> watched b c' \<and> watched b' c' = (if c' = c then insert n (watched b c) else watched b c'))"
    using subscribe_wf [OF assms] by simp
  then show ?thesis
    by (intro conjI impI) (rule unsubscribe_wf [OF assms] close_watchers_wf [OF assms] bc
        receive_wf [OF assms] | assumption)+
qed

theorem bus_never_panics_witness:
  "\<exists>b'. broadcast ''c'' (5 :: int) (snd (subscribe ''c'' newBus)) = Some b' \<and>
     map ch_buf (bus_chans b') = [[5]]"
proof -
  have new: "bus_wf (newBus :: int bus)" by (simp add: bus_wf_def newBus_def watched_def)
  let ?b = "snd (subscribe ''c'' (newBus :: int bus))"
  have "bus_wf ?b"
    using conjunct1 [OF bus_never_panics [OF new, of "''c''" 0 0], rule_format, OF prod.collapse [symmetric]] by blast
  from bus_never_panics [OF this, of "''c''" 0 5, THEN conjunct2, THEN conjunct2, THEN conjunct2, THEN conjunct1]
  obtain b' where b': "broadcast ''c'' 5 ?b = Some b'" by blast
  moreover have "map_option (\<lambda>b. map ch_buf (bus_chans b)) (broadcast ''c'' 5 ?b) = Some [[5]]" by code_simp
  ultimately show ?thesis by simp
qed

text \<open>A slow watcher's drops are logged exactly when their total reaches a power of two (below
  the range of the 64-bit counter), so a flood of drops costs a logarithmic number of lines.\<close>

theorem drops_logged_at_powers_of_two:
  assumes "0 \<le> dropped" "dropped < 2 ^ 63 - 1"
  shows "fst (watcher_drop dropped) = dropped + 1 \<and>
    (snd (watcher_drop dropped) \<longleftrightarrow> (\<exists>k. dropped + 1 = 2 ^ k))"
proof -
  have "i64 (dropped + 1) = dropped + 1" "i64 (dropped + 1 - 1) = dropped"
    using assms by (auto intro: i64_id)
  then show ?thesis
    using and_pred_zero_iff [of "dropped + 1"] assms(1) by (simp add: watcher_drop_def Let_def)
qed

theorem drops_logged_at_powers_of_two_witness: "snd (watcher_drop 7) \<and> fst (watcher_drop 7) = 8"
  using drops_logged_at_powers_of_two [of 7] by (auto intro: exI [of _ 3])

text \<open>A reply resolves at most the one request it names: on a well-formed table, a reply to a
  registered request lands in that request's channel and in no other, a duplicate, late or
  cancelled one changes nothing, and a new registration never reuses a channel.\<close>

theorem replies_resolve_once:
  assumes "pending_wf p"
  shows "(\<forall>n p'. pr_register r p = (n, p') \<longrightarrow> pending_wf p' \<and> n = length (pr_slots p) \<and>
        (\<forall>r2 n2. pr_map p r2 = Some n2 \<longrightarrow> n2 \<noteq> n) \<and>
        pr_slots (pr_complete r m p') = pr_slots p @ [Some m]) \<and>
    pending_wf (pr_complete r m p) \<and> pending_wf (pr_cancel r p) \<and>
    pr_complete r m2 (pr_complete r m p) = pr_complete r m p \<and>
    pr_complete r m (pr_cancel r p) = pr_cancel r p \<and>
    (\<forall>n. pr_map p r = Some n \<longrightarrow> pr_slots (pr_complete r m p) = (pr_slots p)[n := Some m]) \<and>
    (pr_map p r = None \<longrightarrow> pr_complete r m p = p)"
proof -
  have reg: "\<forall>n p'. pr_register r p = (n, p') \<longrightarrow> pending_wf p' \<and> n = length (pr_slots p) \<and>
        (\<forall>r2 n2. pr_map p r2 = Some n2 \<longrightarrow> n2 \<noteq> n) \<and>
        pr_slots (pr_complete r m p') = pr_slots p @ [Some m]"
  proof -
    have "n2 < length (pr_slots p)" if "pr_map p r2 = Some n2" for r2 n2
      using assms that unfolding pending_wf_def by blast
    then show ?thesis
      using pr_register_wf [OF assms, of r] by (auto simp: pr_register_def pr_complete_def Let_def)
  qed
  have gone: "pr_complete r x q = q" if "pr_map q r = None" for x and q :: "'a pending"
    using that by (simp add: pr_complete_def)
  have twice: "pr_complete r m2 (pr_complete r m p) = pr_complete r m p"
    by (rule gone) (simp add: pr_complete_def Let_def split: option.splits)
  have cancelled: "pr_complete r m (pr_cancel r p) = pr_cancel r p"
    by (rule gone) (simp add: pr_cancel_def)
  have lands: "\<forall>n. pr_map p r = Some n \<longrightarrow> pr_slots (pr_complete r m p) = (pr_slots p)[n := Some m]"
  proof (intro allI impI)
    fix n assume n: "pr_map p r = Some n"
    then have "pr_slots p ! n = None" using assms unfolding pending_wf_def by blast
    with n show "pr_slots (pr_complete r m p) = (pr_slots p)[n := Some m]"
      by (simp add: pr_complete_def Let_def)
  qed
  show ?thesis
    by (intro conjI reg pr_complete_wf [OF assms] pr_cancel_wf [OF assms] twice cancelled lands impI gone)
qed

theorem replies_resolve_once_witness:
  "pr_slots (pr_complete ''r'' (1 :: int) (snd (pr_register ''r'' newPendingReplies))) = [Some 1]"
proof -
  have "pending_wf (newPendingReplies :: int pending)" by (simp add: pending_wf_def newPendingReplies_def)
  from replies_resolve_once [OF this, of "''r''" 1] show ?thesis
    by (cases "pr_register ''r'' (newPendingReplies :: int pending)") (simp add: newPendingReplies_def)
qed

text \<open>C38: However registrations, deletions, teardowns, pings and sends interleave, a registered session can be written to, and a session
  that can be written to is registered or has left the map with its teardown still to come. A registration installs a fresh session, cuts
  off the one it replaces in the same step, and the late teardown of the replaced stream leaves the new session alone.
  A message to a machine without a session is refused; otherwise it goes to the session the look-up found, and it is refused as
  invalidated only if that session was replaced or removed before the message was written.\<close>

theorem sessions_replace_safely:
  assumes "session_steps no_sessions y" "session_steps y z" "ss_reg z = others (ss_reg y)"
  shows "(\<forall>m p. getMachine m (ss_reg y) = Some p \<longrightarrow> se_owner (rg_heap (ss_reg y) ! p) = m \<and> se_send (rg_heap (ss_reg y) ! p)) \<and>
    (\<forall>p < length (rg_heap (ss_reg y)). se_send (rg_heap (ss_reg y) ! p) \<longrightarrow>
       getMachine (se_owner (rg_heap (ss_reg y) ! p)) (ss_reg y) = Some p \<or> p \<in> set (ss_ending y)) \<and>
    (\<forall>m res now p r'. RegisterMachine m res now (ss_reg y) = (p, r') \<longrightarrow>
       p = length (rg_heap (ss_reg y)) \<and> (\<forall>m'. getMachine m' r' = (if m' = m then Some p else getMachine m' (ss_reg y))) \<and>
       (\<forall>old. getMachine m (ss_reg y) = Some old \<longrightarrow>
          \<not> se_send (rg_heap r' ! old) \<and> (\<forall>others'. UnregisterMachineIf others' m old r' = r'))) \<and>
    (\<forall>m. case getMachine m (ss_reg y) of
           None \<Rightarrow> sendToMachine others m (ss_reg y) = Inl NotConnected
         | Some p \<Rightarrow> sendToMachine others m (ss_reg y) = Inr p \<or>
             sendToMachine others m (ss_reg y) = Inl Invalidated \<and> getMachine m (ss_reg z) \<noteq> Some p)"
proof -
  have y: "sessions_inv y" by (rule sessions_reach_inv [OF assms(1)])
  have "session_steps no_sessions z" using assms(1,2) by (rule rtranclp_trans)
  then have z: "sessions_inv z" by (rule sessions_reach_inv)
  note iy = registry_invD [OF conjunct1 [OF y [unfolded sessions_inv_def]]]
  note iz = registry_invD [OF conjunct1 [OF z [unfolded sessions_inv_def]]]
  note reg = RegisterMachine_inv [OF conjunct1 [OF y [unfolded sessions_inv_def]] conjunct2 [OF y [unfolded sessions_inv_def]]]
  have "UnregisterMachineIf others' m old r' = r'"
    if "RegisterMachine m res now (ss_reg y) = (p, r')" "getMachine m (ss_reg y) = Some old" for m res now p r' old others'
    using reg [OF that(1), of m] that(2) by (simp add: UnregisterMachineIf_def deleteMachineIf_def)
  moreover have "case getMachine m (ss_reg y) of
       None \<Rightarrow> sendToMachine others m (ss_reg y) = Inl NotConnected
     | Some p \<Rightarrow> sendToMachine others m (ss_reg y) = Inr p \<or>
         sendToMachine others m (ss_reg y) = Inl Invalidated \<and> getMachine m (ss_reg z) \<noteq> Some p" for m
    using iz(3) [of m] assms(3) by (auto simp: sendToMachine_def Send_def split: option.split)
  ultimately show ?thesis using iy(2,3,5) reg by meson
qed

text \<open>A reconnect between the look-up and the write: the machine is connected, and the message is refused.\<close>

theorem sessions_replace_safely_witness:
  "\<exists>y z others. session_steps no_sessions y \<and> session_steps y z \<and> ss_reg z = others (ss_reg y) \<and>
     sendToMachine others 4 (ss_reg y) = Inl Invalidated \<and> getMachine 4 (ss_reg y) = Some 0 \<and> getMachine 4 (ss_reg z) = Some 1"
proof -
  let ?y = "no_sessions\<lparr>ss_reg := snd (RegisterMachine 4 ''m4'' 0 newRegistry)\<rparr>"
  let ?others = "\<lambda>r. snd (RegisterMachine 4 ''m4'' 5 r)"
  let ?z = "?y\<lparr>ss_reg := ?others (ss_reg ?y)\<rparr>"
  have r: "session_step x (x\<lparr>ss_reg := snd (RegisterMachine m res now (ss_reg x))\<rparr>)" for x m res now
    by (rule session_step.register [OF prod.collapse [symmetric]])
  have "ss_reg no_sessions = newRegistry" by (simp add: no_sessions_def)
  with r [of no_sessions 4 "''m4''" 0] have 1: "session_step no_sessions ?y" by simp
  have 2: "session_step ?y ?z" by (rule r)
  have "sendToMachine ?others 4 (ss_reg ?y) = Inl Invalidated" "getMachine 4 (ss_reg ?y) = Some 0"
    by (simp_all add: no_sessions_def sendToMachine_def Send_def RegisterMachine_def newRegistry_def getMachine_def invalidate_heap Let_def)
  moreover from this sessions_replace_safely [OF r_into_rtranclp [of session_step, OF 1] r_into_rtranclp [of session_step, OF 2], of ?others]
  have "getMachine 4 (ss_reg ?z) \<noteq> Some 0" by (auto dest: spec [of _ 4])
  moreover have "getMachine 4 (ss_reg ?z) = Some 1"
    by (simp add: no_sessions_def RegisterMachine_def newRegistry_def getMachine_def invalidate_heap Let_def)
  ultimately show ?thesis using r_into_rtranclp [of session_step, OF 1] r_into_rtranclp [of session_step, OF 2]
    by (intro exI [of _ ?y] exI [of _ ?z] exI [of _ ?others]) simp
qed

text \<open>The liveness check, if no other request runs beside it, unregisters exactly the sessions whose last ping is older than the
  timeout; every other machine stays connected through the same session.\<close>

theorem liveness_check_exact:
  assumes "registry_wf r"
  shows "registry_wf (checkSessionLiveness alone now r) \<and>
    (\<forall>m. getMachine m (checkSessionLiveness alone now r) =
       (case getMachine m r of
          None \<Rightarrow> None
        | Some p \<Rightarrow> if now - se_lastPing (rg_heap r ! p) > pingTimeout then None else Some p))"
  using checkSessionLiveness_ok [OF assms, of now] by (auto simp: stale_def split: option.splits)

theorem liveness_check_exact_witness:
  "\<exists>p r'. RegisterMachine 4 ''m4'' 0 newRegistry = (p, r') \<and>
     getMachine 4 (checkSessionLiveness alone (pingTimeout + 1) r') = None"
proof -
  let ?r = "snd (RegisterMachine 4 ''m4'' 0 newRegistry)"
  have wf: "registry_wf ?r"
    by (simp add: RegisterMachine_def newRegistry_def getMachine_def Let_def registry_wf_def registry_inv_def)
  have "getMachine 4 ?r = Some 0" "se_lastPing (rg_heap ?r ! 0) = 0"
    by (simp_all add: RegisterMachine_def newRegistry_def getMachine_def Let_def)
  with liveness_check_exact [OF wf, of "pingTimeout + 1"]
  have "getMachine 4 (checkSessionLiveness alone (pingTimeout + 1) ?r) = None" by simp
  then show ?thesis by (cases "RegisterMachine 4 ''m4'' 0 newRegistry") auto
qed

text \<open>The reaper never reaps: the list query it groups commands by leaves every machine id
  zero, and a machine id of zero is never lost, so no sweep changes a command or closes a
  watcher, however long its machine has been gone.\<close>

theorem reaper_never_reaps:
  fixes st :: "command_db \<times> ('o, 'e) command_bus"
  shows "sweepStaleCommands uenv fails getMachineRow r now st = st"
proof (cases "ListCommands fails running_filter (fst st)")
  case (Inr cmds)
  have "cm_MachineID c = 0" if "c \<in> set cmds" for c
    using ListCommands_mem [OF Inr that] scan_command_fields by blast
  then have "\<forall>m \<in> set (remdups (map cm_MachineID cmds)). m = 0" by auto
  moreover have "\<forall>m \<in> set ms. m = 0 \<Longrightarrow>
      foldl (\<lambda>st m. if machineLost getMachineRow r m now then f st m else st) st ms = st"
    for f and st :: "command_db \<times> ('o, 'e) command_bus" and ms
    by (induction ms) (auto simp: machineLost_def)
  ultimately show ?thesis using Inr by (simp add: sweepStaleCommands_def)
qed (simp add: sweepStaleCommands_def)

text \<open>What the loss judgment decides: a connected machine is never lost; a disconnected one is
  lost when its row is missing, deleted or without status, when its heartbeat is at least the
  grace old, and also, whatever the age of its heartbeat, when its state is not ONLINE; inside
  the grace an ONLINE machine is never lost.\<close>

theorem machineLost_decides:
  "(IsMachineConnected m r \<longrightarrow> \<not> machineLost get r m now) \<and>
   \<not> machineLost get r 0 now \<and>
   (m \<noteq> 0 \<longrightarrow> \<not> IsMachineConnected m r \<longrightarrow> get m = Some row \<longrightarrow>
      (machineLost get r m now \<longleftrightarrow>
        (case row of
           None \<Rightarrow> True
         | Some x \<Rightarrow> mr_Deleted x \<or> mr_Status x = None \<or>
             \<not> ms_online (the (mr_Status x)) \<or>
             now - ms_lastHeartbeatAt (the (mr_Status x)) \<ge> reaperGraceSeconds)))"
  by (auto simp: machineLost_def machineLost_row_def split: option.splits)

theorem machineLost_decides_witness:
  "machineLost (\<lambda>_. Some (Some \<lparr>mr_Deleted = False, mr_Status = Some \<lparr>ms_online = False,
     ms_lastHeartbeatAt = 1000\<rparr>\<rparr>)) newRegistry 3 1000"
  using machineLost_decides [of 3 newRegistry "\<lambda>_. Some (Some \<lparr>mr_Deleted = False,
      mr_Status = Some \<lparr>ms_online = False, ms_lastHeartbeatAt = 1000\<rparr>\<rparr>)" 1000
    "Some \<lparr>mr_Deleted = False, mr_Status = Some \<lparr>ms_online = False, ms_lastHeartbeatAt = 1000\<rparr>\<rparr>"]
  by (simp add: IsMachineConnected_def newRegistry_def getMachine_def)

end
