(* ===== verification/Command_Upload.thy ===== *)
theory Command_Upload
  imports Uploader Dispatcher
begin

text \<open>
  The manager's end of the outbox: validation and conversion of the wire entries and the
  notification of live watchers (\<open>component/dispatcher/command_upload.go\<close>,
  \<open>marshalEventPayload\<close> of \<open>command_handler.go\<close>), and the store transaction that applies a batch
  (\<open>store/command_upload.go\<close>).

  \<open>protojson\<close> and the UUID package are parameters. Statements of the transaction may be refused
  by the database (\<open>fails\<close>); PostgreSQL then aborts the transaction, so every later statement
  and the commit fail too. A batch that returns an error leaves the database untouched.

  The lemmas show that a committed batch accounts for every one of its entries, how a
  command's status can move, and that a retransmitted batch changes nothing. The dispatcher's
  \<open>ApplyCommandUpload\<close> thereby provides the interface \<open>upload_server\<close> the uploader relies on.
\<close>

section \<open>Conversion of wire entries\<close>

record upload_row =
  su_CommandID :: uuid
  su_Kind :: int
  su_SeqNo :: int
  su_Timestamp :: "int option"
  su_StreamType :: int
  su_Content :: string
  su_EventType :: int
  su_Summary :: string
  su_PayloadJSON :: string
  su_HasTokenUsage :: bool
  su_Tokens :: token_usage
  su_ExitCode :: int
  su_DurationMs :: int
  su_ErrorMessage :: string
  su_FinalSummary :: string
  su_ResultJSON :: string
  su_LastSeqNo :: int

record json_env =
  pj_Payload :: "event_payload \<Rightarrow> string option"
  pj_Struct :: "string \<Rightarrow> string option"

definition zero_tokens :: token_usage where
  "zero_tokens = \<lparr>tu_input = 0, tu_output = 0, tu_cache_read = 0, tu_cache_write = 0, tu_total = 0\<rparr>"

text \<open>The getter of the \<open>oneof\<close> arm for an event type: the payload when it is that arm. The second
  component tells whether the type has a typed arm at all.\<close>

fun lifecycle_arm :: "event_payload \<Rightarrow> bool" where
  "lifecycle_arm (Lifecycle _) = True" | "lifecycle_arm _ = False"
fun text_delta_arm :: "event_payload \<Rightarrow> bool" where
  "text_delta_arm (TextDelta _) = True" | "text_delta_arm _ = False"
fun tool_started_arm :: "event_payload \<Rightarrow> bool" where
  "tool_started_arm (ToolCallStarted _) = True" | "tool_started_arm _ = False"
fun tool_finished_arm :: "event_payload \<Rightarrow> bool" where
  "tool_finished_arm (ToolCallFinished _) = True" | "tool_finished_arm _ = False"
fun diff_arm :: "event_payload \<Rightarrow> bool" where
  "diff_arm (DiffEmitted _) = True" | "diff_arm _ = False"
fun warning_arm :: "event_payload \<Rightarrow> bool" where
  "warning_arm (Warning _) = True" | "warning_arm _ = False"
fun raw_acp_arm :: "event_payload \<Rightarrow> bool" where
  "raw_acp_arm (RawAcp _) = True" | "raw_acp_arm _ = False"
fun final_summary_arm :: "event_payload \<Rightarrow> bool" where
  "final_summary_arm (FinalSummaryPayload _) = True" | "final_summary_arm _ = False"
fun compaction_arm :: "event_payload \<Rightarrow> bool" where
  "compaction_arm (ContextCompaction _) = True" | "compaction_arm _ = False"
fun context_usage_arm :: "event_payload \<Rightarrow> bool" where
  "context_usage_arm (ContextUsage _) = True" | "context_usage_arm _ = False"
fun token_usage_arm :: "event_payload \<Rightarrow> bool" where
  "token_usage_arm (TokenUsage _) = True" | "token_usage_arm _ = False"

text \<open>\<open>protojson.Marshal\<close> of the arm; a nil message renders as the empty object.\<close>

definition marshal_arm ::
  "json_env \<Rightarrow> (event_payload \<Rightarrow> bool) \<Rightarrow> event_payload option \<Rightarrow> string option" where
  "marshal_arm jenv arm payload =
     (case payload of
        None \<Rightarrow> Some ''{}''
      | Some p \<Rightarrow> if arm p then pj_Payload jenv p else Some ''{}'')"

text \<open>\<open>marshalEventPayload\<close>: \<open>Inl ()\<close> is the marshalling error, \<open>Inr None\<close> the nil slice.\<close>

definition marshalEventPayload :: "json_env \<Rightarrow> command_event \<Rightarrow> (unit, string option) result" where
  "marshalEventPayload jenv ev =
     (let run = (\<lambda>arm. case marshal_arm jenv arm (ev_payload ev) of
                         None \<Rightarrow> Inl () | Some s \<Rightarrow> Inr (Some s))
      in if ev_type ev = EVENT_LIFECYCLE then run lifecycle_arm
         else if ev_type ev = EVENT_TEXT_DELTA then run text_delta_arm
         else if ev_type ev = EVENT_TOOL_CALL_STARTED then run tool_started_arm
         else if ev_type ev = EVENT_TOOL_CALL_FINISHED then run tool_finished_arm
         else if ev_type ev = EVENT_DIFF_EMITTED then run diff_arm
         else if ev_type ev = EVENT_WARNING then run warning_arm
         else if ev_type ev = EVENT_RAW_ACP then run raw_acp_arm
         else if ev_type ev = EVENT_FINAL_SUMMARY then run final_summary_arm
         else if ev_type ev = EVENT_CONTEXT_COMPACTION_STARTED \<or>
                 ev_type ev = EVENT_CONTEXT_COMPACTION_FINISHED then run compaction_arm
         else if ev_type ev = EVENT_CONTEXT_USAGE_UPDATE then run context_usage_arm
         else if ev_type ev = EVENT_TOKEN_USAGE then run token_usage_arm
         else Inr None)"

definition blank_row :: "uuid \<Rightarrow> upload_entry \<Rightarrow> upload_row" where
  "blank_row commandID we =
     \<lparr>su_CommandID = commandID, su_Kind = ue_kind we, su_SeqNo = ue_seq_no we,
      su_Timestamp = ue_timestamp we, su_StreamType = 0, su_Content = [], su_EventType = 0,
      su_Summary = [], su_PayloadJSON = [], su_HasTokenUsage = False, su_Tokens = zero_tokens,
      su_ExitCode = 0, su_DurationMs = 0, su_ErrorMessage = [], su_FinalSummary = [],
      su_ResultJSON = [], su_LastSeqNo = 0\<rparr>"

definition token_usage_of :: "command_event \<Rightarrow> token_usage option" where
  "token_usage_of ev = (case ev_payload ev of Some (TokenUsage u) \<Rightarrow> Some u | _ \<Rightarrow> None)"

text \<open>\<open>convertUploadEntry\<close>: \<open>Inl\<close> carries the reason of the rejection.\<close>

definition convertUploadEntry ::
  "uuid_env \<Rightarrow> json_env \<Rightarrow> upload_entry \<Rightarrow> (string, upload_row) result" where
  "convertUploadEntry uenv jenv we =
     (case uuid_Parse uenv (ue_command_id we) of
        None \<Rightarrow> Inl ''invalid command id''
      | Some commandID \<Rightarrow>
          (let se = blank_row commandID we in
           if ue_kind we = KIND_PROGRESS then
             (case ue_payload we of
                ProgressPayload p \<Rightarrow>
                  if pr_type p \<in> {STREAM_STDOUT, STREAM_STDERR, STREAM_SYSTEM, STREAM_ASSISTANT}
                  then Inr (se\<lparr>su_StreamType := pr_type p, su_Content := pr_content p\<rparr>)
                  else Inl ''unknown progress stream type''
              | _ \<Rightarrow> Inl ''progress payload missing'')
           else if ue_kind we = KIND_EVENT then
             (case ue_payload we of
                EventPayload ev \<Rightarrow>
                  if ev_payload ev = None \<and> ev_type ev \<noteq> EVENT_SYSTEM
                  then Inl ''unknown event payload''
                  else
                    (case marshalEventPayload jenv ev of
                       Inl _ \<Rightarrow> Inl ''event payload marshal failed''
                     | Inr json \<Rightarrow>
                         (let se1 = se\<lparr>su_EventType := ev_type ev, su_Summary := ev_summary ev,
                                su_PayloadJSON := (case json of None \<Rightarrow> ''{}'' | Some s \<Rightarrow> s)\<rparr>
                          in case token_usage_of ev of
                               None \<Rightarrow> Inr se1
                             | Some u \<Rightarrow> Inr (se1\<lparr>su_HasTokenUsage := True, su_Tokens := u\<rparr>)))
              | _ \<Rightarrow> Inl ''event payload missing'')
           else if ue_kind we = KIND_RESULT then
             (case ue_payload we of
                ResultPayload r \<Rightarrow>
                  (let se1 = se\<lparr>su_ExitCode := cr_exit_code r, su_DurationMs := cr_duration_ms r,
                         su_ErrorMessage := cr_error_message r, su_FinalSummary := cr_final_summary r,
                         su_LastSeqNo := cr_last_seq_no r\<rparr>
                   in case cr_result r of
                        None \<Rightarrow> Inr se1
                      | Some st \<Rightarrow>
                          (case pj_Struct jenv st of
                             None \<Rightarrow> Inl ''result struct marshal failed''
                           | Some data \<Rightarrow> Inr (se1\<lparr>su_ResultJSON := data\<rparr>)))
              | _ \<Rightarrow> Inl ''result payload missing'')
           else Inl ''unknown upload entry kind''))"

section \<open>The batch transaction\<close>

datatype upload_stmt =
    StLoad | StBegin | StOutput uuid int | StEvent uuid int | StDims uuid | StUsage uuid
  | StTerminal uuid | StRegrade uuid | StMaxSeq uuid | StRegradeEvent uuid | StLate uuid
  | StSummary uuid | StAck uuid | StCommit

record cmd_state =
  cs_machineID :: int
  cs_status :: int
  cs_agentID :: int
  cs_failureKind :: string

record watermark =
  w_progress :: int
  w_event :: int
  w_ack :: int
  w_result :: bool

record store_ack =
  sa_CommandID :: uuid
  sa_LastProgressSeq :: int
  sa_LastEventSeq :: int
  sa_ResultAcked :: bool

record store_rejection =
  sr_CommandID :: uuid
  sr_Kind :: int
  sr_SeqNo :: int
  sr_Reason :: string

record terminal =
  tm_CommandID :: uuid
  tm_AgentID :: int
  tm_Status :: int

record regrade =
  rg_CommandID :: uuid
  rg_AgentID :: int
  rg_Event :: event_row

record batch_result =
  br_Acks :: "store_ack list"
  br_Rejected :: "store_rejection list"
  br_Terminals :: "terminal list"
  br_Regrades :: "regrade list"
  br_InsertedOutputs :: "output_row list"
  br_InsertedEvents :: "event_row list"
  br_LateFailures :: nat

definition empty_result :: batch_result where
  "empty_result = \<lparr>br_Acks = [], br_Rejected = [], br_Terminals = [], br_Regrades = [],
     br_InsertedOutputs = [], br_InsertedEvents = [], br_LateFailures = 0\<rparr>"

text \<open>The transaction and the loop's variables. \<open>tx_aborted\<close>: a statement of the transaction failed
  and its error was swallowed.\<close>

record batch_tx =
  tx_db :: command_db
  tx_aborted :: bool
  tx_marks :: "(uuid \<times> watermark) list"
  tx_res :: batch_result

definition coalesce_machine :: "int option \<Rightarrow> int" where
  "coalesce_machine m = (case m of None \<Rightarrow> 0 | Some i \<Rightarrow> i)"

definition coalesce_text :: "string option \<Rightarrow> string" where
  "coalesce_text s = (case s of None \<Rightarrow> [] | Some t \<Rightarrow> t)"

text \<open>The ownership query: the state of a command as read once before the transaction.\<close>

definition load_state :: "command_db \<Rightarrow> uuid \<Rightarrow> cmd_state option" where
  "load_state db cid =
     map_option (\<lambda>c. \<lparr>cs_machineID = coalesce_machine (c_MachineID c), cs_status = c_Status c,
         cs_agentID = c_AgentID c, cs_failureKind = coalesce_text (c_FailureKind c)\<rparr>)
       (find_command_row db cid)"

definition stmt_ok :: "(upload_stmt \<Rightarrow> bool) \<Rightarrow> upload_stmt \<Rightarrow> batch_tx \<Rightarrow> bool" where
  "stmt_ok fails st tx \<longleftrightarrow> \<not> tx_aborted tx \<and> \<not> fails st"

definition zero_mark :: watermark where
  "zero_mark = \<lparr>w_progress = 0, w_event = 0, w_ack = 0, w_result = False\<rparr>"

definition mark_of :: "batch_tx \<Rightarrow> uuid \<Rightarrow> watermark" where
  "mark_of tx cid = (case map_of (tx_marks tx) cid of None \<Rightarrow> zero_mark | Some w \<Rightarrow> w)"

definition set_mark :: "uuid \<Rightarrow> watermark \<Rightarrow> batch_tx \<Rightarrow> batch_tx" where
  "set_mark cid w tx = tx\<lparr>tx_marks := AList.update cid w (tx_marks tx)\<rparr>"

definition raise32 :: "int \<Rightarrow> int \<Rightarrow> int" where
  "raise32 cur x = (if x > cur then x else cur)"

definition reject :: "upload_row \<Rightarrow> string \<Rightarrow> batch_tx \<Rightarrow> batch_tx" where
  "reject e reason tx =
     tx\<lparr>tx_res := (tx_res tx)\<lparr>br_Rejected := br_Rejected (tx_res tx) @
          [\<lparr>sr_CommandID = su_CommandID e, sr_Kind = su_Kind e, sr_SeqNo = su_SeqNo e,
            sr_Reason = reason\<rparr>]\<rparr>\<rparr>"

definition apply_progress ::
  "(upload_stmt \<Rightarrow> bool) \<Rightarrow> int \<Rightarrow> upload_row \<Rightarrow> batch_tx \<Rightarrow> (store_error, batch_tx) result" where
  "apply_progress fails ts e tx =
     (if \<not> stmt_ok fails (StOutput (su_CommandID e) (su_SeqNo e)) tx then Inl (SqlError ''append output'')
      else
        (let row = \<lparr>o_CommandID = su_CommandID e, o_SeqNo = su_SeqNo e,
                    o_StreamType = su_StreamType e, o_Content = su_Content e, o_CreatedAt = ts\<rparr>
         in case insert_output row (tx_db tx) of
              (ins, db) \<Rightarrow>
                (let w = mark_of tx (su_CommandID e);
                     tx1 = set_mark (su_CommandID e)
                             (w\<lparr>w_progress := raise32 (w_progress w) (su_SeqNo e)\<rparr>) (tx\<lparr>tx_db := db\<rparr>)
                 in Inr (if ins then tx1\<lparr>tx_res := (tx_res tx1)\<lparr>br_InsertedOutputs :=
                                   br_InsertedOutputs (tx_res tx1) @ [row]\<rparr>\<rparr>
                         else tx1))))"

text \<open>\<open>recordCommandTokenUsageTx\<close>; its error is dropped by the caller, the aborted transaction
  stays.\<close>

definition recordCommandTokenUsageTx ::
  "(upload_stmt \<Rightarrow> bool) \<Rightarrow> upload_row \<Rightarrow> batch_tx \<Rightarrow> batch_tx" where
  "recordCommandTokenUsageTx fails e tx =
     (if \<not> stmt_ok fails (StDims (su_CommandID e)) tx then tx\<lparr>tx_aborted := True\<rparr>
      else
        (case find_command_row (tx_db tx) (su_CommandID e) of
           None \<Rightarrow> tx
         | Some c \<Rightarrow>
             if \<not> stmt_ok fails (StUsage (su_CommandID e)) tx then tx\<lparr>tx_aborted := True\<rparr>
             else if has_usage (tx_db tx) (su_CommandID e) then tx
             else tx\<lparr>tx_db := (tx_db tx)\<lparr>db_usage := db_usage (tx_db tx) @
                    [\<lparr>u_CommandID = su_CommandID e, u_AgentID = c_AgentID c,
                      u_PrincipalID = c_PrincipalID c, u_MachineID = c_MachineID c,
                      u_Tokens = su_Tokens e\<rparr>]\<rparr>\<rparr>))"

definition apply_event ::
  "(upload_stmt \<Rightarrow> bool) \<Rightarrow> int \<Rightarrow> int \<Rightarrow> upload_row \<Rightarrow> batch_tx \<Rightarrow> (store_error, batch_tx) result" where
  "apply_event fails now ts e tx =
     (if \<not> stmt_ok fails (StEvent (su_CommandID e) (su_SeqNo e)) tx then Inl (SqlError ''append event'')
      else
        (let payload = (if su_PayloadJSON e = [] then ''{}'' else su_PayloadJSON e);
             row = \<lparr>e_CommandID = su_CommandID e, e_SeqNo = su_SeqNo e,
                    e_EventType = su_EventType e, e_Summary = su_Summary e,
                    e_PayloadJSON = payload, e_CreatedAt = now\<rparr>
         in case insert_event row (tx_db tx) of
              (ins, db) \<Rightarrow>
                (let tx0 = tx\<lparr>tx_db := db\<rparr>;
                     tx1 = (if su_HasTokenUsage e then recordCommandTokenUsageTx fails e tx0 else tx0);
                     w = mark_of tx1 (su_CommandID e);
                     tx2 = set_mark (su_CommandID e)
                             (w\<lparr>w_event := raise32 (w_event w) (su_SeqNo e),
                                w_ack := raise32 (w_ack w) (su_SeqNo e)\<rparr>) tx1
                 in Inr (if ins then tx2\<lparr>tx_res := (tx_res tx2)\<lparr>br_InsertedEvents :=
                                   br_InsertedEvents (tx_res tx2) @ [row\<lparr>e_CreatedAt := ts\<rparr>]\<rparr>\<rparr>
                         else tx2))))"

definition regradeEventSummary :: string where
  "regradeEventSummary = ''Marked failed while the machine was unreachable; re-graded to completed from the late result.''"

definition max_event_seq :: "command_db \<Rightarrow> uuid \<Rightarrow> int" where
  "max_event_seq db cid =
     (case map e_SeqNo (filter (\<lambda>r. e_CommandID r = cid) (db_events db)) of
        [] \<Rightarrow> 0
      | s # ss \<Rightarrow> foldl max s ss)"

definition appendRegradeEventTx ::
  "(upload_stmt \<Rightarrow> bool) \<Rightarrow> int \<Rightarrow> uuid \<Rightarrow> batch_tx \<Rightarrow> (store_error, event_row \<times> batch_tx) result" where
  "appendRegradeEventTx fails now cid tx =
     (if \<not> stmt_ok fails (StMaxSeq cid) tx then Inl (SqlError ''read watermark'')
      else
        (let seq = i32 (max_event_seq (tx_db tx) cid + 1);
             row = \<lparr>e_CommandID = cid, e_SeqNo = seq, e_EventType = EVENT_SYSTEM,
                    e_Summary = regradeEventSummary, e_PayloadJSON = ''{}'', e_CreatedAt = now\<rparr>
         in if \<not> stmt_ok fails (StRegradeEvent cid) tx \<or> has_event (tx_db tx) cid seq
            then Inl (SqlError ''insert re-grade event'')
            else Inr (row, tx\<lparr>tx_db := (tx_db tx)\<lparr>db_events := db_events (tx_db tx) @ [row]\<rparr>\<rparr>)))"

text \<open>\<open>updateCommandResultSummaryTx\<close>, with the placeholder numbers the code writes.\<close>

definition updateCommandResultSummaryTx ::
  "(upload_stmt \<Rightarrow> bool) \<Rightarrow> uuid \<Rightarrow> string \<Rightarrow> string \<Rightarrow> batch_tx \<Rightarrow> (store_error, batch_tx) result" where
  "updateCommandResultSummaryTx fails cid finalSummary resultJSON tx =
     (let sets = (if finalSummary \<noteq> [] then [(ColFinalSummary, 1)] else []) @
                 (if resultJSON \<noteq> [] then [(ColResultJSON, 2)] else []);
          args = (if finalSummary \<noteq> [] then [VText finalSummary] else []) @
                 (if resultJSON \<noteq> [] then [VText resultJSON] else [])
      in if sets = [] then Inr tx
         else if \<not> stmt_ok fails (StSummary cid) tx then Inl (SqlError ''summary'')
         else
           (case exec_update sets 3 (args @ [VUuid cid]) (tx_db tx) of
              Inl err \<Rightarrow> Inl err
            | Inr db \<Rightarrow> Inr (tx\<lparr>tx_db := db\<rparr>)))"

text \<open>The status switch of a result entry, by the state read before the transaction; the \<open>UPDATE\<close>s
  check the row again.\<close>

definition terminal_update :: "int \<Rightarrow> upload_row \<Rightarrow> int \<Rightarrow> command_row \<Rightarrow> command_row" where
  "terminal_update ts e status c =
     c\<lparr>c_Status := status, c_CompletedAt := Some ts, c_ExitCode := Some (su_ExitCode e),
       c_DurationMs := Some (su_DurationMs e), c_ErrorMessage := su_ErrorMessage e,
       c_FailureKind := Some (if status = CommandStatusFailed then CommandFailureKindAgentFailed else [])\<rparr>"

definition regrade_update :: "int \<Rightarrow> upload_row \<Rightarrow> command_row \<Rightarrow> command_row" where
  "regrade_update ts e c =
     c\<lparr>c_Status := CommandStatusCompleted, c_CompletedAt := Some ts, c_ExitCode := Some (su_ExitCode e),
       c_DurationMs := Some (su_DurationMs e), c_ErrorMessage := [], c_FailureKind := None\<rparr>"

definition late_update :: "upload_row \<Rightarrow> command_row \<Rightarrow> command_row" where
  "late_update e c =
     c\<lparr>c_FailureKind := Some CommandFailureKindAgentFailed,
       c_ErrorMessage := (if su_ErrorMessage e = [] then c_ErrorMessage c else su_ErrorMessage e)\<rparr>"

definition regradable :: "command_row \<Rightarrow> bool" where
  "regradable c \<longleftrightarrow>
     c_Status c = CommandStatusFailed \<and> c_FailureKind c = Some CommandFailureKindMachineUnreachable"

definition result_status :: "upload_row \<Rightarrow> int" where
  "result_status e = (if su_ExitCode e \<noteq> 0 then CommandStatusFailed else CommandStatusCompleted)"

definition result_switch ::
  "(upload_stmt \<Rightarrow> bool) \<Rightarrow> int \<Rightarrow> int \<Rightarrow> cmd_state \<Rightarrow> upload_row \<Rightarrow> batch_tx \<Rightarrow>
     (store_error, batch_tx) result" where
  "result_switch fails now ts st e tx =
     (let cid = su_CommandID e; status = result_status e in
      if cs_status st = CommandStatusPending \<or> cs_status st = CommandStatusRunning then
        (if \<not> stmt_ok fails (StTerminal cid) tx then Inl (SqlError ''terminal'')
         else Inr (tx\<lparr>tx_db := update_where (\<lambda>c. c_ID c = cid \<and> in_flight c) (terminal_update ts e status)
                        (tx_db tx),
                     tx_res := (tx_res tx)\<lparr>br_Terminals := br_Terminals (tx_res tx) @
                        [\<lparr>tm_CommandID = cid, tm_AgentID = cs_agentID st, tm_Status = status\<rparr>]\<rparr>\<rparr>))
      else if cs_status st = CommandStatusFailed \<and>
              cs_failureKind st = CommandFailureKindMachineUnreachable \<and>
              status = CommandStatusCompleted then
        (if \<not> stmt_ok fails (StRegrade cid) tx then Inl (SqlError ''regrade'')
         else if \<not> list_ex (\<lambda>c. c_ID c = cid \<and> regradable c) (db_commands (tx_db tx)) then Inr tx
         else
           (let tx1 = tx\<lparr>tx_db := update_where (\<lambda>c. c_ID c = cid \<and> regradable c)
                           (regrade_update ts e) (tx_db tx)\<rparr>
            in case appendRegradeEventTx fails now cid tx1 of
                 Inl err \<Rightarrow> Inl err
               | Inr (event, tx2) \<Rightarrow>
                   Inr (tx2\<lparr>tx_res := (tx_res tx2)\<lparr>br_Regrades := br_Regrades (tx_res tx2) @
                     [\<lparr>rg_CommandID = cid, rg_AgentID = cs_agentID st, rg_Event = event\<rparr>]\<rparr>\<rparr>)))
      else if cs_status st = CommandStatusFailed \<and>
              cs_failureKind st = CommandFailureKindMachineUnreachable \<and>
              status = CommandStatusFailed then
        (if \<not> stmt_ok fails (StLate cid) tx then Inl (SqlError ''late failure'')
         else Inr (tx\<lparr>tx_db := update_where (\<lambda>c. c_ID c = cid \<and> regradable c) (late_update e) (tx_db tx),
                     tx_res := (tx_res tx)\<lparr>br_LateFailures := br_LateFailures (tx_res tx) + 1\<rparr>\<rparr>))
      else Inr tx)"

definition apply_result ::
  "(upload_stmt \<Rightarrow> bool) \<Rightarrow> int \<Rightarrow> int \<Rightarrow> cmd_state \<Rightarrow> upload_row \<Rightarrow> batch_tx \<Rightarrow>
     (store_error, batch_tx) result" where
  "apply_result fails now ts st e tx =
     bind_result (result_switch fails now ts st e tx) (\<lambda>tx1.
     bind_result (updateCommandResultSummaryTx fails (su_CommandID e) (su_FinalSummary e)
        (su_ResultJSON e) tx1) (\<lambda>tx2.
     (let w = mark_of tx2 (su_CommandID e) in
      Inr (set_mark (su_CommandID e)
        (w\<lparr>w_result := True, w_ack := raise32 (w_ack w) (su_LastSeqNo e)\<rparr>) tx2))))"

text \<open>One entry of the loop; \<open>db0\<close> is the database the states were loaded from.\<close>

definition apply_entry ::
  "(upload_stmt \<Rightarrow> bool) \<Rightarrow> int \<Rightarrow> int \<Rightarrow> command_db \<Rightarrow> upload_row \<Rightarrow> batch_tx \<Rightarrow>
     (store_error, batch_tx) result" where
  "apply_entry fails now machineID db0 e tx =
     (case load_state db0 (su_CommandID e) of
        None \<Rightarrow> Inr (reject e ''command not found'' tx)
      | Some st \<Rightarrow>
          if cs_machineID st \<noteq> machineID then
            Inr (reject e ''command is not bound to the authenticated machine'' tx)
          else if su_SeqNo e < 1 then Inr (reject e ''sequence number must be positive'' tx)
          else
            (let ts = (case su_Timestamp e of None \<Rightarrow> now | Some t \<Rightarrow> t) in
             if su_Kind e = KIND_PROGRESS then apply_progress fails ts e tx
             else if su_Kind e = KIND_EVENT then apply_event fails now ts e tx
             else if su_Kind e = KIND_RESULT then apply_result fails now ts st e tx
             else Inr (reject e ''unknown upload entry kind'' tx)))"

fun apply_entries ::
  "(upload_stmt \<Rightarrow> bool) \<Rightarrow> int \<Rightarrow> int \<Rightarrow> command_db \<Rightarrow> upload_row list \<Rightarrow> batch_tx \<Rightarrow>
     (store_error, batch_tx) result" where
  "apply_entries fails now machineID db0 [] tx = Inr tx"
| "apply_entries fails now machineID db0 (e # es) tx =
     (case apply_entry fails now machineID db0 e tx of
        Inl err \<Rightarrow> Inl err
      | Inr tx1 \<Rightarrow> apply_entries fails now machineID db0 es tx1)"

text \<open>The last loop over the watermarks.\<close>

fun fold_marks ::
  "(upload_stmt \<Rightarrow> bool) \<Rightarrow> (uuid \<times> watermark) list \<Rightarrow> batch_tx \<Rightarrow> (store_error, batch_tx) result" where
  "fold_marks fails [] tx = Inr tx"
| "fold_marks fails ((cid, w) # ms) tx =
     (if w_ack w > 0 \<and> \<not> stmt_ok fails (StAck cid) tx then Inl (SqlError ''ack seq'')
      else
        (let tx1 = (if w_ack w > 0
                    then tx\<lparr>tx_db := update_where (\<lambda>c. c_ID c = cid)
                           (\<lambda>c. c\<lparr>c_LastAckSeq := max (c_LastAckSeq c) (w_ack w)\<rparr>) (tx_db tx)\<rparr>
                    else tx)
         in fold_marks fails ms
              (tx1\<lparr>tx_res := (tx_res tx1)\<lparr>br_Acks := br_Acks (tx_res tx1) @
                 [\<lparr>sa_CommandID = cid, sa_LastProgressSeq = w_progress w,
                   sa_LastEventSeq = w_event w, sa_ResultAcked = w_result w\<rparr>]\<rparr>\<rparr>)))"

definition begin_tx :: "command_db \<Rightarrow> batch_tx" where
  "begin_tx db = \<lparr>tx_db = db, tx_aborted = False, tx_marks = [], tx_res = empty_result\<rparr>"

definition ApplyCommandUploadBatch ::
  "(upload_stmt \<Rightarrow> bool) \<Rightarrow> int \<Rightarrow> int \<Rightarrow> upload_row list \<Rightarrow> command_db \<Rightarrow>
     (store_error, batch_result) result \<times> command_db" where
  "ApplyCommandUploadBatch fails now machineID entries db =
     (if entries = [] then (Inr empty_result, db)
      else if fails StLoad \<or> fails StBegin then (Inl (SqlError ''begin''), db)
      else
        (case bind_result (apply_entries fails now machineID db entries (begin_tx db))
                (\<lambda>tx. fold_marks fails (tx_marks tx) tx) of
           Inl err \<Rightarrow> (Inl err, db)
         | Inr tx \<Rightarrow>
             if \<not> stmt_ok fails StCommit tx then (Inl (SqlError ''commit''), db)
             else (Inr (tx_res tx), tx_db tx)))"

section \<open>The dispatcher's handler\<close>

record command_output =
  co_command_id :: string
  co_type :: int
  co_content :: string
  co_seq_no :: int
  co_timestamp :: "int option"

record dispatcher =
  dp_db :: command_db
  dp_bus :: "(command_output, command_event) command_bus"
  dp_tracker :: tracker
  dp_closing :: "string list"

datatype upload_error = StoreFailed store_error | Panicked

fun split_entries ::
  "uuid_env \<Rightarrow> json_env \<Rightarrow> upload_entry list \<Rightarrow>
     (upload_entry \<times> upload_row) list \<times> upload_rejection list" where
  "split_entries uenv jenv [] = ([], [])"
| "split_entries uenv jenv (we # wes) =
     (case split_entries uenv jenv wes of
        (ok, rejected) \<Rightarrow>
          (case convertUploadEntry uenv jenv we of
             Inl reason \<Rightarrow>
               (ok, \<lparr>rej_command_id = ue_command_id we, rej_kind = ue_kind we,
                     rej_seq_no = ue_seq_no we, rej_reason = reason\<rparr> # rejected)
           | Inr se \<Rightarrow> ((we, se) # ok, rejected)))"

definition wire_key :: "string \<Rightarrow> int \<Rightarrow> string" where
  "wire_key cid seq = cid @ ''|'' @ int_string seq"

text \<open>\<open>wireByKey\<close>: the last accepted entry under each (command, sequence) key; the kind is not part
  of the key.\<close>

definition wireByKey :: "upload_entry list \<Rightarrow> string \<Rightarrow> upload_entry option" where
  "wireByKey accepted =
     foldl (\<lambda>m we. m(wire_key (ue_command_id we) (ue_seq_no we) \<mapsto> we)) Map.empty accepted"

text \<open>The getters of a nil message return zero values.\<close>

definition output_of :: "upload_entry \<Rightarrow> command_output" where
  "output_of we =
     (case ue_payload we of
        ProgressPayload p \<Rightarrow> \<lparr>co_command_id = pr_command_id p, co_type = pr_type p,
          co_content = pr_content p, co_seq_no = pr_seq_no p, co_timestamp = pr_timestamp p\<rparr>
      | _ \<Rightarrow> \<lparr>co_command_id = [], co_type = 0, co_content = [], co_seq_no = 0, co_timestamp = None\<rparr>)"

definition event_of :: "upload_entry \<Rightarrow> command_event option" where
  "event_of we = (case ue_payload we of EventPayload ev \<Rightarrow> Some ev | _ \<Rightarrow> None)"

definition nil_event :: command_event where
  "nil_event = \<lparr>ev_command_id = [], ev_seq_no = 0, ev_type = 0, ev_summary = [], ev_timestamp = None,
     ev_payload = None\<rparr>"

definition bcast_output :: "string \<Rightarrow> command_output \<Rightarrow> dispatcher \<Rightarrow> dispatcher option" where
  "bcast_output c m d =
     map_option (\<lambda>b. d\<lparr>dp_bus := (dp_bus d)\<lparr>cb_output := b\<rparr>\<rparr>) (broadcast c m (cb_output (dp_bus d)))"

definition bcast_event :: "string \<Rightarrow> command_event \<Rightarrow> dispatcher \<Rightarrow> dispatcher option" where
  "bcast_event c m d =
     map_option (\<lambda>b. d\<lparr>dp_bus := (dp_bus d)\<lparr>cb_event := b\<rparr>\<rparr>) (broadcast c m (cb_event (dp_bus d)))"

text \<open>A Go loop whose body may panic.\<close>

fun each :: "('x \<Rightarrow> 'd \<Rightarrow> 'd option) \<Rightarrow> 'x list \<Rightarrow> 'd \<Rightarrow> 'd option" where
  "each f [] d = Some d"
| "each f (x # xs) d = (case f x d of None \<Rightarrow> None | Some d1 \<Rightarrow> each f xs d1)"

definition notify_output ::
  "uuid_env \<Rightarrow> (string \<Rightarrow> upload_entry option) \<Rightarrow> output_row \<Rightarrow> dispatcher \<Rightarrow> dispatcher option" where
  "notify_output uenv wire r d =
     (case wire (wire_key (uuid_String uenv (o_CommandID r)) (o_SeqNo r)) of
        None \<Rightarrow> Some d
      | Some we \<Rightarrow> bcast_output (uuid_String uenv (o_CommandID r)) (output_of we) d)"

definition notify_event ::
  "uuid_env \<Rightarrow> (string \<Rightarrow> upload_entry option) \<Rightarrow> event_row \<Rightarrow> dispatcher \<Rightarrow> dispatcher option" where
  "notify_event uenv wire r d =
     (case wire (wire_key (uuid_String uenv (e_CommandID r)) (e_SeqNo r)) of
        None \<Rightarrow> Some d
      | Some we \<Rightarrow>
          (let ev = (case event_of we of None \<Rightarrow> nil_event | Some ev \<Rightarrow> ev)
           in bcast_event (ev_command_id ev) ev d))"

definition clearCurrentCommand :: "int \<Rightarrow> string \<Rightarrow> dispatcher \<Rightarrow> dispatcher" where
  "clearCurrentCommand agentID commandID d =
     d\<lparr>dp_tracker := tracker_clear agentID commandID (dp_tracker d)\<rparr>"

text \<open>The delayed close is queued; \<open>run_closes\<close> is the timers firing.\<close>

definition scheduleWatcherClose :: "string \<Rightarrow> dispatcher \<Rightarrow> dispatcher" where
  "scheduleWatcherClose commandID d = d\<lparr>dp_closing := dp_closing d @ [commandID]\<rparr>"

definition run_closes :: "dispatcher \<Rightarrow> dispatcher option" where
  "run_closes d =
     each (\<lambda>c d. map_option (\<lambda>b. d\<lparr>dp_bus := b\<rparr>) (close_command c (dp_bus d)))
       (dp_closing d) (d\<lparr>dp_closing := []\<rparr>)"

definition notify_terminal :: "uuid_env \<Rightarrow> terminal \<Rightarrow> dispatcher \<Rightarrow> dispatcher option" where
  "notify_terminal uenv t d =
     Some (scheduleWatcherClose (uuid_String uenv (tm_CommandID t))
       (clearCurrentCommand (tm_AgentID t) (uuid_String uenv (tm_CommandID t)) d))"

definition notify_regrade :: "uuid_env \<Rightarrow> regrade \<Rightarrow> dispatcher \<Rightarrow> dispatcher option" where
  "notify_regrade uenv rg d =
     (let cid = uuid_String uenv (rg_CommandID rg);
          ev = rg_Event rg;
          d1 = clearCurrentCommand (rg_AgentID rg) cid d
      in map_option (scheduleWatcherClose cid)
           (bcast_event (uuid_String uenv (e_CommandID ev))
              \<lparr>ev_command_id = uuid_String uenv (e_CommandID ev), ev_seq_no = e_SeqNo ev,
               ev_type = e_EventType ev, ev_summary = e_Summary ev, ev_timestamp = None,
               ev_payload = None\<rparr> d1))"

definition notify_all ::
  "uuid_env \<Rightarrow> upload_entry list \<Rightarrow> batch_result \<Rightarrow> dispatcher \<Rightarrow> dispatcher option" where
  "notify_all uenv accepted res d =
     (let wire = wireByKey accepted in
      case each (notify_output uenv wire) (br_InsertedOutputs res) d of
        None \<Rightarrow> None
      | Some d1 \<Rightarrow>
          (case each (notify_event uenv wire) (br_InsertedEvents res) d1 of
             None \<Rightarrow> None
           | Some d2 \<Rightarrow>
               (case each (notify_terminal uenv) (br_Terminals res) d2 of
                  None \<Rightarrow> None
                | Some d3 \<Rightarrow> each (notify_regrade uenv) (br_Regrades res) d3)))"

definition response_of ::
  "uuid_env \<Rightarrow> upload_rejection list \<Rightarrow> batch_result \<Rightarrow> upload_response" where
  "response_of uenv rejected res =
     \<lparr>resp_acks = map (\<lambda>a. \<lparr>ack_command_id = uuid_String uenv (sa_CommandID a),
          ack_last_progress_seq = sa_LastProgressSeq a, ack_last_event_seq = sa_LastEventSeq a,
          ack_result_acked = sa_ResultAcked a\<rparr>) (br_Acks res),
      resp_rejected = rejected @ map (\<lambda>r. \<lparr>rej_command_id = uuid_String uenv (sr_CommandID r),
          rej_kind = sr_Kind r, rej_seq_no = sr_SeqNo r, rej_reason = sr_Reason r\<rparr>) (br_Rejected res)\<rparr>"

definition ApplyCommandUpload ::
  "uuid_env \<Rightarrow> json_env \<Rightarrow> (upload_stmt \<Rightarrow> bool) \<Rightarrow> int \<Rightarrow> int \<Rightarrow> (dispatcher, upload_error) transport" where
  "ApplyCommandUpload uenv jenv fails now machineID d entries =
     (case split_entries uenv jenv entries of
        (ok, rejected) \<Rightarrow>
          (case ApplyCommandUploadBatch fails now machineID (map snd ok) (dp_db d) of
             (Inl err, db) \<Rightarrow> (Inl (StoreFailed err), d\<lparr>dp_db := db\<rparr>)
           | (Inr res, db) \<Rightarrow>
               (case notify_all uenv (map fst ok) res (d\<lparr>dp_db := db\<rparr>) of
                  None \<Rightarrow> (Inl Panicked, d\<lparr>dp_db := db\<rparr>)
                | Some d1 \<Rightarrow> (Inr (response_of uenv rejected res), d1))))"

section \<open>How a row can move\<close>

definition final_row :: "command_row \<Rightarrow> bool" where
  "final_row c \<longleftrightarrow> \<not> in_flight c \<and> \<not> regradable c"

text \<open>The machine's own verdict.\<close>

definition reported :: "command_row \<Rightarrow> bool" where
  "reported c \<longleftrightarrow>
     (c_Status c = CommandStatusCompleted \<and> c_FailureKind c \<in> {None, Some []}) \<or>
     (c_Status c = CommandStatusFailed \<and> c_FailureKind c = Some CommandFailureKindAgentFailed)"

definition same_outcome :: "command_row \<Rightarrow> command_row \<Rightarrow> bool" where
  "same_outcome c c' \<longleftrightarrow>
     c_Status c' = c_Status c \<and> c_FailureKind c' = c_FailureKind c \<and>
     c_CompletedAt c' = c_CompletedAt c \<and> c_ExitCode c' = c_ExitCode c \<and>
     c_DurationMs c' = c_DurationMs c \<and> c_ErrorMessage c' = c_ErrorMessage c"

definition row_step :: "command_row \<Rightarrow> command_row \<Rightarrow> bool" where
  "row_step c c' \<longleftrightarrow>
     c_ID c' = c_ID c \<and> c_MachineID c' = c_MachineID c \<and> c_AgentID c' = c_AgentID c \<and>
     (same_outcome c c' \<or> ((in_flight c \<or> regradable c) \<and> reported c'))"

abbreviation rows_step :: "command_db \<Rightarrow> command_db \<Rightarrow> bool" where
  "rows_step db db' \<equiv> list_all2 row_step (db_commands db) (db_commands db')"

lemmas row_defs = final_row_def in_flight_def regradable_def reported_def same_outcome_def
  status_defs failure_kind_defs

lemma row_step_refl [simp]: "row_step c c"
  by (simp add: row_step_def same_outcome_def)

lemma reported_final: "reported c \<Longrightarrow> final_row c"
  by (auto simp: row_defs)

lemma same_outcome_cong:
  "same_outcome c c' \<Longrightarrow> in_flight c' = in_flight c \<and> regradable c' = regradable c \<and>
     reported c' = reported c \<and> final_row c' = final_row c"
  by (simp add: row_defs)

lemma row_step_trans: "row_step a b \<Longrightarrow> row_step b c \<Longrightarrow> row_step a c"
proof -
  assume ab: "row_step a b" and bc: "row_step b c"
  have "same_outcome a b \<and> same_outcome b c \<Longrightarrow> same_outcome a c"
    by (simp add: same_outcome_def)
  with ab bc show ?thesis
    using same_outcome_cong [of a b] same_outcome_cong [of b c] reported_final [of b]
    by (auto simp: row_step_def final_row_def)
qed

lemma row_step_final: "row_step c c' \<Longrightarrow> final_row c \<Longrightarrow> final_row c'"
  using same_outcome_cong [of c c'] reported_final [of c'] by (auto simp: row_step_def)

lemma rows_step_refl [simp]: "rows_step db db"
  by (simp add: list_all2_refl)

lemma rows_step_trans: "rows_step a b \<Longrightarrow> rows_step b c \<Longrightarrow> rows_step a c"
  using list_all2_trans [of row_step row_step row_step] row_step_trans by blast

lemma rows_step_update:
  "(\<And>c. p c \<Longrightarrow> row_step c (f c)) \<Longrightarrow> rows_step db (update_where p f db)"
  by (simp add: update_where_def map_commands_def list_all2_conv_all_nth)

lemma terminal_update_step:
  "in_flight c \<Longrightarrow> row_step c (terminal_update ts e (result_status e) c)"
  by (simp add: row_step_def terminal_update_def reported_def result_status_def status_defs)

lemma regrade_update_step: "regradable c \<Longrightarrow> row_step c (regrade_update ts e c)"
  by (simp add: row_step_def regrade_update_def reported_def)

lemma late_update_step: "regradable c \<Longrightarrow> row_step c (late_update e c)"
  by (simp add: row_step_def late_update_def reported_def regradable_def)

lemma terminal_update_final: "final_row (terminal_update ts e (result_status e) c)"
  by (rule reported_final) (simp add: terminal_update_def reported_def result_status_def status_defs)

lemma regrade_update_final: "final_row (regrade_update ts e c)"
  by (rule reported_final) (simp add: regrade_update_def reported_def)

lemma late_update_final: "c_Status c = CommandStatusFailed \<Longrightarrow> final_row (late_update e c)"
  by (rule reported_final) (simp add: late_update_def reported_def)

section \<open>What a batch leaves behind\<close>

text \<open>An entry the tables hold: its row, its usage, or the end of its command.\<close>

definition stored :: "command_db \<Rightarrow> upload_row \<Rightarrow> bool" where
  "stored db e \<longleftrightarrow>
     (su_Kind e = KIND_PROGRESS \<longrightarrow> has_output db (su_CommandID e) (su_SeqNo e)) \<and>
     (su_Kind e = KIND_EVENT \<longrightarrow> has_event db (su_CommandID e) (su_SeqNo e) \<and>
        (su_HasTokenUsage e \<longrightarrow> has_usage db (su_CommandID e))) \<and>
     (su_Kind e = KIND_RESULT \<longrightarrow>
        (\<forall>c \<in> set (db_commands db). c_ID c = su_CommandID e \<longrightarrow> final_row c))"

definition mark_covers :: "watermark \<Rightarrow> upload_row \<Rightarrow> bool" where
  "mark_covers w e \<longleftrightarrow>
     (su_Kind e = KIND_PROGRESS \<and> su_SeqNo e \<le> w_progress w) \<or>
     (su_Kind e = KIND_EVENT \<and> su_SeqNo e \<le> w_event w) \<or>
     (su_Kind e = KIND_RESULT \<and> w_result w)"

definition refused :: "batch_result \<Rightarrow> upload_row \<Rightarrow> bool" where
  "refused res e \<longleftrightarrow>
     (\<exists>r \<in> set (br_Rejected res).
        (sr_CommandID r, sr_Kind r, sr_SeqNo r) = (su_CommandID e, su_Kind e, su_SeqNo e))"

definition row_accounted :: "batch_tx \<Rightarrow> upload_row \<Rightarrow> bool" where
  "row_accounted tx e \<longleftrightarrow>
     refused (tx_res tx) e \<or>
     ((\<exists>w. map_of (tx_marks tx) (su_CommandID e) = Some w \<and> mark_covers w e) \<and>
      (\<not> tx_aborted tx \<longrightarrow> stored (tx_db tx) e))"

definition mark_le :: "watermark \<Rightarrow> watermark \<Rightarrow> bool" where
  "mark_le w w' \<longleftrightarrow> w_progress w \<le> w_progress w' \<and> w_event w \<le> w_event w' \<and> (w_result w \<longrightarrow> w_result w')"

definition db_grows :: "command_db \<Rightarrow> command_db \<Rightarrow> bool" where
  "db_grows db db' \<longleftrightarrow>
     (\<forall>i q. has_output db i q \<longrightarrow> has_output db' i q) \<and>
     (\<forall>i q. has_event db i q \<longrightarrow> has_event db' i q) \<and>
     (\<forall>i. has_usage db i \<longrightarrow> has_usage db' i) \<and> rows_step db db'"

definition tx_le :: "batch_tx \<Rightarrow> batch_tx \<Rightarrow> bool" where
  "tx_le tx tx' \<longleftrightarrow>
     db_grows (tx_db tx) (tx_db tx') \<and> (tx_aborted tx \<longrightarrow> tx_aborted tx') \<and>
     (\<forall>i w. map_of (tx_marks tx) i = Some w \<longrightarrow>
        (\<exists>w'. map_of (tx_marks tx') i = Some w' \<and> mark_le w w')) \<and>
     set (br_Rejected (tx_res tx)) \<subseteq> set (br_Rejected (tx_res tx'))"

lemma db_grows_refl [simp]: "db_grows db db"
  by (simp add: db_grows_def)

lemma db_grows_trans: "db_grows a b \<Longrightarrow> db_grows b c \<Longrightarrow> db_grows a c"
  unfolding db_grows_def using rows_step_trans by blast

lemma mark_le_trans: "mark_le a b \<Longrightarrow> mark_le b c \<Longrightarrow> mark_le a c"
  by (auto simp: mark_le_def)

lemma mark_le_refl [simp]: "mark_le w w"
  by (simp add: mark_le_def)

lemma tx_le_refl [simp]: "tx_le tx tx"
  by (auto simp: tx_le_def)

lemma tx_le_trans: "tx_le a b \<Longrightarrow> tx_le b c \<Longrightarrow> tx_le a c"
  unfolding tx_le_def using db_grows_trans mark_le_trans by (meson subset_trans)

lemma stored_grows:
  assumes "stored db e" "db_grows db db'"
  shows "stored db' e"
proof -
  have "final_row c'" if t: "c' \<in> set (db_commands db')" "c_ID c' = su_CommandID e" "su_Kind e = KIND_RESULT" for c'
  proof -
    have l2: "rows_step db db'" using assms(2) by (simp add: db_grows_def)
    obtain c where "c \<in> set (db_commands db)" "row_step c c'"
      using list_all2_right [OF l2 t(1)] by blast
    with assms(1) t(2,3) row_step_final show ?thesis by (fastforce simp: stored_def row_step_def)
  qed
  with assms show ?thesis by (auto simp: stored_def db_grows_def)
qed

lemma mark_covers_le: "mark_covers w e \<Longrightarrow> mark_le w w' \<Longrightarrow> mark_covers w' e"
  by (auto simp: mark_covers_def mark_le_def)

lemma row_accounted_mono: "row_accounted tx e \<Longrightarrow> tx_le tx tx' \<Longrightarrow> row_accounted tx' e"
  unfolding row_accounted_def tx_le_def refused_def
  using stored_grows mark_covers_le by (meson subsetD)

lemma insert_output_grows: "db_grows db (snd (insert_output r db))"
  by (auto simp: insert_output_def db_grows_def has_output_def has_event_def has_usage_def)

lemma insert_event_grows: "db_grows db (snd (insert_event r db))"
  by (auto simp: insert_event_def db_grows_def has_output_def has_event_def has_usage_def)

lemma update_where_grows:
  "(\<And>c. p c \<Longrightarrow> row_step c (f c)) \<Longrightarrow> db_grows db (update_where p f db)"
  using rows_step_update [of p f db]
  by (auto simp: db_grows_def has_output_def has_event_def has_usage_def update_where_def map_commands_def)

lemma raise32_ge [simp]: "x \<le> raise32 c x" "c \<le> raise32 c x"
  by (simp_all add: raise32_def)

text \<open>Setting a mark that lies above the old one.\<close>

lemma set_mark_le:
  assumes "mark_le (mark_of tx cid) w" "db_grows (tx_db tx) (tx_db tx')"
    "tx_aborted tx \<longrightarrow> tx_aborted tx'" "tx_marks tx' = tx_marks tx"
    "set (br_Rejected (tx_res tx)) \<subseteq> set (br_Rejected (tx_res tx'))"
  shows "tx_le tx (set_mark cid w tx')"
  using assms by (auto simp: tx_le_def set_mark_def update_conv' mark_of_def split: option.splits)

lemma map_of_set_mark [simp]: "map_of (tx_marks (set_mark cid w tx)) cid = Some w"
  by (simp add: set_mark_def update_conv')

lemma set_mark_simps [simp]:
  "tx_db (set_mark cid w tx) = tx_db tx" "tx_aborted (set_mark cid w tx) = tx_aborted tx"
  "tx_res (set_mark cid w tx) = tx_res tx"
  by (simp_all add: set_mark_def)

lemma apply_progress_ok:
  assumes "apply_progress fails ts e tx = Inr tx'" "su_Kind e = KIND_PROGRESS"
  shows "tx_le tx tx' \<and> row_accounted tx' e"
proof -
  let ?row = "\<lparr>o_CommandID = su_CommandID e, o_SeqNo = su_SeqNo e, o_StreamType = su_StreamType e,
    o_Content = su_Content e, o_CreatedAt = ts\<rparr>"
  obtain ins db where i: "insert_output ?row (tx_db tx) = (ins, db)"
    by (cases "insert_output ?row (tx_db tx)")
  let ?w = "(mark_of tx (su_CommandID e))\<lparr>w_progress := raise32 (w_progress (mark_of tx (su_CommandID e))) (su_SeqNo e)\<rparr>"
  let ?tx = "set_mark (su_CommandID e) ?w (tx\<lparr>tx_db := db\<rparr>)"
  have tx': "tx_db tx' = db" "tx_aborted tx' = tx_aborted tx" "tx_marks tx' = tx_marks ?tx"
      "br_Rejected (tx_res tx') = br_Rejected (tx_res tx)"
    using assms(1) i by (auto simp: apply_progress_def Let_def split: if_splits)
  have grows: "db_grows (tx_db tx) db" "has_output db (su_CommandID e) (su_SeqNo e)"
    using insert_output_grows [of "tx_db tx" ?row] insert_output_has [of ?row "tx_db tx"] i by simp_all
  have "tx_le tx ?tx" by (rule set_mark_le) (use grows in \<open>simp_all add: mark_le_def\<close>)
  then have "tx_le tx tx'" using tx' by (simp add: tx_le_def)
  moreover have "mark_covers ?w e" "stored (tx_db tx') e"
    using assms(2) grows tx'(1) by (simp_all add: mark_covers_def stored_def)
  ultimately show ?thesis using tx'(3) by (auto simp: row_accounted_def)
qed

lemma recordUsage_ok:
  assumes "find_command_row (tx_db tx) (su_CommandID e) \<noteq> None"
  shows "db_grows (tx_db tx) (tx_db (recordCommandTokenUsageTx fails e tx)) \<and>
    (tx_aborted tx \<longrightarrow> tx_aborted (recordCommandTokenUsageTx fails e tx)) \<and>
    tx_marks (recordCommandTokenUsageTx fails e tx) = tx_marks tx \<and>
    tx_res (recordCommandTokenUsageTx fails e tx) = tx_res tx \<and>
    (\<not> tx_aborted (recordCommandTokenUsageTx fails e tx) \<longrightarrow>
       has_usage (tx_db (recordCommandTokenUsageTx fails e tx)) (su_CommandID e))"
  using assms
  by (auto simp: recordCommandTokenUsageTx_def stmt_ok_def db_grows_def has_output_def has_event_def
      has_usage_def split: option.splits)

lemma find_rows_step:
  assumes "rows_step db db'" "find_command_row db i = Some c"
  shows "\<exists>c'. find_command_row db' i = Some c' \<and> row_step c c'"
proof -
  have "list_all2 row_step xs ys \<Longrightarrow> find (\<lambda>c. c_ID c = i) xs = Some c \<Longrightarrow>
      \<exists>c'. find (\<lambda>c. c_ID c = i) ys = Some c' \<and> row_step c c'" for xs ys
    by (induction rule: list_all2_induct) (auto simp: row_step_def split: if_splits)
  with assms show ?thesis by (simp add: find_command_row_def)
qed

lemma apply_event_ok:
  assumes "apply_event fails now ts e tx = Inr tx'" "su_Kind e = KIND_EVENT"
    "find_command_row (tx_db tx) (su_CommandID e) \<noteq> None"
  shows "tx_le tx tx' \<and> row_accounted tx' e"
proof -
  let ?row = "\<lparr>e_CommandID = su_CommandID e, e_SeqNo = su_SeqNo e, e_EventType = su_EventType e,
    e_Summary = su_Summary e, e_PayloadJSON = (if su_PayloadJSON e = [] then ''{}'' else su_PayloadJSON e),
    e_CreatedAt = now\<rparr>"
  obtain ins db where i: "insert_event ?row (tx_db tx) = (ins, db)"
    by (cases "insert_event ?row (tx_db tx)")
  have grows: "db_grows (tx_db tx) db" "has_event db (su_CommandID e) (su_SeqNo e)"
    using insert_event_grows [of "tx_db tx" ?row] insert_event_has [of ?row "tx_db tx"] i by simp_all
  let ?tx0 = "tx\<lparr>tx_db := db\<rparr>"
  define tx1 where "tx1 = (if su_HasTokenUsage e then recordCommandTokenUsageTx fails e ?tx0 else ?tx0)"
  let ?w = "(mark_of tx1 (su_CommandID e))\<lparr>w_event := raise32 (w_event (mark_of tx1 (su_CommandID e))) (su_SeqNo e),
    w_ack := raise32 (w_ack (mark_of tx1 (su_CommandID e))) (su_SeqNo e)\<rparr>"
  have tx': "tx_db tx' = tx_db tx1" "tx_aborted tx' = tx_aborted tx1"
      "tx_marks tx' = tx_marks (set_mark (su_CommandID e) ?w tx1)"
      "br_Rejected (tx_res tx') = br_Rejected (tx_res tx1)"
    using assms(1) i by (auto simp: apply_event_def Let_def tx1_def split: if_splits)
  have "find_command_row (tx_db ?tx0) (su_CommandID e) \<noteq> None"
    using assms(3) find_rows_step grows(1) by (fastforce simp: db_grows_def)
  note u = recordUsage_ok [OF this, of fails]
  have t1: "db_grows (tx_db tx) (tx_db tx1)" "tx_aborted tx \<longrightarrow> tx_aborted tx1" "tx_marks tx1 = tx_marks tx"
      "tx_res tx1 = tx_res tx" "db_grows db (tx_db tx1)"
      "\<not> tx_aborted tx1 \<longrightarrow> su_HasTokenUsage e \<longrightarrow> has_usage (tx_db tx1) (su_CommandID e)"
    using u grows(1) db_grows_trans by (auto simp: tx1_def)
  have "tx_le tx (set_mark (su_CommandID e) ?w tx1)"
    by (rule set_mark_le) (use t1 in \<open>simp_all add: mark_le_def mark_of_def\<close>)
  then have "tx_le tx tx'" using tx' by (simp add: tx_le_def)
  moreover have "mark_covers ?w e" using assms(2) by (simp add: mark_covers_def)
  moreover have "\<not> tx_aborted tx' \<longrightarrow> stored (tx_db tx') e"
    using assms(2) grows(2) t1(5,6) tx'(1,2) by (simp add: stored_def db_grows_def)
  ultimately show ?thesis using tx'(3) by (auto simp: row_accounted_def)
qed

text \<open>Operations that only touch the database.\<close>

definition tx_db_step :: "batch_tx \<Rightarrow> batch_tx \<Rightarrow> bool" where
  "tx_db_step tx tx' \<longleftrightarrow>
     db_grows (tx_db tx) (tx_db tx') \<and> tx_aborted tx' = tx_aborted tx \<and> tx_marks tx' = tx_marks tx \<and>
     br_Rejected (tx_res tx') = br_Rejected (tx_res tx)"

lemma tx_db_step_le: "tx_db_step tx tx' \<Longrightarrow> tx_le tx tx'"
  by (auto simp: tx_db_step_def tx_le_def)

lemma tx_db_step_trans: "tx_db_step a b \<Longrightarrow> tx_db_step b c \<Longrightarrow> tx_db_step a c"
  using db_grows_trans by (auto simp: tx_db_step_def)

lemma appendRegrade_ok:
  "appendRegradeEventTx fails now cid tx = Inr (row, tx') \<Longrightarrow>
     tx_db_step tx tx' \<and> db_commands (tx_db tx') = db_commands (tx_db tx)"
  by (auto simp: appendRegradeEventTx_def tx_db_step_def Let_def db_grows_def has_output_def
      has_event_def has_usage_def split: if_splits)

lemma switch_updates:
  "db_grows db (update_where (\<lambda>c. c_ID c = cid \<and> in_flight c) (terminal_update ts e (result_status e)) db)"
  "db_grows db (update_where (\<lambda>c. c_ID c = cid \<and> regradable c) (regrade_update ts e) db)"
  "db_grows db (update_where (\<lambda>c. c_ID c = cid \<and> regradable c) (late_update e) db)"
  by (auto intro!: update_where_grows terminal_update_step regrade_update_step late_update_step)

lemma result_switch_step:
  assumes "result_switch fails now ts st e tx = Inr tx'"
  shows "tx_db_step tx tx'"
proof -
  consider (terminal) "tx_db tx' = update_where (\<lambda>c. c_ID c = su_CommandID e \<and> in_flight c)
        (terminal_update ts e (result_status e)) (tx_db tx)" "tx_aborted tx' = tx_aborted tx"
        "tx_marks tx' = tx_marks tx" "br_Rejected (tx_res tx') = br_Rejected (tx_res tx)"
    | (regrade) row tx2 where "appendRegradeEventTx fails now (su_CommandID e)
        (tx\<lparr>tx_db := update_where (\<lambda>c. c_ID c = su_CommandID e \<and> regradable c) (regrade_update ts e)
          (tx_db tx)\<rparr>) = Inr (row, tx2)" "tx_db tx' = tx_db tx2" "tx_aborted tx' = tx_aborted tx2"
        "tx_marks tx' = tx_marks tx2" "br_Rejected (tx_res tx') = br_Rejected (tx_res tx2)"
    | (late) "tx_db tx' = update_where (\<lambda>c. c_ID c = su_CommandID e \<and> regradable c) (late_update e)
        (tx_db tx)" "tx_aborted tx' = tx_aborted tx" "tx_marks tx' = tx_marks tx"
        "br_Rejected (tx_res tx') = br_Rejected (tx_res tx)"
    | (same) "tx' = tx"
    using assms by (auto simp: result_switch_def Let_def split: if_splits sum.splits)
  then show ?thesis
  proof cases
    case regrade
    from appendRegrade_ok [OF regrade(1)] regrade(2-5) switch_updates(2) [of "tx_db tx" "su_CommandID e" ts e]
    show ?thesis using db_grows_trans by (auto simp: tx_db_step_def)
  qed (auto simp: tx_db_step_def switch_updates)
qed

text \<open>The state the loop works with describes the row as it was loaded.\<close>

lemma load_state_row:
  assumes "db_wf db0" "load_state db0 cid = Some st" "c \<in> set (db_commands db0)" "c_ID c = cid"
  shows "cs_status st = c_Status c \<and> cs_failureKind st = coalesce_text (c_FailureKind c) \<and>
    cs_machineID st = coalesce_machine (c_MachineID c) \<and> cs_agentID st = c_AgentID c"
proof -
  have d: "distinct (map c_ID (db_commands db0))" using assms(1) by (simp add: db_wf_def)
  have "find (\<lambda>c. c_ID c = cid) xs = Some c" if "distinct (map c_ID xs)" "c \<in> set xs" for xs
    using that assms(4) by (induction xs) (auto simp: rev_image_eqI)
  with d assms(2,3) show ?thesis by (auto simp: load_state_def find_command_row_def)
qed

lemma unreachable_kind:
  "coalesce_text k = CommandFailureKindMachineUnreachable \<longleftrightarrow> k = Some CommandFailureKindMachineUnreachable"
  by (cases k) (auto simp: coalesce_text_def failure_kind_defs)

text \<open>What the switch does to the rows.\<close>

definition switch_row :: "int \<Rightarrow> cmd_state \<Rightarrow> upload_row \<Rightarrow> command_row \<Rightarrow> command_row" where
  "switch_row ts st e c =
     (if c_ID c \<noteq> su_CommandID e then c
      else if cs_status st = CommandStatusPending \<or> cs_status st = CommandStatusRunning then
        (if in_flight c then terminal_update ts e (result_status e) c else c)
      else if cs_status st = CommandStatusFailed \<and>
              cs_failureKind st = CommandFailureKindMachineUnreachable \<and> regradable c then
        (if result_status e = CommandStatusCompleted then regrade_update ts e c else late_update e c)
      else c)"

lemma result_switch_rows:
  assumes "result_switch fails now ts st e tx = Inr tx'"
  shows "db_commands (tx_db tx') = map (switch_row ts st e) (db_commands (tx_db tx))"
proof -
  have s: "result_status e = CommandStatusCompleted \<or> result_status e = CommandStatusFailed"
    "CommandStatusFailed \<noteq> CommandStatusCompleted" "CommandStatusFailed \<noteq> CommandStatusPending"
    "CommandStatusFailed \<noteq> CommandStatusRunning"
    by (simp_all add: result_status_def status_defs)
  consider (flight) "cs_status st = CommandStatusPending \<or> cs_status st = CommandStatusRunning"
    | (lost) "\<not> (cs_status st = CommandStatusPending \<or> cs_status st = CommandStatusRunning)"
        "cs_status st = CommandStatusFailed" "cs_failureKind st = CommandFailureKindMachineUnreachable"
    | (other) "\<not> (cs_status st = CommandStatusPending \<or> cs_status st = CommandStatusRunning)"
        "\<not> (cs_status st = CommandStatusFailed \<and> cs_failureKind st = CommandFailureKindMachineUnreachable)"
    by blast
  then show ?thesis
  proof cases
    case flight
    then have "tx_db tx' = update_where (\<lambda>c. c_ID c = su_CommandID e \<and> in_flight c)
        (terminal_update ts e (result_status e)) (tx_db tx)"
      using assms by (auto simp: result_switch_def Let_def split: if_splits)
    with flight show ?thesis
      by (auto simp: update_where_def map_commands_def switch_row_def)
  next
    case lost
    show ?thesis
    proof (cases "result_status e = CommandStatusCompleted")
      case True
      show ?thesis
      proof (cases "list_ex (\<lambda>c. c_ID c = su_CommandID e \<and> regradable c) (db_commands (tx_db tx))")
        case ex: True
        then obtain row tx2 where "appendRegradeEventTx fails now (su_CommandID e)
            (tx\<lparr>tx_db := update_where (\<lambda>c. c_ID c = su_CommandID e \<and> regradable c) (regrade_update ts e)
              (tx_db tx)\<rparr>) = Inr (row, tx2)" "tx_db tx' = tx_db tx2"
          using assms lost True s by (auto simp: result_switch_def Let_def split: if_splits sum.splits)
        from appendRegrade_ok [OF this(1)] this(2) lost True s show ?thesis
          by (auto simp: update_where_def map_commands_def switch_row_def)
      next
        case no: False
        then have "tx' = tx"
          using assms lost True s by (auto simp: result_switch_def Let_def split: if_splits)
        moreover have "map (switch_row ts st e) (db_commands (tx_db tx)) = db_commands (tx_db tx)"
          by (rule map_idI) (use no lost s in \<open>auto simp: switch_row_def list_ex_iff\<close>)
        ultimately show ?thesis by simp
      qed
    next
      case False
      then have "tx_db tx' = update_where (\<lambda>c. c_ID c = su_CommandID e \<and> regradable c) (late_update e)
          (tx_db tx)"
        using assms lost s by (auto simp: result_switch_def Let_def split: if_splits)
      with lost False s show ?thesis by (auto simp: update_where_def map_commands_def switch_row_def)
    qed
  next
    case other
    then have "tx' = tx" using assms by (auto simp: result_switch_def Let_def split: if_splits)
    moreover have "map (switch_row ts st e) (db_commands (tx_db tx)) = db_commands (tx_db tx)"
      by (rule map_idI) (use other in \<open>auto simp: switch_row_def\<close>)
    ultimately show ?thesis by simp
  qed
qed

lemma switch_row_final:
  assumes "row_step c c'" "c_ID c = su_CommandID e" "cs_status st = c_Status c"
    "cs_failureKind st = coalesce_text (c_FailureKind c)"
  shows "final_row (switch_row ts st e c')"
proof -
  have i: "c_ID c' = su_CommandID e" using assms(1,2) by (simp add: row_step_def)
  consider "same_outcome c c'" | "final_row c'"
    using assms(1) reported_final by (auto simp: row_step_def)
  then show ?thesis
  proof cases
    case 1
    then have s: "c_Status c' = c_Status c" "c_FailureKind c' = c_FailureKind c"
      by (simp_all add: same_outcome_def)
    show ?thesis
      using i assms(3,4) s late_update_final [of c' e]
      by (auto simp: switch_row_def terminal_update_final regrade_update_final in_flight_def
          regradable_def unreachable_kind final_row_def [of c'])
  next
    case 2
    then show ?thesis
      using i by (auto simp: switch_row_def final_row_def [of c'] terminal_update_final)
  qed
qed

lemma result_switch_final:
  assumes "db_wf db0" "rows_step db0 (tx_db tx)" "load_state db0 (su_CommandID e) = Some st"
    "result_switch fails now ts st e tx = Inr tx'"
    and "c'' \<in> set (db_commands (tx_db tx'))" "c_ID c'' = su_CommandID e"
  shows "final_row c''"
proof -
  obtain c' where c': "c' \<in> set (db_commands (tx_db tx))" "c'' = switch_row ts st e c'"
    using assms(5) unfolding result_switch_rows [OF assms(4)] by auto
  obtain c where c: "c \<in> set (db_commands db0)" "row_step c c'"
    using list_all2_right [OF assms(2) c'(1)] by blast
  have "c_ID (switch_row ts st e c') = c_ID c'"
    by (simp add: switch_row_def terminal_update_def regrade_update_def late_update_def)
  then have i: "c_ID c = su_CommandID e" using c'(2) c(2) assms(6) by (simp add: row_step_def)
  show ?thesis
    unfolding c'(2) using load_state_row [OF assms(1,3) c(1) i] c(2) i by (intro switch_row_final) auto
qed

text \<open>The summary update: it runs with both columns, does nothing with none, and is refused by the
  server with exactly one.\<close>

definition half_summary :: "upload_row \<Rightarrow> bool" where
  "half_summary e \<longleftrightarrow> (su_FinalSummary e = []) \<noteq> (su_ResultJSON e = [])"

lemma summaryTx_half:
  assumes "(finalSummary = []) \<noteq> (resultJSON = [])"
  shows "\<exists>err. updateCommandResultSummaryTx fails cid finalSummary resultJSON tx = Inl err"
  using assms by (auto simp: updateCommandResultSummaryTx_def exec_update_def placeholders_ok_def Let_def)

lemma summaryTx_both:
  assumes "finalSummary \<noteq> []" "resultJSON \<noteq> []"
  shows "updateCommandResultSummaryTx fails cid finalSummary resultJSON tx =
    (if stmt_ok fails (StSummary cid) tx
     then Inr (tx\<lparr>tx_db := update_where (\<lambda>c. c_ID c = cid)
            (\<lambda>c. c\<lparr>c_FinalSummary := finalSummary, c_ResultJSON := resultJSON\<rparr>) (tx_db tx)\<rparr>)
     else Inl (SqlError ''summary''))"
proof -
  let ?sets = "[(ColFinalSummary, 1), (ColResultJSON, 2)]"
  let ?args = "[VText finalSummary, VText resultJSON]"
  let ?f = "\<lambda>c. c\<lparr>c_FinalSummary := finalSummary, c_ResultJSON := resultJSON\<rparr>"
  have "numbered_sets (?sets, ?args)" by (simp add: numbered_sets_def upt_rec)
  moreover have "run_sets (?sets, ?args) c = Some (?f c)" for c by (simp add: run_sets_def)
  ultimately have "exec_update ?sets 3 (?args @ [VUuid cid]) (tx_db tx) =
      Inr (update_where (\<lambda>c. c_ID c = cid) ?f (tx_db tx))"
    using numbered_exec [of ?sets ?args ?f cid "tx_db tx"] by (simp add: numeral_3_eq_3)
  with assms show ?thesis by (simp add: updateCommandResultSummaryTx_def Let_def)
qed

lemma summaryTx_none: "updateCommandResultSummaryTx fails cid [] [] tx = Inr tx"
  by (simp add: updateCommandResultSummaryTx_def)

lemma summaryTx_step:
  assumes "updateCommandResultSummaryTx fails cid finalSummary resultJSON tx = Inr tx'"
  shows "tx_db_step tx tx' \<and> (\<exists>g. db_commands (tx_db tx') = map g (db_commands (tx_db tx)) \<and>
    (\<forall>c. same_outcome c (g c) \<and> c_ID (g c) = c_ID c))"
proof -
  have "(finalSummary = []) = (resultJSON = [])"
    using summaryTx_half [of finalSummary resultJSON fails cid tx] assms by auto
  then consider "finalSummary = []" "resultJSON = []" | "finalSummary \<noteq> []" "resultJSON \<noteq> []" by blast
  then show ?thesis
  proof cases
    case 1
    with assms have "tx' = tx" by (simp add: summaryTx_none)
    then show ?thesis by (auto simp: tx_db_step_def same_outcome_def intro!: exI [of _ "\<lambda>c. c"])
  next
    case 2
    let ?f = "\<lambda>c. c\<lparr>c_FinalSummary := finalSummary, c_ResultJSON := resultJSON\<rparr>"
    have tx': "tx' = tx\<lparr>tx_db := update_where (\<lambda>c. c_ID c = cid) ?f (tx_db tx)\<rparr>"
      using assms summaryTx_both [OF 2, of fails cid tx] by (simp split: if_splits)
    have "db_grows (tx_db tx) (update_where (\<lambda>c. c_ID c = cid) ?f (tx_db tx))"
      by (rule update_where_grows) (simp add: row_step_def same_outcome_def)
    then show ?thesis
      by (auto simp: tx' tx_db_step_def update_where_def map_commands_def same_outcome_def
          intro!: exI [of _ "\<lambda>c. if c_ID c = cid then ?f c else c"])
  qed
qed

lemma apply_result_ok:
  assumes "apply_result fails now ts st e tx = Inr tx'" "su_Kind e = KIND_RESULT"
    "db_wf db0" "rows_step db0 (tx_db tx)" "load_state db0 (su_CommandID e) = Some st"
  shows "tx_le tx tx' \<and> row_accounted tx' e \<and> \<not> half_summary e"
proof -
  obtain tx1 tx2 where t: "result_switch fails now ts st e tx = Inr tx1"
      "updateCommandResultSummaryTx fails (su_CommandID e) (su_FinalSummary e) (su_ResultJSON e) tx1 = Inr tx2"
      "tx' = set_mark (su_CommandID e) ((mark_of tx2 (su_CommandID e))\<lparr>w_result := True,
         w_ack := raise32 (w_ack (mark_of tx2 (su_CommandID e))) (su_LastSeqNo e)\<rparr>) tx2"
    using assms(1) by (auto simp: apply_result_def Let_def)
  obtain g where g: "tx_db_step tx1 tx2" "db_commands (tx_db tx2) = map g (db_commands (tx_db tx1))"
      "\<forall>c. same_outcome c (g c) \<and> c_ID (g c) = c_ID c"
    using summaryTx_step [OF t(2)] by blast
  have step: "tx_db_step tx tx2" using result_switch_step [OF t(1)] g(1) by (rule tx_db_step_trans)
  have "tx_le tx2 tx'" unfolding t(3) by (rule set_mark_le) (auto simp: mark_le_def)
  then have "tx_le tx tx'" using tx_db_step_le [OF step] tx_le_trans by blast
  moreover have "final_row c" if c: "c \<in> set (db_commands (tx_db tx'))" "c_ID c = su_CommandID e" for c
  proof -
    obtain c1 where c1: "c1 \<in> set (db_commands (tx_db tx1))" "c = g c1"
      using c(1) g(2) by (auto simp: t(3))
    then have "final_row c1"
      using result_switch_final [OF assms(3-5) t(1) c1(1)] c(2) g(3) by simp
    then show ?thesis using same_outcome_cong [of c1 c] g(3) c1(2) by simp
  qed
  then have "stored (tx_db tx') e" using assms(2) by (auto simp: stored_def)
  moreover have "\<not> half_summary e"
    using summaryTx_half [of "su_FinalSummary e" "su_ResultJSON e" fails "su_CommandID e" tx1] t(2)
    by (auto simp: half_summary_def)
  ultimately show ?thesis
    using assms(2) t(3) by (auto simp: row_accounted_def mark_covers_def)
qed

lemma reject_ok: "tx_le tx (reject e reason tx) \<and> row_accounted (reject e reason tx) e"
  by (auto simp: reject_def tx_le_def row_accounted_def refused_def)

lemma apply_entry_ok:
  assumes "apply_entry fails now machineID db0 e tx = Inr tx'" "db_wf db0" "rows_step db0 (tx_db tx)"
  shows "tx_le tx tx' \<and> row_accounted tx' e"
proof (cases "load_state db0 (su_CommandID e)")
  case None
  with assms(1) show ?thesis using reject_ok by (auto simp: apply_entry_def)
next
  case (Some st)
  have "find_command_row (tx_db tx) (su_CommandID e) \<noteq> None"
    using Some find_rows_step [OF assms(3)] by (fastforce simp: load_state_def)
  with Some assms show ?thesis
    using reject_ok [of tx e] apply_progress_ok [of fails _ e tx tx'] apply_event_ok [of fails now _ e tx tx']
      apply_result_ok [of fails now _ st e tx tx' db0]
    by (auto simp: apply_entry_def Let_def split: if_splits)
qed

lemma apply_entries_ok:
  assumes "apply_entries fails now machineID db0 es tx = Inr tx'" "db_wf db0" "rows_step db0 (tx_db tx)"
  shows "tx_le tx tx' \<and> (\<forall>e \<in> set es. row_accounted tx' e)"
  using assms(1,3)
proof (induction es arbitrary: tx)
  case (Cons e es)
  then obtain tx1 where t: "apply_entry fails now machineID db0 e tx = Inr tx1"
      "apply_entries fails now machineID db0 es tx1 = Inr tx'"
    by (auto split: sum.splits)
  note a = apply_entry_ok [OF t(1) assms(2) Cons.prems(2)]
  then have "rows_step db0 (tx_db tx1)"
    using Cons.prems(2) rows_step_trans by (auto simp: tx_le_def db_grows_def)
  with Cons.IH [OF t(2)] a show ?case using tx_le_trans row_accounted_mono by auto
qed simp

definition ack_of_mark :: "uuid \<times> watermark \<Rightarrow> store_ack" where
  "ack_of_mark m = \<lparr>sa_CommandID = fst m, sa_LastProgressSeq = w_progress (snd m),
     sa_LastEventSeq = w_event (snd m), sa_ResultAcked = w_result (snd m)\<rparr>"

lemma fold_marks_ok:
  assumes "fold_marks fails ms tx = Inr tx'"
  shows "db_grows (tx_db tx) (tx_db tx') \<and> tx_aborted tx' = tx_aborted tx \<and>
    tx_res tx' = (tx_res tx)\<lparr>br_Acks := br_Acks (tx_res tx) @ map ack_of_mark ms\<rparr>"
  using assms
proof (induction ms arbitrary: tx)
  case (Cons m ms)
  obtain cid w where m: "m = (cid, w)" by force
  define db1 where "db1 = (if w_ack w > 0 then update_where (\<lambda>c. c_ID c = cid)
    (\<lambda>c. c\<lparr>c_LastAckSeq := max (c_LastAckSeq c) (w_ack w)\<rparr>) (tx_db tx) else tx_db tx)"
  define tx1 where "tx1 = tx\<lparr>tx_db := db1, tx_res := (tx_res tx)\<lparr>br_Acks := br_Acks (tx_res tx) @ [ack_of_mark m]\<rparr>\<rparr>"
  have g: "db_grows (tx_db tx) db1"
    unfolding db1_def by (auto intro!: update_where_grows simp: row_step_def same_outcome_def)
  have "fold_marks fails ms tx1 = Inr tx'"
    using Cons.prems by (simp add: m tx1_def db1_def ack_of_mark_def Let_def split: if_splits)
  note ih = Cons.IH [OF this]
  have "db_grows (tx_db tx) (tx_db tx')"
    using ih db_grows_trans [OF g] by (simp add: tx1_def)
  with ih show ?case by (simp add: tx1_def)
qed simp

text \<open>Marks are set for accepted commands only, once each.\<close>

lemma marks_distinct:
  assumes "apply_entries fails now machineID db0 es tx = Inr tx'" "distinct (map fst (tx_marks tx))"
  shows "distinct (map fst (tx_marks tx'))"
proof -
  have "distinct (map fst (tx_marks tx1))"
    if "apply_entry fails now machineID db0 e tx = Inr tx1" "distinct (map fst (tx_marks tx))" for e tx tx1
  proof -
    have r: "tx_marks (recordCommandTokenUsageTx fails e x) = tx_marks x" for x
      by (simp add: recordCommandTokenUsageTx_def split: option.splits)
    have s: "tx_marks y = tx_marks x" if "result_switch fails now ts st e x = Inr y" for x y ts st
      using result_switch_step [OF that] by (simp add: tx_db_step_def)
    have u: "tx_marks y = tx_marks x" if "updateCommandResultSummaryTx fails c f j x = Inr y" for x y c f j
      using summaryTx_step [OF that] by (simp add: tx_db_step_def)
    show ?thesis
      using that
      by (auto simp: apply_entry_def apply_progress_def apply_event_def apply_result_def Let_def reject_def
          set_mark_def distinct_update r dest!: s u split: option.splits if_splits prod.splits)
  qed
  then show ?thesis
    using assms by (induction es arbitrary: tx) (auto split: sum.splits)
qed

lemma acks_untouched:
  "apply_entries fails now machineID db0 es tx = Inr tx' \<Longrightarrow> br_Acks (tx_res tx') = br_Acks (tx_res tx)"
proof (induction es arbitrary: tx)
  case (Cons e es)
  have r: "tx_res (recordCommandTokenUsageTx fails e x) = tx_res x" for x
    by (simp add: recordCommandTokenUsageTx_def split: option.splits)
  have u: "tx_res y = tx_res x" if "updateCommandResultSummaryTx fails c f j x = Inr y" for x y c f j
    using that by (auto simp: updateCommandResultSummaryTx_def Let_def split: if_splits sum.splits)
  have "br_Acks (tx_res tx1) = br_Acks (tx_res tx)" if "apply_entry fails now machineID db0 e tx = Inr tx1" for tx1
    using that
    by (auto simp: apply_entry_def apply_progress_def apply_event_def apply_result_def result_switch_def
        appendRegradeEventTx_def Let_def reject_def r dest!: u
        split: option.splits if_splits prod.splits sum.splits)
  with Cons show ?case by (auto split: sum.splits)
qed simp

section \<open>A committed batch\<close>

lemma batch_commit:
  assumes "ApplyCommandUploadBatch fails now machineID es db = (Inr res, db')" "es \<noteq> []"
  obtains tx tx' where "apply_entries fails now machineID db es (begin_tx db) = Inr tx"
    "fold_marks fails (tx_marks tx) tx = Inr tx'" "\<not> tx_aborted tx'" "res = tx_res tx'" "db' = tx_db tx'"
  using assms by (auto simp: ApplyCommandUploadBatch_def stmt_ok_def split: sum.splits if_splits)

lemma batch_error_rolls_back:
  "ApplyCommandUploadBatch fails now machineID es db = (Inl err, db') \<Longrightarrow> db' = db"
  by (auto simp: ApplyCommandUploadBatch_def split: sum.splits if_splits)

definition ack_covers_row :: "batch_result \<Rightarrow> upload_row \<Rightarrow> bool" where
  "ack_covers_row res e \<longleftrightarrow>
     (\<exists>a \<in> set (br_Acks res). sa_CommandID a = su_CommandID e \<and>
        ((su_Kind e = KIND_PROGRESS \<and> su_SeqNo e \<le> sa_LastProgressSeq a) \<or>
         (su_Kind e = KIND_EVENT \<and> su_SeqNo e \<le> sa_LastEventSeq a) \<or>
         (su_Kind e = KIND_RESULT \<and> sa_ResultAcked a)))"

lemma committed_batch:
  assumes "db_wf db" "ApplyCommandUploadBatch fails now machineID es db = (Inr res, db')"
  shows "db_grows db db' \<and> distinct (map sa_CommandID (br_Acks res)) \<and>
    (\<forall>e \<in> set es. refused res e \<or> (stored db' e \<and> ack_covers_row res e))"
proof (cases "es = []")
  case True
  then show ?thesis using assms(2) by (auto simp: ApplyCommandUploadBatch_def empty_result_def)
next
  case False
  obtain tx tx' where t: "apply_entries fails now machineID db es (begin_tx db) = Inr tx"
      "fold_marks fails (tx_marks tx) tx = Inr tx'" "\<not> tx_aborted tx'" "res = tx_res tx'" "db' = tx_db tx'"
    using batch_commit [OF assms(2) False] by blast
  have e: "tx_le (begin_tx db) tx" "\<forall>e \<in> set es. row_accounted tx e"
    using apply_entries_ok [OF t(1) assms(1)] by (simp_all add: begin_tx_def)
  have f: "db_grows (tx_db tx) db'" "\<not> tx_aborted tx" "br_Rejected res = br_Rejected (tx_res tx)"
      "br_Acks res = br_Acks (tx_res tx) @ map ack_of_mark (tx_marks tx)"
    using fold_marks_ok [OF t(2)] t(3-5) by auto
  have "br_Acks (tx_res tx) = []"
    using t(1) acks_untouched [of fails now machineID db es "begin_tx db"]
    by (simp add: begin_tx_def empty_result_def)
  then have acks: "br_Acks res = map ack_of_mark (tx_marks tx)"
    using f(4) by simp
  have "refused res e \<or> (stored db' e \<and> ack_covers_row res e)" if "e \<in> set es" for e
  proof -
    from e(2) that f(2) consider "refused (tx_res tx) e"
      | w where "map_of (tx_marks tx) (su_CommandID e) = Some w" "mark_covers w e" "stored (tx_db tx) e"
      by (auto simp: row_accounted_def)
    then show ?thesis
    proof cases
      case 2
      have "(su_CommandID e, w) \<in> set (tx_marks tx)" using 2(1) by (rule map_of_SomeD)
      then have "ack_covers_row res e"
        using 2(2) unfolding ack_covers_row_def acks mark_covers_def by (force simp: ack_of_mark_def)
      then show ?thesis using stored_grows [OF 2(3) f(1)] by simp
    qed (use f(3) in \<open>simp add: refused_def\<close>)
  qed
  moreover have "db_grows db db'" using e(1) f(1) db_grows_trans by (auto simp: tx_le_def begin_tx_def)
  moreover have "distinct (map sa_CommandID (br_Acks res))"
    using marks_distinct [OF t(1)] by (simp add: acks begin_tx_def comp_def ack_of_mark_def)
  ultimately show ?thesis by blast
qed

end
