(* ===== verification/Faulty_Disk.thy ===== *)
theory Faulty_Disk
  imports Uploader
begin

text \<open>
  The machine of \<open>Uploader\<close> on a disk that fails. Any operation of the log may fail, and one that fails leaves the records of the
  log as they were; what a caller may not assume is that it works the next time. The outbox answers a failed write by opening the log
  again and writing once more. When that fails too it moves the log aside with all that is in it, so the contract below asks that the
  first batch on a freshly opened log is written; opening may fail any number of times. Nothing is asked of the answers of \<open>ReadDir\<close>.
\<close>

section \<open>A disk that fails\<close>

text \<open>A log that has just been opened: its range is known and the next batch is written.\<close>

definition reopened :: "'w wal_env \<Rightarrow> ('w \<Rightarrow> nat \<times> bytes list) \<Rightarrow> 'w \<Rightarrow> bool" where
  "reopened env view w \<longleftrightarrow> (\<exists>lo. wal_FirstIndex env w = Inr lo) \<and> (\<exists>hi. wal_LastIndex env w = Inr hi) \<and>
     (\<forall>ps. map fst ps = [fst (view w) + length (snd (view w))..<fst (view w) + length (snd (view w)) + length ps] \<longrightarrow>
        fst (wal_WriteBatch env w ps) = None)"

definition disk_contract :: "'w wal_env \<Rightarrow> ('w \<Rightarrow> bool) \<Rightarrow> ('w \<Rightarrow> nat \<times> bytes list) \<Rightarrow> bool" where
  "disk_contract env ok view \<longleftrightarrow>
     (\<forall>w lo ds. ok w \<longrightarrow> view w = (lo, ds) \<longrightarrow>
        0 < lo \<and>
        (\<forall>x. wal_FirstIndex env w = Inr x \<longrightarrow> x = lo) \<and>
        (\<forall>x. wal_LastIndex env w = Inr x \<longrightarrow> x = lo + length ds - 1) \<and>
        (\<forall>i. lo \<le> i \<longrightarrow> i < lo + length ds \<longrightarrow>
           wal_Read env w i = Inr (ds ! (i - lo)) \<or> (\<exists>e. e \<noteq> WalNotFound \<and> wal_Read env w i = Inl e)) \<and>
        (\<forall>ps e w'. map fst ps = [lo + length ds..<lo + length ds + length ps] \<longrightarrow> wal_WriteBatch env w ps = (e, w') \<longrightarrow>
           ok w' \<and> view w' = (lo, if e = None then ds @ map snd ps else ds)) \<and>
        (\<forall>i e w'. lo \<le> i \<longrightarrow> i \<le> lo + length ds \<longrightarrow> wal_TruncateFront env w i = (e, w') \<longrightarrow>
           ok w' \<and> view w' = (if e = None then (i, drop (i - lo) ds) else (lo, ds))) \<and>
        (\<forall>e w'. wal_Close env w = (e, w') \<longrightarrow> ok w' \<and> view w' = (lo, ds)) \<and>
        (\<forall>e w'. wal_Open env w = (e, w') \<longrightarrow> ok w' \<and> view w' = (lo, ds) \<and> (e = None \<longrightarrow> reopened env view w')))"

lemma disk_contractD:
  assumes "disk_contract env ok view" "ok w" "view w = (lo, ds)"
  shows "0 < lo" "wal_FirstIndex env w = Inr x \<Longrightarrow> x = lo" "wal_LastIndex env w = Inr x \<Longrightarrow> x = lo + length ds - 1"
    "lo \<le> i \<Longrightarrow> i < lo + length ds \<Longrightarrow> wal_Read env w i = Inr (ds ! (i - lo)) \<or> (\<exists>e. e \<noteq> WalNotFound \<and> wal_Read env w i = Inl e)"
    "map fst ps = [lo + length ds..<lo + length ds + length ps] \<Longrightarrow> wal_WriteBatch env w ps = (e, w') \<Longrightarrow>
      ok w' \<and> view w' = (lo, if e = None then ds @ map snd ps else ds)"
    "lo \<le> i \<Longrightarrow> i \<le> lo + length ds \<Longrightarrow> wal_TruncateFront env w i = (e, w') \<Longrightarrow>
      ok w' \<and> view w' = (if e = None then (i, drop (i - lo) ds) else (lo, ds))"
    "wal_Close env w = (e, w') \<Longrightarrow> ok w' \<and> view w' = (lo, ds)"
    "wal_Open env w = (e, w') \<Longrightarrow> ok w' \<and> view w' = (lo, ds) \<and> (e = None \<longrightarrow> reopened env view w')"
  using assms(1) [unfolded disk_contract_def, rule_format, OF assms(2,3)] by blast+

lemma walRange_disk:
  assumes "disk_contract env ok view" "ok w" "walRange env w = Inr r"
  shows "r = (fst (view w), fst (view w) + length (snd (view w)) - 1)" "0 < fst (view w)"
  using disk_contractD(1-3) [OF assms(1,2) prod.collapse [symmetric]] assms(3) by (auto simp: walRange_def split: sum.splits)

text \<open>An outbox that has not been closed, on such a disk; it may have lost its handle of the log.\<close>

definition usable :: "'w wal_env \<Rightarrow> ('w \<Rightarrow> bool) \<Rightarrow> 'w outbox \<Rightarrow> bool" where
  "usable env ok ob \<longleftrightarrow> \<not> ob_closed ob \<and> ok (ob_world ob) \<and> (\<forall>e \<in> set (ob_buffered ob). roundtrips env e)"

text \<open>A step that leaves the queue: only the handle and the state of the disk may change.\<close>

definition same_records :: "'w wal_env \<Rightarrow> ('w \<Rightarrow> bool) \<Rightarrow> ('w \<Rightarrow> nat \<times> bytes list) \<Rightarrow> 'w outbox \<Rightarrow> 'w outbox \<Rightarrow> bool" where
  "same_records env ok view ob ob' \<longleftrightarrow> usable env ok ob' \<and> view (ob_world ob') = view (ob_world ob) \<and>
     ob_buffered ob' = ob_buffered ob \<and> ob_bufferedBytes ob' = ob_bufferedBytes ob"

lemma same_records_refl: "usable env ok ob \<Longrightarrow> same_records env ok view ob ob"
  by (simp add: same_records_def)

lemma same_records_trans:
  "same_records env ok view ob ob1 \<Longrightarrow> same_records env ok view ob1 ob2 \<Longrightarrow> same_records env ok view ob ob2"
  by (simp add: same_records_def)

definition grows :: "'w wal_env \<Rightarrow> ('w \<Rightarrow> bool) \<Rightarrow> ('w \<Rightarrow> nat \<times> bytes list) \<Rightarrow> 'w outbox \<Rightarrow> 'w outbox \<Rightarrow> bool" where
  "grows env ok view ob ob' \<longleftrightarrow>
     usable env ok ob' \<and> log_base view ob' = log_base view ob \<and>
     prefix (queue env view ob) (queue env view ob') \<and>
     length (log_data view ob) \<le> length (log_data view ob')"

lemma grows_trans: "grows env ok view ob ob1 \<Longrightarrow> grows env ok view ob1 ob2 \<Longrightarrow> grows env ok view ob ob2"
  by (auto simp: grows_def intro: prefix_order.trans)

lemma same_records_queue:
  assumes "same_records env ok view ob ob'"
  shows "queue env view ob' = queue env view ob" "log_base view ob' = log_base view ob" "log_data view ob' = log_data view ob"
    "grows env ok view ob ob'" "log_end view ob' = log_end view ob"
  using assms by (simp_all add: same_records_def queue_def log_base_def log_data_def grows_def log_end_def)

section \<open>Writing\<close>

lemma appendBatch_disk:
  assumes "disk_contract env ok view" "usable env ok ob" "appendBatchLocked env ob es = (r, ob')"
  shows "r \<noteq> None \<Longrightarrow> same_records env ok view ob ob'"
    "r = None \<Longrightarrow> \<exists>w. ob' = ob\<lparr>ob_world := w\<rparr> \<and> ok w \<and>
      view w = (log_base view ob, log_data view ob @ map (marshalEnvelope env) es)"
proof -
  have ok: "ok (ob_world ob)" using assms(2) by (simp add: usable_def)
  have v: "view (ob_world ob) = (log_base view ob, log_data view ob)" by (simp add: log_base_def log_data_def)
  have "r \<noteq> None \<and> ob' = ob \<or> (\<exists>e w. wal_WriteBatch env (ob_world ob) (wal_batch env (log_base view ob + length (log_data view ob)) es) = (e, w) \<and>
      r = map_option ErrWal e \<and> ob' = ob\<lparr>ob_world := w\<rparr>)"
    using assms(3) walRange_disk [OF assms(1) ok] v
    by (auto simp: appendBatchLocked_def split: if_splits sum.splits prod.splits)
  then show "r \<noteq> None \<Longrightarrow> same_records env ok view ob ob'"
    "r = None \<Longrightarrow> \<exists>w. ob' = ob\<lparr>ob_world := w\<rparr> \<and> ok w \<and>
      view w = (log_base view ob, log_data view ob @ map (marshalEnvelope env) es)"
    using disk_contractD(5) [OF assms(1) ok v, of "wal_batch env (log_base view ob + length (log_data view ob)) es"] assms(2) v
    by (auto simp: wal_batch_fst wal_batch_snd usable_def same_records_def)
qed

lemma reopen_disk:
  assumes "disk_contract env ok view" "usable env ok ob" "reopenLocked env ob = (r, ob')"
  shows "same_records env ok view ob ob'" "ob_log ob' \<longleftrightarrow> r = None" "r = None \<Longrightarrow> reopened env view (ob_world ob')"
proof -
  have ok: "ok (ob_world ob)" using assms(2) by (simp add: usable_def)
  note c = disk_contractD(7,8) [OF assms(1) _ prod.collapse [symmetric]]
  define w0 where "w0 = (if ob_log ob then snd (wal_Close env (ob_world ob)) else ob_world ob)"
  have w0: "ok w0" "view w0 = view (ob_world ob)"
    using c(1) [OF ok prod.collapse [symmetric]] ok by (auto simp: w0_def)
  obtain e w1 where o: "wal_Open env w0 = (e, w1)" by fastforce
  from c(2) [OF w0(1) o] w0(2) have w1: "ok w1" "view w1 = view (ob_world ob)" "e = None \<Longrightarrow> reopened env view w1" by simp_all
  have "r = map_option ErrWal e" "ob' = ob\<lparr>ob_world := w1, ob_log := (e = None)\<rparr>"
    using assms(3) o by (auto simp: reopenLocked_def openWAL_def w0_def [symmetric] split: option.splits)
  with w1 assms(2) show "same_records env ok view ob ob'" "ob_log ob' \<longleftrightarrow> r = None" "r = None \<Longrightarrow> reopened env view (ob_world ob')"
    by (auto simp: same_records_def usable_def)
qed

text \<open>The retry on a log that was opened again succeeds, so that the log is never moved aside.\<close>

lemma write_disk:
  assumes "disk_contract env ok view" "usable env ok ob" "writeLocked env ob es = (r, ob')"
  shows "r \<noteq> None \<Longrightarrow> same_records env ok view ob ob'"
    "r = None \<Longrightarrow> ob_buffered ob' = ob_buffered ob \<and> \<not> ob_closed ob' \<and> ok (ob_world ob') \<and>
      view (ob_world ob') = (log_base view ob, log_data view ob @ map (marshalEnvelope env) es)"
proof -
  obtain r1 ob1 where a: "appendBatchLocked env ob es = (r1, ob1)" by fastforce
  note a' = appendBatch_disk [OF assms(1,2) a]
  have "(r \<noteq> None \<longrightarrow> same_records env ok view ob ob') \<and>
    (r = None \<longrightarrow> ob_buffered ob' = ob_buffered ob \<and> \<not> ob_closed ob' \<and> ok (ob_world ob') \<and>
      view (ob_world ob') = (log_base view ob, log_data view ob @ map (marshalEnvelope env) es))"
  proof (cases r1)
    case None
    then have "r = None" "ob' = ob1" using assms(3) a by (simp_all add: writeLocked_def)
    with a'(2) [OF None] assms(2) show ?thesis by (auto simp: usable_def)
  next
    case (Some e)
    then have s1: "same_records env ok view ob ob1" using a'(1) by simp
    then have u1: "usable env ok ob1" by (simp add: same_records_def)
    obtain r2 ob2 where o: "reopenLocked env ob1 = (r2, ob2)" by fastforce
    note o' = reopen_disk [OF assms(1) u1 o]
    have s2: "same_records env ok view ob ob2" using s1 o'(1) by (rule same_records_trans)
    then have u2: "usable env ok ob2" by (simp add: same_records_def)
    show ?thesis
    proof (cases r2)
      case (Some e2)
      then have "r = Some e2" "ob' = ob2" using assms(3) a \<open>r1 = Some e\<close> o by (simp_all add: writeLocked_def)
      then show ?thesis using s2 by simp
    next
      case None
      have v: "view (ob_world ob2) = (log_base view ob, log_data view ob)"
        using s2 by (simp add: same_records_def log_base_def log_data_def)
      have l: "ob_log ob2" and re: "reopened env view (ob_world ob2)" using o'(2,3) None by simp_all
      obtain r3 ob3 where b: "appendBatchLocked env ob2 es = (r3, ob3)" by fastforce
      obtain lo hi where "walRange env (ob_world ob2) = Inr (lo, hi)" using re by (auto simp: reopened_def walRange_def)
      moreover from walRange_disk [OF assms(1) _ this] u2 v have "hi + 1 = log_base view ob + length (log_data view ob)"
        by (simp add: usable_def)
      moreover have "fst (wal_WriteBatch env (ob_world ob2) (wal_batch env (log_base view ob + length (log_data view ob)) es)) = None"
        using re v by (simp add: reopened_def wal_batch_fst)
      ultimately have "r3 = None"
        using b l by (auto simp: appendBatchLocked_def split: prod.splits)
      then have "r = None" "ob' = ob3" using assms(3) a \<open>r1 = Some e\<close> o None b by (simp_all add: writeLocked_def)
      with appendBatch_disk(2) [OF assms(1) u2 b \<open>r3 = None\<close>] s2 u2 v show ?thesis
        by (auto simp: same_records_def usable_def log_base_def log_data_def)
    qed
  qed
  then show "r \<noteq> None \<Longrightarrow> same_records env ok view ob ob'"
    "r = None \<Longrightarrow> ob_buffered ob' = ob_buffered ob \<and> \<not> ob_closed ob' \<and> ok (ob_world ob') \<and>
      view (ob_world ob') = (log_base view ob, log_data view ob @ map (marshalEnvelope env) es)" by blast+
qed

lemma flush_disk:
  assumes "disk_contract env ok view" "usable env ok ob" "flushLocked env ob = (r, ob')"
  shows "grows env ok view ob ob'" "queue env view ob' = queue env view ob" "r = None \<Longrightarrow> ob_buffered ob' = []"
proof -
  obtain r1 ob1 where w: "writeLocked env ob (ob_buffered ob) = (r1, ob1)" by fastforce
  note w' = write_disk [OF assms(1,2) w]
  have "grows env ok view ob ob' \<and> queue env view ob' = queue env view ob \<and> (r = None \<longrightarrow> ob_buffered ob' = [])"
  proof (cases "ob_buffered ob = []")
    case True
    then have "r = None" "ob' = ob" using assms(3) by (simp_all add: flushLocked_def)
    then show ?thesis using True same_records_queue [OF same_records_refl [OF assms(2)]] by simp
  next
    case False
    show ?thesis
    proof (cases r1)
      case None
      then have r: "r = None" "ob' = ob1\<lparr>ob_buffered := [], ob_bufferedBytes := 0\<rparr>" using assms(3) False w by (simp_all add: flushLocked_def)
      have "map (proto_Unmarshal env \<circ> marshalEnvelope env) (ob_buffered ob) = map Some (ob_buffered ob)"
        using assms(2) by (simp add: usable_def unmarshal_marshal)
      then have "queue env view ob' = queue env view ob" using w'(2) [OF None] r(2) by (simp add: queue_def log_data_def)
      then show ?thesis using w'(2) [OF None] r by (simp add: grows_def usable_def log_base_def log_data_def)
    next
      case (Some e)
      then have "r = Some e" "ob' = ob1" using assms(3) False w by (simp_all add: flushLocked_def)
      then show ?thesis using same_records_queue(1,4) [OF w'(1)] Some by simp
    qed
  qed
  then show "grows env ok view ob ob'" "queue env view ob' = queue env view ob" "r = None \<Longrightarrow> ob_buffered ob' = []" by blast+
qed

lemma Append_disk:
  assumes "disk_contract env ok view" "usable env ok ob" "roundtrips env e" "Append env ob e = (r, ob')"
  shows "grows env ok view ob ob'" "queue env view ob' = queue env view ob @ [Some e]"
proof -
  let ?ob1 = "ob\<lparr>ob_buffered := ob_buffered ob @ [e], ob_bufferedBytes := ob_bufferedBytes ob + int (proto_Size env e)\<rparr>"
  have u: "usable env ok ?ob1" using assms(2,3) by (auto simp: usable_def)
  have g: "grows env ok view ob ?ob1" "queue env view ?ob1 = queue env view ob @ [Some e]"
    using u by (simp_all add: grows_def log_base_def log_data_def queue_def)
  have "ob' = ?ob1 \<or> flushLocked env ?ob1 = (r, ob')"
    using assms(2,4) by (auto simp: Append_def usable_def Let_def split: if_splits)
  then show "grows env ok view ob ob'" "queue env view ob' = queue env view ob @ [Some e]"
    using flush_disk(1,2) [OF assms(1) u] grows_trans [OF g(1)] g by auto
qed

lemma Flush_disk:
  assumes "disk_contract env ok view" "usable env ok ob" "Flush env ob = (r, ob')"
  shows "grows env ok view ob ob'" "queue env view ob' = queue env view ob"
  using flush_disk [OF assms(1,2)] assms(2,3) by (auto simp: Flush_def usable_def)

lemma append_all_disk:
  assumes "disk_contract env ok view"
  shows "usable env ok ob \<Longrightarrow> \<forall>e \<in> set es. roundtrips env e \<Longrightarrow> append_all env ob es = (r, ob') \<Longrightarrow> grows env ok view ob ob'"
proof (induction es arbitrary: ob)
  case Nil
  then show ?case using same_records_queue(4) [OF same_records_refl] by simp
next
  case (Cons e es)
  obtain r1 ob1 where a: "Append env ob e = (r1, ob1)" by fastforce
  have g: "grows env ok view ob ob1" using Append_disk(1) [OF assms Cons.prems(1) _ a] Cons.prems(2) by simp
  then have u: "usable env ok ob1" by (simp add: grows_def)
  show ?case
  proof (cases r1)
    case None
    then have "append_all env ob1 es = (r, ob')" using Cons.prems(3) a by simp
    from grows_trans [OF g Cons.IH [OF u _ this]] Cons.prems(2) show ?thesis by simp
  qed (use Cons.prems(3) a g in simp)
qed

section \<open>Reading\<close>

lemma read_loop_disk:
  assumes "disk_contract env ok view" "ok w" "view w = (lo, ds)"
  shows "lo \<le> i \<Longrightarrow> rest = drop (i - lo) ds \<Longrightarrow>
    read_loop env w n cap i (lo + length ds - 1) acc =
      Some (ReadDone (acc @ numbered env i (shard (acc \<noteq> []) (n - length acc) cap rest))) \<or>
    (\<exists>e. read_loop env w n cap i (lo + length ds - 1) acc = Some (ReadFault e))"
proof (induction rest arbitrary: i cap acc)
  case Nil
  then have "lo + length ds - 1 < i"
    using disk_contractD(1) [OF assms] by (simp add: drop_eq_Nil)
  then show ?case by (subst (1 2) read_loop.simps) simp
next
  case (Cons d rest)
  from Cons.prems have i: "i - lo < length ds" by (metis drop_all list.distinct(1) not_le)
  with Cons.prems have d: "ds ! (i - lo) = d" and rest: "rest = drop (Suc i - lo) ds"
    by (metis Cons_nth_drop_Suc list.inject Suc_diff_le)+
  have nlt: "\<not> lo + length ds - 1 < i" using i Cons.prems(1) by linarith
  have rd: "wal_Read env w i = Inr d \<or> (\<exists>e. e \<noteq> WalNotFound \<and> wal_Read env w i = Inl e)"
    using disk_contractD(4) [OF assms, of i] i Cons.prems(1) d by auto
  let ?acc = "acc @ [read_record env i d]"
  note IH = Cons.IH [OF _ rest, of "cap - int (length d)" ?acc]
  show ?case
  proof (cases "length acc < n \<and> wal_Read env w i = Inr d")
    case False
    then show ?thesis using nlt rd by (subst (1 2) read_loop.simps) auto
  next
    case True
    then obtain m where m: "n - length acc = Suc m" by (metis Suc_diff_Suc)
    then have "n - length ?acc = m" by simp
    with True m IH Cons.prems(1) nlt show ?thesis by (subst (1 2) read_loop.simps) (auto simp: Let_def)
  qed
qed

lemma shard_batch:
  assumes "ob_buffered ob = []" "0 < log_base view ob" "c \<le> log_end view ob" "start = max (log_base view ob) c"
  shows "batch_ok env view c ob (numbered env start (shard False n cap (drop (start - log_base view ob) (log_data view ob))))"
proof -
  let ?ds = "drop (start - log_base view ob) (log_data view ob)"
  let ?sh = "shard False n cap ?ds"
  have p: "?sh = take (length ?sh) ?ds" by (metis shard_prefix append_eq_conv_conj prefix_def)
  then have "length ?sh \<le> length (log_data view ob) - (start - log_base view ob)" by (metis length_drop length_take min.cobounded1)
  then have "start + length ?sh \<le> log_end view ob" using assms(3,4) by (auto simp: log_end_def max_def split: if_splits)
  moreover have "map (proto_Unmarshal env) ?sh = take (length ?sh) (drop (start - log_base view ob) (queue env view ob))"
    using assms(1) by (subst p) (simp add: queue_def drop_map take_map)
  ultimately show ?thesis using assms(2,4) by (simp add: batch_ok_def Let_def numbered_entries numbered_indices)
qed

lemma ensureLog_disk:
  assumes "disk_contract env ok view" "usable env ok ob" "ensureLogLocked env ob = (r, ob')"
  shows "same_records env ok view ob ob'"
proof (cases "ob_log ob")
  case True
  then show ?thesis using assms(3) same_records_refl [OF assms(2)] by (simp add: ensureLogLocked_def)
next
  case False
  obtain x w where o: "wal_Open env (ob_world ob) = (x, w)" by fastforce
  have "ok (ob_world ob)" using assms(2) by (simp add: usable_def)
  from disk_contractD(8) [OF assms(1) this prod.collapse [symmetric] o] show ?thesis
    using assms(2,3) False o by (auto simp: ensureLogLocked_def openWAL_def same_records_def usable_def split: option.splits)
qed

text \<open>A read returns. It keeps the queue, and what it returns is the run of the log at the cursor.\<close>

lemma ReadRecords_disk:
  assumes "disk_contract env ok view" "usable env ok ob"
  shows "\<exists>res ob'. ReadRecords env ob n cap c = Some (res, ob') \<and> grows env ok view ob ob' \<and> queue env view ob' = queue env view ob \<and>
    (c \<le> log_end view ob \<longrightarrow> (\<forall>rs. res = Inr rs \<longrightarrow> batch_ok env view c ob' rs))"
proof -
  have closed: "\<not> ob_closed ob" using assms(2) by (simp add: usable_def)
  obtain r1 ob1 where e: "ensureLogLocked env ob = (r1, ob1)" by fastforce
  note s1 = ensureLog_disk [OF assms e]
  then have u1: "usable env ok ob1" by (simp add: same_records_def)
  note q1 = same_records_queue [OF s1]
  obtain r2 ob2 where f: "flushLocked env ob1 = (r2, ob2)" by fastforce
  note f' = flush_disk [OF assms(1) u1 f]
  have g2: "grows env ok view ob ob2" "queue env view ob2 = queue env view ob" using grows_trans [OF q1(4) f'(1)] f'(2) q1(1) by simp_all
  have u2: "usable env ok ob2" using g2(1) by (simp add: grows_def)
  then have ok2: "ok (ob_world ob2)" by (simp add: usable_def)
  show ?thesis
  proof (cases "r1 = None \<and> r2 = None \<and> \<not> isl (walRange env (ob_world ob2))")
    case False
    then show ?thesis using closed e f g2 q1(1,4) by (cases r1; cases r2; cases "walRange env (ob_world ob2)") (auto simp: ReadRecords_def)
  next
    case True
    let ?lo = "log_base view ob2" and ?ds = "log_data view ob2"
    have v: "view (ob_world ob2) = (?lo, ?ds)" by (simp add: log_base_def log_data_def)
    obtain r where "walRange env (ob_world ob2) = Inr r" using True by (cases "walRange env (ob_world ob2)") auto
    with walRange_disk [OF assms(1) ok2 this] v have wr: "walRange env (ob_world ob2) = Inr (?lo, ?lo + length ?ds - 1)" and pos: "0 < ?lo" by simp_all
    define start where "start = (let from' = (if c > ?lo + length ?ds - 1 + 1 then ?lo else c) in if from' > ?lo then from' else ?lo)"
    have st: "?lo \<le> start" by (simp add: start_def Let_def)
    obtain o' where o': "read_loop env (ob_world ob2) n cap start (?lo + length ?ds - 1) [] = Some o'"
      "o' = ReadDone (numbered env start (shard False n cap (drop (start - ?lo) ?ds))) \<or> (\<exists>e. o' = ReadFault e)"
      using read_loop_disk [OF assms(1) ok2 v st refl, of n cap "[]"] by auto
    have rr: "ReadRecords env ob n cap c = (case o' of ReadDone records \<Rightarrow> Some (Inr records, ob2) | ReadRangeErr e \<Rightarrow> Some (Inl e, ob2)
        | ReadFault rErr \<Rightarrow> (case reopenLocked env ob2 of (Some oErr, ob3) \<Rightarrow> Some (Inl (ErrJoin (ErrWal rErr) oErr), ob3)
            | (None, ob3) \<Rightarrow> Some (Inl (ErrWal rErr), ob3)))"
      using closed e f True wr o'(1) by (simp add: ReadRecords_def start_def Let_def)
    from o'(2) show ?thesis
    proof
      assume o: "o' = ReadDone (numbered env start (shard False n cap (drop (start - ?lo) ?ds)))"
      have "start = max ?lo c" if "c \<le> log_end view ob"
        using that pos g2(1) by (auto simp: start_def Let_def max_def log_end_def grows_def)
      moreover have "c \<le> log_end view ob2" if "c \<le> log_end view ob" using that g2(1) by (simp add: log_end_def grows_def)
      ultimately have "c \<le> log_end view ob \<longrightarrow> batch_ok env view c ob2 (numbered env start (shard False n cap (drop (start - ?lo) ?ds)))"
        using shard_batch [OF f'(3) pos] True by blast
      with o rr g2 show ?thesis by auto
    next
      assume "\<exists>e. o' = ReadFault e"
      then obtain rErr where o: "o' = ReadFault rErr" by blast
      obtain r3 ob3 where re: "reopenLocked env ob2 = (r3, ob3)" by fastforce
      note s3 = same_records_queue [OF reopen_disk(1) [OF assms(1) u2 re]]
      have "\<exists>err. ReadRecords env ob n cap c = Some (Inl err, ob3)" using rr o re by (cases r3) auto
      then show ?thesis using grows_trans [OF g2(1) s3(4)] g2(2) s3(1) by auto
    qed
  qed
qed

section \<open>Evicting\<close>

text \<open>An eviction of the records up to \<open>b\<close> does it or leaves the log alone.\<close>

definition evicted :: "'w wal_env \<Rightarrow> ('w \<Rightarrow> bool) \<Rightarrow> ('w \<Rightarrow> nat \<times> bytes list) \<Rightarrow> nat \<Rightarrow> 'w outbox \<Rightarrow> 'w outbox \<Rightarrow> bool" where
  "evicted env ok view b ob ob' \<longleftrightarrow> usable env ok ob' \<and> log_end view ob' = log_end view ob \<and>
     (queue env view ob' = queue env view ob \<and> log_base view ob' = log_base view ob \<or>
      queue env view ob' = drop (Suc b - log_base view ob) (queue env view ob) \<and> log_base view ob' = Suc b)"

lemma same_records_evicted: "same_records env ok view ob ob' \<Longrightarrow> evicted env ok view b ob ob'"
  using same_records_queue [of env ok view ob ob'] by (simp add: evicted_def same_records_def)

lemma EvictThrough_disk:
  assumes "disk_contract env ok view" "usable env ok ob" "log_base view ob \<le> b" "b < log_end view ob"
    "EvictThrough env ob b = (r, ob')"
  shows "evicted env ok view b ob ob'"
proof -
  have closed: "\<not> ob_closed ob" using assms(2) by (simp add: usable_def)
  obtain r1 ob1 where e: "ensureLogLocked env ob = (r1, ob1)" by fastforce
  note s1 = ensureLog_disk [OF assms(1,2) e]
  then have u1: "usable env ok ob1" and v: "view (ob_world ob1) = (log_base view ob, log_data view ob)"
    by (simp_all add: same_records_def log_base_def log_data_def)
  then have ok1: "ok (ob_world ob1)" by (simp add: usable_def)
  show ?thesis
  proof (cases "r1 = None \<and> \<not> isl (walRange env (ob_world ob1))")
    case False
    then have "ob' = ob1" using closed e assms(5) by (cases r1; cases "walRange env (ob_world ob1)") (auto simp: EvictThrough_def)
    then show ?thesis using same_records_evicted [OF s1] by simp
  next
    case True
    let ?lo = "log_base view ob" and ?ds = "log_data view ob"
    obtain x where "walRange env (ob_world ob1) = Inr x" using True by (cases "walRange env (ob_world ob1)") auto
    with walRange_disk [OF assms(1) ok1 this] v have wr: "walRange env (ob_world ob1) = Inr (?lo, ?lo + length ?ds - 1)" by simp
    have b: "\<not> ?lo + length ?ds - 1 < ?lo" "\<not> b < ?lo" "\<not> b > ?lo + length ?ds - 1" "?lo \<le> b + 1" "b + 1 \<le> ?lo + length ?ds"
      using assms(3,4) by (auto simp: log_end_def)
    obtain t w where t: "wal_TruncateFront env (ob_world ob1) (b + 1) = (t, w)" by fastforce
    note c = disk_contractD(6) [OF assms(1) ok1 v b(4,5) t]
    let ?ob2 = "ob1\<lparr>ob_world := w\<rparr>"
    have ev: "EvictThrough env ob b = (case t of None \<Rightarrow> (None, ?ob2)
        | Some err \<Rightarrow> if err = WalOutOfRange then (None, ?ob2)
            else case reopenLocked env ?ob2 of (Some rErr, ob2) \<Rightarrow> (Some (ErrJoin (ErrWal err) rErr), ob2) | (None, ob2) \<Rightarrow> (Some (ErrWal err), ob2))"
      using closed e True wr b(1-3) t by (simp add: EvictThrough_def Let_def)
    have buf: "ob_buffered ob1 = ob_buffered ob" using s1 by (simp add: same_records_def)
    show ?thesis
    proof (cases t)
      case None
      then have "ob' = ?ob2" using ev assms(5) by simp
      then show ?thesis using c None u1 buf assms(3,4)
        by (auto simp: evicted_def usable_def queue_def log_base_def log_data_def log_end_def drop_map)
    next
      case (Some err)
      have s2: "same_records env ok view ob ?ob2"
        using c Some s1 by (auto simp: same_records_def usable_def log_base_def log_data_def)
      then have u2: "usable env ok ?ob2" by (simp add: same_records_def)
      obtain r3 ob3 where re: "reopenLocked env ?ob2 = (r3, ob3)" by fastforce
      have "ob' = ?ob2 \<or> ob' = ob3" using ev Some assms(5) re by (auto split: if_splits option.splits)
      then show ?thesis
        using same_records_evicted [OF s2] same_records_evicted [OF same_records_trans [OF s2 reopen_disk(1) [OF assms(1) u2 re]]] by blast
    qed
  qed
qed

text \<open>The fold of a response moves the cursor over the settled prefix of the batch, whether or not the eviction works.\<close>

lemma settled_boundary:
  fixes resp :: upload_response
  assumes "batch_ok env view c ob rs"
  defines "start \<equiv> max (log_base view ob) c" and "k \<equiv> length (takeWhile (record_settled resp) rs)"
  shows "fst (fold_loop env resp rs (0, 0, False)) = (if k = 0 then 0 else start + k - 1)" "0 < start + k \<and> start + k \<le> log_end view ob"
proof -
  let ?pre = "takeWhile (record_settled resp) rs"
  have b: "0 < log_base view ob" "start + length rs \<le> log_end view ob" "map rec_Index rs = [start..<start + length rs]"
    using assms(1) by (simp_all add: batch_ok_def start_def Let_def)
  have k: "k \<le> length rs" "?pre = take k rs" unfolding k_def by (rule length_takeWhile_le, rule takeWhile_eq_take)
  show "0 < start + k \<and> start + k \<le> log_end view ob" using b(1,2) k(1) by (auto simp: start_def)
  have "rec_Index (last ?pre) = start + (k - 1)" if "?pre \<noteq> []"
  proof -
    have "map rec_Index ?pre = [start..<start + k]" using b(3) k by (metis add_le_cancel_left take_map take_upt)
    moreover have "last (map rec_Index ?pre) = rec_Index (last ?pre)" using that by (rule last_map)
    moreover have "0 < k" using that by (simp add: k_def)
    ultimately show ?thesis by simp
  qed
  moreover have "0 < k \<Longrightarrow> start + (k - 1) = start + k - 1" by simp
  ultimately show "fst (fold_loop env resp rs (0, 0, False)) = (if k = 0 then 0 else start + k - 1)"
    using fold_loop_boundary [of env resp rs 0 0 False] by (cases "?pre = []") (simp_all add: Let_def k_def)
qed

lemma fold_response_disk:
  fixes resp :: upload_response
  assumes "disk_contract env ok view" "usable env ok (up_ob u)" "batch_ok env view (up_readFrom u) (up_ob u) rs"
  defines "n \<equiv> max (log_base view (up_ob u)) (up_readFrom u) + length (takeWhile (record_settled resp) rs)"
  shows "takeWhile (record_settled resp) rs = [] \<Longrightarrow> fold_response env u rs resp = u"
    "takeWhile (record_settled resp) rs \<noteq> [] \<Longrightarrow> up_readFrom (fold_response env u rs resp) = n \<and>
       evicted env ok view (n - 1) (up_ob u) (up_ob (fold_response env u rs resp)) \<and> 0 < n \<and> n \<le> log_end view (up_ob u)"
proof -
  obtain b sz t where l: "fold_loop env resp rs (0, 0, False) = (b, sz, t)" by (cases "fold_loop env resp rs (0, 0, False)")
  note s = settled_boundary [OF assms(3), of resp, unfolded l fst_conv, folded n_def]
  show "fold_response env u rs resp = u" if "takeWhile (record_settled resp) rs = []"
    using s(1) that l by (simp add: fold_response_def)
  assume ne: "takeWhile (record_settled resp) rs \<noteq> []"
  then have k: "0 < length (takeWhile (record_settled resp) rs)" by simp
  then have b: "b = n - 1" "0 < n" "n \<le> log_end view (up_ob u)" using s by simp_all
  have lo: "0 < log_base view (up_ob u)" using assms(3) by (simp add: batch_ok_def Let_def)
  then have rng: "log_base view (up_ob u) \<le> b" "b < log_end view (up_ob u)" "b \<noteq> 0" using b k unfolding n_def by linarith+
  obtain r ob' where ev: "EvictThrough env (up_ob u) b = (r, ob')" by fastforce
  note e = EvictThrough_disk [OF assms(1,2) rng(1,2) ev]
  have same: "evicted env ok view b (up_ob u) (up_ob u)"
    using same_records_evicted [OF same_records_refl [OF assms(2)]] .
  have "up_readFrom (fold_response env u rs resp) = max (up_readFrom u) (b + 1)"
    using l rng(3) ev by (auto simp: fold_response_def Let_def setReadFrom_def addSettledBytes_def resetSettledBytes_def max_def split: option.splits)
  moreover have "up_readFrom u \<le> b + 1" using b(1,2) k by (simp add: n_def)
  moreover have "up_ob (fold_response env u rs resp) = up_ob u \<or> up_ob (fold_response env u rs resp) = ob'"
    using l rng(3) ev by (auto simp: fold_response_def Let_def setReadFrom_def addSettledBytes_def resetSettledBytes_def split: option.splits)
  ultimately show "up_readFrom (fold_response env u rs resp) = n \<and>
      evicted env ok view (n - 1) (up_ob u) (up_ob (fold_response env u rs resp)) \<and> 0 < n \<and> n \<le> log_end view (up_ob u)"
    using b e same by auto
qed

section \<open>The cursor\<close>

definition at_cursor ::
  "'w wal_env \<Rightarrow> ('w \<Rightarrow> bool) \<Rightarrow> ('w \<Rightarrow> nat \<times> bytes list) \<Rightarrow> (upload_entry \<Rightarrow> bool) \<Rightarrow> nat \<Rightarrow> 'w outbox \<Rightarrow> bool" where
  "at_cursor env ok view done c ob \<longleftrightarrow> usable env ok ob \<and> c \<le> log_end view ob \<and>
     list_all (accounted done) (take (c - log_base view ob) (queue env view ob))"

lemma at_cursor_grows:
  assumes "at_cursor env ok view done c ob" "grows env ok view ob ob'"
  shows "at_cursor env ok view done c ob'"
proof -
  obtain z where z: "queue env view ob' = queue env view ob @ z" using assms(2) by (auto simp: grows_def prefix_def)
  have "c - log_base view ob \<le> length (queue env view ob)"
    using assms(1) by (auto simp: at_cursor_def log_end_def queue_length)
  then show ?thesis using assms z by (auto simp: at_cursor_def grows_def log_end_def)
qed

lemma batch_ok_grows:
  assumes "batch_ok env view c ob rs" "grows env ok view ob ob'"
  shows "batch_ok env view c ob' rs"
proof -
  obtain z where z: "queue env view ob' = queue env view ob @ z" using assms(2) by (auto simp: grows_def prefix_def)
  let ?k = "max (log_base view ob) c - log_base view ob"
  have "?k + length rs \<le> length (queue env view ob)"
    using assms(1) by (auto simp: batch_ok_def log_end_def queue_length Let_def max_def split: if_splits)
  then have "take (length rs) (drop ?k (queue env view ob')) = take (length rs) (drop ?k (queue env view ob))"
    unfolding z by simp
  then show ?thesis using assms by (auto simp: batch_ok_def grows_def log_end_def Let_def)
qed

lemma at_cursor_mono:
  "at_cursor env ok view done c ob \<Longrightarrow> (\<And>e. done e \<Longrightarrow> done' e) \<Longrightarrow> at_cursor env ok view done' c ob"
  unfolding at_cursor_def by (auto simp: accounted_def elim!: list.pred_mono_strong split: option.splits)

section \<open>The uploader's operations\<close>

lemma cycle_start_disk:
  assumes "disk_contract env ok view" "at_cursor env ok view done (up_readFrom u) (up_ob u)" "cycle_start env now u = Some (r, u')"
  shows "up_readFrom u' = up_readFrom u \<and> grows env ok view (up_ob u) (up_ob u') \<and>
    (\<forall>rs. r = ReadBatch rs \<longrightarrow> batch_ok env view (up_readFrom u) (up_ob u') rs)"
proof -
  have "usable env ok (up_ob u)" "up_readFrom u \<le> log_end view (up_ob u)" using assms(2) by (auto simp: at_cursor_def)
  with ReadRecords_disk [OF assms(1), of "up_ob u" ReadBatchMaxEntries UploadMaxBytes "up_readFrom u"] assms(3) show ?thesis
    by (auto simp: cycle_start_def Let_def split: if_splits sum.splits)
qed

lemma blockingFor_disk:
  assumes "disk_contract env ok view" "usable env ok (up_ob u)" "blockingFor env u c = Some (r, u')"
  shows "up_readFrom u' = up_readFrom u \<and> grows env ok view (up_ob u) (up_ob u')"
  using ReadRecords_disk [OF assms(1,2), of ReadBatchMaxEntries UploadMaxBytes 0] assms(3)
  by (auto simp: blockingFor_def Let_def split: sum.splits)

lemma orphan_scan_disk:
  assumes "disk_contract env ok view" "orphan_scan env ob from gs = Some (r, ob')" "usable env ok ob"
  shows "grows env ok view ob ob'"
proof -
  have "env = env \<longrightarrow> usable env ok ob \<longrightarrow> grows env ok view ob (snd (r, ob'))"
  proof (rule orphan_scan.raw_induct [where P = "\<lambda>env' ob _ _ res. env' = env \<longrightarrow> usable env ok ob \<longrightarrow> grows env ok view ob (snd res)",
        OF _ assms(2)], intro impI)
    fix scan env' ob "from" gs res
    assume IH: "\<And>env' ob from gs res. scan env' ob from gs = Some res \<Longrightarrow>
        env' = env \<longrightarrow> usable env ok ob \<longrightarrow> grows env ok view ob (snd res)"
      and step: "(case ReadRecords env' ob ReadBatchMaxEntries UploadMaxBytes from of
            None \<Rightarrow> None
          | Some (Inl e, ob1) \<Rightarrow> Some (Inl e, ob1)
          | Some (Inr records, ob1) \<Rightarrow>
              if records = [] then Some (Inr gs, ob1)
              else scan env' ob1 (rec_Index (last records) + 1) (foldl group_record gs (batch_entries records))) = Some res"
      and env: "env' = env" and u: "usable env ok ob"
    obtain x ob1 where r: "ReadRecords env ob ReadBatchMaxEntries UploadMaxBytes from = Some (x, ob1)" "grows env ok view ob ob1"
      using ReadRecords_disk [OF assms(1) u] by blast
    then have u1: "usable env ok ob1" by (simp add: grows_def)
    show "grows env ok view ob (snd res)"
    proof (cases "\<exists>rs. x = Inr rs \<and> rs \<noteq> []")
      case True
      then obtain rs where "scan env ob1 (rec_Index (last rs) + 1) (foldl group_record gs (batch_entries rs)) = Some res"
        using step env r(1) by auto
      then have "grows env ok view ob1 (snd res)" using IH u1 by blast
      with r(2) show ?thesis by (rule grows_trans)
    qed (use step env r in \<open>auto split: sum.splits\<close>)
  qed
  then show ?thesis using assms(3) by simp
qed

lemma Synthesize_disk:
  fixes message :: string
  assumes "disk_contract env ok view" "usable env ok (up_ob u)" "\<forall>og. roundtrips env (syntheticTerminal message og)"
    "SynthesizeInterruptedTerminals env message u = Some (r, u')"
  shows "up_readFrom u' = up_readFrom u \<and> grows env ok view (up_ob u) (up_ob u')"
proof -
  obtain x ob1 where s: "orphan_scan env (up_ob u) 0 [] = Some (x, ob1)"
    using assms(4) by (auto simp: SynthesizeInterruptedTerminals_def orphanGroups_def split: option.splits)
  note g1 = orphan_scan_disk [OF assms(1) s assms(2)]
  show ?thesis
  proof (cases x)
    case (Inl e)
    then show ?thesis using assms(4) s g1 by (auto simp: SynthesizeInterruptedTerminals_def orphanGroups_def)
  next
    case (Inr gs)
    let ?ts = "map (syntheticTerminal message) (orphans_of gs)"
    obtain r2 ob2 where a: "append_all env ob1 ?ts = (r2, ob2)" by fastforce
    have "usable env ok ob1" using g1 by (simp add: grows_def)
    with assms(1,3) a have g2: "grows env ok view ob1 ob2" by (intro append_all_disk) auto
    then have u2: "usable env ok ob2" by (simp add: grows_def)
    obtain r3 ob3 where f: "Flush env ob2 = (r3, ob3)" by fastforce
    have "u' = u\<lparr>up_ob := ob2\<rparr> \<or> u' = u\<lparr>up_ob := ob3\<rparr>"
      using assms(4) s Inr a f by (auto simp: SynthesizeInterruptedTerminals_def orphanGroups_def split: option.splits)
    then show ?thesis
      using grows_trans [OF g1 g2] grows_trans [OF grows_trans [OF g1 g2] Flush_disk(1) [OF assms(1) u2 f]] by auto
  qed
qed

section \<open>No record is lost\<close>

definition nothing_lost ::
  "'w wal_env \<Rightarrow> ('w \<Rightarrow> bool) \<Rightarrow> ('w \<Rightarrow> nat \<times> bytes list) \<Rightarrow> ('s \<Rightarrow> upload_entry \<Rightarrow> bool) \<Rightarrow> ('w, 's) system \<Rightarrow> bool" where
  "nothing_lost env ok view handled y \<longleftrightarrow>
     at_cursor env ok view (handled (sys_srv y)) (up_readFrom (sys_up y)) (up_ob (sys_up y)) \<and>
     (\<forall>rs. sys_flight y = Some rs \<longrightarrow> batch_ok env view (up_readFrom (sys_up y)) (up_ob (sys_up y)) rs) \<and>
     (\<forall>e \<in> set (sys_appended y). Some e \<in> set (queue env view (up_ob (sys_up y))) \<or> handled (sys_srv y) e)"

lemma nothing_lost_grows:
  assumes "nothing_lost env ok view handled y" "grows env ok view (up_ob (sys_up y)) (up_ob u)" "up_readFrom u = up_readFrom (sys_up y)"
    "\<forall>e \<in> set new. Some e \<in> set (queue env view (up_ob u))"
  shows "nothing_lost env ok view handled (y\<lparr>sys_up := u, sys_appended := sys_appended y @ new\<rparr>)"
proof -
  have "set (queue env view (up_ob (sys_up y))) \<subseteq> set (queue env view (up_ob u))"
    using assms(2) by (auto simp: grows_def prefix_def)
  then show ?thesis
    using assms at_cursor_grows [OF _ assms(2)] batch_ok_grows [OF _ assms(2)] by (auto simp: nothing_lost_def)
qed

lemma nothing_lost_same:
  "nothing_lost env ok view handled y \<Longrightarrow> grows env ok view (up_ob (sys_up y)) (up_ob u) \<Longrightarrow>
     up_readFrom u = up_readFrom (sys_up y) \<Longrightarrow> nothing_lost env ok view handled (y\<lparr>sys_up := u\<rparr>)"
  using nothing_lost_grows [of env ok view handled y u "[]"] by simp

context upload_server
begin

lemma cycle_send_disk:
  assumes "disk_contract env ok view" "at_cursor env ok view (handled s) (up_readFrom u) (up_ob u)"
    "batch_ok env view (up_readFrom u) (up_ob u) rs" "cycle_send env upload now rs u s = (folded, u', s')" "valid s"
  shows "at_cursor env ok view (handled s') (up_readFrom u') (up_ob u') \<and>
    (\<forall>e. Some e \<in> set (queue env view (up_ob u)) \<longrightarrow> Some e \<in> set (queue env view (up_ob u')) \<or> handled s' e)"
proof (cases "fst (upload s (batch_entries rs))")
  case (Inl e)
  then have "upload s (batch_entries rs) = (Inl e, s')" "u' = recordFailure now u"
    using assms(4) by (auto simp: cycle_send_def Let_def split: prod.splits sum.splits)
  with at_cursor_mono [OF assms(2)] handled_mono [OF assms(5), of _ "batch_entries rs"] show ?thesis by simp
next
  case (Inr resp)
  let ?ob = "up_ob u" and ?u = "fold_response env (recordSuccess u) rs resp"
  let ?pre = "takeWhile (record_settled resp) rs"
  let ?n = "max (log_base view ?ob) (up_readFrom u) + length ?pre"
  have up: "upload s (batch_entries rs) = (Inr resp, s')" and u': "up_ob u' = up_ob ?u" "up_readFrom u' = up_readFrom ?u"
    using Inr assms(4) by (auto simp: cycle_send_def Let_def split: prod.splits sum.splits)
  have pre: "list_all (accounted (handled s)) (take (up_readFrom u - log_base view ?ob) (queue env view ?ob))"
    and us: "usable env ok (up_ob (recordSuccess u))" using assms(2) by (simp_all add: at_cursor_def)
  note all = settled_prefix_accounted [OF pre assms(3) up assms(5)]
  have b: "batch_ok env view (up_readFrom (recordSuccess u)) (up_ob (recordSuccess u)) rs" using assms(3) by simp
  note f = fold_response_disk [OF assms(1) us b, of resp, unfolded frame_simps]
  show ?thesis
  proof (cases "?pre = []")
    case True
    with f(1) u' at_cursor_mono [OF assms(2)] handled_mono [OF assms(5), of _ "batch_entries rs"] up
    show ?thesis by simp
  next
    case False
    from f(2) [OF this] have n: "up_readFrom ?u = ?n" "evicted env ok view (?n - 1) ?ob (up_ob ?u)" "Suc (?n - 1) = ?n" "?n \<le> log_end view ?ob"
      by simp_all
    have "set (queue env view ?ob) = set (take (?n - log_base view ?ob) (queue env view ?ob)) \<union>
        set (drop (?n - log_base view ?ob) (queue env view ?ob))"
      by (metis append_take_drop_id set_append)
    with all n u' show ?thesis
      unfolding at_cursor_def evicted_def n(3) by (auto simp: list_all_iff accounted_def split: option.splits)
  qed
qed

lemma sys_step_disk:
  assumes "disk_contract env ok view" "nothing_lost env ok view handled y" "sys_step env upload y z" "valid (sys_srv y)"
  shows "nothing_lost env ok view handled z \<and> valid (sys_srv z)"
proof -
  have cur: "at_cursor env ok view (handled (sys_srv y)) (up_readFrom (sys_up y)) (up_ob (sys_up y))"
    and u: "usable env ok (up_ob (sys_up y))"
    using assms(2) by (auto simp: nothing_lost_def at_cursor_def)
  have sent: "nothing_lost env ok view handled (y\<lparr>sys_up := u, sys_srv := s, sys_flight := None\<rparr>) \<and> valid s"
    if "sys_flight y = Some rs" "cycle_send env upload now rs (sys_up y) (sys_srv y) = (b, u, s)" for rs now b u s
  proof -
    have "batch_ok env view (up_readFrom (sys_up y)) (up_ob (sys_up y)) rs" using assms(2) that(1) by (simp add: nothing_lost_def)
    from cycle_send_disk [OF assms(1) cur this that(2) assms(4)] send_mono [OF that(2) assms(4)] assms(2)
    show ?thesis by (simp add: nothing_lost_def) blast
  qed
  show ?thesis
    using assms(3)
  proof cases
    case (append e err ob)
    with Append_disk [OF assms(1) u append(2,3)] nothing_lost_grows [OF assms(2), of "(sys_up y)\<lparr>up_ob := ob\<rparr>" "[e]"] assms(4)
    show ?thesis by simp
  next
    case (flush err ob)
    with Flush_disk(1) [OF assms(1) u flush(2)] nothing_lost_same [OF assms(2), of "(sys_up y)\<lparr>up_ob := ob\<rparr>"] assms(4)
    show ?thesis by simp
  next
    case (synthesize message err u)
    with Synthesize_disk [OF assms(1) u synthesize(2,3)] nothing_lost_same [OF assms(2), of u] assms(4)
    show ?thesis by simp
  next
    case (barrier c r u)
    with blockingFor_disk [OF assms(1) u barrier(2)] nothing_lost_same [OF assms(2), of u] assms(4)
    show ?thesis by simp
  next
    case flush_now
    with assms(2,4) show ?thesis by (simp add: nothing_lost_def)
  next
    case (bypass entry err s)
    have "s = sys_srv y \<or> (\<exists>e. s = snd (upload (sys_srv y) [e]))"
      using bypass(2) by (auto simp: BypassUpload_def split: option.splits sum.splits prod.splits) (metis snd_conv)+
    then have "valid s" "handled (sys_srv y) e \<Longrightarrow> handled s e" for e
      using handled_mono [OF assms(4)] valid_upload [OF assms(4)] assms(4) by auto
    with assms(2) bypass(1) at_cursor_mono [OF cur] show ?thesis by (auto simp: nothing_lost_def)
  next
    case (read now rs u)
    with cycle_start_disk [OF assms(1) cur read(3)] nothing_lost_same [OF assms(2), of u] assms(4)
    show ?thesis by (auto simp: nothing_lost_def)
  next
    case (idle now r u)
    with cycle_start_disk [OF assms(1) cur idle(3)] nothing_lost_same [OF assms(2), of u] assms(4)
    show ?thesis by simp
  next
    case (fail rs now u s)
    with sent [OF fail(2,3)] show ?thesis by simp
  next
    case (cap rs now u s)
    have "cycle_cap env u = u" using EnforceCap_below [OF cap(4)] by (simp add: cycle_cap_def)
    with cap(1) sent [OF cap(2,3)] show ?thesis by simp
  qed
qed

text \<open>Every entry the turn loop appended is still queued, or the manager has handled it.\<close>

lemma appended_survives:
  assumes "disk_contract env ok view" "usable env ok ob" "set es \<subseteq> set (q_entries (queue env view ob))"
    "sys_reach env upload (initial_system ob s es) y" "e \<in> set (sys_appended y)" "valid s"
  shows "Some e \<in> set (queue env view (up_ob (sys_up y))) \<or> handled (sys_srv y) e"
proof -
  have "nothing_lost env ok view handled (initial_system ob s es)"
    using assms(2,3) by (auto simp: nothing_lost_def initial_system_def NewUploader_def at_cursor_def)
  moreover have "valid (sys_srv (initial_system ob s es))" using assms(6) by (simp add: initial_system_def)
  ultimately have i: "nothing_lost env ok view handled (initial_system ob s es) \<and> valid (sys_srv (initial_system ob s es))" by simp
  from assms(4) have "nothing_lost env ok view handled y \<and> valid (sys_srv y)"
    by (induction rule: sys_reach.induct) (use i sys_step_disk [OF assms(1)] in blast)+
  with assms(5) show ?thesis by (auto simp: nothing_lost_def)
qed

end

section \<open>A log that fails\<close>

text \<open>The log of the examples with a fault: while the counter is not zero it refuses to read, write and truncate, and every attempt to
  open it counts down; the one that reaches zero works.\<close>

definition flaky_wal :: "upload_entry list \<Rightarrow> (nat \<times> nat \<times> bytes list) wal_env" where
  "flaky_wal es = (let good = reference_wal es in
     \<lparr>wal_Open = (\<lambda>(n, w). if n \<le> 1 then (None, (0, w)) else (Some (WalOther n), (n - 1, w))), wal_Close = (\<lambda>w. (None, w)),
      wal_FirstIndex = (\<lambda>(n, w). wal_FirstIndex good w), wal_LastIndex = (\<lambda>(n, w). wal_LastIndex good w),
      wal_WriteBatch = (\<lambda>(n, w) ps. if n = 0 then (None, (0, snd (wal_WriteBatch good w ps))) else (Some (WalOther n), (n, w))),
      wal_Read = (\<lambda>(n, w) i. if n = 0 then wal_Read good w i else Inl (WalOther n)),
      wal_TruncateFront = (\<lambda>(n, w) i. if n = 0 then (fst (wal_TruncateFront good w i), (0, snd (wal_TruncateFront good w i))) else (Some (WalOther n), (n, w))),
      os_Rename = (\<lambda>w. (None, w)), os_ReadDir = (\<lambda>w. DirError),
      proto_Marshal = proto_Marshal good, proto_Unmarshal = proto_Unmarshal good, proto_Size = proto_Size good\<rparr>)"

lemma flaky_contract: "disk_contract (flaky_wal es) (\<lambda>(n, w). reference_ok w) snd"
  by (auto simp: disk_contract_def reopened_def flaky_wal_def reference_wal_def reference_ok_def Let_def split: if_splits prod.splits)

lemma flaky_roundtrips: "e \<in> set es \<Longrightarrow> roundtrips (flaky_wal es) e"
  using reference_roundtrips [of e es] by (simp add: roundtrips_def flaky_wal_def Let_def)

definition flaky_outbox :: "nat \<Rightarrow> (nat \<times> nat \<times> bytes list) outbox" where
  "flaky_outbox n = fresh_outbox (n, 1, [])"

lemma flaky_usable: "usable (flaky_wal es) (\<lambda>(n, w). reference_ok w) (flaky_outbox n)"
  by (simp add: usable_def flaky_outbox_def fresh_outbox_def reference_ok_def)

end
