(* ===== verification/Upload_Server.thy ===== *)
theory Upload_Server
  imports Command_Upload Faulty_Disk
begin

text \<open>
  What the upload transaction guarantees to the machine: which entries are taken and which are
  refused and why, what an entry may touch, that a retransmitted batch changes nothing, and that
  the handler answers every well-formed batch. The handler, behind a transport that records its
  responses, thereby provides the interfaces \<open>upload_server\<close> and \<open>draining_server\<close> the uploader
  relies on.
\<close>


section \<open>Which entries are taken\<close>

text \<open>The reason for which an entry is refused, read off the database at the start of the batch.\<close>

definition reject_reason :: "int \<Rightarrow> command_db \<Rightarrow> upload_row \<Rightarrow> string option" where
  "reject_reason machineID db e =
     (case find_command_row db (su_CommandID e) of
        None \<Rightarrow> Some ''command not found''
      | Some c \<Rightarrow>
          if coalesce_machine (c_MachineID c) \<noteq> machineID
          then Some ''command is not bound to the authenticated machine''
          else if su_SeqNo e < 1 then Some ''sequence number must be positive''
          else if su_Kind e \<notin> {KIND_PROGRESS, KIND_EVENT, KIND_RESULT} then Some ''unknown upload entry kind''
          else None)"

definition bump :: "upload_row \<Rightarrow> watermark \<Rightarrow> watermark" where
  "bump e w =
     (if su_Kind e = KIND_PROGRESS then w\<lparr>w_progress := raise32 (w_progress w) (su_SeqNo e)\<rparr>
      else if su_Kind e = KIND_EVENT then w\<lparr>w_event := raise32 (w_event w) (su_SeqNo e),
         w_ack := raise32 (w_ack w) (su_SeqNo e)\<rparr>
      else w\<lparr>w_result := True, w_ack := raise32 (w_ack w) (su_LastSeqNo e)\<rparr>)"

definition mark_in :: "(uuid \<times> watermark) list \<Rightarrow> uuid \<Rightarrow> watermark" where
  "mark_in ms cid = (case map_of ms cid of None \<Rightarrow> zero_mark | Some w \<Rightarrow> w)"

definition mark_step :: "upload_row \<Rightarrow> (uuid \<times> watermark) list \<Rightarrow> (uuid \<times> watermark) list" where
  "mark_step e ms = AList.update (su_CommandID e) (bump e (mark_in ms (su_CommandID e))) ms"

definition rejection_of :: "int \<Rightarrow> command_db \<Rightarrow> upload_row \<Rightarrow> store_rejection option" where
  "rejection_of machineID db e =
     map_option (\<lambda>reason. \<lparr>sr_CommandID = su_CommandID e, sr_Kind = su_Kind e, sr_SeqNo = su_SeqNo e,
       sr_Reason = reason\<rparr>) (reject_reason machineID db e)"

lemma mark_of_in: "mark_of tx = mark_in (tx_marks tx)"
  by (simp add: fun_eq_iff mark_of_def mark_in_def)

lemma usageTx_frame [simp]:
  "tx_marks (recordCommandTokenUsageTx fails e tx) = tx_marks tx"
  "tx_res (recordCommandTokenUsageTx fails e tx) = tx_res tx"
  by (simp_all add: recordCommandTokenUsageTx_def split: option.splits)

lemma summaryTx_res:
  "updateCommandResultSummaryTx fails c f j tx = Inr tx' \<Longrightarrow> tx_res tx' = tx_res tx"
  by (auto simp: updateCommandResultSummaryTx_def Let_def split: if_splits sum.splits)

lemma apply_progress_marks:
  assumes "apply_progress fails ts e tx = Inr tx'" "su_Kind e = KIND_PROGRESS"
  shows "tx_marks tx' = mark_step e (tx_marks tx) \<and> br_Rejected (tx_res tx') = br_Rejected (tx_res tx)"
  using assms by (auto simp: apply_progress_def Let_def mark_step_def bump_def mark_of_in set_mark_def
      split: if_splits prod.splits)

lemma apply_event_marks:
  assumes "apply_event fails now ts e tx = Inr tx'" "su_Kind e = KIND_EVENT"
  shows "tx_marks tx' = mark_step e (tx_marks tx) \<and> br_Rejected (tx_res tx') = br_Rejected (tx_res tx)"
  using assms by (auto simp: apply_event_def Let_def mark_step_def bump_def mark_of_in set_mark_def
      split: if_splits prod.splits)

lemma result_switch_rejected:
  "result_switch fails now ts st e tx = Inr tx' \<Longrightarrow> br_Rejected (tx_res tx') = br_Rejected (tx_res tx)"
  by (auto simp: result_switch_def appendRegradeEventTx_def Let_def
      split: if_splits prod.splits sum.splits)

lemma apply_result_marks:
  assumes "apply_result fails now ts st e tx = Inr tx'" "su_Kind e = KIND_RESULT"
  shows "tx_marks tx' = mark_step e (tx_marks tx) \<and> br_Rejected (tx_res tx') = br_Rejected (tx_res tx)"
proof -
  obtain tx1 tx2 where t: "result_switch fails now ts st e tx = Inr tx1"
      "updateCommandResultSummaryTx fails (su_CommandID e) (su_FinalSummary e) (su_ResultJSON e) tx1 = Inr tx2"
      "tx' = set_mark (su_CommandID e) (bump e (mark_in (tx_marks tx2) (su_CommandID e))) tx2"
    using assms by (auto simp: apply_result_def Let_def mark_of_in bump_def)
  moreover have "tx_marks tx2 = tx_marks tx"
    using result_switch_step [OF t(1)] summaryTx_step [OF t(2)] by (simp add: tx_db_step_def)
  ultimately show ?thesis
    using result_switch_rejected [OF t(1)] summaryTx_res [OF t(2)] by (simp add: mark_step_def set_mark_def)
qed

lemma apply_entry_rejected:
  "reject_reason machineID db0 e = Some reason \<Longrightarrow>
     apply_entry fails now machineID db0 e tx = Inr (reject e reason tx)"
  by (auto simp: reject_reason_def apply_entry_def load_state_def split: option.splits if_splits)

lemma reject_reason_None:
  assumes "reject_reason machineID db0 e = None"
  obtains c where "find_command_row db0 (su_CommandID e) = Some c" "coalesce_machine (c_MachineID c) = machineID"
    "1 \<le> su_SeqNo e" "su_Kind e \<in> {KIND_PROGRESS, KIND_EVENT, KIND_RESULT}"
  using assms by (auto simp: reject_reason_def split: option.splits if_splits)

definition entry_time :: "int \<Rightarrow> upload_row \<Rightarrow> int" where
  "entry_time now e = (case su_Timestamp e of None \<Rightarrow> now | Some t \<Rightarrow> t)"

lemma apply_entry_accepted:
  assumes "reject_reason machineID db0 e = None"
  obtains st where "load_state db0 (su_CommandID e) = Some st" "cs_machineID st = machineID"
    "apply_entry fails now machineID db0 e tx =
      (if su_Kind e = KIND_PROGRESS then apply_progress fails (entry_time now e) e tx
       else if su_Kind e = KIND_EVENT then apply_event fails now (entry_time now e) e tx
       else apply_result fails now (entry_time now e) st e tx)"
    "su_Kind e \<in> {KIND_PROGRESS, KIND_EVENT, KIND_RESULT}" "1 \<le> su_SeqNo e"
proof -
  obtain c where c: "find_command_row db0 (su_CommandID e) = Some c" "coalesce_machine (c_MachineID c) = machineID"
    "1 \<le> su_SeqNo e" "su_Kind e \<in> {KIND_PROGRESS, KIND_EVENT, KIND_RESULT}"
    using assms by (rule reject_reason_None)
  show ?thesis
    by (rule that) (use c in \<open>auto simp: apply_entry_def load_state_def entry_time_def Let_def\<close>)
qed

lemma apply_entry_marks:
  assumes "apply_entry fails now machineID db0 e tx = Inr tx'"
  shows "tx_marks tx' = (if reject_reason machineID db0 e = None then mark_step e (tx_marks tx) else tx_marks tx) \<and>
    br_Rejected (tx_res tx') = br_Rejected (tx_res tx) @ List.map_filter (rejection_of machineID db0) [e]"
proof (cases "reject_reason machineID db0 e")
  case None
  obtain st where "load_state db0 (su_CommandID e) = Some st"
    "apply_entry fails now machineID db0 e tx =
      (if su_Kind e = KIND_PROGRESS then apply_progress fails (entry_time now e) e tx
       else if su_Kind e = KIND_EVENT then apply_event fails now (entry_time now e) e tx
       else apply_result fails now (entry_time now e) st e tx)"
    "su_Kind e \<in> {KIND_PROGRESS, KIND_EVENT, KIND_RESULT}"
    using apply_entry_accepted [OF None, of fails now tx] by blast
  with None assms show ?thesis
    using apply_progress_marks apply_event_marks apply_result_marks
    by (auto simp: rejection_of_def map_filter_def split: if_splits)
next
  case (Some reason)
  with assms apply_entry_rejected [OF Some, of fails now tx] show ?thesis
    by (auto simp: reject_def rejection_of_def map_filter_def)
qed

definition batch_marks ::
  "int \<Rightarrow> command_db \<Rightarrow> upload_row list \<Rightarrow> (uuid \<times> watermark) list \<Rightarrow> (uuid \<times> watermark) list" where
  "batch_marks machineID db es ms =
     foldl (\<lambda>ms e. mark_step e ms) ms (filter (\<lambda>e. reject_reason machineID db e = None) es)"

lemma apply_entries_marks:
  "apply_entries fails now machineID db0 es tx = Inr tx' \<Longrightarrow>
     tx_marks tx' = batch_marks machineID db0 es (tx_marks tx) \<and>
     br_Rejected (tx_res tx') = br_Rejected (tx_res tx) @ List.map_filter (rejection_of machineID db0) es"
proof (induction es arbitrary: tx)
  case (Cons e es)
  then obtain tx1 where t: "apply_entry fails now machineID db0 e tx = Inr tx1"
      "apply_entries fails now machineID db0 es tx1 = Inr tx'"
    by (auto split: sum.splits)
  show ?case
    using Cons.IH [OF t(2)] apply_entry_marks [OF t(1)]
    by (auto simp: batch_marks_def map_filter_def)
qed (simp add: batch_marks_def map_filter_def)

lemma batch_response:
  assumes "ApplyCommandUploadBatch fails now machineID es db = (Inr res, db')"
  shows "br_Rejected res = List.map_filter (rejection_of machineID db) es \<and>
    br_Acks res = map ack_of_mark (batch_marks machineID db es [])"
proof (cases "es = []")
  case True
  then show ?thesis
    using assms by (auto simp: ApplyCommandUploadBatch_def empty_result_def batch_marks_def map_filter_def)
next
  case False
  obtain tx tx' where t: "apply_entries fails now machineID db es (begin_tx db) = Inr tx"
      "fold_marks fails (tx_marks tx) tx = Inr tx'" "res = tx_res tx'"
    using batch_commit [OF assms False] by blast
  show ?thesis
    using apply_entries_marks [OF t(1)] fold_marks_ok [OF t(2)] t(3) acks_untouched [OF t(1)]
    by (simp add: begin_tx_def empty_result_def)
qed


section \<open>What an entry may touch\<close>

definition summary_cols :: "command_row \<Rightarrow> string \<times> string" where
  "summary_cols c = (c_FinalSummary c, c_ResultJSON c)"

definition summary_step :: "upload_row \<Rightarrow> string \<times> string \<Rightarrow> string \<times> string" where
  "summary_step e sj =
     (if su_Kind e = KIND_RESULT \<and> su_FinalSummary e \<noteq> [] \<and> su_ResultJSON e \<noteq> []
      then (su_FinalSummary e, su_ResultJSON e) else sj)"

text \<open>The database changes for one command only: its rows keep their keys and take the summary
  \<open>g\<close> prescribes, its logs are extended, every key stays unique.\<close>

definition db_effect ::
  "uuid \<Rightarrow> (string \<times> string \<Rightarrow> string \<times> string) \<Rightarrow> command_db \<Rightarrow> command_db \<Rightarrow> bool" where
  "db_effect cid g db db' \<longleftrightarrow>
     (\<exists>f os es us.
        db' = db\<lparr>db_commands := map f (db_commands db), db_outputs := db_outputs db @ os,
                db_events := db_events db @ es, db_usage := db_usage db @ us\<rparr> \<and>
        (\<forall>c. c_ID (f c) = c_ID c) \<and> (\<forall>c. c_ID c \<noteq> cid \<longrightarrow> f c = c) \<and>
        (\<forall>c. c_ID c = cid \<longrightarrow> summary_cols (f c) = g (summary_cols c)) \<and>
        (\<forall>r \<in> set os. o_CommandID r = cid) \<and> (\<forall>r \<in> set es. e_CommandID r = cid) \<and>
        (\<forall>r \<in> set us. u_CommandID r = cid)) \<and>
     (db_wf db \<longrightarrow> db_wf db')"

lemma db_effect_refl [simp]: "db_effect cid (\<lambda>x. x) db db"
  unfolding db_effect_def
  by (intro conjI exI [of _ "\<lambda>c. c"] exI [of _ "[]"]) simp_all

lemma db_effect_trans:
  assumes "db_effect cid g a b" "db_effect cid h b c"
  shows "db_effect cid (\<lambda>x. h (g x)) a c"
proof -
  obtain f os es us where 1: "b = a\<lparr>db_commands := map f (db_commands a), db_outputs := db_outputs a @ os,
                db_events := db_events a @ es, db_usage := db_usage a @ us\<rparr>"
     "\<forall>c. c_ID (f c) = c_ID c" "\<forall>c. c_ID c \<noteq> cid \<longrightarrow> f c = c"
     "\<forall>c. c_ID c = cid \<longrightarrow> summary_cols (f c) = g (summary_cols c)"
     "\<forall>r \<in> set os. o_CommandID r = cid" "\<forall>r \<in> set es. e_CommandID r = cid" "\<forall>r \<in> set us. u_CommandID r = cid"
    using assms(1) unfolding db_effect_def by blast
  obtain f' os' es' us' where 2: "c = b\<lparr>db_commands := map f' (db_commands b), db_outputs := db_outputs b @ os',
                db_events := db_events b @ es', db_usage := db_usage b @ us'\<rparr>"
     "\<forall>c. c_ID (f' c) = c_ID c" "\<forall>c. c_ID c \<noteq> cid \<longrightarrow> f' c = c"
     "\<forall>c. c_ID c = cid \<longrightarrow> summary_cols (f' c) = h (summary_cols c)"
     "\<forall>r \<in> set os'. o_CommandID r = cid" "\<forall>r \<in> set es'. e_CommandID r = cid" "\<forall>r \<in> set us'. u_CommandID r = cid"
    using assms(2) unfolding db_effect_def by blast
  have "db_wf a \<longrightarrow> db_wf c" using assms by (simp add: db_effect_def)
  moreover have "c = a\<lparr>db_commands := map (f' \<circ> f) (db_commands a), db_outputs := db_outputs a @ (os @ os'),
                db_events := db_events a @ (es @ es'), db_usage := db_usage a @ (us @ us')\<rparr>"
    using 1(1) 2(1) by simp
  ultimately show ?thesis
    unfolding db_effect_def using 1(2-) 2(2-)
    by (intro conjI exI [of _ "f' \<circ> f"] exI [of _ "os @ os'"] exI [of _ "es @ es'"] exI [of _ "us @ us'"]) auto
qed

lemma update_effect:
  assumes "\<And>c. p c \<Longrightarrow> c_ID c = cid" "\<And>c. c_ID (f c) = c_ID c"
    "\<And>c. c_ID c = cid \<Longrightarrow> summary_cols (if p c then f c else c) = g (summary_cols c)"
  shows "db_effect cid g db (update_where p f db)"
proof -
  have "db_wf (update_where p f db) = db_wf db" by (rule db_wf_update_where) (rule assms(2))
  moreover have "update_where p f db = db\<lparr>db_commands := map (\<lambda>c. if p c then f c else c) (db_commands db)\<rparr>"
    by (simp add: update_where_def map_commands_def)
  ultimately show ?thesis
    unfolding db_effect_def using assms
    by (intro conjI exI [of _ "\<lambda>c. if p c then f c else c"] exI [of _ "[]"]) auto
qed

lemma insert_output_effect:
  "o_CommandID r = cid \<Longrightarrow> db_effect cid (\<lambda>x. x) db (snd (insert_output r db))"
  using insert_output_wf [of db r] unfolding db_effect_def
  by (intro conjI exI [of _ "\<lambda>c. c"] exI [of _ "if has_output db (o_CommandID r) (o_SeqNo r) then [] else [r]"]
      exI [of _ "[]"]) (auto simp: insert_output_def)

lemma insert_event_effect:
  "e_CommandID r = cid \<Longrightarrow> db_effect cid (\<lambda>x. x) db (snd (insert_event r db))"
  using insert_event_wf [of db r] unfolding db_effect_def
  by (intro conjI exI [of _ "\<lambda>c. c"] exI [of _ "[]"]
      exI [of _ "if has_event db (e_CommandID r) (e_SeqNo r) then [] else [r]"]) (auto simp: insert_event_def)

lemma append_event_effect:
  assumes "\<not> has_event db (e_CommandID r) (e_SeqNo r)" "e_CommandID r = cid"
  shows "db_effect cid (\<lambda>x. x) db (db\<lparr>db_events := db_events db @ [r]\<rparr>)"
  using insert_event_effect [OF assms(2), of db] assms(1) by (simp add: insert_event_def)

lemma usageTx_effect:
  "db_effect (su_CommandID e) (\<lambda>x. x) (tx_db tx) (tx_db (recordCommandTokenUsageTx fails e tx))"
proof -
  have "db_effect cid (\<lambda>x. x) db (db\<lparr>db_usage := db_usage db @ [r]\<rparr>)"
    if "\<not> has_usage db cid" "u_CommandID r = cid" for cid db r
    using that unfolding db_effect_def
    by (intro conjI exI [of _ "\<lambda>c. c"] exI [of _ "[]"] exI [of _ "[r]"])
      (auto simp: db_wf_def has_usage_iff)
  then show ?thesis by (simp add: recordCommandTokenUsageTx_def split: option.split)
qed

lemma apply_progress_effect:
  "apply_progress fails ts e tx = Inr tx' \<Longrightarrow> db_effect (su_CommandID e) (\<lambda>x. x) (tx_db tx) (tx_db tx')"
  using insert_output_effect [of "\<lparr>o_CommandID = su_CommandID e, o_SeqNo = su_SeqNo e,
      o_StreamType = su_StreamType e, o_Content = su_Content e, o_CreatedAt = ts\<rparr>" "su_CommandID e" "tx_db tx"]
  by (auto simp: apply_progress_def Let_def split: if_splits prod.splits)

lemma apply_event_effect:
  assumes "apply_event fails now ts e tx = Inr tx'"
  shows "db_effect (su_CommandID e) (\<lambda>x. x) (tx_db tx) (tx_db tx')"
proof -
  let ?row = "\<lparr>e_CommandID = su_CommandID e, e_SeqNo = su_SeqNo e, e_EventType = su_EventType e,
    e_Summary = su_Summary e, e_PayloadJSON = (if su_PayloadJSON e = [] then ''{}'' else su_PayloadJSON e),
    e_CreatedAt = now\<rparr>"
  let ?tx0 = "tx\<lparr>tx_db := snd (insert_event ?row (tx_db tx))\<rparr>"
  have "tx_db tx' = tx_db (if su_HasTokenUsage e then recordCommandTokenUsageTx fails e ?tx0 else ?tx0)"
    using assms by (auto simp: apply_event_def Let_def split: if_splits prod.splits)
  moreover have "db_effect (su_CommandID e) (\<lambda>x. x) (tx_db tx) (tx_db ?tx0)"
    using insert_event_effect [of ?row] by simp
  ultimately show ?thesis
    using db_effect_trans usageTx_effect [of e ?tx0 fails] by (cases "su_HasTokenUsage e") fastforce+
qed

lemma result_switch_effect:
  assumes "result_switch fails now ts st e tx = Inr tx'"
  shows "db_effect (su_CommandID e) (\<lambda>x. x) (tx_db tx) (tx_db tx')"
proof -
  let ?cid = "su_CommandID e"
  have t: "db_effect ?cid (\<lambda>x. x) db (update_where (\<lambda>c. c_ID c = ?cid \<and> in_flight c) (terminal_update ts e s) db)" for db s
    by (rule update_effect) (auto simp: terminal_update_def summary_cols_def)
  have l: "db_effect ?cid (\<lambda>x. x) db (update_where (\<lambda>c. c_ID c = ?cid \<and> regradable c) (late_update e) db)" for db
    by (rule update_effect) (auto simp: late_update_def summary_cols_def)
  have r: "db_effect ?cid (\<lambda>x. x) db (update_where (\<lambda>c. c_ID c = ?cid \<and> regradable c) (regrade_update ts e) db)" for db
    by (rule update_effect) (auto simp: regrade_update_def summary_cols_def)
  have a: "db_effect ?cid (\<lambda>x. x) (tx_db tx) (tx_db tx2)"
    if t: "appendRegradeEventTx fails now ?cid (tx\<lparr>tx_db := update_where (\<lambda>c. c_ID c = ?cid \<and> regradable c)
        (regrade_update ts e) (tx_db tx)\<rparr>) = Inr (ev, tx2)" for tx2 ev
    by (rule db_effect_trans [OF r, where h = "\<lambda>x. x"])
      (use t in \<open>auto simp: appendRegradeEventTx_def Let_def split: if_splits intro!: append_event_effect\<close>)
  show ?thesis
    using assms t l a
    by (auto simp: result_switch_def Let_def split: if_splits sum.splits prod.splits)
qed

lemma summaryTx_effect:
  assumes "updateCommandResultSummaryTx fails (su_CommandID e) (su_FinalSummary e) (su_ResultJSON e) tx = Inr tx'"
    "su_Kind e = KIND_RESULT"
  shows "db_effect (su_CommandID e) (summary_step e) (tx_db tx) (tx_db tx')"
proof (cases "su_FinalSummary e = [] \<or> su_ResultJSON e = []")
  case True
  then have "su_FinalSummary e = []" "su_ResultJSON e = []"
    using summaryTx_half [of "su_FinalSummary e" "su_ResultJSON e" fails "su_CommandID e" tx] assms(1) by auto
  then have "tx' = tx" "summary_step e = (\<lambda>x. x)"
    using assms(1) by (auto simp: summaryTx_none summary_step_def fun_eq_iff)
  then show ?thesis by simp
next
  case False
  then show ?thesis
    using assms summaryTx_both [of "su_FinalSummary e" "su_ResultJSON e" fails "su_CommandID e" tx]
    by (auto simp: summary_step_def summary_cols_def split: if_splits intro!: update_effect)
qed

lemma apply_entry_effect:
  assumes "apply_entry fails now machineID db0 e tx = Inr tx'"
  shows "if reject_reason machineID db0 e = None
    then db_effect (su_CommandID e) (summary_step e) (tx_db tx) (tx_db tx') else tx_db tx' = tx_db tx"
proof (cases "reject_reason machineID db0 e")
  case None
  obtain st where st: "load_state db0 (su_CommandID e) = Some st"
    "apply_entry fails now machineID db0 e tx =
      (if su_Kind e = KIND_PROGRESS then apply_progress fails (entry_time now e) e tx
       else if su_Kind e = KIND_EVENT then apply_event fails now (entry_time now e) e tx
       else apply_result fails now (entry_time now e) st e tx)"
    "su_Kind e \<in> {KIND_PROGRESS, KIND_EVENT, KIND_RESULT}"
    using apply_entry_accepted [OF None, of fails now tx] by blast
  have "db_effect (su_CommandID e) (summary_step e) (tx_db tx) (tx_db tx')"
  proof (cases "su_Kind e = KIND_RESULT")
    case True
    obtain tx1 tx2 where t: "result_switch fails now (entry_time now e) st e tx = Inr tx1"
      "updateCommandResultSummaryTx fails (su_CommandID e) (su_FinalSummary e) (su_ResultJSON e) tx1 = Inr tx2"
      "tx_db tx' = tx_db tx2"
      using assms st(2) True by (auto simp: apply_result_def Let_def)
    then show ?thesis
      using db_effect_trans [OF result_switch_effect [OF t(1)] summaryTx_effect [OF t(2) True]] by simp
  next
    case False
    then have "summary_step e = (\<lambda>x. x)" by (simp add: summary_step_def fun_eq_iff)
    then show ?thesis
      using st(2,3) False assms apply_progress_effect apply_event_effect by (auto split: if_splits)
  qed
  with None show ?thesis by simp
next
  case (Some reason)
  with assms apply_entry_rejected [OF Some, of fails now tx] show ?thesis by (auto simp: reject_def)
qed

text \<open>A batch touches only commands one of its accepted entries names.\<close>

definition command_view ::
  "uuid \<Rightarrow> command_db \<Rightarrow> command_row list \<times> output_row list \<times> event_row list \<times> usage_row list" where
  "command_view cid db =
     (filter (\<lambda>c. c_ID c = cid) (db_commands db), filter (\<lambda>r. o_CommandID r = cid) (db_outputs db),
      filter (\<lambda>r. e_CommandID r = cid) (db_events db), filter (\<lambda>r. u_CommandID r = cid) (db_usage db))"

lemma db_effect_view:
  assumes "db_effect cid g db db'" "cid' \<noteq> cid"
  shows "command_view cid' db' = command_view cid' db"
proof -
  obtain f os es us where e: "db' = db\<lparr>db_commands := map f (db_commands db), db_outputs := db_outputs db @ os,
                db_events := db_events db @ es, db_usage := db_usage db @ us\<rparr>"
     "\<forall>c. c_ID (f c) = c_ID c" "\<forall>c. c_ID c \<noteq> cid \<longrightarrow> f c = c"
     "\<forall>r \<in> set os. o_CommandID r = cid" "\<forall>r \<in> set es. e_CommandID r = cid" "\<forall>r \<in> set us. u_CommandID r = cid"
    using assms(1) unfolding db_effect_def by blast
  have "filter (\<lambda>c. c_ID c = cid') (map f cs) = filter (\<lambda>c. c_ID c = cid') cs" for cs
    using e(2,3) assms(2) by (induction cs) auto
  moreover have "filter (\<lambda>r. o_CommandID r = cid') os = []" "filter (\<lambda>r. e_CommandID r = cid') es = []"
      "filter (\<lambda>r. u_CommandID r = cid') us = []"
    using e(4-6) assms(2) by (auto simp: filter_empty_conv)
  ultimately show ?thesis by (simp add: command_view_def e(1))
qed

lemma apply_entries_view:
  assumes "apply_entries fails now machineID db0 es tx = Inr tx'"
    "\<forall>e \<in> set es. su_CommandID e = cid \<longrightarrow> reject_reason machineID db0 e \<noteq> None"
  shows "command_view cid (tx_db tx') = command_view cid (tx_db tx)"
  using assms
proof (induction es arbitrary: tx)
  case (Cons e es)
  then obtain tx1 where t: "apply_entry fails now machineID db0 e tx = Inr tx1"
      "apply_entries fails now machineID db0 es tx1 = Inr tx'"
    by (auto split: sum.splits)
  have "command_view cid (tx_db tx1) = command_view cid (tx_db tx)"
    using apply_entry_effect [OF t(1)] Cons.prems(2) db_effect_view by (auto split: if_splits)
  with Cons.IH [OF t(2)] Cons.prems(2) show ?case by simp
qed simp

lemma fold_marks_view:
  assumes "fold_marks fails ms tx = Inr tx'" "cid \<notin> fst ` set ms"
  shows "command_view cid (tx_db tx') = command_view cid (tx_db tx)"
  using assms
proof (induction ms arbitrary: tx)
  case (Cons m ms)
  obtain i w where m: "m = (i, w)" by force
  let ?f = "\<lambda>c. c\<lparr>c_LastAckSeq := max (c_LastAckSeq c) (w_ack w)\<rparr>"
  have "db_effect i (\<lambda>x. x) (tx_db tx) (update_where (\<lambda>c. c_ID c = i) ?f (tx_db tx))"
    by (rule update_effect) (auto simp: summary_cols_def)
  then have "command_view cid (update_where (\<lambda>c. c_ID c = i) ?f (tx_db tx)) = command_view cid (tx_db tx)"
    using Cons.prems(2) m by (auto intro: db_effect_view)
  then show ?case
    using Cons m by (auto simp: Let_def split: if_splits)
qed simp

lemma batch_marks_keys:
  "fst ` set (batch_marks machineID db es ms) \<subseteq> fst ` set ms \<union> su_CommandID ` {e \<in> set es. reject_reason machineID db e = None}"
proof -
  have "fst ` set (foldl (\<lambda>ms e. mark_step e ms) ms xs) \<subseteq> fst ` set ms \<union> su_CommandID ` set xs" for xs
  proof (induction xs arbitrary: ms)
    case (Cons x xs)
    have "fst ` set (mark_step x ms) = insert (su_CommandID x) (fst ` set ms)"
      by (simp add: mark_step_def dom_update [unfolded dom_map_of_conv_image_fst] )
    with Cons [of "mark_step x ms"] show ?case by auto
  qed simp
  from this [of "filter (\<lambda>e. reject_reason machineID db e = None) es"] show ?thesis
    by (auto simp: batch_marks_def)
qed

lemma batch_view:
  assumes "ApplyCommandUploadBatch fails now machineID es db = (r, db')"
    "\<forall>e \<in> set es. su_CommandID e = cid \<longrightarrow> reject_reason machineID db e \<noteq> None"
  shows "command_view cid db' = command_view cid db"
proof (cases r)
  case (Inl err)
  with assms(1) show ?thesis using batch_error_rolls_back by blast
next
  case (Inr res)
  show ?thesis
  proof (cases "es = []")
    case True
    with assms(1) show ?thesis by (auto simp: ApplyCommandUploadBatch_def)
  next
    case False
    obtain tx tx' where t: "apply_entries fails now machineID db es (begin_tx db) = Inr tx"
        "fold_marks fails (tx_marks tx) tx = Inr tx'" "db' = tx_db tx'"
      using batch_commit [OF assms(1) [unfolded Inr] False] by blast
    have "cid \<notin> fst ` set (tx_marks tx)"
    proof
      assume "cid \<in> fst ` set (tx_marks tx)"
      then have "cid \<in> su_CommandID ` {e \<in> set es. reject_reason machineID db e = None}"
        using apply_entries_marks [OF t(1)] subsetD [OF batch_marks_keys [of machineID db es "[]"], of cid]
        by (simp add: begin_tx_def)
      with assms(2) show False by auto
    qed
    then show ?thesis
      using fold_marks_view [OF t(2)] apply_entries_view [OF t(1) assms(2)] t(3) by (simp add: begin_tx_def)
  qed
qed

section \<open>Retransmission\<close>

definition cols_fold :: "upload_row list \<Rightarrow> uuid \<Rightarrow> string \<times> string \<Rightarrow> string \<times> string" where
  "cols_fold es cid sj = foldl (\<lambda>sj e. if su_CommandID e = cid then summary_step e sj else sj) sj es"

lemma cols_fold_simps [simp]:
  "cols_fold [] cid sj = sj"
  "cols_fold (e # es) cid sj = cols_fold es cid (if su_CommandID e = cid then summary_step e sj else sj)"
  "cols_fold (es @ es') cid sj = cols_fold es' cid (cols_fold es cid sj)"
  by (simp_all add: cols_fold_def)

lemma cols_fold_idem: "cols_fold es cid (cols_fold es cid sj) = cols_fold es cid sj"
proof -
  have "(\<forall>x. cols_fold es cid x = x) \<or> (\<exists>k. \<forall>x. cols_fold es cid x = k)"
  proof (induction es)
    case (Cons e es)
    have "(\<forall>x. summary_step e x = x) \<or> (\<exists>k. \<forall>x. summary_step e x = k)" by (auto simp: summary_step_def)
    with Cons show ?case by (auto; metis)
  qed simp
  then show ?thesis by metis
qed

abbreviation accepted :: "int \<Rightarrow> command_db \<Rightarrow> upload_row list \<Rightarrow> upload_row list" where
  "accepted machineID db es \<equiv> filter (\<lambda>e. reject_reason machineID db e = None) es"

definition cols_step :: "upload_row list \<Rightarrow> command_row \<Rightarrow> command_row \<Rightarrow> bool" where
  "cols_step es c c' \<longleftrightarrow> c_ID c' = c_ID c \<and> summary_cols c' = cols_fold es (c_ID c) (summary_cols c)"

lemma db_effect_cols:
  assumes "db_effect (su_CommandID e) (summary_step e) db db'"
  shows "list_all2 (cols_step [e]) (db_commands db) (db_commands db') \<and> (db_wf db \<longrightarrow> db_wf db')"
proof -
  obtain f os es us where f: "db' = db\<lparr>db_commands := map f (db_commands db), db_outputs := db_outputs db @ os,
                db_events := db_events db @ es, db_usage := db_usage db @ us\<rparr>" "\<forall>c. c_ID (f c) = c_ID c"
     "\<forall>c. c_ID c \<noteq> su_CommandID e \<longrightarrow> f c = c"
     "\<forall>c. c_ID c = su_CommandID e \<longrightarrow> summary_cols (f c) = summary_step e (summary_cols c)"
    using assms unfolding db_effect_def by blast
  have "cols_step [e] c (f c)" for c using f(2-4) by (cases "c_ID c = su_CommandID e") (auto simp: cols_step_def)
  then have "list_all2 (cols_step [e]) (db_commands db) (db_commands db')"
    by (simp add: f(1) list_all2_conv_all_nth)
  moreover have "db_wf db \<longrightarrow> db_wf db'" using assms by (simp add: db_effect_def)
  ultimately show ?thesis by blast
qed

lemma cols_step_trans: "cols_step es a b \<Longrightarrow> cols_step es' b c \<Longrightarrow> cols_step (es @ es') a c"
  by (simp add: cols_step_def)

lemma apply_entries_cols:
  assumes "apply_entries fails now machineID db0 es tx = Inr tx'"
  shows "list_all2 (cols_step (accepted machineID db0 es)) (db_commands (tx_db tx)) (db_commands (tx_db tx')) \<and>
    (db_wf (tx_db tx) \<longrightarrow> db_wf (tx_db tx'))"
  using assms
proof (induction es arbitrary: tx)
  case Nil
  then show ?case by (auto simp: cols_step_def intro: list_all2_refl)
next
  case (Cons e es)
  then obtain tx1 where t: "apply_entry fails now machineID db0 e tx = Inr tx1"
      "apply_entries fails now machineID db0 es tx1 = Inr tx'"
    by (auto split: sum.splits)
  note ih = Cons.IH [OF t(2)]
  show ?case
  proof (cases "reject_reason machineID db0 e")
    case None
    with apply_entry_effect [OF t(1)]
    have "db_effect (su_CommandID e) (summary_step e) (tx_db tx) (tx_db tx1)" by simp
    note d = db_effect_cols [OF this]
    have "list_all2 (cols_step ([e] @ accepted machineID db0 es)) (db_commands (tx_db tx)) (db_commands (tx_db tx'))"
      by (rule list_all2_trans [OF cols_step_trans]) (use d ih in auto)
    with d ih None show ?thesis by simp
  next
    case (Some reason)
    with apply_entry_effect [OF t(1)] ih show ?thesis by simp
  qed
qed

text \<open>The last loop raises the acknowledged sequence number and leaves the rest.\<close>

lemma fold_marks_acks:
  assumes "fold_marks fails ms tx = Inr tx'"
  shows "list_all2 (\<lambda>c c'. cols_step [] c c' \<and> c_LastAckSeq c \<le> c_LastAckSeq c' \<and>
      (\<forall>w. (c_ID c, w) \<in> set ms \<longrightarrow> w_ack w > 0 \<longrightarrow> w_ack w \<le> c_LastAckSeq c'))
      (db_commands (tx_db tx)) (db_commands (tx_db tx')) \<and>
    (db_wf (tx_db tx) \<longrightarrow> db_wf (tx_db tx'))"
    (is "list_all2 (?P ms) _ _ \<and> _")
  using assms
proof (induction ms arbitrary: tx)
  case Nil
  then show ?case by (auto simp: cols_step_def intro: list_all2_refl)
next
  case (Cons m ms)
  obtain i w where m: "m = (i, w)" by force
  define f :: "command_row \<Rightarrow> command_row" where "f = (\<lambda>c. if w_ack w > 0 \<and> c_ID c = i
    then c\<lparr>c_LastAckSeq := max (c_LastAckSeq c) (w_ack w)\<rparr> else c)"
  define tx1 where "tx1 = tx\<lparr>tx_db := map_commands f (tx_db tx),
    tx_res := (tx_res tx)\<lparr>br_Acks := br_Acks (tx_res tx) @ [ack_of_mark m]\<rparr>\<rparr>"
  have id_f: "c_ID (f c) = c_ID c" for c by (simp add: f_def)
  have "map_commands (\<lambda>c. c) db = db" for db by (simp add: map_commands_def)
  then have "fold_marks fails ms tx1 = Inr tx'"
    using Cons.prems by (cases "w_ack w > 0")
      (auto simp: m tx1_def f_def ack_of_mark_def Let_def update_where_def split: if_splits)
  note ih = Cons.IH [OF this]
  have step: "?P (m # ms) c c'" if "?P ms (f c) c'" for c c'
    using that by (auto simp: f_def m cols_step_def summary_cols_def split: if_splits)
  have "list_all2 (?P ms) (map f (db_commands (tx_db tx))) (db_commands (tx_db tx'))"
    using ih by (simp add: tx1_def map_commands_def)
  then have "list_all2 (?P (m # ms)) (db_commands (tx_db tx)) (db_commands (tx_db tx'))"
    unfolding list_all2_map1 by (rule list_all2_mono) (rule step)
  moreover have "db_wf (tx_db tx) \<longrightarrow> db_wf (tx_db tx')"
    using ih db_wf_map_commands [of f "tx_db tx", OF id_f] by (simp add: tx1_def)
  ultimately show ?case by blast
qed

lemma apply_entries_not_half:
  "apply_entries fails now machineID db0 es tx = Inr tx' \<Longrightarrow> e \<in> set es \<Longrightarrow>
     reject_reason machineID db0 e = None \<Longrightarrow> su_Kind e = KIND_RESULT \<Longrightarrow> \<not> half_summary e"
proof (induction es arbitrary: tx)
  case (Cons x es)
  then obtain tx1 where t: "apply_entry fails now machineID db0 x tx = Inr tx1"
      "apply_entries fails now machineID db0 es tx1 = Inr tx'"
    by (auto split: sum.splits)
  show ?case
  proof (cases "e = x")
    case True
    obtain st where "apply_entry fails now machineID db0 e tx = apply_result fails now (entry_time now e) st e tx"
      using apply_entry_accepted [OF Cons.prems(3), of fails now tx] Cons.prems(4) by auto
    with t(1) True have "apply_result fails now (entry_time now e) st e tx = Inr tx1" by simp
    then obtain tx1 tx2 where
      "updateCommandResultSummaryTx fails (su_CommandID e) (su_FinalSummary e) (su_ResultJSON e) tx1 = Inr tx2"
      by (auto simp: apply_result_def Let_def)
    then show ?thesis
      using summaryTx_half [of "su_FinalSummary e" "su_ResultJSON e" fails "su_CommandID e" tx1]
      by (auto simp: half_summary_def)
  next
    case False
    with Cons t(2) show ?thesis by auto
  qed
qed simp

text \<open>A replay: the entries are stored already, only the summary columns are written again.\<close>

definition set_cols :: "string \<times> string \<Rightarrow> command_row \<Rightarrow> command_row" where
  "set_cols sj c = c\<lparr>c_FinalSummary := fst sj, c_ResultJSON := snd sj\<rparr>"

definition restate :: "upload_row list \<Rightarrow> command_db \<Rightarrow> command_db" where
  "restate es = map_commands (\<lambda>c. set_cols (cols_fold es (c_ID c) (summary_cols c)) c)"

lemma set_cols_simps [simp]:
  "c_ID (set_cols sj c) = c_ID c" "summary_cols (set_cols sj c) = sj" "set_cols sj (set_cols sj' c) = set_cols sj c"
  "set_cols (summary_cols c) c = c"
  by (simp_all add: set_cols_def summary_cols_def)

lemma restate_frame [simp]:
  "has_output (restate es db) = has_output db" "has_event (restate es db) = has_event db"
  "has_usage (restate es db) = has_usage db"
  by (simp_all add: fun_eq_iff restate_def map_commands_def has_output_def has_event_def has_usage_def)

lemma restate_snoc:
  "restate (es @ [e]) db =
     update_where (\<lambda>c. c_ID c = su_CommandID e) (\<lambda>c. set_cols (summary_step e (summary_cols c)) c) (restate es db)"
  by (simp add: restate_def map_commands_def update_where_def)

lemma restate_idle:
  assumes "summary_step e = (\<lambda>x. x)"
  shows "restate (es @ [e]) db = restate es db"
proof -
  have "cols_fold (es @ [e]) cid sj = cols_fold es cid sj" for cid sj
    by (simp add: assms [THEN fun_cong])
  then show ?thesis by (simp only: restate_def)
qed

lemma replay_result:
  assumes "db_wf db0" "stored db0 e" "su_Kind e = KIND_RESULT" "\<not> half_summary e"
    "load_state db0 (su_CommandID e) = Some st" "tx_db tx = restate es db0" "\<not> tx_aborted tx"
  shows "apply_result (\<lambda>_. False) now ts st e tx =
    Inr (tx\<lparr>tx_db := restate (es @ [e]) db0, tx_marks := mark_step e (tx_marks tx)\<rparr>)"
proof -
  obtain c where c: "c \<in> set (db_commands db0)" "c_ID c = su_CommandID e"
    using assms(5) by (auto simp: load_state_def find_command_row_def find_Some_iff) (metis nth_mem)
  then have "final_row c" using assms(2,3) by (simp add: stored_def)
  then have sw: "result_switch (\<lambda>_. False) now ts st e tx = Inr tx"
    using load_state_row [OF assms(1,5) c]
    by (auto simp: result_switch_def final_row_def in_flight_def regradable_def unreachable_kind)
  have "updateCommandResultSummaryTx (\<lambda>_. False) (su_CommandID e) (su_FinalSummary e) (su_ResultJSON e) tx
      = Inr (tx\<lparr>tx_db := restate (es @ [e]) db0\<rparr>)"
  proof (cases "su_FinalSummary e = []")
    case True
    then have "su_ResultJSON e = []" "summary_step e = (\<lambda>x. x)"
      using assms(4) by (auto simp: half_summary_def summary_step_def fun_eq_iff)
    then show ?thesis using True assms(6) by (simp add: summaryTx_none restate_idle)
  next
    case False
    then have ne: "su_ResultJSON e \<noteq> []" using assms(4) by (simp add: half_summary_def)
    have "summary_step e x = (su_FinalSummary e, su_ResultJSON e)" for x
      using False ne assms(3) by (simp add: summary_step_def)
    then show ?thesis
      using summaryTx_both [OF False ne, of "\<lambda>_. False" "su_CommandID e" tx] assms(6,7)
      by (simp add: stmt_ok_def restate_snoc set_cols_def)
  qed
  with sw show ?thesis
    using assms(3) by (simp add: apply_result_def set_mark_def mark_step_def bump_def mark_of_in mark_in_def Let_def)
qed

lemma replay_entry:
  assumes "db_wf db0" "stored db0 e" "reject_reason machineID db0 e = None"
    "su_Kind e = KIND_RESULT \<longrightarrow> \<not> half_summary e" "tx_db tx = restate es db0" "\<not> tx_aborted tx"
  shows "apply_entry (\<lambda>_. False) now machineID db0 e tx =
    Inr (tx\<lparr>tx_db := restate (es @ [e]) db0, tx_marks := mark_step e (tx_marks tx)\<rparr>)"
proof -
  obtain st where st: "load_state db0 (su_CommandID e) = Some st"
    "apply_entry (\<lambda>_. False) now machineID db0 e tx =
      (if su_Kind e = KIND_PROGRESS then apply_progress (\<lambda>_. False) (entry_time now e) e tx
       else if su_Kind e = KIND_EVENT then apply_event (\<lambda>_. False) now (entry_time now e) e tx
       else apply_result (\<lambda>_. False) now (entry_time now e) st e tx)"
    "su_Kind e \<in> {KIND_PROGRESS, KIND_EVENT, KIND_RESULT}"
    using apply_entry_accepted [OF assms(3), of "\<lambda>_. False" now tx] by blast
  have same: "tx\<lparr>tx_db := restate es db0\<rparr> = tx" using assms(5) by simp
  have u: "recordCommandTokenUsageTx (\<lambda>_. False) e tx = tx" if "has_usage db0 (su_CommandID e)"
    using that assms(5,6) by (simp add: recordCommandTokenUsageTx_def stmt_ok_def split: option.split)
  consider "su_Kind e = KIND_PROGRESS" | "su_Kind e = KIND_EVENT" | "su_Kind e = KIND_RESULT" using st(3) by blast
  then show ?thesis
  proof cases
    case 1
    then have "summary_step e = (\<lambda>x. x)" by (simp add: summary_step_def fun_eq_iff)
    with 1 assms(2,5,6) st(2) show ?thesis
      by (simp add: apply_progress_def stmt_ok_def stored_def insert_output_def same restate_idle
          set_mark_def mark_step_def bump_def mark_of_in Let_def)
  next
    case 2
    then have "summary_step e = (\<lambda>x. x)" by (simp add: summary_step_def fun_eq_iff)
    with 2 assms(2,5,6) st(2) u show ?thesis
      by (auto simp: apply_event_def stmt_ok_def stored_def insert_event_def same restate_idle
          set_mark_def mark_step_def bump_def mark_of_in Let_def)
  next
    case 3
    with st(2) replay_result [OF assms(1,2) 3 _ st(1) assms(5,6)] assms(4) show ?thesis by simp
  qed
qed

lemma replay_entries:
  assumes "db_wf db0"
    "\<forall>e \<in> set es. reject_reason machineID db0 e = None \<longrightarrow>
       stored db0 e \<and> (su_Kind e = KIND_RESULT \<longrightarrow> \<not> half_summary e)"
    "tx_db tx = restate es0 db0" "\<not> tx_aborted tx"
  shows "apply_entries (\<lambda>_. False) now machineID db0 es tx =
    Inr (tx\<lparr>tx_db := restate (es0 @ accepted machineID db0 es) db0,
      tx_marks := batch_marks machineID db0 es (tx_marks tx),
      tx_res := (tx_res tx)\<lparr>br_Rejected := br_Rejected (tx_res tx) @ List.map_filter (rejection_of machineID db0) es\<rparr>\<rparr>)"
  using assms(2-4)
proof (induction es arbitrary: tx es0)
  case Nil
  then show ?case by (simp add: batch_marks_def map_filter_def)
next
  case (Cons e es)
  show ?case
  proof (cases "reject_reason machineID db0 e")
    case None
    define tx1 where "tx1 = tx\<lparr>tx_db := restate (es0 @ [e]) db0, tx_marks := mark_step e (tx_marks tx)\<rparr>"
    have "apply_entry (\<lambda>_. False) now machineID db0 e tx = Inr tx1"
      unfolding tx1_def by (rule replay_entry) (use assms(1) Cons.prems None in auto)
    moreover have "apply_entries (\<lambda>_. False) now machineID db0 es tx1 =
      Inr (tx1\<lparr>tx_db := restate ((es0 @ [e]) @ accepted machineID db0 es) db0,
        tx_marks := batch_marks machineID db0 es (tx_marks tx1),
        tx_res := (tx_res tx1)\<lparr>br_Rejected := br_Rejected (tx_res tx1) @ List.map_filter (rejection_of machineID db0) es\<rparr>\<rparr>)"
      by (rule Cons.IH) (use Cons.prems in \<open>auto simp: tx1_def\<close>)
    ultimately show ?thesis
      using None by (simp add: tx1_def batch_marks_def map_filter_def rejection_of_def)
  next
    case (Some reason)
    have "apply_entries (\<lambda>_. False) now machineID db0 es (reject e reason tx) =
      Inr ((reject e reason tx)\<lparr>tx_db := restate (es0 @ accepted machineID db0 es) db0,
        tx_marks := batch_marks machineID db0 es (tx_marks (reject e reason tx)),
        tx_res := (tx_res (reject e reason tx))\<lparr>br_Rejected := br_Rejected (tx_res (reject e reason tx)) @
          List.map_filter (rejection_of machineID db0) es\<rparr>\<rparr>)"
      by (rule Cons.IH) (use Cons.prems in \<open>auto simp: reject_def\<close>)
    with Some apply_entry_rejected [OF Some] show ?thesis
      by (simp add: batch_marks_def map_filter_def rejection_of_def reject_def)
  qed
qed

text \<open>With its columns and watermarks in place, a row is left as it is.\<close>

lemma restate_id:
  assumes "\<forall>c \<in> set (db_commands db). cols_fold es (c_ID c) (summary_cols c) = summary_cols c"
  shows "restate es db = db"
proof -
  have "map (\<lambda>c. set_cols (cols_fold es (c_ID c) (summary_cols c)) c) (db_commands db) = db_commands db"
    using assms by (intro map_idI) simp
  then show ?thesis by (simp add: restate_def map_commands_def)
qed

lemma replay_marks:
  assumes "\<forall>c \<in> set (db_commands (tx_db tx)). \<forall>w. (c_ID c, w) \<in> set ms \<longrightarrow> w_ack w > 0 \<longrightarrow> w_ack w \<le> c_LastAckSeq c"
    "\<not> tx_aborted tx"
  shows "fold_marks (\<lambda>_. False) ms tx =
    Inr (tx\<lparr>tx_res := (tx_res tx)\<lparr>br_Acks := br_Acks (tx_res tx) @ map ack_of_mark ms\<rparr>\<rparr>)"
  using assms
proof (induction ms arbitrary: tx)
  case (Cons m ms)
  obtain i w where m: "m = (i, w)" by force
  let ?db = "update_where (\<lambda>c. c_ID c = i) (\<lambda>c. c\<lparr>c_LastAckSeq := max (c_LastAckSeq c) (w_ack w)\<rparr>) (tx_db tx)"
  have "(if c_ID c = i then c\<lparr>c_LastAckSeq := max (c_LastAckSeq c) (w_ack w)\<rparr> else c) = c"
    if "w_ack w > 0" "c \<in> set (db_commands (tx_db tx))" for c
  proof (cases "c_ID c = i")
    case True
    then have "w_ack w \<le> c_LastAckSeq c" using that Cons.prems(1) by (simp add: m)
    then show ?thesis by (simp add: max_absorb1)
  qed simp
  then have "map (\<lambda>c. if c_ID c = i then c\<lparr>c_LastAckSeq := max (c_LastAckSeq c) (w_ack w)\<rparr> else c)
      (db_commands (tx_db tx)) = db_commands (tx_db tx)" if "w_ack w > 0"
    using that by (intro map_idI) blast
  then have db: "?db = tx_db tx" if "w_ack w > 0"
    using that by (simp add: update_where_def map_commands_def)
  define tx1 where "tx1 = tx\<lparr>tx_res := (tx_res tx)\<lparr>br_Acks := br_Acks (tx_res tx) @ [ack_of_mark m]\<rparr>\<rparr>"
  have same: "tx\<lparr>tx_db := tx_db tx\<rparr> = tx" by simp
  have "fold_marks (\<lambda>_. False) (m # ms) tx = fold_marks (\<lambda>_. False) ms tx1"
    using Cons.prems(2) by (simp add: m tx1_def ack_of_mark_def stmt_ok_def db same Let_def)
  also have "\<dots> = Inr (tx1\<lparr>tx_res := (tx_res tx1)\<lparr>br_Acks := br_Acks (tx_res tx1) @ map ack_of_mark ms\<rparr>\<rparr>)"
    by (rule Cons.IH) (use Cons.prems in \<open>auto simp: tx1_def\<close>)
  finally show ?case by (simp add: tx1_def)
qed simp

lemma reject_reason_step:
  assumes "rows_step db db'"
  shows "reject_reason machineID db' e = reject_reason machineID db e"
proof (cases "find_command_row db (su_CommandID e)")
  case None
  have "list_all2 row_step xs ys \<Longrightarrow> find (\<lambda>c. c_ID c = i) xs = None \<Longrightarrow> find (\<lambda>c. c_ID c = i) ys = None" for xs ys i
    by (induction rule: list_all2_induct) (auto simp: row_step_def split: if_splits)
  with None assms have "find_command_row db' (su_CommandID e) = None" by (simp add: find_command_row_def)
  with None show ?thesis by (simp add: reject_reason_def)
next
  case (Some c)
  with find_rows_step [OF assms Some] show ?thesis by (auto simp: reject_reason_def row_step_def)
qed

lemma accepted_not_refused:
  assumes "br_Rejected res = List.map_filter (rejection_of machineID db) es" "reject_reason machineID db e = None"
  shows "\<not> refused res e"
proof
  assume "refused res e"
  then obtain e' where "reject_reason machineID db e' \<noteq> None" "su_CommandID e' = su_CommandID e"
      "su_Kind e' = su_Kind e" "su_SeqNo e' = su_SeqNo e"
    using assms(1) by (auto simp: refused_def rejection_of_def map_filter_def) blast
  moreover from this have "reject_reason machineID db e' = reject_reason machineID db e"
    by (simp add: reject_reason_def)
  ultimately show False using assms(2) by simp
qed

lemma batch_replay:
  assumes "db_wf db" "ApplyCommandUploadBatch fails now machineID es db = (Inr res, db')"
  shows "ApplyCommandUploadBatch (\<lambda>_. False) later machineID es db' =
    (Inr (empty_result\<lparr>br_Acks := br_Acks res, br_Rejected := br_Rejected res\<rparr>), db')"
proof (cases "es = []")
  case True
  with assms(2) show ?thesis by (auto simp: ApplyCommandUploadBatch_def empty_result_def)
next
  case False
  let ?acc = "accepted machineID db es"
  obtain tx tx' where t: "apply_entries fails now machineID db es (begin_tx db) = Inr tx"
      "fold_marks fails (tx_marks tx) tx = Inr tx'" "db' = tx_db tx'"
    using batch_commit [OF assms(2) False] by blast
  note cb = committed_batch [OF assms] and cols = apply_entries_cols [OF t(1)] and fm = fold_marks_acks [OF t(2)]
  have rows: "rows_step db db'" using cb by (simp add: db_grows_def)
  have same: "reject_reason machineID db' = reject_reason machineID db" "rejection_of machineID db' = rejection_of machineID db"
    using reject_reason_step [OF rows, of machineID] by (simp_all add: fun_eq_iff rejection_of_def)
  have marks: "tx_marks tx = batch_marks machineID db es []"
    using apply_entries_marks [OF t(1)] by (simp add: begin_tx_def)
  have wf: "db_wf db'" using cols fm assms(1) t(3) by (simp add: begin_tx_def)
  have c': "cols_fold ?acc (c_ID c') (summary_cols c') = summary_cols c'"
    and ack: "\<forall>w. (c_ID c', w) \<in> set (tx_marks tx) \<longrightarrow> w_ack w > 0 \<longrightarrow> w_ack w \<le> c_LastAckSeq c'"
    if mem: "c' \<in> set (db_commands db')" for c'
  proof -
    obtain c1 where c1: "c1 \<in> set (db_commands (tx_db tx))" "cols_step [] c1 c'"
        "\<forall>w. (c_ID c1, w) \<in> set (tx_marks tx) \<longrightarrow> w_ack w > 0 \<longrightarrow> w_ack w \<le> c_LastAckSeq c'"
      using list_all2_right [OF conjunct1 [OF fm]] mem t(3) by blast
    then obtain c where "cols_step ?acc c c1"
      using list_all2_right [OF conjunct1 [OF cols]] by blast
    with c1(2,3) show "cols_fold ?acc (c_ID c') (summary_cols c') = summary_cols c'"
      and "\<forall>w. (c_ID c', w) \<in> set (tx_marks tx) \<longrightarrow> w_ack w > 0 \<longrightarrow> w_ack w \<le> c_LastAckSeq c'"
      by (auto simp: cols_step_def cols_fold_idem)
  qed
  have re: "restate ?acc db' = db'" using c' by (intro restate_id) simp
  have r0: "restate [] db' = db'" by (rule restate_id) simp
  have "stored db' e \<and> (su_Kind e = KIND_RESULT \<longrightarrow> \<not> half_summary e)"
    if e: "e \<in> set es" "reject_reason machineID db' e = None" for e
  proof -
    have "\<not> refused res e" using batch_response [OF assms(2)] e(2) by (simp add: same accepted_not_refused)
    with cb e(1) have "stored db' e" by blast
    with apply_entries_not_half [OF t(1) e(1)] e(2) show ?thesis by (simp add: same)
  qed
  then have "apply_entries (\<lambda>_. False) later machineID db' es (begin_tx db') =
    Inr ((begin_tx db')\<lparr>tx_db := restate ([] @ accepted machineID db' es) db',
      tx_marks := batch_marks machineID db' es (tx_marks (begin_tx db')),
      tx_res := (tx_res (begin_tx db'))\<lparr>br_Rejected := br_Rejected (tx_res (begin_tx db')) @ List.map_filter (rejection_of machineID db') es\<rparr>\<rparr>)"
    using wf by (intro replay_entries) (auto simp: begin_tx_def r0)
  then have "apply_entries (\<lambda>_. False) later machineID db' es (begin_tx db') =
    Inr ((begin_tx db')\<lparr>tx_marks := tx_marks tx, tx_res := empty_result\<lparr>br_Rejected := br_Rejected res\<rparr>\<rparr>)"
    using batch_response [OF assms(2)] by (simp add: same re begin_tx_def batch_marks_def marks empty_result_def)
  moreover have "fold_marks (\<lambda>_. False) (tx_marks tx)
      ((begin_tx db')\<lparr>tx_marks := tx_marks tx, tx_res := empty_result\<lparr>br_Rejected := br_Rejected res\<rparr>\<rparr>) =
    Inr ((begin_tx db')\<lparr>tx_marks := tx_marks tx, tx_res := empty_result\<lparr>br_Acks := br_Acks res, br_Rejected := br_Rejected res\<rparr>\<rparr>)"
    using replay_marks [of "(begin_tx db')\<lparr>tx_marks := tx_marks tx, tx_res := empty_result\<lparr>br_Rejected := br_Rejected res\<rparr>\<rparr>" "tx_marks tx"]
      ack batch_response [OF assms(2)] by (simp add: begin_tx_def marks empty_result_def)
  ultimately show ?thesis
    using False by (simp add: ApplyCommandUploadBatch_def stmt_ok_def begin_tx_def)
qed

section \<open>Batches that go through\<close>

text \<open>Sequence numbers left for the re-grade event of every command that may still need one.\<close>

definition room :: "command_db \<Rightarrow> bool" where
  "room db \<longleftrightarrow>
     (\<forall>c \<in> set (db_commands db). regradable c \<longrightarrow>
        (\<forall>r \<in> set (db_events db). e_CommandID r = c_ID c \<longrightarrow> 0 \<le> e_SeqNo r \<and> e_SeqNo r < 2 ^ 31 - 1))"

definition good_row :: "upload_row \<Rightarrow> bool" where
  "good_row e \<longleftrightarrow>
     (su_Kind e = KIND_EVENT \<longrightarrow> su_SeqNo e < 2 ^ 31 - 1) \<and> (su_Kind e = KIND_RESULT \<longrightarrow> \<not> half_summary e)"

lemma row_step_regradable: "row_step c c' \<Longrightarrow> regradable c' \<Longrightarrow> regradable c \<and> c_ID c' = c_ID c"
  using same_outcome_cong [of c c'] reported_final [of c'] by (auto simp: row_step_def final_row_def)

lemma room_step:
  assumes "room db" "rows_step db db'"
    "\<And>r c'. r \<in> set (db_events db') \<Longrightarrow> c' \<in> set (db_commands db') \<Longrightarrow> regradable c' \<Longrightarrow>
       e_CommandID r = c_ID c' \<Longrightarrow> r \<in> set (db_events db) \<or> (0 \<le> e_SeqNo r \<and> e_SeqNo r < 2 ^ 31 - 1)"
  shows "room db'"
  unfolding room_def
proof (intro ballI impI)
  fix c' r
  assume c': "c' \<in> set (db_commands db')" "regradable c'" and r: "r \<in> set (db_events db')" "e_CommandID r = c_ID c'"
  obtain c where "c \<in> set (db_commands db)" "row_step c c'"
    using list_all2_right [OF assms(2) c'(1)] by blast
  with row_step_regradable c'(2) have "regradable c" "c_ID c' = c_ID c" "c \<in> set (db_commands db)" by blast+
  with assms(1) assms(3) [OF r(1) c' r(2)] r(2) show "0 \<le> e_SeqNo r \<and> e_SeqNo r < 2 ^ 31 - 1"
    by (auto simp: room_def)
qed

lemma max_event_seq_bounds:
  assumes "\<And>r. r \<in> set (db_events db) \<Longrightarrow> e_CommandID r = cid \<Longrightarrow> 0 \<le> e_SeqNo r \<and> e_SeqNo r < 2 ^ 31 - 1"
  shows "0 \<le> max_event_seq db cid \<and> max_event_seq db cid < 2 ^ 31 - 1 \<and>
    \<not> has_event db cid (max_event_seq db cid + 1)"
proof -
  have f1: "\<forall>x \<in> insert a (set xs). x \<le> foldl max a xs" for a :: int and xs
  proof (induction xs arbitrary: a)
    case (Cons b xs)
    then have "max a b \<le> foldl max (max a b) xs" "\<forall>x \<in> set xs. x \<le> foldl max (max a b) xs" by simp_all
    then show ?case by simp
  qed simp
  have f2: "foldl max a xs \<in> insert a (set xs)" for a :: int and xs
    by (induction xs arbitrary: a) (force simp: max_def)+
  let ?ss = "map e_SeqNo (filter (\<lambda>r. e_CommandID r = cid) (db_events db))"
  have mem: "s \<in> set ?ss \<Longrightarrow> 0 \<le> s \<and> s < 2 ^ 31 - 1" for s using assms by auto
  have top: "s \<in> set ?ss \<Longrightarrow> s \<le> max_event_seq db cid" for s
    by (cases ?ss) (use f1 in \<open>auto simp: max_event_seq_def\<close>)
  have "max_event_seq db cid = 0 \<or> max_event_seq db cid \<in> set ?ss"
    using f2 by (cases ?ss) (auto simp: max_event_seq_def)
  moreover have "\<not> has_event db cid (max_event_seq db cid + 1)"
    using top by (force simp: has_event_def list_ex_iff)
  ultimately show ?thesis using mem by auto
qed

lemma appendRegrade_succeeds:
  assumes "room db" "\<not> tx_aborted tx" "db_events (tx_db tx) = db_events db"
    "\<exists>c \<in> set (db_commands db). c_ID c = cid \<and> regradable c"
  shows "\<exists>ev tx'. appendRegradeEventTx (\<lambda>_. False) now cid tx = Inr (ev, tx')"
proof -
  have m: "0 \<le> max_event_seq (tx_db tx) cid \<and> max_event_seq (tx_db tx) cid < 2 ^ 31 - 1 \<and>
      \<not> has_event (tx_db tx) cid (max_event_seq (tx_db tx) cid + 1)"
    by (rule max_event_seq_bounds) (use assms in \<open>auto simp: room_def\<close>)
  then have "i32 (max_event_seq (tx_db tx) cid + 1) = max_event_seq (tx_db tx) cid + 1"
    by (intro i32_id) auto
  with m assms(2) show ?thesis by (simp add: appendRegradeEventTx_def stmt_ok_def Let_def)
qed

lemma result_switch_succeeds:
  assumes "room (tx_db tx)" "\<not> tx_aborted tx"
  shows "\<exists>tx'. result_switch (\<lambda>_. False) now ts st e tx = Inr tx' \<and> \<not> tx_aborted tx' \<and> room (tx_db tx')"
proof -
  let ?up = "\<lambda>p f. update_where (\<lambda>c. c_ID c = su_CommandID e \<and> p c) f (tx_db tx)"
  have ev: "db_events (?up p f) = db_events (tx_db tx)" for p f by (simp add: update_where_def map_commands_def)
  have room: "room (?up p f)" if "\<And>c. p c \<Longrightarrow> row_step c (f c)" for p f
    by (rule room_step [OF assms(1)]) (use that ev in \<open>auto intro!: rows_step_update\<close>)
  let ?tx = "tx\<lparr>tx_db := ?up regradable (regrade_update ts e)\<rparr>"
  have "\<exists>ev tx'. appendRegradeEventTx (\<lambda>_. False) now (su_CommandID e) ?tx = Inr (ev, tx') \<and>
      \<not> tx_aborted tx' \<and> room (tx_db tx')"
    if ex: "\<exists>c \<in> set (db_commands (tx_db tx)). c_ID c = su_CommandID e \<and> regradable c"
  proof -
    obtain r tx' where t: "appendRegradeEventTx (\<lambda>_. False) now (su_CommandID e) ?tx = Inr (r, tx')"
      using appendRegrade_succeeds [OF assms(1), of ?tx] assms(2) ex ev by fastforce
    then have tx': "tx' = ?tx\<lparr>tx_db := (tx_db ?tx)\<lparr>db_events := db_events (tx_db ?tx) @ [r]\<rparr>\<rparr>"
        "e_CommandID r = su_CommandID e"
      by (auto simp: appendRegradeEventTx_def Let_def split: if_splits)
    have none: "\<not> regradable c" if "c \<in> set (db_commands (tx_db tx'))" "c_ID c = su_CommandID e" for c
      using that regrade_update_final
      by (auto simp: tx' update_where_def map_commands_def final_row_def split: if_splits)
    have "room (tx_db ?tx)" using room [OF regrade_update_step] by simp
    then have "room (tx_db tx')"
    proof (rule room_step)
      show "rows_step (tx_db ?tx) (tx_db tx')" by (simp add: tx'(1) list_all2_refl)
    next
      fix q c' assume "q \<in> set (db_events (tx_db tx'))" "c' \<in> set (db_commands (tx_db tx'))" "regradable c'" "e_CommandID q = c_ID c'"
      then show "q \<in> set (db_events (tx_db ?tx)) \<or> (0 \<le> e_SeqNo q \<and> e_SeqNo q < 2 ^ 31 - 1)"
        using none [of c'] tx' by auto
    qed
    with t tx'(1) assms(2) show ?thesis by auto
  qed
  then show ?thesis
    using assms room [OF terminal_update_step] room [OF late_update_step]
    by (force simp: result_switch_def stmt_ok_def list_ex_iff Let_def)
qed

lemma apply_result_succeeds:
  assumes "room (tx_db tx)" "\<not> tx_aborted tx" "\<not> half_summary e"
  shows "\<exists>tx'. apply_result (\<lambda>_. False) now ts st e tx = Inr tx' \<and> \<not> tx_aborted tx' \<and> room (tx_db tx')"
proof -
  obtain tx1 where 1: "result_switch (\<lambda>_. False) now ts st e tx = Inr tx1" "\<not> tx_aborted tx1" "room (tx_db tx1)"
    using result_switch_succeeds [OF assms(1,2)] by blast
  have "\<exists>tx2. updateCommandResultSummaryTx (\<lambda>_. False) (su_CommandID e) (su_FinalSummary e) (su_ResultJSON e) tx1 = Inr tx2 \<and>
      db_events (tx_db tx2) = db_events (tx_db tx1)"
    using assms(3) 1(2) summaryTx_both [of "su_FinalSummary e" "su_ResultJSON e" "\<lambda>_. False" "su_CommandID e" tx1]
    by (cases "su_FinalSummary e = []") (auto simp: half_summary_def summaryTx_none stmt_ok_def update_where_def map_commands_def)
  then obtain tx2 where 2: "updateCommandResultSummaryTx (\<lambda>_. False) (su_CommandID e) (su_FinalSummary e) (su_ResultJSON e) tx1 = Inr tx2"
    and ev: "db_events (tx_db tx2) = db_events (tx_db tx1)" by blast
  have s: "tx_db_step tx1 tx2" using summaryTx_step [OF 2] by blast
  have "room (tx_db tx2)" using s ev by (intro room_step [OF 1(3)]) (auto simp: tx_db_step_def db_grows_def)
  with 1 2 s show ?thesis by (simp add: apply_result_def tx_db_step_def Let_def)
qed

lemma apply_event_succeeds:
  assumes "room (tx_db tx)" "\<not> tx_aborted tx" "1 \<le> su_SeqNo e" "su_SeqNo e < 2 ^ 31 - 1"
  shows "\<exists>tx'. apply_event (\<lambda>_. False) now ts e tx = Inr tx' \<and> \<not> tx_aborted tx' \<and> room (tx_db tx')"
proof -
  have u: "tx_aborted (recordCommandTokenUsageTx (\<lambda>_. False) e t) = tx_aborted t"
    "db_commands (tx_db (recordCommandTokenUsageTx (\<lambda>_. False) e t)) = db_commands (tx_db t)"
    "db_events (tx_db (recordCommandTokenUsageTx (\<lambda>_. False) e t)) = db_events (tx_db t)"
    if "\<not> tx_aborted t" for t
    using that by (simp_all add: recordCommandTokenUsageTx_def stmt_ok_def split: option.split)
  obtain tx' where t: "apply_event (\<lambda>_. False) now ts e tx = Inr tx'"
    using assms(2) by (cases "apply_event (\<lambda>_. False) now ts e tx")
      (auto simp: apply_event_def stmt_ok_def Let_def split: prod.splits)
  have "db_commands (tx_db tx') = db_commands (tx_db tx)" "\<not> tx_aborted tx'"
    "\<forall>r \<in> set (db_events (tx_db tx')). r \<in> set (db_events (tx_db tx)) \<or> e_SeqNo r = su_SeqNo e"
    using t assms(2) u
    by (auto simp: apply_event_def stmt_ok_def insert_event_def Let_def split: if_splits)
  then have "room (tx_db tx')" using assms(3,4) by (intro room_step [OF assms(1)]) (auto simp: list_all2_refl)
  with t \<open>\<not> tx_aborted tx'\<close> show ?thesis by blast
qed

lemma apply_entry_succeeds:
  assumes "room (tx_db tx)" "\<not> tx_aborted tx" "good_row e"
  shows "\<exists>tx'. apply_entry (\<lambda>_. False) now machineID db0 e tx = Inr tx' \<and> \<not> tx_aborted tx' \<and> room (tx_db tx')"
proof (cases "reject_reason machineID db0 e")
  case None
  obtain st where st: "apply_entry (\<lambda>_. False) now machineID db0 e tx =
      (if su_Kind e = KIND_PROGRESS then apply_progress (\<lambda>_. False) (entry_time now e) e tx
       else if su_Kind e = KIND_EVENT then apply_event (\<lambda>_. False) now (entry_time now e) e tx
       else apply_result (\<lambda>_. False) now (entry_time now e) st e tx)"
    "su_Kind e \<in> {KIND_PROGRESS, KIND_EVENT, KIND_RESULT}" "1 \<le> su_SeqNo e"
    using apply_entry_accepted [OF None, of "\<lambda>_. False" now tx] by blast
  have "\<exists>tx'. apply_progress (\<lambda>_. False) ts e tx = Inr tx' \<and> \<not> tx_aborted tx' \<and> room (tx_db tx')" for ts
    using assms(1,2) by (auto simp: apply_progress_def stmt_ok_def insert_output_def room_def Let_def)
  with st assms apply_event_succeeds [OF assms(1,2) st(3)] apply_result_succeeds [OF assms(1,2)] show ?thesis
    by (auto simp: good_row_def)
next
  case (Some reason)
  with apply_entry_rejected [OF Some] assms show ?thesis by (simp add: reject_def)
qed

lemma apply_entries_succeed:
  assumes "room (tx_db tx)" "\<not> tx_aborted tx" "\<forall>e \<in> set es. good_row e"
  shows "\<exists>tx'. apply_entries (\<lambda>_. False) now machineID db0 es tx = Inr tx' \<and> \<not> tx_aborted tx' \<and> room (tx_db tx')"
  using assms
proof (induction es arbitrary: tx)
  case (Cons e es)
  then obtain tx1 where "apply_entry (\<lambda>_. False) now machineID db0 e tx = Inr tx1" "\<not> tx_aborted tx1" "room (tx_db tx1)"
    using apply_entry_succeeds [of tx e now machineID db0] by auto
  with Cons.IH [of tx1] Cons.prems show ?case by simp
qed simp

lemma fold_marks_succeeds:
  assumes "room (tx_db tx)" "\<not> tx_aborted tx"
  shows "\<exists>tx'. fold_marks (\<lambda>_. False) ms tx = Inr tx' \<and> \<not> tx_aborted tx' \<and> room (tx_db tx')"
  using assms
proof (induction ms arbitrary: tx)
  case (Cons m ms)
  obtain i w where m: "m = (i, w)" by force
  let ?db = "update_where (\<lambda>c. c_ID c = i) (\<lambda>c. c\<lparr>c_LastAckSeq := max (c_LastAckSeq c) (w_ack w)\<rparr>) (tx_db tx)"
  have "room ?db"
    by (rule room_step [OF Cons.prems(1)])
      (auto intro!: rows_step_update simp: row_step_def same_outcome_def, simp_all add: update_where_def map_commands_def)
  with Cons m show ?case by (auto simp: stmt_ok_def Let_def)
qed simp

lemma batch_succeeds:
  assumes "room db" "\<forall>e \<in> set es. good_row e"
  shows "\<exists>res db'. ApplyCommandUploadBatch (\<lambda>_. False) now machineID es db = (Inr res, db') \<and> room db'"
proof -
  obtain tx where 1: "apply_entries (\<lambda>_. False) now machineID db es (begin_tx db) = Inr tx" "\<not> tx_aborted tx" "room (tx_db tx)"
    using apply_entries_succeed [of "begin_tx db" es now machineID db] assms by (auto simp: begin_tx_def)
  obtain tx' where "fold_marks (\<lambda>_. False) (tx_marks tx) tx = Inr tx'" "\<not> tx_aborted tx'" "room (tx_db tx')"
    using fold_marks_succeeds [OF 1(3,2)] by blast
  with 1 assms(1) show ?thesis by (auto simp: ApplyCommandUploadBatch_def stmt_ok_def)
qed

section \<open>The handler as the uploader's server\<close>

text \<open>The notifications keep the buses well formed and never panic.\<close>

definition buses_wf :: "dispatcher \<Rightarrow> bool" where
  "buses_wf d \<longleftrightarrow> bus_wf (cb_output (dp_bus d)) \<and> bus_wf (cb_event (dp_bus d))"

abbreviation tame :: "command_db \<Rightarrow> dispatcher \<Rightarrow> bool" where
  "tame db d \<equiv> buses_wf d \<and> dp_db d = db"

lemma each_tame:
  assumes "\<And>x d. x \<in> set xs \<Longrightarrow> P d \<Longrightarrow> \<exists>d'. f x d = Some d' \<and> P d'" "P d"
  shows "\<exists>d'. each f xs d = Some d' \<and> P d'"
  using assms
proof (induction xs arbitrary: d)
  case (Cons x xs)
  then obtain d1 where "f x d = Some d1" "P d1" by fastforce
  with Cons show ?case by simp
qed simp

lemma bcast_tame:
  assumes "tame db d"
  shows "\<exists>d'. bcast_output c m d = Some d' \<and> tame db d'" "\<exists>d'. bcast_event c ev d = Some d' \<and> tame db d'"
  using assms broadcast_wf [of "cb_output (dp_bus d)" c m] broadcast_wf [of "cb_event (dp_bus d)" c ev]
  by (auto simp: bcast_output_def bcast_event_def buses_wf_def)

lemma notify_tame:
  assumes "tame db d"
  shows "\<exists>d'. notify_all uenv wes res d = Some d' \<and> tame db d'"
proof -
  note b = bcast_tame
  have ou: "\<exists>d'. notify_output uenv wire r d = Some d' \<and> tame db d'" if "tame db d" for wire r d
    using that b(1) by (auto simp: notify_output_def split: option.split)
  have e: "\<exists>d'. notify_event uenv wire r d = Some d' \<and> tame db d'" if "tame db d" for wire r d
    using that b(2) by (auto simp: notify_event_def Let_def split: option.split)
  have t: "\<exists>d'. notify_terminal uenv r d = Some d' \<and> tame db d'" if "tame db d" for r d
    using that by (simp add: notify_terminal_def scheduleWatcherClose_def clearCurrentCommand_def buses_wf_def)
  have c: "tame db (clearCurrentCommand a i d) = tame db d" "tame db (scheduleWatcherClose i d) = tame db d" for a i d
    by (simp_all add: clearCurrentCommand_def scheduleWatcherClose_def buses_wf_def)
  have g: "\<exists>d'. notify_regrade uenv r d = Some d' \<and> tame db d'" if "tame db d" for r d
  proof -
    have "tame db (clearCurrentCommand (rg_AgentID r) (uuid_String uenv (rg_CommandID r)) d)"
      using that by (simp only: c)
    from b(2) [OF this] show ?thesis unfolding notify_regrade_def Let_def using c(2) by fastforce
  qed
  obtain d1 where 1: "each (notify_output uenv (wireByKey wes)) (br_InsertedOutputs res) d = Some d1" "tame db d1"
    using each_tame [of "br_InsertedOutputs res" "tame db" "notify_output uenv (wireByKey wes)", OF ou assms] by blast
  obtain d2 where 2: "each (notify_event uenv (wireByKey wes)) (br_InsertedEvents res) d1 = Some d2" "tame db d2"
    using each_tame [of "br_InsertedEvents res" "tame db" "notify_event uenv (wireByKey wes)", OF e 1(2)] by blast
  obtain d3 where 3: "each (notify_terminal uenv) (br_Terminals res) d2 = Some d3" "tame db d3"
    using each_tame [of "br_Terminals res" "tame db" "notify_terminal uenv", OF t 2(2)] by blast
  obtain d4 where 4: "each (notify_regrade uenv) (br_Regrades res) d3 = Some d4" "tame db d4"
    using each_tame [of "br_Regrades res" "tame db" "notify_regrade uenv", OF g 3(2)] by blast
  from 1(1) 2(1) 3(1) 4 show ?thesis by (simp add: notify_all_def)
qed

lemma each_db:
  "(\<And>x d d'. f x d = Some d' \<Longrightarrow> dp_db d' = dp_db d) \<Longrightarrow> each f xs d = Some d' \<Longrightarrow> dp_db d' = dp_db d"
  by (induction xs arbitrary: d) (auto split: option.splits)

lemma notify_db:
  assumes "notify_all uenv wes res d = Some d'"
  shows "dp_db d' = dp_db d"
proof -
  have n: "notify_output uenv w ou d = Some d' \<Longrightarrow> dp_db d' = dp_db d"
    "notify_event uenv w e d = Some d' \<Longrightarrow> dp_db d' = dp_db d"
    "notify_terminal uenv t d = Some d' \<Longrightarrow> dp_db d' = dp_db d"
    "notify_regrade uenv r d = Some d' \<Longrightarrow> dp_db d' = dp_db d" for w ou e t r d d'
    by (auto simp: notify_output_def notify_event_def notify_terminal_def notify_regrade_def bcast_output_def
        bcast_event_def scheduleWatcherClose_def clearCurrentCommand_def Let_def split: option.splits)
  obtain d1 where 1: "each (notify_output uenv (wireByKey wes)) (br_InsertedOutputs res) d = Some d1"
    using assms unfolding notify_all_def Let_def by (simp split: option.splits)
  obtain d2 where 2: "each (notify_event uenv (wireByKey wes)) (br_InsertedEvents res) d1 = Some d2"
    using assms unfolding notify_all_def Let_def 1 by (simp split: option.splits)
  obtain d3 where 3: "each (notify_terminal uenv) (br_Terminals res) d2 = Some d3"
    using assms unfolding notify_all_def Let_def 1 option.case 2 by (simp split: option.splits)
  have 4: "each (notify_regrade uenv) (br_Regrades res) d3 = Some d'"
    using assms unfolding notify_all_def Let_def 1 option.case 2 3 .
  show ?thesis
    using each_db [OF n(1) 1] each_db [OF n(2) 2] each_db [OF n(3) 3] each_db [OF n(4) 4] by simp
qed

text \<open>The split of a batch.\<close>

lemma split_entries_ok:
  assumes "split_entries uenv jenv wes = (ok, rej)"
  shows "set ok = {(we, se). we \<in> set wes \<and> convertUploadEntry uenv jenv we = Inr se} \<and>
    (\<forall>we \<in> set wes. \<forall>reason. convertUploadEntry uenv jenv we = Inl reason \<longrightarrow>
       (\<exists>r \<in> set rej. (rej_command_id r, rej_kind r, rej_seq_no r) = entry_key we))"
  using assms
proof (induction wes arbitrary: ok rej)
  case (Cons we wes)
  obtain ok1 rej1 where s: "split_entries uenv jenv wes = (ok1, rej1)" by (cases "split_entries uenv jenv wes")
  note ih = Cons.IH [OF s]
  show ?case
  proof (cases "convertUploadEntry uenv jenv we")
    case (Inl reason)
    with ih s Cons.prems show ?thesis by (auto simp: entry_key_def)
  next
    case (Inr se)
    with ih s Cons.prems show ?thesis by auto
  qed
qed auto

lemma convert_keys:
  "convertUploadEntry uenv jenv we = Inr se \<Longrightarrow>
     uuid_Parse uenv (ue_command_id we) = Some (su_CommandID se) \<and> su_Kind se = ue_kind we \<and> su_SeqNo se = ue_seq_no we"
  by (auto simp: convertUploadEntry_def blank_row_def Let_def split: option.splits if_splits entry_payload.splits
      sum.splits)

text \<open>What happens to a call: the request may not arrive, the database may refuse statements, the
  response may be lost on its way back. \<open>world\<close> decides, call by call.\<close>

datatype delivery = Delivered | ResponseLost | RequestLost

record call_world =
  cw_fails :: "upload_stmt \<Rightarrow> bool"
  cw_now :: int
  cw_delivery :: delivery

datatype rpc_error = ServerError upload_error | Unreachable

text \<open>The manager with the responses it has given and the number of calls so far.\<close>

record manager =
  mg_dispatcher :: dispatcher
  mg_responses :: "upload_response list"
  mg_calls :: nat

definition machine_rpc ::
  "uuid_env \<Rightarrow> json_env \<Rightarrow> (nat \<Rightarrow> call_world) \<Rightarrow> int \<Rightarrow> (manager, rpc_error) transport" where
  "machine_rpc uenv jenv world machineID m es =
     (let w = world (mg_calls m); m1 = m\<lparr>mg_calls := Suc (mg_calls m)\<rparr> in
      if cw_delivery w = RequestLost then (Inl Unreachable, m1)
      else
        (case ApplyCommandUpload uenv jenv (cw_fails w) (cw_now w) machineID (mg_dispatcher m) es of
           (Inl err, d) \<Rightarrow> (Inl (ServerError err), m1\<lparr>mg_dispatcher := d\<rparr>)
         | (Inr resp, d) \<Rightarrow>
             (if cw_delivery w = ResponseLost then Inl Unreachable else Inr resp,
              m1\<lparr>mg_dispatcher := d, mg_responses := mg_responses m @ [resp]\<rparr>)))"

text \<open>The manager is done with an entry: its tables hold it, or it has told the machine that it does
  not take the entry, or not its command.\<close>

definition refuses :: "uuid_env \<Rightarrow> upload_response \<Rightarrow> upload_entry \<Rightarrow> bool" where
  "refuses uenv resp e \<longleftrightarrow>
     (\<exists>r \<in> set (resp_rejected resp). rej_kind r = ue_kind e \<and> rej_seq_no r = ue_seq_no e \<and>
        (rej_command_id r = ue_command_id e \<or>
         Some (rej_command_id r) = map_option (uuid_String uenv) (uuid_Parse uenv (ue_command_id e))))"

definition manager_has :: "uuid_env \<Rightarrow> json_env \<Rightarrow> manager \<Rightarrow> upload_entry \<Rightarrow> bool" where
  "manager_has uenv jenv m e \<longleftrightarrow>
     (\<exists>se. convertUploadEntry uenv jenv e = Inr se \<and> stored (dp_db (mg_dispatcher m)) se) \<or>
     (\<exists>resp \<in> set (mg_responses m). refuses uenv resp e \<or> abandons resp e)"

definition manager_ok :: "manager \<Rightarrow> bool" where
  "manager_ok m \<longleftrightarrow> db_wf (dp_db (mg_dispatcher m))"

definition manager_ready :: "manager \<Rightarrow> bool" where
  "manager_ready m \<longleftrightarrow>
     manager_ok m \<and> room (dp_db (mg_dispatcher m)) \<and> buses_wf (mg_dispatcher m)"

text \<open>Entries the handler settles: refused ones, and those with the canonical spelling of their
  command's id and a result that carries both a summary and a result structure, or neither.\<close>

definition well_formed_entry :: "uuid_env \<Rightarrow> json_env \<Rightarrow> upload_entry \<Rightarrow> bool" where
  "well_formed_entry uenv jenv e \<longleftrightarrow>
     (\<forall>se. convertUploadEntry uenv jenv e = Inr se \<longrightarrow>
        (\<forall>u. uuid_String uenv u = ue_command_id e \<longleftrightarrow> u = su_CommandID se) \<and> good_row se)"

lemma batch_db_grows:
  assumes "db_wf db" "ApplyCommandUploadBatch fails now machineID es db = (r, db')"
  shows "db_grows db db' \<and> db_wf db'"
proof (cases r)
  case (Inl err)
  with assms batch_error_rolls_back show ?thesis by fastforce
next
  case (Inr res)
  have "db_wf db'"
  proof (cases "es = []")
    case True
    with assms show ?thesis by (auto simp: ApplyCommandUploadBatch_def)
  next
    case False
    obtain tx tx' where t: "apply_entries fails now machineID db es (begin_tx db) = Inr tx"
        "fold_marks fails (tx_marks tx) tx = Inr tx'" "db' = tx_db tx'"
      using batch_commit [OF assms(2) [unfolded Inr] False] by blast
    with apply_entries_cols [OF t(1)] fold_marks_acks [OF t(2)] assms(1) show ?thesis by (simp add: begin_tx_def)
  qed
  with committed_batch [OF assms(1)] assms(2) Inr show ?thesis by blast
qed

lemma upload_db_grows:
  assumes "db_wf (dp_db d)" "ApplyCommandUpload uenv jenv fails now machineID d es = (r, d')"
  shows "db_grows (dp_db d) (dp_db d') \<and> db_wf (dp_db d')"
proof -
  obtain ok rej where s: "split_entries uenv jenv es = (ok, rej)" by (cases "split_entries uenv jenv es")
  obtain br db where b: "ApplyCommandUploadBatch fails now machineID (map snd ok) (dp_db d) = (br, db)"
    by (cases "ApplyCommandUploadBatch fails now machineID (map snd ok) (dp_db d)")
  have "dp_db d' = db"
    using assms(2) s b by (auto simp: ApplyCommandUpload_def split: sum.splits option.splits dest: notify_db)
  with batch_db_grows [OF assms(1) b] show ?thesis by simp
qed

text \<open>A response accounts for every entry of its batch.\<close>

lemma upload_accounts:
  assumes "db_wf (dp_db d)" "ApplyCommandUpload uenv jenv fails now machineID d es = (Inr resp, d')" "e \<in> set es"
  shows "rejects resp e \<or>
    (\<exists>se. convertUploadEntry uenv jenv e = Inr se \<and>
       (refuses uenv resp e \<or>
        (stored (dp_db d') se \<and>
         (\<exists>a \<in> set (resp_acks resp). ack_command_id a = uuid_String uenv (su_CommandID se) \<and> covers a e))))"
proof -
  obtain ok rej where s: "split_entries uenv jenv es = (ok, rej)" by (cases "split_entries uenv jenv es")
  obtain res db where b: "ApplyCommandUploadBatch fails now machineID (map snd ok) (dp_db d) = (Inr res, db)"
      "dp_db d' = db" "resp = response_of uenv rej res"
    using assms(2) s by (auto simp: ApplyCommandUpload_def split: sum.splits option.splits prod.splits dest: notify_db)
  note so = split_entries_ok [OF s]
  show ?thesis
  proof (cases "convertUploadEntry uenv jenv e")
    case (Inl reason)
    with so assms(3) obtain r where "r \<in> set rej" "(rej_command_id r, rej_kind r, rej_seq_no r) = entry_key e" by blast
    then show ?thesis by (auto simp: rejects_def b(3) response_of_def)
  next
    case (Inr se)
    note k = convert_keys [OF Inr]
    have "se \<in> set (map snd ok)" using so Inr assms(3) by force
    with committed_batch [OF assms(1) b(1)] consider "refused res se" | "stored db se" "ack_covers_row res se" by blast
    then show ?thesis
    proof cases
      case 1
      then obtain r where "r \<in> set (br_Rejected res)" "sr_CommandID r = su_CommandID se"
          "sr_Kind r = su_Kind se" "sr_SeqNo r = su_SeqNo se"
        by (auto simp: refused_def)
      with k have "refuses uenv resp e"
        unfolding refuses_def b(3) response_of_def
        by (intro bexI [of _ "\<lparr>rej_command_id = uuid_String uenv (sr_CommandID r),
            rej_kind = sr_Kind r, rej_seq_no = sr_SeqNo r, rej_reason = sr_Reason r\<rparr>"]) (simp, force)
      with Inr show ?thesis by blast
    next
      case 2
      then obtain a where "a \<in> set (br_Acks res)" "sa_CommandID a = su_CommandID se"
        "(su_Kind se = KIND_PROGRESS \<and> su_SeqNo se \<le> sa_LastProgressSeq a) \<or>
         (su_Kind se = KIND_EVENT \<and> su_SeqNo se \<le> sa_LastEventSeq a) \<or>
         (su_Kind se = KIND_RESULT \<and> sa_ResultAcked a)"
        by (auto simp: ack_covers_row_def)
      with k have "\<exists>a \<in> set (resp_acks resp). ack_command_id a = uuid_String uenv (su_CommandID se) \<and> covers a e"
        by (force simp: b(3) response_of_def covers_def)
      with Inr 2(1) b(2) show ?thesis by blast
    qed
  qed
qed

lemma machine_rpc_cases:
  assumes "machine_rpc uenv jenv world machineID m es = (r, m')" "manager_ok m"
  obtains (none) "m' = m\<lparr>mg_calls := Suc (mg_calls m)\<rparr>" "r = Inl Unreachable"
  | (failed) err d where "ApplyCommandUpload uenv jenv (cw_fails (world (mg_calls m))) (cw_now (world (mg_calls m)))
        machineID (mg_dispatcher m) es = (Inl err, d)"
      "m' = m\<lparr>mg_calls := Suc (mg_calls m), mg_dispatcher := d\<rparr>" "r = Inl (ServerError err)"
  | (answered) resp d where "ApplyCommandUpload uenv jenv (cw_fails (world (mg_calls m))) (cw_now (world (mg_calls m)))
        machineID (mg_dispatcher m) es = (Inr resp, d)"
      "m' = m\<lparr>mg_calls := Suc (mg_calls m), mg_dispatcher := d, mg_responses := mg_responses m @ [resp]\<rparr>"
      "r = Inl Unreachable \<or> r = Inr resp"
proof (cases "cw_delivery (world (mg_calls m)) = RequestLost")
  case True
  with assms(1) show ?thesis by (intro none) (auto simp: machine_rpc_def Let_def)
next
  case False
  obtain q d where a: "ApplyCommandUpload uenv jenv (cw_fails (world (mg_calls m))) (cw_now (world (mg_calls m)))
        machineID (mg_dispatcher m) es = (q, d)"
    by fastforce
  show ?thesis
  proof (cases q)
    case (Inl err)
    show ?thesis by (rule failed) (use assms(1) False a Inl in \<open>auto simp: machine_rpc_def Let_def\<close>)
  next
    case (Inr resp)
    show ?thesis by (rule answered) (use assms(1) False a Inr in \<open>auto simp: machine_rpc_def Let_def split: if_splits\<close>)
  qed
qed

lemma machine_rpc_mono:
  assumes "machine_rpc uenv jenv world machineID m es = (r, m')" "manager_ok m"
  shows "manager_ok m' \<and> (manager_has uenv jenv m e \<longrightarrow> manager_has uenv jenv m' e)"
proof -
  have wf: "db_wf (dp_db (mg_dispatcher m))" using assms(2) by (simp add: manager_ok_def)
  show ?thesis
    using assms
  proof (cases rule: machine_rpc_cases)
    case none
    with assms(2) show ?thesis by (simp add: manager_ok_def manager_has_def)
  next
    case (failed err d)
    with upload_db_grows [OF wf failed(1)] stored_grows show ?thesis by (auto simp: manager_ok_def manager_has_def)
  next
    case (answered resp d)
    with upload_db_grows [OF wf answered(1)] stored_grows show ?thesis by (auto simp: manager_ok_def manager_has_def)
  qed
qed

lemma rejects_refuses: "rejects resp e \<Longrightarrow> refuses uenv resp e"
  by (auto simp: rejects_def refuses_def entry_key_def)

lemma machine_rpc_settled:
  assumes "machine_rpc uenv jenv world machineID m es = (Inr resp, m')" "manager_ok m" "e \<in> set es"
  shows "manager_has uenv jenv m' e"
  using assms(1,2)
proof (cases rule: machine_rpc_cases)
  case (answered resp' d)
  then have "db_wf (dp_db (mg_dispatcher m))" using assms(2) by (simp add: manager_ok_def)
  from upload_accounts [OF this answered(1) assms(3)] answered(2) rejects_refuses show ?thesis
    by (auto simp: manager_has_def)
qed simp_all

interpretation rpc: upload_server "machine_rpc uenv jenv world machineID" "manager_has uenv jenv" manager_ok
  for uenv jenv world machineID
proof
  fix m e es resp m'
  show "manager_ok (snd (machine_rpc uenv jenv world machineID m es))" if "manager_ok m"
    using machine_rpc_mono [OF _ that] by (cases "machine_rpc uenv jenv world machineID m es") simp
  show "manager_has uenv jenv (snd (machine_rpc uenv jenv world machineID m es)) e"
    if "manager_ok m" "manager_has uenv jenv m e"
    using machine_rpc_mono [OF _ that(1)] that(2) by (cases "machine_rpc uenv jenv world machineID m es") simp
  show "manager_has uenv jenv m' e"
    if "manager_ok m" "machine_rpc uenv jenv world machineID m es = (Inr resp, m')" "e \<in> set es"
    using machine_rpc_settled [OF that(2,1,3)] .
qed

text \<open>A calm network and database.\<close>

definition calm :: "(nat \<Rightarrow> int) \<Rightarrow> nat \<Rightarrow> call_world" where
  "calm clock k = \<lparr>cw_fails = (\<lambda>_. False), cw_now = clock k, cw_delivery = Delivered\<rparr>"

lemma distinct_find_rev:
  assumes "distinct (map f xs)" "a \<in> set xs" "\<forall>b \<in> set xs. p b \<longleftrightarrow> f b = f a"
  shows "find p (rev xs) = Some a"
proof -
  have "find p (rev xs) \<noteq> None" using assms(2,3) by (auto simp: find_None_iff)
  then obtain b where b: "find p (rev xs) = Some b" by blast
  then have "b \<in> set xs" "p b" by (auto simp: find_Some_iff) (metis nth_mem length_rev set_rev)
  with assms have "b = a" by (simp add: distinct_map inj_on_def)
  with b show ?thesis by simp
qed

lemma find_map_list: "find p (map f xs) = map_option f (find (\<lambda>x. p (f x)) xs)"
  by (induction xs) simp_all

lemma upload_settles:
  assumes "db_wf (dp_db d)" "room (dp_db d)" "buses_wf d" "\<forall>e \<in> set es. well_formed_entry uenv jenv e"
  shows "\<exists>resp d'. ApplyCommandUpload uenv jenv (\<lambda>_. False) now machineID d es = (Inr resp, d') \<and>
    room (dp_db d') \<and> buses_wf d' \<and> (\<forall>e \<in> set es. settles resp e)"
proof -
  obtain ok rej where s: "split_entries uenv jenv es = (ok, rej)" by (cases "split_entries uenv jenv es")
  note so = split_entries_ok [OF s]
  have "\<forall>se \<in> set (map snd ok). good_row se" using so assms(4) by (auto simp: well_formed_entry_def)
  from batch_succeeds [OF assms(2) this, of now machineID] obtain res db where
    b: "ApplyCommandUploadBatch (\<lambda>_. False) now machineID (map snd ok) (dp_db d) = (Inr res, db)" "room db"
    by blast
  have "tame db (d\<lparr>dp_db := db\<rparr>)" using assms(3) by (simp add: buses_wf_def)
  from notify_tame [OF this] obtain d' where n: "notify_all uenv (map fst ok) res (d\<lparr>dp_db := db\<rparr>) = Some d'"
      "buses_wf d'" "dp_db d' = db"
    by blast
  define resp where "resp = response_of uenv rej res"
  have up: "ApplyCommandUpload uenv jenv (\<lambda>_. False) now machineID d es = (Inr resp, d')"
    using s b(1) n(1) by (simp add: ApplyCommandUpload_def resp_def)
  have dist: "distinct (map sa_CommandID (br_Acks res))" using committed_batch [OF assms(1) b(1)] by blast
  have "settles resp e" if e: "e \<in> set es" for e
    using upload_accounts [OF assms(1) up e]
  proof (elim disjE exE conjE bexE)
    assume "rejects resp e"
    then show ?thesis by (simp add: settles_def)
  next
    fix se assume se: "convertUploadEntry uenv jenv e = Inr se" "refuses uenv resp e"
    then have "uuid_String uenv (su_CommandID se) = ue_command_id e"
      using assms(4) e by (simp add: well_formed_entry_def)
    with se convert_keys [OF se(1)] have "rejects resp e"
      by (auto simp: refuses_def rejects_def entry_key_def)
    then show ?thesis by (simp add: settles_def)
  next
    fix se a
    assume se: "convertUploadEntry uenv jenv e = Inr se" and a: "a \<in> set (resp_acks resp)"
      "ack_command_id a = uuid_String uenv (su_CommandID se)" "covers a e"
    have canon: "uuid_String uenv u = ue_command_id e \<longleftrightarrow> u = su_CommandID se" for u
      using assms(4) e se by (simp add: well_formed_entry_def)
    obtain sa where sa: "sa \<in> set (br_Acks res)" "a = \<lparr>ack_command_id = uuid_String uenv (sa_CommandID sa),
        ack_last_progress_seq = sa_LastProgressSeq sa, ack_last_event_seq = sa_LastEventSeq sa,
        ack_result_acked = sa_ResultAcked sa\<rparr>"
      using a(1) by (auto simp: resp_def response_of_def)
    have "uuid_String uenv (su_CommandID se) = ue_command_id e" using canon by simp
    then have "sa_CommandID sa = su_CommandID se" using a(2) canon [of "sa_CommandID sa"] sa(2) by simp
    then have "find (\<lambda>b. uuid_String uenv (sa_CommandID b) = ue_command_id e) (rev (br_Acks res)) = Some sa"
      using canon by (intro distinct_find_rev [OF dist sa(1)]) simp
    then have "find (\<lambda>a. ack_command_id a = ue_command_id e) (rev (resp_acks resp)) = Some a"
      using sa(2) by (simp add: resp_def response_of_def rev_map find_map_list)
    with a(3) show ?thesis by (simp add: settles_def acknowledges_def)
  qed
  with up b(2) n(2,3) show ?thesis by blast
qed

interpretation calm_rpc: draining_server "machine_rpc uenv jenv (calm clock) machineID" "manager_has uenv jenv"
    manager_ok "well_formed_entry uenv jenv" manager_ready
  for uenv jenv clock machineID
proof
  show "manager_ok m" if "manager_ready m" for m using that by (simp add: manager_ready_def)
next
  fix m es
  assume m: "manager_ready m" and es: "\<forall>e \<in> set es. well_formed_entry uenv jenv e"
  have r: "db_wf (dp_db (mg_dispatcher m))" "room (dp_db (mg_dispatcher m))" "buses_wf (mg_dispatcher m)"
    using m by (simp_all add: manager_ready_def manager_ok_def)
  obtain resp d' where u: "ApplyCommandUpload uenv jenv (\<lambda>_. False) (clock (mg_calls m)) machineID (mg_dispatcher m) es
      = (Inr resp, d')" "room (dp_db d')" "buses_wf d'" "\<forall>e \<in> set es. settles resp e"
    using upload_settles [OF r es] by blast
  then show "\<exists>resp m'. machine_rpc uenv jenv (calm clock) machineID m es = (Inr resp, m') \<and> manager_ready m' \<and>
      (\<forall>e \<in> set es. settles resp e)"
    using upload_db_grows [OF r(1) u(1)]
    by (simp add: machine_rpc_def calm_def manager_ready_def manager_ok_def Let_def)
qed

section \<open>Properties\<close>

definition sample_row :: "int \<Rightarrow> int \<Rightarrow> upload_row" where
  "sample_row kind seq = (blank_row 1 \<lparr>ue_command_id = ''1'', ue_kind = kind, ue_seq_no = seq,
     ue_timestamp = None, ue_payload = NoPayload\<rparr>)\<lparr>su_FinalSummary := ''done'', su_ResultJSON := ''{}''\<rparr>"

lemmas sample_simps = sample_row_def blank_row_def sample_db_def empty_db_def sample_command_def
  status_defs failure_kind_defs kind_defs

lemma sample_db_wf: "db_wf sample_db"
  by (simp add: db_wf_def sample_simps)

text \<open>C3: A committed upload batch accounts for every one of its entries. The refused ones are
  exactly those of an unknown command, of a command bound to another machine, with a sequence
  number below one or of an unknown kind, each reported with its reason in the order of the batch;
  every other entry is in the tables (its output row, its event row with its token usage, or the end of
  its command) and the watermarks of the response cover it. The keys stay unique.\<close>

theorem upload_batch_accounts:
  assumes "db_wf db" "ApplyCommandUploadBatch fails now machineID es db = (Inr res, db')"
  shows "db_wf db' \<and> br_Rejected res = List.map_filter (rejection_of machineID db) es \<and>
    (\<forall>e \<in> set es. reject_reason machineID db e = None \<longrightarrow> stored db' e \<and> ack_covers_row res e)"
  using committed_batch [OF assms] batch_response [OF assms(2)] batch_db_grows [OF assms]
    accepted_not_refused [of res machineID db es] by blast

theorem upload_batch_accounts_witness:
  "\<exists>res db'. ApplyCommandUploadBatch (\<lambda>_. False) 5 7 [sample_row KIND_PROGRESS 3] sample_db = (Inr res, db') \<and>
     has_output db' 1 3"
proof -
  let ?e = "sample_row KIND_PROGRESS 3"
  have "\<exists>res db'. ApplyCommandUploadBatch (\<lambda>_. False) 5 7 [?e] sample_db = (Inr res, db') \<and> room db'"
    by (rule batch_succeeds) (simp_all add: room_def good_row_def regradable_def sample_simps)
  then obtain res db' where b: "ApplyCommandUploadBatch (\<lambda>_. False) 5 7 [?e] sample_db = (Inr res, db')" by blast
  have "reject_reason 7 sample_db ?e = None"
    by (simp add: reject_reason_def find_command_row_def coalesce_machine_def sample_simps)
  with upload_batch_accounts [OF sample_db_wf b] have "stored db' ?e" by simp
  then have "has_output db' 1 3" by (simp add: stored_def sample_simps)
  with b show ?thesis by blast
qed

text \<open>C4: What an upload can do to the commands: whatever the batch and whatever fails, every command
  row keeps its identity and either keeps its outcome or moves from pending, running or failed for an unreachable
  machine to an outcome the machine reported; and a command of which the batch holds no accepted entry keeps its row, its logs and its
  usage. In particular that holds of every command bound to another machine, whatever the batch says of it.\<close>

theorem upload_moves_forward_only:
  assumes "db_wf db" "ApplyCommandUploadBatch fails now machineID es db = (r, db')"
  shows "list_all2 row_step (db_commands db) (db_commands db') \<and>
    (\<forall>cid. (\<forall>e \<in> set es. su_CommandID e = cid \<longrightarrow> reject_reason machineID db e \<noteq> None) \<longrightarrow> command_view cid db' = command_view cid db) \<and>
    (\<forall>cid c. find_command_row db cid = Some c \<longrightarrow> coalesce_machine (c_MachineID c) \<noteq> machineID \<longrightarrow>
       command_view cid db' = command_view cid db)"
proof -
  have "reject_reason machineID db e \<noteq> None"
    if "find_command_row db (su_CommandID e) = Some c" "coalesce_machine (c_MachineID c) \<noteq> machineID" for e c
    using that by (simp add: reject_reason_def)
  then show ?thesis
    using batch_db_grows [OF assms] batch_view [OF assms(2)] by (auto simp: db_grows_def)
qed

theorem upload_moves_forward_only_witness:
  "\<exists>db'. snd (ApplyCommandUploadBatch (\<lambda>_. False) 5 8 [sample_row KIND_RESULT 1] sample_db) = db' \<and>
     command_view 1 db' = command_view 1 sample_db"
  using upload_moves_forward_only [OF sample_db_wf surjective_pairing,
      of "\<lambda>_. False" 5 8 "[sample_row KIND_RESULT 1]"]
  by (simp add: find_command_row_def coalesce_machine_def sample_simps)

text \<open>C5: Retransmission is harmless: sending a committed batch again, at any later time, commits,
  leaves every table exactly as it is, gives the same acknowledgements and rejections, and reports
  no terminal, no re-grade and no inserted row a second time.\<close>

theorem retransmission_harmless:
  assumes "db_wf db" "ApplyCommandUploadBatch fails now machineID es db = (Inr res, db')"
  shows "ApplyCommandUploadBatch (\<lambda>_. False) later machineID es db' =
    (Inr \<lparr>br_Acks = br_Acks res, br_Rejected = br_Rejected res, br_Terminals = [], br_Regrades = [],
       br_InsertedOutputs = [], br_InsertedEvents = [], br_LateFailures = 0\<rparr>, db')"
  using batch_replay [OF assms] by (simp add: empty_result_def)

theorem retransmission_harmless_witness:
  "\<exists>res db'. ApplyCommandUploadBatch (\<lambda>_. False) 5 7 [sample_row KIND_RESULT 1] sample_db = (Inr res, db') \<and>
     snd (ApplyCommandUploadBatch (\<lambda>_. False) 6 7 [sample_row KIND_RESULT 1] db') = db'"
proof -
  have "\<exists>res db'. ApplyCommandUploadBatch (\<lambda>_. False) 5 7 [sample_row KIND_RESULT 1] sample_db = (Inr res, db') \<and> room db'"
    by (rule batch_succeeds) (simp_all add: room_def good_row_def half_summary_def regradable_def sample_simps)
  then obtain res db' where "ApplyCommandUploadBatch (\<lambda>_. False) 5 7 [sample_row KIND_RESULT 1] sample_db = (Inr res, db')"
    by blast
  with retransmission_harmless [OF sample_db_wf this, of 6] show ?thesis by simp
qed

text \<open>A result entry that carries a final summary without a result structure, or the reverse, poisons
  its batch: once such an entry is accepted the whole transaction fails, whatever else is in it, and
  the database stays as it was, so that the machine retransmits the batch for ever.\<close>

theorem half_summary_poisons_batch:
  assumes "e \<in> set es" "reject_reason machineID db e = None" "su_Kind e = KIND_RESULT"
    "(su_FinalSummary e = []) \<noteq> (su_ResultJSON e = [])"
  shows "\<exists>err. ApplyCommandUploadBatch fails now machineID es db = (Inl err, db)"
proof (cases "ApplyCommandUploadBatch fails now machineID es db")
  case (Pair r db')
  show ?thesis
  proof (cases r)
    case (Inl err)
    with Pair batch_error_rolls_back show ?thesis by blast
  next
    case (Inr res)
    have "es \<noteq> []" using assms(1) by auto
    from batch_commit [OF Pair [unfolded Inr] this] obtain tx where
      "apply_entries fails now machineID db es (begin_tx db) = Inr tx" by blast
    from apply_entries_not_half [OF this assms(1-3)] assms(4) show ?thesis by (simp add: half_summary_def)
  qed
qed

theorem half_summary_poisons_batch_witness:
  "\<exists>err. ApplyCommandUploadBatch (\<lambda>_. False) 5 7
     [sample_row KIND_PROGRESS 1, (sample_row KIND_RESULT 1)\<lparr>su_ResultJSON := []\<rparr>] sample_db = (Inl err, sample_db)"
  by (rule half_summary_poisons_batch [of "(sample_row KIND_RESULT 1)\<lparr>su_ResultJSON := []\<rparr>"])
    (simp_all add: reject_reason_def find_command_row_def coalesce_machine_def sample_simps)

text \<open>The lookup behind the live streams ignores the kind of an entry: when an output row and an event
  of one command share a sequence number and the event comes later in the batch, the output's
  watchers are sent an empty message in place of the output.\<close>

theorem watchers_get_empty_output:
  assumes "ue_payload we = EventPayload ev" "ue_command_id we = uuid_String uenv (o_CommandID row)"
    "ue_seq_no we = o_SeqNo row"
  shows "notify_output uenv (wireByKey (accepted_entries @ [we])) row d =
    bcast_output (uuid_String uenv (o_CommandID row))
      \<lparr>co_command_id = [], co_type = 0, co_content = [], co_seq_no = 0, co_timestamp = None\<rparr> d"
  using assms by (simp add: notify_output_def wireByKey_def output_of_def)

theorem watchers_get_empty_output_witness:
  "\<forall>d. notify_output sample_uuid (wireByKey [progressEnvelope 0 ''1'' \<lparr>oc_stream_type = 1, oc_content = ''hi'', oc_seq_no = 1,
        oc_timestamp = None\<rparr>, eventEnvelope 0 ''1'' 1 nil_event])
      \<lparr>o_CommandID = 1, o_SeqNo = 1, o_StreamType = 1, o_Content = ''hi'', o_CreatedAt = 0\<rparr> d =
    bcast_output ''1'' \<lparr>co_command_id = [], co_type = 0, co_content = [], co_seq_no = 0, co_timestamp = None\<rparr> d"
  using watchers_get_empty_output [of "eventEnvelope 0 ''1'' 1 nil_event" nil_event sample_uuid
      "\<lparr>o_CommandID = 1, o_SeqNo = 1, o_StreamType = 1, o_Content = ''hi'', o_CreatedAt = 0\<rparr>"
      "[progressEnvelope 0 ''1'' \<lparr>oc_stream_type = 1, oc_content = ''hi'', oc_seq_no = 1, oc_timestamp = None\<rparr>]"]
  by (simp add: eventEnvelope_def sample_uuid_def)

end
