(* ===== verification/Policy_Store.thy ===== *)
theory Policy_Store
  imports Resource_Names Command_Store
begin

text \<open>
  The policy table and its cache (\<open>backend/manager/store/policy.go\<close>): finding, upserting, updating and
  deleting policies, and the IAM policies stored in them as JSON, with their etags and patches.

  The database may refuse a statement (\<open>fails\<close>, by the name of the statement); \<open>protojson\<close> is a
  parameter (\<open>policy_json\<close>). Times are in microseconds, the precision of the table. The cache is a
  map; an eviction is the removal of a key. New bindings of a patch are appended in the order of
  its roles (the code ranges over a map, in no fixed order); no statement depends on that order.

  The lemmas show that a patch sets a member's roles exactly, that the cache agrees with the table after every
  operation, and that reads see the last write.
\<close>

section \<open>Policies\<close>

datatype policy_resource =
    RESOURCE_UNSPECIFIED | WORKSPACE | ENVIRONMENT | PROJECT | CONVERSATION | AGENT | COMMAND
  | REMINDER | FILE | MACHINE | PROVISIONER

datatype policy_type = TYPE_UNSPECIFIED | IAM | TAG

fun resource_string :: "policy_resource \<Rightarrow> string" where
  "resource_string RESOURCE_UNSPECIFIED = ''RESOURCE_UNSPECIFIED''"
| "resource_string WORKSPACE = ''WORKSPACE''"
| "resource_string ENVIRONMENT = ''ENVIRONMENT''"
| "resource_string PROJECT = ''PROJECT''"
| "resource_string CONVERSATION = ''CONVERSATION''"
| "resource_string AGENT = ''AGENT''"
| "resource_string COMMAND = ''COMMAND''"
| "resource_string REMINDER = ''REMINDER''"
| "resource_string FILE = ''FILE''"
| "resource_string MACHINE = ''MACHINE''"
| "resource_string PROVISIONER = ''PROVISIONER''"

fun type_string :: "policy_type \<Rightarrow> string" where
  "type_string TYPE_UNSPECIFIED = ''TYPE_UNSPECIFIED''"
| "type_string IAM = ''IAM''"
| "type_string TAG = ''TAG''"

text \<open>A binding's condition is nil or an expression.\<close>

record binding =
  b_Role :: string
  b_Members :: "string list"
  b_Condition :: "string option"

type_synonym iam_policy = "binding list"

record policy_message =
  pm_Resource :: string
  pm_ResourceType :: policy_resource
  pm_Payload :: string
  pm_InheritFromParent :: bool
  pm_Type :: policy_type
  pm_Enforce :: bool
  pm_UpdatedAt :: int

record find_policy =
  fp_ResourceType :: "policy_resource option"
  fp_Resource :: "string option"
  fp_Type :: "policy_type option"
  fp_ShowAll :: bool

record update_policy =
  upm_ResourceType :: policy_resource
  upm_Resource :: string
  upm_Type :: policy_type
  upm_InheritFromParent :: "bool option"
  upm_Payload :: "string option"
  upm_Enforce :: "bool option"

record iam_message =
  im_Policy :: iam_policy
  im_Etag :: string

record patch_iam =
  pi_Member :: string
  pi_Roles :: "string list"

record policy_json =
  pj_marshal :: "iam_policy \<Rightarrow> string option"
  pj_unmarshal :: "string \<Rightarrow> iam_policy option"

datatype policy_error =
    PolSql string | PolConflict | PolMarshal | PolUnmarshal | EtagMismatch
  | MemberNotFound | ConversationMissing

record policy_store =
  ps_rows :: "policy_message list"
  ps_cache :: "string \<Rightarrow> policy_message option option"
  ps_enableCache :: bool

definition getPolicyCacheKey :: "policy_resource \<Rightarrow> string \<Rightarrow> policy_type \<Rightarrow> string" where
  "getPolicyCacheKey rt resource t =
     ''policies/'' @ resource_string rt @ ''/'' @ resource @ ''/'' @ type_string t"

definition policy_key :: "policy_message \<Rightarrow> policy_resource \<times> string \<times> policy_type" where
  "policy_key p = (pm_ResourceType p, pm_Resource p, pm_Type p)"

definition cache_add :: "string \<Rightarrow> policy_message option \<Rightarrow> policy_store \<Rightarrow> policy_store" where
  "cache_add k v ps = ps\<lparr>ps_cache := (ps_cache ps)(k \<mapsto> v)\<rparr>"

definition cache_remove :: "string \<Rightarrow> policy_store \<Rightarrow> policy_store" where
  "cache_remove k ps = ps\<lparr>ps_cache := (ps_cache ps)(k := None)\<rparr>"

definition key_of_message :: "policy_message \<Rightarrow> string" where
  "key_of_message p = getPolicyCacheKey (pm_ResourceType p) (pm_Resource p) (pm_Type p)"

section \<open>The table\<close>

text \<open>The \<open>WHERE\<close> clause of \<open>listPolicyImplV2\<close>: an unset filter does not restrict.\<close>

definition wants :: "'a option \<Rightarrow> 'a \<Rightarrow> bool" where
  "wants f x = (case f of None \<Rightarrow> True | Some y \<Rightarrow> y = x)"

definition listPolicyImplV2 ::
  "(string \<Rightarrow> bool) \<Rightarrow> find_policy \<Rightarrow> policy_message list \<Rightarrow> (policy_error, policy_message list) result" where
  "listPolicyImplV2 fails q rows =
     (if fails ''list policy'' then Inl (PolSql ''list policy'')
      else Inr (filter (\<lambda>p. wants (fp_ResourceType q) (pm_ResourceType p) \<and>
                  wants (fp_Resource q) (pm_Resource p) \<and> wants (fp_Type q) (pm_Type p) \<and>
                  (fp_ShowAll q \<or> pm_Enforce p)) rows))"

definition find_key :: "find_policy \<Rightarrow> string option" where
  "find_key q =
     (case (fp_ResourceType q, fp_Resource q, fp_Type q) of
        (Some rt, Some res, Some t) \<Rightarrow> Some (getPolicyCacheKey rt res t)
      | _ \<Rightarrow> None)"

definition GetPolicyV2 ::
  "(string \<Rightarrow> bool) \<Rightarrow> find_policy \<Rightarrow> policy_store \<Rightarrow>
     (policy_error, policy_message option) result \<times> policy_store" where
  "GetPolicyV2 fails q ps =
     (case (if ps_enableCache ps then Option.bind (find_key q) (ps_cache ps) else None) of
        Some v \<Rightarrow> (Inr v, ps)
      | None \<Rightarrow>
          if fails ''begin'' then (Inl (PolSql ''begin''), ps)
          else
            (case listPolicyImplV2 fails (q\<lparr>fp_ShowAll := True\<rparr>) (ps_rows ps) of
               Inl err \<Rightarrow> (Inl err, ps)
             | Inr [] \<Rightarrow>
                 (Inr None, case find_key q of None \<Rightarrow> ps | Some k \<Rightarrow> cache_add k None ps)
             | Inr [policy] \<Rightarrow>
                 if fails ''commit'' then (Inl (PolSql ''commit''), ps)
                 else (Inr (Some policy), cache_add (key_of_message policy) (Some policy) ps)
             | Inr _ \<Rightarrow> (Inl PolConflict, ps)))"

definition ListPoliciesV2 ::
  "(string \<Rightarrow> bool) \<Rightarrow> find_policy \<Rightarrow> policy_store \<Rightarrow>
     (policy_error, policy_message list) result \<times> policy_store" where
  "ListPoliciesV2 fails q ps =
     (if fails ''begin'' then (Inl (PolSql ''begin''), ps)
      else
        (case listPolicyImplV2 fails q (ps_rows ps) of
           Inl err \<Rightarrow> (Inl err, ps)
         | Inr policies \<Rightarrow>
             if fails ''commit'' then (Inl (PolSql ''commit''), ps)
             else (Inr policies, foldl (\<lambda>s p. cache_add (key_of_message p) (Some p) s) ps policies)))"

definition upsertPolicyV2Impl ::
  "(string \<Rightarrow> bool) \<Rightarrow> int \<Rightarrow> policy_message \<Rightarrow> policy_message list \<Rightarrow>
     (policy_error, policy_message \<times> policy_message list) result" where
  "upsertPolicyV2Impl fails now create rows =
     (let create1 = create\<lparr>pm_UpdatedAt := now\<rparr> in
      if fails ''upsert policy'' then Inl (PolSql ''upsert policy'')
      else Inr (create1,
        if list_ex (\<lambda>p. policy_key p = policy_key create) rows
        then map (\<lambda>p. if policy_key p = policy_key create
               then p\<lparr>pm_InheritFromParent := pm_InheritFromParent create, pm_Payload := pm_Payload create,
                      pm_Enforce := pm_Enforce create, pm_UpdatedAt := now\<rparr>
               else p) rows
        else rows @ [create1]))"

definition CreatePolicyV2 ::
  "(string \<Rightarrow> bool) \<Rightarrow> int \<Rightarrow> policy_message \<Rightarrow> policy_store \<Rightarrow>
     (policy_error, policy_message) result \<times> policy_store" where
  "CreatePolicyV2 fails now create ps =
     (if fails ''begin'' then (Inl (PolSql ''begin''), ps)
      else
        (case upsertPolicyV2Impl fails now create (ps_rows ps) of
           Inl err \<Rightarrow> (Inl err, ps)
         | Inr (policy, rows) \<Rightarrow>
             if fails ''commit'' then (Inl (PolSql ''commit''), ps)
             else (Inr policy, cache_add (key_of_message policy) (Some policy) (ps\<lparr>ps_rows := rows\<rparr>))))"

definition or_keep :: "'a option \<Rightarrow> 'a \<Rightarrow> 'a" where
  "or_keep v old = (case v of None \<Rightarrow> old | Some x \<Rightarrow> x)"

definition UpdatePolicyV2 ::
  "(string \<Rightarrow> bool) \<Rightarrow> int \<Rightarrow> update_policy \<Rightarrow> policy_store \<Rightarrow>
     (policy_error, policy_message option) result \<times> policy_store" where
  "UpdatePolicyV2 fails now patch ps =
     (let upd = (\<lambda>p. p\<lparr>pm_UpdatedAt := now,
            pm_InheritFromParent := or_keep (upm_InheritFromParent patch) (pm_InheritFromParent p),
            pm_Payload := or_keep (upm_Payload patch) (pm_Payload p),
            pm_Enforce := or_keep (upm_Enforce patch) (pm_Enforce p)\<rparr>);
          hit = (\<lambda>p. policy_key p = (upm_ResourceType patch, upm_Resource patch, upm_Type patch))
      in if fails ''begin'' \<or> fails ''update policy'' then (Inl (PolSql ''update policy''), ps)
         else
           (case find hit (ps_rows ps) of
              None \<Rightarrow> (Inr None, ps)
            | Some p \<Rightarrow>
                if fails ''commit'' then (Inl (PolSql ''commit''), ps)
                else (Inr (Some (upd p)),
                      cache_add (key_of_message (upd p)) (Some (upd p))
                        (ps\<lparr>ps_rows := map (\<lambda>p. if hit p then upd p else p) (ps_rows ps)\<rparr>))))"

definition DeletePolicyV2 ::
  "(string \<Rightarrow> bool) \<Rightarrow> policy_resource \<Rightarrow> string \<Rightarrow> policy_type \<Rightarrow> policy_store \<Rightarrow>
     policy_error option \<times> policy_store" where
  "DeletePolicyV2 fails rt resource t ps =
     (if fails ''begin'' \<or> fails ''delete policy'' \<or> fails ''commit'' then (Some (PolSql ''delete policy''), ps)
      else (None, cache_remove (getPolicyCacheKey rt resource t)
                    (ps\<lparr>ps_rows := filter (\<lambda>p. policy_key p \<noteq> (rt, resource, t)) (ps_rows ps)\<rparr>)))"

section \<open>IAM policies\<close>

definition generateEtag :: "int \<Rightarrow> string" where
  "generateEtag t = int_string (t div 1000)"

definition getIamPolicy ::
  "policy_json \<Rightarrow> (string \<Rightarrow> bool) \<Rightarrow> find_policy \<Rightarrow> policy_store \<Rightarrow>
     (policy_error, iam_message) result \<times> policy_store" where
  "getIamPolicy pj fails q ps =
     (case GetPolicyV2 fails (q\<lparr>fp_Type := Some IAM\<rparr>) ps of
        (Inl err, ps1) \<Rightarrow> (Inl err, ps1)
      | (Inr None, ps1) \<Rightarrow> (Inr \<lparr>im_Policy = [], im_Etag = []\<rparr>, ps1)
      | (Inr (Some p), ps1) \<Rightarrow>
          (case pj_unmarshal pj (pm_Payload p) of
             None \<Rightarrow> (Inl PolUnmarshal, ps1)
           | Some pol \<Rightarrow> (Inr \<lparr>im_Policy = pol, im_Etag = generateEtag (pm_UpdatedAt p)\<rparr>, ps1)))"

definition find_of :: "policy_resource \<Rightarrow> string option \<Rightarrow> find_policy" where
  "find_of rt res = \<lparr>fp_ResourceType = Some rt, fp_Resource = res, fp_Type = None, fp_ShowAll = False\<rparr>"

definition GetWorkspaceIamPolicy ::
  "policy_json \<Rightarrow> (string \<Rightarrow> bool) \<Rightarrow> policy_store \<Rightarrow> (policy_error, iam_message) result \<times> policy_store" where
  "GetWorkspaceIamPolicy pj fails = getIamPolicy pj fails (find_of WORKSPACE None)"

definition GetAgentIamPolicy ::
  "policy_json \<Rightarrow> (string \<Rightarrow> bool) \<Rightarrow> string \<Rightarrow> policy_store \<Rightarrow> (policy_error, iam_message) result \<times> policy_store" where
  "GetAgentIamPolicy pj fails agentName = getIamPolicy pj fails (find_of AGENT (Some agentName))"

definition GetMachineIamPolicy ::
  "policy_json \<Rightarrow> (string \<Rightarrow> bool) \<Rightarrow> string \<Rightarrow> policy_store \<Rightarrow> (policy_error, iam_message) result \<times> policy_store" where
  "GetMachineIamPolicy pj fails machineName = getIamPolicy pj fails (find_of MACHINE (Some machineName))"

definition GetProvisionerIamPolicy ::
  "policy_json \<Rightarrow> (string \<Rightarrow> bool) \<Rightarrow> string \<Rightarrow> policy_store \<Rightarrow> (policy_error, iam_message) result \<times> policy_store" where
  "GetProvisionerIamPolicy pj fails provisionerName = getIamPolicy pj fails (find_of PROVISIONER (Some provisionerName))"

text \<open>\<open>applyIamPolicyPatch\<close>. The set \<open>roleMap\<close> is a list without repetitions; a role leaves it at its
  first binding.\<close>

definition patch_binding :: "string \<Rightarrow> string list \<Rightarrow> binding \<Rightarrow> binding" where
  "patch_binding m roleMap b =
     (if b_Role b \<notin> set roleMap then b\<lparr>b_Members := remove1 m (b_Members b)\<rparr>
      else if m \<notin> set (b_Members b) then b\<lparr>b_Members := b_Members b @ [m]\<rparr>
      else b)"

fun patch_loop :: "string \<Rightarrow> string list \<Rightarrow> binding list \<Rightarrow> binding list \<times> string list" where
  "patch_loop m roleMap [] = ([], roleMap)"
| "patch_loop m roleMap (b # bs) =
     (case patch_loop m (removeAll (b_Role b) roleMap) bs of
        (bs', rest) \<Rightarrow> (patch_binding m roleMap b # bs', rest))"

definition applyIamPolicyPatch :: "patch_iam \<Rightarrow> iam_policy \<Rightarrow> iam_policy" where
  "applyIamPolicyPatch patch policy =
     (case patch_loop (pi_Member patch) (remdups (pi_Roles patch)) policy of
        (bs, rest) \<Rightarrow>
          filter (\<lambda>b. b_Members b \<noteq> [])
            (bs @ map (\<lambda>r. \<lparr>b_Role = r, b_Members = [pi_Member patch], b_Condition = None\<rparr>) rest))"

definition iam_row :: "policy_resource \<Rightarrow> string \<Rightarrow> string \<Rightarrow> policy_message" where
  "iam_row rt resource payload =
     \<lparr>pm_Resource = resource, pm_ResourceType = rt, pm_Payload = payload, pm_InheritFromParent = False,
      pm_Type = IAM, pm_Enforce = True, pm_UpdatedAt = 0\<rparr>"

definition upsertIamPolicy ::
  "policy_json \<Rightarrow> (string \<Rightarrow> bool) \<Rightarrow> int \<Rightarrow> policy_resource \<Rightarrow> string \<Rightarrow> iam_policy \<Rightarrow> policy_store \<Rightarrow>
     policy_error option \<times> policy_store" where
  "upsertIamPolicy pj fails now rt resource policy ps =
     (case pj_marshal pj policy of
        None \<Rightarrow> (Some PolMarshal, ps)
      | Some payload \<Rightarrow>
          (case CreatePolicyV2 fails now (iam_row rt resource payload) ps of
             (Inl err, ps1) \<Rightarrow> (Some err, ps1)
           | (Inr _, ps1) \<Rightarrow> (None, ps1)))"

definition etagMismatch :: "string \<Rightarrow> string \<Rightarrow> bool" where
  "etagMismatch currentEtag providedEtag \<longleftrightarrow> providedEtag \<noteq> [] \<and> currentEtag \<noteq> providedEtag"

definition ptr :: "string \<Rightarrow> string option" where
  "ptr s = (if s = [] then None else Some s)"

definition setIamPolicy ::
  "policy_json \<Rightarrow> (string \<Rightarrow> bool) \<Rightarrow> int \<Rightarrow> policy_resource \<Rightarrow> string \<Rightarrow> iam_policy option \<Rightarrow> string \<Rightarrow>
     policy_store \<Rightarrow> (policy_error, iam_message) result \<times> policy_store" where
  "setIamPolicy pj fails now rt resource policy etag ps =
     (let pol = (case policy of None \<Rightarrow> [] | Some p \<Rightarrow> p) in
      case getIamPolicy pj fails (find_of rt (ptr resource)) ps of
        (Inl err, ps1) \<Rightarrow> (Inl err, ps1)
      | (Inr current, ps1) \<Rightarrow>
          if etagMismatch (im_Etag current) etag then (Inl EtagMismatch, ps1)
          else
            (case upsertIamPolicy pj fails now rt resource pol ps1 of
               (Some err, ps2) \<Rightarrow> (Inl err, ps2)
             | (None, ps2) \<Rightarrow> getIamPolicy pj fails (find_of rt (ptr resource)) ps2))"

definition SetWorkspaceIamPolicy ::
  "policy_json \<Rightarrow> (string \<Rightarrow> bool) \<Rightarrow> int \<Rightarrow> iam_policy option \<Rightarrow> string \<Rightarrow> policy_store \<Rightarrow>
     (policy_error, iam_message) result \<times> policy_store" where
  "SetWorkspaceIamPolicy pj fails now policy etag = setIamPolicy pj fails now WORKSPACE [] policy etag"

definition SetAgentIamPolicy ::
  "policy_json \<Rightarrow> (string \<Rightarrow> bool) \<Rightarrow> int \<Rightarrow> string \<Rightarrow> iam_policy option \<Rightarrow> string \<Rightarrow> policy_store \<Rightarrow>
     (policy_error, iam_message) result \<times> policy_store" where
  "SetAgentIamPolicy pj fails now agentName policy etag = setIamPolicy pj fails now AGENT agentName policy etag"

definition SetMachineIamPolicy ::
  "policy_json \<Rightarrow> (string \<Rightarrow> bool) \<Rightarrow> int \<Rightarrow> string \<Rightarrow> iam_policy option \<Rightarrow> string \<Rightarrow> policy_store \<Rightarrow>
     (policy_error, iam_message) result \<times> policy_store" where
  "SetMachineIamPolicy pj fails now machineName policy etag = setIamPolicy pj fails now MACHINE machineName policy etag"

definition SetProvisionerIamPolicy ::
  "policy_json \<Rightarrow> (string \<Rightarrow> bool) \<Rightarrow> int \<Rightarrow> string \<Rightarrow> iam_policy option \<Rightarrow> string \<Rightarrow> policy_store \<Rightarrow>
     (policy_error, iam_message) result \<times> policy_store" where
  "SetProvisionerIamPolicy pj fails now provisionerName policy etag =
     setIamPolicy pj fails now PROVISIONER provisionerName policy etag"

definition PatchWorkspaceIamPolicy ::
  "policy_json \<Rightarrow> (string \<Rightarrow> bool) \<Rightarrow> int \<Rightarrow> patch_iam \<Rightarrow> policy_store \<Rightarrow>
     (policy_error, iam_message) result \<times> policy_store" where
  "PatchWorkspaceIamPolicy pj fails now patch ps =
     (case GetWorkspaceIamPolicy pj fails ps of
        (Inl err, ps1) \<Rightarrow> (Inl err, ps1)
      | (Inr w, ps1) \<Rightarrow>
          (case upsertIamPolicy pj fails now WORKSPACE [] (applyIamPolicyPatch patch (im_Policy w)) ps1 of
             (Some err, ps2) \<Rightarrow> (Inl err, ps2)
           | (None, ps2) \<Rightarrow> GetWorkspaceIamPolicy pj fails ps2))"

section \<open>What a patch does\<close>

definition holds_role :: "iam_policy \<Rightarrow> string \<Rightarrow> string \<Rightarrow> bool" where
  "holds_role policy m r \<longleftrightarrow> (\<exists>b \<in> set policy. b_Role b = r \<and> m \<in> set (b_Members b))"

text \<open>The same membership under the same condition.\<close>

definition bound_under :: "iam_policy \<Rightarrow> string \<Rightarrow> string \<Rightarrow> string option \<Rightarrow> bool" where
  "bound_under policy m r cond \<longleftrightarrow>
     (\<exists>b \<in> set policy. b_Role b = r \<and> b_Condition b = cond \<and> m \<in> set (b_Members b))"

definition members_distinct :: "iam_policy \<Rightarrow> bool" where
  "members_distinct policy \<longleftrightarrow> (\<forall>b \<in> set policy. distinct (b_Members b))"

lemma patch_binding_frame [simp]:
  "b_Role (patch_binding m R b) = b_Role b" "b_Condition (patch_binding m R b) = b_Condition b"
  by (simp_all add: patch_binding_def)

lemma patch_binding_member:
  assumes "distinct (b_Members b)"
  shows "m \<in> set (b_Members (patch_binding m R b)) \<longleftrightarrow> b_Role b \<in> set R"
    "m' \<noteq> m \<Longrightarrow> m' \<in> set (b_Members (patch_binding m R b)) \<longleftrightarrow> m' \<in> set (b_Members b)"
    "distinct (b_Members (patch_binding m R b))"
  using assms by (auto simp: patch_binding_def distinct_remove1)

lemma patch_loop_rest: "snd (patch_loop m R bs) = filter (\<lambda>r. r \<notin> b_Role ` set bs) R"
  by (induction bs arbitrary: R) (auto simp: split_beta removeAll_filter_not_eq intro: filter_cong)

lemma patch_loop_member:
  "members_distinct bs \<Longrightarrow>
     holds_role (fst (patch_loop m R bs)) m r \<longleftrightarrow> r \<in> set R \<and> r \<in> b_Role ` set bs"
proof (induction bs arbitrary: R)
  case (Cons b bs)
  then have "holds_role (fst (patch_loop m (removeAll (b_Role b) R) bs)) m r \<longleftrightarrow>
      r \<in> set R \<and> r \<noteq> b_Role b \<and> r \<in> b_Role ` set bs"
    by (auto simp: members_distinct_def)
  moreover have "m \<in> set (b_Members (patch_binding m R b)) \<longleftrightarrow> b_Role b \<in> set R"
    using Cons.prems by (intro patch_binding_member) (simp add: members_distinct_def)
  ultimately show ?case
    by (auto simp: holds_role_def split_beta)
qed (simp add: holds_role_def)

lemma patch_loop_others:
  "members_distinct bs \<Longrightarrow>
     list_all2 (\<lambda>b b'. b_Role b' = b_Role b \<and> b_Condition b' = b_Condition b \<and> distinct (b_Members b') \<and>
       (\<forall>m'. m' \<noteq> m \<longrightarrow> (m' \<in> set (b_Members b') \<longleftrightarrow> m' \<in> set (b_Members b)))) bs (fst (patch_loop m R bs))"
  by (induction bs arbitrary: R) (auto simp: split_beta members_distinct_def patch_binding_member)

lemma holds_role_append [simp]:
  "holds_role (p @ q) m r \<longleftrightarrow> holds_role p m r \<or> holds_role q m r"
  "holds_role [] m r \<longleftrightarrow> False"
  by (auto simp: holds_role_def)

lemma holds_role_nonempty [simp]: "holds_role (filter (\<lambda>b. b_Members b \<noteq> []) p) m r = holds_role p m r"
  by (auto simp: holds_role_def)

lemma bound_under_nonempty [simp]:
  "bound_under (filter (\<lambda>b. b_Members b \<noteq> []) p) m r c = bound_under p m r c"
  by (auto simp: bound_under_def)

lemma patch_roles:
  assumes "members_distinct policy"
  shows "holds_role (applyIamPolicyPatch patch policy) (pi_Member patch) r \<longleftrightarrow> r \<in> set (pi_Roles patch)"
proof -
  let ?m = "pi_Member patch" and ?R = "remdups (pi_Roles patch)"
  have "holds_role (map (\<lambda>r. \<lparr>b_Role = r, b_Members = [?m], b_Condition = None\<rparr>) xs) ?m r \<longleftrightarrow> r \<in> set xs" for xs
    by (auto simp: holds_role_def)
  then show ?thesis
    using patch_loop_member [OF assms, of ?m ?R r] patch_loop_rest [of ?m ?R policy]
    by (auto simp: applyIamPolicyPatch_def split_beta)
qed

lemma patch_others:
  assumes "members_distinct policy" "m' \<noteq> pi_Member patch"
  shows "bound_under (applyIamPolicyPatch patch policy) m' r c \<longleftrightarrow> bound_under policy m' r c"
proof -
  let ?m = "pi_Member patch" and ?R = "remdups (pi_Roles patch)"
  note l2 = patch_loop_others [OF assms(1), of ?m ?R]
  have "bound_under (fst (patch_loop ?m ?R policy)) m' r c \<longleftrightarrow> bound_under policy m' r c"
    unfolding bound_under_def using list_all2_right [OF l2] list_all2_left [OF l2] assms(2) by metis
  moreover have "\<not> bound_under (map (\<lambda>r. \<lparr>b_Role = r, b_Members = [?m], b_Condition = None\<rparr>) xs) m' r c" for xs
    using assms(2) by (auto simp: bound_under_def)
  ultimately show ?thesis
    by (auto simp: applyIamPolicyPatch_def split_beta bound_under_def)
qed

lemma patch_shape:
  assumes "members_distinct policy"
  shows "members_distinct (applyIamPolicyPatch patch policy) \<and>
    (\<forall>b \<in> set (applyIamPolicyPatch patch policy). b_Members b \<noteq> [])"
proof -
  note l2 = patch_loop_others [OF assms, of "pi_Member patch" "remdups (pi_Roles patch)"]
  have "distinct (b_Members b)" if "b \<in> set (fst (patch_loop (pi_Member patch) (remdups (pi_Roles patch)) policy))" for b
    using list_all2_right [OF l2 that] by blast
  then show ?thesis by (auto simp: applyIamPolicyPatch_def split_beta members_distinct_def)
qed

section \<open>The cache agrees with the table\<close>

definition lookup_policy :: "policy_resource \<Rightarrow> string \<Rightarrow> policy_type \<Rightarrow> policy_store \<Rightarrow> policy_message option" where
  "lookup_policy rt res t ps = find (\<lambda>p. policy_key p = (rt, res, t)) (ps_rows ps)"

definition policies_ok :: "policy_store \<Rightarrow> bool" where
  "policies_ok ps \<longleftrightarrow> distinct (map policy_key (ps_rows ps)) \<and>
     (\<forall>rt res t v. ps_cache ps (getPolicyCacheKey rt res t) = Some v \<longrightarrow> v = lookup_policy rt res t ps)"

lemma resource_string_free: "CHR ''/'' \<notin> set (resource_string rt)"
  by (cases rt) simp_all

lemma type_string_free: "CHR ''/'' \<notin> set (type_string t)"
  by (cases t) simp_all

lemma resource_string_inject: "resource_string rt = resource_string rt' \<Longrightarrow> rt = rt'"
  by (cases rt; cases rt'; simp)

lemma type_string_inject: "type_string t = type_string t' \<Longrightarrow> t = t'"
  by (cases t; cases t'; simp)

lemma first_sep_inject:
  "x \<notin> set as \<Longrightarrow> x \<notin> set bs \<Longrightarrow> as @ x # cs = bs @ x # ds \<Longrightarrow> as = bs \<and> cs = ds"
  by (induction as arbitrary: bs) (auto simp: Cons_eq_append_conv append_eq_Cons_conv)

lemma cache_key_inject:
  "getPolicyCacheKey rt res t = getPolicyCacheKey rt' res' t' \<longleftrightarrow> rt = rt' \<and> res = res' \<and> t = t'"
proof
  assume "getPolicyCacheKey rt res t = getPolicyCacheKey rt' res' t'"
  then have "resource_string rt @ CHR ''/'' # res @ CHR ''/'' # type_string t =
      resource_string rt' @ CHR ''/'' # res' @ CHR ''/'' # type_string t'"
    by (simp add: getPolicyCacheKey_def)
  from first_sep_inject [OF resource_string_free resource_string_free this]
  have 1: "resource_string rt = resource_string rt'"
    and "rev (type_string t) @ CHR ''/'' # rev res = rev (type_string t') @ CHR ''/'' # rev res'"
    by (simp_all flip: rev_append rev.simps) (metis append.assoc append_Cons append_Nil rev.simps(2) rev_append)
  from first_sep_inject [OF _ _ this(2)] type_string_free
  have "type_string t = type_string t'" "res = res'" by (metis rev_rev_ident set_rev)+
  with 1 show "rt = rt' \<and> res = res' \<and> t = t'" using resource_string_inject type_string_inject by blast
qed simp

lemma policies_okD:
  "policies_ok ps \<Longrightarrow> ps_cache ps (getPolicyCacheKey rt res t) = Some v \<Longrightarrow> v = lookup_policy rt res t ps"
  by (simp add: policies_ok_def)

lemma lookup_mem:
  assumes "distinct (map policy_key rows)" "p \<in> set rows"
  shows "find (\<lambda>q. policy_key q = policy_key p) rows = Some p"
  using assms by (induction rows) (auto simp: rev_image_eqI)

lemma lookup_Some: "lookup_policy rt res t ps = Some p \<Longrightarrow> p \<in> set (ps_rows ps) \<and> policy_key p = (rt, res, t)"
  by (auto simp: lookup_policy_def find_Some_iff)

text \<open>Filling or clearing a cache entry.\<close>

lemma cache_add_ok:
  assumes "policies_ok ps" "v = lookup_policy rt res t ps"
  shows "policies_ok (cache_add (getPolicyCacheKey rt res t) v ps)"
  using assms by (auto simp: policies_ok_def cache_add_def cache_key_inject lookup_policy_def)

lemma cache_add_member_ok:
  assumes "policies_ok ps" "p \<in> set (ps_rows ps)"
  shows "policies_ok (cache_add (key_of_message p) (Some p) ps)"
  unfolding key_of_message_def
  using assms lookup_mem [of "ps_rows ps" p]
  by (intro cache_add_ok) (auto simp: policies_ok_def lookup_policy_def policy_key_def)

lemma cache_remove_ok: "policies_ok ps \<Longrightarrow> policies_ok (cache_remove k ps)"
  by (auto simp: policies_ok_def cache_remove_def lookup_policy_def)

lemma rows_cache_add [simp]: "ps_rows (cache_add k v ps) = ps_rows ps"
  by (simp add: cache_add_def)

lemma listPolicy_full:
  assumes "distinct (map policy_key rows)"
    "listPolicyImplV2 fails \<lparr>fp_ResourceType = Some rt, fp_Resource = Some res, fp_Type = Some t, fp_ShowAll = True\<rparr> rows = Inr ps"
  shows "ps = (case find (\<lambda>p. policy_key p = (rt, res, t)) rows of None \<Rightarrow> [] | Some p \<Rightarrow> [p])"
proof -
  have "(rt = pm_ResourceType p \<and> res = pm_Resource p \<and> t = pm_Type p) = (policy_key p = (rt, res, t))" for p
    by (auto simp: policy_key_def)
  then have ps: "ps = filter (\<lambda>p. policy_key p = (rt, res, t)) rows"
    using assms(2) by (simp add: listPolicyImplV2_def wants_def split: if_splits)
  show ?thesis
    unfolding ps
  proof (cases "find (\<lambda>p. policy_key p = (rt, res, t)) rows")
    case None
    then have "filter (\<lambda>p. policy_key p = (rt, res, t)) rows = []"
      by (auto simp: find_None_iff filter_empty_conv)
    with None show "filter (\<lambda>p. policy_key p = (rt, res, t)) rows = (case find (\<lambda>p. policy_key p = (rt, res, t)) rows of
        None \<Rightarrow> [] | Some p \<Rightarrow> [p])"
      by simp
  next
    case (Some p)
    then have "p \<in> set rows" "policy_key p = (rt, res, t)" by (auto dest: find_found)
    with filter_key_unique [OF assms(1), of p] Some
    show "filter (\<lambda>p. policy_key p = (rt, res, t)) rows = (case find (\<lambda>p. policy_key p = (rt, res, t)) rows of
        None \<Rightarrow> [] | Some p \<Rightarrow> [p])" by simp
  qed
qed

lemma GetPolicyV2_ok:
  assumes "policies_ok ps" "GetPolicyV2 fails q ps = (r, ps')"
  shows "policies_ok ps' \<and> ps_rows ps' = ps_rows ps"
proof -
  have sub: "x \<in> set (ps_rows ps)" if "listPolicyImplV2 fails (q\<lparr>fp_ShowAll := True\<rparr>) (ps_rows ps) = Inr xs" "x \<in> set xs" for xs x
    using that by (auto simp: listPolicyImplV2_def split: if_splits)
  have none: "lookup_policy rt res t ps = None"
    if "listPolicyImplV2 fails (q\<lparr>fp_ShowAll := True\<rparr>) (ps_rows ps) = Inr []"
      "fp_ResourceType q = Some rt" "fp_Resource q = Some res" "fp_Type q = Some t" for rt res t
    using that by (auto simp: listPolicyImplV2_def lookup_policy_def find_None_iff filter_empty_conv wants_def policy_key_def split: if_splits)
  show ?thesis
    using assms sub none
    by (auto simp: GetPolicyV2_def find_key_def split: if_splits option.splits sum.splits list.splits
        intro!: cache_add_ok cache_add_member_ok)
qed

lemma ListPoliciesV2_ok:
  assumes "policies_ok ps" "ListPoliciesV2 fails q ps = (r, ps')"
  shows "policies_ok ps' \<and> ps_rows ps' = ps_rows ps"
proof -
  have fold: "policies_ok (foldl (\<lambda>s p. cache_add (key_of_message p) (Some p) s) s xs) \<and>
      ps_rows (foldl (\<lambda>s p. cache_add (key_of_message p) (Some p) s) s xs) = ps_rows s"
    if "policies_ok s" "set xs \<subseteq> set (ps_rows s)" for s xs
    using that
  proof (induction xs arbitrary: s)
    case (Cons x xs)
    then have "policies_ok (cache_add (key_of_message x) (Some x) s)" by (simp add: cache_add_member_ok)
    with Cons.IH [OF this] Cons.prems show ?case by simp
  qed simp
  show ?thesis
    using assms fold [of ps]
    by (auto simp: ListPoliciesV2_def listPolicyImplV2_def split: if_splits)
qed

text \<open>A write that touches one key and caches what it wrote.\<close>

lemma write_one_ok:
  assumes "policies_ok ps" "distinct (map policy_key rows)"
    "\<And>k. k \<noteq> (rt, res, t) \<Longrightarrow> find (\<lambda>p. policy_key p = k) rows = find (\<lambda>p. policy_key p = k) (ps_rows ps)"
    "v = find (\<lambda>p. policy_key p = (rt, res, t)) rows"
  shows "policies_ok (cache_add (getPolicyCacheKey rt res t) v (ps\<lparr>ps_rows := rows\<rparr>))"
  using assms by (auto simp: policies_ok_def cache_add_def lookup_policy_def cache_key_inject)

lemma find_map_key:
  assumes "\<And>p. policy_key (f p) = policy_key p"
  shows "find (\<lambda>p. policy_key p = k) (map f rows) = map_option f (find (\<lambda>p. policy_key p = k) rows)"
  by (induction rows) (simp_all add: assms)

lemma find_app_key:
  "find P (xs @ ys) = (case find P xs of None \<Rightarrow> find P ys | Some x \<Rightarrow> Some x)"
  by (induction xs) simp_all

lemma upsert_rows:
  assumes "distinct (map policy_key rows)" "upsertPolicyV2Impl fails now create rows = Inr (policy, rows')"
  shows "distinct (map policy_key rows') \<and> policy = create\<lparr>pm_UpdatedAt := now\<rparr> \<and>
    (\<forall>k. find (\<lambda>p. policy_key p = k) rows' =
       (if k = policy_key create then Some policy else find (\<lambda>p. policy_key p = k) rows))"
proof -
  define upd where "upd = (\<lambda>p. if policy_key p = policy_key create
               then p\<lparr>pm_InheritFromParent := pm_InheritFromParent create, pm_Payload := pm_Payload create,
                      pm_Enforce := pm_Enforce create, pm_UpdatedAt := now\<rparr> else p)"
  have key: "policy_key (upd p) = policy_key p" for p by (simp add: upd_def policy_key_def)
  have pol: "policy = create\<lparr>pm_UpdatedAt := now\<rparr>" "policy_key policy = policy_key create"
    using assms(2) by (auto simp: upsertPolicyV2Impl_def Let_def policy_key_def split: if_splits)
  show ?thesis
  proof (cases "list_ex (\<lambda>p. policy_key p = policy_key create) rows")
    case True
    then have rows': "rows' = map upd rows"
      using assms(2) by (simp add: upsertPolicyV2Impl_def Let_def upd_def split: if_splits)
    have "upd p = policy" if "policy_key p = policy_key create" for p
      using that by (simp add: upd_def pol policy_key_def)
    moreover have "find (\<lambda>p. policy_key p = policy_key create) rows \<noteq> None"
      using True by (auto simp: find_None_iff list_ex_iff)
    ultimately have "map_option upd (find (\<lambda>p. policy_key p = policy_key create) rows) = Some policy"
      by (auto simp: find_Some_iff)
    moreover have "map_option upd (find (\<lambda>p. policy_key p = k) rows) = find (\<lambda>p. policy_key p = k) rows"
      if "k \<noteq> policy_key create" for k
      using that by (cases "find (\<lambda>p. policy_key p = k) rows") (auto dest: find_found simp: upd_def)
    moreover have "distinct (map policy_key rows')" using key assms(1) by (simp add: rows' comp_def)
    ultimately show ?thesis
      using pol find_map_key [of upd, OF key] by (simp add: rows')
  next
    case False
    then have rows': "rows' = rows @ [policy]"
      using assms(2) pol by (simp add: upsertPolicyV2Impl_def Let_def split: if_splits)
    have new: "policy_key create \<notin> set (map policy_key rows)" using False by (auto simp: list_ex_iff)
    then have "find (\<lambda>p. policy_key p = policy_key create) rows = None"
      by (auto simp: find_None_iff) (metis image_eqI)
    with new pol assms(1) show ?thesis by (auto simp: rows' find_app_key split: option.split)
  qed
qed

lemma CreatePolicyV2_ok:
  assumes "policies_ok ps" "CreatePolicyV2 fails now create ps = (r, ps')"
  shows "policies_ok ps' \<and>
    (case r of Inl _ \<Rightarrow> ps' = ps
     | Inr p \<Rightarrow> p = create\<lparr>pm_UpdatedAt := now\<rparr> \<and>
        (\<forall>rt res t. lookup_policy rt res t ps' =
           (if (rt, res, t) = policy_key create then Some p else lookup_policy rt res t ps)))"
proof (cases "upsertPolicyV2Impl fails now create (ps_rows ps)")
  case (Inl err)
  with assms show ?thesis by (auto simp: CreatePolicyV2_def split: if_splits)
next
  case (Inr x)
  obtain policy rows where x: "x = (policy, rows)" by force
  have d: "distinct (map policy_key (ps_rows ps))" using assms(1) by (simp add: policies_ok_def)
  note u = upsert_rows [OF d Inr [unfolded x]]
  have k: "key_of_message policy = getPolicyCacheKey (pm_ResourceType create) (pm_Resource create) (pm_Type create)"
    "policy_key create = (pm_ResourceType create, pm_Resource create, pm_Type create)"
    using u by (simp_all add: key_of_message_def policy_key_def)
  have "policies_ok (cache_add (key_of_message policy) (Some policy) (ps\<lparr>ps_rows := rows\<rparr>))"
    unfolding k(1) by (rule write_one_ok [OF assms(1)]) (simp_all add: u k(2))
  moreover have "lookup_policy rt res t (cache_add k v (ps\<lparr>ps_rows := rows\<rparr>)) =
      (if (rt, res, t) = policy_key create then Some policy else lookup_policy rt res t ps)" for rt res t k v
    using u by (simp add: lookup_policy_def)
  ultimately show ?thesis
    using assms Inr x u by (auto simp: CreatePolicyV2_def split: if_splits)
qed

lemma UpdatePolicyV2_ok:
  assumes "policies_ok ps" "UpdatePolicyV2 fails now patch ps = (r, ps')"
  shows "policies_ok ps'"
proof -
  define hit where "hit = (\<lambda>p. policy_key p = (upm_ResourceType patch, upm_Resource patch, upm_Type patch))"
  define upd :: "policy_message \<Rightarrow> policy_message" where "upd = (\<lambda>p. p\<lparr>pm_UpdatedAt := now,
            pm_InheritFromParent := or_keep (upm_InheritFromParent patch) (pm_InheritFromParent p),
            pm_Payload := or_keep (upm_Payload patch) (pm_Payload p),
            pm_Enforce := or_keep (upm_Enforce patch) (pm_Enforce p)\<rparr>)"
  define f where "f = (\<lambda>p. if hit p then upd p else p)"
  have key: "policy_key (f p) = policy_key p" for p by (simp add: f_def upd_def policy_key_def)
  have d: "distinct (map policy_key (map f (ps_rows ps)))"
    using assms(1) key by (simp add: policies_ok_def comp_def)
  have "policies_ok (cache_add (key_of_message (upd p)) (Some (upd p)) (ps\<lparr>ps_rows := map f (ps_rows ps)\<rparr>))"
    if p: "find hit (ps_rows ps) = Some p" for p
  proof -
    have hp: "hit p" using p by (auto simp: find_Some_iff)
    then have k: "key_of_message (upd p) = getPolicyCacheKey (upm_ResourceType patch) (upm_Resource patch) (upm_Type patch)"
      by (simp add: key_of_message_def upd_def hit_def policy_key_def)
    show ?thesis
      unfolding k
    proof (rule write_one_ok [OF assms(1) d])
      show "find (\<lambda>p. policy_key p = k) (map f (ps_rows ps)) = find (\<lambda>p. policy_key p = k) (ps_rows ps)"
        if "k \<noteq> (upm_ResourceType patch, upm_Resource patch, upm_Type patch)" for k
        unfolding find_map_key [OF key]
        using that by (cases "find (\<lambda>p. policy_key p = k) (ps_rows ps)") (auto dest: find_found simp: f_def hit_def)
      show "Some (upd p) = find (\<lambda>p. policy_key p = (upm_ResourceType patch, upm_Resource patch, upm_Type patch)) (map f (ps_rows ps))"
        unfolding find_map_key [OF key] using p hp by (simp add: hit_def [symmetric] f_def)
    qed
  qed
  with assms show ?thesis
    by (auto simp: UpdatePolicyV2_def Let_def hit_def [symmetric] upd_def [symmetric] f_def [symmetric] fun_eq_iff
        split: if_splits option.splits)
qed

lemma DeletePolicyV2_ok:
  assumes "policies_ok ps" "DeletePolicyV2 fails rt res t ps = (err, ps')"
  shows "policies_ok ps' \<and> (err = None \<longrightarrow> lookup_policy rt res t ps' = None)"
proof -
  have other: "find (\<lambda>p. policy_key p = k) (filter (\<lambda>p. policy_key p \<noteq> k') rows) = find (\<lambda>p. policy_key p = k) rows"
    if "k \<noteq> k'" for k k' and rows :: "policy_message list"
    using that by (induction rows) auto
  have "find (\<lambda>p. policy_key p = k) (filter (\<lambda>p. policy_key p \<noteq> k) rows) = None" for k and rows :: "policy_message list"
    by (auto simp: find_None_iff)
  with assms other show ?thesis
    by (auto simp: DeletePolicyV2_def policies_ok_def cache_remove_def lookup_policy_def cache_key_inject distinct_map_filter
        split: if_splits)
qed

section \<open>Reading what was written\<close>

definition codec_ok :: "policy_json \<Rightarrow> bool" where
  "codec_ok pj \<longleftrightarrow> (\<forall>p s. pj_marshal pj p = Some s \<longrightarrow> pj_unmarshal pj s = Some p)"

abbreviation no_fail :: "string \<Rightarrow> bool" where "no_fail \<equiv> \<lambda>_. False"

text \<open>The policy a resource has, as the table holds it.\<close>

definition decode_policy :: "policy_json \<Rightarrow> policy_message option \<Rightarrow> (policy_error, iam_message) result" where
  "decode_policy pj row =
     (case row of
        None \<Rightarrow> Inr \<lparr>im_Policy = [], im_Etag = []\<rparr>
      | Some p \<Rightarrow>
          (case pj_unmarshal pj (pm_Payload p) of
             None \<Rightarrow> Inl PolUnmarshal
           | Some pol \<Rightarrow> Inr \<lparr>im_Policy = pol, im_Etag = generateEtag (pm_UpdatedAt p)\<rparr>))"

definition one_workspace :: "policy_store \<Rightarrow> bool" where
  "one_workspace ps \<longleftrightarrow> (\<forall>p \<in> set (ps_rows ps). pm_ResourceType p = WORKSPACE \<longrightarrow> pm_Resource p = [])"

lemma getIamPolicy_decode:
  "getIamPolicy pj fails q ps =
     (case GetPolicyV2 fails (q\<lparr>fp_Type := Some IAM\<rparr>) ps of
        (Inl err, ps1) \<Rightarrow> (Inl err, ps1) | (Inr row, ps1) \<Rightarrow> (decode_policy pj row, ps1))"
  by (simp add: getIamPolicy_def decode_policy_def split: prod.split sum.split option.split)

text \<open>A read by the full key, whatever the cache holds.\<close>

lemma GetPolicyV2_reads:
  assumes "policies_ok ps" "GetPolicyV2 fails \<lparr>fp_ResourceType = Some rt, fp_Resource = Some res, fp_Type = Some t, fp_ShowAll = b\<rparr> ps = (r, ps')"
  shows "(\<exists>err. r = Inl err \<and> ps' = ps) \<or> r = Inr (lookup_policy rt res t ps)"
proof -
  let ?q = "\<lparr>fp_ResourceType = Some rt, fp_Resource = Some res, fp_Type = Some t, fp_ShowAll = True\<rparr>"
  have d: "distinct (map policy_key (ps_rows ps))" using assms(1) by (simp add: policies_ok_def)
  show ?thesis
  proof (cases "ps_enableCache ps \<and> ps_cache ps (getPolicyCacheKey rt res t) \<noteq> None")
    case True
    with assms policies_okD [OF assms(1)] show ?thesis by (auto simp: GetPolicyV2_def find_key_def)
  next
    case False
    show ?thesis
    proof (cases "listPolicyImplV2 fails ?q (ps_rows ps)")
      case (Inl e)
      with False assms(2) show ?thesis by (auto simp: GetPolicyV2_def find_key_def split: if_splits)
    next
      case (Inr xs)
      from listPolicy_full [OF d Inr] have "xs = (case lookup_policy rt res t ps of None \<Rightarrow> [] | Some p \<Rightarrow> [p])"
        by (simp add: lookup_policy_def)
      with Inr False assms(2) show ?thesis
        by (auto simp: GetPolicyV2_def find_key_def split: if_splits option.splits)
    qed
  qed
qed

lemma GetPolicyV2_succeeds:
  "q = \<lparr>fp_ResourceType = Some rt, fp_Resource = Some res, fp_Type = Some t, fp_ShowAll = b\<rparr> \<Longrightarrow>
     policies_ok ps \<Longrightarrow> fst (GetPolicyV2 no_fail q ps) = Inr (lookup_policy rt res t ps)"
proof -
  assume q: "q = \<lparr>fp_ResourceType = Some rt, fp_Resource = Some res, fp_Type = Some t, fp_ShowAll = b\<rparr>" and ok: "policies_ok ps"
  have d: "distinct (map policy_key (ps_rows ps))" using ok by (simp add: policies_ok_def)
  obtain xs where "listPolicyImplV2 no_fail \<lparr>fp_ResourceType = Some rt, fp_Resource = Some res, fp_Type = Some t, fp_ShowAll = True\<rparr> (ps_rows ps) = Inr xs"
    by (simp add: listPolicyImplV2_def)
  with listPolicy_full [OF d this] policies_okD [OF ok, of rt res t] show ?thesis
    by (auto simp: GetPolicyV2_def find_key_def q lookup_policy_def split: option.splits)
qed

lemma workspace_rows:
  assumes "policies_ok ps" "one_workspace ps"
  shows "filter (\<lambda>p. pm_ResourceType p = WORKSPACE \<and> pm_Type p = IAM) (ps_rows ps) =
    (case lookup_policy WORKSPACE [] IAM ps of None \<Rightarrow> [] | Some p \<Rightarrow> [p])"
proof -
  have d: "distinct (map policy_key (ps_rows ps))" using assms(1) by (simp add: policies_ok_def)
  have "filter (\<lambda>p. pm_ResourceType p = WORKSPACE \<and> pm_Type p = IAM) (ps_rows ps) =
      filter (\<lambda>p. policy_key p = (WORKSPACE, [], IAM)) (ps_rows ps)"
    using assms(2) by (intro filter_cong) (auto simp: one_workspace_def policy_key_def)
  moreover have "listPolicyImplV2 no_fail \<lparr>fp_ResourceType = Some WORKSPACE, fp_Resource = Some [], fp_Type = Some IAM, fp_ShowAll = True\<rparr> (ps_rows ps) =
      Inr (filter (\<lambda>p. policy_key p = (WORKSPACE, [], IAM)) (ps_rows ps))"
    by (auto simp: listPolicyImplV2_def wants_def policy_key_def intro!: filter_cong)
  ultimately show ?thesis using listPolicy_full [OF d] by (simp add: lookup_policy_def)
qed

text \<open>The policy of a resource, and that of the workspace, which is looked up by its type alone.\<close>

definition policy_of :: "policy_json \<Rightarrow> policy_resource \<Rightarrow> string \<Rightarrow> policy_store \<Rightarrow> (policy_error, iam_message) result" where
  "policy_of pj rt res ps = decode_policy pj (lookup_policy rt res IAM ps)"

lemma getIamPolicy_reads:
  assumes "policies_ok ps" "res \<noteq> [] \<or> rt = WORKSPACE \<and> one_workspace ps"
  shows "fst (getIamPolicy pj no_fail (find_of rt (ptr res)) ps) = policy_of pj rt res ps"
proof (cases "res = []")
  case False
  then show ?thesis
    using GetPolicyV2_succeeds [OF _ assms(1), of _ rt res IAM False]
    by (auto simp: getIamPolicy_decode find_of_def ptr_def policy_of_def split: prod.split sum.split)
next
  case True
  then have w: "rt = WORKSPACE" "one_workspace ps" using assms(2) by auto
  have "filter (\<lambda>p. WORKSPACE = pm_ResourceType p \<and> IAM = pm_Type p) (ps_rows ps) =
      (case lookup_policy WORKSPACE [] IAM ps of None \<Rightarrow> [] | Some p \<Rightarrow> [p])"
    using workspace_rows [OF assms(1) w(2)] by (metis (mono_tags, lifting) filter_cong)
  then show ?thesis
    by (simp add: getIamPolicy_decode GetPolicyV2_def listPolicyImplV2_def wants_def find_key_def find_of_def ptr_def True w(1)
        policy_of_def split: option.split)
qed

lemma getIamPolicy_ok:
  "policies_ok ps \<Longrightarrow> getIamPolicy pj fails q ps = (r, ps') \<Longrightarrow> policies_ok ps' \<and> ps_rows ps' = ps_rows ps"
  using GetPolicyV2_ok [of ps fails "q\<lparr>fp_Type := Some IAM\<rparr>"]
  by (auto simp: getIamPolicy_decode split: prod.splits sum.splits)

lemma upsertIamPolicy_ok:
  assumes "policies_ok ps" "upsertIamPolicy pj fails now rt res pol ps = (err, ps')"
  shows "policies_ok ps' \<and> (err \<noteq> None \<longrightarrow> ps' = ps) \<and>
    (codec_ok pj \<longrightarrow> err = None \<longrightarrow>
       policy_of pj rt res ps' = Inr \<lparr>im_Policy = pol, im_Etag = generateEtag now\<rparr> \<and>
       (\<forall>rt' res'. (rt', res') \<noteq> (rt, res) \<longrightarrow> policy_of pj rt' res' ps' = policy_of pj rt' res' ps))"
proof (cases "pj_marshal pj pol")
  case None
  with assms show ?thesis by (auto simp: upsertIamPolicy_def)
next
  case (Some payload)
  obtain r ps1 where c: "CreatePolicyV2 fails now (iam_row rt res payload) ps = (r, ps1)" by fastforce
  note ok = CreatePolicyV2_ok [OF assms(1) c]
  with Some c assms(2) show ?thesis
    by (cases r) (auto simp: upsertIamPolicy_def codec_ok_def policy_of_def decode_policy_def iam_row_def policy_key_def)
qed

lemma upsert_one_workspace:
  assumes "one_workspace ps" "rt = WORKSPACE \<longrightarrow> res = []" "upsertIamPolicy pj fails now rt res pol ps = (err, ps')"
  shows "one_workspace ps'"
  using assms
  by (auto simp: upsertIamPolicy_def CreatePolicyV2_def upsertPolicyV2Impl_def iam_row_def one_workspace_def policy_key_def Let_def
      split: option.splits if_splits prod.splits)

section \<open>Properties\<close>

text \<open>Patching a member's roles is exact: afterwards the member holds precisely the roles of the
  patch, every other member is bound to the same roles under the same conditions as before, and no
  binding is left without members.\<close>

theorem patch_sets_roles_exactly:
  assumes "members_distinct policy"
  shows "let policy' = applyIamPolicyPatch \<lparr>pi_Member = m, pi_Roles = roles\<rparr> policy in
    (\<forall>r. holds_role policy' m r \<longleftrightarrow> r \<in> set roles) \<and>
    (\<forall>m' r c. m' \<noteq> m \<longrightarrow> (bound_under policy' m' r c \<longleftrightarrow> bound_under policy m' r c)) \<and>
    members_distinct policy' \<and> (\<forall>b \<in> set policy'. b_Members b \<noteq> [])"
  using patch_roles [OF assms, of "\<lparr>pi_Member = m, pi_Roles = roles\<rparr>"]
    patch_others [OF assms, of _ "\<lparr>pi_Member = m, pi_Roles = roles\<rparr>"]
    patch_shape [OF assms, of "\<lparr>pi_Member = m, pi_Roles = roles\<rparr>"]
  by (simp add: Let_def)

theorem patch_sets_roles_exactly_witness:
  "holds_role (applyIamPolicyPatch \<lparr>pi_Member = ''users/a'', pi_Roles = [''roles/x'']\<rparr>
     [\<lparr>b_Role = ''roles/y'', b_Members = [''users/a'', ''users/b''], b_Condition = None\<rparr>]) ''users/a'' ''roles/x'' \<and>
   bound_under (applyIamPolicyPatch \<lparr>pi_Member = ''users/a'', pi_Roles = [''roles/x'']\<rparr>
     [\<lparr>b_Role = ''roles/y'', b_Members = [''users/a'', ''users/b''], b_Condition = None\<rparr>]) ''users/b'' ''roles/y'' None"
  using patch_sets_roles_exactly [of "[\<lparr>b_Role = ''roles/y'', b_Members = [''users/a'', ''users/b''], b_Condition = None\<rparr>]"
      "''users/a''" "[''roles/x'']"]
  by (simp add: Let_def members_distinct_def bound_under_def)

text \<open>The policy cache never lies. Every read, list, create, update and delete, failing or not, keeps
  each cached entry, a cached absence included, equal to the row of the table under its key.\<close>

theorem policy_cache_coherent:
  assumes "policies_ok ps"
  shows "policies_ok (snd (GetPolicyV2 fails q ps)) \<and> policies_ok (snd (ListPoliciesV2 fails q ps)) \<and>
    policies_ok (snd (CreatePolicyV2 fails now create ps)) \<and> policies_ok (snd (UpdatePolicyV2 fails now patch ps)) \<and>
    policies_ok (snd (DeletePolicyV2 fails rt res t ps))"
  using GetPolicyV2_ok [OF assms surjective_pairing] ListPoliciesV2_ok [OF assms surjective_pairing]
    CreatePolicyV2_ok [OF assms surjective_pairing] UpdatePolicyV2_ok [OF assms surjective_pairing]
    DeletePolicyV2_ok [OF assms surjective_pairing]
  by blast

definition empty_policies :: policy_store where
  "empty_policies = \<lparr>ps_rows = [], ps_cache = Map.empty, ps_enableCache = True\<rparr>"

lemma empty_policies_ok: "policies_ok empty_policies" "one_workspace empty_policies"
  by (simp_all add: empty_policies_def policies_ok_def one_workspace_def)

theorem policy_cache_coherent_witness:
  "policies_ok (snd (CreatePolicyV2 no_fail 5 (iam_row AGENT ''agents/a'' ''{}'') empty_policies))"
  using policy_cache_coherent [OF empty_policies_ok(1), of no_fail undefined 5 "iam_row AGENT ''agents/a'' ''{}''"] by blast

text \<open>Replacing a policy is guarded against stale writes. With a working database, a call with an etag other
  than the stored one is refused and writes nothing; otherwise the call returns the new policy, a
  later read returns it too, and no other resource's policy changes.\<close>

theorem set_policy_guarded:
  assumes "policies_ok ps" "codec_ok pj" "pj_marshal pj pol \<noteq> None"
    "res \<noteq> [] \<and> rt \<noteq> WORKSPACE \<or> res = [] \<and> rt = WORKSPACE \<and> one_workspace ps"
    "policy_of pj rt res ps = Inr current" "setIamPolicy pj no_fail now rt res (Some pol) etag ps = (r, ps')"
  shows "policies_ok ps' \<and>
    (if etag \<noteq> [] \<and> etag \<noteq> im_Etag current then r = Inl EtagMismatch \<and> ps_rows ps' = ps_rows ps
     else r = Inr \<lparr>im_Policy = pol, im_Etag = generateEtag now\<rparr> \<and>
       fst (getIamPolicy pj no_fail (find_of rt (ptr res)) ps') = r \<and>
       (\<forall>rt' res'. (rt', res') \<noteq> (rt, res) \<longrightarrow> policy_of pj rt' res' ps' = policy_of pj rt' res' ps))"
proof -
  let ?q = "find_of rt (ptr res)"
  have a4: "res \<noteq> [] \<or> rt = WORKSPACE \<and> one_workspace ps" using assms(4) by auto
  obtain g ps1 where g: "getIamPolicy pj no_fail ?q ps = (g, ps1)" by fastforce
  have g1: "g = Inr current" using getIamPolicy_reads [OF assms(1) a4, of pj] g assms(5) by simp
  note ps1 = getIamPolicy_ok [OF assms(1) g]
  have same: "policy_of pj rt' res' ps1 = policy_of pj rt' res' ps" for rt' res'
    using ps1 by (simp add: policy_of_def lookup_policy_def)
  show ?thesis
  proof (cases "etag \<noteq> [] \<and> etag \<noteq> im_Etag current")
    case True
    then have "r = Inl EtagMismatch" "ps' = ps1"
      using assms(6) g g1 by (auto simp: setIamPolicy_def etagMismatch_def)
    with True ps1 show ?thesis by simp
  next
    case False
    obtain e ps2 where u: "upsertIamPolicy pj no_fail now rt res pol ps1 = (e, ps2)" by fastforce
    have e: "e = None"
      using u assms(3) by (auto simp: upsertIamPolicy_def CreatePolicyV2_def upsertPolicyV2Impl_def Let_def)
    note ps2 = upsertIamPolicy_ok [OF conjunct1 [OF ps1] u]
    have "one_workspace ps1" if "one_workspace ps" using that ps1 by (simp add: one_workspace_def)
    then have w2: "res \<noteq> [] \<or> rt = WORKSPACE \<and> one_workspace ps2"
      using assms(4) upsert_one_workspace [OF _ _ u] by auto
    have "setIamPolicy pj no_fail now rt res (Some pol) etag ps = getIamPolicy pj no_fail ?q ps2"
      using False g g1 u e by (auto simp: setIamPolicy_def etagMismatch_def)
    then have r: "getIamPolicy pj no_fail ?q ps2 = (r, ps')" using assms(6) by simp
    note ps' = getIamPolicy_ok [OF _ r]
    have val: "r = Inr \<lparr>im_Policy = pol, im_Etag = generateEtag now\<rparr>"
      using getIamPolicy_reads [OF _ w2, of pj] ps2 e assms(2) r by simp
    have ok: "policies_ok ps'" "ps_rows ps' = ps_rows ps2" using ps' ps2 by auto
    then have "policy_of pj rt' res' ps' = policy_of pj rt' res' ps2" "one_workspace ps' = one_workspace ps2" for rt' res'
      by (simp_all add: policy_of_def lookup_policy_def one_workspace_def)
    then show ?thesis
      using False val ok ps2 e assms(2) same getIamPolicy_reads [OF ok(1), of res rt pj] w2 by auto
  qed
qed

definition sample_codec :: policy_json where
  "sample_codec = \<lparr>pj_marshal = (\<lambda>p. if p = [] then Some ''{}'' else None),
     pj_unmarshal = (\<lambda>s. if s = ''{}'' then Some [] else None)\<rparr>"

theorem set_policy_guarded_witness:
  "fst (setIamPolicy sample_codec no_fail 5 AGENT ''agents/a'' (Some []) ''1'' empty_policies) = Inl EtagMismatch \<and>
   fst (setIamPolicy sample_codec no_fail 5 AGENT ''agents/a'' (Some []) [] empty_policies) =
     Inr \<lparr>im_Policy = [], im_Etag = generateEtag 5\<rparr>"
proof -
  have c: "codec_ok sample_codec" by (simp add: codec_ok_def sample_codec_def)
  have m: "pj_marshal sample_codec [] \<noteq> None" by (simp add: sample_codec_def)
  have p: "policy_of sample_codec AGENT ''agents/a'' empty_policies = Inr \<lparr>im_Policy = [], im_Etag = []\<rparr>"
    by (simp add: policy_of_def decode_policy_def lookup_policy_def empty_policies_def)
  show ?thesis
    using set_policy_guarded [OF empty_policies_ok(1) c m _ p surjective_pairing, of 5 "''1''"]
      set_policy_guarded [OF empty_policies_ok(1) c m _ p surjective_pairing, of 5 "[]"] by simp
qed

end
