(* ===== verification/Membership.thy ===== *)
theory Membership
  imports Policy_Store
begin

text \<open>
  Membership of conversations: the conversation's IAM policy, which authorizes, and the table
  \<open>conversation_member_meta\<close>, which indexes and keeps per-user state
  (\<open>backend/manager/store/conversation_policy.go\<close> and \<open>conversation_member.go\<close>).

  A transaction works on the rows of the policy table and the metadata; its commit installs them and drops the
  cached policy. The UUID package, \<open>protojson\<close> and the RFC 3339 format of times are parameters.

  The lemmas show what each membership change does to both tables, and two ways in which a change misses its
  aim: a permanent role that lands in an expiring binding, and a cached policy that outlives the
  removal of a member.
\<close>

section \<open>State\<close>

definition MemberTypeUser :: int where "MemberTypeUser = 1"
definition MemberTypeAgent :: int where "MemberTypeAgent = 2"
definition MemberRoleOwner :: int where "MemberRoleOwner = 1"
definition MemberRoleMember :: int where "MemberRoleMember = 2"
definition MemberRoleAdmin :: int where "MemberRoleAdmin = 3"

lemmas member_consts = MemberTypeUser_def MemberTypeAgent_def MemberRoleOwner_def MemberRoleMember_def
  MemberRoleAdmin_def

definition ConversationMemberRole :: string where "ConversationMemberRole = ''conversationMember''"
definition ConversationAdminRole :: string where "ConversationAdminRole = ''conversationAdmin''"
definition ConversationOwnerRole :: string where "ConversationOwnerRole = ''conversationOwner''"

record meta_row =
  me_ConversationID :: uuid
  me_MemberType :: int
  me_MemberID :: string
  me_JoinedAt :: int
  me_Pinned :: bool
  me_PinnedAt :: "int option"
  me_Closed :: bool
  me_ClosedAt :: "int option"
  me_Muted :: bool
  me_MutedAt :: "int option"

record conv_row =
  cv_ID :: uuid
  cv_Type :: int
  cv_OwnerID :: int
  cv_UpdatedAt :: int

record member_db =
  md_policies :: policy_store
  md_meta :: "meta_row list"
  md_convs :: "conv_row list"
  md_principals :: "(int \<times> string) list"

record member_env =
  mn_uuid :: uuid_env
  mn_json :: policy_json
  mn_rfc3339 :: "int \<Rightarrow> string"

record member_input =
  mi_MemberType :: int
  mi_MemberID :: string
  mi_ExpireAt :: "int option"

record conversation_member =
  cmb_ConversationID :: uuid
  cmb_MemberType :: int
  cmb_MemberID :: string
  cmb_MemberRole :: int
  cmb_JoinedAt :: int

text \<open>The rows a membership transaction works on.\<close>

record member_tx =
  mt_rows :: "policy_message list"
  mt_meta :: "meta_row list"
  mt_convs :: "conv_row list"

section \<open>The conversation policy\<close>

definition conversationPolicyResource :: "member_env \<Rightarrow> uuid \<Rightarrow> string" where
  "conversationPolicyResource env convID = FormatConversationName (uuid_String (mn_uuid env) convID)"

definition conversationMemberName :: "int \<Rightarrow> string \<Rightarrow> string" where
  "conversationMemberName memberType memberID =
     (if memberType = MemberTypeAgent then FormatAgentUID memberID else UserNamePrefix @ memberID)"

definition conversationRoleName :: "int \<Rightarrow> string" where
  "conversationRoleName role =
     (if role = MemberRoleOwner then FormatRole ConversationOwnerRole
      else if role = MemberRoleAdmin then FormatRole ConversationAdminRole
      else FormatRole ConversationMemberRole)"

definition conversationRoleFromName :: "string \<Rightarrow> int" where
  "conversationRoleFromName role =
     (if role = FormatRole ConversationOwnerRole then MemberRoleOwner
      else if role = FormatRole ConversationAdminRole then MemberRoleAdmin
      else if role = FormatRole ConversationMemberRole then MemberRoleMember
      else 0)"

definition GetConversationIamPolicy ::
  "member_env \<Rightarrow> (string \<Rightarrow> bool) \<Rightarrow> uuid \<Rightarrow> policy_store \<Rightarrow> (policy_error, iam_message) result \<times> policy_store" where
  "GetConversationIamPolicy env fails convID =
     getIamPolicy (mn_json env) fails (find_of CONVERSATION (Some (conversationPolicyResource env convID)))"

definition getConversationPolicyForUpdate ::
  "member_env \<Rightarrow> (string \<Rightarrow> bool) \<Rightarrow> string \<Rightarrow> policy_message list \<Rightarrow> (policy_error, iam_policy) result" where
  "getConversationPolicyForUpdate env fails resource rows =
     (if fails ''select policy for update'' then Inl (PolSql ''select policy for update'')
      else
        (case find (\<lambda>p. policy_key p = (CONVERSATION, resource, IAM)) rows of
           None \<Rightarrow> Inr []
         | Some p \<Rightarrow>
             (case pj_unmarshal (mn_json env) (pm_Payload p) of
                None \<Rightarrow> Inl PolUnmarshal
              | Some pol \<Rightarrow> Inr pol)))"

definition upsertConversationPolicyTx ::
  "member_env \<Rightarrow> (string \<Rightarrow> bool) \<Rightarrow> int \<Rightarrow> string \<Rightarrow> iam_policy \<Rightarrow> policy_message list \<Rightarrow>
     (policy_error, policy_message list) result" where
  "upsertConversationPolicyTx env fails now resource policy rows =
     (case pj_marshal (mn_json env) policy of
        None \<Rightarrow> Inl PolMarshal
      | Some payload \<Rightarrow>
          (case upsertPolicyV2Impl fails now (iam_row CONVERSATION resource payload) rows of
             Inl err \<Rightarrow> Inl err
           | Inr (_, rows1) \<Rightarrow> Inr rows1))"

text \<open>Read, change and write the policy inside the transaction.\<close>

definition change_policy ::
  "member_env \<Rightarrow> (string \<Rightarrow> bool) \<Rightarrow> int \<Rightarrow> uuid \<Rightarrow> (iam_policy \<Rightarrow> (policy_error, iam_policy) result) \<Rightarrow>
     member_tx \<Rightarrow> (policy_error, member_tx) result" where
  "change_policy env fails now convID f tx =
     (let resource = conversationPolicyResource env convID in
      bind_result (getConversationPolicyForUpdate env fails resource (mt_rows tx)) (\<lambda>policy.
      bind_result (f policy) (\<lambda>policy1.
      bind_result (upsertConversationPolicyTx env fails now resource policy1 (mt_rows tx)) (\<lambda>rows.
      Inr (tx\<lparr>mt_rows := rows\<rparr>)))))"

definition patchConversationMemberRolesTx ::
  "member_env \<Rightarrow> (string \<Rightarrow> bool) \<Rightarrow> int \<Rightarrow> uuid \<Rightarrow> int \<Rightarrow> string \<Rightarrow> string list \<Rightarrow> member_tx \<Rightarrow>
     (policy_error, member_tx) result" where
  "patchConversationMemberRolesTx env fails now convID memberType memberID roles =
     change_policy env fails now convID (\<lambda>policy.
       Inr (applyIamPolicyPatch \<lparr>pi_Member = conversationMemberName memberType memberID, pi_Roles = roles\<rparr> policy))"

definition sameBindingCondition :: "string option \<Rightarrow> string option \<Rightarrow> bool" where
  "sameBindingCondition a b =
     (case (a, b) of
        (Some x, Some y) \<Rightarrow> x = y
      | _ \<Rightarrow> a = None \<and> b = None)"

fun append_to_first :: "(binding \<Rightarrow> bool) \<Rightarrow> string \<Rightarrow> binding list \<Rightarrow> binding list option" where
  "append_to_first p m [] = None"
| "append_to_first p m (b # bs) =
     (if p b then Some (b\<lparr>b_Members := b_Members b @ [m]\<rparr> # bs)
      else map_option (\<lambda>bs'. b # bs') (append_to_first p m bs))"

definition add_with_condition :: "string \<Rightarrow> string \<Rightarrow> string option \<Rightarrow> iam_policy \<Rightarrow> iam_policy" where
  "add_with_condition m role condition policy =
     (let bs = map (\<lambda>b. if b_Role b = role then b\<lparr>b_Members := filter (\<lambda>x. x \<noteq> m) (b_Members b)\<rparr> else b) policy;
          bs1 = (case append_to_first (\<lambda>b. b_Role b = role \<and> sameBindingCondition (b_Condition b) condition) m bs of
                   Some bs' \<Rightarrow> bs'
                 | None \<Rightarrow> bs @ [\<lparr>b_Role = role, b_Members = [m], b_Condition = condition\<rparr>])
      in filter (\<lambda>b. b_Members b \<noteq> []) bs1)"

definition addConversationMemberWithConditionTx ::
  "member_env \<Rightarrow> (string \<Rightarrow> bool) \<Rightarrow> int \<Rightarrow> uuid \<Rightarrow> int \<Rightarrow> string \<Rightarrow> string \<Rightarrow> string option \<Rightarrow> member_tx \<Rightarrow>
     (policy_error, member_tx) result" where
  "addConversationMemberWithConditionTx env fails now convID memberType memberID role condition =
     change_policy env fails now convID (\<lambda>policy.
       Inr (add_with_condition (conversationMemberName memberType memberID) role condition policy))"

section \<open>Metadata rows\<close>

definition meta_key :: "meta_row \<Rightarrow> uuid \<times> int \<times> string" where
  "meta_key r = (me_ConversationID r, me_MemberType r, me_MemberID r)"

definition upsertConversationMemberMetaTx ::
  "(string \<Rightarrow> bool) \<Rightarrow> int \<Rightarrow> uuid \<Rightarrow> int \<Rightarrow> string \<Rightarrow> member_tx \<Rightarrow> (policy_error, member_tx) result" where
  "upsertConversationMemberMetaTx fails now convID memberType memberID tx =
     (if fails ''upsert meta'' then Inl (PolSql ''upsert meta'')
      else if list_ex (\<lambda>r. meta_key r = (convID, memberType, memberID)) (mt_meta tx) then Inr tx
      else Inr (tx\<lparr>mt_meta := mt_meta tx @
             [\<lparr>me_ConversationID = convID, me_MemberType = memberType, me_MemberID = memberID,
               me_JoinedAt = now, me_Pinned = False, me_PinnedAt = None, me_Closed = False,
               me_ClosedAt = None, me_Muted = False, me_MutedAt = None\<rparr>]\<rparr>))"

definition deleteConversationMemberMetaTx ::
  "(string \<Rightarrow> bool) \<Rightarrow> uuid \<Rightarrow> int \<Rightarrow> string \<Rightarrow> member_tx \<Rightarrow> (policy_error, member_tx) result" where
  "deleteConversationMemberMetaTx fails convID memberType memberID tx =
     (if fails ''delete meta'' then Inl (PolSql ''delete meta'')
      else Inr (tx\<lparr>mt_meta := filter (\<lambda>r. meta_key r \<noteq> (convID, memberType, memberID)) (mt_meta tx)\<rparr>))"

section \<open>Transactions\<close>

definition tx_of :: "member_db \<Rightarrow> member_tx" where
  "tx_of md = \<lparr>mt_rows = ps_rows (md_policies md), mt_meta = md_meta md, mt_convs = md_convs md\<rparr>"

definition conversationPolicyCacheKey :: "member_env \<Rightarrow> uuid \<Rightarrow> string" where
  "conversationPolicyCacheKey env convID =
     getPolicyCacheKey CONVERSATION (conversationPolicyResource env convID) IAM"

definition invalidateConversationPolicyCache :: "member_env \<Rightarrow> uuid \<Rightarrow> policy_store \<Rightarrow> policy_store" where
  "invalidateConversationPolicyCache env convID = cache_remove (conversationPolicyCacheKey env convID)"

definition install :: "member_tx \<Rightarrow> member_db \<Rightarrow> member_db" where
  "install tx md = md\<lparr>md_policies := (md_policies md)\<lparr>ps_rows := mt_rows tx\<rparr>, md_meta := mt_meta tx, md_convs := mt_convs tx\<rparr>"

text \<open>Begin, run the body, commit, invalidate; an error anywhere rolls back.\<close>

definition in_tx ::
  "member_env \<Rightarrow> (string \<Rightarrow> bool) \<Rightarrow> uuid \<Rightarrow> (member_tx \<Rightarrow> (policy_error, member_tx) result) \<Rightarrow> member_db \<Rightarrow>
     policy_error option \<times> member_db" where
  "in_tx env fails convID body md =
     (if fails ''begin'' then (Some (PolSql ''begin''), md)
      else
        (case body (tx_of md) of
           Inl err \<Rightarrow> (Some err, md)
         | Inr tx \<Rightarrow>
             if fails ''commit'' then (Some (PolSql ''commit''), md)
             else (None, (install tx md)\<lparr>md_policies :=
                    invalidateConversationPolicyCache env convID (md_policies (install tx md))\<rparr>)))"

definition quote_char :: char where "quote_char = CHR 0x22"

definition memberExpirationCondition :: "member_env \<Rightarrow> int option \<Rightarrow> string option" where
  "memberExpirationCondition env expireAt =
     map_option (\<lambda>t. ''request.time < timestamp('' @ [quote_char] @ mn_rfc3339 env t @ [quote_char] @ '')'') expireAt"

definition addConversationMemberTx ::
  "member_env \<Rightarrow> (string \<Rightarrow> bool) \<Rightarrow> int \<Rightarrow> uuid \<Rightarrow> int \<Rightarrow> string \<Rightarrow> int \<Rightarrow> int option \<Rightarrow> member_tx \<Rightarrow>
     (policy_error, member_tx) result" where
  "addConversationMemberTx env fails now convID memberType memberID role expireAt tx =
     bind_result (addConversationMemberWithConditionTx env fails now convID memberType memberID
        (conversationRoleName role) (memberExpirationCondition env expireAt) tx)
     (upsertConversationMemberMetaTx fails now convID memberType memberID)"

fun add_members ::
  "member_env \<Rightarrow> (string \<Rightarrow> bool) \<Rightarrow> int \<Rightarrow> uuid \<Rightarrow> member_input list \<Rightarrow> member_tx \<Rightarrow> (policy_error, member_tx) result" where
  "add_members env fails now convID [] tx = Inr tx"
| "add_members env fails now convID (m # ms) tx =
     bind_result (addConversationMemberTx env fails now convID (mi_MemberType m) (mi_MemberID m) MemberRoleMember
        (mi_ExpireAt m) tx)
     (add_members env fails now convID ms)"

definition AddConversationMembers ::
  "member_env \<Rightarrow> (string \<Rightarrow> bool) \<Rightarrow> int \<Rightarrow> uuid \<Rightarrow> member_input list \<Rightarrow> member_db \<Rightarrow> policy_error option \<times> member_db" where
  "AddConversationMembers env fails now convID members =
     in_tx env fails convID (add_members env fails now convID members)"

text \<open>Each operation is the body of its transaction, run in one.\<close>

definition remove_tx ::
  "member_env \<Rightarrow> (string \<Rightarrow> bool) \<Rightarrow> int \<Rightarrow> uuid \<Rightarrow> int \<Rightarrow> string \<Rightarrow> member_tx \<Rightarrow> (policy_error, member_tx) result" where
  "remove_tx env fails now convID memberType memberID tx =
     bind_result (patchConversationMemberRolesTx env fails now convID memberType memberID [] tx)
       (deleteConversationMemberMetaTx fails convID memberType memberID)"

definition RemoveConversationMember ::
  "member_env \<Rightarrow> (string \<Rightarrow> bool) \<Rightarrow> int \<Rightarrow> uuid \<Rightarrow> int \<Rightarrow> string \<Rightarrow> member_db \<Rightarrow> policy_error option \<times> member_db" where
  "RemoveConversationMember env fails now convID memberType memberID =
     in_tx env fails convID (remove_tx env fails now convID memberType memberID)"

definition policyContainsMember :: "iam_policy \<Rightarrow> string \<Rightarrow> bool" where
  "policyContainsMember policy member = list_ex (\<lambda>b. member \<in> set (b_Members b)) policy"

definition update_role_tx ::
  "member_env \<Rightarrow> (string \<Rightarrow> bool) \<Rightarrow> int \<Rightarrow> uuid \<Rightarrow> int \<Rightarrow> string \<Rightarrow> int \<Rightarrow> member_tx \<Rightarrow>
     (policy_error, member_tx) result" where
  "update_role_tx env fails now convID memberType memberID role tx =
     (let member = conversationMemberName memberType memberID in
      bind_result (change_policy env fails now convID (\<lambda>policy.
          if \<not> policyContainsMember policy member then Inl MemberNotFound
          else Inr (applyIamPolicyPatch \<lparr>pi_Member = member, pi_Roles = [conversationRoleName role]\<rparr> policy)) tx)
        (upsertConversationMemberMetaTx fails now convID memberType memberID))"

definition UpdateConversationMemberRole ::
  "member_env \<Rightarrow> (string \<Rightarrow> bool) \<Rightarrow> int \<Rightarrow> uuid \<Rightarrow> int \<Rightarrow> string \<Rightarrow> int \<Rightarrow> member_db \<Rightarrow>
     policy_error option \<times> member_db" where
  "UpdateConversationMemberRole env fails now convID memberType memberID role =
     in_tx env fails convID (update_role_tx env fails now convID memberType memberID role)"

definition set_owner :: "int \<Rightarrow> uuid \<Rightarrow> int \<Rightarrow> conv_row list \<Rightarrow> conv_row list" where
  "set_owner now convID principalID =
     map (\<lambda>c. if cv_ID c = convID then c\<lparr>cv_OwnerID := principalID, cv_UpdatedAt := now\<rparr> else c)"

definition transfer_tx ::
  "member_env \<Rightarrow> (string \<Rightarrow> bool) \<Rightarrow> int \<Rightarrow> uuid \<Rightarrow> string \<Rightarrow> string \<Rightarrow> int \<Rightarrow> member_tx \<Rightarrow>
     (policy_error, member_tx) result" where
  "transfer_tx env fails now convID oldOwnerID newOwnerID newOwnerPrincipalID tx =
     (if fails ''update owner'' then Inl (PolSql ''update owner'')
      else
        bind_result (patchConversationMemberRolesTx env fails now convID MemberTypeUser oldOwnerID
           [conversationRoleName MemberRoleMember]
           (tx\<lparr>mt_convs := set_owner now convID newOwnerPrincipalID (mt_convs tx)\<rparr>)) (\<lambda>tx1.
        bind_result (patchConversationMemberRolesTx env fails now convID MemberTypeUser newOwnerID
           [conversationRoleName MemberRoleOwner] tx1) (\<lambda>tx2.
        bind_result (upsertConversationMemberMetaTx fails now convID MemberTypeUser oldOwnerID tx2)
           (upsertConversationMemberMetaTx fails now convID MemberTypeUser newOwnerID))))"

definition TransferChannelOwnership ::
  "member_env \<Rightarrow> (string \<Rightarrow> bool) \<Rightarrow> int \<Rightarrow> uuid \<Rightarrow> string \<Rightarrow> string \<Rightarrow> int \<Rightarrow> member_db \<Rightarrow>
     policy_error option \<times> member_db" where
  "TransferChannelOwnership env fails now convID oldOwnerID newOwnerID newOwnerPrincipalID =
     in_tx env fails convID (transfer_tx env fails now convID oldOwnerID newOwnerID newOwnerPrincipalID)"

section \<open>Reads\<close>

text \<open>A read may fill the cache; the database is otherwise left as it is.\<close>

definition read_policy ::
  "member_env \<Rightarrow> (string \<Rightarrow> bool) \<Rightarrow> uuid \<Rightarrow> member_db \<Rightarrow> (policy_error, iam_policy) result \<times> member_db" where
  "read_policy env fails convID md =
     (case GetConversationIamPolicy env fails convID (md_policies md) of
        (Inl err, ps) \<Rightarrow> (Inl err, md\<lparr>md_policies := ps\<rparr>)
      | (Inr im, ps) \<Rightarrow> (Inr (im_Policy im), md\<lparr>md_policies := ps\<rparr>))"

definition IsConversationMember ::
  "member_env \<Rightarrow> (string \<Rightarrow> bool) \<Rightarrow> uuid \<Rightarrow> int \<Rightarrow> string \<Rightarrow> member_db \<Rightarrow> (policy_error, bool) result \<times> member_db" where
  "IsConversationMember env fails convID memberType memberID md =
     (case read_policy env fails convID md of
        (Inl err, md1) \<Rightarrow> (Inl err, md1)
      | (Inr policy, md1) \<Rightarrow> (Inr (policyContainsMember policy (conversationMemberName memberType memberID)), md1))"

definition GetConversationMembership ::
  "member_env \<Rightarrow> (string \<Rightarrow> bool) \<Rightarrow> uuid \<Rightarrow> int \<Rightarrow> string \<Rightarrow> member_db \<Rightarrow>
     (policy_error, int \<times> int) result \<times> member_db" where
  "GetConversationMembership env fails convID memberType memberID md =
     (if fails ''select conversation'' then (Inl (PolSql ''select conversation''), md)
      else
        (case find (\<lambda>c. cv_ID c = convID) (md_convs md) of
           None \<Rightarrow> (Inl ConversationMissing, md)
         | Some c \<Rightarrow>
             (case read_policy env fails convID md of
                (Inl err, md1) \<Rightarrow> (Inl err, md1)
              | (Inr policy, md1) \<Rightarrow>
                  (let member = conversationMemberName memberType memberID in
                   case find (\<lambda>b. conversationRoleFromName (b_Role b) \<noteq> 0 \<and> member \<in> set (b_Members b)) policy of
                     None \<Rightarrow> (Inr (0, cv_Type c), md1)
                   | Some b \<Rightarrow> (Inr (conversationRoleFromName (b_Role b), cv_Type c), md1)))))"

definition roleByMember :: "iam_policy \<Rightarrow> string \<Rightarrow> int" where
  "roleByMember policy member =
     foldl (\<lambda>acc b. let r = conversationRoleFromName (b_Role b) in
        if r \<noteq> 0 \<and> member \<in> set (b_Members b) then r else acc) 0 policy"

definition ListConversationMembers ::
  "member_env \<Rightarrow> (string \<Rightarrow> bool) \<Rightarrow> uuid \<Rightarrow> member_db \<Rightarrow>
     (policy_error, conversation_member list) result \<times> member_db" where
  "ListConversationMembers env fails convID md =
     (case read_policy env fails convID md of
        (Inl err, md1) \<Rightarrow> (Inl err, md1)
      | (Inr policy, md1) \<Rightarrow>
          if fails ''list members'' then (Inl (PolSql ''list members''), md1)
          else (Inr (map (\<lambda>r. \<lparr>cmb_ConversationID = me_ConversationID r, cmb_MemberType = me_MemberType r,
                   cmb_MemberID = me_MemberID r,
                   cmb_MemberRole = roleByMember policy (conversationMemberName (me_MemberType r) (me_MemberID r)),
                   cmb_JoinedAt = me_JoinedAt r\<rparr>)
                 (sort_key me_JoinedAt (filter (\<lambda>r. me_ConversationID r = convID) (md_meta md1)))), md1))"

section \<open>Per-user state\<close>

definition userMemberHandle :: "(string \<Rightarrow> bool) \<Rightarrow> int \<Rightarrow> member_db \<Rightarrow> (policy_error, string) result" where
  "userMemberHandle fails principalID md =
     (if fails ''select handle'' then Inl (PolSql ''select handle'')
      else case map_of (md_principals md) principalID of None \<Rightarrow> Inl (PolSql ''no rows'') | Some h \<Rightarrow> Inr h)"

text \<open>\<open>SetConversationPinned\<close>, \<open>SetConversationClosed\<close> and \<open>SetConversationMuted\<close> share their shape.\<close>

definition set_flag ::
  "(string \<Rightarrow> bool) \<Rightarrow> (meta_row \<Rightarrow> meta_row) \<Rightarrow> uuid \<Rightarrow> int \<Rightarrow> member_db \<Rightarrow> policy_error option \<times> member_db" where
  "set_flag fails f convID principalID md =
     (case userMemberHandle fails principalID md of
        Inl err \<Rightarrow> (Some err, md)
      | Inr memberID \<Rightarrow>
          if fails ''update meta'' then (Some (PolSql ''update meta''), md)
          else
            (let hit = (\<lambda>r. meta_key r = (convID, MemberTypeUser, memberID)) in
             (if list_ex hit (md_meta md) then None else Some MemberNotFound,
              md\<lparr>md_meta := map (\<lambda>r. if hit r then f r else r) (md_meta md)\<rparr>)))"

definition get_flag ::
  "(string \<Rightarrow> bool) \<Rightarrow> (meta_row \<Rightarrow> 'a) \<Rightarrow> uuid \<Rightarrow> int \<Rightarrow> member_db \<Rightarrow> (policy_error, 'a option) result" where
  "get_flag fails g convID principalID md =
     (case userMemberHandle fails principalID md of
        Inl err \<Rightarrow> Inl err
      | Inr memberID \<Rightarrow>
          if fails ''select meta'' then Inl (PolSql ''select meta'')
          else Inr (map_option g (find (\<lambda>r. meta_key r = (convID, MemberTypeUser, memberID)) (md_meta md))))"

definition stamp :: "bool \<Rightarrow> int \<Rightarrow> int option" where
  "stamp b now = (if b then Some now else None)"

definition SetConversationPinned ::
  "(string \<Rightarrow> bool) \<Rightarrow> int \<Rightarrow> uuid \<Rightarrow> int \<Rightarrow> bool \<Rightarrow> member_db \<Rightarrow> policy_error option \<times> member_db" where
  "SetConversationPinned fails now convID principalID pinned =
     set_flag fails (\<lambda>r. r\<lparr>me_Pinned := pinned, me_PinnedAt := stamp pinned now\<rparr>) convID principalID"

definition SetConversationClosed ::
  "(string \<Rightarrow> bool) \<Rightarrow> int \<Rightarrow> uuid \<Rightarrow> int \<Rightarrow> bool \<Rightarrow> member_db \<Rightarrow> policy_error option \<times> member_db" where
  "SetConversationClosed fails now convID principalID closed =
     set_flag fails (\<lambda>r. r\<lparr>me_Closed := closed, me_ClosedAt := stamp closed now\<rparr>) convID principalID"

definition SetConversationMuted ::
  "(string \<Rightarrow> bool) \<Rightarrow> int \<Rightarrow> uuid \<Rightarrow> int \<Rightarrow> bool \<Rightarrow> member_db \<Rightarrow> policy_error option \<times> member_db" where
  "SetConversationMuted fails now convID principalID muted =
     set_flag fails (\<lambda>r. r\<lparr>me_Muted := muted, me_MutedAt := stamp muted now\<rparr>) convID principalID"

definition flag_or_false :: "(policy_error, bool option) result \<Rightarrow> (policy_error, bool) result" where
  "flag_or_false r = (case r of Inl err \<Rightarrow> Inl err | Inr None \<Rightarrow> Inr False | Inr (Some b) \<Rightarrow> Inr b)"

definition GetConversationPinned :: "(string \<Rightarrow> bool) \<Rightarrow> uuid \<Rightarrow> int \<Rightarrow> member_db \<Rightarrow> (policy_error, bool) result" where
  "GetConversationPinned fails convID principalID md = flag_or_false (get_flag fails me_Pinned convID principalID md)"

definition GetConversationClosed :: "(string \<Rightarrow> bool) \<Rightarrow> uuid \<Rightarrow> int \<Rightarrow> member_db \<Rightarrow> (policy_error, bool) result" where
  "GetConversationClosed fails convID principalID md = flag_or_false (get_flag fails me_Closed convID principalID md)"

definition GetConversationMuted :: "(string \<Rightarrow> bool) \<Rightarrow> uuid \<Rightarrow> int \<Rightarrow> member_db \<Rightarrow> (policy_error, bool) result" where
  "GetConversationMuted fails convID principalID md = flag_or_false (get_flag fails me_Muted convID principalID md)"

definition GetConversationJoinedAt :: "(string \<Rightarrow> bool) \<Rightarrow> uuid \<Rightarrow> int \<Rightarrow> member_db \<Rightarrow> (policy_error, int) result" where
  "GetConversationJoinedAt fails convID principalID md =
     (case get_flag fails me_JoinedAt convID principalID md of
        Inl err \<Rightarrow> Inl err | Inr None \<Rightarrow> Inl MemberNotFound | Inr (Some t) \<Rightarrow> Inr t)"

definition ListMutedConversationUserIDs :: "(string \<Rightarrow> bool) \<Rightarrow> uuid \<Rightarrow> member_db \<Rightarrow> (policy_error, int set) result" where
  "ListMutedConversationUserIDs fails convID md =
     (if fails ''list muted'' then Inl (PolSql ''list muted'')
      else Inr (set (concat (map (\<lambda>r. map fst (filter (\<lambda>(i, h). h = me_MemberID r) (md_principals md)))
             (filter (\<lambda>r. me_ConversationID r = convID \<and> me_MemberType r = MemberTypeUser \<and> me_Muted r) (md_meta md))))))"

section \<open>Setting a member's roles\<close>

text \<open>The contract of a policy: a member has a set of roles, and setting them leaves every other member alone.\<close>

locale role_book =
  fixes ok :: "'s \<Rightarrow> bool"
    and roles :: "'s \<Rightarrow> 'm \<Rightarrow> 'r set"
    and set_roles :: "'m \<Rightarrow> 'r list \<Rightarrow> 's \<Rightarrow> 's"
  assumes keeps_ok: "ok s \<Longrightarrow> ok (set_roles m rs s)"
    and roles_set: "ok s \<Longrightarrow> roles (set_roles m rs s) m' = (if m' = m then set rs else roles s m')"
begin

definition holders :: "'s \<Rightarrow> 'r \<Rightarrow> 'm set" where
  "holders s r = {m. r \<in> roles s m}"

definition hand_over :: "'m \<Rightarrow> 'm \<Rightarrow> 'r \<Rightarrow> 'r \<Rightarrow> 's \<Rightarrow> 's" where
  "hand_over old new low high s = set_roles new [high] (set_roles old [low] s)"

lemma hand_over_ok: "ok s \<Longrightarrow> ok (hand_over old new low high s)"
  by (simp add: hand_over_def keeps_ok)

lemma hand_over_roles:
  "ok s \<Longrightarrow> roles (hand_over old new low high s) m =
     (if m = new then {high} else if m = old then {low} else roles s m)"
  by (simp add: hand_over_def roles_set keeps_ok)

lemma hand_over_holders:
  "ok s \<Longrightarrow> low \<noteq> high \<Longrightarrow> holders (hand_over old new low high s) high = insert new (holders s high - {old})"
  by (auto simp: holders_def hand_over_roles)

lemma revoked: "ok s \<Longrightarrow> roles (set_roles m [] s) m = {}"
  by (simp add: roles_set)

end

definition roles_of :: "iam_policy \<Rightarrow> string \<Rightarrow> string set" where
  "roles_of policy m = {r. holds_role policy m r}"

definition patch_member :: "string \<Rightarrow> string list \<Rightarrow> iam_policy \<Rightarrow> iam_policy" where
  "patch_member m roles = applyIamPolicyPatch \<lparr>pi_Member = m, pi_Roles = roles\<rparr>"

lemma holds_role_bound: "holds_role policy m r \<longleftrightarrow> (\<exists>c. bound_under policy m r c)"
  by (auto simp: holds_role_def bound_under_def)

interpretation policy_roles: role_book members_distinct roles_of patch_member
proof
  fix s :: iam_policy and m m' rs
  assume d: "members_distinct s"
  show "members_distinct (patch_member m rs s)" using patch_shape [OF d] by (simp add: patch_member_def)
  show "roles_of (patch_member m rs s) m' = (if m' = m then set rs else roles_of s m')"
    using patch_roles [OF d, of "\<lparr>pi_Member = m, pi_Roles = rs\<rparr>"]
      patch_others [OF d, of m' "\<lparr>pi_Member = m, pi_Roles = rs\<rparr>"]
    by (auto simp: patch_member_def roles_of_def holds_role_bound)
qed

section \<open>What a transaction does to a conversation's policy\<close>

definition conversation_policy :: "member_env \<Rightarrow> uuid \<Rightarrow> policy_message list \<Rightarrow> iam_policy option" where
  "conversation_policy env convID rows =
     (case find (\<lambda>p. policy_key p = (CONVERSATION, conversationPolicyResource env convID, IAM)) rows of
        None \<Rightarrow> Some []
      | Some p \<Rightarrow> pj_unmarshal (mn_json env) (pm_Payload p))"

text \<open>Rows of other resources stay as they are.\<close>

definition others_kept :: "member_env \<Rightarrow> uuid \<Rightarrow> policy_message list \<Rightarrow> policy_message list \<Rightarrow> bool" where
  "others_kept env convID rows rows' \<longleftrightarrow>
     (\<forall>k. k \<noteq> (CONVERSATION, conversationPolicyResource env convID, IAM) \<longrightarrow>
        find (\<lambda>p. policy_key p = k) rows' = find (\<lambda>p. policy_key p = k) rows)"

lemma others_kept_refl [simp]: "others_kept env convID rows rows"
  by (simp add: others_kept_def)

lemma others_kept_trans:
  "others_kept env convID a b \<Longrightarrow> others_kept env convID b c \<Longrightarrow> others_kept env convID a c"
  by (simp add: others_kept_def)

definition keyed :: "member_tx \<Rightarrow> bool" where
  "keyed tx \<longleftrightarrow> distinct (map policy_key (mt_rows tx))"

lemma for_update_policy:
  "getConversationPolicyForUpdate env fails (conversationPolicyResource env convID) rows = Inr pol \<Longrightarrow>
     conversation_policy env convID rows = Some pol"
  by (auto simp: getConversationPolicyForUpdate_def conversation_policy_def split: if_splits option.splits)

lemma change_policy_ok:
  assumes "keyed tx" "codec_ok (mn_json env)" "change_policy env fails now convID f tx = Inr tx'"
  shows "\<exists>pol pol'. conversation_policy env convID (mt_rows tx) = Some pol \<and> f pol = Inr pol' \<and>
    conversation_policy env convID (mt_rows tx') = Some pol' \<and> keyed tx' \<and>
    others_kept env convID (mt_rows tx) (mt_rows tx') \<and> mt_meta tx' = mt_meta tx \<and> mt_convs tx' = mt_convs tx"
proof -
  let ?res = "conversationPolicyResource env convID"
  from assms(3) obtain pol pol' rows where
    g: "getConversationPolicyForUpdate env fails ?res (mt_rows tx) = Inr pol" and f: "f pol = Inr pol'"
    and u: "upsertConversationPolicyTx env fails now ?res pol' (mt_rows tx) = Inr rows" and tx': "tx' = tx\<lparr>mt_rows := rows\<rparr>"
    by (auto simp: change_policy_def Let_def)
  from u obtain payload policy where m: "pj_marshal (mn_json env) pol' = Some payload"
    and i: "upsertPolicyV2Impl fails now (iam_row CONVERSATION ?res payload) (mt_rows tx) = Inr (policy, rows)"
    by (auto simp: upsertConversationPolicyTx_def split: option.splits sum.splits)
  note r = upsert_rows [OF assms(1) [unfolded keyed_def] i]
  have "conversation_policy env convID rows = Some pol'"
    using r m assms(2) by (simp add: conversation_policy_def iam_row_def policy_key_def codec_ok_def)
  with r g f tx' show ?thesis
    by (auto simp: for_update_policy keyed_def others_kept_def iam_row_def policy_key_def)
qed

lemma patch_tx_ok:
  assumes "keyed tx" "codec_ok (mn_json env)"
    "patchConversationMemberRolesTx env fails now convID memberType memberID roles tx = Inr tx'"
  shows "\<exists>pol. conversation_policy env convID (mt_rows tx) = Some pol \<and>
    conversation_policy env convID (mt_rows tx') = Some (patch_member (conversationMemberName memberType memberID) roles pol) \<and>
    keyed tx' \<and> others_kept env convID (mt_rows tx) (mt_rows tx') \<and> mt_meta tx' = mt_meta tx \<and> mt_convs tx' = mt_convs tx"
  using change_policy_ok [OF assms(1,2), of fails now convID _ tx'] assms(3)
  by (auto simp: patchConversationMemberRolesTx_def patch_member_def)

text \<open>Metadata statements touch only the metadata.\<close>

definition has_meta :: "meta_row list \<Rightarrow> uuid \<Rightarrow> int \<Rightarrow> string \<Rightarrow> bool" where
  "has_meta rows convID memberType memberID \<longleftrightarrow> (convID, memberType, memberID) \<in> meta_key ` set rows"

lemma upsert_meta_ok:
  assumes "upsertConversationMemberMetaTx fails now convID memberType memberID tx = Inr tx'"
  shows "mt_rows tx' = mt_rows tx \<and> mt_convs tx' = mt_convs tx \<and> set (mt_meta tx) \<subseteq> set (mt_meta tx') \<and>
    (\<forall>c t i. has_meta (mt_meta tx') c t i \<longleftrightarrow> has_meta (mt_meta tx) c t i \<or> (c, t, i) = (convID, memberType, memberID))"
  using assms by (auto simp: upsertConversationMemberMetaTx_def has_meta_def meta_key_def list_ex_iff split: if_splits)

lemma delete_meta_ok:
  assumes "deleteConversationMemberMetaTx fails convID memberType memberID tx = Inr tx'"
  shows "mt_rows tx' = mt_rows tx \<and> mt_convs tx' = mt_convs tx \<and>
    mt_meta tx' = filter (\<lambda>r. meta_key r \<noteq> (convID, memberType, memberID)) (mt_meta tx)"
  using assms by (auto simp: deleteConversationMemberMetaTx_def split: if_splits)

lemma keyed_tx_of: "policies_ok (md_policies md) \<Longrightarrow> keyed (tx_of md)"
  by (simp add: keyed_def tx_of_def policies_ok_def)

text \<open>Commit and rollback: the cache stays coherent because the entry of the changed key is dropped.\<close>

lemma in_tx_ok:
  assumes "policies_ok (md_policies md)" "in_tx env fails convID body md = (err, md')"
    "\<And>tx. body (tx_of md) = Inr tx \<Longrightarrow> keyed tx \<and> others_kept env convID (mt_rows (tx_of md)) (mt_rows tx)"
  shows "policies_ok (md_policies md') \<and> md_principals md' = md_principals md \<and>
    (case err of Some _ \<Rightarrow> md' = md
     | None \<Rightarrow> \<exists>tx. body (tx_of md) = Inr tx \<and> ps_rows (md_policies md') = mt_rows tx \<and>
         md_meta md' = mt_meta tx \<and> md_convs md' = mt_convs tx)"
proof (cases err)
  case (Some e)
  then show ?thesis using assms(1,2) by (auto simp: in_tx_def split: if_splits sum.splits)
next
  case None
  with assms(2) obtain tx where b: "body (tx_of md) = Inr tx"
    and md': "md' = (install tx md)\<lparr>md_policies := invalidateConversationPolicyCache env convID (md_policies (install tx md))\<rparr>"
    by (auto simp: in_tx_def split: if_splits sum.splits)
  have "policies_ok (md_policies md')"
    using assms(1) assms(3) [OF b]
    by (auto simp: md' policies_ok_def install_def invalidateConversationPolicyCache_def cache_remove_def keyed_def
        conversationPolicyCacheKey_def cache_key_inject lookup_policy_def others_kept_def tx_of_def)
  with None b show ?thesis
    by (simp add: md' install_def invalidateConversationPolicyCache_def cache_remove_def)
qed


section \<open>Reading the policy\<close>

lemma resource_nonempty: "conversationPolicyResource env convID \<noteq> []"
  by (simp add: conversationPolicyResource_def FormatConversationName_def ConversationNamePrefix_def)

lemma read_policy_ok:
  assumes "policies_ok (md_policies md)"
  shows "fst (read_policy env no_fail convID md) =
    (case conversation_policy env convID (ps_rows (md_policies md)) of None \<Rightarrow> Inl PolUnmarshal | Some pol \<Rightarrow> Inr pol)"
proof -
  let ?res = "conversationPolicyResource env convID"
  have "fst (getIamPolicy (mn_json env) no_fail (find_of CONVERSATION (Some ?res)) (md_policies md)) =
      policy_of (mn_json env) CONVERSATION ?res (md_policies md)"
    using getIamPolicy_reads [OF assms, of ?res CONVERSATION] resource_nonempty by (simp add: ptr_def)
  then show ?thesis
    by (auto simp: read_policy_def GetConversationIamPolicy_def policy_of_def decode_policy_def lookup_policy_def
        conversation_policy_def split: prod.splits sum.splits option.splits)
qed

lemma policyContainsMember_roles: "policyContainsMember pol m \<longleftrightarrow> roles_of pol m \<noteq> {}"
  unfolding policyContainsMember_def list_ex_iff roles_of_def holds_role_def by blast

lemma IsConversationMember_ok:
  assumes "policies_ok (md_policies md)" "conversation_policy env convID (ps_rows (md_policies md)) = Some pol"
  shows "fst (IsConversationMember env no_fail convID memberType memberID md) =
    Inr (roles_of pol (conversationMemberName memberType memberID) \<noteq> {})"
proof -
  have "fst (read_policy env no_fail convID md) = Inr pol" using read_policy_ok [OF assms(1)] assms(2) by simp
  then show ?thesis
    by (auto simp: IsConversationMember_def policyContainsMember_roles split: prod.split)
qed

section \<open>Adding members\<close>

lemma append_to_first_spec:
  "case append_to_first P m bs of
     None \<Rightarrow> (\<forall>b \<in> set bs. \<not> P b)
   | Some bs' \<Rightarrow> (\<exists>xs b ys. bs = xs @ b # ys \<and> P b \<and> bs' = xs @ b\<lparr>b_Members := b_Members b @ [m]\<rparr> # ys)"
proof (induction bs)
  case (Cons b bs)
  show ?case
  proof (cases "P b")
    case True
    then show ?thesis by (auto intro: exI [of _ "[]"])
  next
    case False
    with Cons.IH show ?thesis by (cases "append_to_first P m bs") (auto, metis append_Cons)
  qed
qed simp

lemma sameBindingCondition_eq [simp]: "sameBindingCondition a b \<longleftrightarrow> a = b"
  by (auto simp: sameBindingCondition_def split: option.split)

text \<open>The bindings of the role with the member taken out.\<close>

definition without :: "string \<Rightarrow> string \<Rightarrow> iam_policy \<Rightarrow> iam_policy" where
  "without m role = map (\<lambda>b. if b_Role b = role then b\<lparr>b_Members := filter (\<lambda>x. x \<noteq> m) (b_Members b)\<rparr> else b)"

lemma bound_under_append [simp]:
  "bound_under (p @ q) m r c \<longleftrightarrow> bound_under p m r c \<or> bound_under q m r c"
  "bound_under (b # q) m r c \<longleftrightarrow> (b_Role b = r \<and> b_Condition b = c \<and> m \<in> set (b_Members b)) \<or> bound_under q m r c"
  "bound_under [] m r c \<longleftrightarrow> False"
  by (auto simp: bound_under_def)

lemma without_bound:
  "bound_under (without m role pol) m' r c \<longleftrightarrow> bound_under pol m' r c \<and> \<not> (m' = m \<and> r = role)"
  by (induction pol) (auto simp: without_def)

lemma without_distinct: "members_distinct pol \<Longrightarrow> members_distinct (without m role pol)"
  by (auto simp: without_def members_distinct_def)

lemma add_with_condition_ok:
  assumes "members_distinct pol"
  shows "members_distinct (add_with_condition m role cond pol)"
    "bound_under (add_with_condition m role cond pol) m' r c \<longleftrightarrow>
       (if m' = m \<and> r = role then c = cond else bound_under pol m' r c)"
proof -
  let ?P = "\<lambda>b. b_Role b = role \<and> b_Condition b = cond" and ?w = "without m role pol"
  define bs1 where "bs1 = (case append_to_first ?P m ?w of Some bs' \<Rightarrow> bs'
      | None \<Rightarrow> ?w @ [\<lparr>b_Role = role, b_Members = [m], b_Condition = cond\<rparr>])"
  have eq: "add_with_condition m role cond pol = filter (\<lambda>b. b_Members b \<noteq> []) bs1"
    unfolding add_with_condition_def bs1_def without_def Let_def by simp
  have free: "m \<notin> set (b_Members b)" if "b \<in> set ?w" "b_Role b = role" for b
    using that without_bound [of m role pol m role "b_Condition b"] by (auto simp: bound_under_def)
  note wd = without_distinct [OF assms, of m role]
  have "members_distinct bs1 \<and> (\<forall>m' r c. bound_under bs1 m' r c \<longleftrightarrow> bound_under ?w m' r c \<or> m' = m \<and> r = role \<and> c = cond)"
  proof (cases "append_to_first ?P m ?w")
    case None
    then show ?thesis using wd by (auto simp: bs1_def members_distinct_def)
  next
    case (Some bs')
    with append_to_first_spec [where P = ?P and m = m and bs = ?w] obtain xs b ys where s: "?w = xs @ b # ys" "?P b"
      "bs1 = xs @ b\<lparr>b_Members := b_Members b @ [m]\<rparr> # ys" by (auto simp: bs1_def)
    then show ?thesis using wd free [of b] by (auto simp: members_distinct_def)
  qed
  then show "members_distinct (add_with_condition m role cond pol)"
    "bound_under (add_with_condition m role cond pol) m' r c \<longleftrightarrow>
       (if m' = m \<and> r = role then c = cond else bound_under pol m' r c)"
    by (auto simp: eq without_bound members_distinct_def)
qed

definition input_name :: "member_input \<Rightarrow> string" where
  "input_name m = conversationMemberName (mi_MemberType m) (mi_MemberID m)"

text \<open>The batch, member by member.\<close>

lemma add_one_ok:
  assumes "keyed tx" "codec_ok (mn_json env)" "conversation_policy env convID (mt_rows tx) = Some pol"
    "addConversationMemberTx env fails now convID memberType memberID role expireAt tx = Inr tx'"
  shows "conversation_policy env convID (mt_rows tx') =
      Some (add_with_condition (conversationMemberName memberType memberID) (conversationRoleName role)
        (memberExpirationCondition env expireAt) pol) \<and>
    keyed tx' \<and> others_kept env convID (mt_rows tx) (mt_rows tx') \<and> mt_convs tx' = mt_convs tx \<and>
    set (mt_meta tx) \<subseteq> set (mt_meta tx') \<and>
    (\<forall>c t i. has_meta (mt_meta tx') c t i \<longleftrightarrow> has_meta (mt_meta tx) c t i \<or> (c, t, i) = (convID, memberType, memberID))"
proof -
  from assms(4) obtain tx1 where
    a: "addConversationMemberWithConditionTx env fails now convID memberType memberID (conversationRoleName role)
        (memberExpirationCondition env expireAt) tx = Inr tx1"
    and u: "upsertConversationMemberMetaTx fails now convID memberType memberID tx1 = Inr tx'"
    by (auto simp: addConversationMemberTx_def)
  show ?thesis
    using change_policy_ok [OF assms(1,2) a [unfolded addConversationMemberWithConditionTx_def]] assms(3) upsert_meta_ok [OF u]
    by (auto simp: keyed_def)
qed

fun add_all :: "member_env \<Rightarrow> member_input list \<Rightarrow> iam_policy \<Rightarrow> iam_policy" where
  "add_all env [] pol = pol"
| "add_all env (m # ms) pol = add_all env ms
     (add_with_condition (input_name m) (conversationRoleName MemberRoleMember) (memberExpirationCondition env (mi_ExpireAt m)) pol)"

lemma add_all_ok:
  "members_distinct pol \<Longrightarrow> distinct (map input_name ms) \<Longrightarrow>
     members_distinct (add_all env ms pol) \<and>
     (bound_under (add_all env ms pol) m' r c \<longleftrightarrow>
        (case find (\<lambda>m. input_name m = m' \<and> r = conversationRoleName MemberRoleMember) ms of
           Some m \<Rightarrow> c = memberExpirationCondition env (mi_ExpireAt m)
         | None \<Rightarrow> bound_under pol m' r c))"
proof (induction ms arbitrary: pol)
  case (Cons m ms)
  let ?pol = "add_with_condition (input_name m) (conversationRoleName MemberRoleMember)
     (memberExpirationCondition env (mi_ExpireAt m)) pol"
  have "find (\<lambda>m. input_name m = m' \<and> r = conversationRoleName MemberRoleMember) ms = None" if "input_name m = m'"
    using Cons.prems that by (auto simp: find_None_iff) (metis imageI)
  then show ?case
    using Cons.IH [of ?pol] Cons.prems add_with_condition_ok [OF Cons.prems(1)]
    by (auto split: option.split)
qed simp

lemma add_members_ok:
  "keyed tx \<Longrightarrow> codec_ok (mn_json env) \<Longrightarrow> conversation_policy env convID (mt_rows tx) = Some pol \<Longrightarrow>
   add_members env fails now convID ms tx = Inr tx' \<Longrightarrow>
     conversation_policy env convID (mt_rows tx') = Some (add_all env ms pol) \<and>
     keyed tx' \<and> others_kept env convID (mt_rows tx) (mt_rows tx') \<and> mt_convs tx' = mt_convs tx \<and>
     set (mt_meta tx) \<subseteq> set (mt_meta tx') \<and>
     (\<forall>c t i. has_meta (mt_meta tx') c t i \<longleftrightarrow>
        has_meta (mt_meta tx) c t i \<or> c = convID \<and> (t, i) \<in> (\<lambda>m. (mi_MemberType m, mi_MemberID m)) ` set ms)"
proof (induction ms arbitrary: tx pol)
  case (Cons m ms)
  from Cons.prems(4) obtain tx1 where
    a: "addConversationMemberTx env fails now convID (mi_MemberType m) (mi_MemberID m) MemberRoleMember (mi_ExpireAt m) tx = Inr tx1"
    and r: "add_members env fails now convID ms tx1 = Inr tx'" by auto
  note one = add_one_ok [OF Cons.prems(1-3) a]
  note rest = Cons.IH [OF _ Cons.prems(2) conjunct1 [OF one] r]
  show ?case using one rest by (auto simp: input_name_def dest: others_kept_trans)
qed simp


section \<open>The condition of a granted role\<close>

text \<open>A patch puts the member into the first binding of the role, whatever its condition.\<close>

lemma patch_loop_condition:
  "members_distinct bs \<Longrightarrow>
     (bound_under (fst (patch_loop m R bs)) m r c \<longleftrightarrow>
        (case find (\<lambda>b. b_Role b = r) bs of None \<Rightarrow> False | Some b \<Rightarrow> r \<in> set R \<and> c = b_Condition b))"
proof (induction bs arbitrary: R)
  case (Cons b bs)
  have m: "m \<in> set (b_Members (patch_binding m R b)) \<longleftrightarrow> b_Role b \<in> set R"
    using Cons.prems by (intro patch_binding_member) (simp add: members_distinct_def)
  have "members_distinct bs" using Cons.prems by (simp add: members_distinct_def)
  from Cons.IH [OF this, of "removeAll (b_Role b) R"] show ?case
    by (auto simp: split_beta m split: option.split)
qed simp

lemma patch_condition:
  assumes "members_distinct pol"
  shows "bound_under (patch_member m [r] pol) m r c \<longleftrightarrow>
    c = (case find (\<lambda>b. b_Role b = r) pol of None \<Rightarrow> None | Some b \<Rightarrow> b_Condition b)"
proof -
  obtain bs rest where p: "patch_loop m [r] pol = (bs, rest)" by force
  have eq: "bound_under (patch_member m [r] pol) m r c \<longleftrightarrow> bound_under bs m r c \<or> r \<in> set rest \<and> c = None"
    by (auto simp: patch_member_def applyIamPolicyPatch_def p) (auto simp: bound_under_def)
  have rest: "rest = filter (\<lambda>x. x \<notin> b_Role ` set pol) [r]" using patch_loop_rest [of m "[r]" pol] by (simp add: p)
  note first = patch_loop_condition [OF assms, of m "[r]" r c, unfolded p fst_conv]
  show ?thesis
  proof (cases "find (\<lambda>b. b_Role b = r) pol")
    case None
    then have "r \<notin> b_Role ` set pol" by (auto simp: find_None_iff)
    with None first rest show ?thesis by (simp add: eq)
  next
    case (Some b)
    then have "r \<in> b_Role ` set pol" using find_found [OF Some] by (metis imageI)
    with Some first rest show ?thesis by (simp add: eq)
  qed
qed

lemma role_name_inverse:
  "role \<in> {MemberRoleOwner, MemberRoleMember, MemberRoleAdmin} \<Longrightarrow> conversationRoleFromName (conversationRoleName role) = role"
  by (auto simp: conversationRoleFromName_def conversationRoleName_def member_consts FormatRole_def ConversationOwnerRole_def
      ConversationAdminRole_def ConversationMemberRole_def)

lemma role_names_differ: "conversationRoleName MemberRoleMember \<noteq> conversationRoleName MemberRoleOwner"
  using role_name_inverse [of MemberRoleMember] role_name_inverse [of MemberRoleOwner] by (auto simp: member_consts)

lemma GetConversationMembership_single:
  assumes "policies_ok (md_policies md)" "conversation_policy env convID (ps_rows (md_policies md)) = Some pol"
    "find (\<lambda>c. cv_ID c = convID) (md_convs md) = Some cv"
    "roles_of pol (conversationMemberName memberType memberID) = {conversationRoleName role}"
    "role \<in> {MemberRoleOwner, MemberRoleMember, MemberRoleAdmin}"
  shows "fst (GetConversationMembership env no_fail convID memberType memberID md) = Inr (role, cv_Type cv)"
proof -
  let ?m = "conversationMemberName memberType memberID"
  let ?P = "\<lambda>b. conversationRoleFromName (b_Role b) \<noteq> 0 \<and> ?m \<in> set (b_Members b)"
  have only: "b_Role b = conversationRoleName role" if "b \<in> set pol" "?m \<in> set (b_Members b)" for b
    using that assms(4) unfolding roles_of_def holds_role_def by blast
  have nz: "conversationRoleFromName (conversationRoleName role) \<noteq> 0" using role_name_inverse [OF assms(5)] assms(5) by (auto simp: member_consts)
  have "holds_role pol ?m (conversationRoleName role)" using assms(4) unfolding roles_of_def by blast
  then obtain b where "b \<in> set pol" "?P b" using nz unfolding holds_role_def by metis
  then have "find ?P pol \<noteq> None" unfolding find_None_iff by blast
  then obtain b' where f: "find ?P pol = Some b'" by blast
  then have "b_Role b' = conversationRoleName role" using only find_found [OF f] by blast
  moreover have "fst (read_policy env no_fail convID md) = Inr pol" using read_policy_ok [OF assms(1)] assms(2) by simp
  ultimately show ?thesis
    using f assms(3) role_name_inverse [OF assms(5)] by (auto simp: GetConversationMembership_def Let_def split: prod.splits)
qed

section \<open>The two halves of a read\<close>

text \<open>\<open>GetPolicyV2\<close> reads the table in a transaction of its own and fills the cache after it. Other requests run
  in between.\<close>

definition policy_read ::
  "(string \<Rightarrow> bool) \<Rightarrow> find_policy \<Rightarrow> policy_store \<Rightarrow>
     (policy_error, policy_message option) result \<times> (string \<times> policy_message option) option" where
  "policy_read fails q ps =
     (case (if ps_enableCache ps then Option.bind (find_key q) (ps_cache ps) else None) of
        Some v \<Rightarrow> (Inr v, None)
      | None \<Rightarrow>
          if fails ''begin'' then (Inl (PolSql ''begin''), None)
          else
            (case listPolicyImplV2 fails (q\<lparr>fp_ShowAll := True\<rparr>) (ps_rows ps) of
               Inl err \<Rightarrow> (Inl err, None)
             | Inr [] \<Rightarrow> (Inr None, map_option (\<lambda>k. (k, None)) (find_key q))
             | Inr [policy] \<Rightarrow>
                 if fails ''commit'' then (Inl (PolSql ''commit''), None)
                 else (Inr (Some policy), Some (key_of_message policy, Some policy))
             | Inr _ \<Rightarrow> (Inl PolConflict, None)))"

definition policy_fill :: "(string \<times> policy_message option) option \<Rightarrow> policy_store \<Rightarrow> policy_store" where
  "policy_fill fill ps = (case fill of None \<Rightarrow> ps | Some (k, v) \<Rightarrow> cache_add k v ps)"

lemma GetPolicyV2_halves:
  "GetPolicyV2 fails q ps = (fst (policy_read fails q ps), policy_fill (snd (policy_read fails q ps)) ps)"
  by (auto simp: GetPolicyV2_def policy_read_def policy_fill_def split: option.split sum.split list.split)

lemma cached_policy_answers:
  assumes "ps_enableCache (md_policies md)" "ps_cache (md_policies md) (conversationPolicyCacheKey env convID) = Some (Some p)"
    "pj_unmarshal (mn_json env) (pm_Payload p) = Some pol"
  shows "fst (IsConversationMember env fails convID memberType memberID md) =
    Inr (roles_of pol (conversationMemberName memberType memberID) \<noteq> {})"
    "snd (IsConversationMember env fails convID memberType memberID md) = md"
proof -
  have "read_policy env fails convID md = (Inr pol, md)"
    using assms by (simp add: read_policy_def GetConversationIamPolicy_def getIamPolicy_decode GetPolicyV2_def find_key_def
        find_of_def conversationPolicyCacheKey_def decode_policy_def)
  then show "fst (IsConversationMember env fails convID memberType memberID md) = Inr (roles_of pol (conversationMemberName memberType memberID) \<noteq> {})"
    "snd (IsConversationMember env fails convID memberType memberID md) = md"
    by (simp_all add: IsConversationMember_def policyContainsMember_roles)
qed


section \<open>The transactions\<close>

text \<open>A well-formed state of a conversation with the policy \<open>pol\<close>.\<close>

definition conversation_ok :: "member_env \<Rightarrow> uuid \<Rightarrow> iam_policy \<Rightarrow> member_db \<Rightarrow> bool" where
  "conversation_ok env convID pol md \<longleftrightarrow> policies_ok (md_policies md) \<and> codec_ok (mn_json env) \<and>
     conversation_policy env convID (ps_rows (md_policies md)) = Some pol \<and> members_distinct pol"

lemma conversation_okD:
  assumes "conversation_ok env convID pol md"
  shows "policies_ok (md_policies md)" "keyed (tx_of md)" "codec_ok (mn_json env)" "members_distinct pol"
    "conversation_policy env convID (mt_rows (tx_of md)) = Some pol"
    "conversation_policy env convID (ps_rows (md_policies md)) = Some pol"
  using assms keyed_tx_of by (auto simp: conversation_ok_def tx_of_def)

text \<open>What a transaction promises: on an error nothing changed; on success the policy of the conversation is the new
  one and no other resource's row is touched.\<close>

definition changes_policy :: "member_env \<Rightarrow> uuid \<Rightarrow> iam_policy \<Rightarrow> member_tx \<Rightarrow> member_tx \<Rightarrow> bool" where
  "changes_policy env convID pol' tx tx' \<longleftrightarrow>
     conversation_policy env convID (mt_rows tx') = Some pol' \<and> keyed tx' \<and> others_kept env convID (mt_rows tx) (mt_rows tx')"

lemma transaction_ok:
  assumes "conversation_ok env convID pol md" "in_tx env fails convID body md = (err, md')"
    "\<And>tx. body (tx_of md) = Inr tx \<Longrightarrow> changes_policy env convID pol' (tx_of md) tx" "members_distinct pol'"
  shows "case err of Some _ \<Rightarrow> md' = md
     | None \<Rightarrow> conversation_ok env convID pol' md' \<and>
         others_kept env convID (ps_rows (md_policies md)) (ps_rows (md_policies md')) \<and>
         (\<exists>tx. body (tx_of md) = Inr tx \<and> md_meta md' = mt_meta tx \<and> md_convs md' = mt_convs tx)"
proof -
  note d = conversation_okD [OF assms(1)]
  have "keyed tx \<and> others_kept env convID (mt_rows (tx_of md)) (mt_rows tx)" if "body (tx_of md) = Inr tx" for tx
    using assms(3) [OF that] by (simp add: changes_policy_def)
  note t = in_tx_ok [OF d(1) assms(2) this]
  show ?thesis
  proof (cases err)
    case None
    with t obtain tx where tx: "body (tx_of md) = Inr tx" "ps_rows (md_policies md') = mt_rows tx"
      "md_meta md' = mt_meta tx" "md_convs md' = mt_convs tx" by auto
    with None t assms(3) [OF tx(1)] assms(4) d(3) show ?thesis
      by (auto simp: conversation_ok_def changes_policy_def tx_of_def)
  qed (use t in auto)
qed

lemma remove_body:
  assumes "conversation_ok env convID pol md"
    "remove_tx env fails now convID memberType memberID (tx_of md) = Inr tx"
  shows "changes_policy env convID (patch_member (conversationMemberName memberType memberID) [] pol) (tx_of md) tx \<and>
    mt_convs tx = md_convs md \<and> mt_meta tx = filter (\<lambda>r. meta_key r \<noteq> (convID, memberType, memberID)) (md_meta md)"
proof -
  note d = conversation_okD [OF assms(1)]
  from assms(2) obtain tx1 where p: "patchConversationMemberRolesTx env fails now convID memberType memberID [] (tx_of md) = Inr tx1"
    and q: "deleteConversationMemberMetaTx fails convID memberType memberID tx1 = Inr tx" by (auto simp: remove_tx_def)
  from patch_tx_ok [OF d(2,3) p] delete_meta_ok [OF q] d(5) show ?thesis
    by (auto simp: changes_policy_def keyed_def tx_of_def)
qed

lemma update_role_body:
  assumes "conversation_ok env convID pol md"
    "update_role_tx env fails now convID memberType memberID role (tx_of md) = Inr tx"
  shows "changes_policy env convID (patch_member (conversationMemberName memberType memberID) [conversationRoleName role] pol) (tx_of md) tx \<and>
    roles_of pol (conversationMemberName memberType memberID) \<noteq> {} \<and> mt_convs tx = md_convs md"
proof -
  note d = conversation_okD [OF assms(1)]
  let ?m = "conversationMemberName memberType memberID"
  let ?f = "\<lambda>policy. if \<not> policyContainsMember policy ?m then Inl MemberNotFound
           else Inr (applyIamPolicyPatch \<lparr>pi_Member = ?m, pi_Roles = [conversationRoleName role]\<rparr> policy)"
  from assms(2) obtain tx1 where c: "change_policy env fails now convID ?f (tx_of md) = Inr tx1"
    and u: "upsertConversationMemberMetaTx fails now convID memberType memberID tx1 = Inr tx"
    by (auto simp: update_role_tx_def Let_def)
  from change_policy_ok [OF d(2,3) c] upsert_meta_ok [OF u] d(5) show ?thesis
    by (auto simp: changes_policy_def keyed_def tx_of_def patch_member_def policyContainsMember_roles split: if_splits)
qed

text \<open>The two patches of a transfer are the hand-over of the contract.\<close>

lemma transfer_patches:
  assumes "keyed tx" "codec_ok (mn_json env)" "conversation_policy env convID (mt_rows tx) = Some pol"
    "patchConversationMemberRolesTx env fails now convID MemberTypeUser old [low] tx = Inr tx1"
    "patchConversationMemberRolesTx env fails now convID MemberTypeUser new [high] tx1 = Inr tx2"
  shows "changes_policy env convID (policy_roles.hand_over (conversationMemberName MemberTypeUser old)
      (conversationMemberName MemberTypeUser new) low high pol) tx tx2 \<and> mt_convs tx2 = mt_convs tx \<and> mt_meta tx2 = mt_meta tx"
proof -
  from patch_tx_ok [OF assms(1,2,4)] assms(3)
  have 1: "conversation_policy env convID (mt_rows tx1) = Some (patch_member (conversationMemberName MemberTypeUser old) [low] pol)"
    "keyed tx1" "others_kept env convID (mt_rows tx) (mt_rows tx1)" "mt_convs tx1 = mt_convs tx" "mt_meta tx1 = mt_meta tx"
    by auto
  from patch_tx_ok [OF 1(2) assms(2,5)] 1 show ?thesis
    by (auto simp: changes_policy_def policy_roles.hand_over_def dest: others_kept_trans)
qed


lemma transfer_body:
  assumes "conversation_ok env convID pol md" "transfer_tx env fails now convID old new ownerID (tx_of md) = Inr tx"
  shows "changes_policy env convID (policy_roles.hand_over (conversationMemberName MemberTypeUser old)
      (conversationMemberName MemberTypeUser new) (conversationRoleName MemberRoleMember) (conversationRoleName MemberRoleOwner) pol)
      (tx_of md) tx \<and>
    mt_convs tx = set_owner now convID ownerID (md_convs md) \<and>
    has_meta (mt_meta tx) convID MemberTypeUser old \<and> has_meta (mt_meta tx) convID MemberTypeUser new"
proof -
  note d = conversation_okD [OF assms(1)]
  let ?tx0 = "(tx_of md)\<lparr>mt_convs := set_owner now convID ownerID (md_convs md)\<rparr>"
  from assms(2) obtain tx1 tx2 tx3 where s:
    "patchConversationMemberRolesTx env fails now convID MemberTypeUser old [conversationRoleName MemberRoleMember] ?tx0 = Inr tx1"
    "patchConversationMemberRolesTx env fails now convID MemberTypeUser new [conversationRoleName MemberRoleOwner] tx1 = Inr tx2"
    "upsertConversationMemberMetaTx fails now convID MemberTypeUser old tx2 = Inr tx3"
    "upsertConversationMemberMetaTx fails now convID MemberTypeUser new tx3 = Inr tx"
    by (auto simp: transfer_tx_def tx_of_def split: if_splits)
  have "keyed ?tx0" "conversation_policy env convID (mt_rows ?tx0) = Some pol" using d by (simp_all add: keyed_def)
  from transfer_patches [OF this(1) d(3) this(2) s(1,2)] upsert_meta_ok [OF s(3)] upsert_meta_ok [OF s(4)]
  show ?thesis by (auto simp: changes_policy_def keyed_def)
qed

section \<open>Examples\<close>

definition table_codec :: "(iam_policy \<times> string) list \<Rightarrow> policy_json" where
  "table_codec t = \<lparr>pj_marshal = map_of t, pj_unmarshal = map_of (map (\<lambda>(p, s). (s, p)) t)\<rparr>"

definition member_binding :: "string list \<Rightarrow> string option \<Rightarrow> binding" where
  "member_binding ms c = \<lparr>b_Role = ''roles/conversationMember'', b_Members = ms, b_Condition = c\<rparr>"

definition owner_binding :: "string list \<Rightarrow> binding" where
  "owner_binding ms = \<lparr>b_Role = ''roles/conversationOwner'', b_Members = ms, b_Condition = None\<rparr>"

definition expiry :: "string option" where
  "expiry = memberExpirationCondition \<lparr>mn_uuid = undefined, mn_json = undefined, mn_rfc3339 = (\<lambda>_. ''2030'')\<rparr> (Some 5)"

text \<open>A channel owned by a, with b as a member until 2030.\<close>

definition channel :: iam_policy where
  "channel = [owner_binding [''users/a''], member_binding [''users/b''] expiry]"

definition channel_codec :: policy_json where
  "channel_codec = table_codec
     [(channel, ''0''),
      ([owner_binding [''users/a'']], ''1''),
      ([member_binding [''users/b'', ''users/a''] expiry], ''2''),
      ([owner_binding [''users/a''], member_binding [''users/b''] None], ''3''),
      ([member_binding [''users/a''] expiry, owner_binding [''users/b'']], ''4'')]"

definition channel_env :: member_env where
  "channel_env = \<lparr>mn_uuid = \<lparr>uuid_Parse = (\<lambda>_. Some 1), uuid_String = (\<lambda>_. ''c'')\<rparr>, mn_json = channel_codec,
     mn_rfc3339 = (\<lambda>_. ''2030'')\<rparr>"

definition channel_db :: member_db where
  "channel_db = \<lparr>md_policies = \<lparr>ps_rows = [iam_row CONVERSATION ''conversations/c'' ''0''], ps_cache = Map.empty,
       ps_enableCache = True\<rparr>,
     md_meta = [], md_convs = [\<lparr>cv_ID = 1, cv_Type = 2, cv_OwnerID = 10, cv_UpdatedAt = 0\<rparr>], md_principals = []\<rparr>"

lemmas channel_defs = channel_def channel_codec_def table_codec_def channel_env_def channel_db_def member_binding_def owner_binding_def
  expiry_def memberExpirationCondition_def

lemmas op_defs = in_tx_def tx_of_def change_policy_def getConversationPolicyForUpdate_def upsertConversationPolicyTx_def
  upsertPolicyV2Impl_def patchConversationMemberRolesTx_def applyIamPolicyPatch_def patch_binding_def conversationPolicyResource_def
  conversationMemberName_def conversationRoleName_def FormatConversationName_def ConversationNamePrefix_def UserNamePrefix_def FormatRole_def
  ConversationOwnerRole_def ConversationMemberRole_def member_consts policy_key_def iam_row_def upsertConversationMemberMetaTx_def
  policyContainsMember_def Let_def RolePrefix_def

lemma channel_codec_ok: "codec_ok channel_codec"
  by (auto simp: codec_ok_def channel_codec_def table_codec_def split: if_splits)

lemma channel_ok: "conversation_ok channel_env 1 channel channel_db"
  using channel_codec_ok
  by (simp add: conversation_ok_def policies_ok_def conversation_policy_def members_distinct_def)
    (simp add: channel_defs op_defs)

lemma channel_ops_succeed:
  "fst (RemoveConversationMember channel_env no_fail 7 1 MemberTypeUser ''b'' channel_db) = None"
  "fst (UpdateConversationMemberRole channel_env no_fail 7 1 MemberTypeUser ''a'' MemberRoleMember channel_db) = None"
  "fst (TransferChannelOwnership channel_env no_fail 7 1 ''a'' ''b'' 11 channel_db) = None"
  "fst (AddConversationMembers channel_env no_fail 7 1 [\<lparr>mi_MemberType = MemberTypeUser, mi_MemberID = ''b'', mi_ExpireAt = None\<rparr>]
     channel_db) = None"
  by code_simp+

text \<open>What a successful removal leaves behind.\<close>

lemma removal_effect:
  assumes "conversation_ok env convID pol md"
    "RemoveConversationMember env fails now convID memberType memberID md = (None, md')"
  shows "(\<exists>pol'. conversation_ok env convID pol' md' \<and>
       roles_of pol' (conversationMemberName memberType memberID) = {} \<and>
       (\<forall>m r c. m \<noteq> conversationMemberName memberType memberID \<longrightarrow> (bound_under pol' m r c \<longleftrightarrow> bound_under pol m r c))) \<and>
     fst (IsConversationMember env no_fail convID memberType memberID md') = Inr False \<and>
     md_meta md' = filter (\<lambda>r. meta_key r \<noteq> (convID, memberType, memberID)) (md_meta md) \<and>
     md_convs md' = md_convs md \<and>
     others_kept env convID (ps_rows (md_policies md)) (ps_rows (md_policies md'))"
proof -
  let ?m = "conversationMemberName memberType memberID" and ?pol = "patch_member (conversationMemberName memberType memberID) [] pol"
  note d = conversation_okD [OF assms(1)]
  note body = remove_body [OF assms(1), where fails = fails and now = now and memberType = memberType and memberID = memberID]
  note t = transaction_ok [OF assms(1) assms(2) [unfolded RemoveConversationMember_def] conjunct1 [OF body]
      policy_roles.keeps_ok [OF d(4)], unfolded option.case]
  have c: "conversation_ok env convID ?pol md'" using t by simp
  have r: "roles_of ?pol ?m = {}" by (rule policy_roles.revoked [OF d(4)])
  have "bound_under ?pol m r c \<longleftrightarrow> bound_under pol m r c" if "m \<noteq> ?m" for m r c
    using patch_others [OF d(4), of m "\<lparr>pi_Member = ?m, pi_Roles = []\<rparr>"] that by (simp add: patch_member_def)
  moreover have "fst (IsConversationMember env no_fail convID memberType memberID md') = Inr False"
    using IsConversationMember_ok [OF conversation_okD(1,6) [OF c]] r by simp
  ultimately show ?thesis using t c r body by auto
qed

lemma failed_transaction: "in_tx env fails convID body md = (Some e, md') \<Longrightarrow> md' = md"
  by (auto simp: in_tx_def split: if_splits sum.splits)

section \<open>Properties\<close>

text \<open>C7: Removing a member revokes everything. When the call succeeds, the member holds no role in the conversation, is no longer
  reported as a member and has no metadata row; every other member keeps the same roles under the same conditions,
  and every other row of both tables is as before. When it fails, nothing changed.\<close>

theorem removal_revokes:
  assumes "conversation_ok env convID pol md"
    "RemoveConversationMember env fails now convID memberType memberID md = (err, md')"
  shows "case err of Some _ \<Rightarrow> md' = md
   | None \<Rightarrow> (\<exists>pol'. conversation_ok env convID pol' md' \<and>
       roles_of pol' (conversationMemberName memberType memberID) = {} \<and>
       (\<forall>m r c. m \<noteq> conversationMemberName memberType memberID \<longrightarrow> (bound_under pol' m r c \<longleftrightarrow> bound_under pol m r c))) \<and>
     fst (IsConversationMember env no_fail convID memberType memberID md') = Inr False \<and>
     md_meta md' = filter (\<lambda>r. meta_key r \<noteq> (convID, memberType, memberID)) (md_meta md) \<and>
     md_convs md' = md_convs md \<and>
     others_kept env convID (ps_rows (md_policies md)) (ps_rows (md_policies md'))"
proof (cases err)
  case None
  with removal_effect [OF assms(1)] assms(2) show ?thesis by simp
next
  case (Some e)
  with assms(2) show ?thesis by (auto simp: RemoveConversationMember_def dest: failed_transaction)
qed

theorem removal_revokes_witness:
  "\<exists>md'. RemoveConversationMember channel_env no_fail 7 1 MemberTypeUser ''b'' channel_db = (None, md') \<and>
     fst (IsConversationMember channel_env no_fail 1 MemberTypeUser ''b'' md') = Inr False"
proof -
  obtain md' where r: "RemoveConversationMember channel_env no_fail 7 1 MemberTypeUser ''b'' channel_db = (None, md')"
    using channel_ops_succeed(1) by (metis prod.collapse)
  from removal_revokes [OF channel_ok r] r show ?thesis by simp
qed

text \<open>C8: Changing a member's role is exact. When the call succeeds, the target was a member, its only role is the new one, every
  other member is bound as before, and a later look-up returns the role and the type of the conversation. The
  new role carries the condition of the first binding of that role, so that a permanent member who is put into a
  role whose first binding expires becomes a temporary one.\<close>

theorem role_change_exact:
  assumes "conversation_ok env convID pol md" "role \<in> {MemberRoleOwner, MemberRoleMember, MemberRoleAdmin}"
    "find (\<lambda>c. cv_ID c = convID) (md_convs md) = Some cv"
    "UpdateConversationMemberRole env fails now convID memberType memberID role md = (err, md')"
  shows "case err of Some _ \<Rightarrow> md' = md
   | None \<Rightarrow> roles_of pol (conversationMemberName memberType memberID) \<noteq> {} \<and>
     (\<exists>pol'. conversation_ok env convID pol' md' \<and>
       (\<forall>r c. bound_under pol' (conversationMemberName memberType memberID) r c \<longleftrightarrow> r = conversationRoleName role \<and>
          c = (case find (\<lambda>b. b_Role b = conversationRoleName role) pol of None \<Rightarrow> None | Some b \<Rightarrow> b_Condition b)) \<and>
       (\<forall>m r c. m \<noteq> conversationMemberName memberType memberID \<longrightarrow> (bound_under pol' m r c \<longleftrightarrow> bound_under pol m r c))) \<and>
     fst (GetConversationMembership env no_fail convID memberType memberID md') = Inr (role, cv_Type cv) \<and>
     others_kept env convID (ps_rows (md_policies md)) (ps_rows (md_policies md'))"
proof -
  let ?m = "conversationMemberName memberType memberID" and ?R = "conversationRoleName role"
  let ?pol = "patch_member ?m [?R] pol"
  note d = conversation_okD [OF assms(1)]
  note body = update_role_body [OF assms(1), where fails = fails and now = now and memberType = memberType and
    memberID = memberID and role = role]
  note t = transaction_ok [OF assms(1) assms(4) [unfolded UpdateConversationMemberRole_def] conjunct1 [OF body]
      policy_roles.keeps_ok [OF d(4)]]
  show ?thesis
  proof (cases err)
    case None
    with t have c: "conversation_ok env convID ?pol md'" by simp
    have r: "roles_of ?pol ?m = {?R}" using policy_roles.roles_set [OF d(4), of ?m "[?R]" ?m] by simp
    then have "bound_under ?pol ?m r c \<Longrightarrow> r = ?R" for r c by (auto simp: roles_of_def holds_role_bound)
    then have own: "bound_under ?pol ?m r c \<longleftrightarrow> r = ?R \<and>
        c = (case find (\<lambda>b. b_Role b = ?R) pol of None \<Rightarrow> None | Some b \<Rightarrow> b_Condition b)" for r c
      using patch_condition [OF d(4), of ?m ?R c] by blast
    have others: "bound_under ?pol m r c \<longleftrightarrow> bound_under pol m r c" if "m \<noteq> ?m" for m r c
      using patch_others [OF d(4), of m "\<lparr>pi_Member = ?m, pi_Roles = [?R]\<rparr>"] that by (simp add: patch_member_def)
    from None t body have b: "roles_of pol ?m \<noteq> {}" "md_convs md' = md_convs md"
      "others_kept env convID (ps_rows (md_policies md)) (ps_rows (md_policies md'))" by auto
    have "fst (GetConversationMembership env no_fail convID memberType memberID md') = Inr (role, cv_Type cv)"
      using GetConversationMembership_single [OF conversation_okD(1,6) [OF c] _ r assms(2)] assms(3) b(2) by simp
    with None b c own others show ?thesis by auto
  qed (use t in simp)
qed

theorem role_change_exact_witness:
  "\<exists>md' pol'. UpdateConversationMemberRole channel_env no_fail 7 1 MemberTypeUser ''a'' MemberRoleMember channel_db = (None, md') \<and>
     conversation_ok channel_env 1 pol' md' \<and>
     (\<forall>c. bound_under pol' ''users/a'' ''roles/conversationMember'' c \<longleftrightarrow> c = expiry) \<and>
     fst (GetConversationMembership channel_env no_fail 1 MemberTypeUser ''a'' md') = Inr (MemberRoleMember, 2)"
proof -
  obtain md' where r: "UpdateConversationMemberRole channel_env no_fail 7 1 MemberTypeUser ''a'' MemberRoleMember channel_db = (None, md')"
    using channel_ops_succeed(2) by (metis prod.collapse)
  have n: "conversationMemberName MemberTypeUser ''a'' = ''users/a''" "conversationRoleName MemberRoleMember = ''roles/conversationMember''"
    "find (\<lambda>b. b_Role b = ''roles/conversationMember'') channel = Some (member_binding [''users/b''] expiry)"
    "b_Condition (member_binding [''users/b''] expiry) = expiry"
    by (simp_all add: op_defs channel_def owner_binding_def member_binding_def)
  have m: "MemberRoleMember \<in> {MemberRoleOwner, MemberRoleMember, MemberRoleAdmin}" by simp
  have f: "find (\<lambda>c. cv_ID c = 1) (md_convs channel_db) = Some \<lparr>cv_ID = 1, cv_Type = 2, cv_OwnerID = 10, cv_UpdatedAt = 0\<rparr>"
    by (simp add: channel_db_def)
  from role_change_exact [OF channel_ok m f r, unfolded option.case n] obtain pol' where "conversation_ok channel_env 1 pol' md'"
    "\<forall>c. bound_under pol' ''users/a'' ''roles/conversationMember'' c \<longleftrightarrow> c = expiry"
    "fst (GetConversationMembership channel_env no_fail 1 MemberTypeUser ''a'' md') = Inr (MemberRoleMember, 2)"
    by (auto simp: n)
  with r show ?thesis by blast
qed

text \<open>C6: A transfer of ownership moves it in one piece. When the call succeeds, the new owner is the only holder of the owner role
  if the old owner was, the old owner is an ordinary member, nobody else's roles change, the conversation row names the
  new owner, and both have a metadata row; when it fails nothing changed, so that there are never two owners or none.\<close>

theorem transfer_hands_over:
  assumes "conversation_ok env convID pol md" "old \<noteq> new"
    "TransferChannelOwnership env fails now convID old new newPrincipal md = (err, md')"
  shows "case err of Some _ \<Rightarrow> md' = md
   | None \<Rightarrow> (\<exists>pol'. conversation_ok env convID pol' md' \<and>
       {m. holds_role pol' m (conversationRoleName MemberRoleOwner)} =
         insert (UserNamePrefix @ new) ({m. holds_role pol m (conversationRoleName MemberRoleOwner)} - {UserNamePrefix @ old}) \<and>
       roles_of pol' (UserNamePrefix @ old) = {conversationRoleName MemberRoleMember} \<and>
       roles_of pol' (UserNamePrefix @ new) = {conversationRoleName MemberRoleOwner} \<and>
       (\<forall>m. m \<noteq> UserNamePrefix @ old \<and> m \<noteq> UserNamePrefix @ new \<longrightarrow> roles_of pol' m = roles_of pol m)) \<and>
     md_convs md' = set_owner now convID newPrincipal (md_convs md) \<and>
     has_meta (md_meta md') convID MemberTypeUser old \<and> has_meta (md_meta md') convID MemberTypeUser new \<and>
     others_kept env convID (ps_rows (md_policies md)) (ps_rows (md_policies md'))"
proof -
  let ?o = "conversationMemberName MemberTypeUser old" and ?n = "conversationMemberName MemberTypeUser new"
  let ?low = "conversationRoleName MemberRoleMember" and ?high = "conversationRoleName MemberRoleOwner"
  let ?pol = "policy_roles.hand_over ?o ?n ?low ?high pol"
  note d = conversation_okD [OF assms(1)]
  have names: "?o = UserNamePrefix @ old" "?n = UserNamePrefix @ new" by (simp_all add: conversationMemberName_def member_consts)
  note body = transfer_body [OF assms(1), where fails = fails and now = now and old = old and new = new and ownerID = newPrincipal]
  note t = transaction_ok [OF assms(1) assms(3) [unfolded TransferChannelOwnership_def] conjunct1 [OF body]
      policy_roles.hand_over_ok [OF d(4)]]
  show ?thesis
  proof (cases err)
    case None
    have "{m. holds_role ?pol m ?high} = insert ?n ({m. holds_role pol m ?high} - {?o})"
      using policy_roles.hand_over_holders [OF d(4) role_names_differ, of ?o ?n]
      by (simp add: policy_roles.holders_def roles_of_def)
    moreover have "?o \<noteq> ?n" using assms(2) names by simp
    ultimately have "conversation_ok env convID ?pol md' \<longrightarrow> ?thesis"
      using None t body policy_roles.hand_over_roles [OF d(4), of ?o ?n ?low ?high] names by auto
    with None t show ?thesis by simp
  qed (use t in simp)
qed

theorem transfer_hands_over_witness:
  "\<exists>md' pol'. TransferChannelOwnership channel_env no_fail 7 1 ''a'' ''b'' 11 channel_db = (None, md') \<and>
     conversation_ok channel_env 1 pol' md' \<and> {m. holds_role pol' m ''roles/conversationOwner''} = {''users/b''} \<and>
     roles_of pol' ''users/a'' = {''roles/conversationMember''}"
proof -
  obtain md' where r: "TransferChannelOwnership channel_env no_fail 7 1 ''a'' ''b'' 11 channel_db = (None, md')"
    using channel_ops_succeed(3) by (metis prod.collapse)
  have o: "{m. holds_role channel m ''roles/conversationOwner''} = {''users/a''}"
    by (auto simp: holds_role_def channel_def owner_binding_def member_binding_def)
  have n: "conversationRoleName MemberRoleOwner = ''roles/conversationOwner''" "conversationRoleName MemberRoleMember = ''roles/conversationMember''"
    "UserNamePrefix = ''users/''" by (simp_all add: op_defs)
  from transfer_hands_over [OF channel_ok _ r] r show ?thesis by (auto simp: n o)
qed

text \<open>Adding members is all or nothing and replaces the terms of a membership. When the call succeeds, each
  added member is bound to the member role under exactly the requested expiry, even if it was bound to that role under
  another one before; every other binding is as before, and exactly the added members gain metadata rows. When
  it fails, nothing changed.\<close>

theorem added_members_bound:
  assumes "conversation_ok env convID pol md" "distinct (map input_name ms)"
    "AddConversationMembers env fails now convID ms md = (err, md')"
  shows "case err of Some _ \<Rightarrow> md' = md
   | None \<Rightarrow> (\<exists>pol'. conversation_ok env convID pol' md' \<and>
       (\<forall>m \<in> set ms. \<forall>c. bound_under pol' (input_name m) (conversationRoleName MemberRoleMember) c \<longleftrightarrow>
          c = memberExpirationCondition env (mi_ExpireAt m)) \<and>
       (\<forall>m r c. \<not> (m \<in> input_name ` set ms \<and> r = conversationRoleName MemberRoleMember) \<longrightarrow>
          (bound_under pol' m r c \<longleftrightarrow> bound_under pol m r c))) \<and>
     (\<forall>c t i. has_meta (md_meta md') c t i \<longleftrightarrow>
        has_meta (md_meta md) c t i \<or> c = convID \<and> (t, i) \<in> (\<lambda>m. (mi_MemberType m, mi_MemberID m)) ` set ms) \<and>
     others_kept env convID (ps_rows (md_policies md)) (ps_rows (md_policies md'))"
proof -
  let ?pol = "add_all env ms pol" and ?R = "conversationRoleName MemberRoleMember"
  note d = conversation_okD [OF assms(1)]
  note all = add_all_ok [OF d(4) assms(2), of env]
  note body = add_members_ok [OF d(2,3,5), where fails = fails and now = now and ms = ms]
  have b: "changes_policy env convID ?pol (tx_of md) tx" if "add_members env fails now convID ms (tx_of md) = Inr tx" for tx
    using body [OF that] by (simp add: changes_policy_def)
  note t = transaction_ok [OF assms(1) assms(3) [unfolded AddConversationMembers_def] b conjunct1 [OF all]]
  have new: "bound_under ?pol (input_name m) ?R c \<longleftrightarrow> c = memberExpirationCondition env (mi_ExpireAt m)" if "m \<in> set ms" for m c
  proof -
    have "find (\<lambda>x. input_name x = input_name m \<and> ?R = ?R) ms = Some m"
      using that assms(2) by (induction ms) (auto simp: rev_image_eqI)
    with all [of "input_name m" ?R c] show ?thesis by simp
  qed
  have rest: "bound_under ?pol m r c \<longleftrightarrow> bound_under pol m r c" if "\<not> (m \<in> input_name ` set ms \<and> r = ?R)" for m r c
  proof -
    have "find (\<lambda>x. input_name x = m \<and> r = ?R) ms = None" using that by (auto simp: find_None_iff)
    with all [of m r c] show ?thesis by simp
  qed
  show ?thesis
  proof (cases err)
    case None
    with t obtain tx where "add_members env fails now convID ms (tx_of md) = Inr tx" "md_meta md' = mt_meta tx" by auto
    from body [OF this(1)] this(2) have "\<forall>c t i. has_meta (md_meta md') c t i \<longleftrightarrow>
        has_meta (md_meta md) c t i \<or> c = convID \<and> (t, i) \<in> (\<lambda>m. (mi_MemberType m, mi_MemberID m)) ` set ms"
      by (simp add: tx_of_def)
    with None t new rest show ?thesis by auto
  qed (use t in simp)
qed

theorem added_members_bound_witness:
  "\<exists>md' pol'. AddConversationMembers channel_env no_fail 7 1 [\<lparr>mi_MemberType = MemberTypeUser, mi_MemberID = ''b'', mi_ExpireAt = None\<rparr>]
       channel_db = (None, md') \<and>
     conversation_ok channel_env 1 pol' md' \<and> (\<forall>c. bound_under pol' ''users/b'' ''roles/conversationMember'' c \<longleftrightarrow> c = None)"
proof -
  let ?ms = "[\<lparr>mi_MemberType = MemberTypeUser, mi_MemberID = ''b'', mi_ExpireAt = None\<rparr>]"
  obtain md' where r: "AddConversationMembers channel_env no_fail 7 1 ?ms channel_db = (None, md')"
    using channel_ops_succeed(4) by (metis prod.collapse)
  have n: "input_name \<lparr>mi_MemberType = MemberTypeUser, mi_MemberID = ''b'', mi_ExpireAt = None\<rparr> = ''users/b''"
    "conversationRoleName MemberRoleMember = ''roles/conversationMember''" "memberExpirationCondition channel_env None = None"
    by (simp_all add: op_defs input_name_def memberExpirationCondition_def)
  from added_members_bound [OF channel_ok _ r] r show ?thesis by (auto simp: n)
qed

text \<open>C12: A removed member can come back through the cache. If a request reads the policy row before the removal commits and
  fills the cache after the removal has dropped the entry, then the member that no row binds any more is
  still reported as a member. No later check repairs it, since a check that finds the entry leaves everything as it is; and whatever
  else happens to the rows and to the rest of the cache, the member is reported for as long as the entry is neither dropped nor replaced.\<close>

theorem stale_fill_revives_member:
  assumes "conversation_ok env convID pol md" "ps_enableCache (md_policies md)"
    "ps_cache (md_policies md) (conversationPolicyCacheKey env convID) = None"
    "roles_of pol (conversationMemberName memberType memberID) \<noteq> {}"
    "fill = snd (policy_read no_fail ((find_of CONVERSATION (Some (conversationPolicyResource env convID)))\<lparr>fp_Type := Some IAM\<rparr>) (md_policies md))"
    "RemoveConversationMember env fails now convID memberType memberID md = (None, md1)"
    "md2 = md1\<lparr>md_policies := policy_fill fill (md_policies md1)\<rparr>"
  shows "(\<exists>pol'. conversation_policy env convID (ps_rows (md_policies md2)) = Some pol' \<and>
      roles_of pol' (conversationMemberName memberType memberID) = {}) \<and>
    fst (IsConversationMember env fails' convID memberType memberID md2) = Inr True \<and>
    (\<forall>k i. snd (IsConversationMember env fails' convID k i md2) = md2) \<and>
    (\<forall>md3. ps_enableCache (md_policies md3) \<longrightarrow>
       ps_cache (md_policies md3) (conversationPolicyCacheKey env convID) = ps_cache (md_policies md2) (conversationPolicyCacheKey env convID) \<longrightarrow>
       fst (IsConversationMember env fails' convID memberType memberID md3) = Inr True)"
proof -
  let ?res = "conversationPolicyResource env convID"
  note d = conversation_okD [OF assms(1)]
  have "pol \<noteq> []" using assms(4) by (auto simp: roles_of_def)
  then obtain p where p: "lookup_policy CONVERSATION ?res IAM (md_policies md) = Some p" "pj_unmarshal (mn_json env) (pm_Payload p) = Some pol"
    using d(6) by (auto simp: conversation_policy_def lookup_policy_def split: option.splits)
  obtain xs where xs: "listPolicyImplV2 no_fail \<lparr>fp_ResourceType = Some CONVERSATION, fp_Resource = Some ?res, fp_Type = Some IAM,
      fp_ShowAll = True\<rparr> (ps_rows (md_policies md)) = Inr xs" by (simp add: listPolicyImplV2_def)
  have "xs = [p]" using listPolicy_full [OF d(2) [unfolded keyed_def tx_of_def, simplified] xs] p(1) by (simp add: lookup_policy_def)
  then have fill: "fill = Some (conversationPolicyCacheKey env convID, Some p)"
    using xs assms(2,3) lookup_Some [OF p(1)]
    by (simp add: assms(5) policy_read_def find_of_def find_key_def conversationPolicyCacheKey_def key_of_message_def policy_key_def)
  have cache: "ps_enableCache (md_policies md2)" "ps_cache (md_policies md2) (conversationPolicyCacheKey env convID) = Some (Some p)"
    using assms(2,6,7)
    by (auto simp: fill policy_fill_def cache_add_def RemoveConversationMember_def in_tx_def install_def
        invalidateConversationPolicyCache_def cache_remove_def split: if_splits sum.splits)
  have rows: "ps_rows (md_policies md2) = ps_rows (md_policies md1)" by (simp add: assms(7) fill policy_fill_def)
  from transaction_ok [OF assms(1) assms(6) [unfolded RemoveConversationMember_def] conjunct1 [OF remove_body [OF assms(1)]]
      policy_roles.keeps_ok [OF d(4)]]
  have "conversation_policy env convID (ps_rows (md_policies md1)) = Some (patch_member (conversationMemberName memberType memberID) [] pol)"
    by (simp add: conversation_ok_def)
  moreover have "fst (IsConversationMember env fails' convID memberType memberID md2) = Inr True"
    using cached_policy_answers(1) [OF cache p(2)] assms(4) by simp
  moreover have "fst (IsConversationMember env fails' convID memberType memberID md3) = Inr True"
    if "ps_enableCache (md_policies md3)" "ps_cache (md_policies md3) (conversationPolicyCacheKey env convID) =
      ps_cache (md_policies md2) (conversationPolicyCacheKey env convID)" for md3
    using cached_policy_answers(1) [OF that(1) that(2) [unfolded cache(2)] p(2)] assms(4) by simp
  ultimately show ?thesis using policy_roles.revoked [OF d(4)] rows cached_policy_answers(2) [OF cache p(2)] by auto
qed

theorem stale_fill_revives_member_witness:
  "\<exists>md1 md2. RemoveConversationMember channel_env no_fail 7 1 MemberTypeUser ''b'' channel_db = (None, md1) \<and>
     ps_rows (md_policies md2) = ps_rows (md_policies md1) \<and>
     fst (IsConversationMember channel_env no_fail 1 MemberTypeUser ''b'' md2) = Inr True"
proof -
  let ?fill = "snd (policy_read no_fail ((find_of CONVERSATION (Some (conversationPolicyResource channel_env 1)))\<lparr>fp_Type := Some IAM\<rparr>)
     (md_policies channel_db))"
  obtain md1 where r: "RemoveConversationMember channel_env no_fail 7 1 MemberTypeUser ''b'' channel_db = (None, md1)"
    using channel_ops_succeed(1) by (metis prod.collapse)
  have m: "roles_of channel (conversationMemberName MemberTypeUser ''b'') \<noteq> {}"
    by (auto simp: roles_of_def holds_role_def channel_def op_defs owner_binding_def member_binding_def)
  have c: "ps_enableCache (md_policies channel_db)" "ps_cache (md_policies channel_db) (conversationPolicyCacheKey channel_env 1) = None"
    by (simp_all add: channel_db_def)
  have "ps_rows (policy_fill ?fill (md_policies md1)) = ps_rows (md_policies md1)"
    by (simp add: policy_fill_def split: option.split)
  then have "ps_rows (md_policies (md1\<lparr>md_policies := policy_fill ?fill (md_policies md1)\<rparr>)) = ps_rows (md_policies md1)" by simp
  with r conjunct1 [OF conjunct2 [OF stale_fill_revives_member [OF channel_ok c m refl r refl, of no_fail]]] show ?thesis by blast
qed

end
