(* ===== verification/Chat_Store.thy ===== *)
theory Chat_Store
  imports Membership
begin

text \<open>
  The chat tables (\<open>backend/manager/store/chat_message.go\<close>, \<open>conversation_version.go\<close>), the read cursors of users
  and agents (\<open>user_channel_cursor.go\<close>, \<open>agent_channel_cursor.go\<close>), the thread subscriptions
  (\<open>thread_participant.go\<close>), and of \<open>task.go\<close> the task rows that a read attaches to its messages.

  The state keeps the rows as lists in insertion order, with the columns the modelled code reads or writes; the search text of a
  message is left out. A transaction is one step: the update of the conversation row locks it until the
  commit. Two statements that the code issues outside a transaction are given two states, since other requests may commit in
  between. \<open>fails\<close> says which statements the database refuses, \<open>now\<close> is the start of the statement's transaction, and the
  JSON codec of mentions and attachments is a parameter, and so is the server's reading of a text argument
  as an integer (\<open>ce_int4\<close>). Rows that compare equal in an \<open>ORDER BY\<close> keep their order.

  The lemmas show that room versions number the messages of a conversation, what each read returns, and what the cursors
  count as new.
\<close>

section \<open>Messages\<close>

definition SenderTypeUser :: int where "SenderTypeUser = 1"
definition SenderTypeAgent :: int where "SenderTypeAgent = 2"
definition SenderTypeSystem :: int where "SenderTypeSystem = 3"

record mention =
  mt_type :: string
  mt_id :: string
  mt_name :: string

record attachment =
  at_id :: string
  at_name :: string
  at_mime_type :: string
  at_size_bytes :: int
  at_section_anchor :: string
  at_section_id :: string
  at_quoted_text :: string

record task_info =
  ti_TaskNumber :: int
  ti_Status :: int
  ti_AssigneeAgentID :: "int option"
  ti_AssigneeUserID :: "int option"
  ti_AssigneeType :: int
  ti_AssigneeName :: string
  ti_AssigneeResourceID :: string
  ti_AssigneeTeamID :: string
  ti_AssigneeTeamName :: string
  ti_AssigneeTeamLeader :: string

record chat_message =
  msg_ID :: uuid
  msg_ConversationID :: uuid
  msg_PrincipalID :: int
  msg_PrincipalName :: string
  msg_PrincipalHandle :: string
  msg_SenderAgentID :: "int option"
  msg_AgentResourceID :: string
  msg_AgentName :: string
  msg_Role :: int
  msg_Content :: string
  msg_CommandID :: "uuid option"
  msg_CreatedAt :: int
  msg_RoomVersion :: int
  msg_SenderType :: int
  msg_Mentions :: "mention list"
  msg_Attachments :: "attachment list"
  msg_ThreadRoot :: "uuid option"
  msg_ThreadReplyCount :: int
  msg_TaskInfo :: "task_info option"

section \<open>Tables\<close>

record room_row =
  ro_ID :: uuid
  ro_Version :: int
  ro_NextTaskNumber :: int
  ro_UpdatedAt :: int
  ro_OwnerID :: int
  ro_Archived :: bool

record message_row =
  mr_ID :: uuid
  mr_ConversationID :: uuid
  mr_PrincipalID :: int
  mr_Role :: int
  mr_Content :: string
  mr_CommandID :: "uuid option"
  mr_SenderAgentID :: "int option"
  mr_RoomVersion :: int
  mr_SenderType :: int
  mr_Mentions :: string
  mr_Attachments :: string
  mr_ThreadRoot :: "uuid option"
  mr_CreatedAt :: int

record task_row =
  tk_MessageID :: uuid
  tk_ConversationID :: uuid
  tk_Number :: int
  tk_Status :: int
  tk_AgentID :: "int option"
  tk_Type :: "int option"
  tk_UserID :: "int option"
  tk_TeamID :: "string option"
  tk_UpdatedAt :: int
  tk_CompletedAt :: "int option"

record team_row =
  te_ID :: string
  te_ResourceID :: string
  te_Name :: string
  te_Description :: string
  te_TeamPrompt :: string
  te_LeaderAgentID :: "int option"
  te_OwnerID :: int
  te_CreatedBy :: int
  te_CreatedAt :: int
  te_UpdatedAt :: int
  te_Deleted :: bool

record team_member_row =
  tm_TeamID :: string
  tm_AgentID :: int
  tm_Role :: int
  tm_Responsibility :: string
  tm_JoinedAt :: int

record chat_db =
  cd_rooms :: "room_row list"
  cd_messages :: "message_row list"
  cd_tasks :: "task_row list"
  cd_reminders :: "uuid list"
  cd_teams :: "team_row list"
  cd_team_members :: "team_member_row list"
  cd_meta :: "meta_row list"
  cd_principals :: "(int \<times> string \<times> string) list"
  cd_agents :: "(int \<times> string \<times> string) list"
  cd_user_cursors :: "int \<times> uuid \<Rightarrow> int option"
  cd_agent_cursors :: "int \<times> uuid \<Rightarrow> int option"
  cd_thread_agents :: "(uuid \<times> int) list"
  cd_thread_users :: "(uuid \<times> int) list"
  cd_notified :: "uuid list"

record chat_env =
  ce_marshalMentions :: "mention list \<Rightarrow> string option"
  ce_unmarshalMentions :: "string \<Rightarrow> mention list option"
  ce_marshalAttachments :: "attachment list \<Rightarrow> string option"
  ce_unmarshalAttachments :: "string \<Rightarrow> attachment list option"
  ce_int4 :: "string \<Rightarrow> int option"

datatype chat_error =
    ChatSql string
  | ChatNoRows string
  | ChatScan
  | ChatMarshal
  | MutuallyExclusive
  | IncorrectAssigneeType
  | ErrTaskNotFound
  | ErrTaskAlreadyExists
  | ErrTaskNotClaimable
  | ErrTaskNotOwner
  | ErrTaskInvalidTransition
  | ErrTaskAssigneeNotMember
  | ErrTaskTeamAlreadyAssigned
  | ErrAgentTeamNotFound
  | InvalidTeamName
  | TeamEmpty
  | TeamLeaderCount
  | AgentInOtherTeam int

text \<open>A principal's row holds its name and handle, an agent's its resource id and name.\<close>

definition principal_row :: "chat_db \<Rightarrow> int \<Rightarrow> (string \<times> string) option" where
  "principal_row db = map_of (cd_principals db)"

definition agent_row :: "chat_db \<Rightarrow> int \<Rightarrow> (string \<times> string) option" where
  "agent_row db = map_of (cd_agents db)"

definition room_of :: "uuid \<Rightarrow> chat_db \<Rightarrow> room_row option" where
  "room_of convID db = find (\<lambda>r. ro_ID r = convID) (cd_rooms db)"

definition map_rooms :: "(room_row \<Rightarrow> room_row) \<Rightarrow> uuid \<Rightarrow> chat_db \<Rightarrow> chat_db" where
  "map_rooms f convID db = db\<lparr>cd_rooms := map (\<lambda>r. if ro_ID r = convID then f r else r) (cd_rooms db)\<rparr>"

definition agent_text :: "chat_db \<Rightarrow> int option \<Rightarrow> string \<times> string" where
  "agent_text db agent = (case Option.bind agent (agent_row db) of None \<Rightarrow> ([], []) | Some a \<Rightarrow> a)"

section \<open>Rows to messages\<close>

definition decode_json :: "(string \<Rightarrow> 'a list option) \<Rightarrow> string \<Rightarrow> 'a list option" where
  "decode_json unmarshal bytes = (if bytes = [] then Some [] else unmarshal bytes)"

definition scanChatMessageRow :: "chat_env \<Rightarrow> chat_db \<Rightarrow> message_row \<Rightarrow> (chat_error, chat_message) result" where
  "scanChatMessageRow env db r =
     (case decode_json (ce_unmarshalMentions env) (mr_Mentions r) of
        None \<Rightarrow> Inl ChatScan
      | Some mentions \<Rightarrow>
          (case decode_json (ce_unmarshalAttachments env) (mr_Attachments r) of
             None \<Rightarrow> Inl ChatScan
           | Some attachments \<Rightarrow>
               (case (case principal_row db (mr_PrincipalID r) of None \<Rightarrow> ([], []) | Some p \<Rightarrow> p) of
                  (pname, handle) \<Rightarrow>
                    (case agent_text db (mr_SenderAgentID r) of
                       (agentResourceID, agentName) \<Rightarrow>
                         Inr \<lparr>msg_ID = mr_ID r, msg_ConversationID = mr_ConversationID r, msg_PrincipalID = mr_PrincipalID r,
                           msg_PrincipalName = pname, msg_PrincipalHandle = handle, msg_SenderAgentID = mr_SenderAgentID r,
                           msg_AgentResourceID = agentResourceID, msg_AgentName = agentName, msg_Role = mr_Role r,
                           msg_Content = mr_Content r, msg_CommandID = mr_CommandID r, msg_CreatedAt = mr_CreatedAt r,
                           msg_RoomVersion = mr_RoomVersion r, msg_SenderType = mr_SenderType r, msg_Mentions = mentions,
                           msg_Attachments = attachments, msg_ThreadRoot = mr_ThreadRoot r, msg_ThreadReplyCount = 0,
                           msg_TaskInfo = None\<rparr>))))"

fun scan_rows :: "('r \<Rightarrow> (chat_error, 'm) result) \<Rightarrow> 'r list \<Rightarrow> (chat_error, 'm list) result" where
  "scan_rows scan [] = Inr []"
| "scan_rows scan (r # rs) =
     (case scan r of
        Inl e \<Rightarrow> Inl e
      | Inr m \<Rightarrow> (case scan_rows scan rs of Inl e \<Rightarrow> Inl e | Inr ms \<Rightarrow> Inr (m # ms)))"

text \<open>The join with the principals drops rows without one.\<close>

definition joined :: "chat_db \<Rightarrow> message_row list" where
  "joined db = filter (\<lambda>r. principal_row db (mr_PrincipalID r) \<noteq> None) (cd_messages db)"

definition asc :: "('a \<Rightarrow> int) \<Rightarrow> 'a list \<Rightarrow> 'a list" where
  "asc key rows = sort_key key rows"

definition desc :: "('a \<Rightarrow> int) \<Rightarrow> 'a list \<Rightarrow> 'a list" where
  "desc key rows = sort_key (\<lambda>r. - key r) rows"

definition limited :: "nat \<Rightarrow> nat \<Rightarrow> 'a list \<Rightarrow> 'a list" where
  "limited limit offset rows = take limit (drop offset rows)"

section \<open>Writing messages\<close>

definition marshalMentions :: "chat_env \<Rightarrow> mention list \<Rightarrow> (chat_error, string) result" where
  "marshalMentions env mentions = (case ce_marshalMentions env mentions of None \<Rightarrow> Inl ChatMarshal | Some b \<Rightarrow> Inr b)"

definition marshalAttachments :: "chat_env \<Rightarrow> attachment list \<Rightarrow> (chat_error, string) result" where
  "marshalAttachments env attachments = (case ce_marshalAttachments env attachments of None \<Rightarrow> Inl ChatMarshal | Some b \<Rightarrow> Inr b)"

text \<open>The foreign keys of an inserted message.\<close>

definition references_ok :: "chat_db \<Rightarrow> chat_message \<Rightarrow> bool" where
  "references_ok db msg \<longleftrightarrow> principal_row db (msg_PrincipalID msg) \<noteq> None \<and> room_of (msg_ConversationID msg) db \<noteq> None \<and>
     (case msg_SenderAgentID msg of None \<Rightarrow> True | Some a \<Rightarrow> agent_row db a \<noteq> None) \<and>
     (case msg_ThreadRoot msg of None \<Rightarrow> True | Some root \<Rightarrow> list_ex (\<lambda>r. mr_ID r = root) (cd_messages db))"

definition message_row_of :: "uuid \<Rightarrow> int \<Rightarrow> int \<Rightarrow> string \<Rightarrow> string \<Rightarrow> chat_message \<Rightarrow> message_row" where
  "message_row_of newID now roomVersion mentions attachments msg =
     \<lparr>mr_ID = newID, mr_ConversationID = msg_ConversationID msg, mr_PrincipalID = msg_PrincipalID msg, mr_Role = msg_Role msg,
      mr_Content = msg_Content msg, mr_CommandID = msg_CommandID msg, mr_SenderAgentID = msg_SenderAgentID msg,
      mr_RoomVersion = roomVersion, mr_SenderType = msg_SenderType msg, mr_Mentions = mentions, mr_Attachments = attachments,
      mr_ThreadRoot = msg_ThreadRoot msg, mr_CreatedAt = now\<rparr>"

definition insert_message ::
  "chat_env \<Rightarrow> (string \<Rightarrow> bool) \<Rightarrow> uuid \<Rightarrow> int \<Rightarrow> chat_message \<Rightarrow> int \<Rightarrow> chat_db \<Rightarrow> (chat_error, chat_db) result" where
  "insert_message env fails newID now msg roomVersion db =
     (case marshalMentions env (msg_Mentions msg) of
        Inl e \<Rightarrow> Inl e
      | Inr mentions \<Rightarrow>
          (case marshalAttachments env (msg_Attachments msg) of
             Inl e \<Rightarrow> Inl e
           | Inr attachments \<Rightarrow>
               if fails ''insert message'' \<or> \<not> references_ok db msg then Inl (ChatSql ''insert message'')
               else Inr (db\<lparr>cd_messages := cd_messages db @ [message_row_of newID now roomVersion mentions attachments msg]\<rparr>)))"

text \<open>The created message carries the caller's fields; the agent's name is not among them.\<close>

definition created_message :: "uuid \<Rightarrow> int \<Rightarrow> int \<Rightarrow> task_info option \<Rightarrow> chat_message \<Rightarrow> chat_message" where
  "created_message newID now roomVersion task msg =
     msg\<lparr>msg_ID := newID, msg_AgentName := [], msg_CreatedAt := now, msg_RoomVersion := roomVersion, msg_ThreadReplyCount := 0,
       msg_TaskInfo := task\<rparr>"

definition CreateChatMessage ::
  "chat_env \<Rightarrow> (string \<Rightarrow> bool) \<Rightarrow> uuid \<Rightarrow> int \<Rightarrow> chat_message \<Rightarrow> chat_db \<Rightarrow> (chat_error, chat_message) result \<times> chat_db" where
  "CreateChatMessage env fails newID now msg db =
     (case insert_message env fails newID now msg (msg_RoomVersion msg) db of
        Inl e \<Rightarrow> (Inl e, db)
      | Inr db' \<Rightarrow> (Inr (created_message newID now (msg_RoomVersion msg) None msg), db'))"

definition clear_closed :: "uuid \<Rightarrow> chat_db \<Rightarrow> chat_db" where
  "clear_closed convID db =
     db\<lparr>cd_meta := map (\<lambda>m. if me_ConversationID m = convID \<and> me_Closed m then m\<lparr>me_Closed := False, me_ClosedAt := None\<rparr> else m)
       (cd_meta db)\<rparr>"

definition createChatMessageInTx ::
  "chat_env \<Rightarrow> (string \<Rightarrow> bool) \<Rightarrow> uuid \<Rightarrow> int \<Rightarrow> chat_message \<Rightarrow> int \<Rightarrow> chat_db \<Rightarrow> (chat_error, chat_db) result" where
  "createChatMessageInTx env fails newID now msg roomVersion db =
     (case insert_message env fails newID now msg roomVersion db of
        Inl e \<Rightarrow> Inl e
      | Inr db' \<Rightarrow>
          if msg_ThreadRoot msg = None then
            (if fails ''clear closed'' then Inl (ChatSql ''clear closed'') else Inr (clear_closed (msg_ConversationID msg) db'))
          else Inr db')"

definition bump_version :: "int \<Rightarrow> room_row \<Rightarrow> room_row" where
  "bump_version now r = r\<lparr>ro_Version := ro_Version r + 1, ro_UpdatedAt := now\<rparr>"

definition notify_room :: "uuid \<Rightarrow> chat_db \<Rightarrow> chat_db" where
  "notify_room convID db = db\<lparr>cd_notified := cd_notified db @ [convID]\<rparr>"

definition CreateChatMessageBumpVersion ::
  "chat_env \<Rightarrow> (string \<Rightarrow> bool) \<Rightarrow> uuid \<Rightarrow> int \<Rightarrow> chat_message \<Rightarrow> chat_db \<Rightarrow>
     (chat_error, chat_message \<times> int) result \<times> chat_db" where
  "CreateChatMessageBumpVersion env fails newID now msg db =
     (let convID = msg_ConversationID msg in
      if fails ''begin'' then (Inl (ChatSql ''begin''), db)
      else if fails ''bump version'' then (Inl (ChatSql ''bump version''), db)
      else
        (case room_of convID db of
           None \<Rightarrow> (Inl (ChatNoRows ''bump version''), db)
         | Some room \<Rightarrow>
             (let newVersion = ro_Version room + 1 in
              case createChatMessageInTx env fails newID now msg newVersion (map_rooms (bump_version now) convID db) of
                Inl e \<Rightarrow> (Inl e, db)
              | Inr db' \<Rightarrow>
                  if fails ''commit'' then (Inl (ChatSql ''commit''), db)
                  else (Inr (created_message newID now newVersion None msg, newVersion), notify_room convID db'))))"

definition IncrementConversationVersion ::
  "(string \<Rightarrow> bool) \<Rightarrow> uuid \<Rightarrow> chat_db \<Rightarrow> (chat_error, int) result \<times> chat_db" where
  "IncrementConversationVersion fails convID db =
     (if fails ''increment version'' then (Inl (ChatSql ''increment version''), db)
      else
        (case room_of convID db of
           None \<Rightarrow> (Inl (ChatNoRows ''increment version''), db)
         | Some room \<Rightarrow> (Inr (ro_Version room + 1), map_rooms (\<lambda>r. r\<lparr>ro_Version := ro_Version r + 1\<rparr>) convID db)))"

definition GetConversationVersion :: "(string \<Rightarrow> bool) \<Rightarrow> uuid \<Rightarrow> chat_db \<Rightarrow> (chat_error, int) result" where
  "GetConversationVersion fails convID db =
     (if fails ''get version'' then Inl (ChatSql ''get version'')
      else case room_of convID db of None \<Rightarrow> Inl (ChatNoRows ''get version'') | Some room \<Rightarrow> Inr (ro_Version room))"

definition SetChatMessageCommandID :: "(string \<Rightarrow> bool) \<Rightarrow> uuid \<Rightarrow> uuid \<Rightarrow> chat_db \<Rightarrow> chat_error option \<times> chat_db" where
  "SetChatMessageCommandID fails messageID commandID db =
     (if fails ''set command'' then (Some (ChatSql ''set command''), db)
      else (None, db\<lparr>cd_messages := map (\<lambda>r. if mr_ID r = messageID then r\<lparr>mr_CommandID := Some commandID\<rparr> else r) (cd_messages db)\<rparr>))"

section \<open>Reading messages\<close>

definition reply_count :: "chat_db \<Rightarrow> uuid \<Rightarrow> int" where
  "reply_count db root = int (length (filter (\<lambda>r. mr_ThreadRoot r = Some root) (cd_messages db)))"

definition fillThreadReplyCounts ::
  "(string \<Rightarrow> bool) \<Rightarrow> chat_db \<Rightarrow> chat_message list \<Rightarrow> (chat_error, chat_message list) result" where
  "fillThreadReplyCounts fails db msgs =
     (if filter (\<lambda>m. msg_ThreadRoot m = None) msgs = [] then Inr msgs
      else if fails ''count replies'' then Inl (ChatSql ''count replies'')
      else Inr (map (\<lambda>m. if msg_ThreadRoot m = None then m\<lparr>msg_ThreadReplyCount := reply_count db (msg_ID m)\<rparr> else m) msgs))"

definition team_text :: "chat_db \<Rightarrow> string option \<Rightarrow> string \<times> string \<times> string" where
  "team_text db team =
     (case Option.bind team (\<lambda>t. find (\<lambda>r. te_ID r = t) (cd_teams db)) of
        None \<Rightarrow> ([], [], [])
      | Some t \<Rightarrow> (te_Name t, te_ResourceID t, snd (agent_text db (te_LeaderAgentID t))))"

definition principal_text :: "chat_db \<Rightarrow> int option \<Rightarrow> string \<times> string" where
  "principal_text db user = (case Option.bind user (principal_row db) of None \<Rightarrow> ([], []) | Some p \<Rightarrow> p)"

definition scan_task :: "chat_db \<Rightarrow> task_row \<Rightarrow> (chat_error, task_info) result" where
  "scan_task db t =
     (let (agentResID, agentName) = agent_text db (tk_AgentID t);
          (userName, userHandle) = principal_text db (tk_UserID t);
          (teamName, teamResID, teamLeader) = team_text db (tk_TeamID t);
          ty = (case tk_Type t of None \<Rightarrow> 0 | Some ty \<Rightarrow> ty);
          ti = \<lparr>ti_TaskNumber = tk_Number t, ti_Status = tk_Status t, ti_AssigneeAgentID = tk_AgentID t,
            ti_AssigneeUserID = tk_UserID t, ti_AssigneeType = ty, ti_AssigneeName = [], ti_AssigneeResourceID = [],
            ti_AssigneeTeamID = [], ti_AssigneeTeamName = [], ti_AssigneeTeamLeader = []\<rparr> in
      if ty = 3 then
        Inr (ti\<lparr>ti_AssigneeTeamID := teamResID, ti_AssigneeTeamName := teamName, ti_AssigneeTeamLeader := teamLeader,
          ti_AssigneeName := teamName, ti_AssigneeResourceID := teamResID\<rparr>)
      else if ty = 2 then Inr (ti\<lparr>ti_AssigneeName := agentName, ti_AssigneeResourceID := agentResID\<rparr>)
      else if ty = 1 then Inr (ti\<lparr>ti_AssigneeName := userName, ti_AssigneeResourceID := userHandle\<rparr>)
      else if ty = 0 then
        (if tk_AgentID t \<noteq> None
         then Inr (ti\<lparr>ti_AssigneeType := 2, ti_AssigneeName := agentName, ti_AssigneeResourceID := agentResID\<rparr>)
         else Inr ti)
      else Inl IncorrectAssigneeType)"

definition task_of :: "uuid \<Rightarrow> chat_db \<Rightarrow> task_row option" where
  "task_of msgID db = find (\<lambda>t. tk_MessageID t = msgID) (cd_tasks db)"

definition fillTaskInfo ::
  "(string \<Rightarrow> bool) \<Rightarrow> chat_db \<Rightarrow> chat_message list \<Rightarrow> (chat_error, chat_message list) result" where
  "fillTaskInfo fails db msgs =
     (let roots = filter (\<lambda>m. msg_ThreadRoot m = None) msgs in
      if roots = [] then Inr msgs
      else if fails ''task info'' then Inl (ChatSql ''task info'')
      else
        (case scan_rows (\<lambda>t. case scan_task db t of Inl e \<Rightarrow> Inl e | Inr ti \<Rightarrow> Inr (tk_MessageID t, ti))
                (filter (\<lambda>t. tk_MessageID t \<in> set (map msg_ID roots)) (cd_tasks db)) of
           Inl e \<Rightarrow> Inl e
         | Inr infos \<Rightarrow>
             Inr (map (\<lambda>m. if msg_ThreadRoot m = None
                           then (case map_of infos (msg_ID m) of None \<Rightarrow> m | Some ti \<Rightarrow> m\<lparr>msg_TaskInfo := Some ti\<rparr>) else m) msgs)))"

definition conversation_query :: "uuid \<Rightarrow> int \<Rightarrow> int \<Rightarrow> nat \<Rightarrow> nat \<Rightarrow> chat_db \<Rightarrow> message_row list" where
  "conversation_query convID afterVersion beforeVersion limit offset db =
     (let roots = filter (\<lambda>r. mr_ConversationID r = convID \<and> mr_ThreadRoot r = None) (joined db) in
      limited limit offset
        (if afterVersion > 0 then asc mr_CreatedAt (filter (\<lambda>r. mr_RoomVersion r > afterVersion) roots)
         else if beforeVersion > 0 then desc mr_RoomVersion (filter (\<lambda>r. mr_RoomVersion r < beforeVersion) roots)
         else desc mr_CreatedAt roots))"

text \<open>The messages are read in \<open>db\<close>, the version of the conversation afterwards in \<open>db'\<close>.\<close>

definition ListConversationMessages ::
  "chat_env \<Rightarrow> (string \<Rightarrow> bool) \<Rightarrow> uuid \<Rightarrow> int \<Rightarrow> int \<Rightarrow> nat \<Rightarrow> nat \<Rightarrow> chat_db \<Rightarrow> chat_db \<Rightarrow>
     (chat_error, chat_message list \<times> int) result" where
  "ListConversationMessages env fails convID afterVersion beforeVersion limit offset db db' =
     (if afterVersion > 0 \<and> beforeVersion > 0 then Inl MutuallyExclusive
      else if fails ''list messages'' then Inl (ChatSql ''list messages'')
      else
        (case scan_rows (scanChatMessageRow env db) (conversation_query convID afterVersion beforeVersion limit offset db) of
           Inl e \<Rightarrow> Inl e
         | Inr rows \<Rightarrow>
             (let msgs = (if afterVersion = 0 then rev rows else rows) in
              case fillThreadReplyCounts fails db msgs of
                Inl e \<Rightarrow> Inl e
              | Inr msgs1 \<Rightarrow>
                  (case fillTaskInfo fails db msgs1 of
                     Inl e \<Rightarrow> Inl e
                   | Inr msgs2 \<Rightarrow>
                       (case GetConversationVersion fails convID db' of
                          Inl e \<Rightarrow> Inl e
                        | Inr currentVersion \<Rightarrow> Inr (msgs2, currentVersion))))))"

definition thread_query :: "uuid \<Rightarrow> int \<Rightarrow> int \<Rightarrow> nat \<Rightarrow> nat \<Rightarrow> chat_db \<Rightarrow> message_row list" where
  "thread_query rootID afterVersion beforeVersion limit offset db =
     (let replies = filter (\<lambda>r. mr_ThreadRoot r = Some rootID) (joined db) in
      limited limit offset
        (if afterVersion > 0 then asc mr_RoomVersion (filter (\<lambda>r. mr_RoomVersion r > afterVersion) replies)
         else if beforeVersion > 0 then desc mr_RoomVersion (filter (\<lambda>r. mr_RoomVersion r < beforeVersion) replies)
         else desc mr_CreatedAt replies))"

definition ListThreadMessages ::
  "chat_env \<Rightarrow> (string \<Rightarrow> bool) \<Rightarrow> uuid \<Rightarrow> uuid \<Rightarrow> int \<Rightarrow> int \<Rightarrow> nat \<Rightarrow> nat \<Rightarrow> chat_db \<Rightarrow> chat_db \<Rightarrow>
     (chat_error, chat_message list \<times> int) result" where
  "ListThreadMessages env fails convID rootID afterVersion beforeVersion limit offset db db' =
     (if afterVersion > 0 \<and> beforeVersion > 0 then Inl MutuallyExclusive
      else if fails ''thread root'' then Inl (ChatSql ''thread root'')
      else
        (case find (\<lambda>r. mr_ID r = rootID \<and> mr_ConversationID r = convID \<and> mr_ThreadRoot r = None) (joined db) of
           None \<Rightarrow> Inl (ChatNoRows ''thread root'')
         | Some rootRow \<Rightarrow>
             (case scanChatMessageRow env db rootRow of
                Inl e \<Rightarrow> Inl e
              | Inr root \<Rightarrow>
                  if fails ''list thread'' then Inl (ChatSql ''list thread'')
                  else
                    (case scan_rows (scanChatMessageRow env db) (thread_query rootID afterVersion beforeVersion limit offset db) of
                       Inl e \<Rightarrow> Inl e
                     | Inr rows \<Rightarrow>
                         (let replies = (if afterVersion = 0 then rev rows else rows) in
                          case GetConversationVersion fails convID db' of
                            Inl e \<Rightarrow> Inl e
                          | Inr currentVersion \<Rightarrow>
                              (case fillThreadReplyCounts fails db [root] of
                                 Inl e \<Rightarrow> Inl e
                               | Inr roots1 \<Rightarrow>
                                   (case fillTaskInfo fails db roots1 of
                                      Inl e \<Rightarrow> Inl e
                                    | Inr roots2 \<Rightarrow> Inr (roots2 @ replies, currentVersion))))))))"


definition MessageExistsInConversation :: "(string \<Rightarrow> bool) \<Rightarrow> uuid \<Rightarrow> uuid \<Rightarrow> chat_db \<Rightarrow> (chat_error, bool) result" where
  "MessageExistsInConversation fails convID messageID db =
     (if fails ''message exists'' then Inl (ChatSql ''message exists'')
      else Inr (list_ex (\<lambda>r. mr_ID r = messageID \<and> mr_ConversationID r = convID) (cd_messages db)))"

definition IsThreadRoot :: "(string \<Rightarrow> bool) \<Rightarrow> uuid \<Rightarrow> uuid \<Rightarrow> chat_db \<Rightarrow> (chat_error, bool) result" where
  "IsThreadRoot fails convID rootID db =
     (if fails ''is root'' then Inl (ChatSql ''is root'')
      else Inr (list_ex (\<lambda>r. mr_ID r = rootID \<and> mr_ConversationID r = convID \<and> mr_ThreadRoot r = None) (cd_messages db)))"

definition GetThreadRootMessages ::
  "chat_env \<Rightarrow> (string \<Rightarrow> bool) \<Rightarrow> uuid list \<Rightarrow> chat_db \<Rightarrow> (chat_error, uuid \<Rightarrow> chat_message option) result" where
  "GetThreadRootMessages env fails rootIDs db =
     (if rootIDs = [] then Inr Map.empty
      else if fails ''root messages'' then Inl (ChatSql ''root messages'')
      else
        (case scan_rows (scanChatMessageRow env db)
                (filter (\<lambda>r. mr_ID r \<in> set rootIDs \<and> mr_ThreadRoot r = None) (joined db)) of
           Inl e \<Rightarrow> Inl e
         | Inr msgs \<Rightarrow> Inr (map_of (rev (map (\<lambda>m. (msg_ID m, m)) msgs)))))"

definition GetThreadRootSender :: "(string \<Rightarrow> bool) \<Rightarrow> uuid \<Rightarrow> chat_db \<Rightarrow> (chat_error, int \<times> int option) result" where
  "GetThreadRootSender fails rootID db =
     (if fails ''root sender'' then Inl (ChatSql ''root sender'')
      else case find (\<lambda>r. mr_ID r = rootID) (cd_messages db) of
        None \<Rightarrow> Inl (ChatNoRows ''root sender'') | Some r \<Rightarrow> Inr (mr_SenderType r, mr_SenderAgentID r))"

definition GetRecentChatMessages ::
  "chat_env \<Rightarrow> (string \<Rightarrow> bool) \<Rightarrow> uuid \<Rightarrow> nat \<Rightarrow> chat_db \<Rightarrow> (chat_error, chat_message list) result" where
  "GetRecentChatMessages env fails convID limit db =
     (if fails ''recent'' then Inl (ChatSql ''recent'')
      else scan_rows (scanChatMessageRow env db)
        (take limit (desc mr_CreatedAt (filter (\<lambda>r. mr_ConversationID r = convID) (joined db)))))"

text \<open>The query selects fourteen columns, the scan expects seventeen: a scan of any row fails.\<close>

definition GetMessagesAfterVersion ::
  "(string \<Rightarrow> bool) \<Rightarrow> uuid \<Rightarrow> int \<Rightarrow> chat_db \<Rightarrow> (chat_error, chat_message list) result" where
  "GetMessagesAfterVersion fails convID afterVersion db =
     (if fails ''messages after'' then Inl (ChatSql ''messages after'')
      else
        (case asc mr_RoomVersion (filter (\<lambda>r. mr_ConversationID r = convID \<and> mr_RoomVersion r > afterVersion) (joined db)) of
           [] \<Rightarrow> Inr []
         | _ # _ \<Rightarrow> Inl ChatScan))"

definition RootMessageKinds :: "(string \<Rightarrow> bool) \<Rightarrow> uuid \<Rightarrow> chat_db \<Rightarrow> (chat_error, bool \<times> bool) result" where
  "RootMessageKinds fails rootID db =
     (if fails ''root kinds'' then Inl (ChatSql ''root kinds'') else Inr (task_of rootID db \<noteq> None, rootID \<in> set (cd_reminders db)))"

section \<open>Cursors\<close>

definition raise_cursor :: "int \<times> uuid \<Rightarrow> int \<Rightarrow> (int \<times> uuid \<Rightarrow> int option) \<Rightarrow> int \<times> (int \<times> uuid \<Rightarrow> int option)" where
  "raise_cursor key v cursors =
     (let v' = (case cursors key of None \<Rightarrow> v | Some old \<Rightarrow> max old v) in (v', cursors(key \<mapsto> v')))"

definition UpsertUserReadCursor :: "(string \<Rightarrow> bool) \<Rightarrow> int \<Rightarrow> uuid \<Rightarrow> int \<Rightarrow> chat_db \<Rightarrow> (chat_error, int) result \<times> chat_db" where
  "UpsertUserReadCursor fails principalID convID readVersion db =
     (if fails ''user cursor'' then (Inl (ChatSql ''user cursor''), db)
      else case raise_cursor (principalID, convID) readVersion (cd_user_cursors db) of (v, cs) \<Rightarrow> (Inr v, db\<lparr>cd_user_cursors := cs\<rparr>))"

definition GetUserReadCursor :: "(string \<Rightarrow> bool) \<Rightarrow> int \<Rightarrow> uuid \<Rightarrow> chat_db \<Rightarrow> (chat_error, int \<times> bool) result" where
  "GetUserReadCursor fails principalID convID db =
     (if fails ''get user cursor'' then Inl (ChatSql ''get user cursor'')
      else Inr (case cd_user_cursors db (principalID, convID) of None \<Rightarrow> (0, False) | Some v \<Rightarrow> (v, True)))"

definition UpsertCursor :: "(string \<Rightarrow> bool) \<Rightarrow> int \<Rightarrow> uuid \<Rightarrow> int \<Rightarrow> chat_db \<Rightarrow> (chat_error, int) result \<times> chat_db" where
  "UpsertCursor fails agentID convID processedVersion db =
     (if fails ''agent cursor'' then (Inl (ChatSql ''agent cursor''), db)
      else case raise_cursor (agentID, convID) processedVersion (cd_agent_cursors db) of (v, cs) \<Rightarrow> (Inr v, db\<lparr>cd_agent_cursors := cs\<rparr>))"

definition GetCursor :: "(string \<Rightarrow> bool) \<Rightarrow> int \<Rightarrow> uuid \<Rightarrow> chat_db \<Rightarrow> (chat_error, int \<times> bool) result" where
  "GetCursor fails agentID convID db =
     (if fails ''get agent cursor'' then Inl (ChatSql ''get agent cursor'')
      else Inr (case cd_agent_cursors db (agentID, convID) of None \<Rightarrow> (0, False) | Some v \<Rightarrow> (v, True)))"

text \<open>The version is read in \<open>db0\<close>, the cursor is written in \<open>db\<close>.\<close>

definition SeedUserReadCursorOnJoin :: "(string \<Rightarrow> bool) \<Rightarrow> int \<Rightarrow> uuid \<Rightarrow> chat_db \<Rightarrow> chat_db \<Rightarrow> chat_error option \<times> chat_db" where
  "SeedUserReadCursorOnJoin fails principalID convID db0 db =
     (case GetConversationVersion fails convID db0 of
        Inl e \<Rightarrow> (Some e, db)
      | Inr v \<Rightarrow> (case UpsertUserReadCursor fails principalID convID v db of (Inl e, db') \<Rightarrow> (Some e, db') | (Inr _, db') \<Rightarrow> (None, db')))"

definition SeedCursorOnJoin :: "(string \<Rightarrow> bool) \<Rightarrow> int \<Rightarrow> uuid \<Rightarrow> chat_db \<Rightarrow> chat_db \<Rightarrow> chat_error option \<times> chat_db" where
  "SeedCursorOnJoin fails agentID convID db0 db =
     (case GetConversationVersion fails convID db0 of
        Inl e \<Rightarrow> (Some e, db)
      | Inr v \<Rightarrow> (case UpsertCursor fails agentID convID v db of (Inl e, db') \<Rightarrow> (Some e, db') | (Inr _, db') \<Rightarrow> (None, db')))"

record channel_update =
  cu_ConversationID :: uuid
  cu_CurrentVersion :: int
  cu_ProcessedVersion :: int
  cu_NewMessageCount :: int

definition agentRelevantMessageCondition :: "chat_db \<Rightarrow> int \<Rightarrow> message_row \<Rightarrow> bool" where
  "agentRelevantMessageCondition db agentID m \<longleftrightarrow>
     (case mr_ThreadRoot m of None \<Rightarrow> True | Some root \<Rightarrow> (root, agentID) \<in> set (cd_thread_agents db)) \<and> mr_SenderType m \<noteq> 3"

definition processed_of :: "chat_db \<Rightarrow> int \<Rightarrow> room_row \<Rightarrow> int" where
  "processed_of db agentID c = (case cd_agent_cursors db (agentID, ro_ID c) of None \<Rightarrow> ro_Version c | Some v \<Rightarrow> v)"

definition agent_member :: "chat_db \<Rightarrow> int \<Rightarrow> uuid \<Rightarrow> bool" where
  "agent_member db agentID convID =
     (case agent_row db agentID of
        None \<Rightarrow> False
      | Some (resourceID, _) \<Rightarrow> list_ex (\<lambda>m. meta_key m = (convID, MemberTypeAgent, resourceID)) (cd_meta db))"

definition new_for :: "chat_db \<Rightarrow> int \<Rightarrow> room_row \<Rightarrow> message_row list" where
  "new_for db agentID c =
     filter (\<lambda>m. mr_ConversationID m = ro_ID c \<and> mr_RoomVersion m > processed_of db agentID c \<and>
       agentRelevantMessageCondition db agentID m) (cd_messages db)"

definition ListChannelsWithUpdates :: "(string \<Rightarrow> bool) \<Rightarrow> int \<Rightarrow> chat_db \<Rightarrow> (chat_error, channel_update list) result" where
  "ListChannelsWithUpdates fails agentID db =
     (if fails ''list updates'' then Inl (ChatSql ''list updates'')
      else Inr (map (\<lambda>c. \<lparr>cu_ConversationID = ro_ID c, cu_CurrentVersion = ro_Version c, cu_ProcessedVersion = processed_of db agentID c,
             cu_NewMessageCount = int (length (new_for db agentID c))\<rparr>)
           (desc ro_UpdatedAt (filter (\<lambda>c. agent_member db agentID (ro_ID c) \<and> ro_Version c > processed_of db agentID c \<and>
              new_for db agentID c \<noteq> []) (cd_rooms db)))))"

definition HasUpdates :: "(string \<Rightarrow> bool) \<Rightarrow> int \<Rightarrow> chat_db \<Rightarrow> (chat_error, bool) result" where
  "HasUpdates fails agentID db =
     (if fails ''has updates'' then Inl (ChatSql ''has updates'')
      else Inr (list_ex (\<lambda>c. agent_member db agentID (ro_ID c) \<and> ro_Version c > processed_of db agentID c \<and>
        list_ex (\<lambda>m. mr_ConversationID m = ro_ID c \<and> mr_RoomVersion m > processed_of db agentID c \<and>
          agentRelevantMessageCondition db agentID m) (cd_messages db)) (cd_rooms db)))"

section \<open>Threads\<close>

definition subscribe_all :: "uuid \<Rightarrow> int list \<Rightarrow> (uuid \<times> int) list \<Rightarrow> (uuid \<times> int) list" where
  "subscribe_all rootID ids subs = fold (\<lambda>i subs. if (rootID, i) \<in> set subs then subs else subs @ [(rootID, i)]) ids subs"

definition AddThreadParticipants :: "(string \<Rightarrow> bool) \<Rightarrow> uuid \<Rightarrow> int list \<Rightarrow> chat_db \<Rightarrow> chat_error option \<times> chat_db" where
  "AddThreadParticipants fails rootID agentIDs db =
     (if agentIDs = [] then (None, db)
      else if fails ''subscribe agents'' then (Some (ChatSql ''subscribe agents''), db)
      else (None, db\<lparr>cd_thread_agents := subscribe_all rootID agentIDs (cd_thread_agents db)\<rparr>))"

definition ListThreadParticipantAgents :: "(string \<Rightarrow> bool) \<Rightarrow> uuid \<Rightarrow> chat_db \<Rightarrow> (chat_error, int list) result" where
  "ListThreadParticipantAgents fails rootID db =
     (if fails ''thread agents'' then Inl (ChatSql ''thread agents'')
      else Inr (map snd (filter (\<lambda>(root, _). root = rootID) (cd_thread_agents db))))"

definition IsThreadParticipant :: "(string \<Rightarrow> bool) \<Rightarrow> uuid \<Rightarrow> int \<Rightarrow> chat_db \<Rightarrow> (chat_error, bool) result" where
  "IsThreadParticipant fails rootID agentID db =
     (if fails ''is participant'' then Inl (ChatSql ''is participant'') else Inr ((rootID, agentID) \<in> set (cd_thread_agents db)))"

definition AddUserThreadParticipants :: "(string \<Rightarrow> bool) \<Rightarrow> uuid \<Rightarrow> int list \<Rightarrow> chat_db \<Rightarrow> chat_error option \<times> chat_db" where
  "AddUserThreadParticipants fails rootID principalIDs db =
     (if principalIDs = [] then (None, db)
      else if fails ''subscribe users'' then (Some (ChatSql ''subscribe users''), db)
      else (None, db\<lparr>cd_thread_users := subscribe_all rootID principalIDs (cd_thread_users db)\<rparr>))"

definition ListUserThreadParticipants :: "(string \<Rightarrow> bool) \<Rightarrow> uuid \<Rightarrow> chat_db \<Rightarrow> (chat_error, int list) result" where
  "ListUserThreadParticipants fails rootID db =
     (if fails ''thread users'' then Inl (ChatSql ''thread users'')
      else Inr (map snd (filter (\<lambda>(root, _). root = rootID) (cd_thread_users db))))"

record thread_update =
  tu_ConversationID :: uuid
  tu_RootMessageID :: uuid
  tu_LatestVersion :: int
  tu_NewReplyCount :: int

definition max_version :: "message_row list \<Rightarrow> int" where
  "max_version rows = foldr (\<lambda>r v. max (mr_RoomVersion r) v) rows 0"

definition new_replies :: "chat_db \<Rightarrow> int \<Rightarrow> message_row \<Rightarrow> message_row list" where
  "new_replies db agentID root =
     (case room_of (mr_ConversationID root) db of
        None \<Rightarrow> []
      | Some c \<Rightarrow> filter (\<lambda>m. mr_ThreadRoot m = Some (mr_ID root) \<and> mr_RoomVersion m > processed_of db agentID c) (cd_messages db))"

definition ListSubscribedThreadUpdates :: "(string \<Rightarrow> bool) \<Rightarrow> int \<Rightarrow> chat_db \<Rightarrow> (chat_error, thread_update list) result" where
  "ListSubscribedThreadUpdates fails agentID db =
     (if fails ''thread updates'' then Inl (ChatSql ''thread updates'')
      else Inr (desc tu_LatestVersion (map (\<lambda>r. \<lparr>tu_ConversationID = mr_ConversationID r, tu_RootMessageID = mr_ID r,
             tu_LatestVersion = max_version (new_replies db agentID r),
             tu_NewReplyCount = int (length (new_replies db agentID r))\<rparr>)
           (filter (\<lambda>r. (mr_ID r, agentID) \<in> set (cd_thread_agents db) \<and> agent_member db agentID (mr_ConversationID r) \<and>
              new_replies db agentID r \<noteq> []) (cd_messages db)))))"

record channel_thread =
  ct_RootMessageID :: uuid
  ct_ReplyCount :: int
  ct_LatestVersion :: int
  ct_LatestAt :: int
  ct_NewReplyCount :: int
  ct_RecentReplies :: "chat_message list"

definition thread_replies :: "uuid \<Rightarrow> chat_db \<Rightarrow> message_row list" where
  "thread_replies convID db = filter (\<lambda>r. mr_ConversationID r = convID \<and> mr_ThreadRoot r \<noteq> None) (cd_messages db)"

definition replies_to :: "uuid \<Rightarrow> message_row list \<Rightarrow> message_row list" where
  "replies_to root rows = filter (\<lambda>r. mr_ThreadRoot r = Some root) rows"

definition channelThreadPreviewReplies :: nat where "channelThreadPreviewReplies = 3"

definition listChannelThreadPreviews ::
  "chat_env \<Rightarrow> (string \<Rightarrow> bool) \<Rightarrow> uuid \<Rightarrow> chat_db \<Rightarrow> (chat_error, chat_message list) result" where
  "listChannelThreadPreviews env fails convID db =
     (if fails ''thread previews'' then Inl (ChatSql ''thread previews'')
      else
        (let rows = thread_replies convID db;
             recent = (\<lambda>root. take channelThreadPreviewReplies (desc mr_RoomVersion (replies_to root rows))) in
         scan_rows (scanChatMessageRow env db)
           (filter (\<lambda>r. principal_row db (mr_PrincipalID r) \<noteq> None)
             (concat (map (\<lambda>root. asc mr_RoomVersion (recent root)) (sort (remdups (List.map_filter mr_ThreadRoot rows))))))))"

definition listChannelThreadNewCounts ::
  "chat_env \<Rightarrow> (string \<Rightarrow> bool) \<Rightarrow> uuid \<Rightarrow> int \<Rightarrow> string \<Rightarrow> chat_db \<Rightarrow> (chat_error, uuid \<Rightarrow> int option) result" where
  "listChannelThreadNewCounts env fails convID readVersion userHandle db =
     (if fails ''new counts'' then Inl (ChatSql ''new counts'')
      else
        (case ce_int4 env userHandle of
           None \<Rightarrow> Inl (ChatSql ''new counts'')
         | Some principal_param \<Rightarrow>
             (let rows = filter (\<lambda>r. mr_RoomVersion r > readVersion \<and>
                    \<not> (mr_SenderType r = 1 \<and> mr_PrincipalID r = principal_param)) (thread_replies convID db) in
              Inr (\<lambda>root. if replies_to root rows = [] then None else Some (int (length (replies_to root rows)))))))"

definition ListChannelThreads ::
  "chat_env \<Rightarrow> (string \<Rightarrow> bool) \<Rightarrow> uuid \<Rightarrow> int \<Rightarrow> string \<Rightarrow> chat_db \<Rightarrow> (chat_error, channel_thread list) result" where
  "ListChannelThreads env fails convID userPrincipalID userHandle db =
     (if fails ''channel threads'' then Inl (ChatSql ''channel threads'')
      else
        (let rows = thread_replies convID db;
             newCounts = (if userPrincipalID > 0 then
                 (case GetUserReadCursor fails userPrincipalID convID db of
                    Inr (readVersion, True) \<Rightarrow>
                      (case listChannelThreadNewCounts env fails convID readVersion userHandle db of Inl _ \<Rightarrow> Map.empty | Inr counts \<Rightarrow> counts)
                  | _ \<Rightarrow> Map.empty)
               else Map.empty);
             previews = (case listChannelThreadPreviews env fails convID db of Inl _ \<Rightarrow> [] | Inr msgs \<Rightarrow> msgs) in
         Inr (map (\<lambda>root. \<lparr>ct_RootMessageID = root, ct_ReplyCount = int (length (replies_to root rows)),
                ct_LatestVersion = max_version (replies_to root rows),
                ct_LatestAt = foldr (\<lambda>r v. max (mr_CreatedAt r) v) (replies_to root rows) 0,
                ct_NewReplyCount = (case newCounts root of None \<Rightarrow> 0 | Some n \<Rightarrow> n),
                ct_RecentReplies = filter (\<lambda>m. msg_ThreadRoot m = Some root) previews\<rparr>)
           (desc (\<lambda>root. max_version (replies_to root rows)) (remdups (List.map_filter mr_ThreadRoot rows))))))"


section \<open>Numbering\<close>

text \<open>A counter that numbers what is appended to a log: the contract of room versions and of task numbers. A step may append one
  entry under the next value of the counter, or leave the log alone.\<close>

locale numbering =
  fixes issued :: "'s \<Rightarrow> int list" and counter :: "'s \<Rightarrow> int" and step :: "'s \<Rightarrow> 's \<Rightarrow> bool"
  assumes step_numbers: "step s s' \<Longrightarrow> issued s' = issued s \<and> counter s \<le> counter s' \<or>
    issued s' = issued s @ [counter s'] \<and> counter s < counter s'"
begin

lemma numbered_once:
  assumes "step\<^sup>*\<^sup>* s s'" "sorted_wrt (<) (issued s)" "\<forall>n \<in> set (issued s). n \<le> counter s"
  shows "sorted_wrt (<) (issued s') \<and> (\<forall>n \<in> set (issued s'). n \<le> counter s') \<and> prefix (issued s) (issued s') \<and> counter s \<le> counter s'"
  using assms
proof (induction rule: rtranclp_induct)
  case (step y z)
  then have y: "sorted_wrt (<) (issued y)" "\<forall>n \<in> set (issued y). n \<le> counter y" "prefix (issued s) (issued y)" "counter s \<le> counter y"
    by auto
  from step_numbers [OF step.hyps(2)] show ?case
  proof
    assume "issued z = issued y \<and> counter y \<le> counter z"
    with y show ?thesis by force
  next
    assume "issued z = issued y @ [counter z] \<and> counter y < counter z"
    with y show ?thesis by (force simp: sorted_wrt_append)
  qed
qed simp

end

text \<open>The stricter contract of a counter that moves only with the log.\<close>

locale gapless =
  fixes issued :: "'s \<Rightarrow> int list" and counter :: "'s \<Rightarrow> int" and step :: "'s \<Rightarrow> 's \<Rightarrow> bool"
  assumes step_gapless: "step s s' \<Longrightarrow> issued s' = issued s \<and> counter s' = counter s \<or>
    issued s' = issued s @ [counter s'] \<and> counter s' = counter s + 1"

sublocale gapless \<subseteq> numbering issued counter step
proof
  show "issued s' = issued s \<and> counter s \<le> counter s' \<or> issued s' = issued s @ [counter s'] \<and> counter s < counter s'"
    if "step s s'" for s s' using step_gapless [OF that] by linarith
qed

context gapless
begin

lemma numbers_have_no_gap:
  assumes "step\<^sup>*\<^sup>* s s'" "issued s = [1..counter s]" "0 \<le> counter s"
  shows "issued s' = [1..counter s'] \<and> 0 \<le> counter s'"
  using assms
proof (induction rule: rtranclp_induct)
  case (step y z)
  then have y: "issued y = [1..counter y]" "0 \<le> counter y" by auto
  from step_gapless [OF step.hyps(2)] show ?case
  proof
    assume z: "issued z = issued y @ [counter z] \<and> counter z = counter y + 1"
    have "[1..counter y + 1] = [1..counter y] @ [counter y + 1]" using y(2) upto_rec2 [of 1 "counter y + 1"] by simp
    with y z show ?thesis by auto
  qed (use y in auto)
qed simp

end

definition issued_versions :: "uuid \<Rightarrow> chat_db \<Rightarrow> int list" where
  "issued_versions convID db = map mr_RoomVersion (filter (\<lambda>r. mr_ConversationID r = convID) (cd_messages db))"

definition room_version :: "uuid \<Rightarrow> chat_db \<Rightarrow> int" where
  "room_version convID db = (case room_of convID db of None \<Rightarrow> 0 | Some r \<Rightarrow> ro_Version r)"

definition issued_tasks :: "uuid \<Rightarrow> chat_db \<Rightarrow> int list" where
  "issued_tasks convID db = map tk_Number (filter (\<lambda>t. tk_ConversationID t = convID) (cd_tasks db))"

definition last_task :: "uuid \<Rightarrow> chat_db \<Rightarrow> int" where
  "last_task convID db = (case room_of convID db of None \<Rightarrow> 0 | Some r \<Rightarrow> ro_NextTaskNumber r - 1)"

lemmas numbering_defs = issued_versions_def room_version_def issued_tasks_def last_task_def room_of_def

lemma room_of_map_rooms:
  assumes "\<And>r. ro_ID (f r) = ro_ID r"
  shows "room_of convID (map_rooms f convID' db) = (if convID = convID' then map_option f (room_of convID db) else room_of convID db)"
proof -
  have "find (\<lambda>r. ro_ID r = convID) (map (\<lambda>r. if ro_ID r = convID' then f r else r) rows) =
      (if convID = convID' then map_option f (find (\<lambda>r. ro_ID r = convID) rows) else find (\<lambda>r. ro_ID r = convID) rows)" for rows
    by (induction rows) (auto simp: assms)
  then show ?thesis by (simp add: room_of_def map_rooms_def)
qed

lemma bump_version_simps [simp]:
  "ro_ID (bump_version now r) = ro_ID r" "ro_Version (bump_version now r) = ro_Version r + 1"
  "ro_NextTaskNumber (bump_version now r) = ro_NextTaskNumber r"
  by (simp_all add: bump_version_def)

lemma map_rooms_simps [simp]:
  "cd_messages (map_rooms f c db) = cd_messages db" "cd_tasks (map_rooms f c db) = cd_tasks db"
  "cd_agent_cursors (map_rooms f c db) = cd_agent_cursors db" "cd_thread_agents (map_rooms f c db) = cd_thread_agents db"
  "cd_agents (map_rooms f c db) = cd_agents db" "cd_meta (map_rooms f c db) = cd_meta db"
  "cd_team_members (map_rooms f c db) = cd_team_members db" "cd_notified (map_rooms f c db) = cd_notified db"
  by (simp_all add: map_rooms_def)

lemma insert_message_effect:
  assumes "insert_message env fails newID now msg v db = Inr db'"
  shows "\<exists>row. db' = db\<lparr>cd_messages := cd_messages db @ [row]\<rparr> \<and> mr_ID row = newID \<and> mr_ConversationID row = msg_ConversationID msg \<and>
    mr_RoomVersion row = v \<and> mr_ThreadRoot row = msg_ThreadRoot msg \<and> mr_SenderType row = msg_SenderType msg \<and> mr_CreatedAt row = now \<and>
    mr_PrincipalID row = msg_PrincipalID msg \<and> references_ok db msg"
  using assms by (auto simp: insert_message_def message_row_of_def split: sum.splits if_splits)

lemma createInTx_effect:
  assumes "createChatMessageInTx env fails newID now msg v db = Inr db'"
  shows "\<exists>row. cd_messages db' = cd_messages db @ [row] \<and> mr_ID row = newID \<and> mr_ConversationID row = msg_ConversationID msg \<and>
    mr_RoomVersion row = v \<and> mr_ThreadRoot row = msg_ThreadRoot msg \<and> mr_SenderType row = msg_SenderType msg \<and> mr_CreatedAt row = now \<and>
    mr_PrincipalID row = msg_PrincipalID msg \<and>
    db' = db\<lparr>cd_messages := cd_messages db @ [row],
      cd_meta := cd_meta (if msg_ThreadRoot msg = None then clear_closed (msg_ConversationID msg) db else db)\<rparr> \<and> references_ok db msg"
proof -
  obtain db1 where i: "insert_message env fails newID now msg v db = Inr db1"
    and d: "db' = (if msg_ThreadRoot msg = None then clear_closed (msg_ConversationID msg) db1 else db1)"
    using assms by (auto simp: createChatMessageInTx_def split: sum.splits if_splits)
  from insert_message_effect [OF i] d show ?thesis by (auto simp: clear_closed_def)
qed

text \<open>What a posted message does: the conversation moves to the next version, the message carries it.\<close>

lemma post_effect:
  assumes "CreateChatMessageBumpVersion env fails newID now msg db = (r, db')"
  shows "case r of
      Inl _ \<Rightarrow> db' = db
    | Inr (m, v) \<Rightarrow> \<exists>row room. room_of (msg_ConversationID msg) db = Some room \<and> v = ro_Version room + 1 \<and>
        m = created_message newID now v None msg \<and>
        mr_ID row = newID \<and> mr_ConversationID row = msg_ConversationID msg \<and> mr_RoomVersion row = v \<and>
        mr_ThreadRoot row = msg_ThreadRoot msg \<and> mr_SenderType row = msg_SenderType msg \<and> mr_CreatedAt row = now \<and>
        principal_row db (mr_PrincipalID row) \<noteq> None \<and>
        db' = (map_rooms (bump_version now) (msg_ConversationID msg) db)\<lparr>cd_messages := cd_messages db @ [row],
          cd_meta := cd_meta (if msg_ThreadRoot msg = None then clear_closed (msg_ConversationID msg) db else db),
          cd_notified := cd_notified db @ [msg_ConversationID msg]\<rparr>"
proof (cases r)
  case (Inl e)
  then show ?thesis
    using assms by (auto simp: CreateChatMessageBumpVersion_def Let_def split: if_splits option.splits sum.splits)
next
  case (Inr mv)
  then obtain room db1 where room: "room_of (msg_ConversationID msg) db = Some room"
    and c: "createChatMessageInTx env fails newID now msg (ro_Version room + 1) (map_rooms (bump_version now) (msg_ConversationID msg) db) = Inr db1"
    and d: "db' = notify_room (msg_ConversationID msg) db1" "mv = (created_message newID now (ro_Version room + 1) None msg, ro_Version room + 1)"
    using assms by (auto simp: CreateChatMessageBumpVersion_def Let_def split: if_splits option.splits sum.splits)
  from createInTx_effect [OF c] room d Inr show ?thesis
    by (auto simp: notify_room_def clear_closed_def references_ok_def principal_row_def map_rooms_def)
qed

lemma post_numbers:
  assumes "CreateChatMessageBumpVersion env fails newID now msg db = (r, db')"
  shows "(issued_versions convID db' = issued_versions convID db \<and> room_version convID db' = room_version convID db \<or>
      issued_versions convID db' = issued_versions convID db @ [room_version convID db'] \<and> room_version convID db' = room_version convID db + 1) \<and>
    issued_tasks convID db' = issued_tasks convID db \<and> last_task convID db' = last_task convID db"
proof (cases r)
  case (Inl e)
  then show ?thesis using post_effect [OF assms] by simp
next
  case (Inr mv)
  then obtain row room where room: "room_of (msg_ConversationID msg) db = Some room"
    and row: "mr_ConversationID row = msg_ConversationID msg" "mr_RoomVersion row = ro_Version room + 1"
    and d: "cd_messages db' = cd_messages db @ [row]" "cd_tasks db' = cd_tasks db"
      "cd_rooms db' = cd_rooms (map_rooms (bump_version now) (msg_ConversationID msg) db)"
    using post_effect [OF assms] by (auto split: prod.splits)
  have r: "room_of convID db' = (if convID = msg_ConversationID msg then map_option (bump_version now) (room_of convID db) else room_of convID db)"
    using room_of_map_rooms [of "bump_version now" convID "msg_ConversationID msg" db] d(3) by (simp add: room_of_def)
  show ?thesis
    using room row d r by (cases "convID = msg_ConversationID msg") (auto simp: issued_versions_def room_version_def issued_tasks_def last_task_def split: option.split)
qed


section \<open>Reads\<close>

lemma scan_rows_ok:
  assumes "\<forall>r \<in> set rows. \<exists>m. scan r = Inr m"
  shows "\<exists>ms. scan_rows scan rows = Inr ms \<and> list_all2 (\<lambda>r m. scan r = Inr m) rows ms"
  using assms by (induction rows) auto

lemma scan_rows_map:
  assumes "scan_rows scan rows = Inr ms" "\<And>r m. scan r = Inr m \<Longrightarrow> g m = f r"
  shows "map g ms = map f rows"
  using assms(1) by (induction rows arbitrary: ms) (auto split: sum.splits simp: assms(2))

lemma scan_message_fields:
  assumes "scanChatMessageRow env db r = Inr m"
  shows "msg_ID m = mr_ID r" "msg_RoomVersion m = mr_RoomVersion r" "msg_ThreadRoot m = mr_ThreadRoot r"
    "msg_ConversationID m = mr_ConversationID r" "msg_TaskInfo m = None"
  using assms by (auto simp: scanChatMessageRow_def split: option.splits prod.splits)

text \<open>The rows of a message table that the reads can scan.\<close>

definition rows_ok :: "chat_env \<Rightarrow> chat_db \<Rightarrow> bool" where
  "rows_ok env db \<longleftrightarrow> (\<forall>r \<in> set (cd_messages db). \<exists>m. scanChatMessageRow env db r = Inr m) \<and>
     (\<forall>t \<in> set (cd_tasks db). \<exists>ti. scan_task db t = Inr ti) \<and>
     (\<forall>r \<in> set (cd_messages db). principal_row db (mr_PrincipalID r) \<noteq> None)"

lemma fill_replies_ok:
  "\<exists>ms'. fillThreadReplyCounts no_fail db ms = Inr ms' \<and> map msg_ID ms' = map msg_ID ms \<and>
     map msg_RoomVersion ms' = map msg_RoomVersion ms \<and> map msg_ThreadRoot ms' = map msg_ThreadRoot ms \<and>
     map msg_ConversationID ms' = map msg_ConversationID ms"
  by (auto simp: fillThreadReplyCounts_def comp_def)

lemma fill_tasks_ok:
  assumes "\<forall>t \<in> set (cd_tasks db). \<exists>ti. scan_task db t = Inr ti"
  shows "\<exists>ms'. fillTaskInfo no_fail db ms = Inr ms' \<and> map msg_ID ms' = map msg_ID ms \<and>
     map msg_RoomVersion ms' = map msg_RoomVersion ms \<and> map msg_ThreadRoot ms' = map msg_ThreadRoot ms \<and>
     map msg_ConversationID ms' = map msg_ConversationID ms"
proof -
  let ?scan = "\<lambda>t. case scan_task db t of Inl e \<Rightarrow> Inl e | Inr ti \<Rightarrow> Inr (tk_MessageID t, ti)"
  let ?rows = "filter (\<lambda>t. tk_MessageID t \<in> set (map msg_ID (filter (\<lambda>m. msg_ThreadRoot m = None) ms))) (cd_tasks db)"
  have "\<forall>t \<in> set ?rows. \<exists>x. ?scan t = Inr x" using assms by fastforce
  then obtain infos where i: "scan_rows ?scan ?rows = Inr infos" using scan_rows_ok [of ?rows ?scan] by blast
  show ?thesis unfolding fillTaskInfo_def Let_def i by (auto split: option.split)
qed

lemma joined_ok: "rows_ok env db \<Longrightarrow> joined db = cd_messages db"
  by (auto simp: joined_def rows_ok_def filter_id_conv)

lemma order_sets [simp]: "set (asc key rows) = set rows" "set (desc key rows) = set rows"
  by (simp_all add: asc_def desc_def)

lemma limited_subset: "set (limited l off rows) \<subseteq> set rows"
  by (metis limited_def set_drop_subset set_take_subset subset_trans)

lemma joined_subset: "set (joined db) \<subseteq> set (cd_messages db)"
  by (auto simp: joined_def)

lemma conversation_query_subset: "set (conversation_query c a b l off db) \<subseteq> set (cd_messages db)"
  unfolding conversation_query_def Let_def by (rule order_trans [OF limited_subset]) (use joined_subset in auto)

lemma thread_query_subset: "set (thread_query c a b l off db) \<subseteq> set (cd_messages db)"
  unfolding thread_query_def Let_def by (rule order_trans [OF limited_subset]) (use joined_subset in auto)

text \<open>A read of a conversation is its query, in chronological order.\<close>

lemma conversation_read_exact:
  assumes "rows_ok env db" "room_of convID db' = Some room" "a \<le> 0 \<or> b \<le> 0"
  shows "\<exists>ms. ListConversationMessages env no_fail convID a b limit offset db db' = Inr (ms, ro_Version room) \<and>
    map msg_ID ms = (if a = 0 then rev else id) (map mr_ID (conversation_query convID a b limit offset db)) \<and>
    map msg_RoomVersion ms = (if a = 0 then rev else id) (map mr_RoomVersion (conversation_query convID a b limit offset db))"
proof -
  let ?q = "conversation_query convID a b limit offset db"
  have "\<forall>r \<in> set ?q. \<exists>m. scanChatMessageRow env db r = Inr m" using assms(1) conversation_query_subset unfolding rows_ok_def by blast
  then obtain ms where s: "scan_rows (scanChatMessageRow env db) ?q = Inr ms" using scan_rows_ok by blast
  have ms: "map msg_ID ms = map mr_ID ?q" "map msg_RoomVersion ms = map mr_RoomVersion ?q"
    using scan_rows_map [OF s] scan_message_fields by metis+
  let ?ms = "if a = 0 then rev ms else ms"
  obtain ms1 where m1: "fillThreadReplyCounts no_fail db ?ms = Inr ms1" "map msg_ID ms1 = map msg_ID ?ms" "map msg_RoomVersion ms1 = map msg_RoomVersion ?ms"
    using fill_replies_ok by blast
  obtain ms2 where m2: "fillTaskInfo no_fail db ms1 = Inr ms2" "map msg_ID ms2 = map msg_ID ms1" "map msg_RoomVersion ms2 = map msg_RoomVersion ms1"
    using fill_tasks_ok assms(1) unfolding rows_ok_def by blast
  have v: "GetConversationVersion no_fail convID db' = Inr (ro_Version room)" using assms(2) by (simp add: GetConversationVersion_def)
  have "\<not> (a > 0 \<and> b > 0)" using assms(3) by linarith
  then have "ListConversationMessages env no_fail convID a b limit offset db db' = Inr (ms2, ro_Version room)"
    by (simp add: ListConversationMessages_def s m1(1) m2(1) v Let_def)
  moreover have "map msg_ID ms2 = (if a = 0 then rev else id) (map mr_ID ?q)"
    "map msg_RoomVersion ms2 = (if a = 0 then rev else id) (map mr_RoomVersion ?q)"
    unfolding m2(2,3) m1(2,3) ms [symmetric] by (simp_all add: rev_map)
  ultimately show ?thesis by blast
qed

text \<open>The query of a delta, unlimited.\<close>

definition conversation_delta :: "uuid \<Rightarrow> int \<Rightarrow> chat_db \<Rightarrow> message_row list" where
  "conversation_delta convID a db =
     asc mr_CreatedAt (filter (\<lambda>r. mr_ConversationID r = convID \<and> mr_ThreadRoot r = None \<and> mr_RoomVersion r > a) (joined db))"

lemma conversation_query_delta: "a > 0 \<Longrightarrow> conversation_query convID a b limit offset db = limited limit offset (conversation_delta convID a db)"
  by (simp add: conversation_query_def conversation_delta_def conj_assoc)

definition thread_delta :: "uuid \<Rightarrow> int \<Rightarrow> chat_db \<Rightarrow> message_row list" where
  "thread_delta rootID a db = asc mr_RoomVersion (filter (\<lambda>r. mr_ThreadRoot r = Some rootID \<and> mr_RoomVersion r > a) (joined db))"

lemma thread_query_delta: "a > 0 \<Longrightarrow> thread_query rootID a b limit offset db = limited limit offset (thread_delta rootID a db)"
  by (simp add: thread_query_def thread_delta_def)

text \<open>A read of a thread is its root and its query.\<close>

lemma thread_read_exact:
  assumes "rows_ok env db" "room_of convID db' = Some room" "a \<le> 0 \<or> b \<le> 0"
    "find (\<lambda>r. mr_ID r = rootID \<and> mr_ConversationID r = convID \<and> mr_ThreadRoot r = None) (cd_messages db) = Some root"
  shows "\<exists>ms. ListThreadMessages env no_fail convID rootID a b limit offset db db' = Inr (ms, ro_Version room) \<and>
    map msg_ID ms = rootID # (if a = 0 then rev else id) (map mr_ID (thread_query rootID a b limit offset db))"
proof -
  let ?q = "thread_query rootID a b limit offset db"
  have r: "root \<in> set (cd_messages db)" "mr_ID root = rootID" using find_found [OF assms(4)] by auto
  then obtain m where m: "scanChatMessageRow env db root = Inr m" using assms(1) unfolding rows_ok_def by blast
  have "\<forall>r \<in> set ?q. \<exists>m. scanChatMessageRow env db r = Inr m" using assms(1) thread_query_subset unfolding rows_ok_def by blast
  then obtain ms where s: "scan_rows (scanChatMessageRow env db) ?q = Inr ms" using scan_rows_ok by blast
  have ms: "map msg_ID ms = map mr_ID ?q" using scan_rows_map [OF s] scan_message_fields by metis
  obtain ms1 where m1: "fillThreadReplyCounts no_fail db [m] = Inr ms1" "map msg_ID ms1 = map msg_ID [m]" using fill_replies_ok by blast
  obtain ms2 where m2: "fillTaskInfo no_fail db ms1 = Inr ms2" "map msg_ID ms2 = map msg_ID ms1"
    using fill_tasks_ok assms(1) unfolding rows_ok_def by blast
  have v: "GetConversationVersion no_fail convID db' = Inr (ro_Version room)" using assms(2) by (simp add: GetConversationVersion_def)
  have "\<not> (a > 0 \<and> b > 0)" using assms(3) by linarith
  then have "ListThreadMessages env no_fail convID rootID a b limit offset db db' = Inr (ms2 @ (if a = 0 then rev ms else ms), ro_Version room)"
    using assms(4) by (simp add: ListThreadMessages_def joined_ok [OF assms(1)] s m m1(1) m2(1) v Let_def)
  moreover have "map msg_ID (ms2 @ (if a = 0 then rev ms else ms)) = rootID # (if a = 0 then rev else id) (map mr_ID ?q)"
  proof -
    have "map msg_ID (if a = 0 then rev ms else ms) = (if a = 0 then rev else id) (map mr_ID ?q)"
      unfolding ms [symmetric] by (simp add: rev_map)
    then show ?thesis unfolding map_append m2(2) m1(2) using r(2) scan_message_fields(1) [OF m] by simp
  qed
  ultimately show ?thesis by (intro exI conjI)
qed

text \<open>No row can be read with a column list of another length.\<close>

lemma messages_after_never_read:
  assumes "rows_ok env db" "r \<in> set (cd_messages db)" "mr_ConversationID r = convID" "mr_RoomVersion r > v"
  shows "GetMessagesAfterVersion no_fail convID v db = Inl ChatScan"
proof -
  have "asc mr_RoomVersion (filter (\<lambda>r. mr_ConversationID r = convID \<and> mr_RoomVersion r > v) (joined db)) \<noteq> []"
    using assms by (auto simp: joined_ok asc_def filter_empty_conv simp flip: set_empty)
  then show ?thesis by (auto simp: GetMessagesAfterVersion_def split: list.split)
qed

text \<open>The unread counts of threads compare a numeric column with the user's handle: unless the handle is a number no
  thread ever has a new reply.\<close>

lemma thread_unread_never_shown:
  assumes "ce_int4 env userHandle = None" "ListChannelThreads env fails convID userPrincipalID userHandle db = Inr ts" "t \<in> set ts"
  shows "ct_NewReplyCount t = 0"
proof -
  have "listChannelThreadNewCounts env fails convID v userHandle db = Inl (ChatSql ''new counts'')" for v
    using assms(1) by (simp add: listChannelThreadNewCounts_def)
  then show ?thesis
    using assms(2,3) by (auto simp: ListChannelThreads_def Let_def split: if_splits sum.splits prod.splits bool.splits)
qed


section \<open>Cursors and posts\<close>

lemma has_updates_iff:
  "HasUpdates no_fail agentID db = Inr (\<exists>c \<in> set (cd_rooms db). agent_member db agentID (ro_ID c) \<and>
     ro_Version c > processed_of db agentID c \<and> new_for db agentID c \<noteq> [])"
  by (auto simp: HasUpdates_def list_ex_iff new_for_def filter_empty_conv)

lemma updates_listed:
  "\<exists>us. ListChannelsWithUpdates no_fail agentID db = Inr us \<and>
     (\<forall>u. u \<in> set us \<longleftrightarrow> (\<exists>c \<in> set (cd_rooms db). agent_member db agentID (ro_ID c) \<and> ro_Version c > processed_of db agentID c \<and>
        new_for db agentID c \<noteq> [] \<and>
        u = \<lparr>cu_ConversationID = ro_ID c, cu_CurrentVersion = ro_Version c, cu_ProcessedVersion = processed_of db agentID c,
             cu_NewMessageCount = int (length (new_for db agentID c))\<rparr>))"
  by (auto simp: ListChannelsWithUpdates_def)

lemma updates_agree:
  "\<exists>us. ListChannelsWithUpdates no_fail agentID db = Inr us \<and> HasUpdates no_fail agentID db = Inr (us \<noteq> []) \<and>
     (\<forall>u \<in> set us. cu_NewMessageCount u > 0) \<and>
     (\<forall>u \<in> set us. \<exists>c \<in> set (cd_rooms db). cu_ConversationID u = ro_ID c \<and> processed_of db agentID c < ro_Version c)"
proof -
  obtain us where us: "ListChannelsWithUpdates no_fail agentID db = Inr us"
    "\<And>u. u \<in> set us \<longleftrightarrow> (\<exists>c \<in> set (cd_rooms db). agent_member db agentID (ro_ID c) \<and> ro_Version c > processed_of db agentID c \<and>
        new_for db agentID c \<noteq> [] \<and>
        u = \<lparr>cu_ConversationID = ro_ID c, cu_CurrentVersion = ro_Version c, cu_ProcessedVersion = processed_of db agentID c,
             cu_NewMessageCount = int (length (new_for db agentID c))\<rparr>)"
    using updates_listed by blast
  have "us \<noteq> [] \<longleftrightarrow> (\<exists>u. u \<in> set us)" by (cases us) auto
  then have "HasUpdates no_fail agentID db = Inr (us \<noteq> [])" unfolding has_updates_iff us(2) by auto
  moreover have "\<exists>c \<in> set (cd_rooms db). cu_ConversationID u = ro_ID c \<and> processed_of db agentID c < ro_Version c" if "u \<in> set us" for u
    using that unfolding us(2) by force
  moreover have "cu_NewMessageCount u > 0" if "u \<in> set us" for u using that unfolding us(2) by force
  ultimately show ?thesis using us(1) by blast
qed

lemma find_key_iff:
  "distinct (map key xs) \<Longrightarrow> find (\<lambda>x. key x = k) xs = Some r \<longleftrightarrow> r \<in> set xs \<and> key r = k"
  by (induction xs) auto

lemma room_of_iff:
  "distinct (map ro_ID (cd_rooms db)) \<Longrightarrow> room_of convID db = Some room \<longleftrightarrow> room \<in> set (cd_rooms db) \<and> ro_ID room = convID"
  unfolding room_of_def by (rule find_key_iff)

lemma post_rooms:
  assumes "CreateChatMessageBumpVersion env fails newID now msg db = (Inr (m, v), db')" "distinct (map ro_ID (cd_rooms db))"
  shows "distinct (map ro_ID (cd_rooms db')) \<and> v = room_version (msg_ConversationID msg) db + 1 \<and>
    (\<exists>room. room_of (msg_ConversationID msg) db = Some room \<and> room_of (msg_ConversationID msg) db' = Some (bump_version now room))"
proof -
  obtain room where r: "room_of (msg_ConversationID msg) db = Some room" "v = ro_Version room + 1"
    and d: "cd_rooms db' = cd_rooms (map_rooms (bump_version now) (msg_ConversationID msg) db)"
    using post_effect [OF assms(1)] by auto
  have "map ro_ID (cd_rooms db') = map ro_ID (cd_rooms db)" unfolding d by (simp add: map_rooms_def comp_def if_distrib cong: if_cong)
  moreover have "room_of (msg_ConversationID msg) db' = Some (bump_version now room)"
    using room_of_map_rooms [of "bump_version now" "msg_ConversationID msg" "msg_ConversationID msg" db] r(1) d by (simp add: room_of_def)
  ultimately show ?thesis using assms(2) r by (simp add: room_version_def)
qed

text \<open>Posting clears the flags of closed members and changes no membership.\<close>

lemma post_members:
  assumes "CreateChatMessageBumpVersion env fails newID now msg db = (Inr (m, v), db')"
  shows "agent_member db' agentID convID = agent_member db agentID convID"
proof -
  have "map meta_key (cd_meta db') = map meta_key (cd_meta db)" and a: "cd_agents db' = cd_agents db"
    using post_effect [OF assms] by (auto simp: clear_closed_def meta_key_def)
  moreover have "list_ex (\<lambda>m. meta_key m = x) ms \<longleftrightarrow> x \<in> set (map meta_key ms)" for x ms by (auto simp: list_ex_iff)
  ultimately have "list_ex (\<lambda>m. meta_key m = x) (cd_meta db') = list_ex (\<lambda>m. meta_key m = x) (cd_meta db)" for x by metis
  then show ?thesis using a by (simp add: agent_member_def agent_row_def split: option.split)
qed

text \<open>A caught-up agent is told about the next root message.\<close>

lemma post_lists_channel:
  assumes "distinct (map ro_ID (cd_rooms db1))" "room_of convID db1 = Some room" "agent_member db1 agentID convID"
    "\<forall>n \<in> set (issued_versions convID db1). n \<le> ro_Version room" "cd_agent_cursors db1 (agentID, convID) = Some (ro_Version room)"
    "CreateChatMessageBumpVersion env fails' newID now msg db1 = (Inr (m, v), db2)" "msg_ConversationID msg = convID" "msg_ThreadRoot msg = None"
    "msg_SenderType msg \<noteq> SenderTypeSystem"
  shows "HasUpdates no_fail agentID db2 = Inr True \<and> (\<exists>us. ListChannelsWithUpdates no_fail agentID db2 = Inr us \<and>
      \<lparr>cu_ConversationID = convID, cu_CurrentVersion = v, cu_ProcessedVersion = ro_Version room, cu_NewMessageCount = 1\<rparr> \<in> set us)"
proof -
  obtain row where row: "mr_ConversationID row = convID" "mr_RoomVersion row = v" "mr_ThreadRoot row = None" "mr_SenderType row \<noteq> SenderTypeSystem"
    and d2: "cd_messages db2 = cd_messages db1 @ [row]" "cd_agent_cursors db2 = cd_agent_cursors db1" "v = ro_Version room + 1"
    using post_effect [OF assms(6)] assms(2,7-9) by auto
  let ?room = "bump_version now room"
  have r2: "?room \<in> set (cd_rooms db2)" "ro_ID ?room = convID" "agent_member db2 agentID convID"
    using post_rooms [OF assms(6,1)] post_members [OF assms(6)] assms(1-3,7) by (auto simp: room_of_iff)
  have p2: "processed_of db2 agentID ?room = ro_Version room" using r2(2) assms(5) by (simp add: processed_of_def d2)
  have "mr_RoomVersion r \<le> ro_Version room" if "r \<in> set (cd_messages db1)" "mr_ConversationID r = convID" for r
    using assms(4) that by (auto simp: issued_versions_def)
  then have n2: "new_for db2 agentID ?room = [row]"
    unfolding new_for_def p2 using row r2(2) d2(1,3)
    by (fastforce simp: agentRelevantMessageCondition_def SenderTypeSystem_def filter_empty_conv)
  let ?u = "\<lparr>cu_ConversationID = ro_ID ?room, cu_CurrentVersion = ro_Version ?room, cu_ProcessedVersion = processed_of db2 agentID ?room,
    cu_NewMessageCount = int (length (new_for db2 agentID ?room))\<rparr>"
  have "?u = \<lparr>cu_ConversationID = convID, cu_CurrentVersion = v, cu_ProcessedVersion = ro_Version room, cu_NewMessageCount = 1\<rparr>"
    using r2(2) p2 n2 d2(3) by simp
  then have "\<exists>us. ListChannelsWithUpdates no_fail agentID db2 = Inr us \<and>
      \<lparr>cu_ConversationID = convID, cu_CurrentVersion = v, cu_ProcessedVersion = ro_Version room, cu_NewMessageCount = 1\<rparr> \<in> set us"
    using updates_listed [of agentID db2] r2 p2 n2 by (metis bump_version_simps(2) less_add_one list.discI)
  moreover have "HasUpdates no_fail agentID db2 = Inr True"
    unfolding has_updates_iff using r2 p2 n2 by (auto intro!: bexI [of _ ?room])
  ultimately show ?thesis by blast
qed

section \<open>Examples\<close>

text \<open>A conversation at version 3 with one agent and one message, and a codec that knows one document.\<close>

definition sample_chat_env :: chat_env where
  "sample_chat_env = \<lparr>ce_marshalMentions = (\<lambda>_. Some ''[]''), ce_unmarshalMentions = (\<lambda>_. Some []),
     ce_marshalAttachments = (\<lambda>_. Some ''[]''), ce_unmarshalAttachments = (\<lambda>_. Some []), ce_int4 = (\<lambda>_. None)\<rparr>"

definition sample_message_row :: "uuid \<Rightarrow> int \<Rightarrow> uuid option \<Rightarrow> message_row" where
  "sample_message_row i v root = \<lparr>mr_ID = i, mr_ConversationID = 1, mr_PrincipalID = 10, mr_Role = 1, mr_Content = ''hi'', mr_CommandID = None,
     mr_SenderAgentID = None, mr_RoomVersion = v, mr_SenderType = 1, mr_Mentions = ''[]'', mr_Attachments = ''[]'', mr_ThreadRoot = root,
     mr_CreatedAt = v\<rparr>"

definition sample_room :: room_row where
  "sample_room = \<lparr>ro_ID = 1, ro_Version = 3, ro_NextTaskNumber = 1, ro_UpdatedAt = 3, ro_OwnerID = 10, ro_Archived = False\<rparr>"

definition sample_chat :: "message_row list \<Rightarrow> chat_db" where
  "sample_chat rows = \<lparr>cd_rooms = [sample_room], cd_messages = rows, cd_tasks = [], cd_reminders = [], cd_teams = [], cd_team_members = [],
     cd_meta = [\<lparr>me_ConversationID = 1, me_MemberType = MemberTypeAgent, me_MemberID = ''a'', me_JoinedAt = 0, me_Pinned = False,
       me_PinnedAt = None, me_Closed = True, me_ClosedAt = Some 2, me_Muted = False, me_MutedAt = None\<rparr>],
     cd_principals = [(10, ''Ran'', ''ran-u-1'')], cd_agents = [(1, ''a'', ''A''), (2, ''b'', ''B'')],
     cd_user_cursors = Map.empty, cd_agent_cursors = Map.empty, cd_thread_agents = [], cd_thread_users = [], cd_notified = []\<rparr>"

definition sample_post :: chat_message where
  "sample_post = \<lparr>msg_ID = 0, msg_ConversationID = 1, msg_PrincipalID = 10, msg_PrincipalName = [], msg_PrincipalHandle = [],
     msg_SenderAgentID = None, msg_AgentResourceID = [], msg_AgentName = [], msg_Role = 1, msg_Content = ''new'', msg_CommandID = None,
     msg_CreatedAt = 0, msg_RoomVersion = 0, msg_SenderType = 1, msg_Mentions = [], msg_Attachments = [], msg_ThreadRoot = None,
     msg_ThreadReplyCount = 0, msg_TaskInfo = None\<rparr>"

definition one_message :: chat_db where
  "one_message = sample_chat [sample_message_row 5 3 None]"

lemma one_message_ok:
  "rows_ok sample_chat_env one_message" "room_of 1 one_message = Some sample_room" "distinct (map ro_ID (cd_rooms one_message))"
  "issued_versions 1 one_message = [3]"
  by (simp_all add: rows_ok_def one_message_def sample_chat_def sample_message_row_def scanChatMessageRow_def decode_json_def sample_chat_env_def
      principal_row_def agent_text_def room_of_def sample_room_def issued_versions_def)

lemma sample_post_lands:
  "\<exists>m db'. CreateChatMessageBumpVersion sample_chat_env no_fail 6 9 sample_post one_message = (Inr (m, 4), db')"
proof -
  have "fst (CreateChatMessageBumpVersion sample_chat_env no_fail 6 9 sample_post one_message) =
      Inr (created_message 6 9 4 None sample_post, 4)" by code_simp
  then show ?thesis by (metis prod.collapse)
qed

section \<open>A read and a post\<close>

text \<open>A read of the messages after a version, whose page holds them all, and a post that comes after it or between its two statements.\<close>

lemma read_races:
  assumes "rows_ok env db" "room_of convID db = Some room" "\<forall>n \<in> set (issued_versions convID db). n \<le> ro_Version room" "0 < after"
    "length (conversation_delta convID after db) \<le> limit" "newID \<notin> mr_ID ` set (cd_messages db)"
    "CreateChatMessageBumpVersion env fails newID now msg db = (Inr (m, v), db')" "msg_ConversationID msg = convID" "msg_ThreadRoot msg = None"
  shows "(\<exists>ms. ListConversationMessages env no_fail convID after 0 limit 0 db db = Inr (ms, ro_Version room) \<and>
      set (map msg_ID ms) = {mr_ID r |r. r \<in> set (cd_messages db) \<and> mr_ConversationID r = convID \<and> mr_ThreadRoot r = None \<and> mr_RoomVersion r > after}) \<and>
    mr_ID ` set (conversation_delta convID (ro_Version room) db') = {newID} \<and>
    (\<exists>ms. ListConversationMessages env no_fail convID after 0 limit 0 db db' = Inr (ms, v) \<and> newID \<notin> set (map msg_ID ms)) \<and>
    conversation_delta convID v db' = []"
proof -
  let ?q = "conversation_query convID after 0 limit 0 db"
  obtain row where row: "mr_ID row = newID" "mr_ConversationID row = convID" "mr_RoomVersion row = v" "mr_ThreadRoot row = None"
    "principal_row db (mr_PrincipalID row) \<noteq> None" "v = ro_Version room + 1"
    and d: "cd_messages db' = cd_messages db @ [row]" "cd_principals db' = cd_principals db"
      "cd_rooms db' = cd_rooms (map_rooms (bump_version now) convID db)"
    using post_effect [OF assms(7)] assms(2,8,9) by (auto simp: map_rooms_def)
  have room': "room_of convID db' = Some (bump_version now room)"
    using room_of_map_rooms [of "bump_version now" convID convID db] assms(2) d(3) by (simp add: room_of_def)
  have q: "?q = conversation_delta convID after db"
    using conversation_query_delta [OF assms(4), of convID 0 limit 0 db] assms(5) by (simp add: limited_def)
  have ids: "mr_ID ` set ?q = {mr_ID r |r. r \<in> set (cd_messages db) \<and> mr_ConversationID r = convID \<and> mr_ThreadRoot r = None \<and> mr_RoomVersion r > after}"
    unfolding q conversation_delta_def joined_ok [OF assms(1)] by auto
  have old: "mr_RoomVersion r \<le> ro_Version room" if "r \<in> set (cd_messages db)" "mr_ConversationID r = convID" for r
    using assms(3) that by (auto simp: issued_versions_def)
  have j: "joined db' = joined db @ [row]" using d(1,2) row(5) by (simp add: joined_def principal_row_def)
  have later: "conversation_delta convID (ro_Version room) db' = [row]" "conversation_delta convID v db' = []"
  proof -
    have "filter (\<lambda>r. mr_ConversationID r = convID \<and> mr_ThreadRoot r = None \<and> mr_RoomVersion r > x) (joined db) = []" if "ro_Version room \<le> x" for x
      using old that joined_subset [of db] by (force simp: filter_empty_conv)
    then show "conversation_delta convID (ro_Version room) db' = [row]" "conversation_delta convID v db' = []"
      using row by (simp_all add: conversation_delta_def j asc_def)
  qed
  obtain ms where ms: "ListConversationMessages env no_fail convID after 0 limit 0 db db = Inr (ms, ro_Version room)"
    "map msg_ID ms = map mr_ID ?q" using conversation_read_exact [OF assms(1,2), of after 0 limit 0] assms(4) by auto
  obtain ms' where ms': "ListConversationMessages env no_fail convID after 0 limit 0 db db' = Inr (ms', v)" "map msg_ID ms' = map mr_ID ?q"
    using conversation_read_exact [OF assms(1) room', of after 0 limit 0] assms(4) row(6) by auto
  have n: "newID \<notin> set (map msg_ID ms')" unfolding ms'(2) using assms(6) conversation_query_subset by fastforce
  have i: "set (map msg_ID ms) = {mr_ID r |r. r \<in> set (cd_messages db) \<and> mr_ConversationID r = convID \<and> mr_ThreadRoot r = None \<and> mr_RoomVersion r > after}"
    unfolding ms(2) set_map ids ..
  have "mr_ID ` set (conversation_delta convID (ro_Version room) db') = {newID}" by (simp add: later row(1))
  then show ?thesis using ms(1) i ms'(1) n later(2) by blast
qed

text \<open>The drain loop sees what it should. The cheap test for updates agrees with the list of updates, and every listed channel has a new
  message. After an agent acknowledges the current version its channel is not listed; and the next root message of a
  user or an agent that is posted there makes it listed again, with exactly that message as new.\<close>

theorem ack_then_post:
  assumes "distinct (map ro_ID (cd_rooms db))" "room_of convID db = Some room" "agent_member db agentID convID"
    "\<forall>n \<in> set (issued_versions convID db). n \<le> ro_Version room" "\<forall>c. cd_agent_cursors db (agentID, convID) = Some c \<longrightarrow> c \<le> ro_Version room"
    "UpsertCursor fails agentID convID (ro_Version room) db = (Inr w, db1)"
    "CreateChatMessageBumpVersion env fails' newID now msg db1 = (Inr (m, v), db2)" "msg_ConversationID msg = convID" "msg_ThreadRoot msg = None"
    "msg_SenderType msg \<noteq> SenderTypeSystem"
  shows "HasUpdates no_fail agentID db2 = Inr True \<and>
    (\<exists>us. ListChannelsWithUpdates no_fail agentID db1 = Inr us \<and> convID \<notin> cu_ConversationID ` set us \<and> (\<forall>u \<in> set us. cu_NewMessageCount u > 0) \<and>
       HasUpdates no_fail agentID db1 = Inr (us \<noteq> [])) \<and>
    (\<exists>us. ListChannelsWithUpdates no_fail agentID db2 = Inr us \<and>
       \<lparr>cu_ConversationID = convID, cu_CurrentVersion = v, cu_ProcessedVersion = ro_Version room, cu_NewMessageCount = 1\<rparr> \<in> set us)"
proof -
  have d1: "db1 = db\<lparr>cd_agent_cursors := (cd_agent_cursors db)((agentID, convID) \<mapsto> ro_Version room)\<rparr>"
    using assms(5,6) by (auto simp: UpsertCursor_def raise_cursor_def Let_def max_def split: if_splits option.splits)
  have db1: "distinct (map ro_ID (cd_rooms db1))" "room_of convID db1 = Some room" "agent_member db1 agentID convID"
    "\<forall>n \<in> set (issued_versions convID db1). n \<le> ro_Version room" "cd_agent_cursors db1 (agentID, convID) = Some (ro_Version room)"
    using assms(1-4) by (auto simp: d1 room_of_def agent_member_def agent_row_def issued_versions_def split: option.splits)
  have "ro_Version c \<le> processed_of db1 agentID c" if "c \<in> set (cd_rooms db1)" "ro_ID c = convID" for c
  proof -
    have "room_of convID db1 = Some c" using that by (simp add: room_of_iff [OF db1(1)])
    then show ?thesis using db1(2) that(2) by (simp add: processed_of_def d1)
  qed
  then have "\<exists>us. ListChannelsWithUpdates no_fail agentID db1 = Inr us \<and> convID \<notin> cu_ConversationID ` set us \<and>
      (\<forall>u \<in> set us. cu_NewMessageCount u > 0) \<and> HasUpdates no_fail agentID db1 = Inr (us \<noteq> [])"
    using updates_agree [of agentID db1] by (metis imageE linorder_not_le)
  then show ?thesis using post_lists_channel [OF db1 assms(7-10)] by blast
qed

theorem ack_then_post_witness:
  "\<exists>db1 m db2. UpsertCursor no_fail 1 1 3 one_message = (Inr 3, db1) \<and>
     CreateChatMessageBumpVersion sample_chat_env no_fail 6 9 sample_post db1 = (Inr (m, 4), db2) \<and>
     HasUpdates no_fail 1 db2 = Inr True"
proof -
  define db1 where "db1 = snd (UpsertCursor no_fail 1 1 3 one_message)"
  have u: "UpsertCursor no_fail 1 1 (ro_Version sample_room) one_message = (Inr 3, db1)"
    by (simp add: db1_def UpsertCursor_def raise_cursor_def sample_room_def one_message_def sample_chat_def)
  have "fst (CreateChatMessageBumpVersion sample_chat_env no_fail 6 9 sample_post db1) = Inr (created_message 6 9 4 None sample_post, 4)"
    unfolding db1_def by code_simp
  then obtain db2 where p: "CreateChatMessageBumpVersion sample_chat_env no_fail 6 9 sample_post db1 = (Inr (created_message 6 9 4 None sample_post, 4), db2)"
    by (metis prod.collapse)
  have "agent_member one_message 1 1" by code_simp
  from ack_then_post [OF one_message_ok(3,2) this _ _ u p] one_message_ok(4) u p
  show ?thesis by (auto simp: sample_room_def sample_post_def SenderTypeSystem_def one_message_def sample_chat_def)
qed

end
