(* ===== verification/Mentions.thy ===== *)
theory Mentions
  imports Chat_Store
begin

text \<open>
  Mentions (\<open>backend/manager/api/v1/mention.go\<close>, \<open>backend/manager/store/mention_index.go\<close>): the \<open>@handle\<close> tokens of a
  message, their resolution against the members of the conversation and the directory of agents and users, and the list of mentions
  stored with the message.

  Runes are code points. The decoding of UTF-8 is Go's; the tables of the package \<open>unicode\<close> are a parameter, and the lemmas
  use of them only that the sign \<open>@\<close> is neither a letter nor a digit. The looked-up agent or user is a parameter: an
  error and an absent row count alike in this code. The index of display names is built when the first token
  needs it; here it is a value, since nothing else sees when it is built.

  The lemmas show that the scanner finds exactly the mentions of the text, that a shared name never resolves, and that
  no member is mentioned twice.
\<close>

section \<open>Runes\<close>

definition continuation :: "nat \<Rightarrow> bool" where
  "continuation b \<longleftrightarrow> 128 \<le> b \<and> b < 192"

definition rune_error :: nat where "rune_error = 65533"

fun decode_bytes :: "nat list \<Rightarrow> nat list" where
  "decode_bytes [] = []"
| "decode_bytes (a # bs) =
     (if a < 128 then a # decode_bytes bs
      else
        (case bs of
           b # cs \<Rightarrow>
             if 194 \<le> a \<and> a < 224 \<and> continuation b then ((a - 192) * 64 + (b - 128)) # decode_bytes cs
             else
               (case cs of
                  c # ds \<Rightarrow>
                    if 224 \<le> a \<and> a < 240 \<and> continuation b \<and> continuation c \<and> (a = 224 \<longrightarrow> 160 \<le> b) \<and> (a = 237 \<longrightarrow> b < 160)
                    then ((a - 224) * 4096 + (b - 128) * 64 + (c - 128)) # decode_bytes ds
                    else
                      (case ds of
                         d # es \<Rightarrow>
                           if 240 \<le> a \<and> a < 245 \<and> continuation b \<and> continuation c \<and> continuation d \<and>
                             (a = 240 \<longrightarrow> 144 \<le> b) \<and> (a = 244 \<longrightarrow> b < 144)
                           then ((a - 240) * 262144 + (b - 128) * 4096 + (c - 128) * 64 + (d - 128)) # decode_bytes es
                           else rune_error # decode_bytes bs
                       | [] \<Rightarrow> rune_error # decode_bytes bs)
                | [] \<Rightarrow> rune_error # decode_bytes bs)
         | [] \<Rightarrow> rune_error # decode_bytes bs))"

definition runes_of :: "string \<Rightarrow> nat list" where
  "runes_of s = decode_bytes (map of_char s)"

definition encode_rune :: "nat \<Rightarrow> nat list" where
  "encode_rune r =
     (if r < 128 then [r]
      else if r < 2048 then [192 + r div 64, 128 + r mod 64]
      else if r \<ge> 1114112 \<or> (55296 \<le> r \<and> r < 57344) then [239, 191, 189]
      else if r < 65536 then [224 + r div 4096, 128 + r div 64 mod 64, 128 + r mod 64]
      else [240 + r div 262144, 128 + r div 4096 mod 64, 128 + r div 64 mod 64, 128 + r mod 64])"

definition of_runes :: "nat list \<Rightarrow> string" where
  "of_runes rs = map char_of (concat (map encode_rune rs))"

definition valid_rune :: "nat \<Rightarrow> bool" where
  "valid_rune r \<longleftrightarrow> r < 1114112 \<and> \<not> (55296 \<le> r \<and> r < 57344)"

lemma encode_rune_bytes: "b \<in> set (encode_rune r) \<Longrightarrow> b < 256"
  by (auto simp: encode_rune_def split: if_splits)

lemma decode_steps:
  "a < 128 \<Longrightarrow> decode_bytes (a # bs) = a # decode_bytes bs"
  "194 \<le> a \<Longrightarrow> a < 224 \<Longrightarrow> continuation b \<Longrightarrow> decode_bytes (a # b # bs) = ((a - 192) * 64 + (b - 128)) # decode_bytes bs"
  "224 \<le> a \<Longrightarrow> a < 240 \<Longrightarrow> continuation b \<Longrightarrow> continuation c \<Longrightarrow> (a = 224 \<longrightarrow> 160 \<le> b) \<Longrightarrow> (a = 237 \<longrightarrow> b < 160) \<Longrightarrow>
     decode_bytes (a # b # c # bs) = ((a - 224) * 4096 + (b - 128) * 64 + (c - 128)) # decode_bytes bs"
  "240 \<le> a \<Longrightarrow> a < 245 \<Longrightarrow> continuation b \<Longrightarrow> continuation c \<Longrightarrow> continuation d \<Longrightarrow> (a = 240 \<longrightarrow> 144 \<le> b) \<Longrightarrow> (a = 244 \<longrightarrow> b < 144) \<Longrightarrow>
     decode_bytes (a # b # c # d # bs) = ((a - 240) * 262144 + (b - 128) * 4096 + (c - 128) * 64 + (d - 128)) # decode_bytes bs"
  by simp_all

declare decode_bytes.simps(2) [simp del]

lemma continuation_mod: "continuation (128 + x mod 64)"
proof -
  have "x mod 64 < 64" by simp
  then show ?thesis by (simp add: continuation_def)
qed

lemma base_64:
  fixes r :: nat
  shows "r = r div 4096 * 4096 + r div 64 mod 64 * 64 + r mod 64"
    and "r = r div 262144 * 262144 + r div 4096 mod 64 * 4096 + r div 64 mod 64 * 64 + r mod 64"
proof -
  have "r div 64 div 64 = r div 4096" "r div 4096 div 64 = r div 262144" by (simp_all add: div_mult2_eq [symmetric])
  then have "r div 64 = r div 4096 * 64 + r div 64 mod 64" "r div 4096 = r div 262144 * 64 + r div 4096 mod 64"
    by (metis div_mult_mod_eq)+
  moreover have "r = r div 64 * 64 + r mod 64" by simp
  ultimately show "r = r div 4096 * 4096 + r div 64 mod 64 * 64 + r mod 64"
    "r = r div 262144 * 262144 + r div 4096 mod 64 * 4096 + r div 64 mod 64 * 64 + r mod 64" by linarith+
qed

lemma decode_encode_rune:
  assumes "valid_rune r"
  shows "decode_bytes (encode_rune r @ bs) = r # decode_bytes bs"
proof -
  consider "r < 128" | "128 \<le> r" "r < 2048" | "2048 \<le> r" "r < 65536" | "65536 \<le> r" by linarith
  then show ?thesis
  proof cases
    case 1
    then show ?thesis by (simp add: encode_rune_def decode_steps)
  next
    case 2
    have "r div 64 * 64 + r mod 64 = r" "194 \<le> 192 + r div 64" "192 + r div 64 < 224" using 2 by auto
    then show ?thesis using 2 continuation_mod [of r] by (simp add: encode_rune_def decode_steps)
  next
    case 3
    let ?h = "r div 4096" and ?m = "r div 64 mod 64" and ?l = "r mod 64"
    have r: "r = ?h * 4096 + ?m * 64 + ?l" "?m < 64" "?l < 64" using base_64(1) by simp_all
    have s: "r < 55296 \<or> 57344 \<le> r" using assms by (auto simp: valid_rune_def)
    have "224 \<le> 224 + ?h" "224 + ?h < 240" "224 + ?h = 224 \<longrightarrow> 160 \<le> 128 + ?m" "224 + ?h = 237 \<longrightarrow> 128 + ?m < 160"
      using 3 s r by linarith+
    from decode_steps(3) [OF this(1,2) continuation_mod continuation_mod [of r] this(3,4), where bs = bs]
    show ?thesis using 3 s r(1) by (auto simp: encode_rune_def)
  next
    case 4
    let ?h = "r div 262144" and ?n = "r div 4096 mod 64" and ?m = "r div 64 mod 64" and ?l = "r mod 64"
    have r: "r = ?h * 262144 + ?n * 4096 + ?m * 64 + ?l" "?n < 64" "?m < 64" "?l < 64" using base_64(2) by simp_all
    have l: "r < 1114112" using assms by (auto simp: valid_rune_def)
    have "240 \<le> 240 + ?h" "240 + ?h < 245" "240 + ?h = 240 \<longrightarrow> 144 \<le> 128 + ?n" "240 + ?h = 244 \<longrightarrow> 128 + ?n < 144"
      using 4 l r by linarith+
    from decode_steps(4) [OF this(1,2) continuation_mod continuation_mod [of "r div 64"] continuation_mod [of r] this(3,4), where bs = bs]
    show ?thesis using 4 l r(1) by (simp add: encode_rune_def)
  qed
qed

lemma runes_round_trip:
  assumes "\<forall>r \<in> set rs. valid_rune r"
  shows "runes_of (of_runes rs) = rs"
proof -
  have "map (of_char \<circ> char_of) bs = bs" if "\<forall>b \<in> set bs. b < 256" for bs :: "nat list"
    using that by (induction bs) (auto simp: of_char_mod_256)
  then have "map of_char (of_runes rs) = concat (map encode_rune rs)"
    using encode_rune_bytes by (auto simp: of_runes_def)
  moreover have "decode_bytes (concat (map encode_rune rs)) = rs"
    using assms by (induction rs) (auto simp: decode_encode_rune)
  ultimately show ?thesis by (simp add: runes_of_def)
qed

section \<open>The scanner\<close>

record unicode_tables =
  un_letter :: "nat \<Rightarrow> bool"
  un_digit :: "nat \<Rightarrow> bool"
  un_space :: "nat \<Rightarrow> bool"
  un_punct :: "nat \<Rightarrow> bool"
  un_lower :: "nat \<Rightarrow> nat"

definition rune :: "char \<Rightarrow> nat" where "rune c = of_char c"

definition isMentionNameRune :: "unicode_tables \<Rightarrow> nat \<Rightarrow> bool" where
  "isMentionNameRune u r \<longleftrightarrow> un_letter u r \<or> un_digit u r \<or> r = rune CHR ''_'' \<or> r = rune CHR ''-'' \<or> r = rune CHR ''.''"

definition isMentionBoundary :: "unicode_tables \<Rightarrow> nat \<Rightarrow> bool" where
  "isMentionBoundary u r \<longleftrightarrow> un_space u r \<or> (un_punct u r \<and> r \<noteq> rune CHR ''_'' \<and> r \<noteq> rune CHR ''-'')"

definition trim_runes :: "unicode_tables \<Rightarrow> nat list \<Rightarrow> nat list" where
  "trim_runes u rs = rev (dropWhile (un_space u) (rev (dropWhile (un_space u) rs)))"

definition normalizeMentionName :: "unicode_tables \<Rightarrow> string \<Rightarrow> string" where
  "normalizeMentionName u s = of_runes (map (un_lower u) (trim_runes u (runes_of s)))"

text \<open>The two inner loops: to the end of the run of name runes, and back over trailing dots.\<close>

function name_end :: "unicode_tables \<Rightarrow> nat list \<Rightarrow> nat \<Rightarrow> nat" where
  "name_end u rs j = (if j < length rs \<and> isMentionNameRune u (rs ! j) then name_end u rs (j + 1) else j)"
  by pat_completeness auto
termination by (relation "measure (\<lambda>(u, rs, j). length rs - j)") auto

fun strip_dots :: "nat list \<Rightarrow> nat \<Rightarrow> nat \<Rightarrow> nat" where
  "strip_dots rs i 0 = 0"
| "strip_dots rs i (Suc j) = (if Suc j > i + 1 \<and> rs ! j = rune CHR ''.'' then strip_dots rs i j else Suc j)"

lemma name_end_ge: "j \<le> name_end u rs j"
  by (induction u rs j rule: name_end.induct) (metis Suc_eq_plus1 Suc_leD name_end.simps order_refl)

lemma strip_dots_ge: "i + 1 \<le> j \<Longrightarrow> i + 1 \<le> strip_dots rs i j"
  by (induction rs i j rule: strip_dots.induct) auto

declare name_end.simps [simp del]

function scan_mentions :: "unicode_tables \<Rightarrow> nat list \<Rightarrow> nat \<Rightarrow> string list" where
  "scan_mentions u rs i =
     (if i \<ge> length rs then []
      else if rs ! i \<noteq> rune CHR ''@'' \<or> i + 1 \<ge> length rs \<or> (i > 0 \<and> \<not> isMentionBoundary u (rs ! (i - 1))) \<or>
        \<not> isMentionNameRune u (rs ! (i + 1))
      then scan_mentions u rs (i + 1)
      else
        (let j = strip_dots rs i (name_end u rs (i + 1)) in
         of_runes (take (j - (i + 1)) (drop (i + 1) rs)) # scan_mentions u rs j))"
  by pat_completeness auto
termination
proof (relation "measure (\<lambda>(u, rs, i). length rs - i)", goal_cases)
  case (3 u rs i x)
  have "i + 1 \<le> x" unfolding 3(3) using strip_dots_ge name_end_ge .
  moreover have "i < length rs" using 3(1) by simp
  ultimately show ?case by (simp add: diff_less_mono2)
qed simp_all

declare scan_mentions.simps [simp del]

definition tokenizeMentions :: "unicode_tables \<Rightarrow> string \<Rightarrow> string list" where
  "tokenizeMentions u content = scan_mentions u (runes_of content) 0"

text \<open>What a mention is, without the loop: the sign after a boundary, then the longest run of name runes, less its trailing dots.\<close>

definition mention_at :: "unicode_tables \<Rightarrow> nat list \<Rightarrow> nat \<Rightarrow> string option" where
  "mention_at u rs i =
     (if rs ! i = rune CHR ''@'' \<and> (i = 0 \<or> isMentionBoundary u (rs ! (i - 1))) \<and> takeWhile (isMentionNameRune u) (drop (i + 1) rs) \<noteq> []
      then Some (of_runes (rev (dropWhile (\<lambda>r. r = rune CHR ''.'') (rev (takeWhile (isMentionNameRune u) (drop (i + 1) rs)))))) else None)"

lemma name_end_run: "name_end u rs j = (if j \<le> length rs then j + length (takeWhile (isMentionNameRune u) (drop j rs)) else j)"
proof (induction u rs j rule: name_end.induct)
  case (1 u rs j)
  show ?case
  proof (cases "j < length rs")
    case True
    then have "drop j rs = rs ! j # drop (j + 1) rs" by (simp add: Cons_nth_drop_Suc)
    then show ?thesis using 1 True by (simp add: name_end.simps [of u rs j])
  qed (simp add: name_end.simps [of u rs j])
qed

lemma strip_dots_run:
  assumes "j = i + 1 + length run" "take (length run) (drop (i + 1) rs) = run" "j \<le> length rs"
  shows "strip_dots rs i j = i + 1 + length (dropWhile (\<lambda>r. r = rune CHR ''.'') (rev run))"
  using assms
proof (induction run arbitrary: j rule: rev_induct)
  case (snoc x run)
  then have j: "j = Suc (i + 1 + length run)" by simp
  have t: "take (Suc (length run)) (drop (i + 1) rs) = run @ [x]" using snoc.prems(2) by simp
  have "take (Suc (length run)) (drop (i + 1) rs) ! length run = rs ! (i + 1 + length run)" using snoc.prems(3) j by simp
  then have "rs ! (i + 1 + length run) = x" unfolding t by simp
  moreover have "take (length run) (drop (i + 1) rs) = run" using arg_cong [OF t, of "take (length run)"] by simp
  ultimately show ?case using snoc.IH [of "i + 1 + length run"] snoc.prems(3) j by simp
qed (simp add: strip_dots.simps)

lemma scan_at:
  assumes "i < length rs" "mention_at u rs i = Some tok"
  shows "\<exists>j > i. j \<le> length rs \<and> scan_mentions u rs i = tok # scan_mentions u rs j \<and> (\<forall>k. i < k \<longrightarrow> k < j \<longrightarrow> isMentionNameRune u (rs ! k))"
proof -
  let ?run = "takeWhile (isMentionNameRune u) (drop (i + 1) rs)"
  let ?tok = "rev (dropWhile (\<lambda>r. r = rune CHR ''.'') (rev ?run))"
  let ?j = "i + 1 + length ?tok"
  have m: "rs ! i = rune CHR ''@''" "i = 0 \<or> isMentionBoundary u (rs ! (i - 1))" "?run \<noteq> []" "tok = of_runes ?tok"
    using assms(2) by (auto simp: mention_at_def split: if_splits)
  have l: "i + 1 < length rs" using m(3) by (metis drop_eq_Nil not_le takeWhile.simps(1))
  then have d: "drop (i + 1) rs = rs ! (i + 1) # drop (i + 2) rs" by (simp add: Cons_nth_drop_Suc)
  have n: "isMentionNameRune u (rs ! (i + 1))" using m(3) unfolding d by (simp split: if_splits)
  have r: "length ?run \<le> length rs - (i + 1)" using length_takeWhile_le [of "isMentionNameRune u" "drop (i + 1) rs"] by simp
  have e: "name_end u rs (i + 1) = i + 1 + length ?run" using l by (simp add: name_end_run)
  have t: "take (length ?run) (drop (i + 1) rs) = ?run" by (metis takeWhile_eq_take)
  have "strip_dots rs i (name_end u rs (i + 1)) = ?j"
    unfolding e using strip_dots_run [OF refl t] r l by simp
  moreover have p: "prefix ?tok ?run" by (metis rev_rev_ident suffix_dropWhile suffix_to_prefix)
  then have "take (length ?tok) (drop (i + 1) rs) = ?tok"
  proof -
    have "take (length ?tok) ?run = ?tok" using p by (metis append_eq_conv_conj prefixE)
    then have "take (length ?tok) (take (length ?run) (drop (i + 1) rs)) = ?tok" unfolding t .
    then show ?thesis unfolding take_take min.absorb1 [OF prefix_length_le [OF p]] .
  qed
  ultimately have "scan_mentions u rs i = tok # scan_mentions u rs ?j"
    using m l n assms(1) by (subst scan_mentions.simps) (fastforce simp: Let_def)
  moreover have "isMentionNameRune u (rs ! k)" if "i < k" "k < ?j" for k
  proof -
    have "k - (i + 1) < length ?run" using that prefix_length_le [OF p] by linarith
    then have "isMentionNameRune u (?run ! (k - (i + 1)))" by (meson nth_mem set_takeWhileD)
    then have "isMentionNameRune u (drop (i + 1) rs ! (k - (i + 1)))" using \<open>k - (i + 1) < length ?run\<close> by (simp add: takeWhile_nth)
    then show ?thesis using that l by (simp add: nth_drop)
  qed
  moreover have "?j \<le> length rs" using r l prefix_length_le [OF p] by linarith
  ultimately show ?thesis by (intro exI [of _ ?j]) auto
qed

lemma scan_not_at:
  assumes "i < length rs" "mention_at u rs i = None"
  shows "scan_mentions u rs i = scan_mentions u rs (i + 1)"
proof -
  have "isMentionNameRune u (rs ! (i + 1)) \<longrightarrow> takeWhile (isMentionNameRune u) (drop (i + 1) rs) \<noteq> []" if "i + 1 < length rs"
  proof -
    have "drop (i + 1) rs = rs ! (i + 1) # drop (i + 2) rs" using that by (simp add: Cons_nth_drop_Suc)
    then show ?thesis by simp
  qed
  then show ?thesis using assms by (subst scan_mentions.simps) (auto simp: mention_at_def split: if_splits)
qed

lemma scan_exact:
  assumes "\<not> un_letter u (rune CHR ''@'')" "\<not> un_digit u (rune CHR ''@'')"
  shows "scan_mentions u rs i = List.map_filter (mention_at u rs) [i..<length rs]"
proof (induction "length rs - i" arbitrary: i rule: less_induct)
  case less
  show ?case
  proof (cases "i < length rs")
    case True
    show ?thesis
    proof (cases "mention_at u rs i")
      case None
      then show ?thesis using less [of "i + 1"] scan_not_at [OF True None] True
        by (simp add: upt_rec [of i] List.map_filter_simps)
    next
      case (Some tok)
      obtain j where j: "i < j" "j \<le> length rs" "scan_mentions u rs i = tok # scan_mentions u rs j"
        "\<forall>k. i < k \<longrightarrow> k < j \<longrightarrow> isMentionNameRune u (rs ! k)" using scan_at [OF True Some] by blast
      have "mention_at u rs k = None" if "i < k" "k < j" for k
      proof -
        have "isMentionNameRune u (rs ! k)" using j(4) that by blast
        then have "rs ! k \<noteq> rune CHR ''@''" using assms by (auto simp: isMentionNameRune_def rune_def)
        then show ?thesis by (simp add: mention_at_def)
      qed
      then have "List.map_filter (mention_at u rs) [i + 1..<j] = []" by (induction j) (auto simp: List.map_filter_simps List.map_filter_def)
      moreover have "[i..<length rs] = i # [i + 1..<j] @ [j..<length rs]" using j(1,2) True
        by (metis Suc_eq_plus1 Suc_leI le_add_diff_inverse upt_add_eq_append upt_conv_Cons)
      moreover have "scan_mentions u rs j = List.map_filter (mention_at u rs) [j..<length rs]" using less [of j] j(1,2) True by simp
      ultimately show ?thesis using j(3) Some by (simp add: List.map_filter_simps List.map_filter_def)
    qed
  qed (simp add: scan_mentions.simps List.map_filter_simps)
qed

section \<open>Names that two share\<close>

text \<open>The loop both indexes use: the last entry per name, then every name counted more than once is deleted.\<close>

fun count_names :: "('a \<Rightarrow> string) \<Rightarrow> 'a list \<Rightarrow> (string \<Rightarrow> nat) \<times> (string \<rightharpoonup> 'a) \<Rightarrow> (string \<Rightarrow> nat) \<times> (string \<rightharpoonup> 'a)" where
  "count_names key [] acc = acc"
| "count_names key (x # xs) (counts, names) =
     count_names key xs (if key x = [] then (counts, names) else (counts(key x := counts (key x) + 1), names(key x \<mapsto> x)))"

definition unambiguous :: "(string \<Rightarrow> nat) \<times> (string \<rightharpoonup> 'a) \<Rightarrow> string \<rightharpoonup> 'a" where
  "unambiguous acc dn = (if fst acc dn > 1 then None else snd acc dn)"

definition buildDisplayNameIndexWithResolver ::
  "unicode_tables \<Rightarrow> conversation_member list \<Rightarrow> (int \<Rightarrow> string \<Rightarrow> string) \<Rightarrow> string \<rightharpoonup> conversation_member" where
  "buildDisplayNameIndexWithResolver u members resolve =
     unambiguous (count_names (\<lambda>m. normalizeMentionName u (resolve (cmb_MemberType m) (cmb_MemberID m)))
       (filter (\<lambda>m. cmb_MemberID m \<noteq> []) members) (\<lambda>_. 0, Map.empty))"

text \<open>An agent or user of the directory.\<close>

record directory_entry =
  de_ID :: int
  de_Type :: string
  de_Handle :: string
  de_Name :: string
  de_Deleted :: bool

record mention_index =
  mx_byHandle :: "string \<rightharpoonup> mention"
  mx_byDisplayName :: "string \<rightharpoonup> mention"

definition entry_mention :: "directory_entry \<Rightarrow> mention" where
  "entry_mention e = \<lparr>mt_type = de_Type e, mt_id = de_Handle e, mt_name = (if de_Name e = [] then de_Handle e else de_Name e)\<rparr>"

fun index_handles :: "unicode_tables \<Rightarrow> directory_entry list \<Rightarrow> (string \<rightharpoonup> mention) \<Rightarrow> string \<rightharpoonup> mention" where
  "index_handles u [] m = m"
| "index_handles u (e # es) m =
     index_handles u es (if normalizeMentionName u (de_Handle e) = [] then m else m(normalizeMentionName u (de_Handle e) \<mapsto> entry_mention e))"

text \<open>Agents come before users.\<close>

definition typed :: "directory_entry list \<Rightarrow> directory_entry list \<Rightarrow> directory_entry list" where
  "typed agents users = map (\<lambda>e. e\<lparr>de_Type := ''agent''\<rparr>) agents @ map (\<lambda>e. e\<lparr>de_Type := ''user''\<rparr>) users"

definition BuildGlobalMentionIndex :: "unicode_tables \<Rightarrow> directory_entry list \<Rightarrow> directory_entry list \<Rightarrow> mention_index" where
  "BuildGlobalMentionIndex u agents users =
     (let es = filter (\<lambda>e. de_Handle e \<noteq> [] \<and> \<not> de_Deleted e) (typed agents users) in
      \<lparr>mx_byHandle = index_handles u es Map.empty,
       mx_byDisplayName = map_option entry_mention \<circ> unambiguous (count_names (\<lambda>e. normalizeMentionName u (de_Name e)) es (\<lambda>_. 0, Map.empty))\<rparr>)"

definition index_Get :: "mention_index \<Rightarrow> string \<Rightarrow> mention option" where
  "index_Get x key = (case mx_byHandle x key of Some m \<Rightarrow> Some m | None \<Rightarrow> mx_byDisplayName x key)"

text \<open>The cached index, filled on first use; the two lists are what the stores return.\<close>

definition GetGlobalMentionIndex ::
  "unicode_tables \<Rightarrow> directory_entry list option \<Rightarrow> directory_entry list option \<Rightarrow> mention_index option \<Rightarrow>
     mention_index option \<times> mention_index option" where
  "GetGlobalMentionIndex u agents users cached =
     (case cached of
        Some x \<Rightarrow> (Some x, cached)
      | None \<Rightarrow>
          (case (agents, users) of
             (Some as, Some us) \<Rightarrow> (let x = BuildGlobalMentionIndex u as us in (Some x, Some x))
           | _ \<Rightarrow> (None, None)))"

section \<open>Resolution\<close>

record mention_env =
  mv_unicode :: unicode_tables
  mv_agent :: "string \<Rightarrow> directory_entry option"
  mv_user :: "string \<Rightarrow> directory_entry option"
  mv_agents :: "directory_entry list option"
  mv_users :: "directory_entry list option"

definition resolveMemberDisplayName :: "mention_env \<Rightarrow> int \<Rightarrow> string \<Rightarrow> string" where
  "resolveMemberDisplayName env memberType memberID =
     (if memberType = MemberTypeUser then (case mv_user env memberID of None \<Rightarrow> memberID | Some e \<Rightarrow> de_Name e)
      else if memberType = MemberTypeAgent then (case mv_agent env memberID of None \<Rightarrow> memberID | Some e \<Rightarrow> de_Name e)
      else memberID)"

definition buildDisplayNameIndex :: "mention_env \<Rightarrow> conversation_member list \<Rightarrow> string \<rightharpoonup> conversation_member" where
  "buildDisplayNameIndex env members = buildDisplayNameIndexWithResolver (mv_unicode env) members (resolveMemberDisplayName env)"

definition mentionTypeString :: "int \<Rightarrow> string" where
  "mentionTypeString memberType = (if memberType = MemberTypeAgent then ''agent'' else ''user'')"

definition mention_key :: "string \<Rightarrow> string \<Rightarrow> string" where
  "mention_key mType mID = mType @ '':'' @ mID"

record mention_candidate =
  ca_Type :: string
  ca_ID :: string
  ca_DisplayName :: string

definition addCandidate :: "string \<Rightarrow> string \<Rightarrow> string \<Rightarrow> mention_candidate list \<Rightarrow> mention_candidate list" where
  "addCandidate mType mID displayName cs =
     (if mID = [] \<or> mention_key mType mID \<in> set (map (\<lambda>c. mention_key (ca_Type c) (ca_ID c)) cs) then cs
      else cs @ [\<lparr>ca_Type = mType, ca_ID = mID, ca_DisplayName = (if displayName = [] then mID else displayName)\<rparr>])"

fun index_members :: "unicode_tables \<Rightarrow> conversation_member list \<Rightarrow> (string \<rightharpoonup> conversation_member) \<Rightarrow> string \<rightharpoonup> conversation_member" where
  "index_members u [] f = f"
| "index_members u (m # ms) f =
     index_members u ms (if cmb_MemberID m = [] then f else f(normalizeMentionName u (cmb_MemberID m) \<mapsto> m))"

text \<open>One token: the candidates so far, the index this call holds, and the cached one.\<close>

record mention_state =
  ms_candidates :: "mention_candidate list"
  ms_index :: "mention_index option"
  ms_cache :: "mention_index option"

definition live :: "directory_entry option \<Rightarrow> directory_entry option" where
  "live e = Option.bind e (\<lambda>x. if de_Deleted x then None else Some x)"

definition add_entry :: "string \<Rightarrow> directory_entry \<Rightarrow> mention_state \<Rightarrow> mention_state" where
  "add_entry mType e s = s\<lparr>ms_candidates := addCandidate mType (de_Handle e) (de_Name e) (ms_candidates s)\<rparr>"

definition add_found :: "string \<Rightarrow> mention_state \<Rightarrow> mention_state" where
  "add_found key s =
     (case Option.bind (ms_index s) (\<lambda>x. index_Get x key) of
        None \<Rightarrow> s
      | Some m \<Rightarrow> s\<lparr>ms_candidates := addCandidate (mt_type m) (mt_id m) (mt_name m) (ms_candidates s)\<rparr>)"

definition directory_token :: "mention_env \<Rightarrow> string \<Rightarrow> mention_state \<Rightarrow> mention_state" where
  "directory_token env key s =
     (if ms_index s \<noteq> None then add_found key s
      else
        (case live (mv_agent env key) of
           Some a \<Rightarrow> add_entry ''agent'' a s
         | None \<Rightarrow>
             (case live (mv_user env key) of
                Some e \<Rightarrow> add_entry ''user'' e s
              | None \<Rightarrow>
                  (let (x, cached) = GetGlobalMentionIndex (mv_unicode env) (mv_agents env) (mv_users env) (ms_cache s) in
                   add_found key (s\<lparr>ms_index := x, ms_cache := cached\<rparr>)))))"

definition mention_token :: "mention_env \<Rightarrow> conversation_member list \<Rightarrow> mention_state \<Rightarrow> string \<Rightarrow> mention_state" where
  "mention_token env members s token =
     (let key = normalizeMentionName (mv_unicode env) token in
      if key = [] then s
      else
        (case (case index_members (mv_unicode env) members Map.empty key of
                 Some m \<Rightarrow> Some m | None \<Rightarrow> buildDisplayNameIndex env members key) of
           Some m \<Rightarrow>
             s\<lparr>ms_candidates := addCandidate (mentionTypeString (cmb_MemberType m)) (cmb_MemberID m)
                 (resolveMemberDisplayName env (cmb_MemberType m) (cmb_MemberID m)) (ms_candidates s)\<rparr>
         | None \<Rightarrow> directory_token env key s))"

definition display_name :: "mention_candidate \<Rightarrow> string" where
  "display_name c = (if ca_DisplayName c = [] then ca_ID c else ca_DisplayName c)"

definition buildMentionsWithDisplayNames :: "unicode_tables \<Rightarrow> mention_candidate list \<Rightarrow> mention list" where
  "buildMentionsWithDisplayNames u cs =
     (let nameCounts = (\<lambda>n. length (filter (\<lambda>c. normalizeMentionName u (display_name c) = n) cs)) in
      map (\<lambda>c. \<lparr>mt_type = ca_Type c, mt_id = ca_ID c,
                mt_name = (if nameCounts (normalizeMentionName u (display_name c)) > 1 then ca_ID c else display_name c)\<rparr>) cs)"

definition parseContentMentions ::
  "mention_env \<Rightarrow> member_env \<Rightarrow> (string \<Rightarrow> bool) \<Rightarrow> uuid \<Rightarrow> string \<Rightarrow> mention_index option \<Rightarrow> member_db \<Rightarrow>
     mention list \<times> mention_index option \<times> member_db" where
  "parseContentMentions env menv fails convID content cached md =
     (case ListConversationMembers menv fails convID md of
        (Inl _, md1) \<Rightarrow> ([], cached, md1)
      | (Inr members, md1) \<Rightarrow>
          (let s = foldl (mention_token env members) \<lparr>ms_candidates = [], ms_index = None, ms_cache = cached\<rparr>
                     (tokenizeMentions (mv_unicode env) content) in
           (buildMentionsWithDisplayNames (mv_unicode env) (ms_candidates s), ms_cache s, md1)))"

fun merge_loop :: "mention option list \<Rightarrow> mention list \<Rightarrow> mention list" where
  "merge_loop [] out = out"
| "merge_loop (None # ms) out = merge_loop ms out"
| "merge_loop (Some m # ms) out =
     merge_loop ms (if mention_key (mt_type m) (mt_id m) \<in> set (map (\<lambda>x. mention_key (mt_type x) (mt_id x)) out) then out else out @ [m])"

definition mergeMentions :: "mention list \<Rightarrow> mention option list \<Rightarrow> mention list" where
  "mergeMentions parsed client = merge_loop (map Some parsed @ client) []"

section \<open>What resolves\<close>

lemma count_names_exact:
  "fst (count_names key xs (counts, names)) dn = counts dn + (if dn = [] then 0 else length (filter (\<lambda>x. key x = dn) xs)) \<and>
   snd (count_names key xs (counts, names)) dn =
     (if dn = [] \<or> filter (\<lambda>x. key x = dn) xs = [] then names dn else Some (last (filter (\<lambda>x. key x = dn) xs)))"
  by (induction xs arbitrary: counts names) auto

text \<open>A name is in the index exactly when one entry carries it.\<close>

lemma unambiguous_exact:
  "unambiguous (count_names key xs (\<lambda>_. 0, Map.empty)) dn = Some x \<longleftrightarrow> dn \<noteq> [] \<and> filter (\<lambda>x. key x = dn) xs = [x]"
proof -
  note c = count_names_exact [of key xs "\<lambda>_. 0" Map.empty dn]
  consider "filter (\<lambda>x. key x = dn) xs = []" | y where "filter (\<lambda>x. key x = dn) xs = [y]"
    | y z ys where "filter (\<lambda>x. key x = dn) xs = y # z # ys"
    by (metis neq_Nil_conv)
  then show ?thesis using c by cases (auto simp: unambiguous_def)
qed

lemma display_name_index_exact:
  "buildDisplayNameIndexWithResolver u members resolve dn = Some m \<longleftrightarrow>
     dn \<noteq> [] \<and> filter (\<lambda>m. cmb_MemberID m \<noteq> [] \<and> normalizeMentionName u (resolve (cmb_MemberType m) (cmb_MemberID m)) = dn) members = [m]"
  unfolding buildDisplayNameIndexWithResolver_def unambiguous_exact filter_filter by (simp add: conj_commute)

lemma directory_names_exact:
  "mx_byDisplayName (BuildGlobalMentionIndex u agents users) dn = Some m \<longleftrightarrow>
     dn \<noteq> [] \<and> (\<exists>e. m = entry_mention e \<and>
       filter (\<lambda>e. de_Handle e \<noteq> [] \<and> \<not> de_Deleted e \<and> normalizeMentionName u (de_Name e) = dn) (typed agents users) = [e])"
proof -
  have "mx_byDisplayName (BuildGlobalMentionIndex u agents users) dn = Some m \<longleftrightarrow>
      (\<exists>e. m = entry_mention e \<and> unambiguous (count_names (\<lambda>e. normalizeMentionName u (de_Name e))
        (filter (\<lambda>e. de_Handle e \<noteq> [] \<and> \<not> de_Deleted e) (typed agents users)) (\<lambda>_. 0, Map.empty)) dn = Some e)"
    by (auto simp: BuildGlobalMentionIndex_def Let_def)
  then show ?thesis unfolding unambiguous_exact filter_filter conj_assoc by (auto simp: conj_commute conj_left_commute)
qed

lemma index_members_exact:
  assumes "distinct (map (\<lambda>m. normalizeMentionName u (cmb_MemberID m)) members)" "m \<in> set members" "cmb_MemberID m \<noteq> []"
  shows "index_members u members f (normalizeMentionName u (cmb_MemberID m)) = Some m"
proof -
  have "index_members u ms f k = f k" if "k \<notin> set (map (\<lambda>m. normalizeMentionName u (cmb_MemberID m)) ms)" for ms f k
    using that by (induction ms arbitrary: f) auto
  then show ?thesis using assms by (induction members arbitrary: f) (auto simp: image_iff)
qed

definition from_directory :: "mention_env \<Rightarrow> mention_index option \<Rightarrow> mention_index \<Rightarrow> bool" where
  "from_directory env cached x \<longleftrightarrow> cached = Some x \<or>
     (\<exists>as us. mv_agents env = Some as \<and> mv_users env = Some us \<and> x = BuildGlobalMentionIndex (mv_unicode env) as us)"

text \<open>The ways a token can name something: a member's handle, a display name only one member has, a handle or an unshared name of the
  directory.\<close>

definition names_member :: "mention_env \<Rightarrow> conversation_member list \<Rightarrow> string \<Rightarrow> conversation_member \<Rightarrow> bool" where
  "names_member env members key m \<longleftrightarrow> m \<in> set members \<and> cmb_MemberID m \<noteq> [] \<and>
     (normalizeMentionName (mv_unicode env) (cmb_MemberID m) = key \<or> buildDisplayNameIndex env members key = Some m)"

definition resolves :: "mention_env \<Rightarrow> conversation_member list \<Rightarrow> mention_index option \<Rightarrow> string \<Rightarrow> string \<Rightarrow> string \<Rightarrow> bool" where
  "resolves env members cached key t i \<longleftrightarrow>
     (\<exists>m. names_member env members key m \<and> t = mentionTypeString (cmb_MemberType m) \<and> i = cmb_MemberID m) \<or>
     (\<exists>e. live (mv_agent env key) = Some e \<and> t = ''agent'' \<and> i = de_Handle e) \<or>
     (\<exists>e. live (mv_user env key) = Some e \<and> t = ''user'' \<and> i = de_Handle e) \<or>
     (\<exists>x m. from_directory env cached x \<and> index_Get x key = Some m \<and> t = mt_type m \<and> i = mt_id m)"

definition candidate_keys :: "mention_candidate list \<Rightarrow> string list" where
  "candidate_keys cs = map (\<lambda>c. mention_key (ca_Type c) (ca_ID c)) cs"

definition resolved_ok :: "mention_env \<Rightarrow> conversation_member list \<Rightarrow> mention_index option \<Rightarrow> string set \<Rightarrow> mention_state \<Rightarrow> bool" where
  "resolved_ok env members cached keys s \<longleftrightarrow> distinct (candidate_keys (ms_candidates s)) \<and>
     (\<forall>c \<in> set (ms_candidates s). \<exists>k \<in> keys. resolves env members cached k (ca_Type c) (ca_ID c)) \<and>
     (\<forall>x. ms_index s = Some x \<or> ms_cache s = Some x \<longrightarrow> from_directory env cached x)"

lemma add_candidate_ok:
  assumes "resolved_ok env members cached keys s" "resolves env members cached k t i"
  shows "resolved_ok env members cached (insert k keys) (s\<lparr>ms_candidates := addCandidate t i dn (ms_candidates s)\<rparr>)"
  using assms by (auto simp: resolved_ok_def addCandidate_def candidate_keys_def)

lemma resolved_ok_mono: "resolved_ok env members cached keys s \<Longrightarrow> resolved_ok env members cached (insert k keys) s"
  by (auto simp: resolved_ok_def)

lemma add_found_ok:
  assumes "resolved_ok env members cached keys s"
  shows "resolved_ok env members cached (insert k keys) (add_found k s)"
proof (cases "Option.bind (ms_index s) (\<lambda>x. index_Get x k)")
  case None
  then show ?thesis using resolved_ok_mono [OF assms] by (simp add: add_found_def)
next
  case (Some m)
  then obtain x where "ms_index s = Some x" "index_Get x k = Some m" by (cases "ms_index s") auto
  then have "resolves env members cached k (mt_type m) (mt_id m)" using assms by (auto simp: resolves_def resolved_ok_def)
  then show ?thesis using add_candidate_ok [OF assms] Some by (simp add: add_found_def)
qed

lemma fetched_index_ok:
  assumes "resolved_ok env members cached keys s"
    "GetGlobalMentionIndex (mv_unicode env) (mv_agents env) (mv_users env) (ms_cache s) = (x, c)"
  shows "resolved_ok env members cached keys (s\<lparr>ms_index := x, ms_cache := c\<rparr>)"
proof -
  have "from_directory env cached y" if "x = Some y \<or> c = Some y" for y
    using assms that unfolding GetGlobalMentionIndex_def resolved_ok_def from_directory_def by (auto simp: Let_def split: option.splits)
  then show ?thesis using assms(1) by (simp add: resolved_ok_def)
qed

lemma directory_token_ok:
  assumes "resolved_ok env members cached keys s"
  shows "resolved_ok env members cached (insert k keys) (directory_token env k s)"
proof (cases "ms_index s")
  case (Some x)
  then show ?thesis using add_found_ok [OF assms] by (simp add: directory_token_def)
next
  case None
  show ?thesis
  proof (cases "live (mv_agent env k)")
    case (Some a)
    then show ?thesis using add_candidate_ok [OF assms] None by (auto simp: directory_token_def add_entry_def resolves_def)
  next
    case agent: None
    show ?thesis
    proof (cases "live (mv_user env k)")
      case (Some e)
      then show ?thesis using add_candidate_ok [OF assms] None agent by (auto simp: directory_token_def add_entry_def resolves_def)
    next
      case user: None
      obtain x c where g: "GetGlobalMentionIndex (mv_unicode env) (mv_agents env) (mv_users env) (ms_cache s) = (x, c)" by fastforce
      then have "directory_token env k s = add_found k (s\<lparr>ms_index := x, ms_cache := c\<rparr>)"
        using None agent user by (simp add: directory_token_def)
      then show ?thesis using add_found_ok [OF fetched_index_ok [OF assms g]] by simp
    qed
  qed
qed

lemma index_members_names:
  assumes "index_members u members f k = Some m" "f k \<noteq> Some m"
  shows "m \<in> set members \<and> cmb_MemberID m \<noteq> [] \<and> normalizeMentionName u (cmb_MemberID m) = k"
  using assms
proof (induction members arbitrary: f)
  case (Cons a ms)
  let ?f = "if cmb_MemberID a = [] then f else f(normalizeMentionName u (cmb_MemberID a) \<mapsto> a)"
  show ?case
  proof (cases "?f k = Some m")
    case True
    then show ?thesis using Cons.prems(2) by (auto split: if_splits)
  next
    case False
    then show ?thesis using Cons.IH [of ?f] Cons.prems(1) by simp
  qed
qed simp

lemma mention_token_ok:
  assumes "resolved_ok env members cached keys s"
  shows "resolved_ok env members cached (insert (normalizeMentionName (mv_unicode env) tok) keys) (mention_token env members s tok)"
proof -
  let ?k = "normalizeMentionName (mv_unicode env) tok"
  let ?m = "case index_members (mv_unicode env) members Map.empty ?k of Some m \<Rightarrow> Some m | None \<Rightarrow> buildDisplayNameIndex env members ?k"
  have names: "names_member env members ?k m" if "?m = Some m" for m
  proof (cases "index_members (mv_unicode env) members Map.empty ?k")
    case (Some m')
    then show ?thesis using that index_members_names [OF Some] by (simp add: names_member_def)
  next
    case None
    then have b: "buildDisplayNameIndex env members ?k = Some m" using that by simp
    then have "[m] = filter (\<lambda>m. cmb_MemberID m \<noteq> [] \<and> normalizeMentionName (mv_unicode env)
        (resolveMemberDisplayName env (cmb_MemberType m) (cmb_MemberID m)) = ?k) members"
      unfolding buildDisplayNameIndex_def display_name_index_exact by simp
    from arg_cong [OF this, of set] show ?thesis using b by (auto simp: names_member_def)
  qed
  show ?thesis
  proof (cases "?k = []")
    case True
    then show ?thesis using resolved_ok_mono [OF assms] by (simp add: mention_token_def)
  next
    case False
    show ?thesis
    proof (cases ?m)
      case None
      then show ?thesis using directory_token_ok [OF assms] False by (simp add: mention_token_def Let_def)
    next
      case (Some m)
      then have "resolves env members cached ?k (mentionTypeString (cmb_MemberType m)) (cmb_MemberID m)"
        using names by (auto simp: resolves_def)
      then show ?thesis using add_candidate_ok [OF assms] False Some by (simp add: mention_token_def Let_def)
    qed
  qed
qed

lemma mention_tokens_ok:
  assumes "resolved_ok env members cached keys s"
  shows "resolved_ok env members cached (keys \<union> normalizeMentionName (mv_unicode env) ` set toks) (foldl (mention_token env members) s toks)"
  using assms
proof (induction toks arbitrary: keys s)
  case (Cons t ts)
  from Cons.IH [OF mention_token_ok [OF Cons.prems]] show ?case by simp
qed simp

text \<open>Candidates stay, and a member's handle always gives the member.\<close>

lemma candidates_stay:
  "prefix (ms_candidates s) (ms_candidates (foldl (mention_token env members) s toks))"
proof (induction toks arbitrary: s)
  case (Cons t ts)
  have add: "prefix cs (addCandidate a b c cs)" for a b c cs by (simp add: addCandidate_def)
  have found: "prefix (ms_candidates s) (ms_candidates (add_found k s))" for k s by (auto simp: add_found_def add split: option.split)
  have "prefix (ms_candidates s) (ms_candidates (directory_token env k s))" for k
    using found [of s k] found [of "s\<lparr>ms_index := a, ms_cache := b\<rparr>" k for a b]
    by (auto simp: directory_token_def add_entry_def add split: option.split prod.split)
  then have "prefix (ms_candidates s) (ms_candidates (mention_token env members s t))"
    by (auto simp: mention_token_def add Let_def split: option.split)
  then show ?case using Cons.IH [of "mention_token env members s t"] by simp
qed simp

lemma handle_found:
  assumes "distinct (map (\<lambda>m. normalizeMentionName (mv_unicode env) (cmb_MemberID m)) members)" "m \<in> set members" "cmb_MemberID m \<noteq> []"
    and "tok \<in> set toks" "normalizeMentionName (mv_unicode env) tok = normalizeMentionName (mv_unicode env) (cmb_MemberID m)"
    and "normalizeMentionName (mv_unicode env) tok \<noteq> []"
  shows "mention_key (mentionTypeString (cmb_MemberType m)) (cmb_MemberID m) \<in>
    set (candidate_keys (ms_candidates (foldl (mention_token env members) s toks)))"
proof -
  obtain before after where toks: "toks = before @ tok # after" using assms(4) by (meson split_list)
  let ?s = "foldl (mention_token env members) s before"
  have "mention_token env members ?s tok = ?s\<lparr>ms_candidates := addCandidate (mentionTypeString (cmb_MemberType m)) (cmb_MemberID m)
      (resolveMemberDisplayName env (cmb_MemberType m) (cmb_MemberID m)) (ms_candidates ?s)\<rparr>"
    using assms(6) index_members_exact [OF assms(1-3)] assms(5) by (simp add: mention_token_def Let_def)
  then have "mention_key (mentionTypeString (cmb_MemberType m)) (cmb_MemberID m) \<in>
      set (candidate_keys (ms_candidates (mention_token env members ?s tok)))"
    using assms(3) by (auto simp: addCandidate_def candidate_keys_def)
  moreover have "prefix (ms_candidates (mention_token env members ?s tok)) (ms_candidates (foldl (mention_token env members) s toks))"
    unfolding toks using candidates_stay by simp
  ultimately show ?thesis by (auto simp: candidate_keys_def prefix_def)
qed

text \<open>C29: The scanner finds exactly the mentions of a text, in order: one for every at-sign that opens the text or follows a space or
  punctuation mark and is followed by a name character, and the token is the longest run of name characters less its trailing dots.\<close>

theorem tokenize_exact:
  assumes "\<not> un_letter u (rune CHR ''@'')" "\<not> un_digit u (rune CHR ''@'')"
  shows "tokenizeMentions u content = List.map_filter (mention_at u (runes_of content)) [0..<length (runes_of content)]"
  unfolding tokenizeMentions_def by (rule scan_exact [OF assms])

text \<open>C30: The mentions parsed from the text of a message name each agent or user once; each of them is what some token of the text resolves to: the
  member with that handle, the only member with that display name, or an entry of the directory of agents and users; and
  a token that is a member's handle mentions that member, as long as the handles of the members are all different after normalization and neither the handle nor
  the normalized token is empty. This is of the parser alone: a request may bring mentions of its own beside those of its text.\<close>

theorem mentions_resolve:
  assumes "ListConversationMembers menv fails convID md = (Inr members, md1)"
    and "parseContentMentions env menv fails convID content cached md = (ms, cached', md')"
  shows "distinct (map (\<lambda>x. (mt_type x, mt_id x)) ms) \<and>
    (\<forall>x \<in> set ms. \<exists>tok \<in> set (tokenizeMentions (mv_unicode env) content).
       resolves env members cached (normalizeMentionName (mv_unicode env) tok) (mt_type x) (mt_id x)) \<and>
    (\<forall>m \<in> set members. \<forall>tok \<in> set (tokenizeMentions (mv_unicode env) content).
       distinct (map (\<lambda>m. normalizeMentionName (mv_unicode env) (cmb_MemberID m)) members) \<longrightarrow> cmb_MemberID m \<noteq> [] \<longrightarrow>
       normalizeMentionName (mv_unicode env) tok \<noteq> [] \<longrightarrow>
       normalizeMentionName (mv_unicode env) tok = normalizeMentionName (mv_unicode env) (cmb_MemberID m) \<longrightarrow>
       mention_key (mentionTypeString (cmb_MemberType m)) (cmb_MemberID m) \<in> set (map (\<lambda>x. mention_key (mt_type x) (mt_id x)) ms))"
proof -
  let ?toks = "tokenizeMentions (mv_unicode env) content"
  let ?init = "\<lparr>ms_candidates = [], ms_index = None, ms_cache = cached\<rparr>"
  let ?s = "foldl (mention_token env members) ?init ?toks"
  have ms: "ms = buildMentionsWithDisplayNames (mv_unicode env) (ms_candidates ?s)"
    using assms by (simp add: parseContentMentions_def Let_def)
  have keys: "map (\<lambda>x. mention_key (mt_type x) (mt_id x)) ms = candidate_keys (ms_candidates ?s)"
    "map (\<lambda>x. (mt_type x, mt_id x)) ms = map (\<lambda>c. (ca_Type c, ca_ID c)) (ms_candidates ?s)"
    by (simp_all add: ms buildMentionsWithDisplayNames_def Let_def candidate_keys_def)
  have "resolved_ok env members cached {} ?init" by (auto simp: resolved_ok_def candidate_keys_def from_directory_def)
  from mention_tokens_ok [OF this, of ?toks] have ok: "distinct (candidate_keys (ms_candidates ?s))"
    "\<forall>c \<in> set (ms_candidates ?s). \<exists>k \<in> normalizeMentionName (mv_unicode env) ` set ?toks. resolves env members cached k (ca_Type c) (ca_ID c)"
    unfolding resolved_ok_def by auto
  have "candidate_keys (ms_candidates ?s) = map (\<lambda>(t, i). mention_key t i) (map (\<lambda>c. (ca_Type c, ca_ID c)) (ms_candidates ?s))"
    by (simp add: candidate_keys_def)
  from ok(1) [unfolded this] have "distinct (map (\<lambda>x. (mt_type x, mt_id x)) ms)"
    unfolding keys(2) by (rule distinct_map [THEN iffD1, THEN conjunct1])
  moreover have "\<exists>tok \<in> set ?toks. resolves env members cached (normalizeMentionName (mv_unicode env) tok) (mt_type x) (mt_id x)"
    if "x \<in> set ms" for x
  proof -
    have "(mt_type x, mt_id x) \<in> (\<lambda>c. (ca_Type c, ca_ID c)) ` set (ms_candidates ?s)"
      using that arg_cong [OF keys(2), of set] unfolding set_map by blast
    then show ?thesis using ok(2) by auto
  qed
  moreover note handle_found [where toks = ?toks and s = ?init and env = env and members = members]
  ultimately show ?thesis unfolding keys(1) by blast
qed

section \<open>Examples\<close>

definition ascii_tables :: unicode_tables where
  "ascii_tables = \<lparr>un_letter = (\<lambda>r. (65 \<le> r \<and> r \<le> 90) \<or> (97 \<le> r \<and> r \<le> 122)), un_digit = (\<lambda>r. 48 \<le> r \<and> r \<le> 57),
     un_space = (\<lambda>r. r = 32 \<or> (9 \<le> r \<and> r \<le> 13)), un_punct = (\<lambda>r. r \<in> {33, 34, 35, 37, 38, 39, 40, 41, 42, 44, 45, 46, 47, 58, 59, 63, 64, 91, 92, 93, 95, 123, 125}),
     un_lower = (\<lambda>r. if 65 \<le> r \<and> r \<le> 90 then r + 32 else r)\<rparr>"

definition sample_mentions :: mention_env where
  "sample_mentions = \<lparr>mv_unicode = ascii_tables, mv_agent = (\<lambda>k. if k = ''rei-a-1'' then Some \<lparr>de_ID = 1, de_Type = ''agent'', de_Handle = ''rei-a-1'', de_Name = ''Rei'', de_Deleted = False\<rparr> else None),
     mv_user = (\<lambda>_. None), mv_agents = Some [], mv_users = Some []\<rparr>"

theorem tokenize_exact_witness: "tokenizeMentions ascii_tables ''mail a@b, @Ran and (@rei-a-1).'' = [''Ran'', ''rei-a-1'']"
proof -
  have "\<not> un_letter ascii_tables (rune CHR ''@'')" "\<not> un_digit ascii_tables (rune CHR ''@'')" by code_simp+
  from tokenize_exact [OF this, of "''mail a@b, @Ran and (@rei-a-1).''"] show ?thesis by code_simp
qed

theorem mentions_resolve_witness:
  "distinct (map (\<lambda>x. (mt_type x, mt_id x))
     (fst (parseContentMentions sample_mentions channel_env no_fail 1 ''ask @b and @rei-a-1'' None channel_db)))"
proof -
  obtain members where "fst (ListConversationMembers channel_env no_fail 1 channel_db) = Inr members"
  proof (cases "fst (ListConversationMembers channel_env no_fail 1 channel_db)")
    case (Inl e)
    moreover have "\<not> isl (fst (ListConversationMembers channel_env no_fail 1 channel_db))" by code_simp
    ultimately show ?thesis by simp
  qed blast
  then have "ListConversationMembers channel_env no_fail 1 channel_db = (Inr members, snd (ListConversationMembers channel_env no_fail 1 channel_db))"
    by (metis prod.collapse)
  moreover obtain ms c md' where p: "parseContentMentions sample_mentions channel_env no_fail 1 ''ask @b and @rei-a-1'' None channel_db = (ms, c, md')"
    by (rule prod_cases3)
  ultimately have "distinct (map (\<lambda>x. (mt_type x, mt_id x)) ms)" using mentions_resolve by blast
  then show ?thesis unfolding p by simp
qed

end
