(* ===== verification/Reactions.thy ===== *)
theory Reactions
  imports Mentions
begin

text \<open>
  Emoji reactions (\<open>backend/manager/store/message_reaction.go\<close>, \<open>backend/common/reaction.go\<close>).

  A reaction row belongs to a user or to an agent. The state pairs the reaction rows with the chat tables, whose room
  notifications they share. The order of emoji in a result is that of a rank, the database's collation.

  The rows implement a set of triples of message, actor and emoji: adding and removing are insertion and deletion of the caller's own
  triple, and a read reports for each emoji of a message the number of its triples.
\<close>

section \<open>Validation\<close>

definition maxReactionEmojiRunes :: nat where "maxReactionEmojiRunes = 16"

definition NormalizeReactionEmoji :: "unicode_tables \<Rightarrow> string \<Rightarrow> string option" where
  "NormalizeReactionEmoji u s =
     (let r = trim_runes u (runes_of s) in
      if r = [] then None
      else if list_ex (un_space u) r \<or> 8203 \<in> set r then None
      else if length r > maxReactionEmojiRunes then None
      else Some (of_runes r))"

section \<open>Rows\<close>

record reaction_row =
  rx_MessageID :: uuid
  rx_PrincipalID :: "int option"
  rx_AgentID :: "int option"
  rx_Emoji :: string
  rx_CreatedAt :: int

record reaction =
  rn_Emoji :: string
  rn_Count :: nat
  rn_Reactors :: "string list"
  rn_Reacted :: bool

record reaction_db =
  rd_rows :: "reaction_row list"
  rd_chat :: chat_db

definition by_caller :: "int option \<Rightarrow> int option \<Rightarrow> reaction_row \<Rightarrow> bool" where
  "by_caller p a r \<longleftrightarrow> rx_PrincipalID r = p \<and> rx_AgentID r = a"

definition actor_check :: "chat_db \<Rightarrow> int option \<Rightarrow> int option \<Rightarrow> bool" where
  "actor_check db p a \<longleftrightarrow>
     (case (p, a) of
        (Some i, None) \<Rightarrow> principal_row db i \<noteq> None
      | (None, Some i) \<Rightarrow> agent_row db i \<noteq> None
      | _ \<Rightarrow> False)"

text \<open>The two partial unique indexes.\<close>

definition reaction_conflict :: "reaction_row \<Rightarrow> reaction_row \<Rightarrow> bool" where
  "reaction_conflict x y \<longleftrightarrow> rx_MessageID x = rx_MessageID y \<and> rx_Emoji x = rx_Emoji y \<and>
     (rx_PrincipalID x \<noteq> None \<and> rx_PrincipalID x = rx_PrincipalID y \<or> rx_AgentID x \<noteq> None \<and> rx_AgentID x = rx_AgentID y)"

definition reactor_name :: "chat_db \<Rightarrow> reaction_row \<Rightarrow> string option" where
  "reactor_name db r =
     (case Option.bind (rx_PrincipalID r) (principal_row db) of
        Some (name, _) \<Rightarrow> Some name
      | None \<Rightarrow> Option.bind (rx_AgentID r) (\<lambda>i. map_option snd (agent_row db i)))"

definition is_actor :: "int option \<Rightarrow> int option \<Rightarrow> reaction_row \<Rightarrow> bool" where
  "is_actor p a r \<longleftrightarrow> p \<noteq> None \<and> rx_PrincipalID r = p \<or> a \<noteq> None \<and> rx_AgentID r = a"

definition aggregate :: "chat_db \<Rightarrow> int option \<Rightarrow> int option \<Rightarrow> reaction_row list \<Rightarrow> string \<Rightarrow> reaction option" where
  "aggregate db p a rows emoji =
     (let group = filter (\<lambda>r. rx_Emoji r = emoji) rows;
          names = map (reactor_name db) (asc rx_CreatedAt group) in
      if None \<in> set names then None
      else Some \<lparr>rn_Emoji = emoji, rn_Count = length group, rn_Reactors = List.map_filter (\<lambda>n. n) names, rn_Reacted = list_ex (is_actor p a) group\<rparr>)"

fun all_some :: "'a option list \<Rightarrow> 'a list option" where
  "all_some [] = Some []"
| "all_some (None # xs) = None"
| "all_some (Some x # xs) = map_option (Cons x) (all_some xs)"

definition reactions_of :: "(string \<Rightarrow> nat) \<Rightarrow> chat_db \<Rightarrow> int option \<Rightarrow> int option \<Rightarrow> reaction_row list \<Rightarrow> uuid \<Rightarrow> reaction list option" where
  "reactions_of rank db p a rows msgID =
     (let mine = filter (\<lambda>r. rx_MessageID r = msgID) rows in
      all_some (map (aggregate db p a mine) (sort_key rank (remdups (map rx_Emoji mine)))))"

definition queryReactions ::
  "(string \<Rightarrow> nat) \<Rightarrow> (string \<Rightarrow> bool) \<Rightarrow> uuid list \<Rightarrow> int option \<Rightarrow> int option \<Rightarrow> reaction_db \<Rightarrow>
     (chat_error, uuid \<Rightarrow> reaction list) result" where
  "queryReactions rank fails messageIDs p a st =
     (let read = reactions_of rank (rd_chat st) p a (rd_rows st) in
      if fails ''query reactions'' then Inl (ChatSql ''query reactions'')
      else if list_ex (\<lambda>i. read i = None) messageIDs then Inl ChatScan
      else Inr (\<lambda>i. if i \<in> set messageIDs then the (read i) else []))"

definition reactionsForMessage ::
  "(string \<Rightarrow> nat) \<Rightarrow> (string \<Rightarrow> bool) \<Rightarrow> uuid \<Rightarrow> int option \<Rightarrow> int option \<Rightarrow> reaction_db \<Rightarrow> (chat_error, reaction list) result" where
  "reactionsForMessage rank fails msgID p a st =
     (case queryReactions rank fails [msgID] p a st of Inl e \<Rightarrow> Inl e | Inr m \<Rightarrow> Inr (m msgID))"

definition ListReactionsForMessages ::
  "(string \<Rightarrow> nat) \<Rightarrow> (string \<Rightarrow> bool) \<Rightarrow> uuid list \<Rightarrow> int option \<Rightarrow> int option \<Rightarrow> reaction_db \<Rightarrow>
     (chat_error, uuid \<Rightarrow> reaction list) result" where
  "ListReactionsForMessages rank fails messageIDs p a st =
     (if messageIDs = [] then Inr (\<lambda>_. []) else queryReactions rank fails messageIDs p a st)"

definition AddReaction ::
  "(string \<Rightarrow> nat) \<Rightarrow> (string \<Rightarrow> bool) \<Rightarrow> int \<Rightarrow> uuid \<Rightarrow> uuid \<Rightarrow> int option \<Rightarrow> int option \<Rightarrow> string \<Rightarrow> reaction_db \<Rightarrow>
     (chat_error, reaction list) result \<times> reaction_db" where
  "AddReaction rank fails now convID msgID p a emoji st =
     (let row = \<lparr>rx_MessageID = msgID, rx_PrincipalID = p, rx_AgentID = a, rx_Emoji = emoji, rx_CreatedAt = now\<rparr> in
      if fails ''add reaction'' \<or> \<not> actor_check (rd_chat st) p a \<or> \<not> list_ex (\<lambda>r. mr_ID r = msgID) (cd_messages (rd_chat st))
      then (Inl (ChatSql ''add reaction''), st)
      else
        (let rows = (if list_ex (reaction_conflict row) (rd_rows st) then rd_rows st else rd_rows st @ [row]);
             st1 = \<lparr>rd_rows = rows, rd_chat = notify_room convID (rd_chat st)\<rparr> in
         (reactionsForMessage rank fails msgID p a st1, st1)))"

record remove_result =
  rr_Removed :: bool
  rr_Others :: bool
  rr_Reactions :: "reaction list"

definition RemoveReaction ::
  "(string \<Rightarrow> nat) \<Rightarrow> (string \<Rightarrow> bool) \<Rightarrow> uuid \<Rightarrow> uuid \<Rightarrow> int option \<Rightarrow> int option \<Rightarrow> string \<Rightarrow> reaction_db \<Rightarrow>
     (chat_error, remove_result) result \<times> reaction_db" where
  "RemoveReaction rank fails convID msgID p a emoji st =
     (let mine = (\<lambda>r. rx_MessageID r = msgID \<and> rx_Emoji r = emoji \<and> by_caller p a r);
          callerHas = list_ex mine (rd_rows st);
          othersHas = list_ex (\<lambda>r. rx_MessageID r = msgID \<and> rx_Emoji r = emoji \<and> (rx_PrincipalID r \<noteq> p \<or> rx_AgentID r \<noteq> a)) (rd_rows st) in
      if fails ''inspect reaction'' then (Inl (ChatSql ''inspect reaction''), st)
      else if callerHas \<and> fails ''remove reaction'' then (Inl (ChatSql ''remove reaction''), st)
      else
        (let st1 = (if callerHas
               then \<lparr>rd_rows = filter (\<lambda>r. \<not> mine r) (rd_rows st), rd_chat = notify_room convID (rd_chat st)\<rparr> else st) in
         case reactionsForMessage rank fails msgID p a st1 of
           Inl e \<Rightarrow> (Inl e, st1)
         | Inr reactions \<Rightarrow> (Inr \<lparr>rr_Removed = callerHas, rr_Others = othersHas, rr_Reactions = reactions\<rparr>, st1)))"

section \<open>The set of reactions\<close>

datatype actor = ActorUser int | ActorAgent int

definition actor_of :: "int option \<Rightarrow> int option \<Rightarrow> actor option" where
  "actor_of p a = (case (p, a) of (Some i, None) \<Rightarrow> Some (ActorUser i) | (None, Some i) \<Rightarrow> Some (ActorAgent i) | _ \<Rightarrow> None)"

definition row_triple :: "reaction_row \<Rightarrow> uuid \<times> actor option \<times> string" where
  "row_triple r = (rx_MessageID r, actor_of (rx_PrincipalID r) (rx_AgentID r), rx_Emoji r)"

definition reaction_set :: "reaction_db \<Rightarrow> (uuid \<times> actor option \<times> string) set" where
  "reaction_set st = row_triple ` set (rd_rows st)"

definition reactions_ok :: "reaction_db \<Rightarrow> bool" where
  "reactions_ok st \<longleftrightarrow> distinct (map row_triple (rd_rows st)) \<and>
     (\<forall>r \<in> set (rd_rows st). actor_check (rd_chat st) (rx_PrincipalID r) (rx_AgentID r))"

lemma actor_check_of: "actor_check db p a \<Longrightarrow> \<exists>x. actor_of p a = Some x"
  by (auto simp: actor_check_def actor_of_def split: option.splits)

lemma actor_of_eq: "actor_of p a = Some x \<Longrightarrow> actor_of p' a' = Some x \<longleftrightarrow> p' = p \<and> a' = a"
  by (auto simp: actor_of_def split: option.splits)

lemma conflict_triple:
  assumes "actor_check db (rx_PrincipalID x) (rx_AgentID x)" "actor_check db' (rx_PrincipalID y) (rx_AgentID y)"
  shows "reaction_conflict x y \<longleftrightarrow> row_triple x = row_triple y"
  using assms by (auto simp: reaction_conflict_def row_triple_def actor_check_def actor_of_def split: option.splits)

lemma actor_check_notify [simp]: "actor_check (notify_room c db) p a = actor_check db p a"
  by (simp add: actor_check_def notify_room_def principal_row_def agent_row_def cong: option.case_cong)

lemma add_effect:
  assumes "reactions_ok st" "actor_check (rd_chat st) p a" "list_ex (\<lambda>r. mr_ID r = msgID) (cd_messages (rd_chat st))" "\<not> fails ''add reaction''"
    and "st' = snd (AddReaction rank fails now convID msgID p a emoji st)"
  shows "reactions_ok st'" and "reaction_set st' = insert (msgID, actor_of p a, emoji) (reaction_set st)"
    and "rd_chat st' = notify_room convID (rd_chat st)"
    and "fst (AddReaction rank fails now convID msgID p a emoji st) = reactionsForMessage rank fails msgID p a st'"
proof -
  let ?row = "\<lparr>rx_MessageID = msgID, rx_PrincipalID = p, rx_AgentID = a, rx_Emoji = emoji, rx_CreatedAt = now\<rparr>"
  let ?rows = "if list_ex (reaction_conflict ?row) (rd_rows st) then rd_rows st else rd_rows st @ [?row]"
  have e: "AddReaction rank fails now convID msgID p a emoji st = (reactionsForMessage rank fails msgID p a st', st')"
    and s: "st' = \<lparr>rd_rows = ?rows, rd_chat = notify_room convID (rd_chat st)\<rparr>"
    using assms(2-5) by (auto simp: AddReaction_def Let_def)
  have c: "list_ex (reaction_conflict ?row) (rd_rows st) \<longleftrightarrow> row_triple ?row \<in> row_triple ` set (rd_rows st)"
  proof -
    have "reaction_conflict ?row r \<longleftrightarrow> row_triple ?row = row_triple r" if "r \<in> set (rd_rows st)" for r
      using conflict_triple [of "rd_chat st" ?row "rd_chat st" r] assms(1,2) that by (auto simp: reactions_ok_def)
    then show ?thesis by (auto simp: list_ex_iff)
  qed
  have t: "row_triple ?row = (msgID, actor_of p a, emoji)" by (simp add: row_triple_def)
  show "reactions_ok st'" using assms(1,2) c by (auto simp: s reactions_ok_def)
  show "reaction_set st' = insert (msgID, actor_of p a, emoji) (reaction_set st)" using c t by (auto simp: s reaction_set_def)
  show "rd_chat st' = notify_room convID (rd_chat st)" by (simp add: s)
  show "fst (AddReaction rank fails now convID msgID p a emoji st) = reactionsForMessage rank fails msgID p a st'" by (simp add: e)
qed

lemma remove_effect:
  assumes "reactions_ok st" "actor_check (rd_chat st) p a" "\<not> fails ''inspect reaction''" "\<not> fails ''remove reaction''"
    and "st' = snd (RemoveReaction rank fails convID msgID p a emoji st)"
  shows "reactions_ok st'" and "reaction_set st' = reaction_set st - {(msgID, actor_of p a, emoji)}"
proof -
  let ?mine = "\<lambda>r. rx_MessageID r = msgID \<and> rx_Emoji r = emoji \<and> by_caller p a r"
  obtain w where w: "actor_of p a = Some w" using actor_check_of [OF assms(2)] by blast
  have m: "?mine r \<longleftrightarrow> row_triple r = (msgID, actor_of p a, emoji)" if "r \<in> set (rd_rows st)" for r
    unfolding row_triple_def by_caller_def w using actor_of_eq [OF w] by auto
  have rows: "rd_rows st' = filter (\<lambda>r. \<not> ?mine r) (rd_rows st)" "rd_chat st' \<in> {rd_chat st, notify_room convID (rd_chat st)}"
    using assms(3-5) by (auto simp: RemoveReaction_def Let_def list_ex_iff filter_id_conv split: sum.splits if_splits)
  show "reactions_ok st'" using assms(1) rows(2) unfolding reactions_ok_def rows(1) by (auto simp: distinct_map_filter)
  show "reaction_set st' = reaction_set st - {(msgID, actor_of p a, emoji)}" using m unfolding reaction_set_def rows(1) by fastforce
qed

section \<open>Reads\<close>

lemma all_some_eq: "all_some xs = (if None \<in> set xs then None else Some (map the xs))"
  by (induction xs rule: all_some.induct) auto

lemma reactor_known: "actor_check db (rx_PrincipalID r) (rx_AgentID r) \<Longrightarrow> reactor_name db r \<noteq> None"
  by (auto simp: actor_check_def reactor_name_def split: option.splits)

lemma length_all_named: "None \<notin> set xs \<Longrightarrow> length (List.map_filter (\<lambda>n. n) xs) = length xs"
proof (induction xs)
  case (Cons a xs)
  then show ?case by (cases a) (simp_all add: List.map_filter_simps)
qed (simp add: List.map_filter_simps)

lemma aggregate_exact:
  assumes "reactions_ok st" "rows = filter (\<lambda>r. rx_MessageID r = msgID) (rd_rows st)"
  shows "\<exists>x. aggregate (rd_chat st) p a rows emoji = Some x \<and> rn_Emoji x = emoji \<and>
    rn_Count x = card {w. (msgID, w, emoji) \<in> reaction_set st} \<and> length (rn_Reactors x) = rn_Count x \<and>
    (rn_Reacted x \<longleftrightarrow> (\<exists>r \<in> set rows. rx_Emoji r = emoji \<and> is_actor p a r))"
proof -
  let ?group = "filter (\<lambda>r. rx_Emoji r = emoji) rows"
  let ?names = "map (reactor_name (rd_chat st)) (asc rx_CreatedAt ?group)"
  have "reactor_name (rd_chat st) r \<noteq> None" if "r \<in> set ?group" for r
    using that assms reactor_known by (auto simp: reactions_ok_def)
  then have named: "None \<notin> set ?names" by (force simp: asc_def)
  then have len: "length (List.map_filter (\<lambda>n. n) ?names) = length ?group"
    using length_all_named [of ?names] by (simp add: asc_def)
  have group: "?group = filter (\<lambda>r. rx_MessageID r = msgID \<and> rx_Emoji r = emoji) (rd_rows st)"
    unfolding assms(2) by (simp add: conj_commute)
  let ?w = "\<lambda>r. actor_of (rx_PrincipalID r) (rx_AgentID r)"
  have "distinct (map row_triple ?group)" using assms(1) unfolding group by (simp add: reactions_ok_def distinct_map_filter)
  moreover have "map row_triple ?group = map (\<lambda>w. (msgID, w, emoji)) (map ?w ?group)" unfolding group by (auto simp: row_triple_def)
  ultimately have "distinct (map (\<lambda>w. (msgID, w, emoji)) (map ?w ?group))" by (simp only:)
  then have "distinct (map ?w ?group)" by (rule distinct_map [THEN iffD1, THEN conjunct1])
  moreover have "set (map ?w ?group) = {w. (msgID, w, emoji) \<in> reaction_set st}"
    unfolding group by (auto simp: reaction_set_def row_triple_def image_iff)
  ultimately have "card {w. (msgID, w, emoji) \<in> reaction_set st} = length ?group" by (metis distinct_card length_map)
  then show ?thesis using named len by (auto simp: aggregate_def Let_def list_ex_iff)
qed

text \<open>What a read reports of one message.\<close>

definition reports :: "reaction_db \<Rightarrow> int option \<Rightarrow> int option \<Rightarrow> uuid \<Rightarrow> reaction list \<Rightarrow> bool" where
  "reports st p a msgID xs \<longleftrightarrow> distinct (map rn_Emoji xs) \<and> rn_Emoji ` set xs = {e. \<exists>w. (msgID, w, e) \<in> reaction_set st} \<and>
     (\<forall>x \<in> set xs. rn_Count x = card {w. (msgID, w, rn_Emoji x) \<in> reaction_set st} \<and> length (rn_Reactors x) = rn_Count x \<and>
       (rn_Reacted x \<longleftrightarrow> (msgID, actor_of p a, rn_Emoji x) \<in> reaction_set st))"

lemma reactions_of_exact:
  assumes "reactions_ok st" "actor_check (rd_chat st) p a"
  shows "\<exists>xs. reactions_of rank (rd_chat st) p a (rd_rows st) msgID = Some xs \<and> reports st p a msgID xs"
proof -
  let ?rows = "filter (\<lambda>r. rx_MessageID r = msgID) (rd_rows st)"
  let ?emoji = "sort_key rank (remdups (map rx_Emoji ?rows))"
  let ?xs = "map (\<lambda>e. the (aggregate (rd_chat st) p a ?rows e)) ?emoji"
  note ag = aggregate_exact [OF assms(1) refl, where msgID = msgID and p = p and a = a]
  have some: "aggregate (rd_chat st) p a ?rows e = Some (the (aggregate (rd_chat st) p a ?rows e))" for e using ag [of e] by auto
  then have "None \<notin> set (map (aggregate (rd_chat st) p a ?rows) ?emoji)"
    unfolding set_map by (metis imageE option.distinct(1))
  then have r: "reactions_of rank (rd_chat st) p a (rd_rows st) msgID = Some ?xs"
    by (simp add: reactions_of_def Let_def all_some_eq)
  have e: "rn_Emoji (the (aggregate (rd_chat st) p a ?rows e)) = e" for e using ag [of e] by auto
  have emoji: "map rn_Emoji ?xs = ?emoji" by (simp add: o_def e)
  have carried: "rx_Emoji ` set ?rows = {e. \<exists>w. (msgID, w, e) \<in> reaction_set st}"
    by (auto simp: reaction_set_def row_triple_def image_iff)
  have act: "is_actor p a r \<longleftrightarrow> actor_of (rx_PrincipalID r) (rx_AgentID r) = actor_of p a" if "r \<in> set (rd_rows st)" for r
  proof -
    have "actor_check (rd_chat st) (rx_PrincipalID r) (rx_AgentID r)" using assms(1) that by (auto simp: reactions_ok_def)
    then show ?thesis using assms(2) by (auto simp: is_actor_def actor_of_def actor_check_def split: option.splits)
  qed
  have reacted: "(\<exists>r \<in> set ?rows. rx_Emoji r = e \<and> is_actor p a r) \<longleftrightarrow> (msgID, actor_of p a, e) \<in> reaction_set st" for e
    using act by (auto simp: reaction_set_def row_triple_def image_iff)
  have "rn_Count x = card {w. (msgID, w, rn_Emoji x) \<in> reaction_set st} \<and> length (rn_Reactors x) = rn_Count x \<and>
       (rn_Reacted x \<longleftrightarrow> (msgID, actor_of p a, rn_Emoji x) \<in> reaction_set st)" if x: "x \<in> set ?xs" for x
  proof -
    obtain e where "x = the (aggregate (rd_chat st) p a ?rows e)" using x unfolding set_map by blast
    then show ?thesis using ag [of e] reacted [of e] by auto
  qed
  moreover have "distinct (map rn_Emoji ?xs)" unfolding emoji by simp
  moreover have "rn_Emoji ` set ?xs = {e. \<exists>w. (msgID, w, e) \<in> reaction_set st}"
    using arg_cong [OF emoji, of set] carried unfolding set_map set_sort set_remdups by simp
  ultimately have "reports st p a msgID ?xs" unfolding reports_def by blast
  then show ?thesis using r by blast
qed

lemma reactionsForMessage_exact:
  assumes "reactions_ok st" "actor_check (rd_chat st) p a" "\<not> fails ''query reactions''"
  shows "\<exists>xs. reactionsForMessage rank fails msgID p a st = Inr xs \<and> reports st p a msgID xs"
  using reactions_of_exact [OF assms(1,2), of rank msgID] assms(3)
  by (auto simp: reactionsForMessage_def queryReactions_def Let_def)

text \<open>C31: The reaction rows implement a set of triples of message, actor and emoji. Adding a reaction inserts the caller's triple
  whatever was there, removing one deletes the caller's triple and nobody else's, and both keep one row per triple; the answer lists every
  emoji of the message once, with the number of actors that placed it and whether the caller is one of them. A
  caller that removes an emoji only others placed is told so.\<close>

theorem reactions_refine_set:
  assumes "reactions_ok st" "actor_check (rd_chat st) p a" "list_ex (\<lambda>r. mr_ID r = msgID) (cd_messages (rd_chat st))"
    and "\<not> fails ''add reaction''" "\<not> fails ''inspect reaction''" "\<not> fails ''remove reaction''" "\<not> fails ''query reactions''"
    and "AddReaction rank fails now convID msgID p a emoji st = (added, st1)"
    and "RemoveReaction rank fails convID msgID p a emoji st = (removed, st2)"
  shows "reactions_ok st1 \<and> reaction_set st1 = insert (msgID, actor_of p a, emoji) (reaction_set st) \<and>
    (\<exists>xs. added = Inr xs \<and> reports st1 p a msgID xs) \<and>
    reactions_ok st2 \<and> reaction_set st2 = reaction_set st - {(msgID, actor_of p a, emoji)} \<and>
    (\<exists>res. removed = Inr res \<and> reports st2 p a msgID (rr_Reactions res) \<and>
       (rr_Removed res \<longleftrightarrow> (msgID, actor_of p a, emoji) \<in> reaction_set st) \<and>
       (rr_Others res \<longleftrightarrow> (\<exists>w. w \<noteq> actor_of p a \<and> (msgID, w, emoji) \<in> reaction_set st)))"
proof -
  have s1: "st1 = snd (AddReaction rank fails now convID msgID p a emoji st)" "added = fst (AddReaction rank fails now convID msgID p a emoji st)"
    using assms(8) by simp_all
  have s2: "st2 = snd (RemoveReaction rank fails convID msgID p a emoji st)" using assms(9) by simp
  note ad = add_effect [OF assms(1-4) s1(1)] and re = remove_effect [OF assms(1,2,5,6) s2]
  have a1: "\<exists>xs. added = Inr xs \<and> reports st1 p a msgID xs"
    unfolding s1(2) ad(4) by (rule reactionsForMessage_exact [OF ad(1)]) (use assms(2,7) ad(3) in simp_all)
  let ?mine = "\<lambda>r. rx_MessageID r = msgID \<and> rx_Emoji r = emoji \<and> by_caller p a r"
  obtain w where w: "actor_of p a = Some w" using actor_check_of [OF assms(2)] by blast
  have eq: "\<And>p' a'. Some w = actor_of p' a' \<longleftrightarrow> p' = p \<and> a' = a" using actor_of_eq [OF w] by metis
  have has: "list_ex ?mine (rd_rows st) \<longleftrightarrow> (msgID, actor_of p a, emoji) \<in> reaction_set st"
    unfolding w reaction_set_def row_triple_def using actor_of_eq [OF w] eq by (auto simp: list_ex_iff by_caller_def image_iff)
  have others: "list_ex (\<lambda>r. rx_MessageID r = msgID \<and> rx_Emoji r = emoji \<and> (rx_PrincipalID r \<noteq> p \<or> rx_AgentID r \<noteq> a)) (rd_rows st) \<longleftrightarrow>
      (\<exists>w. w \<noteq> actor_of p a \<and> (msgID, w, emoji) \<in> reaction_set st)"
    unfolding w reaction_set_def row_triple_def using actor_of_eq [OF w] eq by (auto simp: list_ex_iff image_iff)
  have c: "rd_chat st2 \<in> {rd_chat st, notify_room convID (rd_chat st)}"
    using s2 assms(5,6) by (auto simp: RemoveReaction_def Let_def split: sum.splits if_splits)
  then have "actor_check (rd_chat st2) p a" using assms(2) by auto
  then obtain xs where xs: "reactionsForMessage rank fails msgID p a st2 = Inr xs" "reports st2 p a msgID xs"
    using reactionsForMessage_exact [where fails = fails, OF re(1) _ assms(7)] by blast
  then have "removed = Inr \<lparr>rr_Removed = list_ex ?mine (rd_rows st),
      rr_Others = list_ex (\<lambda>r. rx_MessageID r = msgID \<and> rx_Emoji r = emoji \<and> (rx_PrincipalID r \<noteq> p \<or> rx_AgentID r \<noteq> a)) (rd_rows st), rr_Reactions = xs\<rparr>"
    using assms(5,6,9) by (auto simp: RemoveReaction_def Let_def split: sum.splits if_splits)
  then show ?thesis using ad(1,2) re a1 xs(2) has others by simp
qed

theorem reactions_refine_set_witness:
  "reaction_set (snd (AddReaction (\<lambda>_. 0) no_fail 9 1 5 (Some 10) None ''ok'' \<lparr>rd_rows = [], rd_chat = one_message\<rparr>)) =
     {(5, Some (ActorUser 10), ''ok'')}"
proof -
  let ?st = "\<lparr>rd_rows = [], rd_chat = one_message\<rparr>"
  have ok: "reactions_ok ?st" by (simp add: reactions_ok_def)
  have actor: "actor_check (rd_chat ?st) (Some 10) None" "list_ex (\<lambda>r. mr_ID r = 5) (cd_messages (rd_chat ?st))" by code_simp+
  from reactions_refine_set [OF ok actor, where fails = no_fail and rank = "\<lambda>_. 0" and now = 9 and convID = 1 and emoji = "''ok''"]
  have "reaction_set (snd (AddReaction (\<lambda>_. 0) no_fail 9 1 5 (Some 10) None ''ok'' ?st)) = insert (5, actor_of (Some 10) None, ''ok'') (reaction_set ?st)"
    by (metis prod.collapse)
  then show ?thesis by (simp add: reaction_set_def actor_of_def)
qed

end
