(* ===== verification/Room_Hub.thy ===== *)
theory Room_Hub
  imports Chat_Store
begin

text \<open>
  The wake-up hub of the long polls (\<open>backend/manager/component/roomhub/roomhub.go\<close>) and the reader that waits on it
  (\<open>longPollDelta\<close> of \<open>backend/manager/api/v1/command_message.go\<close>).

  A channel of capacity one is a flag: whether a signal is buffered. Channels are numbered by the allocator. The hub's mutex
  makes each operation one step. The step relation runs any number of readers and writers of one conversation; a writer commits a
  new version and notifies the hub later, and a reader subscribes, reads, and waits.

  The lemmas show that no wake-up is lost: a reader never waits for a version that is there unless a signal is buffered for it or the
  writer has yet to notify.
\<close>

section \<open>The hub\<close>

record hub =
  hb_waiters :: "uuid \<rightharpoonup> nat set"
  hb_signal :: "nat \<Rightarrow> bool"
  hb_next :: nat

definition hub_New :: hub where
  "hub_New = \<lparr>hb_waiters = Map.empty, hb_signal = (\<lambda>_. False), hb_next = 0\<rparr>"

definition waiting :: "uuid \<Rightarrow> hub \<Rightarrow> nat set" where
  "waiting convID h = (case hb_waiters h convID of None \<Rightarrow> {} | Some m \<Rightarrow> m)"

definition Subscribe :: "uuid \<Rightarrow> hub \<Rightarrow> nat \<times> hub" where
  "Subscribe convID h =
     (let ch = hb_next h in
      (ch, h\<lparr>hb_waiters := (hb_waiters h)(convID \<mapsto> insert ch (waiting convID h)), hb_signal := (hb_signal h)(ch := False), hb_next := ch + 1\<rparr>))"

definition Unsubscribe :: "uuid \<Rightarrow> nat \<Rightarrow> hub \<Rightarrow> hub" where
  "Unsubscribe convID ch h =
     (case hb_waiters h convID of
        None \<Rightarrow> h
      | Some m \<Rightarrow> h\<lparr>hb_waiters := (hb_waiters h)(convID := if m - {ch} = {} then None else Some (m - {ch}))\<rparr>)"

definition NotifyConversation :: "uuid \<Rightarrow> hub \<Rightarrow> hub" where
  "NotifyConversation convID h = h\<lparr>hb_signal := (\<lambda>ch. ch \<in> waiting convID h \<or> hb_signal h ch)\<rparr>"

definition receive :: "nat \<Rightarrow> hub \<Rightarrow> hub" where
  "receive ch h = h\<lparr>hb_signal := (hb_signal h)(ch := False)\<rparr>"

section \<open>The reader\<close>

text \<open>The loop of \<open>longPollDelta\<close> over the events it selects: each wake carries what the re-read returns. Without an event it is
  still waiting.\<close>

datatype 'a poll_event = Signalled 'a | TimerFired | Cancelled

fun poll_loop :: "('a \<Rightarrow> ('e, 'm list \<times> int) result) \<Rightarrow> ('m list \<Rightarrow> bool) \<Rightarrow> int \<Rightarrow> 'a poll_event list \<Rightarrow> ('e, 'm list \<times> int) result option" where
  "poll_loop readDelta hasNew currentVersion [] = None"
| "poll_loop readDelta hasNew currentVersion (Signalled a # es) =
     (case readDelta a of
        Inl e \<Rightarrow> Some (Inl e)
      | Inr (msgs, v) \<Rightarrow> if hasNew msgs then Some (Inr (msgs, v)) else poll_loop readDelta hasNew v es)"
| "poll_loop readDelta hasNew currentVersion (TimerFired # es) = Some (Inr ([], currentVersion))"
| "poll_loop readDelta hasNew currentVersion (Cancelled # es) = Some (Inr ([], currentVersion))"

definition longPollDelta ::
  "bool \<Rightarrow> ('a \<Rightarrow> ('e, 'm list \<times> int) result) \<Rightarrow> ('m list \<Rightarrow> bool) \<Rightarrow> 'a \<Rightarrow> 'a poll_event list \<Rightarrow> ('e, 'm list \<times> int) result option" where
  "longPollDelta hub readDelta hasNew a es =
     (if \<not> hub then Some (readDelta a)
      else
        (case readDelta a of
           Inl e \<Rightarrow> Some (Inl e)
         | Inr (msgs, v) \<Rightarrow> if hasNew msgs then Some (Inr (msgs, v)) else poll_loop readDelta hasNew v es))"

section \<open>Readers and writers\<close>

text \<open>A reader is subscribed and about to read, waits having seen a version, or has left. \<open>rm_unsent\<close> counts the commits whose
  writer has yet to notify.\<close>

datatype reader = Reading nat | Blocked nat int | Left

record room =
  rm_hub :: hub
  rm_version :: int
  rm_unsent :: nat
  rm_readers :: "nat \<Rightarrow> reader"

definition channel_of :: "reader \<Rightarrow> nat option" where
  "channel_of r = (case r of Reading ch \<Rightarrow> Some ch | Blocked ch _ \<Rightarrow> Some ch | Left \<Rightarrow> None)"

inductive room_step :: "uuid \<Rightarrow> room \<Rightarrow> room \<Rightarrow> bool" for c where
  commit: "room_step c s (s\<lparr>rm_version := rm_version s + 1, rm_unsent := rm_unsent s + 1\<rparr>)"
| notify: "rm_unsent s = Suc n \<Longrightarrow> room_step c s (s\<lparr>rm_unsent := n, rm_hub := NotifyConversation c (rm_hub s)\<rparr>)"
| subscribe: "rm_readers s i = Left \<Longrightarrow> Subscribe c (rm_hub s) = (ch, h) \<Longrightarrow>
    room_step c s (s\<lparr>rm_hub := h, rm_readers := (rm_readers s)(i := Reading ch)\<rparr>)"
| read_nothing: "rm_readers s i = Reading ch \<Longrightarrow> room_step c s (s\<lparr>rm_readers := (rm_readers s)(i := Blocked ch (rm_version s))\<rparr>)"
| wake: "rm_readers s i = Blocked ch v \<Longrightarrow> hb_signal (rm_hub s) ch \<Longrightarrow>
    room_step c s (s\<lparr>rm_hub := receive ch (rm_hub s), rm_readers := (rm_readers s)(i := Reading ch)\<rparr>)"
| leave: "channel_of (rm_readers s i) = Some ch \<Longrightarrow>
    room_step c s (s\<lparr>rm_hub := Unsubscribe c ch (rm_hub s), rm_readers := (rm_readers s)(i := Left)\<rparr>)"
| foreign_notify: "c' \<noteq> c \<Longrightarrow> room_step c s (s\<lparr>rm_hub := NotifyConversation c' (rm_hub s)\<rparr>)"
| foreign_subscribe: "c' \<noteq> c \<Longrightarrow> Subscribe c' (rm_hub s) = (ch, h) \<Longrightarrow> room_step c s (s\<lparr>rm_hub := h\<rparr>)"
| foreign_unsubscribe: "c' \<noteq> c \<Longrightarrow> room_step c s (s\<lparr>rm_hub := Unsubscribe c' ch (rm_hub s)\<rparr>)"

inductive_cases room_stepE: "room_step c s s'"

definition room_ok :: "uuid \<Rightarrow> room \<Rightarrow> bool" where
  "room_ok c s \<longleftrightarrow>
     (\<forall>i ch. channel_of (rm_readers s i) = Some ch \<longrightarrow> ch \<in> waiting c (rm_hub s) \<and> ch < hb_next (rm_hub s)) \<and>
     (\<forall>i j ch. channel_of (rm_readers s i) = Some ch \<longrightarrow> channel_of (rm_readers s j) = Some ch \<longrightarrow> i = j) \<and>
     (\<forall>i ch v. rm_readers s i = Blocked ch v \<longrightarrow> v \<le> rm_version s \<and>
        (v < rm_version s \<longrightarrow> hb_signal (rm_hub s) ch \<or> rm_unsent s > 0))"

lemma hub_effects:
  "Subscribe c' h = (ch, h') \<Longrightarrow> ch = hb_next h \<and> hb_next h' = hb_next h + 1 \<and> hb_signal h' = (hb_signal h)(ch := False) \<and>
     waiting c h' = (if c' = c then insert ch (waiting c h) else waiting c h)"
  "waiting c (Unsubscribe c' ch h) = (if c' = c then waiting c h - {ch} else waiting c h)"
  "hb_next (Unsubscribe c' ch h) = hb_next h" "hb_signal (Unsubscribe c' ch h) = hb_signal h"
  "waiting c (NotifyConversation c' h) = waiting c h" "hb_next (NotifyConversation c' h) = hb_next h"
  "hb_signal (NotifyConversation c' h) ch = (ch \<in> waiting c' h \<or> hb_signal h ch)"
  "waiting c (receive ch h) = waiting c h" "hb_next (receive ch h) = hb_next h" "hb_signal (receive ch h) = (hb_signal h)(ch := False)"
  by (auto simp: Subscribe_def Unsubscribe_def NotifyConversation_def receive_def waiting_def Let_def split: option.splits)

lemma channel_of_simps [simp]:
  "channel_of (Reading ch) = Some ch" "channel_of (Blocked ch v) = Some ch" "channel_of Left = None"
  by (simp_all add: channel_of_def)

lemma room_okI:
  assumes "\<And>i ch. channel_of (rm_readers s i) = Some ch \<Longrightarrow> ch \<in> waiting c (rm_hub s) \<and> ch < hb_next (rm_hub s)"
    and "\<And>i j ch. channel_of (rm_readers s i) = Some ch \<Longrightarrow> channel_of (rm_readers s j) = Some ch \<Longrightarrow> i = j"
    and "\<And>i ch v. rm_readers s i = Blocked ch v \<Longrightarrow> v \<le> rm_version s \<and> (v < rm_version s \<longrightarrow> hb_signal (rm_hub s) ch \<or> rm_unsent s > 0)"
  shows "room_ok c s"
  using assms unfolding room_ok_def by blast

lemma room_okD:
  assumes "room_ok c s"
  shows "channel_of (rm_readers s i) = Some ch \<Longrightarrow> ch \<in> waiting c (rm_hub s)"
    and "channel_of (rm_readers s i) = Some ch \<Longrightarrow> ch < hb_next (rm_hub s)"
    and "channel_of (rm_readers s i) = Some ch \<Longrightarrow> channel_of (rm_readers s j) = Some ch \<Longrightarrow> i = j"
    and "rm_readers s i = Blocked ch v \<Longrightarrow> v \<le> rm_version s"
    and "rm_readers s i = Blocked ch v \<Longrightarrow> v < rm_version s \<Longrightarrow> hb_signal (rm_hub s) ch \<or> rm_unsent s > 0"
    and "rm_readers s i = Blocked ch v \<Longrightarrow> ch \<in> waiting c (rm_hub s)"
    and "rm_readers s i = Blocked ch v \<Longrightarrow> ch < hb_next (rm_hub s)"
    and "rm_readers s i = Reading ch \<Longrightarrow> ch \<in> waiting c (rm_hub s)"
    and "rm_readers s i = Reading ch \<Longrightarrow> ch < hb_next (rm_hub s)"
  using assms unfolding room_ok_def by (blast | metis channel_of_simps(1,2))+

lemma room_step_ok:
  assumes "room_step c s s'" "room_ok c s"
  shows "room_ok c s'"
  using assms(1)
proof cases
  case commit
  note ok = room_okD [OF assms(2)]
  have "v \<le> rm_version s + 1" if "rm_readers s i = Blocked ch v" for i ch v using ok(4) [OF that] by simp
  then show ?thesis unfolding commit
    by (intro room_okI) (use ok in \<open>auto simp: hub_effects\<close>)
next
  case (notify n)
  show ?thesis unfolding notify(1)
    by (rule room_okI) (use room_okD [OF assms(2)] in \<open>auto simp: hub_effects\<close>)
next
  case (subscribe i ch h)
  note h = hub_effects(1) [OF subscribe(3), of c] and ok = room_okD [OF assms(2)]
  have new: "ch' < ch + 1" "ch' \<noteq> ch" if "channel_of (rm_readers s j) = Some ch'" for j ch' using ok(2) [OF that] h by simp_all
  moreover have "ch' \<noteq> ch" if "rm_readers s j = Blocked ch' v" for j ch' v using ok(7) [OF that] h by simp
  ultimately show ?thesis unfolding subscribe(1)
    by (intro room_okI) (use ok h in \<open>auto simp del: One_nat_def add_Suc_right split: if_splits\<close>)
next
  case (read_nothing i ch)
  show ?thesis unfolding read_nothing(1)
    by (rule room_okI) (use room_okD [OF assms(2)] read_nothing(2) in \<open>auto split: if_splits\<close>)
next
  case (wake i ch v)
  show ?thesis unfolding wake(1)
    by (rule room_okI) (use room_okD [OF assms(2)] wake(2) in \<open>auto simp: hub_effects split: if_splits\<close>)
next
  case (leave i ch)
  show ?thesis unfolding leave(1)
    by (rule room_okI) (use room_okD [OF assms(2)] leave(2) in \<open>auto simp: hub_effects split: if_splits\<close>)
next
  case (foreign_notify c')
  show ?thesis unfolding foreign_notify(1)
    by (rule room_okI) (use room_okD [OF assms(2)] in \<open>auto simp: hub_effects\<close>)
next
  case (foreign_subscribe c' ch h)
  note h = hub_effects(1) [OF foreign_subscribe(3), of c] and ok = room_okD [OF assms(2)]
  have "ch' < ch + 1" if "channel_of (rm_readers s j) = Some ch'" for j ch' using ok(2) [OF that] h by simp
  moreover have "ch' \<noteq> ch" if "rm_readers s j = Blocked ch' v" for j ch' v using ok(7) [OF that] h by simp
  ultimately show ?thesis unfolding foreign_subscribe(1)
    by (intro room_okI) (use ok h foreign_subscribe(2) in \<open>auto simp del: One_nat_def add_Suc_right split: if_splits\<close>)
next
  case (foreign_unsubscribe c' ch)
  show ?thesis unfolding foreign_unsubscribe(1)
    by (rule room_okI) (use room_okD [OF assms(2)] foreign_unsubscribe(2) in \<open>auto simp: hub_effects\<close>)
qed

lemma room_reachable_ok:
  assumes "(room_step c)\<^sup>*\<^sup>* s s'" "room_ok c s"
  shows "room_ok c s'"
  using assms by (induction rule: rtranclp_induct) (auto intro: room_step_ok)

text \<open>C32: No wake-up is lost. From a room without readers, through any interleaving of commits, notifications, subscriptions, reads, wakes
  and departures, and whatever happens in other conversations, a reader that waits has either seen the newest version, or a signal is buffered for it, or a writer has still to notify;
  and the notification of that writer buffers the signal, after which the reader wakes and reads again.\<close>

theorem no_wake_up_lost:
  assumes "(room_step c)\<^sup>*\<^sup>* s s'" "rm_readers s = (\<lambda>_. Left)" "rm_readers s' i = Blocked ch v" "v \<noteq> rm_version s'"
  shows "v < rm_version s' \<and> (hb_signal (rm_hub s') ch \<or> rm_unsent s' > 0) \<and>
    hb_signal (NotifyConversation c (rm_hub s')) ch \<and>
    (hb_signal (rm_hub s') ch \<longrightarrow>
       room_step c s' (s'\<lparr>rm_hub := receive ch (rm_hub s'), rm_readers := (rm_readers s')(i := Reading ch)\<rparr>))"
proof -
  have "room_ok c s" by (rule room_okI) (simp_all add: assms(2))
  note ok = room_okD [OF room_reachable_ok [OF assms(1) this]]
  have "v < rm_version s'" using ok(4) [OF assms(3)] assms(4) by simp
  moreover have "ch \<in> waiting c (rm_hub s')" using ok(6) [OF assms(3)] .
  ultimately show ?thesis using ok(5) [OF assms(3)] room_step.wake [OF assms(3), of c] by (simp add: hub_effects)
qed

text \<open>A long poll answers with the new messages of its first read that has any; failing that, with no messages and
  the version of its last read when the timer fires or the client leaves; it never waits past either, and a wake that brings nothing new keeps it
  waiting on the same timer.\<close>

theorem long_poll_answers:
  assumes "\<And>a. \<exists>msgs v. readDelta a = Inr (msgs, v)" "as \<noteq> []" "hasNew [] = False"
  shows "longPollDelta True readDelta hasNew (hd as) (map Signalled (tl as) @ [e]) =
    (case find (\<lambda>a. hasNew (fst (projr (readDelta a)))) as of
       Some a \<Rightarrow> Some (readDelta a)
     | None \<Rightarrow>
         (case e of
            Signalled a \<Rightarrow> (if hasNew (fst (projr (readDelta a))) then Some (readDelta a) else None)
          | _ \<Rightarrow> Some (Inr ([], snd (projr (readDelta (last as)))))))"
proof -
  have loop: "poll_loop readDelta hasNew v (map Signalled bs @ [e]) =
      (case find (\<lambda>a. hasNew (fst (projr (readDelta a)))) bs of
         Some a \<Rightarrow> Some (readDelta a)
       | None \<Rightarrow>
           (case e of
              Signalled a \<Rightarrow> (if hasNew (fst (projr (readDelta a))) then Some (readDelta a) else None)
            | _ \<Rightarrow> Some (Inr ([], if bs = [] then v else snd (projr (readDelta (last bs)))))))" for bs v
  proof (induction bs arbitrary: v)
    case Nil
    show ?case
    proof (cases e)
      case (Signalled a)
      obtain msgs v where "readDelta a = Inr (msgs, v)" using assms(1) by blast
      then show ?thesis using Signalled by simp
    qed simp_all
  next
    case (Cons b bs)
    obtain msgs w where "readDelta b = Inr (msgs, w)" using assms(1) by blast
    then show ?case using Cons.IH [of w] by (auto split: poll_event.split option.split)
  qed
  obtain a bs where as: "as = a # bs" using assms(2) by (cases as) auto
  obtain msgs v where "readDelta a = Inr (msgs, v)" using assms(1) by blast
  then show ?thesis using loop [of v bs] as by (auto simp: longPollDelta_def split: poll_event.split option.split)
qed

section \<open>Examples\<close>

definition one_reader :: "room \<Rightarrow> room" where
  "one_reader s = s\<lparr>rm_hub := snd (Subscribe 1 (rm_hub s)), rm_readers := (rm_readers s)(0 := Reading (fst (Subscribe 1 (rm_hub s))))\<rparr>"

definition empty_room :: room where
  "empty_room = \<lparr>rm_hub = hub_New, rm_version = 7, rm_unsent = 0, rm_readers = (\<lambda>_. Left)\<rparr>"

theorem no_wake_up_lost_witness:
  "\<exists>s. (room_step 1)\<^sup>*\<^sup>* empty_room s \<and> rm_readers s 0 = Blocked 0 7 \<and> rm_version s = 8 \<and> hb_signal (NotifyConversation 1 (rm_hub s)) 0"
proof -
  let ?s1 = "one_reader empty_room"
  let ?s2 = "?s1\<lparr>rm_readers := (rm_readers ?s1)(0 := Blocked 0 7)\<rparr>"
  let ?s3 = "?s2\<lparr>rm_version := rm_version ?s2 + 1, rm_unsent := rm_unsent ?s2 + 1\<rparr>"
  have "room_step 1 empty_room ?s1" unfolding one_reader_def
    by (rule room_step.subscribe) (simp_all add: empty_room_def)
  moreover have "room_step 1 ?s1 ?s2"
    using room_step.read_nothing [of ?s1 0 0 1] by (simp add: one_reader_def empty_room_def Subscribe_def hub_New_def Let_def)
  moreover have "room_step 1 ?s2 ?s3" by (rule room_step.commit)
  ultimately have reach: "(room_step 1)\<^sup>*\<^sup>* empty_room ?s3" by (meson rtranclp.rtrancl_into_rtrancl rtranclp.rtrancl_refl)
  have "rm_readers ?s3 0 = Blocked 0 7" "rm_version ?s3 = 8" by (simp_all add: one_reader_def empty_room_def)
  with no_wake_up_lost [OF reach, of 0 0 7] reach show ?thesis by (auto simp: empty_room_def)
qed

theorem long_poll_answers_witness:
  "longPollDelta True (\<lambda>v. Inr (if v > 2 then [v] else [], v)) (\<lambda>ms. ms \<noteq> []) (1 :: int) [Signalled 2, Signalled 3, TimerFired] = Some (Inr ([3], 3) :: (unit, int list \<times> int) result)"
proof -
  have "\<exists>msgs v. Inr (if a > 2 then [a] else [], a) = (Inr (msgs, v) :: (unit, int list \<times> int) result)" for a :: int by simp
  from long_poll_answers [where readDelta = "\<lambda>v :: int. Inr (if v > 2 then [v] else [], v) :: (unit, int list \<times> int) result" and hasNew = "\<lambda>ms. ms \<noteq> []"
      and as = "[1, 2, 3]" and e = TimerFired, OF this]
  show ?thesis by simp
qed

end
