(* ===== verification/Team_Store.thy ===== *)
theory Team_Store
  imports Chat_Store
begin

text \<open>
  Agent teams (\<open>backend/manager/store/agent_team.go\<close>): the teams and their members. The unique indexes on the members (one
  team per agent, one leader per team) are checks of the insert. A transaction that fails leaves the state unchanged.

  The lemmas show that an agent is in one team and that a team has one leader after every operation, and what a deletion leaves
  behind.
\<close>

section \<open>Operations\<close>

definition AgentTeamRoleLeader :: int where "AgentTeamRoleLeader = 1"
definition AgentTeamRoleMember :: int where "AgentTeamRoleMember = 2"

record team_member =
  tb_TeamID :: string
  tb_AgentID :: int
  tb_Role :: int
  tb_Responsibility :: string
  tb_JoinedAt :: int
  tb_AgentResourceID :: string

record team_message =
  ta_ID :: string
  ta_ResourceID :: string
  ta_Title :: string
  ta_Description :: string
  ta_TeamPrompt :: string
  ta_LeaderAgentID :: int
  ta_OwnerID :: int
  ta_CreatedBy :: int
  ta_CreatedAt :: int
  ta_UpdatedAt :: int
  ta_Deleted :: bool
  ta_Members :: "team_member list"

record find_team =
  ft_ID :: "string option"
  ft_ResourceID :: "string option"
  ft_OwnerID :: "int option"
  ft_Limit :: "nat option"
  ft_Offset :: "nat option"

record update_team =
  ut_Title :: "string option"
  ut_Description :: "string option"
  ut_TeamPrompt :: "string option"
  ut_LeaderAgentID :: "int option"
  ut_Members :: "team_member list option"

definition any_team :: find_team where
  "any_team = \<lparr>ft_ID = None, ft_ResourceID = None, ft_OwnerID = None, ft_Limit = None, ft_Offset = None\<rparr>"

definition asks :: "'a option \<Rightarrow> 'a \<Rightarrow> bool" where
  "asks want v = (case want of None \<Rightarrow> True | Some w \<Rightarrow> v = w)"

text \<open>\<open>ORDER BY role, joined_at\<close> as two stable sorts; the join drops members whose agent is gone.\<close>

definition ListAgentTeamMembers :: "(string \<Rightarrow> bool) \<Rightarrow> string \<Rightarrow> chat_db \<Rightarrow> (chat_error, team_member list) result" where
  "ListAgentTeamMembers fails teamID db =
     (if fails ''team members'' then Inl (ChatSql ''team members'')
      else Inr (map (\<lambda>m. \<lparr>tb_TeamID = tm_TeamID m, tb_AgentID = tm_AgentID m, tb_Role = tm_Role m,
                tb_Responsibility = tm_Responsibility m, tb_JoinedAt = tm_JoinedAt m,
                tb_AgentResourceID = fst (agent_text db (Some (tm_AgentID m)))\<rparr>)
           (asc tm_Role (asc tm_JoinedAt
             (filter (\<lambda>m. tm_TeamID m = teamID \<and> agent_row db (tm_AgentID m) \<noteq> None) (cd_team_members db))))))"

definition scan_team :: "(string \<Rightarrow> bool) \<Rightarrow> chat_db \<Rightarrow> team_row \<Rightarrow> (chat_error, team_message) result" where
  "scan_team fails db t =
     (case ListAgentTeamMembers fails (te_ID t) db of
        Inl e \<Rightarrow> Inl e
      | Inr members \<Rightarrow>
          Inr \<lparr>ta_ID = te_ID t, ta_ResourceID = te_ResourceID t, ta_Title = te_Name t, ta_Description = te_Description t,
            ta_TeamPrompt = te_TeamPrompt t, ta_LeaderAgentID = (case te_LeaderAgentID t of None \<Rightarrow> 0 | Some a \<Rightarrow> a),
            ta_OwnerID = te_OwnerID t, ta_CreatedBy = te_CreatedBy t, ta_CreatedAt = te_CreatedAt t, ta_UpdatedAt = te_UpdatedAt t,
            ta_Deleted = te_Deleted t, ta_Members = members\<rparr>)"

definition ListAgentTeams :: "(string \<Rightarrow> bool) \<Rightarrow> find_team \<Rightarrow> chat_db \<Rightarrow> (chat_error, team_message list) result" where
  "ListAgentTeams fails q db =
     (if fails ''list teams'' then Inl (ChatSql ''list teams'')
      else
        (let rows = asc te_CreatedAt (filter (\<lambda>t. \<not> te_Deleted t \<and> asks (ft_ID q) (te_ID t) \<and>
               asks (ft_ResourceID q) (te_ResourceID t) \<and> asks (ft_OwnerID q) (te_OwnerID t)) (cd_teams db));
             skipped = (case ft_Offset q of None \<Rightarrow> rows | Some n \<Rightarrow> drop n rows);
             taken = (case ft_Limit q of None \<Rightarrow> skipped | Some n \<Rightarrow> take n skipped) in
         scan_rows (scan_team fails db) taken))"

definition first_team :: "(chat_error, team_message list) result \<Rightarrow> (chat_error, team_message option) result" where
  "first_team r = (case r of Inl e \<Rightarrow> Inl e | Inr [] \<Rightarrow> Inr None | Inr (t # _) \<Rightarrow> Inr (Some t))"

definition GetAgentTeamByID :: "(string \<Rightarrow> bool) \<Rightarrow> string \<Rightarrow> chat_db \<Rightarrow> (chat_error, team_message option) result" where
  "GetAgentTeamByID fails teamID db = first_team (ListAgentTeams fails (any_team\<lparr>ft_ID := Some teamID\<rparr>) db)"

definition GetAgentTeamByResourceID :: "(string \<Rightarrow> bool) \<Rightarrow> string \<Rightarrow> chat_db \<Rightarrow> (chat_error, team_message option) result" where
  "GetAgentTeamByResourceID fails resourceID db = first_team (ListAgentTeams fails (any_team\<lparr>ft_ResourceID := Some resourceID\<rparr>) db)"

definition GetAgentTeamByName :: "(string \<Rightarrow> bool) \<Rightarrow> string \<Rightarrow> chat_db \<Rightarrow> (chat_error, team_message option) result" where
  "GetAgentTeamByName fails name db =
     (case split_on CHR ''/'' name of
        [kind, resourceID] \<Rightarrow>
          if kind \<noteq> ''agentTeams'' \<or> resourceID = [] then Inl InvalidTeamName else GetAgentTeamByResourceID fails resourceID db
      | _ \<Rightarrow> Inl InvalidTeamName)"

definition GetAgentTeamByAgentID :: "(string \<Rightarrow> bool) \<Rightarrow> int \<Rightarrow> chat_db \<Rightarrow> (chat_error, team_message option) result" where
  "GetAgentTeamByAgentID fails agentID db =
     (if fails ''team by agent'' then Inl (ChatSql ''team by agent'')
      else case find (\<lambda>m. tm_AgentID m = agentID) (cd_team_members db) of
        None \<Rightarrow> Inr None | Some m \<Rightarrow> GetAgentTeamByID fails (tm_TeamID m) db)"

text \<open>The inserts, one by one, against the indexes and the agent table.\<close>

fun insert_members :: "int \<Rightarrow> string \<Rightarrow> (int \<Rightarrow> bool) \<Rightarrow> team_member list \<Rightarrow> team_member_row list \<Rightarrow> team_member_row list option" where
  "insert_members now teamID known [] rows = Some rows"
| "insert_members now teamID known (m # ms) rows =
     (if \<not> known (tb_AgentID m) \<or> list_ex (\<lambda>r. tm_AgentID r = tb_AgentID m) rows \<or>
         tb_Role m = AgentTeamRoleLeader \<and> list_ex (\<lambda>r. tm_TeamID r = teamID \<and> tm_Role r = AgentTeamRoleLeader) rows then None
      else insert_members now teamID known ms
        (rows @ [\<lparr>tm_TeamID = teamID, tm_AgentID = tb_AgentID m, tm_Role = tb_Role m, tm_Responsibility = tb_Responsibility m,
                  tm_JoinedAt = now\<rparr>]))"

definition replaceTeamMembersTx ::
  "(string \<Rightarrow> bool) \<Rightarrow> int \<Rightarrow> string \<Rightarrow> team_member list \<Rightarrow> chat_db \<Rightarrow> (chat_error, chat_db) result" where
  "replaceTeamMembersTx fails now teamID members db =
     (if members = [] then Inl TeamEmpty
      else if length (filter (\<lambda>m. tb_Role m = AgentTeamRoleLeader) members) \<noteq> 1 then Inl TeamLeaderCount
      else if fails ''check membership'' then Inl (ChatSql ''check membership'')
      else
        (case find (\<lambda>m. list_ex (\<lambda>r. tm_AgentID r = tb_AgentID m \<and> tm_TeamID r \<noteq> teamID) (cd_team_members db)) members of
           Some m \<Rightarrow> Inl (AgentInOtherTeam (tb_AgentID m))
         | None \<Rightarrow>
             if fails ''clear members'' then Inl (ChatSql ''clear members'')
             else if fails ''insert member'' then Inl (ChatSql ''insert member'')
             else
               (case insert_members now teamID (\<lambda>a. agent_row db a \<noteq> None) members
                       (filter (\<lambda>r. tm_TeamID r \<noteq> teamID) (cd_team_members db)) of
                  None \<Rightarrow> Inl (ChatSql ''insert member'')
                | Some rows \<Rightarrow> Inr (db\<lparr>cd_team_members := rows\<rparr>))))"

text \<open>\<open>newID\<close> is the generated key of the team, \<open>newName\<close> the generated resource id.\<close>

definition CreateAgentTeam ::
  "(string \<Rightarrow> bool) \<Rightarrow> int \<Rightarrow> string \<Rightarrow> string \<Rightarrow> team_message \<Rightarrow> chat_db \<Rightarrow> (chat_error, team_message) result \<times> chat_db" where
  "CreateAgentTeam fails now newID newName team db =
     (let resourceID = (if ta_ResourceID team = [] then newName else ta_ResourceID team);
          row = \<lparr>te_ID = newID, te_ResourceID = resourceID, te_Name = ta_Title team, te_Description = ta_Description team,
            te_TeamPrompt = ta_TeamPrompt team, te_LeaderAgentID = Some (ta_LeaderAgentID team), te_OwnerID = ta_OwnerID team,
            te_CreatedBy = ta_CreatedBy team, te_CreatedAt = now, te_UpdatedAt = now, te_Deleted = False\<rparr> in
      if fails ''begin'' then (Inl (ChatSql ''begin''), db)
      else if fails ''create team'' \<or> list_ex (\<lambda>t. te_ResourceID t = resourceID) (cd_teams db) \<or>
          agent_row db (ta_LeaderAgentID team) = None \<or> principal_row db (ta_OwnerID team) = None \<or>
          principal_row db (ta_CreatedBy team) = None then (Inl (ChatSql ''create team''), db)
      else
        (case replaceTeamMembersTx fails now newID (ta_Members team) (db\<lparr>cd_teams := cd_teams db @ [row]\<rparr>) of
           Inl e \<Rightarrow> (Inl e, db)
         | Inr db' \<Rightarrow>
             if fails ''commit'' then (Inl (ChatSql ''commit''), db)
             else
               (case ListAgentTeamMembers fails newID db' of
                  Inl e \<Rightarrow> (Inl e, db')
                | Inr members \<Rightarrow>
                    (Inr (team\<lparr>ta_ID := newID, ta_ResourceID := resourceID, ta_CreatedAt := now, ta_UpdatedAt := now,
                       ta_Members := members\<rparr>), db'))))"

definition patch_team :: "int \<Rightarrow> update_team \<Rightarrow> team_row \<Rightarrow> team_row" where
  "patch_team now patch t =
     t\<lparr>te_Name := (case ut_Title patch of None \<Rightarrow> te_Name t | Some v \<Rightarrow> v),
       te_Description := (case ut_Description patch of None \<Rightarrow> te_Description t | Some v \<Rightarrow> v),
       te_TeamPrompt := (case ut_TeamPrompt patch of None \<Rightarrow> te_TeamPrompt t | Some v \<Rightarrow> v),
       te_LeaderAgentID := (case ut_LeaderAgentID patch of None \<Rightarrow> te_LeaderAgentID t | Some v \<Rightarrow> Some v),
       te_UpdatedAt := now\<rparr>"

definition patches_fields :: "update_team \<Rightarrow> bool" where
  "patches_fields patch \<longleftrightarrow> ut_Title patch \<noteq> None \<or> ut_Description patch \<noteq> None \<or> ut_TeamPrompt patch \<noteq> None \<or> ut_LeaderAgentID patch \<noteq> None"

definition UpdateAgentTeam ::
  "(string \<Rightarrow> bool) \<Rightarrow> int \<Rightarrow> string \<Rightarrow> update_team \<Rightarrow> chat_db \<Rightarrow> (chat_error, team_message option) result \<times> chat_db" where
  "UpdateAgentTeam fails now teamID patch db =
     (let leader_known = (case ut_LeaderAgentID patch of None \<Rightarrow> True | Some a \<Rightarrow> agent_row db a \<noteq> None);
          exists_team = list_ex (\<lambda>t. te_ID t = teamID) (cd_teams db);
          db1 = (if patches_fields patch
                 then db\<lparr>cd_teams := map (\<lambda>t. if te_ID t = teamID then patch_team now patch t else t) (cd_teams db)\<rparr> else db) in
      if fails ''begin'' then (Inl (ChatSql ''begin''), db)
      else if patches_fields patch \<and> (fails ''update team'' \<or> exists_team \<and> \<not> leader_known) then (Inl (ChatSql ''update team''), db)
      else
        (case (case ut_Members patch of
                 None \<Rightarrow> Inr db1
               | Some members \<Rightarrow>
                   (case replaceTeamMembersTx fails now teamID members db1 of
                      Inl e \<Rightarrow> Inl e
                    | Inr db2 \<Rightarrow> if exists_team then Inr db2 else Inl (ChatSql ''insert member''))) of
           Inl e \<Rightarrow> (Inl e, db)
         | Inr db' \<Rightarrow> if fails ''commit'' then (Inl (ChatSql ''commit''), db) else (GetAgentTeamByID fails teamID db', db')))"

definition DeleteAgentTeam :: "(string \<Rightarrow> bool) \<Rightarrow> int \<Rightarrow> string \<Rightarrow> chat_db \<Rightarrow> chat_error option \<times> chat_db" where
  "DeleteAgentTeam fails now teamID db =
     (if fails ''delete team'' then (Some (ChatSql ''delete team''), db)
      else if \<not> list_ex (\<lambda>t. te_ID t = teamID \<and> \<not> te_Deleted t) (cd_teams db) then (Some ErrAgentTeamNotFound, db)
      else (None, db\<lparr>cd_teams := map (\<lambda>t. if te_ID t = teamID \<and> \<not> te_Deleted t
                                          then t\<lparr>te_Deleted := True, te_UpdatedAt := now\<rparr> else t) (cd_teams db)\<rparr>))"

section \<open>One team for an agent, one leader for a team\<close>

definition teams_ok :: "chat_db \<Rightarrow> bool" where
  "teams_ok db \<longleftrightarrow> distinct (map tm_AgentID (cd_team_members db)) \<and>
     (\<forall>team. length (filter (\<lambda>m. tm_TeamID m = team \<and> tm_Role m = AgentTeamRoleLeader) (cd_team_members db)) \<le> 1)"

lemma length_filter_mono: "(\<And>x. P x \<Longrightarrow> Q x) \<Longrightarrow> length (filter P xs) \<le> length (filter Q xs)"
  by (induction xs) (auto simp: le_SucI)

lemma insert_members_ok:
  assumes "insert_members now teamID known ms rows = Some rows'" "distinct (map tm_AgentID rows)"
    "\<forall>team. length (filter (\<lambda>m. tm_TeamID m = team \<and> tm_Role m = AgentTeamRoleLeader) rows) \<le> 1"
  shows "distinct (map tm_AgentID rows') \<and>
    (\<forall>team. length (filter (\<lambda>m. tm_TeamID m = team \<and> tm_Role m = AgentTeamRoleLeader) rows') \<le> 1) \<and>
    (\<exists>new. rows' = rows @ new \<and> map tm_AgentID new = map tb_AgentID ms \<and> map tm_Role new = map tb_Role ms \<and> (\<forall>r \<in> set new. tm_TeamID r = teamID))"
  using assms
proof (induction ms arbitrary: rows)
  case (Cons m ms)
  let ?row = "\<lparr>tm_TeamID = teamID, tm_AgentID = tb_AgentID m, tm_Role = tb_Role m, tm_Responsibility = tb_Responsibility m, tm_JoinedAt = now\<rparr>"
  let ?rows = "rows @ [?row]"
  have c: "\<not> list_ex (\<lambda>r. tm_AgentID r = tb_AgentID m) rows"
    "\<not> (tb_Role m = AgentTeamRoleLeader \<and> list_ex (\<lambda>r. tm_TeamID r = teamID \<and> tm_Role r = AgentTeamRoleLeader) rows)"
    and i: "insert_members now teamID known ms ?rows = Some rows'"
    using Cons.prems(1) by (auto split: if_splits)
  have "distinct (map tm_AgentID ?rows)" using Cons.prems(2) c(1) by (auto simp: list_ex_iff)
  moreover have "\<forall>team. length (filter (\<lambda>m. tm_TeamID m = team \<and> tm_Role m = AgentTeamRoleLeader) ?rows) \<le> 1"
  proof
    fix team
    have "filter (\<lambda>m. tm_TeamID m = team \<and> tm_Role m = AgentTeamRoleLeader) rows = []" if "team = teamID" "tb_Role m = AgentTeamRoleLeader"
      using c(2) that by (auto simp: list_ex_iff filter_empty_conv)
    then show "length (filter (\<lambda>m. tm_TeamID m = team \<and> tm_Role m = AgentTeamRoleLeader) ?rows) \<le> 1"
      using Cons.prems(3) by auto
  qed
  ultimately obtain new where "distinct (map tm_AgentID rows')"
    "\<forall>team. length (filter (\<lambda>m. tm_TeamID m = team \<and> tm_Role m = AgentTeamRoleLeader) rows') \<le> 1"
    "rows' = ?rows @ new" "map tm_AgentID new = map tb_AgentID ms" "map tm_Role new = map tb_Role ms" "\<forall>r \<in> set new. tm_TeamID r = teamID"
    using Cons.IH [OF i] by blast
  then show ?case by (intro conjI exI [of _ "?row # new"]) auto
qed simp

lemma replace_members_ok:
  assumes "teams_ok db" "replaceTeamMembersTx fails now teamID members db = Inr db'"
  shows "teams_ok db' \<and> length (filter (\<lambda>m. tm_TeamID m = teamID \<and> tm_Role m = AgentTeamRoleLeader) (cd_team_members db')) = 1 \<and>
    {tm_AgentID m |m. m \<in> set (cd_team_members db') \<and> tm_TeamID m = teamID} = set (map tb_AgentID members) \<and>
    filter (\<lambda>m. tm_TeamID m \<noteq> teamID) (cd_team_members db') = filter (\<lambda>m. tm_TeamID m \<noteq> teamID) (cd_team_members db)"
proof -
  let ?rest = "filter (\<lambda>r. tm_TeamID r \<noteq> teamID) (cd_team_members db)"
  let ?lead = "\<lambda>team m. tm_TeamID m = team \<and> tm_Role m = AgentTeamRoleLeader"
  obtain rows where lead: "length (filter (\<lambda>m. tb_Role m = AgentTeamRoleLeader) members) = 1"
    and i: "insert_members now teamID (\<lambda>a. agent_row db a \<noteq> None) members ?rest = Some rows" and d: "db' = db\<lparr>cd_team_members := rows\<rparr>"
    using assms(2) by (auto simp: replaceTeamMembersTx_def split: if_splits option.splits)
  have r: "distinct (map tm_AgentID ?rest)" using assms(1) by (auto simp: teams_ok_def distinct_map_filter)
  have "length (filter (?lead team) ?rest) \<le> 1" for team
  proof -
    have "length (filter (?lead team) ?rest) \<le> length (filter (?lead team) (cd_team_members db))"
      unfolding filter_filter by (rule length_filter_mono) simp
    then show ?thesis using assms(1) unfolding teams_ok_def by (meson le_trans)
  qed
  then obtain new where n: "distinct (map tm_AgentID rows)" "\<forall>team. length (filter (?lead team) rows) \<le> 1" "rows = ?rest @ new"
    "map tm_AgentID new = map tb_AgentID members" "map tm_Role new = map tb_Role members" "\<forall>r \<in> set new. tm_TeamID r = teamID"
    using insert_members_ok [OF i r] by blast
  have "length (filter (?lead teamID) rows) = length (filter (\<lambda>r. r = AgentTeamRoleLeader) (map tm_Role new))"
    using n(3,6) by (auto simp: filter_map comp_def intro!: arg_cong [of _ _ length] filter_cong)
  also have "\<dots> = 1" using lead unfolding n(5) by (simp add: filter_map comp_def)
  finally have l: "length (filter (?lead teamID) rows) = 1" .
  have "{tm_AgentID m |m. m \<in> set rows \<and> tm_TeamID m = teamID} = set (map tm_AgentID new)" using n(3,6) by auto
  then show ?thesis using l n(1,2,3,6) unfolding n(4) by (auto simp: d teams_ok_def filter_empty_conv)
qed


lemma teams_ok_cong: "cd_team_members db' = cd_team_members db \<Longrightarrow> teams_ok db' = teams_ok db"
  by (simp add: teams_ok_def)

text \<open>An operation on teams, whatever its outcome.\<close>

inductive team_step :: "chat_db \<Rightarrow> chat_db \<Rightarrow> bool" where
  created: "team_step db (snd (CreateAgentTeam fails now newID newName team db))"
| updated: "team_step db (snd (UpdateAgentTeam fails now teamID patch db))"
| deleted: "team_step db (snd (DeleteAgentTeam fails now teamID db))"

lemma CreateAgentTeam_cases:
  assumes "CreateAgentTeam fails now newID newName team db = (r, db')"
  shows "db' = db \<or> (\<exists>row. replaceTeamMembersTx fails now newID (ta_Members team) (db\<lparr>cd_teams := cd_teams db @ [row]\<rparr>) = Inr db')"
  using assms by (auto simp: CreateAgentTeam_def Let_def split: if_splits sum.splits)

lemma UpdateAgentTeam_cases:
  assumes "UpdateAgentTeam fails now teamID patch db = (r, db')"
  shows "cd_team_members db' = cd_team_members db \<or>
    (\<exists>members db1. ut_Members patch = Some members \<and> cd_team_members db1 = cd_team_members db \<and>
       replaceTeamMembersTx fails now teamID members db1 = Inr db')"
proof -
  let ?db1 = "if patches_fields patch
    then db\<lparr>cd_teams := map (\<lambda>t. if te_ID t = teamID then patch_team now patch t else t) (cd_teams db)\<rparr> else db"
  have "cd_team_members ?db1 = cd_team_members db" by simp
  then show ?thesis
    using assms unfolding UpdateAgentTeam_def Let_def
    by (auto split: if_splits sum.splits option.splits)
qed

lemma team_step_ok:
  assumes "team_step db db'" "teams_ok db"
  shows "teams_ok db'"
  using assms
proof cases
  case (created fails now newID newName team)
  have "teams_ok (db\<lparr>cd_teams := rows\<rparr>)" for rows using assms(2) by (simp add: teams_ok_def)
  then show ?thesis
    using CreateAgentTeam_cases [OF surjective_pairing, of fails now newID newName team db] created assms(2) replace_members_ok by metis
next
  case (updated fails now teamID patch)
  then show ?thesis
    using UpdateAgentTeam_cases [OF surjective_pairing, of fails now teamID patch db] assms(2) replace_members_ok teams_ok_cong by metis
next
  case (deleted fails now teamID)
  then show ?thesis using assms(2) by (simp add: DeleteAgentTeam_def teams_ok_def)
qed

lemma other_team_refused:
  assumes "m \<in> set (cd_team_members db)" "tm_TeamID m \<noteq> teamID" "tm_AgentID m \<in> tb_AgentID ` set members"
  shows "\<exists>e. replaceTeamMembersTx fails now teamID members db = Inl e"
proof (cases "find (\<lambda>m. list_ex (\<lambda>r. tm_AgentID r = tb_AgentID m \<and> tm_TeamID r \<noteq> teamID) (cd_team_members db)) members")
  case None
  then show ?thesis using assms unfolding find_None_iff list_ex_iff by blast
qed (simp add: replaceTeamMembersTx_def)

section \<open>Properties\<close>

text \<open>C28: An agent is in at most one team and a team has at most one leader, after any sequence of operations on teams, failed ones
  included; and a successful change of a team's members leaves exactly the members that were asked for, with exactly one
  leader, and the members of the other teams as they were.\<close>

theorem team_membership_exclusive:
  assumes "teams_ok db" "team_step\<^sup>*\<^sup>* db db'"
  shows "teams_ok db' \<and>
    (\<forall>db''. replaceTeamMembersTx fails now teamID members db' = Inr db'' \<longrightarrow>
       length (filter (\<lambda>m. tm_TeamID m = teamID \<and> tm_Role m = AgentTeamRoleLeader) (cd_team_members db'')) = 1 \<and>
       {tm_AgentID m |m. m \<in> set (cd_team_members db'') \<and> tm_TeamID m = teamID} = set (map tb_AgentID members) \<and>
       filter (\<lambda>m. tm_TeamID m \<noteq> teamID) (cd_team_members db'') = filter (\<lambda>m. tm_TeamID m \<noteq> teamID) (cd_team_members db'))"
proof -
  have "teams_ok db'" using assms(2,1) by (induction rule: rtranclp_induct) (auto intro: team_step_ok)
  then show ?thesis using replace_members_ok by blast
qed

text \<open>A deleted team keeps its agents. The deletion marks the team and leaves its members in place, so that the agents can be in no
  other team: every later attempt to put one of them into another team, new or old, fails, through any number of operations on
  other teams, although the deleted team is found under no name any more.\<close>

theorem deleted_team_keeps_agents:
  assumes "teams_ok db" "m \<in> set (cd_team_members db)" "DeleteAgentTeam fails now (tm_TeamID m) db = (None, db1)"
    "tm_AgentID m \<in> tb_AgentID ` set members" "teamID \<noteq> tm_TeamID m" "ut_Members patch = Some members" "ta_Members team = members"
    "newID \<noteq> tm_TeamID m"
  shows "(GetAgentTeamByID fails' (tm_TeamID m) db1) \<in> {Inr None, Inl (ChatSql ''list teams'')} \<and>
    (\<exists>e. fst (UpdateAgentTeam fails' now' teamID patch db1) = Inl e) \<and>
    (\<exists>e. fst (CreateAgentTeam fails' now' newID newName team db1) = Inl e)"
proof -
  have d: "db1 = db\<lparr>cd_teams := map (\<lambda>t. if te_ID t = tm_TeamID m \<and> \<not> te_Deleted t then t\<lparr>te_Deleted := True, te_UpdatedAt := now\<rparr> else t)
      (cd_teams db)\<rparr>" using assms(3) by (auto simp: DeleteAgentTeam_def split: if_splits)
  have "filter (\<lambda>t. \<not> te_Deleted t \<and> asks (Some (tm_TeamID m)) (te_ID t) \<and> asks None (te_ResourceID t) \<and> asks None (te_OwnerID t))
      (cd_teams db1) = []"
    by (auto simp: d asks_def filter_empty_conv)
  then have 1: "GetAgentTeamByID fails' (tm_TeamID m) db1 \<in> {Inr None, Inl (ChatSql ''list teams'')}"
    by (simp add: GetAgentTeamByID_def ListAgentTeams_def any_team_def asc_def first_team_def)
  have m: "m \<in> set (cd_team_members db1)" using assms(2) d by simp
  have no: "\<exists>e. replaceTeamMembersTx fails' now' t members db2 = Inl e"
    if "t \<noteq> tm_TeamID m" "cd_team_members db2 = cd_team_members db1" for t db2
    using m that assms(4) by (intro other_team_refused [of m]) auto
  let ?up = "if patches_fields patch
    then db1\<lparr>cd_teams := map (\<lambda>t. if te_ID t = teamID then patch_team now' patch t else t) (cd_teams db1)\<rparr> else db1"
  have "cd_team_members ?up = cd_team_members db1" by simp
  from no [OF assms(5) this] obtain e where "replaceTeamMembersTx fails' now' teamID members ?up = Inl e" by blast
  then have 2: "\<exists>e. fst (UpdateAgentTeam fails' now' teamID patch db1) = Inl e"
    unfolding UpdateAgentTeam_def Let_def assms(6) option.case by (simp del: if_split)
  obtain err where "\<forall>rows. replaceTeamMembersTx fails' now' newID members (db1\<lparr>cd_teams := rows\<rparr>) = Inl (err rows)"
    using no [OF assms(8), of "db1\<lparr>cd_teams := _\<rparr>"] by simp metis
  then have "\<exists>e. fst (CreateAgentTeam fails' now' newID newName team db1) = Inl e"
    unfolding CreateAgentTeam_def Let_def assms(7) by simp
  with 1 2 show ?thesis by blast
qed


section \<open>Examples\<close>

text \<open>Agents 1 and 2 form the team t; agent 3 has no team.\<close>

definition member_of :: "int \<Rightarrow> int \<Rightarrow> team_member" where
  "member_of agent role = \<lparr>tb_TeamID = [], tb_AgentID = agent, tb_Role = role, tb_Responsibility = [], tb_JoinedAt = 0, tb_AgentResourceID = []\<rparr>"

definition team_asked :: "team_member list \<Rightarrow> team_message" where
  "team_asked ms = \<lparr>ta_ID = [], ta_ResourceID = [], ta_Title = ''team'', ta_Description = [], ta_TeamPrompt = [], ta_LeaderAgentID = 1,
     ta_OwnerID = 10, ta_CreatedBy = 10, ta_CreatedAt = 0, ta_UpdatedAt = 0, ta_Deleted = False, ta_Members = ms\<rparr>"

definition blank_chat :: chat_db where
  "blank_chat = \<lparr>cd_rooms = [], cd_messages = [], cd_tasks = [], cd_reminders = [], cd_teams = [], cd_team_members = [], cd_meta = [],
     cd_principals = [(10, ''Ran'', ''ran-u-1'')], cd_agents = [(1, ''a'', ''A''), (2, ''b'', ''B''), (3, ''c'', ''C'')],
     cd_user_cursors = Map.empty, cd_agent_cursors = Map.empty, cd_thread_agents = [], cd_thread_users = [], cd_notified = []\<rparr>"

definition team_chat :: chat_db where
  "team_chat = snd (CreateAgentTeam (\<lambda>_. False) 5 ''t'' ''team-1'' (team_asked [member_of 1 1, member_of 2 2]) blank_chat)"

lemma team_chat_members:
  "cd_team_members team_chat =
     [\<lparr>tm_TeamID = ''t'', tm_AgentID = 1, tm_Role = 1, tm_Responsibility = [], tm_JoinedAt = 5\<rparr>,
      \<lparr>tm_TeamID = ''t'', tm_AgentID = 2, tm_Role = 2, tm_Responsibility = [], tm_JoinedAt = 5\<rparr>]"
  by code_simp

lemma team_chat_ok: "teams_ok team_chat"
  unfolding teams_ok_def team_chat_members by (simp add: AgentTeamRoleLeader_def)

theorem team_membership_exclusive_witness:
  "teams_ok (snd (UpdateAgentTeam (\<lambda>_. False) 7 ''t'' \<lparr>ut_Title = None, ut_Description = None, ut_TeamPrompt = None,
     ut_LeaderAgentID = None, ut_Members = Some [member_of 3 1, member_of 2 2]\<rparr> team_chat))"
  using team_membership_exclusive [OF team_chat_ok r_into_rtranclp [where r = team_step, OF team_step.updated]] by blast

theorem deleted_team_keeps_agents_witness:
  "\<exists>db1 e. DeleteAgentTeam (\<lambda>_. False) 6 ''t'' team_chat = (None, db1) \<and>
     fst (CreateAgentTeam (\<lambda>_. False) 7 ''s'' ''team-2'' (team_asked [member_of 1 1, member_of 3 2]) db1) = Inl e"
proof -
  have "fst (DeleteAgentTeam (\<lambda>_. False) 6 ''t'' team_chat) = None" by code_simp
  then obtain db1 where d: "DeleteAgentTeam (\<lambda>_. False) 6 ''t'' team_chat = (None, db1)" by (metis prod.collapse)
  let ?m = "\<lparr>tm_TeamID = ''t'', tm_AgentID = 1, tm_Role = 1, tm_Responsibility = [], tm_JoinedAt = 5\<rparr>"
  let ?p = "\<lparr>ut_Title = None, ut_Description = None, ut_TeamPrompt = None, ut_LeaderAgentID = None,
    ut_Members = Some [member_of 1 1, member_of 3 2]\<rparr>"
  have "?m \<in> set (cd_team_members team_chat)" by (simp add: team_chat_members)
  from deleted_team_keeps_agents [OF team_chat_ok this, of "\<lambda>_. False" 6 db1 "[member_of 1 1, member_of 3 2]" "''s''" ?p
      "team_asked [member_of 1 1, member_of 3 2]" "''s''" "\<lambda>_. False" 7 "''team-2''"] d
  show ?thesis by (auto simp: member_of_def team_asked_def)
qed

end
