(* ===== verification/Task_Store.thy ===== *)
theory Task_Store
  imports Team_Store
begin

text \<open>
  Tasks (\<open>backend/manager/store/task.go\<close>): creation of a task with or from a message, claims, releases, status changes,
  assignment, closing, and the task board; of \<open>agent_team.go\<close> the test whether a team is busy.

  Every update of a task is one statement, so one step. An operation re-reads the message after its update; the read is given
  the state it runs in, which other requests may have changed. The unique indexes of the tables are
  checks that turn a violating statement into an error.

  The lemmas show that task numbers are handed out once, that a task is claimed by one agent at a time, that the
  completion time goes with the status, and that a team works on one open task.
\<close>

section \<open>Status\<close>

definition TaskStatusTodo :: int where "TaskStatusTodo = 1"
definition TaskStatusInProgress :: int where "TaskStatusInProgress = 2"
definition TaskStatusInReview :: int where "TaskStatusInReview = 3"
definition TaskStatusDone :: int where "TaskStatusDone = 4"

lemmas task_status_defs = TaskStatusTodo_def TaskStatusInProgress_def TaskStatusInReview_def TaskStatusDone_def

section \<open>Indexes\<close>

text \<open>A primary key, a task number per conversation, and at most one open task per team.\<close>

definition open_teams :: "task_row list \<Rightarrow> string list" where
  "open_teams tasks = List.map_filter (\<lambda>t. if tk_Status t \<in> {1, 2, 3} then tk_TeamID t else None) tasks"

definition task_indexes :: "task_row list \<Rightarrow> bool" where
  "task_indexes tasks \<longleftrightarrow> distinct (map tk_MessageID tasks) \<and> distinct (map (\<lambda>t. (tk_ConversationID t, tk_Number t)) tasks) \<and>
     distinct (open_teams tasks)"

text \<open>An update of the matching rows: the number of rows, or an error when an index refuses.\<close>

definition update_tasks ::
  "(string \<Rightarrow> bool) \<Rightarrow> string \<Rightarrow> (task_row \<Rightarrow> bool) \<Rightarrow> (task_row \<Rightarrow> task_row) \<Rightarrow> chat_db \<Rightarrow> (chat_error, nat) result \<times> chat_db" where
  "update_tasks fails label p f db =
     (let tasks = map (\<lambda>t. if p t then f t else t) (cd_tasks db) in
      if fails label \<or> \<not> task_indexes tasks then (Inl (ChatSql label), db)
      else (Inr (length (filter p (cd_tasks db))), db\<lparr>cd_tasks := tasks\<rparr>))"

section \<open>Creation\<close>

definition createTaskRowInTx ::
  "(string \<Rightarrow> bool) \<Rightarrow> int \<Rightarrow> uuid \<Rightarrow> uuid \<Rightarrow> int \<Rightarrow> int \<Rightarrow> int option \<Rightarrow> chat_db \<Rightarrow> (chat_error, chat_db) result" where
  "createTaskRowInTx fails now msgID convID taskNumber status assignee db =
     (let row = \<lparr>tk_MessageID = msgID, tk_ConversationID = convID, tk_Number = taskNumber, tk_Status = status,
        tk_AgentID = assignee, tk_Type = None, tk_UserID = None, tk_TeamID = None, tk_UpdatedAt = now, tk_CompletedAt = None\<rparr> in
      if fails ''insert task'' then Inl (ChatSql ''insert task'')
      else if task_of msgID db \<noteq> None then Inl ErrTaskAlreadyExists
      else if \<not> task_indexes (cd_tasks db @ [row]) \<or> \<not> list_ex (\<lambda>r. mr_ID r = msgID) (cd_messages db) then Inl (ChatSql ''insert task'')
      else Inr (db\<lparr>cd_tasks := cd_tasks db @ [row]\<rparr>))"

definition bump_task_number :: "room_row \<Rightarrow> room_row" where
  "bump_task_number r = r\<lparr>ro_NextTaskNumber := ro_NextTaskNumber r + 1\<rparr>"

definition CreateTaskMessageBumpVersion ::
  "chat_env \<Rightarrow> (string \<Rightarrow> bool) \<Rightarrow> uuid \<Rightarrow> int \<Rightarrow> chat_message \<Rightarrow> chat_db \<Rightarrow>
     (chat_error, chat_message \<times> int) result \<times> chat_db" where
  "CreateTaskMessageBumpVersion env fails newID now msg db =
     (let convID = msg_ConversationID msg in
      if fails ''begin'' then (Inl (ChatSql ''begin''), db)
      else if fails ''bump version'' then (Inl (ChatSql ''bump version''), db)
      else
        (case room_of convID db of
           None \<Rightarrow> (Inl (ChatNoRows ''bump version''), db)
         | Some room \<Rightarrow>
             (let newVersion = ro_Version room + 1; taskNumber = ro_NextTaskNumber room in
              case createChatMessageInTx env fails newID now msg newVersion
                     (map_rooms (bump_task_number \<circ> bump_version now) convID db) of
                Inl e \<Rightarrow> (Inl e, db)
              | Inr db1 \<Rightarrow>
                  (case createTaskRowInTx fails now newID convID taskNumber TaskStatusTodo None db1 of
                     Inl e \<Rightarrow> (Inl e, db)
                   | Inr db2 \<Rightarrow>
                       if fails ''commit'' then (Inl (ChatSql ''commit''), db)
                       else (Inr (created_message newID now newVersion
                              (Some \<lparr>ti_TaskNumber = taskNumber, ti_Status = TaskStatusTodo, ti_AssigneeAgentID = None,
                                 ti_AssigneeUserID = None, ti_AssigneeType = 0, ti_AssigneeName = [], ti_AssigneeResourceID = [],
                                 ti_AssigneeTeamID = [], ti_AssigneeTeamName = [], ti_AssigneeTeamLeader = []\<rparr>) msg, newVersion),
                             notify_room convID db2)))))"

definition GetTaskMessage ::
  "chat_env \<Rightarrow> (string \<Rightarrow> bool) \<Rightarrow> uuid \<Rightarrow> chat_db \<Rightarrow> (chat_error, chat_message) result" where
  "GetTaskMessage env fails msgID db =
     (if fails ''get task message'' then Inl (ChatSql ''get task message'')
      else
        (case find (\<lambda>r. mr_ID r = msgID) (joined db) of
           None \<Rightarrow> Inl (ChatNoRows ''get task message'')
         | Some row \<Rightarrow>
             (case scanChatMessageRow env db row of
                Inl e \<Rightarrow> Inl e
              | Inr msg \<Rightarrow>
                  (case fillThreadReplyCounts fails db [msg] of
                     Inl e \<Rightarrow> Inl e
                   | Inr msgs1 \<Rightarrow>
                       (case fillTaskInfo fails db msgs1 of
                          Inl e \<Rightarrow> Inl e
                        | Inr msgs2 \<Rightarrow> if msg_TaskInfo (hd msgs2) = None then Inl ErrTaskNotFound else Inr (hd msgs2))))))"

text \<open>The outcome of an update followed by the re-read; \<open>others\<close> is what other requests make of the state in between.\<close>

definition reread ::
  "chat_env \<Rightarrow> (string \<Rightarrow> bool) \<Rightarrow> (chat_db \<Rightarrow> chat_db) \<Rightarrow> uuid \<Rightarrow> chat_error \<Rightarrow> (chat_error, nat) result \<times> chat_db \<Rightarrow>
     (chat_error, chat_message) result \<times> chat_db" where
  "reread env fails others msgID none r =
     (case r of
        (Inl e, db) \<Rightarrow> (Inl e, db)
      | (Inr rows, db) \<Rightarrow> (if rows = 0 then Inl none else GetTaskMessage env fails msgID (others db), db))"

definition ConvertMessageToTask ::
  "chat_env \<Rightarrow> (string \<Rightarrow> bool) \<Rightarrow> (chat_db \<Rightarrow> chat_db) \<Rightarrow> int \<Rightarrow> uuid \<Rightarrow> uuid \<Rightarrow> chat_db \<Rightarrow>
     (chat_error, chat_message) result \<times> chat_db" where
  "ConvertMessageToTask env fails others now msgID convID db =
     (if fails ''begin'' then (Inl (ChatSql ''begin''), db)
      else if fails ''existing task'' then (Inl (ChatSql ''existing task''), db)
      else if task_of msgID db \<noteq> None then (Inl ErrTaskAlreadyExists, db)
      else if fails ''bump task number'' then (Inl (ChatSql ''bump task number''), db)
      else
        (case room_of convID db of
           None \<Rightarrow> (Inl (ChatNoRows ''bump task number''), db)
         | Some room \<Rightarrow>
             (case createTaskRowInTx fails now msgID convID (ro_NextTaskNumber room) TaskStatusTodo None
                     (map_rooms bump_task_number convID db) of
                Inl e \<Rightarrow> (Inl e, db)
              | Inr db' \<Rightarrow>
                  if fails ''commit'' then (Inl (ChatSql ''commit''), db) else (GetTaskMessage env fails msgID (others db'), db'))))"

section \<open>The life of a task\<close>

definition claimable :: "uuid \<Rightarrow> uuid \<Rightarrow> task_row \<Rightarrow> bool" where
  "claimable msgID convID t \<longleftrightarrow>
     tk_MessageID t = msgID \<and> tk_ConversationID t = convID \<and> tk_Status t = TaskStatusTodo \<and> tk_AgentID t = None"

definition ClaimTask ::
  "chat_env \<Rightarrow> (string \<Rightarrow> bool) \<Rightarrow> (chat_db \<Rightarrow> chat_db) \<Rightarrow> int \<Rightarrow> uuid \<Rightarrow> uuid \<Rightarrow> int \<Rightarrow> chat_db \<Rightarrow>
     (chat_error, chat_message) result \<times> chat_db" where
  "ClaimTask env fails others now msgID convID agentID db =
     reread env fails others msgID ErrTaskNotClaimable
       (update_tasks fails ''claim'' (claimable msgID convID)
         (\<lambda>t. t\<lparr>tk_Status := TaskStatusInProgress, tk_AgentID := Some agentID, tk_Type := Some 2, tk_UpdatedAt := now\<rparr>) db)"

text \<open>The team and its leader are read in \<open>db0\<close>; a NULL in either column fails the scan.\<close>

definition ClaimTeamTask ::
  "chat_env \<Rightarrow> (string \<Rightarrow> bool) \<Rightarrow> (chat_db \<Rightarrow> chat_db) \<Rightarrow> int \<Rightarrow> uuid \<Rightarrow> uuid \<Rightarrow> int \<Rightarrow> chat_db \<Rightarrow> chat_db \<Rightarrow>
     (chat_error, chat_message) result \<times> chat_db" where
  "ClaimTeamTask env fails others now msgID convID agentID db0 db =
     (if fails ''team task'' then (Inl (ChatSql ''team task''), db)
      else
        (case find (\<lambda>t. tk_MessageID t = msgID \<and> tk_ConversationID t = convID \<and> tk_Status t = TaskStatusTodo) (cd_tasks db0) of
           None \<Rightarrow> (Inl ErrTaskNotClaimable, db)
         | Some t \<Rightarrow>
             (case (tk_TeamID t, Option.bind (tk_TeamID t) (\<lambda>team. Option.bind (find (\<lambda>r. te_ID r = team) (cd_teams db0)) te_LeaderAgentID)) of
                (Some teamID, Some leaderID) \<Rightarrow>
                  if teamID = [] \<or> leaderID \<noteq> agentID then (Inl ErrTaskNotClaimable, db)
                  else
                    reread env fails others msgID ErrTaskNotClaimable
                      (update_tasks fails ''claim team''
                        (\<lambda>t. tk_MessageID t = msgID \<and> tk_ConversationID t = convID \<and> tk_Status t = TaskStatusTodo)
                        (\<lambda>t. t\<lparr>tk_Status := TaskStatusInProgress, tk_AgentID := Some agentID, tk_Type := Some 3, tk_UpdatedAt := now\<rparr>) db)
              | _ \<Rightarrow> (Inl ChatScan, db))))"

definition UnclaimTask ::
  "chat_env \<Rightarrow> (string \<Rightarrow> bool) \<Rightarrow> (chat_db \<Rightarrow> chat_db) \<Rightarrow> int \<Rightarrow> uuid \<Rightarrow> int \<Rightarrow> chat_db \<Rightarrow>
     (chat_error, chat_message) result \<times> chat_db" where
  "UnclaimTask env fails others now msgID agentID db =
     reread env fails others msgID ErrTaskNotOwner
       (update_tasks fails ''unclaim''
         (\<lambda>t. tk_MessageID t = msgID \<and> tk_AgentID t = Some agentID \<and> tk_Status t = TaskStatusInProgress)
         (\<lambda>t. t\<lparr>tk_Status := TaskStatusTodo, tk_AgentID := None, tk_Type := None, tk_UpdatedAt := now\<rparr>) db)"

definition UpdateTaskStatus ::
  "chat_env \<Rightarrow> (string \<Rightarrow> bool) \<Rightarrow> (chat_db \<Rightarrow> chat_db) \<Rightarrow> int \<Rightarrow> uuid \<Rightarrow> int \<Rightarrow> chat_db \<Rightarrow>
     (chat_error, chat_message) result \<times> chat_db" where
  "UpdateTaskStatus env fails others now msgID target db =
     (if target < TaskStatusTodo \<or> target > TaskStatusDone then (Inl ErrTaskInvalidTransition, db)
      else
        reread env fails others msgID ErrTaskNotFound
          (update_tasks fails ''task status'' (\<lambda>t. tk_MessageID t = msgID)
            (\<lambda>t. t\<lparr>tk_Status := target, tk_CompletedAt := (if target = TaskStatusDone then Some now else None), tk_UpdatedAt := now\<rparr>) db))"

definition TeamHasActiveTask :: "(string \<Rightarrow> bool) \<Rightarrow> string \<Rightarrow> chat_db \<Rightarrow> (chat_error, bool) result" where
  "TeamHasActiveTask fails teamID db =
     (if fails ''active task'' then Inl (ChatSql ''active task'')
      else Inr (list_ex (\<lambda>t. tk_TeamID t = Some teamID \<and> tk_Status t \<in> {1, 2, 3}) (cd_tasks db)))"

definition nullIfEmpty :: "string \<Rightarrow> string option" where
  "nullIfEmpty s = (if s = [] then None else Some s)"

datatype assignee = AssigneeTeam string | AssigneeAgent int | AssigneeUser int

definition resolve_assignee ::
  "(string \<Rightarrow> bool) \<Rightarrow> uuid \<Rightarrow> int \<Rightarrow> string \<Rightarrow> chat_db \<Rightarrow> (chat_error, assignee) result" where
  "resolve_assignee fails convID memberType memberID db =
     (let member_of = (\<lambda>rows. case find (\<lambda>(_, key). key = memberID) rows of
            None \<Rightarrow> Inl ErrTaskAssigneeNotMember
          | Some (i, _) \<Rightarrow> if list_ex (\<lambda>m. meta_key m = (convID, memberType, memberID)) (cd_meta db) then Inr i
              else Inl ErrTaskAssigneeNotMember) in
      if memberType = 3 then
        (case GetAgentTeamByResourceID fails memberID db of
           Inl e \<Rightarrow> Inl e
         | Inr None \<Rightarrow> Inl ErrTaskAssigneeNotMember
         | Inr (Some team) \<Rightarrow>
             (case TeamHasActiveTask fails (ta_ID team) db of
                Inl e \<Rightarrow> Inl e
              | Inr True \<Rightarrow> Inl ErrTaskTeamAlreadyAssigned
              | Inr False \<Rightarrow> Inr (AssigneeTeam (ta_ID team))))
      else if memberType = MemberTypeAgent then
        (if fails ''agent assignee'' then Inl (ChatSql ''agent assignee'')
         else case member_of (map (\<lambda>(i, resourceID, _). (i, resourceID)) (cd_agents db)) of Inl e \<Rightarrow> Inl e | Inr i \<Rightarrow> Inr (AssigneeAgent i))
      else if memberType = MemberTypeUser then
        (if fails ''user assignee'' then Inl (ChatSql ''user assignee'')
         else case member_of (map (\<lambda>(i, _, handle). (i, handle)) (cd_principals db)) of Inl e \<Rightarrow> Inl e | Inr i \<Rightarrow> Inr (AssigneeUser i))
      else Inl ErrTaskAssigneeNotMember)"

definition assign_row :: "int \<Rightarrow> assignee \<Rightarrow> task_row \<Rightarrow> task_row" where
  "assign_row now a t =
     (case a of
        AssigneeTeam team \<Rightarrow> t\<lparr>tk_Type := Some 3, tk_AgentID := None, tk_UserID := None, tk_TeamID := nullIfEmpty team, tk_UpdatedAt := now\<rparr>
      | AssigneeAgent i \<Rightarrow> t\<lparr>tk_Type := Some 2, tk_AgentID := Some i, tk_UserID := None, tk_TeamID := None, tk_UpdatedAt := now\<rparr>
      | AssigneeUser i \<Rightarrow> t\<lparr>tk_Type := Some 1, tk_AgentID := None, tk_UserID := Some i, tk_TeamID := None, tk_UpdatedAt := now\<rparr>)"

text \<open>The assignee is resolved in \<open>db0\<close>, before the update.\<close>

definition AssignTask ::
  "chat_env \<Rightarrow> (string \<Rightarrow> bool) \<Rightarrow> (chat_db \<Rightarrow> chat_db) \<Rightarrow> int \<Rightarrow> uuid \<Rightarrow> uuid \<Rightarrow>
     int \<Rightarrow> string \<Rightarrow> chat_db \<Rightarrow> chat_db \<Rightarrow> (chat_error, chat_message) result \<times> chat_db" where
  "AssignTask env fails others now msgID convID memberType memberID db0 db =
     (case resolve_assignee fails convID memberType memberID db0 of
        Inl e \<Rightarrow> (Inl e, db)
      | Inr a \<Rightarrow>
          reread env fails others msgID ErrTaskNotFound
            (update_tasks fails ''assign'' (\<lambda>t. tk_MessageID t = msgID \<and> tk_ConversationID t = convID) (assign_row now a) db))"

definition CloseTask ::
  "chat_env \<Rightarrow> (string \<Rightarrow> bool) \<Rightarrow> (chat_db \<Rightarrow> chat_db) \<Rightarrow> int \<Rightarrow> uuid \<Rightarrow> uuid \<Rightarrow> chat_db \<Rightarrow>
     (chat_error, chat_message \<times> bool) result \<times> chat_db" where
  "CloseTask env fails others now msgID convID db =
     (case update_tasks fails ''close''
             (\<lambda>t. tk_MessageID t = msgID \<and> tk_ConversationID t = convID \<and> tk_Status t \<noteq> TaskStatusDone)
             (\<lambda>t. t\<lparr>tk_Status := TaskStatusDone, tk_CompletedAt := Some now, tk_UpdatedAt := now\<rparr>) db of
        (Inl e, db') \<Rightarrow> (Inl e, db')
      | (Inr rows, db') \<Rightarrow>
          (case GetTaskMessage env fails msgID (others db') of
             Inl e \<Rightarrow> (Inl e, db')
           | Inr msg \<Rightarrow>
               (if msg_ConversationID msg \<noteq> convID then Inl ErrTaskNotFound else Inr (msg, rows > 0), db')))"

section \<open>The task board\<close>

definition Atoi :: "string \<Rightarrow> int option" where
  "Atoi s =
     (case s of
        [] \<Rightarrow> None
      | c # cs \<Rightarrow>
          if c = CHR ''-'' then (case parse_uint 64 cs of None \<Rightarrow> None | Some v \<Rightarrow> if v \<le> 2 ^ 63 then Some (- int v) else None)
          else map_option int (parse_uint 63 (if c = CHR ''+'' then cs else s)))"

definition ListTasks ::
  "chat_env \<Rightarrow> (string \<Rightarrow> bool) \<Rightarrow> uuid \<Rightarrow> int list \<Rightarrow> int \<Rightarrow> string \<Rightarrow> chat_db \<Rightarrow>
     (chat_error, chat_message list \<times> string) result" where
  "ListTasks env fails convID statusFilter pageSize pageToken db =
     (let size' = (if pageSize \<le> 0 \<or> pageSize > 100 then 30 else pageSize);
          offset = (case Atoi pageToken of None \<Rightarrow> 0 | Some v \<Rightarrow> if v < 0 then 0 else v);
          rows = List.map_filter (\<lambda>r. map_option (\<lambda>t. (t, r)) (task_of (mr_ID r) db))
            (filter (\<lambda>r. mr_ConversationID r = convID \<and> mr_ThreadRoot r = None) (joined db));
          wanted = filter (\<lambda>(t, _). statusFilter = [] \<or> tk_Status t \<in> set statusFilter) rows in
      if fails ''list tasks'' then Inl (ChatSql ''list tasks'')
      else
        (case scan_rows (scanChatMessageRow env db)
                (map snd (limited (nat size') (nat offset) (desc (\<lambda>(t, _). tk_Number t) wanted))) of
           Inl e \<Rightarrow> Inl e
         | Inr msgs \<Rightarrow>
             (case fillThreadReplyCounts fails db msgs of
                Inl e \<Rightarrow> Inl e
              | Inr msgs1 \<Rightarrow>
                  (case fillTaskInfo fails db msgs1 of
                     Inl e \<Rightarrow> Inl e
                   | Inr msgs2 \<Rightarrow> Inr (msgs2, if int (length msgs2) = size' then int_string (offset + size') else [])))))"

definition ListTaskCounts :: "(string \<Rightarrow> bool) \<Rightarrow> uuid \<Rightarrow> chat_db \<Rightarrow> (chat_error, int \<times> int \<times> int \<times> int) result" where
  "ListTaskCounts fails convID db =
     (let count = (\<lambda>s. int (length (filter (\<lambda>t. tk_ConversationID t = convID \<and> tk_Status t = s) (cd_tasks db)))) in
      if fails ''task counts'' then Inl (ChatSql ''task counts'')
      else Inr (count TaskStatusTodo, count TaskStatusInProgress, count TaskStatusInReview, count TaskStatusDone))"


section \<open>Steps\<close>

text \<open>Every operation on the chat tables that the program calls, whatever its outcome. \<open>CreateChatMessage\<close>, which takes the version of
  the message from its argument, has no caller and is no step.\<close>

inductive chat_step :: "chat_db \<Rightarrow> chat_db \<Rightarrow> bool" where
  posted: "chat_step db (snd (CreateChatMessageBumpVersion env fails newID now msg db))"
| task_posted: "chat_step db (snd (CreateTaskMessageBumpVersion env fails newID now msg db))"
| converted: "chat_step db (snd (ConvertMessageToTask env fails others now msgID convID db))"
| claimed: "chat_step db (snd (ClaimTask env fails others now msgID convID agentID db))"
| team_claimed: "chat_step db (snd (ClaimTeamTask env fails others now msgID convID agentID db0 db))"
| unclaimed: "chat_step db (snd (UnclaimTask env fails others now msgID agentID db))"
| status_changed: "chat_step db (snd (UpdateTaskStatus env fails others now msgID target db))"
| assigned: "chat_step db (snd (AssignTask env fails others now msgID convID memberType memberID db0 db))"
| closed: "chat_step db (snd (CloseTask env fails others now msgID convID db))"
| version_bumped: "chat_step db (snd (IncrementConversationVersion fails convID db))"
| linked: "chat_step db (snd (SetChatMessageCommandID fails msgID commandID db))"
| user_read: "chat_step db (snd (UpsertUserReadCursor fails principalID convID v db))"
| agent_read: "chat_step db (snd (UpsertCursor fails agentID convID v db))"
| agents_subscribed: "chat_step db (snd (AddThreadParticipants fails rootID ids db))"
| users_subscribed: "chat_step db (snd (AddUserThreadParticipants fails rootID ids db))"
| team_changed: "team_step db db' \<Longrightarrow> chat_step db db'"

text \<open>An operation that only updates tasks.\<close>

lemma reread_state: "snd (reread env fails others msgID none r) = snd r"
  by (auto simp: reread_def split: prod.split sum.split)

lemma claim_state:
  "snd (ClaimTask env fails others now msgID convID agentID db) =
     snd (update_tasks fails ''claim'' (claimable msgID convID)
       (\<lambda>t. t\<lparr>tk_Status := TaskStatusInProgress, tk_AgentID := Some agentID, tk_Type := Some 2, tk_UpdatedAt := now\<rparr>) db)"
  by (simp add: ClaimTask_def reread_state)

text \<open>The updates an operation on a task makes.\<close>

inductive task_update :: "task_row \<Rightarrow> task_row \<Rightarrow> bool" where
  claim: "tk_Status t = TaskStatusTodo \<Longrightarrow>
    task_update t (t\<lparr>tk_Status := TaskStatusInProgress, tk_AgentID := Some a, tk_Type := Some k, tk_UpdatedAt := now\<rparr>)"
| unclaim: "tk_Status t = TaskStatusInProgress \<Longrightarrow>
    task_update t (t\<lparr>tk_Status := TaskStatusTodo, tk_AgentID := None, tk_Type := None, tk_UpdatedAt := now\<rparr>)"
| set_status: "TaskStatusTodo \<le> target \<Longrightarrow> target \<le> TaskStatusDone \<Longrightarrow>
    task_update t (t\<lparr>tk_Status := target, tk_CompletedAt := (if target = TaskStatusDone then Some now else None), tk_UpdatedAt := now\<rparr>)"
| assign: "task_update t (assign_row now a t)"
| close: "task_update t (t\<lparr>tk_Status := TaskStatusDone, tk_CompletedAt := Some now, tk_UpdatedAt := now\<rparr>)"

definition tasks_updated :: "chat_db \<Rightarrow> chat_db \<Rightarrow> bool" where
  "tasks_updated db db' \<longleftrightarrow> db' = db \<or>
     (\<exists>tasks. db' = db\<lparr>cd_tasks := tasks\<rparr> \<and> task_indexes tasks \<and> list_all2 (\<lambda>t t'. t' = t \<or> task_update t t') (cd_tasks db) tasks)"

lemma update_tasks_updated:
  assumes "\<And>t. p t \<Longrightarrow> task_update t (f t)"
  shows "tasks_updated db (snd (update_tasks fails label p f db))"
proof -
  let ?tasks = "map (\<lambda>t. if p t then f t else t) (cd_tasks db)"
  have "list_all2 (\<lambda>t t'. t' = t \<or> task_update t t') (cd_tasks db) ?tasks"
    unfolding list_all2_map2 list_all2_same using assms by auto
  then show ?thesis by (auto simp: tasks_updated_def update_tasks_def Let_def)
qed

lemma task_ops_update:
  "tasks_updated db (snd (ClaimTask env fails others now msgID convID agentID db))"
  "tasks_updated db (snd (ClaimTeamTask env fails others now msgID convID agentID db0 db))"
  "tasks_updated db (snd (UnclaimTask env fails others now msgID agentID db))"
  "tasks_updated db (snd (UpdateTaskStatus env fails others now msgID target db))"
  "tasks_updated db (snd (AssignTask env fails others now msgID convID memberType memberID db0 db))"
  "tasks_updated db (snd (CloseTask env fails others now msgID convID db))"
proof -
  have same: "tasks_updated db db" by (simp add: tasks_updated_def)
  show "tasks_updated db (snd (ClaimTask env fails others now msgID convID agentID db))"
    unfolding claim_state by (rule update_tasks_updated) (auto simp: claimable_def intro: task_update.claim)
  show "tasks_updated db (snd (ClaimTeamTask env fails others now msgID convID agentID db0 db))"
    unfolding ClaimTeamTask_def
    by (auto simp: reread_state same split: option.split intro!: update_tasks_updated task_update.claim)
  show "tasks_updated db (snd (UnclaimTask env fails others now msgID agentID db))"
    unfolding UnclaimTask_def reread_state by (rule update_tasks_updated) (auto intro: task_update.unclaim)
  show "tasks_updated db (snd (UpdateTaskStatus env fails others now msgID target db))"
  proof (cases "target < TaskStatusTodo \<or> target > TaskStatusDone")
    case False
    then have "task_update t (t\<lparr>tk_Status := target, tk_CompletedAt := (if target = TaskStatusDone then Some now else None), tk_UpdatedAt := now\<rparr>)" for t
      by (intro task_update.set_status) auto
    then have "tasks_updated db (snd (update_tasks fails ''task status'' (\<lambda>t. tk_MessageID t = msgID) (\<lambda>t. t\<lparr>tk_Status := target,
        tk_CompletedAt := (if target = TaskStatusDone then Some now else None), tk_UpdatedAt := now\<rparr>) db))"
      by (rule update_tasks_updated)
    with False show ?thesis unfolding UpdateTaskStatus_def by (simp only: reread_state if_False)
  qed (simp add: UpdateTaskStatus_def same)
  show "tasks_updated db (snd (AssignTask env fails others now msgID convID memberType memberID db0 db))"
    unfolding AssignTask_def by (auto simp: reread_state same split: sum.split intro!: update_tasks_updated task_update.assign)
  have "snd (CloseTask env fails others now msgID convID db) = snd (update_tasks fails ''close''
      (\<lambda>t. tk_MessageID t = msgID \<and> tk_ConversationID t = convID \<and> tk_Status t \<noteq> TaskStatusDone)
      (\<lambda>t. t\<lparr>tk_Status := TaskStatusDone, tk_CompletedAt := Some now, tk_UpdatedAt := now\<rparr>) db)"
    unfolding CloseTask_def by (auto split: prod.split sum.split)
  then show "tasks_updated db (snd (CloseTask env fails others now msgID convID db))"
    by (simp add: update_tasks_updated task_update.close)
qed


section \<open>Numbers\<close>

lemma task_update_key: "task_update t t' \<Longrightarrow> tk_ConversationID t' = tk_ConversationID t \<and> tk_Number t' = tk_Number t \<and> tk_MessageID t' = tk_MessageID t"
  by (induction rule: task_update.induct) (auto simp: assign_row_def split: assignee.split)

lemma bump_task_number_simps [simp]:
  "ro_ID (bump_task_number r) = ro_ID r" "ro_Version (bump_task_number r) = ro_Version r"
  "ro_NextTaskNumber (bump_task_number r) = ro_NextTaskNumber r + 1"
  by (simp_all add: bump_task_number_def)

lemma issued_tasks_alt: "issued_tasks c db = map snd (filter (\<lambda>k. fst k = c) (map (\<lambda>t. (tk_ConversationID t, tk_Number t)) (cd_tasks db)))"
  by (simp add: issued_tasks_def filter_map comp_def)

lemma same_numbers:
  assumes "cd_messages db' = cd_messages db" "cd_rooms db' = cd_rooms db"
    "map (\<lambda>t. (tk_ConversationID t, tk_Number t)) (cd_tasks db') = map (\<lambda>t. (tk_ConversationID t, tk_Number t)) (cd_tasks db)"
  shows "issued_versions c db' = issued_versions c db" "room_version c db' = room_version c db"
    "issued_tasks c db' = issued_tasks c db" "last_task c db' = last_task c db"
  by (simp_all add: issued_versions_def room_version_def last_task_def room_of_def issued_tasks_alt assms)

lemma tasks_updated_numbers:
  assumes "tasks_updated db db'"
  shows "issued_versions c db' = issued_versions c db" "room_version c db' = room_version c db"
    "issued_tasks c db' = issued_tasks c db" "last_task c db' = last_task c db"
proof -
  have "map (\<lambda>t. (tk_ConversationID t, tk_Number t)) ts' = map (\<lambda>t. (tk_ConversationID t, tk_Number t)) ts"
    if "list_all2 (\<lambda>t t'. t' = t \<or> task_update t t') ts ts'" for ts ts'
    using that by (induction rule: list_all2_induct) (auto dest: task_update_key)
  then have "map (\<lambda>t. (tk_ConversationID t, tk_Number t)) (cd_tasks db') = map (\<lambda>t. (tk_ConversationID t, tk_Number t)) (cd_tasks db)"
    and "cd_messages db' = cd_messages db" "cd_rooms db' = cd_rooms db"
    using assms by (auto simp: tasks_updated_def)
  then show "issued_versions c db' = issued_versions c db" "room_version c db' = room_version c db"
    "issued_tasks c db' = issued_tasks c db" "last_task c db' = last_task c db" using same_numbers by blast+
qed

lemma create_task_row_effect:
  assumes "createTaskRowInTx fails now msgID convID n status a db = Inr db'"
  shows "\<exists>row. db' = db\<lparr>cd_tasks := cd_tasks db @ [row]\<rparr> \<and> tk_MessageID row = msgID \<and> tk_ConversationID row = convID \<and> tk_Number row = n \<and>
    tk_Status row = status \<and> tk_AgentID row = a \<and> tk_CompletedAt row = None \<and> task_indexes (cd_tasks db @ [row])"
  using assms by (auto simp: createTaskRowInTx_def Let_def split: if_splits)

text \<open>A posted task takes the next version and the next number.\<close>

lemma task_post_effect:
  assumes "CreateTaskMessageBumpVersion env fails newID now msg db = (r, db')"
  shows "case r of
      Inl _ \<Rightarrow> db' = db
    | Inr (m, v) \<Rightarrow> \<exists>row task room. room_of (msg_ConversationID msg) db = Some room \<and> v = ro_Version room + 1 \<and>
        mr_ConversationID row = msg_ConversationID msg \<and> mr_RoomVersion row = v \<and>
        tk_ConversationID task = msg_ConversationID msg \<and> tk_Number task = ro_NextTaskNumber room \<and> tk_Status task = TaskStatusTodo \<and>
        tk_CompletedAt task = None \<and> tk_MessageID task = newID \<and> task_indexes (cd_tasks db @ [task]) \<and>
        cd_messages db' = cd_messages db @ [row] \<and> cd_tasks db' = cd_tasks db @ [task] \<and>
        cd_rooms db' = cd_rooms (map_rooms (bump_task_number \<circ> bump_version now) (msg_ConversationID msg) db) \<and>
        cd_team_members db' = cd_team_members db"
proof (cases r)
  case (Inl e)
  then show ?thesis
    using assms by (auto simp: CreateTaskMessageBumpVersion_def Let_def split: if_splits option.splits sum.splits)
next
  case (Inr mv)
  then obtain room db1 db2 where room: "room_of (msg_ConversationID msg) db = Some room"
    and c: "createChatMessageInTx env fails newID now msg (ro_Version room + 1)
      (map_rooms (bump_task_number \<circ> bump_version now) (msg_ConversationID msg) db) = Inr db1"
    and t: "createTaskRowInTx fails now newID (msg_ConversationID msg) (ro_NextTaskNumber room) TaskStatusTodo None db1 = Inr db2"
    and d: "db' = notify_room (msg_ConversationID msg) db2" "snd mv = ro_Version room + 1"
    using assms by (auto simp: CreateTaskMessageBumpVersion_def Let_def split: if_splits option.splits sum.splits)
  from createInTx_effect [OF c] create_task_row_effect [OF t] room d Inr show ?thesis
    by (auto simp: notify_room_def split: prod.split)
qed

lemma convert_effect:
  assumes "ConvertMessageToTask env fails others now msgID convID db = (r, db')"
  shows "db' = db \<or> (\<exists>task room. room_of convID db = Some room \<and> tk_ConversationID task = convID \<and> tk_Number task = ro_NextTaskNumber room \<and>
    tk_Status task = TaskStatusTodo \<and> tk_CompletedAt task = None \<and> tk_MessageID task = msgID \<and> task_indexes (cd_tasks db @ [task]) \<and>
    cd_tasks db' = cd_tasks db @ [task] \<and> cd_messages db' = cd_messages db \<and> cd_team_members db' = cd_team_members db \<and>
    cd_rooms db' = cd_rooms (map_rooms bump_task_number convID db))"
proof (cases "db' = db")
  case False
  then obtain room where room: "room_of convID db = Some room"
    and t: "createTaskRowInTx fails now msgID convID (ro_NextTaskNumber room) TaskStatusTodo None (map_rooms bump_task_number convID db) = Inr db'"
    using assms by (auto simp: ConvertMessageToTask_def split: if_splits option.splits sum.splits)
  from create_task_row_effect [OF t] room show ?thesis by auto
qed simp

definition one_number :: "(uuid \<Rightarrow> chat_db \<Rightarrow> int list) \<Rightarrow> (uuid \<Rightarrow> chat_db \<Rightarrow> int) \<Rightarrow> uuid \<Rightarrow> chat_db \<Rightarrow> chat_db \<Rightarrow> bool" where
  "one_number issued counter c db db' \<longleftrightarrow> issued c db' = issued c db \<and> counter c db' = counter c db \<or>
     issued c db' = issued c db @ [counter c db'] \<and> counter c db' = counter c db + 1"

lemma task_post_numbers:
  assumes "CreateTaskMessageBumpVersion env fails newID now msg db = (r, db')"
  shows "one_number issued_versions room_version c db db' \<and> one_number issued_tasks last_task c db db'"
proof (cases r)
  case (Inl e)
  then show ?thesis using task_post_effect [OF assms] by (simp add: one_number_def)
next
  case (Inr mv)
  let ?f = "bump_task_number \<circ> bump_version now"
  obtain row task room where room: "room_of (msg_ConversationID msg) db = Some room"
    and row: "mr_ConversationID row = msg_ConversationID msg" "mr_RoomVersion row = ro_Version room + 1"
      "tk_ConversationID task = msg_ConversationID msg" "tk_Number task = ro_NextTaskNumber room"
    and d: "cd_messages db' = cd_messages db @ [row]" "cd_tasks db' = cd_tasks db @ [task]"
      "cd_rooms db' = cd_rooms (map_rooms ?f (msg_ConversationID msg) db)"
    using task_post_effect [OF assms] Inr by (auto split: prod.splits)
  have r: "room_of c db' = (if c = msg_ConversationID msg then map_option ?f (room_of c db) else room_of c db)"
    using room_of_map_rooms [of ?f c "msg_ConversationID msg" db] d(3) by (simp add: room_of_def)
  show ?thesis
    using room row d r by (cases "c = msg_ConversationID msg") (auto simp: one_number_def issued_versions_def room_version_def issued_tasks_def last_task_def)
qed

lemma convert_numbers:
  assumes "ConvertMessageToTask env fails others now msgID convID db = (r, db')"
  shows "one_number issued_versions room_version c db db' \<and> one_number issued_tasks last_task c db db'"
proof (cases "db' = db")
  case False
  then obtain task room where room: "room_of convID db = Some room" "tk_ConversationID task = convID" "tk_Number task = ro_NextTaskNumber room"
    and d: "cd_tasks db' = cd_tasks db @ [task]" "cd_messages db' = cd_messages db" "cd_rooms db' = cd_rooms (map_rooms bump_task_number convID db)"
    using convert_effect [OF assms] by blast
  have r: "room_of c db' = (if c = convID then map_option bump_task_number (room_of c db) else room_of c db)"
    using room_of_map_rooms [of bump_task_number c convID db] d(3) by (simp add: room_of_def)
  show ?thesis
    using room d r by (cases "c = convID") (auto simp: one_number_def issued_versions_def room_version_def issued_tasks_def last_task_def split: option.split)
qed (simp add: one_number_def)


lemma replace_members_frame:
  "replaceTeamMembersTx fails now teamID members db = Inr db' \<Longrightarrow> \<exists>rows. db' = db\<lparr>cd_team_members := rows\<rparr>"
  by (auto simp: replaceTeamMembersTx_def split: if_splits option.splits)

lemma team_step_frame:
  assumes "team_step db db'"
  shows "cd_messages db' = cd_messages db \<and> cd_rooms db' = cd_rooms db \<and> cd_tasks db' = cd_tasks db"
  using assms
proof cases
  case (created fails now newID newName team)
  then have "CreateAgentTeam fails now newID newName team db = (fst (CreateAgentTeam fails now newID newName team db), db')" by simp
  from CreateAgentTeam_cases [OF this] show ?thesis by (auto dest: replace_members_frame)
next
  case (updated fails now teamID patch)
  let ?db1 = "if patches_fields patch
    then db\<lparr>cd_teams := map (\<lambda>t. if te_ID t = teamID then patch_team now patch t else t) (cd_teams db)\<rparr> else db"
  have "db' = db \<or> db' = ?db1 \<or> (\<exists>members. replaceTeamMembersTx fails now teamID members ?db1 = Inr db')"
    unfolding updated UpdateAgentTeam_def Let_def by (auto split: sum.splits option.splits)
  then show ?thesis by (auto dest!: replace_members_frame split: if_splits)
next
  case (deleted fails now teamID)
  then show ?thesis by (simp add: DeleteAgentTeam_def)
qed

lemma linked_versions:
  "issued_versions c (snd (SetChatMessageCommandID fails msgID commandID db)) = issued_versions c db"
proof -
  have "map mr_RoomVersion (filter (\<lambda>r. mr_ConversationID r = c) (map (\<lambda>r. if mr_ID r = msgID then r\<lparr>mr_CommandID := Some commandID\<rparr> else r) rows)) =
      map mr_RoomVersion (filter (\<lambda>r. mr_ConversationID r = c) rows)" for rows
    by (induction rows) auto
  from this [of "cd_messages db"] show ?thesis by (simp add: SetChatMessageCommandID_def issued_versions_def)
qed

lemma side_tables:
  "cd_messages (snd (UpsertUserReadCursor fails i c v db)) = cd_messages db" "cd_rooms (snd (UpsertUserReadCursor fails i c v db)) = cd_rooms db"
  "cd_tasks (snd (UpsertUserReadCursor fails i c v db)) = cd_tasks db"
  "cd_messages (snd (UpsertCursor fails i c v db)) = cd_messages db" "cd_rooms (snd (UpsertCursor fails i c v db)) = cd_rooms db"
  "cd_tasks (snd (UpsertCursor fails i c v db)) = cd_tasks db"
  "cd_messages (snd (AddThreadParticipants fails root ids db)) = cd_messages db" "cd_rooms (snd (AddThreadParticipants fails root ids db)) = cd_rooms db"
  "cd_tasks (snd (AddThreadParticipants fails root ids db)) = cd_tasks db"
  "cd_messages (snd (AddUserThreadParticipants fails root ids db)) = cd_messages db"
  "cd_rooms (snd (AddUserThreadParticipants fails root ids db)) = cd_rooms db"
  "cd_tasks (snd (AddUserThreadParticipants fails root ids db)) = cd_tasks db"
  "cd_rooms (snd (SetChatMessageCommandID fails msgID commandID db)) = cd_rooms db"
  "cd_tasks (snd (SetChatMessageCommandID fails msgID commandID db)) = cd_tasks db"
  by (simp_all add: UpsertUserReadCursor_def UpsertCursor_def raise_cursor_def AddThreadParticipants_def AddUserThreadParticipants_def
      SetChatMessageCommandID_def Let_def)

lemma bumped_numbers:
  assumes "db' = snd (IncrementConversationVersion fails convID db)"
  shows "issued_versions c db' = issued_versions c db \<and> room_version c db \<le> room_version c db' \<and>
    issued_tasks c db' = issued_tasks c db \<and> last_task c db' = last_task c db"
proof (cases "fails ''increment version'' \<or> room_of convID db = None")
  case True
  then show ?thesis using assms by (auto simp: IncrementConversationVersion_def split: option.split)
next
  case False
  then have d: "db' = map_rooms (\<lambda>r. r\<lparr>ro_Version := ro_Version r + 1\<rparr>) convID db"
    using assms by (auto simp: IncrementConversationVersion_def)
  show ?thesis unfolding d room_version_def last_task_def
    by (auto simp: room_of_map_rooms issued_versions_def issued_tasks_def split: option.split)
qed

lemma one_number_same: "issued c db' = issued c db \<Longrightarrow> counter c db' = counter c db \<Longrightarrow> one_number issued counter c db db'"
  by (simp add: one_number_def)

lemma chat_step_numbers:
  assumes "chat_step db db'"
  shows "one_number issued_tasks last_task c db db' \<and>
    (one_number issued_versions room_version c db db' \<or> issued_versions c db' = issued_versions c db \<and> room_version c db \<le> room_version c db')"
  using assms
proof cases
  case (posted env fails newID now msg)
  then show ?thesis
    using post_numbers [OF surjective_pairing, where convID = c and env = env and fails = fails and newID = newID and now = now and msg = msg and db = db]
    by (auto simp: one_number_def)
next
  case (task_posted env fails newID now msg)
  then show ?thesis using task_post_numbers [OF surjective_pairing] by blast
next
  case (converted env fails others now msgID convID)
  then show ?thesis using convert_numbers [OF surjective_pairing] by blast
next
  case (version_bumped fails convID)
  then show ?thesis using bumped_numbers by (simp add: one_number_def)
next
  case (linked fails msgID commandID)
  then show ?thesis using linked_versions [of c fails msgID commandID db] side_tables(13,14)
    by (simp add: one_number_def room_version_def last_task_def room_of_def issued_tasks_def)
next
  case team_changed
  then show ?thesis using team_step_frame same_numbers [of db' db c] by (simp add: one_number_def)
qed (use same_numbers [of db' db c] side_tables tasks_updated_numbers [OF task_ops_update(1)] tasks_updated_numbers [OF task_ops_update(2)]
    tasks_updated_numbers [OF task_ops_update(3)] tasks_updated_numbers [OF task_ops_update(4)] tasks_updated_numbers [OF task_ops_update(5)]
    tasks_updated_numbers [OF task_ops_update(6)] in \<open>auto intro!: one_number_same\<close>)

interpretation room_versions: numbering "issued_versions c" "room_version c" chat_step for c
proof
  show "issued_versions c db' = issued_versions c db \<and> room_version c db \<le> room_version c db' \<or>
      issued_versions c db' = issued_versions c db @ [room_version c db'] \<and> room_version c db < room_version c db'"
    if "chat_step db db'" for db db' using chat_step_numbers [OF that, of c] by (auto simp: one_number_def)
qed

interpretation task_numbers: gapless "issued_tasks c" "last_task c" chat_step for c
proof
  show "issued_tasks c db' = issued_tasks c db \<and> last_task c db' = last_task c db \<or>
      issued_tasks c db' = issued_tasks c db @ [last_task c db'] \<and> last_task c db' = last_task c db + 1"
    if "chat_step db db'" for db db' using chat_step_numbers [OF that, of c] by (simp add: one_number_def)
qed

section \<open>Messages stay\<close>






section \<open>Rows of tasks\<close>

definition task_row_ok :: "task_row \<Rightarrow> bool" where
  "task_row_ok t \<longleftrightarrow> TaskStatusTodo \<le> tk_Status t \<and> tk_Status t \<le> TaskStatusDone \<and> (tk_CompletedAt t \<noteq> None \<longleftrightarrow> tk_Status t = TaskStatusDone)"

definition tasks_ok :: "chat_db \<Rightarrow> bool" where
  "tasks_ok db \<longleftrightarrow> task_indexes (cd_tasks db) \<and> (\<forall>t \<in> set (cd_tasks db). task_row_ok t)"

lemma task_update_ok: "task_update t t' \<Longrightarrow> task_row_ok t \<Longrightarrow> task_row_ok t'"
  by (induction rule: task_update.induct) (auto simp: task_row_ok_def task_status_defs assign_row_def split: assignee.split)

lemma tasks_updated_ok:
  assumes "tasks_updated db db'" "tasks_ok db"
  shows "tasks_ok db'"
proof -
  have "\<forall>t \<in> set ts'. task_row_ok t" if "list_all2 (\<lambda>t t'. t' = t \<or> task_update t t') ts ts'" "\<forall>t \<in> set ts. task_row_ok t" for ts ts'
    using that by (induction rule: list_all2_induct) (auto dest: task_update_ok)
  then show ?thesis using assms by (auto simp: tasks_updated_def tasks_ok_def)
qed

lemma new_task_ok:
  assumes "tasks_ok db" "cd_tasks db' = cd_tasks db @ [t]" "task_indexes (cd_tasks db @ [t])" "tk_Status t = TaskStatusTodo" "tk_CompletedAt t = None"
  shows "tasks_ok db'"
  using assms by (auto simp: tasks_ok_def task_row_ok_def task_status_defs)

lemma tasks_ok_cong: "cd_tasks db' = cd_tasks db \<Longrightarrow> tasks_ok db' = tasks_ok db"
  by (simp add: tasks_ok_def)

lemma chat_step_tasks_ok:
  assumes "chat_step db db'" "tasks_ok db"
  shows "tasks_ok db'"
  using assms(1)
proof cases
  case (posted env fails newID now msg)
  then have "cd_tasks db' = cd_tasks db"
    using post_effect [OF surjective_pairing, of env fails newID now msg db] by (auto split: sum.splits prod.splits)
  then show ?thesis using assms(2) tasks_ok_cong by blast
next
  case (task_posted env fails newID now msg)
  then have "CreateTaskMessageBumpVersion env fails newID now msg db = (fst (CreateTaskMessageBumpVersion env fails newID now msg db), db')" by simp
  from task_post_effect [OF this] show ?thesis using assms(2) new_task_ok by (auto split: sum.splits prod.splits)
next
  case (converted env fails others now msgID convID)
  then have "ConvertMessageToTask env fails others now msgID convID db = (fst (ConvertMessageToTask env fails others now msgID convID db), db')" by simp
  from convert_effect [OF this] show ?thesis using assms(2) new_task_ok by blast
next
  case (version_bumped fails convID)
  then have "cd_tasks db' = cd_tasks db" by (simp add: IncrementConversationVersion_def split: option.split)
  then show ?thesis using assms(2) tasks_ok_cong by blast
next
  case team_changed
  then show ?thesis using team_step_frame assms(2) tasks_ok_cong by blast
qed (use assms(2) tasks_updated_ok [OF task_ops_update(1)] tasks_updated_ok [OF task_ops_update(2)] tasks_updated_ok [OF task_ops_update(3)]
    tasks_updated_ok [OF task_ops_update(4)] tasks_updated_ok [OF task_ops_update(5)] tasks_updated_ok [OF task_ops_update(6)]
    tasks_ok_cong [OF side_tables(3)] tasks_ok_cong [OF side_tables(6)] tasks_ok_cong [OF side_tables(9)] tasks_ok_cong [OF side_tables(12)]
    tasks_ok_cong [OF side_tables(14)] in \<open>simp_all\<close>)


text \<open>C21: Whatever sequence of posts, task operations, reads and team changes runs on the chat tables, the room versions of a
  conversation's messages stay strictly increasing and never pass the version of the conversation, a version once given out is never
  given again, and the tasks of the conversation are numbered one, two, three and so on without a gap up to the last number handed out.\<close>

theorem chat_numbers:
  assumes "chat_step\<^sup>*\<^sup>* db db'"
    and "sorted_wrt (<) (issued_versions c db)" "\<forall>v \<in> set (issued_versions c db). v \<le> room_version c db"
    and "issued_tasks c db = [1..last_task c db]" "0 \<le> last_task c db"
  shows "sorted_wrt (<) (issued_versions c db') \<and> (\<forall>v \<in> set (issued_versions c db'). v \<le> room_version c db') \<and>
    prefix (issued_versions c db) (issued_versions c db') \<and> room_version c db \<le> room_version c db' \<and>
    issued_tasks c db' = [1..last_task c db']"
  using room_versions.numbered_once [OF assms(1-3)] task_numbers.numbers_have_no_gap [OF assms(1,4,5)] by simp


text \<open>Whatever sequence of operations runs, every task has a status from todo to done, it has a completion time exactly when
  it is done, no two tasks share a message or a number, and no team is assigned two open tasks.\<close>

theorem tasks_stay_ok:
  assumes "chat_step\<^sup>*\<^sup>* db db'" "tasks_ok db"
  shows "tasks_ok db'"
  using assms by (induction rule: rtranclp_induct) (auto intro: chat_step_tasks_ok)

section \<open>Claims\<close>

text \<open>An update of one task, by its message.\<close>

lemma update_one:
  assumes "tasks_ok db" "t \<in> set (cd_tasks db)" "p t" "\<And>u. p u \<Longrightarrow> tk_MessageID u = tk_MessageID t"
    and "\<not> fails label" "task_indexes (map (\<lambda>u. if p u then f u else u) (cd_tasks db))" "tk_MessageID (f t) = tk_MessageID t"
  shows "fst (update_tasks fails label p f db) = Inr 1"
    and "filter (\<lambda>u. tk_MessageID u = tk_MessageID t) (cd_tasks (snd (update_tasks fails label p f db))) = [f t]"
proof -
  let ?tasks = "map (\<lambda>u. if p u then f u else u) (cd_tasks db)"
  have d: "distinct (map tk_MessageID (cd_tasks db))" using assms(1) by (simp add: tasks_ok_def task_indexes_def)
  then have only: "u = t" if "u \<in> set (cd_tasks db)" "tk_MessageID u = tk_MessageID t" for u
    using that assms(2) by (auto simp: distinct_map inj_on_def)
  have "filter p (cd_tasks db) = filter (\<lambda>u. tk_MessageID u = tk_MessageID t) (cd_tasks db)"
  proof (rule filter_cong [OF refl])
    show "p u = (tk_MessageID u = tk_MessageID t)" if "u \<in> set (cd_tasks db)" for u using assms(3) assms(4) [of u] only [OF that] by blast
  qed
  also have "\<dots> = [t]" using filter_key_unique d assms(2) .
  finally have one: "length (filter p (cd_tasks db)) = 1" by simp
  have u: "update_tasks fails label p f db = (Inr (length (filter p (cd_tasks db))), db\<lparr>cd_tasks := ?tasks\<rparr>)"
    using assms(5,6) by (simp add: update_tasks_def Let_def)
  show "fst (update_tasks fails label p f db) = Inr 1" using u one by simp
  have "(\<lambda>u. if p u then f u else u) t \<in> set ?tasks" unfolding set_map using assms(2) by (rule imageI)
  then have "f t \<in> set ?tasks" using assms(3) by simp
  moreover have "distinct (map tk_MessageID ?tasks)" using assms(6) unfolding task_indexes_def by blast
  ultimately have "filter (\<lambda>u. tk_MessageID u = tk_MessageID (f t)) ?tasks = [f t]" by (intro filter_key_unique)
  then show "filter (\<lambda>u. tk_MessageID u = tk_MessageID t) (cd_tasks (snd (update_tasks fails label p f db))) = [f t]"
    unfolding u assms(7) by simp
qed

lemma update_none: "\<forall>t \<in> set (cd_tasks db). \<not> p t \<Longrightarrow> snd (update_tasks fails label p f db) = db \<and>
    (\<forall>n. fst (update_tasks fails label p f db) = Inr n \<longrightarrow> n = 0)"
proof -
  assume none: "\<forall>t \<in> set (cd_tasks db). \<not> p t"
  then have "map (\<lambda>t. if p t then f t else t) (cd_tasks db) = cd_tasks db" by (simp add: map_idI)
  then show ?thesis using none by (auto simp: update_tasks_def Let_def filter_empty_conv)
qed

lemma indexes_kept:
  assumes "task_indexes tasks"
    and "\<And>t. p t \<Longrightarrow> tk_MessageID (f t) = tk_MessageID t \<and> tk_ConversationID (f t) = tk_ConversationID t \<and> tk_Number (f t) = tk_Number t \<and>
      tk_TeamID (f t) = tk_TeamID t \<and> (tk_Status (f t) \<in> {1, 2, 3}) = (tk_Status t \<in> {1, 2, 3})"
  shows "task_indexes (map (\<lambda>t. if p t then f t else t) tasks)"
proof -
  let ?g = "\<lambda>t. if p t then f t else t"
  have "map tk_MessageID (map ?g tasks) = map tk_MessageID tasks"
    "map (\<lambda>t. (tk_ConversationID t, tk_Number t)) (map ?g tasks) = map (\<lambda>t. (tk_ConversationID t, tk_Number t)) tasks"
    using assms(2) by (auto simp del: insert_iff)
  moreover have "open_teams (map ?g tasks) = open_teams tasks"
    unfolding open_teams_def by (induction tasks) (use assms(2) in \<open>auto simp: List.map_filter_simps split: option.split simp del: insert_iff\<close>)
  ultimately show ?thesis using assms(1) unfolding task_indexes_def by metis
qed

text \<open>An update confined to one task leaves the others.\<close>

lemma update_others:
  assumes "\<And>u. p u \<Longrightarrow> tk_MessageID u = m \<and> tk_MessageID (f u) = m"
  shows "filter (\<lambda>u. tk_MessageID u \<noteq> m) (cd_tasks (snd (update_tasks fails label p f db))) = filter (\<lambda>u. tk_MessageID u \<noteq> m) (cd_tasks db)"
proof -
  have "filter (\<lambda>u. tk_MessageID u \<noteq> m) (map (\<lambda>u. if p u then f u else u) ts) = filter (\<lambda>u. tk_MessageID u \<noteq> m) ts" for ts
    using assms by (induction ts) auto
  then show ?thesis by (simp add: update_tasks_def Let_def)
qed

lemma claim_effect:
  assumes "tasks_ok db" "t \<in> set (cd_tasks db)" "claimable msgID convID t" "\<not> fails ''claim''"
    and "db1 = snd (ClaimTask env fails others now msgID convID a db)"
  shows "fst (ClaimTask env fails others now msgID convID a db) = GetTaskMessage env fails msgID (others db1)"
    and "filter (\<lambda>u. tk_MessageID u = msgID) (cd_tasks db1) =
      [t\<lparr>tk_Status := TaskStatusInProgress, tk_AgentID := Some a, tk_Type := Some 2, tk_UpdatedAt := now\<rparr>]"
    and "tasks_ok db1"
proof -
  let ?f = "\<lambda>t. t\<lparr>tk_Status := TaskStatusInProgress, tk_AgentID := Some a, tk_Type := Some 2, tk_UpdatedAt := now\<rparr>"
  have m: "tk_MessageID t = msgID" using assms(3) by (simp add: claimable_def)
  have "task_indexes (cd_tasks db)" using assms(1) by (simp add: tasks_ok_def)
  then have x: "task_indexes (map (\<lambda>u. if claimable msgID convID u then ?f u else u) (cd_tasks db))"
    by (rule indexes_kept) (simp add: claimable_def task_status_defs)
  have k: "\<And>u. claimable msgID convID u \<Longrightarrow> tk_MessageID u = tk_MessageID t" using m by (simp add: claimable_def)
  have i: "tk_MessageID (?f t) = tk_MessageID t" by simp
  note u = update_one [where p = "claimable msgID convID" and f = ?f and fails = fails and label = "''claim''", OF assms(1-3) k assms(4) x i]
  from u(1) obtain db2 where db2: "update_tasks fails ''claim'' (claimable msgID convID) ?f db = (Inr 1, db2)" by (metis prod.collapse)
  have "db1 = db2" using assms(5) db2 unfolding claim_state by simp
  then show "fst (ClaimTask env fails others now msgID convID a db) = GetTaskMessage env fails msgID (others db1)"
    "filter (\<lambda>u. tk_MessageID u = msgID) (cd_tasks db1) = [?f t]"
    using u(2) m unfolding ClaimTask_def db2 by (simp_all add: reread_def)
  show "tasks_ok db1" using tasks_updated_ok [OF task_ops_update(1) assms(1)] assms(5) by simp
qed

lemma held_by:
  assumes "filter (\<lambda>u. tk_MessageID u = msgID) tasks = [r]" "u \<in> set tasks" "tk_MessageID u = msgID"
  shows "u = r"
proof -
  have "u \<in> set (filter (\<lambda>u. tk_MessageID u = msgID) tasks)" using assms(2,3) by simp
  then show ?thesis using assms(1) by simp
qed

lemma refused:
  assumes "\<forall>t \<in> set (cd_tasks db). \<not> p t"
  shows "\<exists>e. reread env fails others msgID none (update_tasks fails label p f db) = (Inl e, db)"
  using update_none [OF assms, of fails label f] by (cases "update_tasks fails label p f db") (auto simp: reread_def split: sum.split)

text \<open>C22: Of the agents that claim an unclaimed task one after the other, the first gets it and every later one is refused and changes nothing.
  A claim writes the status, the agent, the kind of the assignee and the time of the update, so a user or a team stays on the row beside
  the agent; an agent that does not hold the claim cannot release it, and the holder's release opens the task again, without its kind. No claim
  or release touches another task.\<close>

theorem claim_has_one_winner:
  assumes "tasks_ok db" "t \<in> set (cd_tasks db)" "claimable msgID convID t" "\<not> fails ''claim''"
    and "db1 = snd (ClaimTask env fails others now msgID convID a db)" "a' \<noteq> a" "\<not> fails' ''unclaim''"
  shows "fst (ClaimTask env fails others now msgID convID a db) = GetTaskMessage env fails msgID (others db1) \<and>
    filter (\<lambda>u. tk_MessageID u = msgID) (cd_tasks db1) =
      [t\<lparr>tk_Status := TaskStatusInProgress, tk_AgentID := Some a, tk_Type := Some 2, tk_UpdatedAt := now\<rparr>] \<and>
    (\<exists>e. ClaimTask env fails' others' now' msgID convID a' db1 = (Inl e, db1)) \<and>
    (\<exists>e. UnclaimTask env fails' others' now' msgID a' db1 = (Inl e, db1)) \<and>
    filter (\<lambda>u. tk_MessageID u = msgID) (cd_tasks (snd (UnclaimTask env fails' others' now' msgID a db1))) =
      [t\<lparr>tk_Type := None, tk_UpdatedAt := now'\<rparr>] \<and>
    filter (\<lambda>u. tk_MessageID u \<noteq> msgID) (cd_tasks db1) = filter (\<lambda>u. tk_MessageID u \<noteq> msgID) (cd_tasks db) \<and>
    filter (\<lambda>u. tk_MessageID u \<noteq> msgID) (cd_tasks (snd (UnclaimTask env fails' others' now' msgID a db1))) =
      filter (\<lambda>u. tk_MessageID u \<noteq> msgID) (cd_tasks db)"
proof -
  let ?row = "t\<lparr>tk_Status := TaskStatusInProgress, tk_AgentID := Some a, tk_Type := Some 2, tk_UpdatedAt := now\<rparr>"
  let ?p = "\<lambda>u. tk_MessageID u = msgID \<and> tk_AgentID u = Some a \<and> tk_Status u = TaskStatusInProgress"
  let ?f = "\<lambda>t. t\<lparr>tk_Status := TaskStatusTodo, tk_AgentID := None, tk_Type := None, tk_UpdatedAt := now'\<rparr>"
  note c = claim_effect [OF assms(1-5)]
  have m: "tk_MessageID t = msgID" "tk_Status t = TaskStatusTodo" "tk_AgentID t = None" using assms(3) by (auto simp: claimable_def)
  have row: "?row \<in> set (cd_tasks db1)" using c(2) by (metis filter_is_subset list.set_intros(1) subsetD)
  have "\<exists>e. ClaimTask env fails' others' now' msgID convID a' db1 = (Inl e, db1)" unfolding ClaimTask_def
    by (rule refused) (use held_by [OF c(2)] in \<open>fastforce simp: claimable_def\<close>)
  moreover have "\<exists>e. UnclaimTask env fails' others' now' msgID a' db1 = (Inl e, db1)" unfolding UnclaimTask_def
    by (rule refused) (use held_by [OF c(2)] assms(6) in fastforce)
  moreover have "filter (\<lambda>u. tk_MessageID u = tk_MessageID ?row) (cd_tasks (snd (update_tasks fails' ''unclaim'' ?p ?f db1))) = [?f ?row]"
  proof (rule update_one(2) [OF c(3) row])
    show "task_indexes (map (\<lambda>u. if ?p u then ?f u else u) (cd_tasks db1))"
      by (rule indexes_kept) (use c(3) in \<open>auto simp: tasks_ok_def task_status_defs\<close>)
  qed (use assms(7) m in simp_all)
  then have "filter (\<lambda>u. tk_MessageID u = msgID) (cd_tasks (snd (UnclaimTask env fails' others' now' msgID a db1))) =
      [t\<lparr>tk_Type := None, tk_UpdatedAt := now'\<rparr>]"
    using m by (simp add: UnclaimTask_def reread_state)
  moreover have o: "filter (\<lambda>u. tk_MessageID u \<noteq> msgID) (cd_tasks db1) = filter (\<lambda>u. tk_MessageID u \<noteq> msgID) (cd_tasks db)"
    unfolding assms(5) claim_state by (rule update_others) (simp add: claimable_def)
  moreover have "filter (\<lambda>u. tk_MessageID u \<noteq> msgID) (cd_tasks (snd (UnclaimTask env fails' others' now' msgID a db1))) =
      filter (\<lambda>u. tk_MessageID u \<noteq> msgID) (cd_tasks db1)"
    unfolding UnclaimTask_def reread_state by (rule update_others) simp
  ultimately show ?thesis using c(1,2) unfolding o by (intro conjI) simp_all
qed

section \<open>Examples\<close>

definition task_chat :: chat_db where
  "task_chat = snd (CreateTaskMessageBumpVersion sample_chat_env no_fail 6 9 sample_post one_message)"

lemma task_chat_tasks:
  "cd_tasks task_chat = [\<lparr>tk_MessageID = 6, tk_ConversationID = 1, tk_Number = 1, tk_Status = TaskStatusTodo, tk_AgentID = None, tk_Type = None,
     tk_UserID = None, tk_TeamID = None, tk_UpdatedAt = 9, tk_CompletedAt = None\<rparr>]"
  by code_simp

lemma task_chat_ok: "tasks_ok task_chat"
  by (simp add: tasks_ok_def task_chat_tasks task_indexes_def open_teams_def task_row_ok_def task_status_defs List.map_filter_simps)

lemma one_message_task_chat: "chat_step\<^sup>*\<^sup>* one_message task_chat"
  unfolding task_chat_def by (rule r_into_rtranclp) (rule chat_step.task_posted)

theorem chat_numbers_witness:
  "sorted_wrt (<) (issued_versions 1 task_chat) \<and> prefix (issued_versions 1 one_message) (issued_versions 1 task_chat) \<and>
    issued_tasks 1 task_chat = [1..last_task 1 task_chat]"
proof -
  have "issued_versions 1 one_message = [3]" "room_version 1 one_message = 3" "issued_tasks 1 one_message = []" "last_task 1 one_message = 0"
    by code_simp+
  then have "sorted_wrt (<) (issued_versions 1 one_message)" "\<forall>v \<in> set (issued_versions 1 one_message). v \<le> room_version 1 one_message"
    "issued_tasks 1 one_message = [1..last_task 1 one_message]" "0 \<le> last_task 1 one_message" by simp_all
  from chat_numbers [OF one_message_task_chat this] show ?thesis by simp
qed


theorem tasks_stay_ok_witness: "tasks_ok task_chat"
proof (rule tasks_stay_ok [OF one_message_task_chat])
  show "tasks_ok one_message" by (simp add: tasks_ok_def one_message_def sample_chat_def task_indexes_def open_teams_def List.map_filter_simps)
qed

theorem claim_has_one_winner_witness:
  "\<exists>e. ClaimTask sample_chat_env no_fail (\<lambda>db. db) 12 6 1 2 (snd (ClaimTask sample_chat_env no_fail (\<lambda>db. db) 11 6 1 1 task_chat)) =
     (Inl e, snd (ClaimTask sample_chat_env no_fail (\<lambda>db. db) 11 6 1 1 task_chat))"
proof -
  let ?t = "\<lparr>tk_MessageID = 6, tk_ConversationID = 1, tk_Number = 1, tk_Status = TaskStatusTodo, tk_AgentID = None, tk_Type = None,
     tk_UserID = None, tk_TeamID = None, tk_UpdatedAt = 9, tk_CompletedAt = None\<rparr> :: task_row"
  have "?t \<in> set (cd_tasks task_chat)" "claimable 6 1 ?t" by (simp_all add: task_chat_tasks claimable_def)
  from claim_has_one_winner [OF task_chat_ok this, where fails = no_fail and fails' = no_fail and a = 1 and a' = 2 and env = sample_chat_env
      and others = "\<lambda>db. db" and others' = "\<lambda>db. db" and now = 11 and now' = 12]
  show ?thesis by simp
qed

end
