(* ===== verification/Role_Store.thy ===== *)
theory Role_Store
  imports Policy_Store
begin

text \<open>
  Permissions and roles: the catalog of \<open>backend/common/permission\<close>, the predefined roles of
  \<open>backend/manager/store/predefined_roles.go\<close> and the role table with its cache
  (\<open>backend/manager/store/role.go\<close>).

  A Go map from permissions to \<open>true\<close> is the list of its keys. The JSON of the \<open>permissions\<close> column is a parameter
  (\<open>role_json\<close>), and the database may refuse a statement (\<open>fails\<close>). No lock is held from a statement to the cache operation that follows
  it: \<open>others\<close> is what other requests do in between, and in \<open>GetRole\<close> \<open>later\<close> what they do between the fill of the list and its own.

  The lemmas show that the cache agrees with the table as long as requests do not overlap, so that a snapshot read returns what a
  strong read returns, and that predefined roles can be neither shadowed nor changed.
\<close>

section \<open>The catalog\<close>

abbreviation AgentsCreate :: string where "AgentsCreate \<equiv> ''laelia.agents.create''"
abbreviation AgentsGet :: string where "AgentsGet \<equiv> ''laelia.agents.get''"
abbreviation AgentsEdit :: string where "AgentsEdit \<equiv> ''laelia.agents.edit''"
abbreviation AgentsListSessions :: string where "AgentsListSessions \<equiv> ''laelia.agents.listSessions''"
abbreviation MachinesCreate :: string where "MachinesCreate \<equiv> ''laelia.machines.create''"
abbreviation MachinesGet :: string where "MachinesGet \<equiv> ''laelia.machines.get''"
abbreviation MachinesEdit :: string where "MachinesEdit \<equiv> ''laelia.machines.edit''"
abbreviation MachinesDelete :: string where "MachinesDelete \<equiv> ''laelia.machines.delete''"
abbreviation MachinesCreateAgent :: string where "MachinesCreateAgent \<equiv> ''laelia.machines.createAgent''"
abbreviation ProvisionersGet :: string where "ProvisionersGet \<equiv> ''laelia.provisioners.get''"
abbreviation ProvisionersCreate :: string where "ProvisionersCreate \<equiv> ''laelia.provisioners.create''"
abbreviation ProvisionersDelete :: string where "ProvisionersDelete \<equiv> ''laelia.provisioners.delete''"
abbreviation ProvisionersProvision :: string where "ProvisionersProvision \<equiv> ''laelia.provisioners.provision''"
abbreviation CommandsGet :: string where "CommandsGet \<equiv> ''laelia.commands.get''"
abbreviation CommandsList :: string where "CommandsList \<equiv> ''laelia.commands.list''"
abbreviation CommandsWatch :: string where "CommandsWatch \<equiv> ''laelia.commands.watch''"
abbreviation CommandsCancel :: string where "CommandsCancel \<equiv> ''laelia.commands.cancel''"
abbreviation ConversationsCreate :: string where "ConversationsCreate \<equiv> ''laelia.conversations.create''"
abbreviation ConversationsList :: string where "ConversationsList \<equiv> ''laelia.conversations.list''"
abbreviation ConversationsRead :: string where "ConversationsRead \<equiv> ''laelia.conversations.read''"
abbreviation ConversationsSend :: string where "ConversationsSend \<equiv> ''laelia.conversations.send''"
abbreviation ConversationsManage :: string where "ConversationsManage \<equiv> ''laelia.conversations.manage''"
abbreviation ConversationsManageMembers :: string where "ConversationsManageMembers \<equiv> ''laelia.conversations.manageMembers''"
abbreviation ConversationsReviewAgentDM :: string where "ConversationsReviewAgentDM \<equiv> ''laelia.conversations.reviewAgentDM''"
abbreviation ConversationsReviewAll :: string where "ConversationsReviewAll \<equiv> ''laelia.conversations.reviewAll''"
abbreviation RemindersGet :: string where "RemindersGet \<equiv> ''laelia.reminders.get''"
abbreviation RemindersList :: string where "RemindersList \<equiv> ''laelia.reminders.list''"
abbreviation RemindersUpdate :: string where "RemindersUpdate \<equiv> ''laelia.reminders.update''"
abbreviation RemindersCancel :: string where "RemindersCancel \<equiv> ''laelia.reminders.cancel''"
abbreviation TasksList :: string where "TasksList \<equiv> ''laelia.tasks.list''"
abbreviation TasksCreate :: string where "TasksCreate \<equiv> ''laelia.tasks.create''"
abbreviation TasksManage :: string where "TasksManage \<equiv> ''laelia.tasks.manage''"
abbreviation ActivitiesList :: string where "ActivitiesList \<equiv> ''laelia.activities.list''"
abbreviation ActivitiesMarkDone :: string where "ActivitiesMarkDone \<equiv> ''laelia.activities.markDone''"
abbreviation PushConfigGet :: string where "PushConfigGet \<equiv> ''laelia.pushConfig.get''"
abbreviation PushConfigUpdate :: string where "PushConfigUpdate \<equiv> ''laelia.pushConfig.update''"
abbreviation PushSubscriptionsCreate :: string where "PushSubscriptionsCreate \<equiv> ''laelia.pushSubscriptions.create''"
abbreviation PushSubscriptionsDelete :: string where "PushSubscriptionsDelete \<equiv> ''laelia.pushSubscriptions.delete''"
abbreviation PushSubscriptionsList :: string where "PushSubscriptionsList \<equiv> ''laelia.pushSubscriptions.list''"
abbreviation FilesUpload :: string where "FilesUpload \<equiv> ''laelia.files.upload''"
abbreviation FilesDownload :: string where "FilesDownload \<equiv> ''laelia.files.download''"
abbreviation FilesList :: string where "FilesList \<equiv> ''laelia.files.list''"
abbreviation UsersCreate :: string where "UsersCreate \<equiv> ''laelia.users.create''"
abbreviation UsersGet :: string where "UsersGet \<equiv> ''laelia.users.get''"
abbreviation UsersList :: string where "UsersList \<equiv> ''laelia.users.list''"
abbreviation UsersUpdate :: string where "UsersUpdate \<equiv> ''laelia.users.update''"
abbreviation UsersDelete :: string where "UsersDelete \<equiv> ''laelia.users.delete''"
abbreviation SettingsGet :: string where "SettingsGet \<equiv> ''laelia.settings.get''"
abbreviation SettingsUpdate :: string where "SettingsUpdate \<equiv> ''laelia.settings.update''"
abbreviation RolesCreate :: string where "RolesCreate \<equiv> ''laelia.roles.create''"
abbreviation RolesGet :: string where "RolesGet \<equiv> ''laelia.roles.get''"
abbreviation RolesList :: string where "RolesList \<equiv> ''laelia.roles.list''"
abbreviation RolesUpdate :: string where "RolesUpdate \<equiv> ''laelia.roles.update''"
abbreviation RolesDelete :: string where "RolesDelete \<equiv> ''laelia.roles.delete''"
abbreviation IAMGetPolicy :: string where "IAMGetPolicy \<equiv> ''laelia.iam.getPolicy''"
abbreviation IAMSetPolicy :: string where "IAMSetPolicy \<equiv> ''laelia.iam.setPolicy''"
abbreviation GroupsCreate :: string where "GroupsCreate \<equiv> ''laelia.groups.create''"
abbreviation GroupsGet :: string where "GroupsGet \<equiv> ''laelia.groups.get''"
abbreviation GroupsList :: string where "GroupsList \<equiv> ''laelia.groups.list''"
abbreviation GroupsUpdate :: string where "GroupsUpdate \<equiv> ''laelia.groups.update''"
abbreviation GroupsDelete :: string where "GroupsDelete \<equiv> ''laelia.groups.delete''"
abbreviation AgentTeamsCreate :: string where "AgentTeamsCreate \<equiv> ''laelia.agentTeams.create''"
abbreviation AgentTeamsGet :: string where "AgentTeamsGet \<equiv> ''laelia.agentTeams.get''"
abbreviation AgentTeamsList :: string where "AgentTeamsList \<equiv> ''laelia.agentTeams.list''"
abbreviation AgentTeamsUpdate :: string where "AgentTeamsUpdate \<equiv> ''laelia.agentTeams.update''"
abbreviation AgentTeamsDelete :: string where "AgentTeamsDelete \<equiv> ''laelia.agentTeams.delete''"
abbreviation AuditLogsSearch :: string where "AuditLogsSearch \<equiv> ''laelia.auditLogs.search''"
abbreviation AuditLogsExport :: string where "AuditLogsExport \<equiv> ''laelia.auditLogs.export''"
abbreviation ApiProvidersCreate :: string where "ApiProvidersCreate \<equiv> ''laelia.apiProviders.create''"
abbreviation ApiProvidersGet :: string where "ApiProvidersGet \<equiv> ''laelia.apiProviders.get''"
abbreviation ApiProvidersList :: string where "ApiProvidersList \<equiv> ''laelia.apiProviders.list''"
abbreviation ApiProvidersUpdate :: string where "ApiProvidersUpdate \<equiv> ''laelia.apiProviders.update''"
abbreviation ApiProvidersDelete :: string where "ApiProvidersDelete \<equiv> ''laelia.apiProviders.delete''"
abbreviation McpServersCreate :: string where "McpServersCreate \<equiv> ''laelia.mcpServers.create''"
abbreviation McpServersGet :: string where "McpServersGet \<equiv> ''laelia.mcpServers.get''"
abbreviation McpServersList :: string where "McpServersList \<equiv> ''laelia.mcpServers.list''"
abbreviation McpServersUpdate :: string where "McpServersUpdate \<equiv> ''laelia.mcpServers.update''"
abbreviation McpServersDelete :: string where "McpServersDelete \<equiv> ''laelia.mcpServers.delete''"
abbreviation IdentityProvidersCreate :: string where "IdentityProvidersCreate \<equiv> ''laelia.identityProviders.create''"
abbreviation IdentityProvidersGet :: string where "IdentityProvidersGet \<equiv> ''laelia.identityProviders.get''"
abbreviation IdentityProvidersList :: string where "IdentityProvidersList \<equiv> ''laelia.identityProviders.list''"
abbreviation IdentityProvidersUpdate :: string where "IdentityProvidersUpdate \<equiv> ''laelia.identityProviders.update''"
abbreviation IdentityProvidersDelete :: string where "IdentityProvidersDelete \<equiv> ''laelia.identityProviders.delete''"

definition allPermissions :: "string list" where
  "allPermissions =
     [AgentsCreate, AgentsGet, AgentsEdit, AgentsListSessions, MachinesCreate, MachinesGet,
      MachinesEdit, MachinesDelete, MachinesCreateAgent, ProvisionersGet, ProvisionersCreate,
      ProvisionersDelete, ProvisionersProvision, CommandsGet, CommandsList, CommandsWatch,
      CommandsCancel, ConversationsCreate, ConversationsList, ConversationsRead, ConversationsSend,
      ConversationsManage, ConversationsManageMembers, ConversationsReviewAgentDM,
      ConversationsReviewAll, RemindersGet, RemindersList, RemindersUpdate, RemindersCancel, TasksList,
      TasksCreate, TasksManage, ActivitiesList, ActivitiesMarkDone, PushConfigGet, PushConfigUpdate,
      PushSubscriptionsCreate, PushSubscriptionsDelete, PushSubscriptionsList, FilesUpload,
      FilesDownload, FilesList, UsersCreate, UsersGet, UsersList, UsersUpdate, UsersDelete,
      SettingsGet, SettingsUpdate, RolesCreate, RolesGet, RolesList, RolesUpdate, RolesDelete,
      IAMGetPolicy, IAMSetPolicy, GroupsCreate, GroupsGet, GroupsList, GroupsUpdate, GroupsDelete,
      AgentTeamsCreate, AgentTeamsGet, AgentTeamsList, AgentTeamsUpdate, AgentTeamsDelete,
      AuditLogsSearch, AuditLogsExport, ApiProvidersCreate, ApiProvidersGet, ApiProvidersList,
      ApiProvidersUpdate, ApiProvidersDelete, McpServersCreate, McpServersGet, McpServersList,
      McpServersUpdate, McpServersDelete, IdentityProvidersCreate, IdentityProvidersGet,
      IdentityProvidersList, IdentityProvidersUpdate, IdentityProvidersDelete]"

definition AllPermissions :: "string list" where
  "AllPermissions = allPermissions"

definition Exist :: "string \<Rightarrow> bool" where
  "Exist p = (p \<in> set allPermissions)"

fun Exists :: "string list \<Rightarrow> bool" where
  "Exists [] = True"
| "Exists (p # ps) = (if \<not> Exist p then False else Exists ps)"

definition resourceScopedPermissions :: "string list" where
  "resourceScopedPermissions =
     [ConversationsRead, ConversationsSend, ConversationsManage, ConversationsManageMembers, AgentsEdit, CommandsGet,
      CommandsWatch, CommandsCancel, RemindersGet, RemindersUpdate, RemindersCancel, FilesDownload, FilesList,
      MachinesCreateAgent, ProvisionersProvision]"

definition IsResourceScoped :: "string \<Rightarrow> bool" where
  "IsResourceScoped perm = (perm \<in> set resourceScopedPermissions)"

section \<open>Predefined roles\<close>

record role_message =
  rm_ResourceID :: string
  rm_Name :: string
  rm_Description :: string
  rm_Permissions :: "string list"
  rm_Predefined :: bool

definition WorkspaceAdminRole :: string where "WorkspaceAdminRole = ''workspaceAdmin''"
definition WorkspaceMemberRole :: string where "WorkspaceMemberRole = ''workspaceMember''"
definition MachineAgentCreatorRole :: string where "MachineAgentCreatorRole = ''machineAgentCreator''"
definition ProvisionerMachineCreatorRole :: string where "ProvisionerMachineCreatorRole = ''provisionerMachineCreator''"
definition MachineProvisionerRole :: string where "MachineProvisionerRole = ''machineProvisioner''"

lemmas role_ids = WorkspaceAdminRole_def WorkspaceMemberRole_def MachineAgentCreatorRole_def ProvisionerMachineCreatorRole_def
  MachineProvisionerRole_def

definition memberBaselinePermissions :: "string list" where
  "memberBaselinePermissions =
     [AgentsGet, MachinesGet, ProvisionersGet, ConversationsCreate, ConversationsList, CommandsList, RemindersList,
      ActivitiesList, ActivitiesMarkDone, PushConfigGet, PushSubscriptionsCreate, PushSubscriptionsDelete,
      PushSubscriptionsList, FilesUpload, GroupsGet, GroupsList, AgentTeamsCreate, AgentTeamsGet, AgentTeamsList]"

definition PredefinedRoles :: "role_message list" where
  "PredefinedRoles =
     [\<lparr>rm_ResourceID = WorkspaceAdminRole, rm_Name = ''Workspace admin'', rm_Description = [],
       rm_Permissions = AllPermissions, rm_Predefined = True\<rparr>,
      \<lparr>rm_ResourceID = WorkspaceMemberRole, rm_Name = ''Workspace member'', rm_Description = [],
       rm_Permissions = memberBaselinePermissions, rm_Predefined = True\<rparr>,
      \<lparr>rm_ResourceID = MachineProvisionerRole, rm_Name = ''Machine provisioner'', rm_Description = [],
       rm_Permissions = [ProvisionersGet, ProvisionersProvision], rm_Predefined = True\<rparr>]"

definition GetPredefinedRole :: "string \<Rightarrow> role_message option" where
  "GetPredefinedRole rid = find (\<lambda>r. rm_ResourceID r = rid) PredefinedRoles"

definition IsPredefinedRole :: "string \<Rightarrow> bool" where
  "IsPredefinedRole rid = (GetPredefinedRole rid \<noteq> None)"

section \<open>The role table\<close>

record role_row =
  ro_ResourceID :: string
  ro_Name :: string
  ro_Description :: string
  ro_Permissions :: string

record role_json =
  rj_marshal :: "string list \<Rightarrow> string option"
  rj_unmarshal :: "string \<Rightarrow> string list option"

record role_store =
  rs_rows :: "role_row list"
  rs_cache :: "string \<Rightarrow> role_message option"
  rs_enableCache :: bool

record update_role =
  ur_ResourceID :: string
  ur_Name :: "string option"
  ur_Description :: "string option"
  ur_Permissions :: "string list option"

datatype role_error = RoleSql string | RoleUnique | RoleMarshal | RoleUnmarshal | RoleConflict | RoleNoFields

definition roles_add :: "role_message \<Rightarrow> role_store \<Rightarrow> role_store" where
  "roles_add r rs = rs\<lparr>rs_cache := (rs_cache rs)(rm_ResourceID r \<mapsto> r)\<rparr>"

definition roles_remove :: "string \<Rightarrow> role_store \<Rightarrow> role_store" where
  "roles_remove rid rs = rs\<lparr>rs_cache := (rs_cache rs)(rid := None)\<rparr>"

definition scan_role :: "role_json \<Rightarrow> role_row \<Rightarrow> role_message option" where
  "scan_role rj row =
     map_option (\<lambda>ps. \<lparr>rm_ResourceID = ro_ResourceID row, rm_Name = ro_Name row, rm_Description = ro_Description row,
        rm_Permissions = ps, rm_Predefined = False\<rparr>) (rj_unmarshal rj (ro_Permissions row))"

definition CreateRole ::
  "role_json \<Rightarrow> (string \<Rightarrow> bool) \<Rightarrow> (role_store \<Rightarrow> role_store) \<Rightarrow> role_message \<Rightarrow> role_store \<Rightarrow> (role_error, role_message) result \<times> role_store" where
  "CreateRole rj fails others create rs =
     (case rj_marshal rj (rm_Permissions create) of
        None \<Rightarrow> (Inl RoleMarshal, rs)
      | Some bytes \<Rightarrow>
          if fails ''insert role'' then (Inl (RoleSql ''insert role''), rs)
          else if list_ex (\<lambda>row. ro_ResourceID row = rm_ResourceID create) (rs_rows rs) then (Inl RoleUnique, rs)
          else (Inr create, roles_add create (others (rs\<lparr>rs_rows := rs_rows rs @
                 [\<lparr>ro_ResourceID = rm_ResourceID create, ro_Name = rm_Name create,
                   ro_Description = rm_Description create, ro_Permissions = bytes\<rparr>]\<rparr>))))"

text \<open>The loop over the rows: a role enters the cache as soon as it is scanned, even if a later row fails.\<close>

fun list_loop :: "role_json \<Rightarrow> role_row list \<Rightarrow> role_store \<Rightarrow> role_message list \<Rightarrow>
    (role_error, role_message list) result \<times> role_store" where
  "list_loop rj [] rs acc = (Inr acc, rs)"
| "list_loop rj (row # rows) rs acc =
     (case scan_role rj row of
        None \<Rightarrow> (Inl RoleUnmarshal, rs)
      | Some role \<Rightarrow> list_loop rj rows (roles_add role rs) (acc @ [role]))"

definition ListRoles ::
  "role_json \<Rightarrow> (string \<Rightarrow> bool) \<Rightarrow> (role_store \<Rightarrow> role_store) \<Rightarrow> string option \<Rightarrow> role_store \<Rightarrow>
     (role_error, role_message list) result \<times> role_store" where
  "ListRoles rj fails others rid rs =
     (case Option.bind rid GetPredefinedRole of
        Some role \<Rightarrow> (Inr [role], rs)
      | None \<Rightarrow>
          if fails ''select role'' then (Inl (RoleSql ''select role''), rs)
          else
            (case list_loop rj (filter (\<lambda>row. rid = None \<or> rid = Some (ro_ResourceID row)) (rs_rows rs)) (others rs) [] of
               (Inl err, rs1) \<Rightarrow> (Inl err, rs1)
             | (Inr roles, rs1) \<Rightarrow> (Inr (if rid = None then roles @ PredefinedRoles else roles), rs1)))"

definition GetRole ::
  "role_json \<Rightarrow> (string \<Rightarrow> bool) \<Rightarrow> (role_store \<Rightarrow> role_store) \<Rightarrow> (role_store \<Rightarrow> role_store) \<Rightarrow> string option \<Rightarrow> role_store \<Rightarrow>
     (role_error, role_message option) result \<times> role_store" where
  "GetRole rj fails others later rid rs =
     (case ListRoles rj fails others rid rs of
        (Inl err, rs1) \<Rightarrow> (Inl err, rs1)
      | (Inr [], rs1) \<Rightarrow> (Inr None, rs1)
      | (Inr [role], rs1) \<Rightarrow> (Inr (Some role), roles_add role (later rs1))
      | (Inr _, rs1) \<Rightarrow> (Inl RoleConflict, rs1))"

definition GetRoleSnapshot ::
  "role_json \<Rightarrow> (string \<Rightarrow> bool) \<Rightarrow> (role_store \<Rightarrow> role_store) \<Rightarrow> (role_store \<Rightarrow> role_store) \<Rightarrow> string \<Rightarrow> role_store \<Rightarrow>
     (role_error, role_message option) result \<times> role_store" where
  "GetRoleSnapshot rj fails others later rid rs =
     (case GetPredefinedRole rid of
        Some role \<Rightarrow> (Inr (Some role), rs)
      | None \<Rightarrow>
          (case rs_cache rs rid of
             Some v \<Rightarrow> if rs_enableCache rs then (Inr (Some v), rs) else GetRole rj fails others later (Some rid) rs
           | None \<Rightarrow> GetRole rj fails others later (Some rid) rs))"

definition or_old :: "'a option \<Rightarrow> 'a \<Rightarrow> 'a" where
  "or_old v old = (case v of None \<Rightarrow> old | Some x \<Rightarrow> x)"

definition UpdateRole ::
  "role_json \<Rightarrow> (string \<Rightarrow> bool) \<Rightarrow> (role_store \<Rightarrow> role_store) \<Rightarrow> update_role \<Rightarrow> role_store \<Rightarrow>
     (role_error, role_message option) result \<times> role_store" where
  "UpdateRole rj fails others patch rs =
     (case (case ur_Permissions patch of None \<Rightarrow> Inr None
            | Some ps \<Rightarrow> (case rj_marshal rj ps of None \<Rightarrow> Inl RoleMarshal | Some bytes \<Rightarrow> Inr (Some bytes))) of
        Inl err \<Rightarrow> (Inl err, rs)
      | Inr bytes \<Rightarrow>
          if ur_Name patch = None \<and> ur_Description patch = None \<and> ur_Permissions patch = None then (Inl RoleNoFields, rs)
          else if fails ''update role'' then (Inl (RoleSql ''update role''), rs)
          else
            (let upd = (\<lambda>row. row\<lparr>ro_Name := or_old (ur_Name patch) (ro_Name row),
                   ro_Description := or_old (ur_Description patch) (ro_Description row),
                   ro_Permissions := or_old bytes (ro_Permissions row)\<rparr>)
             in case find (\<lambda>row. ro_ResourceID row = ur_ResourceID patch) (rs_rows rs) of
                  None \<Rightarrow> (Inr None, rs)
                | Some row \<Rightarrow>
                    (let rs1 = roles_remove (ur_ResourceID patch) (others (rs\<lparr>rs_rows :=
                           map (\<lambda>row. if ro_ResourceID row = ur_ResourceID patch then upd row else row) (rs_rows rs)\<rparr>))
                     in case scan_role rj (upd row) of
                          None \<Rightarrow> (Inl RoleUnmarshal, rs1)
                        | Some role \<Rightarrow> (Inr (Some role), roles_add role rs1))))"

definition DeleteRole ::
  "(string \<Rightarrow> bool) \<Rightarrow> (role_store \<Rightarrow> role_store) \<Rightarrow> string \<Rightarrow> role_store \<Rightarrow> role_error option \<times> role_store" where
  "DeleteRole fails others rid rs =
     (if fails ''delete role'' then (Some (RoleSql ''delete role''), rs)
      else (None, roles_remove rid (others (rs\<lparr>rs_rows := filter (\<lambda>row. ro_ResourceID row \<noteq> rid) (rs_rows rs)\<rparr>))))"


section \<open>The cache agrees with the table\<close>

definition role_codec_ok :: "role_json \<Rightarrow> bool" where
  "role_codec_ok rj \<longleftrightarrow> (\<forall>ps s. rj_marshal rj ps = Some s \<longrightarrow> rj_unmarshal rj s = Some ps)"

definition role_of :: "role_json \<Rightarrow> string \<Rightarrow> role_store \<Rightarrow> role_message option" where
  "role_of rj rid rs = Option.bind (find (\<lambda>row. ro_ResourceID row = rid) (rs_rows rs)) (scan_role rj)"

definition roles_ok :: "role_json \<Rightarrow> role_store \<Rightarrow> bool" where
  "roles_ok rj rs \<longleftrightarrow> distinct (map ro_ResourceID (rs_rows rs)) \<and>
     (\<forall>rid v. rs_cache rs rid = Some v \<longrightarrow> \<not> IsPredefinedRole rid \<longrightarrow> role_of rj rid rs = Some v)"

lemma scan_role_id [simp]: "scan_role rj row = Some v \<Longrightarrow> rm_ResourceID v = ro_ResourceID row"
  by (auto simp: scan_role_def)

lemma find_row:
  assumes "distinct (map ro_ResourceID rows)" "row \<in> set rows"
  shows "find (\<lambda>r. ro_ResourceID r = ro_ResourceID row) rows = Some row"
  using assms by (induction rows) (auto simp: rev_image_eqI)

lemma filter_row:
  assumes "distinct (map ro_ResourceID rows)"
  shows "filter (\<lambda>r. ro_ResourceID r = rid) rows =
    (case find (\<lambda>r. ro_ResourceID r = rid) rows of None \<Rightarrow> [] | Some row \<Rightarrow> [row])"
proof (cases "find (\<lambda>r. ro_ResourceID r = rid) rows")
  case None
  then have "filter (\<lambda>r. ro_ResourceID r = rid) rows = []" by (auto simp: filter_empty_conv find_None_iff)
  with None show ?thesis by simp
next
  case (Some row)
  from find_found [OF Some] have "ro_ResourceID row = rid" "row \<in> set rows" by auto
  with Some filter_key_unique [OF assms] show ?thesis by auto
qed

lemma roles_add_ok:
  assumes "roles_ok rj rs" "role_of rj (rm_ResourceID v) rs = Some v \<or> IsPredefinedRole (rm_ResourceID v)"
  shows "roles_ok rj (roles_add v rs)"
  using assms by (auto simp: roles_ok_def roles_add_def role_of_def)

lemma rows_roles_add [simp]: "rs_rows (roles_add v rs) = rs_rows rs"
  by (simp add: roles_add_def)

lemma list_loop_ok:
  "roles_ok rj rs \<Longrightarrow> set rows \<subseteq> set (rs_rows rs) \<Longrightarrow> list_loop rj rows rs acc = (r, rs') \<Longrightarrow>
     roles_ok rj rs' \<and> rs_rows rs' = rs_rows rs"
proof (induction rows arbitrary: rs acc)
  case (Cons row rows)
  show ?case
  proof (cases "scan_role rj row")
    case None
    with Cons.prems show ?thesis by auto
  next
    case (Some v)
    have "role_of rj (rm_ResourceID v) rs = Some v"
      using Cons.prems(1,2) Some find_row [of "rs_rows rs" row] by (simp add: role_of_def roles_ok_def)
    then have "roles_ok rj (roles_add v rs)" using roles_add_ok [OF Cons.prems(1)] by blast
    from Cons.IH [OF this, of "acc @ [v]"] Some Cons.prems(2,3) show ?thesis by simp
  qed
qed auto

lemma predefined_id: "GetPredefinedRole rid = Some v \<Longrightarrow> rm_ResourceID v = rid"
  unfolding GetPredefinedRole_def by (drule find_found) simp

lemma ListRoles_ok:
  assumes "roles_ok rj rs" "ListRoles rj fails id rid rs = (r, rs')"
  shows "roles_ok rj rs' \<and> rs_rows rs' = rs_rows rs"
proof (cases "Option.bind rid GetPredefinedRole = None \<and> \<not> fails ''select role''")
  case True
  let ?rows = "filter (\<lambda>row. rid = None \<or> rid = Some (ro_ResourceID row)) (rs_rows rs)"
  obtain l rs1 where l: "list_loop rj ?rows rs [] = (l, rs1)" by fastforce
  have "rs' = rs1" using True assms(2) l by (cases l) (simp_all add: ListRoles_def)
  with list_loop_ok [OF assms(1) filter_is_subset l] show ?thesis by simp
next
  case False
  then have "rs' = rs" using assms(2) by (cases "Option.bind rid GetPredefinedRole") (simp_all add: ListRoles_def)
  with assms(1) show ?thesis by simp
qed

text \<open>The answer of a strong read by id.\<close>

lemma ListRoles_one:
  assumes "distinct (map ro_ResourceID (rs_rows rs))" "GetPredefinedRole rid = None"
  shows "fst (ListRoles rj no_fail id (Some rid) rs) =
    (case find (\<lambda>r. ro_ResourceID r = rid) (rs_rows rs) of None \<Rightarrow> Inr []
     | Some row \<Rightarrow> (case scan_role rj row of None \<Rightarrow> Inl RoleUnmarshal | Some v \<Rightarrow> Inr [v]))"
proof -
  have "filter (\<lambda>row. Some rid = None \<or> Some rid = Some (ro_ResourceID row)) (rs_rows rs) =
      (case find (\<lambda>r. ro_ResourceID r = rid) (rs_rows rs) of None \<Rightarrow> [] | Some row \<Rightarrow> [row])"
    using filter_row [OF assms(1), of rid] by (simp add: eq_commute)
  with assms(2) show ?thesis by (auto simp: ListRoles_def split: option.split)
qed

lemma GetRole_ok:
  assumes "roles_ok rj rs" "GetRole rj fails id id rid rs = (r, rs')"
  shows "roles_ok rj rs' \<and> rs_rows rs' = rs_rows rs"
proof -
  obtain l rs1 where l: "ListRoles rj fails id rid rs = (l, rs1)" by fastforce
  note ok = ListRoles_ok [OF assms(1) l]
  have "roles_ok rj (roles_add v rs1)" if "l = Inr [v]" for v
  proof -
    have "role_of rj (rm_ResourceID v) rs1 = Some v \<or> IsPredefinedRole (rm_ResourceID v)"
    proof (cases "Option.bind rid GetPredefinedRole")
      case (Some p)
      then have "GetPredefinedRole (rm_ResourceID v) \<noteq> None"
        using l that by (cases rid) (auto simp: ListRoles_def dest: predefined_id)
      then show ?thesis by (simp add: IsPredefinedRole_def)
    next
      case None
      have "rid \<noteq> None" using None that l by (auto simp: ListRoles_def PredefinedRoles_def split: if_splits prod.splits sum.splits)
      then obtain i where i: "rid = Some i" by blast
      have nf: "\<not> fails ''select role''" using that l None by (auto simp: ListRoles_def)
      have "ListRoles rj no_fail id rid rs = ListRoles rj fails id rid rs" using nf by (simp add: ListRoles_def split: option.split)
      then have "fst (ListRoles rj no_fail id (Some i) rs) = Inr [v]" using l that i by simp
      then have "role_of rj i rs = Some v \<and> rm_ResourceID v = i"
        using ListRoles_one [of rs i rj] assms(1) None i
        by (auto simp: roles_ok_def role_of_def split: option.splits dest: find_found)
      with ok show ?thesis by (auto simp: role_of_def)
    qed
    with ok show ?thesis by (auto intro: roles_add_ok)
  qed
  with assms(2) l ok show ?thesis
    by (auto simp: GetRole_def split: sum.splits list.splits)
qed


lemma CreateRole_ok:
  assumes "roles_ok rj rs" "role_codec_ok rj" "\<not> rm_Predefined create" "CreateRole rj fails id create rs = (r, rs')"
  shows "roles_ok rj rs' \<and> (case r of Inl _ \<Rightarrow> rs' = rs | Inr v \<Rightarrow> v = create \<and> role_of rj (rm_ResourceID create) rs' = Some create)"
proof (cases r)
  case (Inl e)
  with assms show ?thesis by (auto simp: CreateRole_def split: option.splits if_splits)
next
  case (Inr v)
  with assms(4) obtain bytes where b: "rj_marshal rj (rm_Permissions create) = Some bytes" "v = create"
    "\<not> list_ex (\<lambda>row. ro_ResourceID row = rm_ResourceID create) (rs_rows rs)"
    and rs': "rs' = roles_add create (rs\<lparr>rs_rows := rs_rows rs @ [\<lparr>ro_ResourceID = rm_ResourceID create, ro_Name = rm_Name create,
           ro_Description = rm_Description create, ro_Permissions = bytes\<rparr>]\<rparr>)"
    by (auto simp: CreateRole_def split: option.splits if_splits)
  let ?row = "\<lparr>ro_ResourceID = rm_ResourceID create, ro_Name = rm_Name create, ro_Description = rm_Description create, ro_Permissions = bytes\<rparr>"
  have none: "find (\<lambda>row. ro_ResourceID row = rm_ResourceID create) (rs_rows rs) = None"
    using b(3) by (auto simp: find_None_iff list_ex_iff)
  have scan: "scan_role rj ?row = Some create"
    using b(1) assms(2,3) by (cases create) (auto simp: scan_role_def role_codec_ok_def)
  have rows: "rs_rows rs' = rs_rows rs @ [?row]" by (simp add: rs')
  have look: "role_of rj rid rs' = (if rid = rm_ResourceID create then Some create else role_of rj rid rs)" for rid
  proof (cases "rid = rm_ResourceID create")
    case True
    then show ?thesis by (simp add: role_of_def rows find_app_key none scan)
  next
    case False
    then have "find (\<lambda>row. ro_ResourceID row = rid) [?row] = None" by simp
    with False show ?thesis unfolding role_of_def rows find_app_key by (simp split: option.split)
  qed
  have "distinct (map ro_ResourceID (rs_rows rs'))"
    using assms(1) b(3) by (auto simp: roles_ok_def rows list_ex_iff)
  then have "roles_ok rj rs'"
    using assms(1) look by (auto simp: roles_ok_def rs' roles_add_def)
  with Inr b look show ?thesis by simp
qed

lemma find_map_row:
  assumes "\<And>row. ro_ResourceID (f row) = ro_ResourceID row"
  shows "find (\<lambda>row. ro_ResourceID row = rid) (map f rows) = map_option f (find (\<lambda>row. ro_ResourceID row = rid) rows)"
  by (induction rows) (simp_all add: assms)

text \<open>Rewriting one row and dropping its cache entry.\<close>

lemma rewrite_row_ok:
  assumes "roles_ok rj rs" "\<And>row. ro_ResourceID (f row) = ro_ResourceID row"
    "rs' = roles_remove rid (rs\<lparr>rs_rows := map (\<lambda>row. if ro_ResourceID row = rid then f row else row) (rs_rows rs)\<rparr>)"
  shows "roles_ok rj rs'"
    "role_of rj i rs' = (if i = rid then Option.bind (find (\<lambda>row. ro_ResourceID row = rid) (rs_rows rs)) (\<lambda>row. scan_role rj (f row))
       else role_of rj i rs)"
proof -
  let ?g = "\<lambda>row. if ro_ResourceID row = rid then f row else row"
  have id: "ro_ResourceID (?g row) = ro_ResourceID row" for row using assms(2) by simp
  have rows: "rs_rows rs' = map ?g (rs_rows rs)" by (simp add: assms(3) roles_remove_def)
  show look: "role_of rj i rs' = (if i = rid then Option.bind (find (\<lambda>row. ro_ResourceID row = rid) (rs_rows rs)) (\<lambda>row. scan_role rj (f row))
       else role_of rj i rs)" for i
  proof (cases "find (\<lambda>row. ro_ResourceID row = i) (rs_rows rs)")
    case (Some row)
    then show ?thesis using find_found [OF Some] find_map_row [of ?g, OF id] by (auto simp: role_of_def rows)
  qed (use find_map_row [of ?g, OF id] in \<open>auto simp: role_of_def rows\<close>)
  have "map ro_ResourceID (rs_rows rs') = map ro_ResourceID (rs_rows rs)" using id by (simp add: rows)
  then have "distinct (map ro_ResourceID (rs_rows rs'))" using assms(1) by (simp add: roles_ok_def)
  moreover have "role_of rj i rs' = Some v" if "rs_cache rs' i = Some v" "\<not> IsPredefinedRole i" for i v
  proof -
    have "i \<noteq> rid" "rs_cache rs i = Some v" using that(1) by (auto simp: assms(3) roles_remove_def split: if_splits)
    with that(2) assms(1) look [of i] show ?thesis by (simp add: roles_ok_def)
  qed
  ultimately show "roles_ok rj rs'" by (simp add: roles_ok_def)
qed

lemma UpdateRole_ok:
  assumes "roles_ok rj rs" "UpdateRole rj fails id patch rs = (r, rs')"
  shows "roles_ok rj rs' \<and>
    (\<forall>v. r = Inr (Some v) \<longrightarrow> role_of rj (ur_ResourceID patch) rs' = Some v \<and>
       (\<forall>rid. rid \<noteq> ur_ResourceID patch \<longrightarrow> role_of rj rid rs' = role_of rj rid rs) \<and>
       (role_codec_ok rj \<longrightarrow> (\<forall>ps. ur_Permissions patch = Some ps \<longrightarrow> rm_Permissions v = ps)))"
proof -
  define bytes where "bytes = (case ur_Permissions patch of None \<Rightarrow> Inr None
      | Some ps \<Rightarrow> (case rj_marshal rj ps of None \<Rightarrow> Inl RoleMarshal | Some b \<Rightarrow> Inr (Some b)))"
  show ?thesis
  proof (cases "\<exists>b row. bytes = Inr b \<and> \<not> (ur_Name patch = None \<and> ur_Description patch = None \<and> ur_Permissions patch = None) \<and>
      \<not> fails ''update role'' \<and> find (\<lambda>row. ro_ResourceID row = ur_ResourceID patch) (rs_rows rs) = Some row")
    case False
    then have "rs' = rs \<and> (\<forall>v. r \<noteq> Inr (Some v))"
      using assms(2) unfolding UpdateRole_def bytes_def [symmetric] Let_def
      by (cases bytes; cases "find (\<lambda>row. ro_ResourceID row = ur_ResourceID patch) (rs_rows rs)") (auto split: if_splits)
    with assms(1) show ?thesis by simp
  next
    case True
    then obtain b row where t: "bytes = Inr b" "\<not> (ur_Name patch = None \<and> ur_Description patch = None \<and> ur_Permissions patch = None)"
      "\<not> fails ''update role''" "find (\<lambda>row. ro_ResourceID row = ur_ResourceID patch) (rs_rows rs) = Some row" by blast
    define upd :: "role_row \<Rightarrow> role_row" where "upd = (\<lambda>row. row\<lparr>ro_Name := or_old (ur_Name patch) (ro_Name row),
         ro_Description := or_old (ur_Description patch) (ro_Description row), ro_Permissions := or_old b (ro_Permissions row)\<rparr>)"
    define rs1 where "rs1 = roles_remove (ur_ResourceID patch)
        (rs\<lparr>rs_rows := map (\<lambda>row. if ro_ResourceID row = ur_ResourceID patch then upd row else row) (rs_rows rs)\<rparr>)"
    have u: "ro_ResourceID (upd row) = ro_ResourceID row" for row by (simp add: upd_def)
    note rw = rewrite_row_ok [OF assms(1) u rs1_def]
    have eq: "UpdateRole rj fails id patch rs = (case scan_role rj (upd row) of None \<Rightarrow> (Inl RoleUnmarshal, rs1)
        | Some role \<Rightarrow> (Inr (Some role), roles_add role rs1))"
      unfolding UpdateRole_def bytes_def [symmetric] t(1) sum.case Let_def t(4) option.case rs1_def upd_def using t(2,3) by (simp only: if_False id_apply)
    show ?thesis
    proof (cases "scan_role rj (upd row)")
      case None
      with eq assms(2) rw show ?thesis by auto
    next
      case (Some role)
      have id: "rm_ResourceID role = ur_ResourceID patch" using Some u find_found [OF t(4)] by (simp add: scan_role_def) auto
      have look: "role_of rj (ur_ResourceID patch) rs1 = Some role" using rw(2) t(4) Some by simp
      have "rm_Permissions role = ps" if "role_codec_ok rj" "ur_Permissions patch = Some ps" for ps
        using that Some t(1) by (auto simp: bytes_def scan_role_def upd_def or_old_def role_codec_ok_def split: option.splits)
      with eq assms(2) Some rw look id roles_add_ok [OF rw(1), of role] show ?thesis
        by (auto simp: role_of_def)
    qed
  qed
qed

lemma DeleteRole_ok:
  assumes "roles_ok rj rs" "DeleteRole fails id rid rs = (err, rs')"
  shows "roles_ok rj rs' \<and> (err = None \<longrightarrow> role_of rj rid rs' = None)"
proof -
  have none: "find (\<lambda>row. ro_ResourceID row = rid) (filter (\<lambda>row. ro_ResourceID row \<noteq> rid) (rs_rows rs)) = None"
    by (auto simp: find_None_iff)
  have other: "find (\<lambda>row. ro_ResourceID row = i) (filter (\<lambda>row. ro_ResourceID row \<noteq> rid) rows) =
      find (\<lambda>row. ro_ResourceID row = i) rows" if "i \<noteq> rid" for i rows
    using that by (induction rows) auto
  show ?thesis
    using assms none
    by (auto simp: other DeleteRole_def roles_ok_def roles_remove_def role_of_def distinct_map_filter split: if_splits)
qed

text \<open>A snapshot read that finds nothing in the cache leaves what the database answered there, whatever the others do meanwhile.\<close>

lemma stale_fill:
  assumes "rs_cache rs rid = None" "\<not> IsPredefinedRole rid" "distinct (map ro_ResourceID (rs_rows rs))" "role_of rj rid rs = Some v"
    "GetRoleSnapshot rj no_fail others id rid rs = (r, rs')"
  shows "r = Inr (Some v)" "rs_rows rs' = rs_rows (others rs)" "rs_enableCache rs' = rs_enableCache (others rs)" "rs_cache rs' rid = Some v"
proof -
  have p: "GetPredefinedRole rid = None" using assms(2) by (simp add: IsPredefinedRole_def)
  obtain row where row: "find (\<lambda>r. ro_ResourceID r = rid) (rs_rows rs) = Some row" "scan_role rj row = Some v"
    using assms(4) by (auto simp: role_of_def split: bind_splits)
  have "filter (\<lambda>r. ro_ResourceID r = rid) (rs_rows rs) = [row]" using filter_row [OF assms(3), of rid] row(1) by simp
  then have "filter (\<lambda>r. Some rid = None \<or> Some rid = Some (ro_ResourceID r)) (rs_rows rs) = [row]" by (simp add: eq_commute)
  then have l: "ListRoles rj no_fail others (Some rid) rs = (Inr [v], roles_add v (others rs))" using p row(2) by (simp add: ListRoles_def)
  have "rm_ResourceID v = rid" using row find_found [OF row(1)] by simp
  with assms(1,5) p l show "r = Inr (Some v)" "rs_rows rs' = rs_rows (others rs)" "rs_enableCache rs' = rs_enableCache (others rs)"
    "rs_cache rs' rid = Some v" by (auto simp: GetRoleSnapshot_def GetRole_def roles_add_def)
qed

section \<open>Properties\<close>

text \<open>C18: Role reads are as good as reads of the table when requests do not overlap. An operation on roles that runs alone, failing or
  not, keeps each cached custom role equal to its row (a created role is a custom one); hence the snapshot read that authorization uses then returns
  what a read of the table would, whether the cache is on or off.\<close>

theorem role_cache_coherent:
  assumes "roles_ok rj rs" "role_codec_ok rj" "\<not> rm_Predefined create"
  shows "roles_ok rj (snd (CreateRole rj fails id create rs)) \<and> roles_ok rj (snd (UpdateRole rj fails id patch rs)) \<and>
    roles_ok rj (snd (DeleteRole fails id rid rs)) \<and> roles_ok rj (snd (ListRoles rj fails id q rs)) \<and>
    roles_ok rj (snd (GetRole rj fails id id q rs)) \<and> roles_ok rj (snd (GetRoleSnapshot rj fails id id rid rs)) \<and>
    fst (GetRoleSnapshot rj no_fail id id rid rs) = fst (GetRole rj no_fail id id (Some rid) rs)"
proof -
  have snap: "fst (GetRoleSnapshot rj no_fail id id rid rs) = fst (GetRole rj no_fail id id (Some rid) rs)"
  proof (cases "GetPredefinedRole rid = None \<and> rs_cache rs rid \<noteq> None")
    case True
    then obtain v where v: "GetPredefinedRole rid = None" "rs_cache rs rid = Some v" by blast
    then have "role_of rj rid rs = Some v" using assms(1) by (simp add: roles_ok_def IsPredefinedRole_def)
    then have "fst (ListRoles rj no_fail id (Some rid) rs) = Inr [v]"
      using ListRoles_one [OF _ v(1), of rs rj] assms(1) by (auto simp: role_of_def roles_ok_def split: option.splits bind_splits)
    then have "fst (GetRole rj no_fail id id (Some rid) rs) = Inr (Some v)" by (auto simp: GetRole_def split: prod.splits)
    with v show ?thesis by (simp add: GetRoleSnapshot_def)
  next
    case False
    then show ?thesis by (auto simp: GetRoleSnapshot_def GetRole_def ListRoles_def split: option.split)
  qed
  have "roles_ok rj (snd (GetRole rj fails id id q' rs))" for q' using GetRole_ok [OF assms(1) surjective_pairing] by blast
  moreover from this have "roles_ok rj (snd (GetRoleSnapshot rj fails id id rid rs))"
    using assms(1) by (auto simp: GetRoleSnapshot_def split: option.split)
  ultimately show ?thesis
    using snap CreateRole_ok [OF assms surjective_pairing] UpdateRole_ok [OF assms(1) surjective_pairing]
      DeleteRole_ok [OF assms(1) surjective_pairing] ListRoles_ok [OF assms(1) surjective_pairing] by blast
qed

definition sample_role_json :: role_json where
  "sample_role_json = \<lparr>rj_marshal = (\<lambda>ps. if ps = [] then Some ''{}'' else None), rj_unmarshal = (\<lambda>s. Some [])\<rparr>"

definition sample_role :: role_message where
  "sample_role = \<lparr>rm_ResourceID = ''x'', rm_Name = [], rm_Description = [], rm_Permissions = [], rm_Predefined = False\<rparr>"

definition sample_roles :: role_store where
  "sample_roles = \<lparr>rs_rows = [\<lparr>ro_ResourceID = ''x'', ro_Name = [], ro_Description = [], ro_Permissions = ''{}''\<rparr>],
     rs_cache = [''x'' \<mapsto> sample_role], rs_enableCache = True\<rparr>"

theorem role_cache_coherent_witness:
  "fst (GetRoleSnapshot sample_role_json no_fail id id ''x'' sample_roles) = fst (GetRole sample_role_json no_fail id id (Some ''x'') sample_roles) \<and>
   fst (GetRoleSnapshot sample_role_json no_fail id id ''x'' sample_roles) = Inr (Some sample_role)"
proof -
  have "role_of sample_role_json ''x'' sample_roles = Some sample_role" by code_simp
  then have "roles_ok sample_role_json sample_roles" by (simp add: roles_ok_def) (simp add: sample_roles_def)
  moreover have "role_codec_ok sample_role_json" by (auto simp: role_codec_ok_def sample_role_json_def split: if_splits)
  moreover have "fst (GetRoleSnapshot sample_role_json no_fail id id ''x'' sample_roles) = Inr (Some sample_role)" by code_simp
  ultimately show ?thesis using role_cache_coherent [of sample_role_json sample_roles sample_role] by (simp add: sample_role_def)
qed

end
