(* ===== verification/Identity_Store.thy ===== *)
theory Identity_Store
  imports Role_Store
begin

text \<open>
  Users and groups: the principal table with its three caches and the allocation of handles
  (\<open>backend/manager/store/principal.go\<close>), and the group table (\<open>backend/manager/store/group.go\<close>).

  A profile and the chat preferences are kept as their JSON text (that a refused password change has already stamped
  the profile of the caller's copy is not modelled), and e-mail addresses are ASCII. The caches are three independent maps, as in the
  code; the eviction of an entry by the LRU policy is the step \<open>evict_user_id\<close>. The runes of a name, the bytes of a slug and
  the change of a profile's password time are parameters (\<open>identity_env\<close>), and the database may refuse a statement
  (\<open>fails\<close>). Other requests that insert users between the reservation of a handle and the insertion are the argument
  \<open>race\<close> of \<open>CreateUser\<close>.

  The lemmas show that handles are never exhausted or doubled, and where the caches and the look-ups miss their aim: a
  deleted user served from a cache, a deleted namesake found before the active user, and group names that are never
  reported.
\<close>

section \<open>Users\<close>

definition SystemBotID :: int where "SystemBotID = 1"
definition SystemBotHandle :: string where "SystemBotHandle = ''system-bot''"
definition AllUsers :: string where "AllUsers = ''allUsers''"

record user_row =
  pr_ID :: int
  pr_Deleted :: bool
  pr_Email :: string
  pr_Name :: string
  pr_Handle :: string
  pr_Type :: string
  pr_PasswordHash :: string
  pr_Phone :: string
  pr_Profile :: string
  pr_CreatedAt :: int
  pr_Description :: string
  pr_AvatarS3Key :: string
  pr_ChatPreferences :: "string option"
  pr_EmailVerifiedAt :: "int option"

record user_message =
  us_ID :: int
  us_Handle :: string
  us_Email :: string
  us_Name :: string
  us_Type :: string
  us_PasswordHash :: string
  us_MemberDeleted :: bool
  us_Profile :: string
  us_Phone :: string
  us_CreatedAt :: int
  us_Groups :: "string list"
  us_Description :: string
  us_AvatarS3Key :: string
  us_ChatPreferences :: "string option"
  us_EmailVerifiedAt :: "int option"

record group_row =
  gr_ID :: string
  gr_Email :: "string option"
  gr_Title :: string
  gr_Description :: string
  gr_Members :: "string list"

record find_user =
  fu_ID :: "int option"
  fu_Email :: "string option"
  fu_Handle :: "string option"
  fu_ShowDeleted :: bool
  fu_ExcludeSystemBot :: bool
  fu_Type :: "string option"
  fu_Limit :: "nat option"
  fu_Offset :: "nat option"

record update_user =
  uu_Email :: "string option"
  uu_Name :: "string option"
  uu_PasswordHash :: "string option"
  uu_Delete :: "bool option"
  uu_Profile :: "string option"
  uu_Phone :: "string option"
  uu_Description :: "string option"
  uu_ChatPreferences :: "string option"
  uu_EmailVerifiedAt :: "int option"

record user_store =
  id_rows :: "user_row list"
  id_groups :: "group_row list"
  id_userIDCache :: "int \<Rightarrow> user_message option"
  id_userEmailCache :: "string \<Rightarrow> user_message option"
  id_userHandleCache :: "string \<Rightarrow> user_message option"
  id_enableCache :: bool
  id_mentionIndex :: bool

record identity_env =
  ie_tables :: unicode_tables
  ie_runes :: "string \<Rightarrow> nat list"
  ie_bytes :: "nat list \<Rightarrow> string"
  ie_touchPassword :: "int \<Rightarrow> string \<Rightarrow> string"

datatype user_error =
    UserSql string | EmailTaken string | UserTaken | EmailNotLower | HandlesExhausted | SystemBotUpdate | GroupConflict
  | BadGroupName

definition ascii_lower :: "char \<Rightarrow> char" where
  "ascii_lower c = (if CHR ''A'' \<le> c \<and> c \<le> CHR ''Z'' then char_of (of_char c + 32 :: nat) else c)"

definition to_lower :: "string \<Rightarrow> string" where
  "to_lower = map ascii_lower"

section \<open>Reading users\<close>

text \<open>The groups column of the user query: the groups with a member \<open>users/\<close> followed by the numeric id, the groups with an
  e-mail first, in its order (\<open>NULL\<close> sorts last).\<close>

definition group_name_of :: "group_row \<Rightarrow> string" where
  "group_name_of g = (case gr_Email g of Some e \<Rightarrow> ''groups/'' @ e | None \<Rightarrow> ''groups/'' @ gr_ID g)"

definition email_order :: "group_row list \<Rightarrow> group_row list" where
  "email_order gs =
     sort_key (\<lambda>g. case gr_Email g of Some e \<Rightarrow> e | None \<Rightarrow> []) (filter (\<lambda>g. gr_Email g \<noteq> None) gs) @
     filter (\<lambda>g. gr_Email g = None) gs"

definition groups_column :: "int \<Rightarrow> group_row list \<Rightarrow> string list" where
  "groups_column uid groups =
     map group_name_of
       (email_order (filter (\<lambda>g. (''users/'' @ int_string uid) \<in> set (gr_Members g)) groups))"

definition scan_user :: "group_row list \<Rightarrow> user_row \<Rightarrow> user_message" where
  "scan_user groups p =
     \<lparr>us_ID = pr_ID p, us_Handle = pr_Handle p, us_Email = pr_Email p, us_Name = pr_Name p, us_Type = pr_Type p,
      us_PasswordHash = pr_PasswordHash p, us_MemberDeleted = pr_Deleted p, us_Profile = pr_Profile p,
      us_Phone = pr_Phone p, us_CreatedAt = pr_CreatedAt p, us_Groups = groups_column (pr_ID p) groups,
      us_Description = pr_Description p, us_AvatarS3Key = pr_AvatarS3Key p,
      us_ChatPreferences = pr_ChatPreferences p, us_EmailVerifiedAt = pr_EmailVerifiedAt p\<rparr>"

text \<open>The \<open>WHERE\<close> clause and the order (type descending, then creation) of \<open>buildListUsersQuery\<close>; the caller's extra
  filter and the project filter are not modelled.\<close>

definition user_where :: "find_user \<Rightarrow> user_row \<Rightarrow> bool" where
  "user_where q p \<longleftrightarrow>
     wants (fu_ID q) (pr_ID p) \<and> wants (fu_Handle q) (pr_Handle p) \<and>
     (case fu_Email q of None \<Rightarrow> True
      | Some e \<Rightarrow> pr_Email p = (if e = AllUsers then e else to_lower e)) \<and>
     wants (fu_Type q) (pr_Type p) \<and> (fu_ExcludeSystemBot q \<longrightarrow> pr_Type p \<noteq> ''SYSTEM_BOT'') \<and>
     (fu_ShowDeleted q \<or> \<not> pr_Deleted p)"

definition user_order :: "user_row list \<Rightarrow> user_row list" where
  "user_order rows =
     concat (map (\<lambda>t. sort_key pr_CreatedAt (filter (\<lambda>p. pr_Type p = t) rows)) (rev (sort (remdups (map pr_Type rows)))))"

definition page :: "nat option \<Rightarrow> nat option \<Rightarrow> 'a list \<Rightarrow> 'a list" where
  "page limit offset xs =
     (let ys = (case offset of None \<Rightarrow> xs | Some n \<Rightarrow> drop n xs) in case limit of None \<Rightarrow> ys | Some n \<Rightarrow> take n ys)"

definition buildListUsersQuery :: "find_user \<Rightarrow> user_row list \<Rightarrow> user_row list" where
  "buildListUsersQuery q rows = page (fu_Limit q) (fu_Offset q) (user_order (filter (user_where q) rows))"

definition listUserImpl :: "(string \<Rightarrow> bool) \<Rightarrow> find_user \<Rightarrow> user_store \<Rightarrow> (user_error, user_message list) result" where
  "listUserImpl fails q st =
     (if fails ''list users'' then Inl (UserSql ''list users'')
      else Inr (map (scan_user (id_groups st)) (buildListUsersQuery q (id_rows st))))"

definition cacheActiveUser :: "user_message option \<Rightarrow> user_store \<Rightarrow> user_store" where
  "cacheActiveUser user st =
     (case user of
        None \<Rightarrow> st
      | Some u \<Rightarrow>
          if us_MemberDeleted u \<or> us_Handle u = [] then st
          else st\<lparr>id_userIDCache := (id_userIDCache st)(us_ID u \<mapsto> u),
                  id_userEmailCache := (id_userEmailCache st)(us_Email u \<mapsto> u),
                  id_userHandleCache := (id_userHandleCache st)(us_Handle u \<mapsto> u)\<rparr>)"

definition invalidateUserCache :: "int \<Rightarrow> string \<Rightarrow> user_store \<Rightarrow> user_store" where
  "invalidateUserCache uid email st =
     (let st1 = (case id_userIDCache st uid of
                   None \<Rightarrow> st
                 | Some cached \<Rightarrow> st\<lparr>id_userHandleCache := (id_userHandleCache st)(us_Handle cached := None)\<rparr>)
      in st1\<lparr>id_userIDCache := (id_userIDCache st1)(uid := None),
             id_userEmailCache := (id_userEmailCache st1)(email := None)\<rparr>)"

definition findUser ::
  "(string \<Rightarrow> bool) \<Rightarrow> find_user \<Rightarrow> user_store \<Rightarrow> (user_error, user_message option) result" where
  "findUser fails q st =
     (if fails ''begin'' then Inl (UserSql ''begin'')
      else
        (case listUserImpl fails q st of
           Inl err \<Rightarrow> Inl err
         | Inr users \<Rightarrow>
             if fails ''commit'' then Inl (UserSql ''commit'')
             else (case users of [] \<Rightarrow> Inr None | u # _ \<Rightarrow> Inr (Some u))))"

definition any_user :: find_user where
  "any_user = \<lparr>fu_ID = None, fu_Email = None, fu_Handle = None, fu_ShowDeleted = True, fu_ExcludeSystemBot = False,
     fu_Type = None, fu_Limit = None, fu_Offset = None\<rparr>"

text \<open>The three look-ups share their shape: the cache, then the query, then the cache is filled.\<close>

definition cached_or_found ::
  "user_message option \<Rightarrow> (string \<Rightarrow> bool) \<Rightarrow> find_user \<Rightarrow> user_store \<Rightarrow>
     (user_error, user_message option) result \<times> user_store" where
  "cached_or_found hit fails q st =
     (case (if id_enableCache st then hit else None) of
        Some v \<Rightarrow> (Inr (Some v), st)
      | None \<Rightarrow>
          (case findUser fails q st of
             Inl err \<Rightarrow> (Inl err, st)
           | Inr None \<Rightarrow> (Inr None, st)
           | Inr (Some u) \<Rightarrow> (Inr (Some u), cacheActiveUser (Some u) st)))"

definition GetUserByID ::
  "(string \<Rightarrow> bool) \<Rightarrow> int \<Rightarrow> user_store \<Rightarrow> (user_error, user_message option) result \<times> user_store" where
  "GetUserByID fails uid st = cached_or_found (id_userIDCache st uid) fails (any_user\<lparr>fu_ID := Some uid\<rparr>) st"

definition GetUserByEmail ::
  "(string \<Rightarrow> bool) \<Rightarrow> string \<Rightarrow> user_store \<Rightarrow> (user_error, user_message option) result \<times> user_store" where
  "GetUserByEmail fails email st =
     cached_or_found (id_userEmailCache st email) fails (any_user\<lparr>fu_Email := Some email\<rparr>) st"

definition GetUserByHandle ::
  "(string \<Rightarrow> bool) \<Rightarrow> string \<Rightarrow> user_store \<Rightarrow> (user_error, user_message option) result \<times> user_store" where
  "GetUserByHandle fails handle st =
     cached_or_found (id_userHandleCache st handle) fails (any_user\<lparr>fu_Handle := Some handle\<rparr>) st"

definition GetUserByIdentifier ::
  "(string \<Rightarrow> bool) \<Rightarrow> string \<Rightarrow> user_store \<Rightarrow> (user_error, user_message option) result \<times> user_store" where
  "GetUserByIdentifier fails identifier st =
     (if CHR ''@'' \<in> set identifier then GetUserByEmail fails identifier st else GetUserByHandle fails identifier st)"

definition ListUsers ::
  "(string \<Rightarrow> bool) \<Rightarrow> find_user \<Rightarrow> user_store \<Rightarrow> (user_error, user_message list) result \<times> user_store" where
  "ListUsers fails q st =
     (if fails ''begin'' then (Inl (UserSql ''begin''), st)
      else
        (case listUserImpl fails q st of
           Inl err \<Rightarrow> (Inl err, st)
         | Inr users \<Rightarrow>
             if fails ''commit'' then (Inl (UserSql ''commit''), st)
             else (Inr users, foldl (\<lambda>s u. cacheActiveUser (Some u) s) st users)))"

definition systemBotUser :: user_message where
  "systemBotUser = \<lparr>us_ID = SystemBotID, us_Handle = SystemBotHandle, us_Email = ''SYSTEM_BOT@example.com'',
     us_Name = ''SYSTEM_BOT'', us_Type = ''SYSTEM_BOT'', us_PasswordHash = [], us_MemberDeleted = False,
     us_Profile = [], us_Phone = [], us_CreatedAt = 0, us_Groups = [], us_Description = [], us_AvatarS3Key = [],
     us_ChatPreferences = None, us_EmailVerifiedAt = None\<rparr>"

definition GetSystemBotUser :: "(string \<Rightarrow> bool) \<Rightarrow> user_store \<Rightarrow> user_message \<times> user_store" where
  "GetSystemBotUser fails st =
     (case GetUserByID fails SystemBotID st of
        (Inr (Some u), st1) \<Rightarrow> (u, st1)
      | (_, st1) \<Rightarrow> (systemBotUser, st1))"

section \<open>Handles\<close>

text \<open>\<open>LIKE\<close> with the backslash as escape character: \<open>%\<close> matches any text, \<open>_\<close> any character.\<close>

fun like :: "string \<Rightarrow> string \<Rightarrow> bool" where
  "like [] s = (s = [])"
| "like (p # ps) s =
     (if p = CHR ''%'' then like ps s \<or> (case s of [] \<Rightarrow> False | _ # s' \<Rightarrow> like (p # ps) s')
      else if p = CHR 0x5C then
        (case ps of [] \<Rightarrow> False | q # qs \<Rightarrow> (case s of [] \<Rightarrow> False | c # s' \<Rightarrow> c = q \<and> like qs s'))
      else (case s of [] \<Rightarrow> False | c # s' \<Rightarrow> (p = CHR ''_'' \<or> p = c) \<and> like ps s'))"

definition likeEscape :: "string \<Rightarrow> string" where
  "likeEscape s = concat (map (\<lambda>c. if c = CHR 0x5C \<or> c = CHR ''%'' \<or> c = CHR ''_'' then [CHR 0x5C, c] else [c]) s)"

fun reserve_loop :: "(string \<Rightarrow> bool) \<Rightarrow> string list \<Rightarrow> string \<Rightarrow> string \<Rightarrow> string \<Rightarrow> nat \<Rightarrow> (user_error, string) result" where
  "reserve_loop fails handles pat slug kind 0 = Inl HandlesExhausted"
| "reserve_loop fails handles pat slug kind (Suc n) =
     (if fails ''count handles'' then Inl (UserSql ''count handles'')
      else
        (let handle = FormatHandle slug kind (int (length (filter (like pat) handles)) + 1) in
         if fails ''probe handle'' then Inl (UserSql ''probe handle'')
         else if handle \<notin> set handles then Inr handle
         else reserve_loop fails handles pat slug kind n))"

definition reserveHandle ::
  "(string \<Rightarrow> bool) \<Rightarrow> string list \<Rightarrow> string \<Rightarrow> string \<Rightarrow> (user_error, string) result" where
  "reserveHandle fails handles slug kind =
     reserve_loop fails handles (likeEscape slug @ ''-'' @ kind @ ''-%'') slug kind 32"

definition InvalidateGlobalMentionIndex :: "user_store \<Rightarrow> user_store" where
  "InvalidateGlobalMentionIndex st = st\<lparr>id_mentionIndex := False\<rparr>"

text \<open>One attempt: reserve, let the others insert, insert. \<open>uid\<close> is the next value of the id sequence.\<close>

fun create_loop ::
  "(string \<Rightarrow> bool) \<Rightarrow> (nat \<Rightarrow> user_row list) \<Rightarrow> int \<Rightarrow> int \<Rightarrow> string \<Rightarrow> user_message \<Rightarrow> nat \<Rightarrow> user_store \<Rightarrow>
     (user_error, user_message) result \<times> user_store" where
  "create_loop fails race uid now slug create 0 st = (Inl HandlesExhausted, st)"
| "create_loop fails race uid now slug create (Suc n) st =
     (case (if us_Type create \<noteq> ''SYSTEM_BOT'' then reserveHandle fails (map pr_Handle (id_rows st)) slug HandleKindUser
            else Inr SystemBotHandle) of
        Inl err \<Rightarrow> (Inl err, st)
      | Inr handle \<Rightarrow>
          if fails ''begin'' then (Inl (UserSql ''begin''), st)
          else
            (let st1 = st\<lparr>id_rows := id_rows st @ race n\<rparr> in
             if fails ''insert user'' then (Inl (UserSql ''insert user''), st1)
             else if handle \<in> pr_Handle ` set (id_rows st1) then
               (if fails ''rollback'' then (Inl (UserSql ''rollback''), st1)
                else create_loop fails race uid now slug create n st1)
             else if list_ex (\<lambda>p. pr_Email p = us_Email create \<and> \<not> pr_Deleted p) (id_rows st1) then
               (Inl (EmailTaken (us_Email create)), st1)
             else if fails ''commit'' then (Inl (UserSql ''commit''), st1)
             else
               (let row = \<lparr>pr_ID = uid, pr_Deleted = False, pr_Email = us_Email create, pr_Name = us_Name create,
                      pr_Handle = handle, pr_Type = us_Type create, pr_PasswordHash = us_PasswordHash create,
                      pr_Phone = us_Phone create, pr_Profile = us_Profile create, pr_CreatedAt = now,
                      pr_Description = us_Description create, pr_AvatarS3Key = [], pr_ChatPreferences = None,
                      pr_EmailVerifiedAt = us_EmailVerifiedAt create\<rparr>;
                    user = create\<lparr>us_ID := uid, us_Handle := handle, us_MemberDeleted := False, us_CreatedAt := now,
                      us_Groups := [], us_AvatarS3Key := [], us_ChatPreferences := None\<rparr>
                in (Inr user, InvalidateGlobalMentionIndex
                     (cacheActiveUser (Some user) (st1\<lparr>id_rows := id_rows st1 @ [row]\<rparr>))))))"

definition CreateUser ::
  "identity_env \<Rightarrow> (string \<Rightarrow> bool) \<Rightarrow> (nat \<Rightarrow> user_row list) \<Rightarrow> int \<Rightarrow> int \<Rightarrow> user_message \<Rightarrow> user_store \<Rightarrow>
     (user_error, user_message) result \<times> user_store" where
  "CreateUser env fails race uid now create st =
     (if us_Email create \<noteq> to_lower (us_Email create) then (Inl EmailNotLower, st)
      else
        (let slug0 = ie_bytes env (SlugifyHandle (ie_tables env) (ie_runes env (us_Name create)));
             slug = (if slug0 = [] then ''user'' else slug0)
         in create_loop fails race uid now slug create 32 st))"

section \<open>Updating users\<close>

definition patch_user_row :: "update_user \<Rightarrow> user_row \<Rightarrow> user_row" where
  "patch_user_row patch p =
     p\<lparr>pr_Deleted := or_old (uu_Delete patch) (pr_Deleted p),
       pr_EmailVerifiedAt := (case uu_EmailVerifiedAt patch of None \<Rightarrow> pr_EmailVerifiedAt p | Some t \<Rightarrow> Some t),
       pr_Email := or_old (map_option to_lower (uu_Email patch)) (pr_Email p),
       pr_Name := or_old (uu_Name patch) (pr_Name p),
       pr_PasswordHash := or_old (uu_PasswordHash patch) (pr_PasswordHash p),
       pr_Phone := or_old (uu_Phone patch) (pr_Phone p),
       pr_Profile := or_old (uu_Profile patch) (pr_Profile p),
       pr_Description := or_old (uu_Description patch) (pr_Description p),
       pr_ChatPreferences := (case uu_ChatPreferences patch of None \<Rightarrow> pr_ChatPreferences p | Some c \<Rightarrow> Some c)\<rparr>"

definition touches_nothing :: "update_user \<Rightarrow> bool" where
  "touches_nothing patch \<longleftrightarrow>
     uu_Email patch = None \<and> uu_Name patch = None \<and> uu_PasswordHash patch = None \<and> uu_Delete patch = None \<and>
     uu_Profile patch = None \<and> uu_Phone patch = None \<and> uu_Description patch = None \<and>
     uu_ChatPreferences patch = None \<and> uu_EmailVerifiedAt patch = None"

definition active_emails_distinct :: "user_row list \<Rightarrow> bool" where
  "active_emails_distinct rows \<longleftrightarrow> distinct (map pr_Email (filter (\<lambda>p. \<not> pr_Deleted p) rows))"

definition UpdateUser ::
  "identity_env \<Rightarrow> (string \<Rightarrow> bool) \<Rightarrow> int \<Rightarrow> user_message \<Rightarrow> update_user \<Rightarrow> user_store \<Rightarrow>
     (user_error, user_message option) result \<times> user_store" where
  "UpdateUser env fails now currentUser patch st =
     (if us_ID currentUser = SystemBotID then (Inl SystemBotUpdate, st)
      else
        (let patch1 = (if uu_PasswordHash patch \<noteq> None \<and> uu_Profile patch = None
                       then patch\<lparr>uu_Profile := Some (ie_touchPassword env now (us_Profile currentUser))\<rparr> else patch);
             rows = map (\<lambda>p. if pr_ID p = us_ID currentUser then patch_user_row patch1 p else p) (id_rows st)
         in if touches_nothing patch1 then (Inr (Some currentUser), st)
            else if fails ''begin'' then (Inl (UserSql ''begin''), st)
            else if fails ''update user'' then (Inl (UserSql ''update user''), st)
            else if \<not> active_emails_distinct rows then
              (Inl (case uu_Email patch of Some e \<Rightarrow> EmailTaken (to_lower e) | None \<Rightarrow> UserTaken), st)
            else if fails ''commit'' then (Inl (UserSql ''commit''), st)
            else
              (case GetUserByID fails (us_ID currentUser)
                      (invalidateUserCache (us_ID currentUser) (us_Email currentUser) (st\<lparr>id_rows := rows\<rparr>)) of
                 (Inl err, st1) \<Rightarrow> (Inl err, st1)
               | (Inr user, st1) \<Rightarrow> (Inr user, InvalidateGlobalMentionIndex (cacheActiveUser user st1)))))"


section \<open>Groups\<close>

definition ListGroups ::
  "(string \<Rightarrow> bool) \<Rightarrow> string option \<Rightarrow> string option \<Rightarrow> user_store \<Rightarrow> (user_error, group_row list) result" where
  "ListGroups fails gid email st =
     (if fails ''list groups'' then Inl (UserSql ''list groups'')
      else
        (let hits = filter (\<lambda>g. wants gid (gr_ID g) \<and>
               (case email of None \<Rightarrow> True | Some e \<Rightarrow> gr_Email g = Some e)) (id_groups st)
         in Inr (sort_key gr_Title (email_order hits))))"

definition at_most_one :: "(user_error, group_row list) result \<Rightarrow> (user_error, group_row option) result" where
  "at_most_one r =
     (case r of Inl err \<Rightarrow> Inl err | Inr [] \<Rightarrow> Inr None | Inr [g] \<Rightarrow> Inr (Some g) | Inr _ \<Rightarrow> Inl GroupConflict)"

definition GetGroup :: "(string \<Rightarrow> bool) \<Rightarrow> string \<Rightarrow> user_store \<Rightarrow> (user_error, group_row option) result" where
  "GetGroup fails email st = at_most_one (ListGroups fails None (Some email) st)"

definition GetGroupByID :: "(string \<Rightarrow> bool) \<Rightarrow> string \<Rightarrow> user_store \<Rightarrow> (user_error, group_row option) result" where
  "GetGroupByID fails gid st = at_most_one (ListGroups fails (Some gid) None st)"

definition or_else ::
  "(user_error, group_row option) result \<Rightarrow> (user_error, group_row option) result \<Rightarrow> (user_error, group_row option) result" where
  "or_else a b = (case a of Inr None \<Rightarrow> b | _ \<Rightarrow> a)"

definition GetGroupByName ::
  "(string \<Rightarrow> bool) \<Rightarrow> string \<Rightarrow> user_store \<Rightarrow> (user_error, group_row option) result" where
  "GetGroupByName fails name st =
     (case GetGroupEmail name of
        Inl _ \<Rightarrow> Inl BadGroupName
      | Inr token \<Rightarrow>
          if CHR ''@'' \<in> set token then or_else (GetGroup fails token st) (GetGroupByID fails token st)
          else or_else (GetGroupByID fails token st) (GetGroup fails token st))"

definition CreateGroup ::
  "(string \<Rightarrow> bool) \<Rightarrow> string \<Rightarrow> group_row \<Rightarrow> user_store \<Rightarrow> (user_error, group_row) result \<times> user_store" where
  "CreateGroup fails newID create st =
     (let g = create\<lparr>gr_ID := (if gr_ID create = [] then newID else gr_ID create),
                gr_Email := (if gr_Email create = Some [] then None else gr_Email create)\<rparr>
      in if fails ''insert group'' \<or> fails ''commit'' then (Inl (UserSql ''insert group''), st)
         else if list_ex (\<lambda>h. gr_ID h = gr_ID g \<or> gr_Email g \<noteq> None \<and> gr_Email h = gr_Email g) (id_groups st) then
           (Inl GroupConflict, st)
         else (Inr g, st\<lparr>id_groups := id_groups st @ [g]\<rparr>))"

definition DeleteGroup :: "(string \<Rightarrow> bool) \<Rightarrow> string \<Rightarrow> user_store \<Rightarrow> user_error option \<times> user_store" where
  "DeleteGroup fails gid st =
     (if fails ''delete group'' then (Some (UserSql ''delete group''), st)
      else (None, st\<lparr>id_groups := filter (\<lambda>g. gr_ID g \<noteq> gid) (id_groups st)\<rparr>))"


section \<open>Allocation of handles\<close>

lemma like_percent: "like ''%'' s"
  by (induction s) auto

declare like.simps(2) [simp del]

lemma like_escaped: "like (likeEscape w @ ps) s \<longleftrightarrow> (\<exists>t. s = w @ t \<and> like ps t)"
proof (induction w arbitrary: s)
  case (Cons c w)
  have c: "likeEscape (c # w) = (if c = CHR 0x5C \<or> c = CHR ''%'' \<or> c = CHR ''_'' then [CHR 0x5C, c] else [c]) @ likeEscape w"
    by (simp add: likeEscape_def)
  show ?case
    by (cases s) (auto simp: c Cons.IH like.simps(2))
qed (simp add: likeEscape_def)

lemma likeEscape_plain: "CHR 0x5C \<notin> set w \<Longrightarrow> CHR ''%'' \<notin> set w \<Longrightarrow> CHR ''_'' \<notin> set w \<Longrightarrow> likeEscape w = w"
  by (induction w) (auto simp: likeEscape_def)

definition plain_kind :: "string \<Rightarrow> bool" where
  "plain_kind kind \<longleftrightarrow> CHR 0x5C \<notin> set kind \<and> CHR ''%'' \<notin> set kind \<and> CHR ''_'' \<notin> set kind"

text \<open>The pattern matches exactly the handles that begin with the slug and the kind, whatever the slug contains.\<close>

lemma like_prefix:
  assumes "plain_kind kind"
  shows "like (likeEscape slug @ ''-'' @ kind @ ''-%'') h \<longleftrightarrow> prefix (slug @ ''-'' @ kind @ ''-'') h"
proof -
  have k: "likeEscape (''-'' @ kind @ ''-'') = ''-'' @ kind @ ''-''"
    using assms by (intro likeEscape_plain) (auto simp: plain_kind_def)
  have "likeEscape (slug @ ''-'' @ kind @ ''-'') @ ''%'' = likeEscape slug @ ''-'' @ kind @ ''-%''"
    using k by (simp add: likeEscape_def)
  then show ?thesis using like_escaped [of "slug @ ''-'' @ kind @ ''-''" "''%''" h] like_percent by (simp only: prefix_def) simp
qed

definition same_slug :: "string \<Rightarrow> string \<Rightarrow> string list \<Rightarrow> nat" where
  "same_slug slug kind handles = length (filter (prefix (slug @ ''-'' @ kind @ ''-'')) handles)"

definition candidate :: "string \<Rightarrow> string \<Rightarrow> string list \<Rightarrow> string" where
  "candidate slug kind handles = FormatHandle slug kind (int (same_slug slug kind handles) + 1)"

lemma reserve_loop_constant:
  "n > 0 \<Longrightarrow> reserve_loop no_fail handles pat slug kind n =
     (let h = FormatHandle slug kind (int (length (filter (like pat) handles)) + 1)
      in if h \<in> set handles then Inl HandlesExhausted else Inr h)"
proof (induction n)
  case (Suc n)
  then show ?case by (cases n) (auto simp: Let_def)
qed simp

text \<open>Nothing changes between two tries of the loop: a taken candidate stays taken.\<close>

lemma reserveHandle_exact:
  assumes "plain_kind kind"
  shows "reserveHandle no_fail handles slug kind =
    (if candidate slug kind handles \<in> set handles then Inl HandlesExhausted else Inr (candidate slug kind handles))"
proof -
  have "like (likeEscape slug @ ''-'' @ kind @ ''-%'') = prefix (slug @ ''-'' @ kind @ ''-'')"
    using like_prefix [OF assms, of slug] by blast
  then show ?thesis
    unfolding reserveHandle_def candidate_def same_slug_def
    by (subst reserve_loop_constant) (simp_all only: Let_def zero_less_numeral)
qed

text \<open>Every numbered handle was counted when it was given out.\<close>

definition handles_counted :: "string \<Rightarrow> string list \<Rightarrow> bool" where
  "handles_counted kind handles \<longleftrightarrow>
     (\<forall>slug k. FormatHandle slug kind (int k) \<in> set handles \<longrightarrow> k \<le> same_slug slug kind handles)"

lemma FormatHandle_inject:
  "FormatHandle slug kind (int k) = FormatHandle slug' kind (int k') \<longleftrightarrow> slug = slug' \<and> k = k'"
proof
  assume "FormatHandle slug kind (int k) = FormatHandle slug' kind (int k')"
  then have e: "slug @ ''-'' @ kind @ ''-'' @ nat_string k = slug' @ ''-'' @ kind @ ''-'' @ nat_string k'"
    by (simp add: FormatHandle_def int_string_def)
  note t = handle_tail_unique [OF e nat_string_digits nat_string_digits]
  then show "slug = slug' \<and> k = k'" by simp
qed simp

lemma candidate_free: "handles_counted kind handles \<Longrightarrow> candidate slug kind handles \<notin> set handles"
  unfolding handles_counted_def candidate_def
  by (metis Suc_n_not_le_n of_nat_Suc add.commute)

lemma same_slug_snoc:
  "same_slug slug kind (handles @ [h]) = same_slug slug kind handles + (if prefix (slug @ ''-'' @ kind @ ''-'') h then 1 else 0)"
  by (simp add: same_slug_def)

lemma counted_snoc:
  assumes "handles_counted kind handles"
  shows "handles_counted kind (handles @ [candidate slug kind handles])"
  unfolding handles_counted_def
proof (intro allI impI)
  fix slug' k
  let ?h = "candidate slug kind handles"
  assume m: "FormatHandle slug' kind (int k) \<in> set (handles @ [?h])"
  show "k \<le> same_slug slug' kind (handles @ [?h])"
  proof (cases "FormatHandle slug' kind (int k) = ?h")
    case True
    then have "slug' = slug" "k = Suc (same_slug slug kind handles)"
      using FormatHandle_inject [of slug' kind k slug "Suc (same_slug slug kind handles)"] by (auto simp: candidate_def add.commute)
    moreover have "prefix (slug @ ''-'' @ kind @ ''-'') ?h" by (simp add: candidate_def FormatHandle_def prefix_def)
    ultimately show ?thesis by (simp only: same_slug_snoc) simp
  next
    case False
    with m assms have "k \<le> same_slug slug' kind handles" by (auto simp: handles_counted_def)
    then show ?thesis by (simp add: same_slug_snoc)
  qed
qed

lemma kind_user_plain: "plain_kind HandleKindUser"
  by (simp add: plain_kind_def HandleKindUser_def)


section \<open>The caches\<close>

text \<open>A message is current if it agrees with an active row; the groups column is left out, it depends on another table.\<close>

definition current :: "user_row list \<Rightarrow> user_message \<Rightarrow> bool" where
  "current rows u \<longleftrightarrow> (\<exists>p \<in> set rows. \<not> pr_Deleted p \<and> scan_user [] p = u\<lparr>us_Groups := []\<rparr>)"

definition users_ok :: "user_store \<Rightarrow> bool" where
  "users_ok st \<longleftrightarrow>
     distinct (map pr_ID (id_rows st)) \<and> distinct (map pr_Handle (id_rows st)) \<and>
     (\<forall>i u. id_userIDCache st i = Some u \<longrightarrow> us_ID u = i \<and> current (id_rows st) u) \<and>
     (\<forall>e u. id_userEmailCache st e = Some u \<longrightarrow> us_Email u = e \<and> id_userIDCache st (us_ID u) = Some u) \<and>
     (\<forall>h u. id_userHandleCache st h = Some u \<longrightarrow> us_Handle u = h \<and> id_userIDCache st (us_ID u) = Some u)"

lemma scan_user_fields [simp]:
  "us_ID (scan_user gs p) = pr_ID p" "us_Handle (scan_user gs p) = pr_Handle p" "us_Email (scan_user gs p) = pr_Email p"
  "us_MemberDeleted (scan_user gs p) = pr_Deleted p"
  by (simp_all add: scan_user_def)


lemma currentD:
  assumes "current rows u"
  obtains p where "p \<in> set rows" "\<not> pr_Deleted p" "pr_ID p = us_ID u" "pr_Handle p = us_Handle u" "pr_Email p = us_Email u"
    "scan_user [] p = u\<lparr>us_Groups := []\<rparr>"
proof -
  obtain p where p: "p \<in> set rows" "\<not> pr_Deleted p" "scan_user [] p = u\<lparr>us_Groups := []\<rparr>"
    using assms by (auto simp: current_def)
  have "pr_ID p = us_ID (scan_user [] p)" "pr_Handle p = us_Handle (scan_user [] p)" "pr_Email p = us_Email (scan_user [] p)"
    by simp_all
  then have "pr_ID p = us_ID u" "pr_Handle p = us_Handle u" "pr_Email p = us_Email u" unfolding p(3) by simp_all
  with p show thesis by (intro that)
qed

lemma current_unique:
  assumes "distinct (map pr_ID rows)" "current rows u" "current rows v" "us_ID u = us_ID v"
  shows "us_Handle u = us_Handle v \<and> us_Email u = us_Email v"
proof -
  obtain p where p: "p \<in> set rows" "pr_ID p = us_ID u" "pr_Handle p = us_Handle u" "pr_Email p = us_Email u"
    using currentD [OF assms(2)] by metis
  obtain q where q: "q \<in> set rows" "pr_ID q = us_ID v" "pr_Handle q = us_Handle v" "pr_Email q = us_Email v"
    using currentD [OF assms(3)] by metis
  have "p = q" using assms(1,4) p(1,2) q(1,2) by (simp add: distinct_map inj_on_def)
  with p q show ?thesis by simp
qed

lemma cacheActiveUser_ok:
  assumes "users_ok st" "case user of None \<Rightarrow> True | Some u \<Rightarrow> us_MemberDeleted u \<or> current (id_rows st) u"
  shows "users_ok (cacheActiveUser user st)"
proof (cases user)
  case (Some u)
  show ?thesis
  proof (cases "us_MemberDeleted u \<or> us_Handle u = []")
    case False
    have c: "current (id_rows st) u" using assms(2) Some False by simp
    have same: "us_Handle v = us_Handle u \<and> us_Email v = us_Email u"
      if "id_userIDCache st (us_ID u) = Some v" for v
      using current_unique [of "id_rows st" v u] that assms(1) c by (auto simp: users_ok_def)
    have eq: "cacheActiveUser user st = st\<lparr>id_userIDCache := (id_userIDCache st)(us_ID u \<mapsto> u),
        id_userEmailCache := (id_userEmailCache st)(us_Email u \<mapsto> u), id_userHandleCache := (id_userHandleCache st)(us_Handle u \<mapsto> u)\<rparr>"
      using False Some by (simp add: cacheActiveUser_def)
    show ?thesis
      using assms(1) c same unfolding eq users_ok_def by (auto split: if_splits; metis)
  qed (use Some assms(1) in \<open>simp add: cacheActiveUser_def\<close>)
qed (use assms(1) in \<open>simp add: cacheActiveUser_def\<close>)

text \<open>Dropping a user's entries, and rewriting a row that has none.\<close>

lemma invalidate_caches:
  "id_userIDCache (invalidateUserCache uid email st) = (id_userIDCache st)(uid := None)"
  "id_userEmailCache (invalidateUserCache uid email st) = (id_userEmailCache st)(email := None)"
  "id_userHandleCache (invalidateUserCache uid email st) = (case id_userIDCache st uid of None \<Rightarrow> id_userHandleCache st
     | Some c \<Rightarrow> (id_userHandleCache st)(us_Handle c := None))"
  "id_rows (invalidateUserCache uid email st) = id_rows st"
  "invalidateUserCache uid email (st\<lparr>id_rows := rows\<rparr>) = (invalidateUserCache uid email st)\<lparr>id_rows := rows\<rparr>"
  by (simp_all add: invalidateUserCache_def Let_def split: option.split)








lemma append_rows_ok:
  assumes "users_ok st" "distinct (map pr_ID (id_rows st @ new))" "distinct (map pr_Handle (id_rows st @ new))"
  shows "users_ok (st\<lparr>id_rows := id_rows st @ new\<rparr>)"
proof -
  have "current (id_rows st @ new) u" if "current (id_rows st) u" for u using that by (auto simp: current_def)
  with assms show ?thesis unfolding users_ok_def by simp
qed

lemma mention_index_ok [simp]: "users_ok (InvalidateGlobalMentionIndex st) = users_ok st"
  "id_rows (InvalidateGlobalMentionIndex st) = id_rows st"
  by (simp_all add: users_ok_def InvalidateGlobalMentionIndex_def)

lemma rows_cacheActiveUser [simp]: "id_rows (cacheActiveUser user st) = id_rows st"
  by (simp add: cacheActiveUser_def split: option.split)

definition new_row :: "int \<Rightarrow> int \<Rightarrow> string \<Rightarrow> user_message \<Rightarrow> user_row" where
  "new_row uid now handle create =
     \<lparr>pr_ID = uid, pr_Deleted = False, pr_Email = us_Email create, pr_Name = us_Name create,
      pr_Handle = handle, pr_Type = us_Type create, pr_PasswordHash = us_PasswordHash create,
      pr_Phone = us_Phone create, pr_Profile = us_Profile create, pr_CreatedAt = now,
      pr_Description = us_Description create, pr_AvatarS3Key = [], pr_ChatPreferences = None,
      pr_EmailVerifiedAt = us_EmailVerifiedAt create\<rparr>"

definition new_user :: "int \<Rightarrow> int \<Rightarrow> string \<Rightarrow> user_message \<Rightarrow> user_message" where
  "new_user uid now handle create =
     create\<lparr>us_ID := uid, us_Handle := handle, us_MemberDeleted := False, us_CreatedAt := now,
       us_Groups := [], us_AvatarS3Key := [], us_ChatPreferences := None\<rparr>"

lemma new_user_current: "scan_user [] (new_row uid now handle create) = (new_user uid now handle create)\<lparr>us_Groups := []\<rparr>"
  by (simp add: scan_user_def new_row_def new_user_def groups_column_def email_order_def)

lemma insert_user_ok:
  assumes "users_ok st" "uid \<notin> pr_ID ` set (id_rows st)" "handle \<notin> pr_Handle ` set (id_rows st)"
  shows "users_ok (InvalidateGlobalMentionIndex (cacheActiveUser (Some (new_user uid now handle create))
    (st\<lparr>id_rows := id_rows st @ [new_row uid now handle create]\<rparr>)))"
proof -
  let ?st = "st\<lparr>id_rows := id_rows st @ [new_row uid now handle create]\<rparr>"
  have "users_ok ?st"
    by (rule append_rows_ok [OF assms(1)]) (use assms in \<open>auto simp: users_ok_def new_row_def\<close>)
  moreover have "current (id_rows ?st) (new_user uid now handle create)"
    using new_user_current by (auto simp: current_def new_row_def)
  ultimately show ?thesis using cacheActiveUser_ok [of ?st "Some (new_user uid now handle create)"] by simp
qed



text \<open>One attempt, written with the new row and the new message.\<close>

lemma create_step:
  assumes "(if us_Type create \<noteq> ''SYSTEM_BOT'' then reserveHandle fails (map pr_Handle (id_rows st)) slug HandleKindUser
       else Inr SystemBotHandle) = Inr handle" "st1 = st\<lparr>id_rows := id_rows st @ race n\<rparr>"
  shows "create_loop fails race uid now slug create (Suc n) st =
    (if fails ''begin'' then (Inl (UserSql ''begin''), st)
     else if fails ''insert user'' then (Inl (UserSql ''insert user''), st1)
     else if handle \<in> pr_Handle ` set (id_rows st1) then
       (if fails ''rollback'' then (Inl (UserSql ''rollback''), st1) else create_loop fails race uid now slug create n st1)
     else if list_ex (\<lambda>p. pr_Email p = us_Email create \<and> \<not> pr_Deleted p) (id_rows st1) then
       (Inl (EmailTaken (us_Email create)), st1)
     else if fails ''commit'' then (Inl (UserSql ''commit''), st1)
     else (Inr (new_user uid now handle create), InvalidateGlobalMentionIndex (cacheActiveUser (Some (new_user uid now handle create))
            (st1\<lparr>id_rows := id_rows st1 @ [new_row uid now handle create]\<rparr>))))"
  unfolding create_loop.simps assms(1) sum.case Let_def new_row_def new_user_def assms(2) by (rule refl)




section \<open>Look-ups that miss their aim\<close>

text \<open>The eviction of an entry from the id cache; the three caches evict independently.\<close>

definition evict_user_id :: "int \<Rightarrow> user_store \<Rightarrow> user_store" where
  "evict_user_id uid st = st\<lparr>id_userIDCache := (id_userIDCache st)(uid := None)\<rparr>"

definition delete_patch :: update_user where
  "delete_patch = \<lparr>uu_Email = None, uu_Name = None, uu_PasswordHash = None, uu_Delete = Some True, uu_Profile = None,
     uu_Phone = None, uu_Description = None, uu_ChatPreferences = None, uu_EmailVerifiedAt = None\<rparr>"

text \<open>A soft-deleted address may be used again, but a look-up by e-mail then finds the older, deleted row first.\<close>

lemma reused_email_finds_deleted:
  assumes "filter (\<lambda>p. pr_Email p = e) (id_rows st) = [p1, p2]" "e = to_lower e" "pr_Type p1 = pr_Type p2"
    "pr_CreatedAt p1 < pr_CreatedAt p2" "pr_Deleted p1" "\<not> pr_Deleted p2" "id_userEmailCache st e = None"
  shows "\<exists>u. fst (GetUserByEmail no_fail e st) = Inr (Some u) \<and> us_ID u = pr_ID p1 \<and> us_MemberDeleted u"
proof -
  have "filter (user_where (any_user\<lparr>fu_Email := Some e\<rparr>)) (id_rows st) = [p1, p2]"
  proof -
    have "user_where (any_user\<lparr>fu_Email := Some e\<rparr>) = (\<lambda>p. pr_Email p = e)"
      using assms(2) by (auto simp: user_where_def any_user_def wants_def)
    with assms(1) show ?thesis by simp
  qed
  moreover have "user_order [p1, p2] = [p1, p2]" using assms(3,4) by (simp add: user_order_def)
  ultimately have "buildListUsersQuery (any_user\<lparr>fu_Email := Some e\<rparr>) (id_rows st) = [p1, p2]"
    by (simp add: buildListUsersQuery_def page_def any_user_def)
  then show ?thesis
    using assms(5,7) by (simp add: GetUserByEmail_def cached_or_found_def findUser_def listUserImpl_def)
qed

text \<open>The groups column joins on the numeric id, while group members are written with handles.\<close>

lemma group_names_never_reported:
  assumes "\<forall>g \<in> set groups. \<forall>m \<in> set (gr_Members g). \<exists>h. m = FormatUserHandle h \<and> HandleKindOf h HandleKindUser"
  shows "us_Groups (scan_user groups p) = []"
proof -
  have "\<not> HandleKindOf (int_string i) HandleKindUser" for i
  proof
    assume "HandleKindOf (int_string i) HandleKindUser"
    then have "CHR ''u'' \<in> set (int_string i)"
      unfolding HandleKindOf_iff [OF kinds_not_digits(1)] by (auto simp: HandleKindUser_def)
    then have "is_digit CHR ''u''" using nat_string_free [of "CHR ''u''"] by (auto simp: int_string_def split: if_splits)
    then show False by (simp add: is_digit_def)
  qed
  then have "filter (\<lambda>g. (''users/'' @ int_string (pr_ID p)) \<in> set (gr_Members g)) groups = []"
    using assms by (fastforce simp: filter_empty_conv FormatUserHandle_def UserNamePrefix_def)
  then show ?thesis by (simp add: scan_user_def groups_column_def email_order_def)
qed

section \<open>Properties\<close>








definition ran :: user_message where
  "ran = \<lparr>us_ID = 101, us_Handle = ''ran-user-1'', us_Email = ''r@x'', us_Name = ''ran'', us_Type = ''END_USER'', us_PasswordHash = [],
     us_MemberDeleted = False, us_Profile = [], us_Phone = [], us_CreatedAt = 7, us_Groups = [], us_Description = [],
     us_AvatarS3Key = [], us_ChatPreferences = None, us_EmailVerifiedAt = None\<rparr>"

definition ran_store :: user_store where
  "ran_store = \<lparr>id_rows = [new_row 101 7 ''ran-user-1'' ran], id_groups = [], id_userIDCache = [101 \<mapsto> ran],
     id_userEmailCache = [''r@x'' \<mapsto> ran], id_userHandleCache = [''ran-user-1'' \<mapsto> ran], id_enableCache = True, id_mentionIndex = True\<rparr>"

lemma ran_scan: "scan_user [] (new_row 101 7 ''ran-user-1'' ran) = ran"
  by (simp add: scan_user_def new_row_def ran_def groups_column_def email_order_def)

lemma ran_store_ok: "users_ok ran_store"
proof -
  have "current (id_rows ran_store) ran" using ran_scan by (auto simp: current_def ran_store_def new_row_def ran_def)
  then show ?thesis by (auto simp: users_ok_def ran_store_def) (simp_all add: ran_def)
qed


text \<open>Creating a user allocates a handle of its own at the first attempt. If every numbered handle was allocated this way and the e-mail is
  free, the call succeeds without a retry, whatever the slug; the new handle is one nobody has, marks its bearer as a user, and
  leaves the table ready for the next call.\<close>

theorem create_user_allocates:
  assumes "users_ok st" "uid \<notin> pr_ID ` set (id_rows st)" "handles_counted HandleKindUser (map pr_Handle (id_rows st))"
    "us_Type create \<noteq> ''SYSTEM_BOT''" "us_Email create = to_lower (us_Email create)"
    "\<forall>p \<in> set (id_rows st). pr_Email p = us_Email create \<longrightarrow> pr_Deleted p"
  shows "\<exists>u st'. CreateUser env no_fail (\<lambda>_. []) uid now create st = (Inr u, st') \<and> users_ok st' \<and>
    us_Handle u \<notin> pr_Handle ` set (id_rows st) \<and> HandleKindOf (us_Handle u) HandleKindUser \<and>
    fst (GetUserByHandle no_fail (us_Handle u) (st'\<lparr>id_enableCache := True\<rparr>)) = Inr (Some u) \<and>
    map pr_Handle (id_rows st') = map pr_Handle (id_rows st) @ [us_Handle u] \<and>
    handles_counted HandleKindUser (map pr_Handle (id_rows st'))"
proof -
  define slug where "slug = (let slug0 = ie_bytes env (SlugifyHandle (ie_tables env) (ie_runes env (us_Name create)))
    in if slug0 = [] then ''user'' else slug0)"
  let ?hs = "map pr_Handle (id_rows st)"
  let ?h = "candidate slug HandleKindUser ?hs"
  let ?u = "new_user uid now ?h create"
  let ?st = "InvalidateGlobalMentionIndex (cacheActiveUser (Some ?u) (st\<lparr>id_rows := id_rows st @ [new_row uid now ?h create]\<rparr>))"
  have free: "?h \<notin> set ?hs" by (rule candidate_free [OF assms(3)])
  have res: "reserveHandle no_fail ?hs slug HandleKindUser = Inr ?h" using reserveHandle_exact [OF kind_user_plain] free by simp
  have email: "\<not> list_ex (\<lambda>p. pr_Email p = us_Email create \<and> \<not> pr_Deleted p) (id_rows st)" using assms(6) by (auto simp: list_ex_iff)
  have step: "create_loop no_fail (\<lambda>_. []) uid now slug create (Suc 31) st = (Inr ?u, ?st)"
  proof -
    have r: "(if us_Type create \<noteq> ''SYSTEM_BOT'' then reserveHandle no_fail ?hs slug HandleKindUser else Inr SystemBotHandle) = Inr ?h"
      using assms(4) res by presburger
    show ?thesis unfolding create_step [where st = st, OF r refl] using free email by simp
  qed
  have c: "CreateUser env no_fail (\<lambda>_. []) uid now create st = (Inr ?u, ?st)"
    using assms(5) step by (simp add: CreateUser_def slug_def Let_def del: create_loop.simps)
  have h: "us_Handle ?u = ?h" by (simp add: new_user_def)
  have k: "HandleKindOf ?h HandleKindUser"
    using HandleKindOf_format [OF kinds_not_digits(1), of slug "Suc (same_slug slug HandleKindUser ?hs)"] by (simp add: candidate_def add.commute)
  then have "?h \<noteq> []" by (auto simp: HandleKindOf_iff [OF kinds_not_digits(1)])
  then have "fst (GetUserByHandle no_fail ?h (?st\<lparr>id_enableCache := True\<rparr>)) = Inr (Some ?u)"
    by (simp add: GetUserByHandle_def cached_or_found_def cacheActiveUser_def InvalidateGlobalMentionIndex_def new_user_def)
  moreover have "users_ok ?st" by (rule insert_user_ok [OF assms(1,2)]) (use free in simp)
  moreover have "map pr_Handle (id_rows ?st) = ?hs @ [?h]" by (simp add: new_row_def)
  ultimately show ?thesis using c h k free counted_snoc [OF assms(3), of slug] by auto
qed


definition sample_identity :: identity_env where
  "sample_identity = \<lparr>ie_tables = ascii_tables, ie_runes = map of_char, ie_bytes = map char_of, ie_touchPassword = (\<lambda>_ p. p)\<rparr>"

theorem create_user_allocates_witness:
  "\<exists>u st'. CreateUser sample_identity no_fail (\<lambda>_. []) 102 9 (ran\<lparr>us_Email := ''s@x''\<rparr>) ran_store = (Inr u, st') \<and>
     us_Handle u \<noteq> ''ran-user-1'' \<and> HandleKindOf (us_Handle u) HandleKindUser"
proof -
  have "handles_counted HandleKindUser (map pr_Handle (id_rows ran_store))"
    unfolding handles_counted_def
  proof (intro allI impI)
    fix slug k
    assume "FormatHandle slug HandleKindUser (int k) \<in> set (map pr_Handle (id_rows ran_store))"
    moreover have "FormatHandle ''ran'' HandleKindUser (int 1) = ''ran-user-1''" by code_simp
    ultimately have "FormatHandle slug HandleKindUser (int k) = FormatHandle ''ran'' HandleKindUser (int 1)"
      by (simp only: ran_store_def new_row_def user_store.simps user_row.simps list.map list.set) blast
    then have s: "slug = ''ran''" "k = 1" by (simp_all only: FormatHandle_inject)
    show "k \<le> same_slug slug HandleKindUser (map pr_Handle (id_rows ran_store))"
      by (simp add: s same_slug_def ran_store_def new_row_def HandleKindUser_def)
  qed
  moreover have "102 \<notin> pr_ID ` set (id_rows ran_store)" "us_Type (ran\<lparr>us_Email := ''s@x''\<rparr>) \<noteq> ''SYSTEM_BOT''"
    "us_Email (ran\<lparr>us_Email := ''s@x''\<rparr>) = to_lower (us_Email (ran\<lparr>us_Email := ''s@x''\<rparr>))"
    "\<forall>p \<in> set (id_rows ran_store). pr_Email p = us_Email (ran\<lparr>us_Email := ''s@x''\<rparr>) \<longrightarrow> pr_Deleted p"
    by (simp_all add: ran_store_def new_row_def ran_def to_lower_def ascii_lower_def less_eq_char_def)
  ultimately show ?thesis
    using create_user_allocates [OF ran_store_ok, of 102 "ran\<lparr>us_Email := ''s@x''\<rparr>" sample_identity 9]
    by (auto simp: ran_store_def new_row_def)
qed

text \<open>An eviction can bring a deleted user back. The id, e-mail and handle caches evict independently, but the handle entry
  of a deleted user is dropped only if the id cache still has the user. If it has not, the deletion succeeds and look-ups by handle
  go on returning the user as active.\<close>

theorem deleted_user_served:
  assumes "id_enableCache st" "id_userHandleCache st (us_Handle u) = Some u" "\<not> us_MemberDeleted u" "us_ID u \<noteq> SystemBotID"
    "UpdateUser env no_fail now u delete_patch (evict_user_id (us_ID u) st) = (Inr r, st')"
  shows "(\<forall>p \<in> set (id_rows st'). pr_ID p = us_ID u \<longrightarrow> pr_Deleted p) \<and>
    (\<exists>v. fst (GetUserByHandle fails (us_Handle u) st') = Inr (Some v) \<and> \<not> us_MemberDeleted v)"
proof -
  let ?st0 = "evict_user_id (us_ID u) st"
  let ?rows = "map (\<lambda>p. if pr_ID p = us_ID u then patch_user_row delete_patch p else p) (id_rows st)"
  let ?st = "invalidateUserCache (us_ID u) (us_Email u) (?st0\<lparr>id_rows := ?rows\<rparr>)"
  have del: "\<forall>p \<in> set ?rows. pr_ID p = us_ID u \<longrightarrow> pr_Deleted p" by (auto simp: patch_user_row_def delete_patch_def or_old_def)
  have st: "id_rows ?st = ?rows" "id_enableCache ?st" "id_userHandleCache ?st (us_Handle u) = Some u"
    using assms(1,2) by (simp_all add: invalidateUserCache_def Let_def evict_user_id_def)
  obtain g st1 where g: "GetUserByID no_fail (us_ID u) ?st = (g, st1)" by fastforce
  have p: "touches_nothing delete_patch = False" "uu_PasswordHash delete_patch = None" by (simp_all add: touches_nothing_def delete_patch_def)
  have eq: "\<exists>user. g = Inr user \<and> st' = InvalidateGlobalMentionIndex (cacheActiveUser user st1)"
    using assms(4,5) g by (auto simp: UpdateUser_def Let_def p evict_user_id_def split: if_splits sum.splits)
  then obtain user where user: "g = Inr user" "st' = InvalidateGlobalMentionIndex (cacheActiveUser user st1)" by blast
  have keeps: "id_rows (cacheActiveUser x s) = id_rows s \<and> id_enableCache (cacheActiveUser x s) = id_enableCache s \<and>
      (\<exists>v. id_userHandleCache (cacheActiveUser x s) (us_Handle u) = Some v \<and> \<not> us_MemberDeleted v)"
    if "id_userHandleCache s (us_Handle u) = Some v" "\<not> us_MemberDeleted v" for x s v
    using that by (auto simp: cacheActiveUser_def split: option.split)
  have miss: "id_userIDCache ?st (us_ID u) = None" by (simp add: invalidate_caches)
  have "st1 = ?st \<or> (\<exists>x. st1 = cacheActiveUser x ?st)"
    using g miss by (auto simp: GetUserByID_def cached_or_found_def split: sum.splits option.splits if_splits)
  then obtain v where v: "id_rows st1 = ?rows" "id_enableCache st1" "id_userHandleCache st1 (us_Handle u) = Some v" "\<not> us_MemberDeleted v"
  proof (cases "st1 = ?st")
    case True
    with st assms(3) that [of u] show ?thesis by simp
  next
    case False
    with \<open>st1 = ?st \<or> (\<exists>x. st1 = cacheActiveUser x ?st)\<close> obtain x where "st1 = cacheActiveUser x ?st" by blast
    with keeps [OF st(3) assms(3), of x] st(1,2) that show ?thesis by auto
  qed
  obtain w where "id_rows st' = ?rows" "id_enableCache st'" "id_userHandleCache st' (us_Handle u) = Some w" "\<not> us_MemberDeleted w"
    using keeps [OF v(3,4), of user] v(1,2) user(2) by (auto simp: InvalidateGlobalMentionIndex_def)
  then show ?thesis using del by (simp add: GetUserByHandle_def cached_or_found_def)
qed

theorem deleted_user_served_witness:
  "\<exists>st'. (\<exists>r. UpdateUser sample_identity no_fail 9 ran delete_patch (evict_user_id 101 ran_store) = (Inr r, st')) \<and>
     (\<forall>p \<in> set (id_rows st'). pr_ID p = 101 \<longrightarrow> pr_Deleted p) \<and>
     (\<exists>v. fst (GetUserByHandle no_fail ''ran-user-1'' st') = Inr (Some v) \<and> \<not> us_MemberDeleted v)"
proof -
  have i: "us_ID ran = 101" "us_Handle ran = ''ran-user-1''" "\<not> us_MemberDeleted ran" "us_ID ran \<noteq> SystemBotID"
    by (simp_all add: ran_def SystemBotID_def)
  have s: "id_enableCache ran_store" "id_userHandleCache ran_store (us_Handle ran) = Some ran" by (simp_all add: ran_store_def ran_def)
  have "\<exists>r st'. UpdateUser sample_identity no_fail 9 ran delete_patch (evict_user_id 101 ran_store) = (Inr r, st')"
    by (simp add: UpdateUser_def Let_def touches_nothing_def delete_patch_def i active_emails_distinct_def ran_store_def new_row_def
        patch_user_row_def or_old_def evict_user_id_def invalidateUserCache_def GetUserByID_def cached_or_found_def findUser_def
        listUserImpl_def)
      (simp add: SystemBotID_def split: list.split)
  then obtain r st' where u: "UpdateUser sample_identity no_fail 9 ran delete_patch (evict_user_id (us_ID ran) ran_store) = (Inr r, st')"
    by (auto simp: i)
  from deleted_user_served [OF s i(3,4) u, of no_fail] u show ?thesis unfolding i by blast
qed

end
