(* ===== verification/IAM.thy ===== *)
theory IAM
  imports Membership Identity_Store
begin

text \<open>
  The permission engine (\<open>backend/manager/component/iam/manager.go\<close> and \<open>object_permission.go\<close>), the matching of
  bindings against a caller (\<open>backend/manager/utils/member.go\<close>) and the evaluation of binding conditions
  (\<open>backend/common/cel.go\<close>).

  A check reads the stores of the theories below: the policies and the membership tables, the roles, the users and groups, the commands; and
  the reminder and file tables, of which only the columns a check reads are kept. The CEL library is a parameter
  (\<open>cel_env\<close>). A read may also fill a cache; the fill is left out here, since within one request it changes no later
  read. \<open>CheckPermission\<close> calls itself, through the checks of objects, only without a resource, so the check without a
  resource is a definition of its own.

  The lemmas show which permissions a caller holds: the workspace tier exactly, the conversation tier from the caller's
  own bindings, and how much of its owner's access an agent can follow.
\<close>

section \<open>Conditions\<close>

datatype cel_value = CelBool bool | CelOther

record cel_env =
  cel_Compile :: "string \<Rightarrow> bool"
  cel_Eval :: "string \<Rightarrow> int \<Rightarrow> cel_value option"

definition doEvalBindingCondition :: "cel_env \<Rightarrow> string \<Rightarrow> int \<Rightarrow> bool option" where
  "doEvalBindingCondition cel expr requestTime =
     (if expr = [] then Some True
      else if \<not> cel_Compile cel expr then None
      else
        (case cel_Eval cel expr requestTime of
           None \<Rightarrow> None
         | Some CelOther \<Rightarrow> Some True
         | Some (CelBool b) \<Rightarrow> Some b))"

definition EvalBindingCondition :: "cel_env \<Rightarrow> string \<Rightarrow> int \<Rightarrow> bool option" where
  "EvalBindingCondition cel expr requestTime = doEvalBindingCondition cel expr requestTime"

definition GetExpression :: "string option \<Rightarrow> string" where
  "GetExpression condition = (case condition of None \<Rightarrow> [] | Some e \<Rightarrow> e)"

definition validateIAMBinding :: "cel_env \<Rightarrow> int \<Rightarrow> binding \<Rightarrow> bool" where
  "validateIAMBinding cel now b =
     (case EvalBindingCondition cel (GetExpression (b_Condition b)) now of None \<Rightarrow> False | Some ok \<Rightarrow> ok)"

section \<open>State\<close>

record agent_message =
  ag_ID :: int
  ag_ResourceID :: string
  ag_OwnerID :: int
  ag_FollowOwnerPermissions :: bool
  ag_CanManageChannelMembers :: bool

record reminder_row =
  re_MessageID :: uuid
  re_ConversationID :: uuid
  re_AssigneeAgentID :: int

record file_row =
  fi_ID :: uuid
  fi_ConversationID :: "uuid option"
  fi_UploaderPrincipalID :: int

record iam_db =
  ia_members :: member_db
  ia_roles :: role_store
  ia_users :: user_store
  ia_commands :: command_db
  ia_reminders :: "reminder_row list"
  ia_files :: "file_row list"

record iam_env =
  iv_members :: member_env
  iv_roles :: role_json
  iv_cel :: cel_env
  iv_now :: int
  iv_fails :: "string \<Rightarrow> bool"

datatype iam_error = IamPolicy policy_error | IamUser user_error | IamStore store_error | IamSql string

record resource_ref =
  rr_ResourceType :: policy_resource
  rr_Name :: string

definition iv_uuid :: "iam_env \<Rightarrow> uuid_env" where
  "iv_uuid env = mn_uuid (iv_members env)"

definition lift_policy :: "(policy_error, 'a) result \<Rightarrow> (iam_error, 'a) result" where
  "lift_policy r = (case r of Inl e \<Rightarrow> Inl (IamPolicy e) | Inr a \<Rightarrow> Inr a)"

definition policy_read_of :: "(policy_error, iam_message) result \<times> policy_store \<Rightarrow> (iam_error, iam_policy) result" where
  "policy_read_of r = (case fst r of Inl e \<Rightarrow> Inl (IamPolicy e) | Inr m \<Rightarrow> Inr (im_Policy m))"

section \<open>Bindings of a caller\<close>

definition MemberContainsUser :: "iam_env \<Rightarrow> iam_db \<Rightarrow> string \<Rightarrow> user_message \<Rightarrow> bool" where
  "MemberContainsUser env db member user =
     (if member = AllUsers then True
      else if prefix UserNamePrefix member then
        (case GetUserHandle member of Inl _ \<Rightarrow> False | Inr memberHandle \<Rightarrow> memberHandle = us_Handle user)
      else if prefix GroupPrefix member then
        (case GetGroupByName (iv_fails env) member (ia_users db) of
           Inr (Some g) \<Rightarrow> FormatUserHandle (us_Handle user) \<in> set (gr_Members g)
         | _ \<Rightarrow> False)
      else False)"

definition callerPrincipalName :: "user_message option \<Rightarrow> agent_message option \<Rightarrow> string \<times> bool" where
  "callerPrincipalName user agent =
     (case user of
        Some u \<Rightarrow> (FormatUserHandle (us_Handle u), True)
      | None \<Rightarrow> (case agent of Some a \<Rightarrow> (FormatAgentUID (ag_ResourceID a), False) | None \<Rightarrow> ([], False)))"

definition bindingContainsCaller ::
  "iam_env \<Rightarrow> iam_db \<Rightarrow> binding \<Rightarrow> string \<Rightarrow> bool \<Rightarrow> user_message option \<Rightarrow> bool" where
  "bindingContainsCaller env db b who isUser user =
     (if list_ex (\<lambda>member. member = AllUsers \<or> member = who) (b_Members b) then True
      else
        (case user of
           None \<Rightarrow> False
         | Some u \<Rightarrow> isUser \<and>
             list_ex (\<lambda>member. prefix GroupPrefix member \<and> MemberContainsUser env db member u) (b_Members b)))"

definition GetCallerIAMPolicyBindings ::
  "iam_env \<Rightarrow> iam_db \<Rightarrow> user_message option \<Rightarrow> agent_message option \<Rightarrow> iam_policy \<Rightarrow> iam_policy" where
  "GetCallerIAMPolicyBindings env db user agent policy =
     (case callerPrincipalName user agent of
        (who, isUser) \<Rightarrow>
          if who = [] then []
          else filter (\<lambda>b. validateIAMBinding (iv_cel env) (iv_now env) b \<and>
                 bindingContainsCaller env db b who isUser user) policy)"

definition GetUserIAMPolicyBindings :: "iam_env \<Rightarrow> iam_db \<Rightarrow> user_message \<Rightarrow> iam_policy \<Rightarrow> iam_policy" where
  "GetUserIAMPolicyBindings env db user policy = GetCallerIAMPolicyBindings env db (Some user) None policy"

fun uniq_loop :: "'a list \<Rightarrow> 'a list \<Rightarrow> 'a list" where
  "uniq_loop seen [] = []"
| "uniq_loop seen (e # es) = (if e \<in> set seen then uniq_loop seen es else e # uniq_loop (e # seen) es)"

definition Uniq :: "'a list \<Rightarrow> 'a list" where
  "Uniq xs = uniq_loop [] xs"

definition GetUserRolesInIamPolicy :: "iam_env \<Rightarrow> iam_db \<Rightarrow> user_message \<Rightarrow> iam_policy \<Rightarrow> string list" where
  "GetUserRolesInIamPolicy env db user policy = Uniq (map b_Role (GetUserIAMPolicyBindings env db user policy))"

definition GetUserFormattedRolesMap :: "iam_env \<Rightarrow> iam_db \<Rightarrow> user_message \<Rightarrow> iam_policy \<Rightarrow> string \<Rightarrow> bool" where
  "GetUserFormattedRolesMap env db user policy role = (role \<in> set (GetUserRolesInIamPolicy env db user policy))"

section \<open>Permissions of a role\<close>

text \<open>The permissions of an unknown role, and of one that cannot be read, are none.\<close>

definition rolePermissions :: "iam_env \<Rightarrow> iam_db \<Rightarrow> string \<Rightarrow> string list" where
  "rolePermissions env db role =
     (case fst (GetRoleSnapshot (iv_roles env) (iv_fails env) id id (trim_prefix role RolePrefix) (ia_roles db)) of
        Inr (Some r) \<Rightarrow> rm_Permissions r
      | _ \<Rightarrow> [])"

definition chatMemberPermissions :: "string list" where
  "chatMemberPermissions = [ConversationsRead, ConversationsSend, CommandsGet, CommandsWatch, FilesList]"

definition chatAdminPermissions :: "string list" where
  "chatAdminPermissions = [ConversationsRead, ConversationsSend, ConversationsManage, ConversationsManageMembers, CommandsGet,
     CommandsWatch, FilesList]"

definition chatOwnerPermissions :: "string list" where
  "chatOwnerPermissions = [ConversationsRead, ConversationsSend, ConversationsManage, ConversationsManageMembers, CommandsGet,
     CommandsWatch, FilesList]"

definition chatRolePermissions :: "int \<Rightarrow> string list" where
  "chatRolePermissions role =
     (if role = MemberRoleOwner then chatOwnerPermissions
      else if role = MemberRoleAdmin then chatAdminPermissions
      else if role = MemberRoleMember then chatMemberPermissions
      else [])"

definition conversationRolePermissions :: "iam_env \<Rightarrow> iam_db \<Rightarrow> string \<Rightarrow> string list" where
  "conversationRolePermissions env db role =
     (if role = FormatRole ConversationOwnerRole then chatOwnerPermissions
      else if role = FormatRole ConversationAdminRole then chatAdminPermissions
      else if role = FormatRole ConversationMemberRole then chatMemberPermissions
      else rolePermissions env db role)"

definition machineAgentCreatorPermissions :: "string list" where
  "machineAgentCreatorPermissions = [MachinesCreateAgent]"

definition machineRolePermissions :: "iam_env \<Rightarrow> iam_db \<Rightarrow> string \<Rightarrow> string list" where
  "machineRolePermissions env db role =
     (if role = FormatRole MachineAgentCreatorRole then machineAgentCreatorPermissions else rolePermissions env db role)"

definition provisionerMachineCreatorPermissions :: "string list" where
  "provisionerMachineCreatorPermissions = [ProvisionersProvision]"

definition provisionerRolePermissions :: "iam_env \<Rightarrow> iam_db \<Rightarrow> string \<Rightarrow> string list" where
  "provisionerRolePermissions env db role =
     (if role = FormatRole ProvisionerMachineCreatorRole then provisionerMachineCreatorPermissions
      else rolePermissions env db role)"

definition grants :: "(string \<Rightarrow> string list) \<Rightarrow> string \<Rightarrow> iam_policy \<Rightarrow> bool" where
  "grants perms perm bindings = list_ex (\<lambda>b. perm \<in> set (perms (b_Role b))) bindings"

definition callerMemberInfo :: "user_message option \<Rightarrow> agent_message option \<Rightarrow> (int \<times> string) option" where
  "callerMemberInfo user agent =
     (case user of
        Some u \<Rightarrow> Some (MemberTypeUser, us_Handle u)
      | None \<Rightarrow> (case agent of Some a \<Rightarrow> Some (MemberTypeAgent, ag_ResourceID a) | None \<Rightarrow> None))"

section \<open>The workspace check\<close>

definition memberBaseline :: "string list" where
  "memberBaseline = (case GetPredefinedRole WorkspaceMemberRole of None \<Rightarrow> [] | Some r \<Rightarrow> rm_Permissions r)"

definition CheckWorkspace :: "iam_env \<Rightarrow> iam_db \<Rightarrow> string \<Rightarrow> user_message option \<Rightarrow> (iam_error, bool) result" where
  "CheckWorkspace env db perm user =
     (if perm \<in> set memberBaseline then Inr True
      else
        (case user of
           None \<Rightarrow> Inr False
         | Some u \<Rightarrow>
             (case policy_read_of (GetWorkspaceIamPolicy (mn_json (iv_members env)) (iv_fails env) (md_policies (ia_members db))) of
                Inl e \<Rightarrow> Inl e
              | Inr policy \<Rightarrow>
                  Inr (list_ex (\<lambda>role. perm \<in> set (rolePermissions env db role)) (GetUserRolesInIamPolicy env db u policy)))))"

definition holds_workspace :: "iam_env \<Rightarrow> iam_db \<Rightarrow> string \<Rightarrow> user_message option \<Rightarrow> bool" where
  "holds_workspace env db perm user = (CheckWorkspace env db perm user = Inr True)"

section \<open>Objects\<close>

definition parseReminderResourceID :: "iam_env \<Rightarrow> string \<Rightarrow> uuid option" where
  "parseReminderResourceID env name =
     (case cut_prefix name ''reminders/'' of
        None \<Rightarrow> None
      | Some rest \<Rightarrow> if rest = [] then None else uuid_Parse (iv_uuid env) rest)"

definition parseFileResourceID :: "iam_env \<Rightarrow> string \<Rightarrow> uuid option" where
  "parseFileResourceID env name =
     (case cut_prefix name ''files/'' of
        None \<Rightarrow> uuid_Parse (iv_uuid env) name
      | Some rest \<Rightarrow> uuid_Parse (iv_uuid env) rest)"

text \<open>The membership column of the command query is the metadata table.\<close>

definition command_view :: "iam_db \<Rightarrow> command_db" where
  "command_view db = (ia_commands db)\<lparr>db_members := map meta_key (md_meta (ia_members db))\<rparr>"

definition checkCommandPermission ::
  "iam_env \<Rightarrow> iam_db \<Rightarrow> user_message option \<Rightarrow> agent_message option \<Rightarrow> string \<Rightarrow> (iam_error, bool) result" where
  "checkCommandPermission env db user agent name =
     (case GetCommandByName (iv_uuid env) (iv_fails env) name (command_view db) of
        Inl _ \<Rightarrow> Inr False
      | Inr cmd \<Rightarrow>
          if (case agent of None \<Rightarrow> False | Some a \<Rightarrow> ag_ID a = cm_AgentID cmd) then Inr True
          else if user \<noteq> None \<and> holds_workspace env db ConversationsReviewAll user then Inr True
          else
            (case callerMemberInfo user agent of
               None \<Rightarrow> Inr False
             | Some (memberType, memberID) \<Rightarrow>
                 (case IsCommandConversationMember (iv_fails env) (cm_ID cmd) memberType memberID (command_view db) of
                    Inl e \<Rightarrow> Inl (IamStore e) | Inr isMember \<Rightarrow> Inr isMember)))"

definition GetReminder :: "iam_env \<Rightarrow> iam_db \<Rightarrow> uuid \<Rightarrow> reminder_row option" where
  "GetReminder env db msgID =
     (if iv_fails env ''get reminder'' then None else find (\<lambda>r. re_MessageID r = msgID) (ia_reminders db))"

definition checkReminderPermission ::
  "iam_env \<Rightarrow> iam_db \<Rightarrow> user_message option \<Rightarrow> agent_message option \<Rightarrow> string \<Rightarrow> (iam_error, bool) result" where
  "checkReminderPermission env db user agent name =
     (case Option.bind (parseReminderResourceID env name) (GetReminder env db) of
        None \<Rightarrow> Inr False
      | Some r \<Rightarrow>
          if (case agent of None \<Rightarrow> False | Some a \<Rightarrow> ag_ID a = re_AssigneeAgentID r) then Inr True
          else if user \<noteq> None \<and> holds_workspace env db ConversationsReviewAll user then Inr True
          else
            (case callerMemberInfo user agent of
               None \<Rightarrow> Inr False
             | Some (memberType, memberID) \<Rightarrow>
                 (case fst (GetConversationMembership (iv_members env) (iv_fails env) (re_ConversationID r) memberType memberID
                         (ia_members db)) of
                    Inl e \<Rightarrow> Inl (IamPolicy e) | Inr (role, _) \<Rightarrow> Inr (role \<noteq> 0))))"

definition GetFile :: "iam_env \<Rightarrow> iam_db \<Rightarrow> uuid \<Rightarrow> (iam_error, file_row option) result" where
  "GetFile env db fileID =
     (if iv_fails env ''get file'' then Inl (IamSql ''get file'') else Inr (find (\<lambda>f. fi_ID f = fileID) (ia_files db)))"

definition checkFilePermission ::
  "iam_env \<Rightarrow> iam_db \<Rightarrow> user_message option \<Rightarrow> agent_message option \<Rightarrow> string \<Rightarrow> (iam_error, bool) result" where
  "checkFilePermission env db user agent name =
     (case parseFileResourceID env name of
        None \<Rightarrow> Inr False
      | Some fileID \<Rightarrow>
          (case GetFile env db fileID of
             Inl e \<Rightarrow> Inl e
           | Inr None \<Rightarrow> Inr False
           | Inr (Some f) \<Rightarrow>
               (case fi_ConversationID f of
                  Some convID \<Rightarrow>
                    (case callerMemberInfo user agent of
                       None \<Rightarrow> Inr False
                     | Some (memberType, memberID) \<Rightarrow>
                         lift_policy (fst (IsConversationMember (iv_members env) (iv_fails env) convID memberType memberID (ia_members db))))
                | None \<Rightarrow> Inr (case user of None \<Rightarrow> False | Some u \<Rightarrow> us_ID u = fi_UploaderPrincipalID f))))"

section \<open>Conversations\<close>

definition ConversationTypeAgentDM :: int where "ConversationTypeAgentDM = 3"

datatype conv_lookup = ConvMissing | ConvError | ConvFound conv_row

definition GetConversation :: "iam_env \<Rightarrow> iam_db \<Rightarrow> uuid \<Rightarrow> conv_lookup" where
  "GetConversation env db convID =
     (if iv_fails env ''get conversation'' then ConvError
      else case find (\<lambda>c. cv_ID c = convID) (md_convs (ia_members db)) of None \<Rightarrow> ConvMissing | Some c \<Rightarrow> ConvFound c)"

text \<open>The two owner-follow rules share their body: the bindings of the agent's owner, unless the owner is missing or deleted.\<close>

definition owner_grants :: "iam_env \<Rightarrow> iam_db \<Rightarrow> string \<Rightarrow> agent_message \<Rightarrow> iam_policy \<Rightarrow> (iam_error, bool) result" where
  "owner_grants env db perm agent policy =
     (case fst (GetUserByID (iv_fails env) (ag_OwnerID agent) (ia_users db)) of
        Inl e \<Rightarrow> Inl (IamUser e)
      | Inr None \<Rightarrow> Inr False
      | Inr (Some owner) \<Rightarrow>
          Inr (\<not> us_MemberDeleted owner \<and>
            grants (conversationRolePermissions env db) perm (GetUserIAMPolicyBindings env db owner policy)))"

definition or_try :: "(iam_error, bool) result \<Rightarrow> (iam_error, bool) result \<Rightarrow> (iam_error, bool) result" where
  "or_try a b = (case a of Inr False \<Rightarrow> b | _ \<Rightarrow> a)"

definition follow_read :: "iam_env \<Rightarrow> iam_db \<Rightarrow> string \<Rightarrow> agent_message option \<Rightarrow> iam_policy \<Rightarrow> (iam_error, bool) result" where
  "follow_read env db perm agent policy =
     (case agent of
        Some a \<Rightarrow> if perm = ConversationsRead \<and> ag_FollowOwnerPermissions a then owner_grants env db perm a policy else Inr False
      | None \<Rightarrow> Inr False)"

definition follow_manage :: "iam_env \<Rightarrow> iam_db \<Rightarrow> string \<Rightarrow> agent_message option \<Rightarrow> iam_policy \<Rightarrow> (iam_error, bool) result" where
  "follow_manage env db perm agent policy =
     (case agent of
        Some a \<Rightarrow> if perm = ConversationsManageMembers \<and> ag_CanManageChannelMembers a then owner_grants env db perm a policy else Inr False
      | None \<Rightarrow> Inr False)"

definition review_override :: "iam_env \<Rightarrow> iam_db \<Rightarrow> string \<Rightarrow> user_message option \<Rightarrow> uuid \<Rightarrow> (iam_error, bool) result" where
  "review_override env db perm user convID =
     (if perm = ConversationsRead \<and> user \<noteq> None then
        (case GetConversation env db convID of
           ConvMissing \<Rightarrow> Inr False
         | ConvError \<Rightarrow> Inl (IamSql ''get conversation'')
         | ConvFound c \<Rightarrow>
             Inr (cv_Type c = ConversationTypeAgentDM \<and> holds_workspace env db ConversationsReviewAgentDM user))
      else Inr False)"

definition checkConversationPermission ::
  "iam_env \<Rightarrow> iam_db \<Rightarrow> string \<Rightarrow> user_message option \<Rightarrow> agent_message option \<Rightarrow> string \<Rightarrow> (iam_error, bool) result" where
  "checkConversationPermission env db perm user agent name =
     (case GetConversationResourceID name of
        Inl _ \<Rightarrow> Inr False
      | Inr convIDStr \<Rightarrow>
          (case uuid_Parse (iv_uuid env) convIDStr of
             None \<Rightarrow> Inr False
           | Some convID \<Rightarrow>
               (case policy_read_of (GetConversationIamPolicy (iv_members env) (iv_fails env) convID (md_policies (ia_members db))) of
                  Inl e \<Rightarrow> Inl e
                | Inr policy \<Rightarrow>
                    if grants (conversationRolePermissions env db) perm (GetCallerIAMPolicyBindings env db user agent policy) then Inr True
                    else or_try (follow_read env db perm agent policy)
                          (or_try (follow_manage env db perm agent policy) (review_override env db perm user convID)))))"

section \<open>The check\<close>

definition check_bindings ::
  "iam_env \<Rightarrow> iam_db \<Rightarrow> (string \<Rightarrow> string list) \<Rightarrow> string \<Rightarrow> user_message option \<Rightarrow> agent_message option \<Rightarrow>
     (policy_error, iam_message) result \<times> policy_store \<Rightarrow> (iam_error, bool) result" where
  "check_bindings env db perms perm user agent read =
     (case policy_read_of read of
        Inl e \<Rightarrow> Inl e
      | Inr policy \<Rightarrow> Inr (grants perms perm (GetCallerIAMPolicyBindings env db user agent policy)))"

definition checkResourcePermission ::
  "iam_env \<Rightarrow> iam_db \<Rightarrow> string \<Rightarrow> user_message option \<Rightarrow> agent_message option \<Rightarrow> resource_ref \<Rightarrow> (iam_error, bool) result" where
  "checkResourcePermission env db perm user agent resource =
     (let name = rr_Name resource; pj = mn_json (iv_members env); fails = iv_fails env; ps = md_policies (ia_members db) in
      case rr_ResourceType resource of
        CONVERSATION \<Rightarrow> checkConversationPermission env db perm user agent name
      | AGENT \<Rightarrow> check_bindings env db (rolePermissions env db) perm user agent (GetAgentIamPolicy pj fails name ps)
      | MACHINE \<Rightarrow> check_bindings env db (machineRolePermissions env db) perm user agent (GetMachineIamPolicy pj fails name ps)
      | PROVISIONER \<Rightarrow>
          check_bindings env db (provisionerRolePermissions env db) perm user agent (GetProvisionerIamPolicy pj fails name ps)
      | COMMAND \<Rightarrow> checkCommandPermission env db user agent name
      | REMINDER \<Rightarrow> checkReminderPermission env db user agent name
      | FILE \<Rightarrow> checkFilePermission env db user agent name
      | _ \<Rightarrow> Inr False)"

definition CheckPermission ::
  "iam_env \<Rightarrow> iam_db \<Rightarrow> string \<Rightarrow> user_message option \<Rightarrow> agent_message option \<Rightarrow> resource_ref option \<Rightarrow>
     (iam_error, bool) result" where
  "CheckPermission env db perm user agent resource =
     (case CheckWorkspace env db perm user of
        Inl e \<Rightarrow> Inl e
      | Inr True \<Rightarrow> Inr True
      | Inr False \<Rightarrow>
          (case resource of None \<Rightarrow> Inr False | Some r \<Rightarrow> checkResourcePermission env db perm user agent r))"

definition EffectiveWorkspacePermissions ::
  "iam_env \<Rightarrow> iam_db \<Rightarrow> user_message option \<Rightarrow> (iam_error, string list) result" where
  "EffectiveWorkspacePermissions env db user =
     (case user of
        None \<Rightarrow> Inr (sort (remdups memberBaseline))
      | Some u \<Rightarrow>
          (case policy_read_of (GetWorkspaceIamPolicy (mn_json (iv_members env)) (iv_fails env) (md_policies (ia_members db))) of
             Inl e \<Rightarrow> Inl e
           | Inr policy \<Rightarrow>
               Inr (sort (remdups (memberBaseline @
                      concat (map (rolePermissions env db) (GetUserRolesInIamPolicy env db u policy)))))))"

section \<open>Matching callers\<close>

lemma uniq_loop_set: "set (uniq_loop seen xs) = set xs - set seen"
  by (induction xs arbitrary: seen) auto

lemma Uniq_set [simp]: "set (Uniq xs) = set xs"
  by (simp add: Uniq_def uniq_loop_set)

lemma uniq_loop_distinct: "distinct (uniq_loop seen xs)"
  by (induction xs arbitrary: seen) (auto simp: uniq_loop_set)

lemma Uniq_distinct [simp]: "distinct (Uniq xs)"
  by (simp add: Uniq_def uniq_loop_distinct)

lemma principal_nonempty:
  "fst (callerPrincipalName (Some u) agent) \<noteq> []" "fst (callerPrincipalName None (Some a)) \<noteq> []"
  by (simp_all add: callerPrincipalName_def FormatUserHandle_def UserNamePrefix_def FormatAgentUID_def AgentNamePrefix_def)

lemma user_name_member: "conversationMemberName MemberTypeUser h = FormatUserHandle h"
  by (simp add: conversationMemberName_def member_consts FormatUserHandle_def)

text \<open>The binding matches the user through its own name.\<close>

lemma own_binding_matches:
  "FormatUserHandle (us_Handle u) \<in> set (b_Members b) \<Longrightarrow>
     bindingContainsCaller env db b (FormatUserHandle (us_Handle u)) isUser (Some u)"
  by (auto simp: bindingContainsCaller_def list_ex_iff)

lemma user_bindings:
  "GetCallerIAMPolicyBindings env db (Some u) agent policy =
     filter (\<lambda>b. validateIAMBinding (iv_cel env) (iv_now env) b \<and>
       bindingContainsCaller env db b (FormatUserHandle (us_Handle u)) True (Some u)) policy"
  using principal_nonempty(1) [of u agent] by (simp add: GetCallerIAMPolicyBindings_def callerPrincipalName_def)

text \<open>A policy that names users and agents one by one.\<close>

definition named_only :: "iam_policy \<Rightarrow> bool" where
  "named_only policy \<longleftrightarrow> (\<forall>b \<in> set policy. \<forall>m \<in> set (b_Members b). m \<noteq> AllUsers \<and> \<not> prefix GroupPrefix m)"

lemma named_matches:
  assumes "named_only policy" "b \<in> set policy"
  shows "bindingContainsCaller env db b who isUser user \<longleftrightarrow> who \<in> set (b_Members b)"
  using assms by (auto simp: bindingContainsCaller_def named_only_def list_ex_iff split: option.split)

lemma named_user_bindings:
  assumes "named_only policy"
  shows "GetCallerIAMPolicyBindings env db (Some u) agent policy =
    filter (\<lambda>b. validateIAMBinding (iv_cel env) (iv_now env) b \<and> FormatUserHandle (us_Handle u) \<in> set (b_Members b)) policy"
  unfolding user_bindings by (rule filter_cong) (auto simp: named_matches [OF assms])

lemma grants_iff: "grants perms perm bindings \<longleftrightarrow> (\<exists>b \<in> set bindings. perm \<in> set (perms (b_Role b)))"
  by (auto simp: grants_def list_ex_iff)

section \<open>Reading the policy of a conversation\<close>

lemma conversation_read:
  fixes md :: member_db
  assumes "policies_ok (md_policies md)" "conversation_policy menv convID (ps_rows (md_policies md)) = Some pol"
  shows "policy_read_of (GetConversationIamPolicy menv no_fail convID (md_policies md)) = Inr pol"
proof -
  have "fst (read_policy menv no_fail convID md) = Inr pol" using read_policy_ok [OF assms(1)] assms(2) by simp
  then show ?thesis by (auto simp: read_policy_def policy_read_of_def split: prod.splits sum.splits)
qed

text \<open>The name under which a request addresses a conversation.\<close>

definition names_conversation :: "iam_env \<Rightarrow> string \<Rightarrow> uuid \<Rightarrow> bool" where
  "names_conversation env name convID \<longleftrightarrow>
     (\<exists>s. GetConversationResourceID name = Inr s \<and> uuid_Parse (iv_uuid env) s = Some convID)"

lemma conversation_check:
  assumes "iv_fails env = no_fail" "names_conversation env name convID" "policies_ok (md_policies (ia_members db))"
    "conversation_policy (iv_members env) convID (ps_rows (md_policies (ia_members db))) = Some pol"
  shows "checkConversationPermission env db perm user agent name =
    (if grants (conversationRolePermissions env db) perm (GetCallerIAMPolicyBindings env db user agent pol) then Inr True
     else or_try (follow_read env db perm agent pol)
       (or_try (follow_manage env db perm agent pol) (review_override env db perm user convID)))"
  using assms(2) conversation_read [OF assms(3,4)]
  by (auto simp: checkConversationPermission_def names_conversation_def assms(1))

lemma no_follow_for_users:
  "follow_read env db perm None pol = Inr False" "follow_manage env db perm None pol = Inr False"
  by (simp_all add: follow_read_def follow_manage_def)

lemma review_denied:
  assumes "iv_fails env = no_fail" "\<not> holds_workspace env db ConversationsReviewAgentDM user"
  shows "review_override env db perm user convID = Inr False"
  using assms by (simp add: review_override_def GetConversation_def split: option.split)

text \<open>Without a binding a user without the review permission has no access.\<close>

lemma unbound_user_denied:
  assumes "iv_fails env = no_fail" "names_conversation env name convID" "policies_ok (md_policies (ia_members db))"
    "conversation_policy (iv_members env) convID (ps_rows (md_policies (ia_members db))) = Some pol"
    "GetCallerIAMPolicyBindings env db (Some u) None pol = []" "\<not> holds_workspace env db ConversationsReviewAgentDM (Some u)"
  shows "checkConversationPermission env db perm (Some u) None name = Inr False"
  by (simp add: conversation_check [OF assms(1-4)] assms(5) grants_iff no_follow_for_users or_try_def review_denied [OF assms(1,6)])

lemma check_workspace_only: "CheckPermission env db perm user agent None = CheckWorkspace env db perm user"
  by (auto simp: CheckPermission_def split: sum.split bool.split)

lemma check_conversation_resource:
  "CheckWorkspace env db perm user = Inr False \<Longrightarrow>
     CheckPermission env db perm user agent (Some \<lparr>rr_ResourceType = CONVERSATION, rr_Name = name\<rparr>) =
       checkConversationPermission env db perm user agent name"
  by (simp add: CheckPermission_def checkResourcePermission_def Let_def)

section \<open>After a removal\<close>

text \<open>A user whose removal has succeeded is no member of the policy, so no binding of a policy by name is theirs.\<close>

lemma removed_member_denied:
  assumes "iv_fails env = no_fail" "names_conversation env name convID"
    "conversation_ok (iv_members env) convID pol (ia_members db)" "named_only pol"
    "RemoveConversationMember (iv_members env) fails now convID MemberTypeUser (us_Handle u) (ia_members db) = (None, md')"
    "db' = db\<lparr>ia_members := md'\<rparr>" "\<not> holds_workspace env db' ConversationsReviewAgentDM (Some u)"
  shows "checkConversationPermission env db' perm (Some u) None name = Inr False \<and>
    fst (IsConversationMember (iv_members env) no_fail convID MemberTypeUser (us_Handle u) md') = Inr False"
proof -
  let ?m = "conversationMemberName MemberTypeUser (us_Handle u)"
  from removal_effect [OF assms(3,5)] obtain pol' where p: "conversation_ok (iv_members env) convID pol' md'" "roles_of pol' ?m = {}"
    "\<forall>m r c. m \<noteq> ?m \<longrightarrow> (bound_under pol' m r c \<longleftrightarrow> bound_under pol m r c)"
    and isM: "fst (IsConversationMember (iv_members env) no_fail convID MemberTypeUser (us_Handle u) md') = Inr False" by auto
  have out: "FormatUserHandle (us_Handle u) \<notin> set (b_Members b)" if "b \<in> set pol'" for b
    using p(2) that unfolding roles_of_def holds_role_def user_name_member by blast
  have "m \<noteq> AllUsers \<and> \<not> prefix GroupPrefix m" if "b \<in> set pol'" "m \<in> set (b_Members b)" for b m
  proof -
    have "bound_under pol' m (b_Role b) (b_Condition b)" using that by (auto simp: bound_under_def)
    then have "bound_under pol m (b_Role b) (b_Condition b)" using p(3) out [OF that(1)] that(2) unfolding user_name_member by metis
    with assms(4) show ?thesis unfolding bound_under_def named_only_def by blast
  qed
  then have "GetCallerIAMPolicyBindings env db' (Some u) None pol' = []"
    using named_user_bindings [of pol' env db' u None] out by (auto simp: named_only_def filter_empty_conv)
  moreover have d: "policies_ok (md_policies (ia_members db'))"
    "conversation_policy (iv_members env) convID (ps_rows (md_policies (ia_members db'))) = Some pol'"
    using conversation_okD [OF p(1)] by (simp_all add: assms(6))
  ultimately show ?thesis using unbound_user_denied [OF assms(1,2) _ _ _ assms(7)] isM by blast
qed

section \<open>Examples\<close>

definition sample_cel :: cel_env where
  "sample_cel = \<lparr>cel_Compile = (\<lambda>_. True), cel_Eval = (\<lambda>_ t. Some (CelBool (t < 5)))\<rparr>"

text \<open>The channel of the membership examples, at time 9, after b's membership has expired, with one file.\<close>

definition sample_env :: iam_env where
  "sample_env = \<lparr>iv_members = channel_env, iv_roles = sample_role_json, iv_cel = sample_cel, iv_now = 9, iv_fails = no_fail\<rparr>"

definition sample_iam_db :: "member_db \<Rightarrow> iam_db" where
  "sample_iam_db md =
     \<lparr>ia_members = md, ia_roles = \<lparr>rs_rows = [], rs_cache = Map.empty, rs_enableCache = True\<rparr>, ia_users = ran_store,
      ia_commands = \<lparr>db_commands = [], db_outputs = [], db_events = [], db_usage = [], db_links = [], db_members = [],
        db_agents = Map.empty, db_principals = Map.empty\<rparr>,
      ia_reminders = [], ia_files = [\<lparr>fi_ID = 1, fi_ConversationID = Some 1, fi_UploaderPrincipalID = 10\<rparr>]\<rparr>"

definition bob :: user_message where
  "bob = ran\<lparr>us_ID := 102, us_Handle := ''b''\<rparr>"

lemma sample_names: "names_conversation sample_env ''conversations/c'' 1"
  unfolding names_conversation_def by (intro exI [of _ "''c''"]) code_simp

lemma channel_named: "named_only channel"
  by code_simp

lemma sample_no_fail: "iv_fails sample_env = no_fail" "iv_members sample_env = channel_env"
  by (simp_all add: sample_env_def)

lemma sample_members [simp]: "ia_members (sample_iam_db md) = md"
  by (simp add: sample_iam_db_def)

section \<open>Properties\<close>

text \<open>C17: The permissions reported to a user are exactly the permissions enforced. The list is sorted and without
  repetitions, and a permission is in it if and only if the check without a resource grants it; when the policy cannot be read,
  both fail alike. A caller that is an agent holds the baseline of every principal and nothing more.\<close>

theorem workspace_tier_exact:
  "(case EffectiveWorkspacePermissions env db user of
      Inr ps \<Rightarrow> sorted ps \<and> distinct ps \<and> (\<forall>perm. perm \<in> set ps \<longleftrightarrow> CheckPermission env db perm user agent None = Inr True)
    | Inl e \<Rightarrow> \<forall>perm. CheckPermission env db perm user agent None = (if perm \<in> set memberBaseline then Inr True else Inl e)) \<and>
   CheckPermission env db perm None agent None = Inr (perm \<in> set memberBaseline)"
proof (cases user)
  case None
  then show ?thesis by (auto simp: EffectiveWorkspacePermissions_def check_workspace_only CheckWorkspace_def)
next
  case (Some u)
  then show ?thesis
    by (cases "policy_read_of (GetWorkspaceIamPolicy (mn_json (iv_members env)) (iv_fails env) (md_policies (ia_members db)))")
      (auto simp: EffectiveWorkspacePermissions_def check_workspace_only CheckWorkspace_def list_ex_iff split: if_splits)
qed

text \<open>A workspace administrator may do everything. A user that the workspace policy binds to the administrator role under a condition
  that holds passes the check of every catalog permission on every resource, without a look at the resource.\<close>

theorem admin_holds_all:
  assumes "iv_fails env = no_fail" "policies_ok (md_policies (ia_members db))" "one_workspace (md_policies (ia_members db))"
    "policy_of (mn_json (iv_members env)) WORKSPACE [] (md_policies (ia_members db)) = Inr m"
    "bound_under (im_Policy m) (FormatUserHandle (us_Handle u)) (FormatRole WorkspaceAdminRole) c"
    "EvalBindingCondition (iv_cel env) (GetExpression c) (iv_now env) = Some True" "perm \<in> set AllPermissions"
  shows "CheckPermission env db perm (Some u) agent resource = Inr True"
proof -
  let ?ps = "md_policies (ia_members db)" and ?r = "FormatRole WorkspaceAdminRole"
  have read: "policy_read_of (GetWorkspaceIamPolicy (mn_json (iv_members env)) no_fail ?ps) = Inr (im_Policy m)"
    using getIamPolicy_reads [OF assms(2), of "[]" WORKSPACE "mn_json (iv_members env)"] assms(3,4)
    by (simp add: policy_read_of_def GetWorkspaceIamPolicy_def ptr_def)
  obtain b where b: "b \<in> set (im_Policy m)" "b_Role b = ?r" "b_Condition b = c" "FormatUserHandle (us_Handle u) \<in> set (b_Members b)"
    using assms(5) by (auto simp: bound_under_def)
  then have "b \<in> set (GetUserIAMPolicyBindings env db u (im_Policy m))"
    using assms(6) own_binding_matches [OF b(4), of env db True]
    by (simp add: GetUserIAMPolicyBindings_def user_bindings validateIAMBinding_def)
  then have role: "?r \<in> set (GetUserRolesInIamPolicy env db u (im_Policy m))"
    using b(2) unfolding GetUserRolesInIamPolicy_def Uniq_set set_map by (metis image_eqI)
  have perms: "rolePermissions env db ?r = AllPermissions"
    by (simp add: rolePermissions_def FormatRole_def GetRoleSnapshot_def GetPredefinedRole_def PredefinedRoles_def role_ids)
  have "CheckWorkspace env db perm (Some u) = Inr True"
    using read assms(7) bexI [of "\<lambda>role. perm \<in> set (rolePermissions env db role)", OF _ role] perms
    by (simp add: CheckWorkspace_def assms(1) list_ex_iff)
  then show ?thesis by (simp add: CheckPermission_def)
qed

definition admin_policy :: iam_policy where
  "admin_policy = [\<lparr>b_Role = ''roles/workspaceAdmin'', b_Members = [''users/b''], b_Condition = None\<rparr>]"

definition admin_env :: iam_env where
  "admin_env = sample_env\<lparr>iv_members := channel_env\<lparr>mn_json := table_codec [(admin_policy, ''0'')]\<rparr>\<rparr>"

definition admin_db :: member_db where
  "admin_db = channel_db\<lparr>md_policies := \<lparr>ps_rows = [iam_row WORKSPACE [] ''0''], ps_cache = Map.empty, ps_enableCache = True\<rparr>\<rparr>"

theorem admin_holds_all_witness:
  "CheckPermission admin_env (sample_iam_db admin_db) SettingsUpdate (Some bob) None None = Inr True"
proof -
  have "iv_fails admin_env = no_fail" by (simp add: admin_env_def sample_env_def)
  moreover have "policies_ok (md_policies admin_db)" "one_workspace (md_policies admin_db)"
    by (simp_all add: admin_db_def policies_ok_def one_workspace_def iam_row_def)
  moreover have "policy_of (mn_json (iv_members admin_env)) WORKSPACE [] (md_policies admin_db) =
      Inr \<lparr>im_Policy = admin_policy, im_Etag = generateEtag 0\<rparr>"
    by (simp add: policy_of_def decode_policy_def lookup_policy_def admin_db_def admin_env_def table_codec_def iam_row_def policy_key_def)
  moreover have "bound_under admin_policy (FormatUserHandle (us_Handle bob)) (FormatRole WorkspaceAdminRole) None"
    by (simp add: bound_under_def admin_policy_def FormatUserHandle_def UserNamePrefix_def bob_def FormatRole_def RolePrefix_def role_ids)
  moreover have "EvalBindingCondition (iv_cel admin_env) (GetExpression None) (iv_now admin_env) = Some True"
    by (simp add: EvalBindingCondition_def doEvalBindingCondition_def GetExpression_def)
  moreover have "SettingsUpdate \<in> set AllPermissions" by (simp add: AllPermissions_def allPermissions_def)
  ultimately show ?thesis
    using admin_holds_all [of admin_env "sample_iam_db admin_db" _ bob None SettingsUpdate None None] by fastforce
qed

text \<open>An agent follows its owner in reading and in managing members, and in nothing else. For every other permission the
  outcome of a check, on any resource, does not depend on who the owner is or on the agent's two flags; reading does not depend
  on the member flag, nor managing members on the read flag.\<close>

theorem follow_is_bounded:
  "let a' = a\<lparr>ag_OwnerID := owner, ag_FollowOwnerPermissions := f, ag_CanManageChannelMembers := c\<rparr> in
   (perm \<noteq> ConversationsRead \<and> perm \<noteq> ConversationsManageMembers \<longrightarrow>
      CheckPermission env db perm None (Some a') resource = CheckPermission env db perm None (Some a) resource) \<and>
   CheckPermission env db ConversationsRead None (Some (a\<lparr>ag_CanManageChannelMembers := c\<rparr>)) resource =
     CheckPermission env db ConversationsRead None (Some a) resource \<and>
   CheckPermission env db ConversationsManageMembers None (Some (a\<lparr>ag_FollowOwnerPermissions := f\<rparr>)) resource =
     CheckPermission env db ConversationsManageMembers None (Some a) resource"
proof -
  define same where "same p x \<longleftrightarrow> (ag_ID x = ag_ID a \<and> ag_ResourceID x = ag_ResourceID a \<and>
      (\<forall>pol. follow_read env db p (Some x) pol = follow_read env db p (Some a) pol \<and>
             follow_manage env db p (Some x) pol = follow_manage env db p (Some a) pol))" for p x
  have eq: "CheckPermission env db p None (Some x) resource = CheckPermission env db p None (Some a) resource" if "same p x" for p x
  proof -
    have n: "callerPrincipalName None (Some x) = callerPrincipalName None (Some a)" "callerMemberInfo None (Some x) = callerMemberInfo None (Some a)"
      using that by (simp_all add: same_def callerPrincipalName_def callerMemberInfo_def)
    then have b: "GetCallerIAMPolicyBindings env db None (Some x) = GetCallerIAMPolicyBindings env db None (Some a)"
      by (simp add: GetCallerIAMPolicyBindings_def fun_eq_iff)
    have i: "ag_ID x = ag_ID a" using that by (simp add: same_def)
    have o: "checkCommandPermission env db None (Some x) = checkCommandPermission env db None (Some a)"
      "checkReminderPermission env db None (Some x) = checkReminderPermission env db None (Some a)"
      "checkFilePermission env db None (Some x) = checkFilePermission env db None (Some a)"
      unfolding fun_eq_iff checkCommandPermission_def checkReminderPermission_def checkFilePermission_def option.case i n(2) by auto
    have c: "checkConversationPermission env db p None (Some x) = checkConversationPermission env db p None (Some a)"
    proof -
      have fl: "follow_read env db p (Some x) = follow_read env db p (Some a)" "follow_manage env db p (Some x) = follow_manage env db p (Some a)"
        using that by (auto simp: same_def)
      show ?thesis by (rule ext) (unfold checkConversationPermission_def b fl, rule refl)
    qed
    show ?thesis unfolding CheckPermission_def checkResourcePermission_def check_bindings_def b o c ..
  qed
  have owner: "owner_grants env db p (x\<lparr>ag_CanManageChannelMembers := c\<rparr>) = owner_grants env db p x"
    "owner_grants env db p (x\<lparr>ag_FollowOwnerPermissions := f\<rparr>) = owner_grants env db p x" for p x
    by (simp_all add: owner_grants_def fun_eq_iff)
  have "perm \<noteq> ConversationsRead \<and> perm \<noteq> ConversationsManageMembers \<longrightarrow>
      same perm (a\<lparr>ag_OwnerID := owner, ag_FollowOwnerPermissions := f, ag_CanManageChannelMembers := c\<rparr>)"
    by (simp add: same_def follow_read_def follow_manage_def)
  moreover have "same ConversationsRead (a\<lparr>ag_CanManageChannelMembers := c\<rparr>)"
    "same ConversationsManageMembers (a\<lparr>ag_FollowOwnerPermissions := f\<rparr>)"
    by (simp_all add: same_def follow_read_def follow_manage_def owner)
  ultimately show ?thesis unfolding Let_def using eq by blast
qed

theorem follow_is_bounded_witness:
  "\<forall>a owner. CheckPermission sample_env (sample_iam_db channel_db) ConversationsSend None (Some (a\<lparr>ag_OwnerID := owner,
       ag_FollowOwnerPermissions := True, ag_CanManageChannelMembers := True\<rparr>)) None =
     CheckPermission sample_env (sample_iam_db channel_db) ConversationsSend None (Some a) None"
  using follow_is_bounded [where perm = ConversationsSend and env = sample_env and db = "sample_iam_db channel_db" and f = True and c = True
      and resource = None] by (simp add: Let_def)

text \<open>C36: A permission withdrawn from a role may go on being granted. If a check finds the role in no cache and reads its row, another
  request withdraws permissions from the role meanwhile, and the check fills the cache after that, then the row has the new permissions, a strong read
  returns them, and yet authorization goes on using the old ones, for as long as the entry is neither dropped nor replaced.\<close>

theorem withdrawn_permission_granted:
  assumes "rs_enableCache rs" "rs_cache rs rid = None" "\<not> IsPredefinedRole rid" "roles_ok (iv_roles env) rs" "role_codec_ok (iv_roles env)"
    "role_of (iv_roles env) rid rs = Some old" "ur_ResourceID patch = rid" "ur_Permissions patch = Some ps"
    "UpdateRole (iv_roles env) no_fail id patch rs = (Inr (Some new), rs1)"
    "GetRoleSnapshot (iv_roles env) no_fail (\<lambda>r. snd (UpdateRole (iv_roles env) no_fail id patch r)) id rid rs = (seen, rs')"
  shows "seen = Inr (Some old) \<and> role_of (iv_roles env) rid rs' = Some new \<and> rm_Permissions new = ps \<and>
    fst (GetRole (iv_roles env) no_fail id id (Some rid) rs') = Inr (Some new) \<and>
    (\<forall>db. rs_enableCache (ia_roles db) \<longrightarrow> rs_cache (ia_roles db) rid = rs_cache rs' rid \<longrightarrow>
       rolePermissions env db (FormatRole rid) = rm_Permissions old)"
proof -
  have p: "GetPredefinedRole rid = None" using assms(3) by (simp add: IsPredefinedRole_def)
  have "distinct (map ro_ResourceID (rs_rows rs))" using assms(4) by (simp add: roles_ok_def)
  note fill = stale_fill [OF assms(2,3) this assms(6,10), unfolded assms(9) snd_conv]
  note upd = UpdateRole_ok [OF assms(4,9)]
  have d: "distinct (map ro_ResourceID (rs_rows rs'))" using upd by (simp add: fill(2) roles_ok_def)
  have new: "role_of (iv_roles env) rid rs' = Some new" "rm_Permissions new = ps"
    using upd assms(5,7,8) by (auto simp: role_of_def fill(2))
  have "fst (ListRoles (iv_roles env) no_fail id (Some rid) rs') = Inr [new]"
    using ListRoles_one [OF d p] new(1) by (auto simp: role_of_def split: option.splits bind_splits)
  then have "fst (GetRole (iv_roles env) no_fail id id (Some rid) rs') = Inr (Some new)" by (auto simp: GetRole_def split: prod.splits)
  moreover have "rolePermissions env db (FormatRole rid) = rm_Permissions old"
    if "rs_enableCache (ia_roles db)" "rs_cache (ia_roles db) rid = rs_cache rs' rid" for db
    using that p fill(4) by (simp add: rolePermissions_def GetRoleSnapshot_def FormatRole_def trim_prefix_def)
  ultimately show ?thesis using fill(1) new by blast
qed

definition two_lists :: role_json where
  "two_lists = \<lparr>rj_marshal = [[] \<mapsto> ''{}'', [ConversationsSend] \<mapsto> ''s''], rj_unmarshal = [''{}'' \<mapsto> [], ''s'' \<mapsto> [ConversationsSend]]\<rparr>"

theorem withdrawn_permission_granted_witness:
  "\<exists>rs'. role_of two_lists ''x'' rs' = Some sample_role \<and> rm_Permissions sample_role = [] \<and>
     rolePermissions (sample_env\<lparr>iv_roles := two_lists\<rparr>) ((sample_iam_db channel_db)\<lparr>ia_roles := rs'\<rparr>) ''roles/x'' = [ConversationsSend]"
proof -
  let ?env = "sample_env\<lparr>iv_roles := two_lists\<rparr>"
  define rs where "rs = \<lparr>rs_rows = [\<lparr>ro_ResourceID = ''x'', ro_Name = [], ro_Description = [], ro_Permissions = ''s''\<rparr>],
    rs_cache = Map.empty, rs_enableCache = True\<rparr>"
  define patch where "patch = \<lparr>ur_ResourceID = ''x'', ur_Name = None, ur_Description = None, ur_Permissions = Some []\<rparr>"
  have a: "rs_enableCache rs" "rs_cache rs ''x'' = None" "\<not> IsPredefinedRole ''x''" "roles_ok two_lists rs" "role_codec_ok two_lists"
    "ur_ResourceID patch = ''x''" "ur_Permissions patch = Some []"
    by (auto simp: rs_def patch_def roles_ok_def role_codec_ok_def two_lists_def IsPredefinedRole_def GetPredefinedRole_def PredefinedRoles_def role_ids
        split: if_splits)
  have o: "role_of two_lists ''x'' rs = Some (sample_role\<lparr>rm_Permissions := [ConversationsSend]\<rparr>)" unfolding rs_def by code_simp
  have u: "fst (UpdateRole two_lists no_fail id patch rs) = Inr (Some sample_role)" unfolding rs_def patch_def by code_simp
  obtain rs1 where u: "UpdateRole two_lists no_fail id patch rs = (Inr (Some sample_role), rs1)" using u by (metis prod.collapse)
  obtain seen rs' where g: "GetRoleSnapshot two_lists no_fail (\<lambda>r. snd (UpdateRole two_lists no_fail id patch r)) id ''x'' rs = (seen, rs')" by fastforce
  have e: "rs_enableCache (snd (GetRoleSnapshot two_lists no_fail (\<lambda>r. snd (UpdateRole two_lists no_fail id patch r)) id ''x'' rs))"
    unfolding rs_def patch_def by code_simp
  have n: "FormatRole ''x'' = ''roles/x''" by (simp add: FormatRole_def RolePrefix_def)
  have v: "iv_roles ?env = two_lists" by simp
  note w = withdrawn_permission_granted [where env = ?env and rid = "''x''" and rs = rs, unfolded v, OF a(1-5) o a(6,7) u g]
  have "rolePermissions ?env ((sample_iam_db channel_db)\<lparr>ia_roles := rs'\<rparr>) (FormatRole ''x'') = [ConversationsSend]"
    using w e g by simp
  with w n show ?thesis by (intro exI [of _ rs']) (simp add: sample_role_def)
qed

text \<open>A removed member is locked out. Once the removal of a user from a conversation has succeeded, and the policy binds members by
  name only, every conversation permission the user does not hold workspace-wide is denied, and the files of the conversation are
  denied whatever the permission.\<close>

theorem removed_member_locked_out:
  assumes "iv_fails env = no_fail" "names_conversation env name convID"
    "conversation_ok (iv_members env) convID pol (ia_members db)" "named_only pol"
    "RemoveConversationMember (iv_members env) fails now convID MemberTypeUser (us_Handle u) (ia_members db) = (None, md')"
    "db' = db\<lparr>ia_members := md'\<rparr>" "CheckWorkspace env db' perm (Some u) = Inr False"
    "\<not> holds_workspace env db' ConversationsReviewAgentDM (Some u)"
  shows "CheckPermission env db' perm (Some u) None (Some \<lparr>rr_ResourceType = CONVERSATION, rr_Name = name\<rparr>) = Inr False \<and>
    (\<forall>f file. parseFileResourceID env file = Some f \<longrightarrow>
       (\<exists>row. find (\<lambda>r. fi_ID r = f) (ia_files db) = Some row \<and> fi_ConversationID row = Some convID) \<longrightarrow>
       checkFilePermission env db' (Some u) None file = Inr False)"
  using removed_member_denied [OF assms(1-6,8), of perm] check_conversation_resource [OF assms(7)]
  by (auto simp: checkFilePermission_def GetFile_def assms(1,6) callerMemberInfo_def lift_policy_def)

theorem removed_member_locked_out_witness:
  "\<exists>md'. RemoveConversationMember channel_env no_fail 7 1 MemberTypeUser ''b'' channel_db = (None, md') \<and>
     CheckPermission sample_env (sample_iam_db md') ConversationsRead (Some bob) None
       (Some \<lparr>rr_ResourceType = CONVERSATION, rr_Name = ''conversations/c''\<rparr>) = Inr False \<and>
     checkFilePermission sample_env (sample_iam_db md') (Some bob) None ''files/f'' = Inr False"
proof -
  define md' where "md' = snd (RemoveConversationMember channel_env no_fail 7 1 MemberTypeUser ''b'' channel_db)"
  have r: "RemoveConversationMember channel_env no_fail 7 1 MemberTypeUser (us_Handle bob) channel_db = (None, md')"
    using channel_ops_succeed(1) by (simp add: md'_def bob_def prod_eq_iff)
  have w: "CheckWorkspace sample_env (sample_iam_db md') ConversationsRead (Some bob) = Inr False"
    "\<not> holds_workspace sample_env (sample_iam_db md') ConversationsReviewAgentDM (Some bob)" unfolding md'_def by code_simp+
  have f: "parseFileResourceID sample_env ''files/f'' = Some 1" by code_simp
  have "sample_iam_db md' = (sample_iam_db channel_db)\<lparr>ia_members := md'\<rparr>" by (simp add: sample_iam_db_def)
  from removed_member_locked_out [OF sample_no_fail(1) sample_names _ channel_named _ this w, unfolded sample_no_fail(2) sample_members,
      OF channel_ok r] f r
  show ?thesis by (simp add: sample_iam_db_def bob_def)
qed

text \<open>A temporary membership ends for conversations but not for files. While the condition of a member's only binding holds, the member passes
  the check of each member permission; once it evaluates to false these permissions are denied, yet every file of the
  conversation stays accessible, because that check looks at the members of the policy and not at the conditions.\<close>

theorem expiry_ends_reading_not_files:
  assumes "iv_fails env = no_fail" "names_conversation env name convID"
    "conversation_ok (iv_members env) convID pol (ia_members db)" "named_only pol" "b \<in> set pol"
    "FormatUserHandle (us_Handle u) \<in> set (b_Members b)" "b_Role b = FormatRole ConversationMemberRole"
    "\<forall>b' \<in> set pol. FormatUserHandle (us_Handle u) \<in> set (b_Members b') \<longrightarrow> b' = b"
    "perm \<in> set chatMemberPermissions" "CheckWorkspace env db perm (Some u) = Inr False"
    "\<not> holds_workspace env db ConversationsReviewAgentDM (Some u)"
    "parseFileResourceID env file = Some f" "find (\<lambda>r. fi_ID r = f) (ia_files db) = Some row" "fi_ConversationID row = Some convID"
  shows "CheckPermission env db perm (Some u) None (Some \<lparr>rr_ResourceType = CONVERSATION, rr_Name = name\<rparr>) =
      Inr (validateIAMBinding (iv_cel env) (iv_now env) b) \<and>
    checkFilePermission env db (Some u) None file = Inr True"
proof -
  let ?valid = "validateIAMBinding (iv_cel env) (iv_now env) b"
  note d = conversation_okD [OF assms(3)]
  have role: "conversationRolePermissions env db (b_Role b) = chatMemberPermissions"
    by (simp add: assms(7) conversationRolePermissions_def FormatRole_def ConversationOwnerRole_def ConversationAdminRole_def ConversationMemberRole_def)
  have bs: "set (GetCallerIAMPolicyBindings env db (Some u) None pol) = (if ?valid then {b} else {})"
  proof -
    have "{b' \<in> set pol. validateIAMBinding (iv_cel env) (iv_now env) b' \<and> FormatUserHandle (us_Handle u) \<in> set (b_Members b')} =
        {b'. b' = b \<and> validateIAMBinding (iv_cel env) (iv_now env) b'}"
      using assms(5,6,8) by blast
    then show ?thesis unfolding named_user_bindings [OF assms(4)] set_filter by auto
  qed
  have "grants (conversationRolePermissions env db) perm (GetCallerIAMPolicyBindings env db (Some u) None pol) = ?valid"
    using role assms(9) unfolding grants_iff bs by simp
  then have 1: "checkConversationPermission env db perm (Some u) None name = Inr ?valid"
    by (simp add: conversation_check [OF assms(1,2) d(1,6)] no_follow_for_users or_try_def review_denied [OF assms(1,11)])
  have "roles_of pol (conversationMemberName MemberTypeUser (us_Handle u)) \<noteq> {}"
    using assms(5,6) unfolding roles_of_def holds_role_def user_name_member by blast
  then have "fst (IsConversationMember (iv_members env) no_fail convID MemberTypeUser (us_Handle u) (ia_members db)) = Inr True"
    using IsConversationMember_ok [OF d(1,6)] by simp
  then have "checkFilePermission env db (Some u) None file = Inr True"
    using assms(12-14) by (simp add: checkFilePermission_def GetFile_def assms(1) callerMemberInfo_def lift_policy_def)
  with 1 show ?thesis using check_conversation_resource [OF assms(10)] by simp
qed

theorem expiry_ends_reading_not_files_witness:
  "CheckPermission sample_env (sample_iam_db channel_db) ConversationsRead (Some bob) None
     (Some \<lparr>rr_ResourceType = CONVERSATION, rr_Name = ''conversations/c''\<rparr>) = Inr False \<and>
   checkFilePermission sample_env (sample_iam_db channel_db) (Some bob) None ''files/f'' = Inr True"
proof -
  let ?b = "member_binding [''users/b''] expiry"
  have w: "CheckWorkspace sample_env (sample_iam_db channel_db) ConversationsRead (Some bob) = Inr False"
    "\<not> holds_workspace sample_env (sample_iam_db channel_db) ConversationsReviewAgentDM (Some bob)" by code_simp+
  have f: "parseFileResourceID sample_env ''files/f'' = Some 1" by code_simp
  have v: "\<not> validateIAMBinding (iv_cel sample_env) (iv_now sample_env) ?b"
    by (simp add: validateIAMBinding_def EvalBindingCondition_def doEvalBindingCondition_def GetExpression_def member_binding_def expiry_def
        memberExpirationCondition_def sample_env_def sample_cel_def)
  have h: "FormatUserHandle (us_Handle bob) = ''users/b''" by (simp add: bob_def FormatUserHandle_def UserNamePrefix_def)
  have b: "?b \<in> set channel" "FormatUserHandle (us_Handle bob) \<in> set (b_Members ?b)" "b_Role ?b = FormatRole ConversationMemberRole"
    "\<forall>b' \<in> set channel. FormatUserHandle (us_Handle bob) \<in> set (b_Members b') \<longrightarrow> b' = ?b"
    unfolding h by (simp_all add: channel_def member_binding_def owner_binding_def FormatRole_def RolePrefix_def ConversationMemberRole_def)
  have p: "ConversationsRead \<in> set chatMemberPermissions" by (simp add: chatMemberPermissions_def)
  have g: "find (\<lambda>r. fi_ID r = 1) (ia_files (sample_iam_db channel_db)) = Some \<lparr>fi_ID = 1, fi_ConversationID = Some 1, fi_UploaderPrincipalID = 10\<rparr>"
    by (simp add: sample_iam_db_def)
  from expiry_ends_reading_not_files [OF sample_no_fail(1) sample_names _ channel_named b p w f g, unfolded sample_no_fail(2) sample_members,
      OF channel_ok] v show ?thesis by simp
qed

text \<open>Malformed names grant nothing. A conversation, command, reminder or file name that does not parse leaves the caller with exactly what
  the workspace grants, and never turns into an error of its own.\<close>

theorem malformed_names_grant_nothing:
  assumes "rt = CONVERSATION \<and> (\<forall>convID. \<not> names_conversation env name convID) \<or>
    rt = REMINDER \<and> parseReminderResourceID env name = None \<or> rt = FILE \<and> parseFileResourceID env name = None \<or>
    rt = COMMAND \<and> length (split_on CHR ''/'' name) \<noteq> 4"
  shows "CheckPermission env db perm user agent (Some \<lparr>rr_ResourceType = rt, rr_Name = name\<rparr>) =
    CheckPermission env db perm user agent None"
proof -
  have "checkConversationPermission env db perm user agent name = Inr False" if "\<forall>convID. \<not> names_conversation env name convID"
    using that by (auto simp: checkConversationPermission_def names_conversation_def split: sum.split option.split)
  moreover have "checkCommandPermission env db user agent name = Inr False" if "length (split_on CHR ''/'' name) \<noteq> 4"
  proof -
    have "GetCommandByName (iv_uuid env) (iv_fails env) name (command_view db) = Inl InvalidName"
      using that by (auto simp: GetCommandByName_def split: list.split)
    then show ?thesis by (simp add: checkCommandPermission_def)
  qed
  ultimately have "checkResourcePermission env db perm user agent \<lparr>rr_ResourceType = rt, rr_Name = name\<rparr> = Inr False"
    using assms by (auto simp: checkResourcePermission_def checkReminderPermission_def checkFilePermission_def)
  then show ?thesis by (auto simp: CheckPermission_def split: sum.split bool.split)
qed

theorem malformed_names_grant_nothing_witness:
  "CheckPermission sample_env (sample_iam_db channel_db) CommandsGet (Some bob) None
     (Some \<lparr>rr_ResourceType = COMMAND, rr_Name = ''agents/x''\<rparr>) =
   CheckPermission sample_env (sample_iam_db channel_db) CommandsGet (Some bob) None None"
proof -
  have "length (split_on CHR ''/'' ''agents/x'') \<noteq> 4" by code_simp
  then show ?thesis using malformed_names_grant_nothing [of COMMAND sample_env "''agents/x''" "sample_iam_db channel_db"] by simp
qed

end
