(* ===== verification/IAM_Gate.thy ===== *)
theory IAM_Gate
  imports IAM
begin

text \<open>
  The gate in front of every handler (\<open>backend/manager/api/v1/iam.go\<close>) and the resolution of the resources a request
  names (\<open>backend/manager/api/v1/resource_resolver.go\<close>), with the authorization context of
  \<open>backend/common/context.go\<close>.

  A request message is the list of its populated fields in the order the reflection library visits them, each with the type of its
  resource annotation. A nil message, or one that is no protocol buffer, is \<open>None\<close>. The checker the gate calls is an
  argument, as it is an interface in the code; the engine of \<open>IAM\<close> is its instance.

  The lemmas show which requests pass, on a checker that grants a resource whenever it grants the workspace.
\<close>

section \<open>Requests\<close>

record inner_message =
  in_name :: "string option"

datatype field_value =
    StringValue string
  | StringList "string list"
  | MessageValue inner_message
  | MessageList "inner_message list"
  | OtherValue

record pfield =
  fd_Reference :: "string option"
  fd_Value :: field_value

type_synonym request = "pfield list option"

definition parentResourceName :: "string \<Rightarrow> string \<Rightarrow> string" where
  "parentResourceName name pre =
     (let rest = (case cut_prefix name pre of None \<Rightarrow> name | Some r \<Rightarrow> r) in
      pre @ takeWhile (\<lambda>c. c \<noteq> CHR ''/'') rest)"

definition classifyResource :: "string \<Rightarrow> resource_ref option" where
  "classifyResource name =
     (if prefix ConversationNamePrefix name then
        Some \<lparr>rr_ResourceType = CONVERSATION, rr_Name = parentResourceName name ConversationNamePrefix\<rparr>
      else if prefix AgentNamePrefix name then
        (if sublist ''/commands/'' name then Some \<lparr>rr_ResourceType = COMMAND, rr_Name = name\<rparr>
         else Some \<lparr>rr_ResourceType = AGENT, rr_Name = parentResourceName name AgentNamePrefix\<rparr>)
      else if prefix ''reminders/'' name then Some \<lparr>rr_ResourceType = REMINDER, rr_Name = name\<rparr>
      else if prefix ''files/'' name then Some \<lparr>rr_ResourceType = FILE, rr_Name = name\<rparr>
      else if prefix ProvisionerNamePrefix name then Some \<lparr>rr_ResourceType = PROVISIONER, rr_Name = name\<rparr>
      else None)"

definition classifyFileID :: "string \<Rightarrow> resource_ref option" where
  "classifyFileID fileID =
     (if fileID = [] then None else Some \<lparr>rr_ResourceType = FILE, rr_Name = ''files/'' @ fileID\<rparr>)"

definition resourceReferenceType :: "pfield \<Rightarrow> string" where
  "resourceReferenceType fd = (case fd_Reference fd of None \<Rightarrow> [] | Some t \<Rightarrow> t)"

definition refFromMessageName :: "inner_message \<Rightarrow> resource_ref option" where
  "refFromMessageName m = (case in_name m of None \<Rightarrow> None | Some name \<Rightarrow> classifyResource name)"

definition append_ref :: "'a option \<Rightarrow> 'a list" where
  "append_ref r = (case r of None \<Rightarrow> [] | Some ref \<Rightarrow> [ref])"

definition field_refs :: "pfield \<Rightarrow> resource_ref list" where
  "field_refs fd =
     (let refType = resourceReferenceType fd in
      if refType = [] then []
      else
        (case fd_Value fd of
           StringValue v \<Rightarrow> append_ref (if refType = ''laelia/File'' then classifyFileID v else classifyResource v)
         | MessageValue m \<Rightarrow> append_ref (refFromMessageName m)
         | MessageList ms \<Rightarrow> concat (map (\<lambda>m. append_ref (refFromMessageName m)) ms)
         | StringList _ \<Rightarrow> []
         | OtherValue \<Rightarrow> []))"

definition collectResourceRefs :: "pfield list \<Rightarrow> resource_ref list" where
  "collectResourceRefs fs = concat (map field_refs fs)"

definition ref_key :: "resource_ref \<Rightarrow> string \<times> string" where
  "ref_key r = (resource_string (rr_ResourceType r), rr_Name r)"

fun dedupe_loop :: "(string \<times> string) list \<Rightarrow> resource_ref list \<Rightarrow> resource_ref list" where
  "dedupe_loop seen [] = []"
| "dedupe_loop seen (r # rs) =
     (if ref_key r \<in> set seen then dedupe_loop seen rs else r # dedupe_loop (ref_key r # seen) rs)"

definition dedupeRefs :: "resource_ref list \<Rightarrow> resource_ref list" where
  "dedupeRefs refs = dedupe_loop [] refs"

definition resolveResources :: "request \<Rightarrow> resource_ref list" where
  "resolveResources msg = (case msg of None \<Rightarrow> [] | Some fs \<Rightarrow> dedupeRefs (collectResourceRefs fs))"

section \<open>The gate\<close>

datatype auth_method = AuthMethodUnspecified | AuthMethodIAM | AuthMethodCustom

record auth_resource =
  ar_Type :: string
  ar_Name :: string
  ar_ProjectID :: string
  ar_Workspace :: bool

record auth_context =
  ac_Audit :: bool
  ac_AllowWithoutCredential :: bool
  ac_Permission :: string
  ac_AuthMethod :: auth_method
  ac_Resources :: "auth_resource list"

record request_context =
  cx_Auth :: "auth_context option"
  cx_User :: "user_message option"
  cx_Agent :: "agent_message option"

datatype connect_error =
    Unauthenticated
  | CheckFailed iam_error
  | PermissionDenied (denied_method: string) (denied_permission: string) (denied_resources: "string list")
  | ConnectionError

type_synonym checker =
  "string \<Rightarrow> user_message option \<Rightarrow> agent_message option \<Rightarrow> resource_ref option \<Rightarrow> (iam_error, bool) result"

fun check_refs ::
  "(resource_ref option \<Rightarrow> (iam_error, bool) result) \<Rightarrow> bool \<Rightarrow> string list \<Rightarrow> resource_ref option list \<Rightarrow>
     (iam_error, bool \<times> string list) result" where
  "check_refs ck allOK denied [] = Inr (allOK, denied)"
| "check_refs ck allOK denied (ref # refs) =
     (case ck ref of
        Inl e \<Rightarrow> Inl e
      | Inr True \<Rightarrow> check_refs ck allOK denied refs
      | Inr False \<Rightarrow>
          check_refs ck False (denied @ [case ref of None \<Rightarrow> ''workspaces/-'' | Some r \<Rightarrow> rr_Name r]) refs)"

definition gated :: "auth_context \<Rightarrow> bool" where
  "gated ac \<longleftrightarrow> \<not> ac_AllowWithoutCredential ac \<and> ac_AuthMethod ac = AuthMethodIAM \<and> ac_Permission ac \<noteq> []"

definition authorize ::
  "checker \<Rightarrow> request_context \<Rightarrow> request \<Rightarrow> string \<Rightarrow> connect_error option \<times> request_context" where
  "authorize ck ctx msg fullMethod =
     (case cx_Auth ctx of
        None \<Rightarrow> (None, ctx)
      | Some ac \<Rightarrow>
          if ac_AllowWithoutCredential ac then (None, ctx)
          else if ac_AuthMethod ac \<noteq> AuthMethodIAM \<or> ac_Permission ac = [] then (None, ctx)
          else if cx_User ctx = None \<and> cx_Agent ctx = None then (Some Unauthenticated, ctx)
          else
            (let perm = ac_Permission ac;
                 refs = (if IsResourceScoped perm then resolveResources msg else []);
                 ctx' = ctx\<lparr>cx_Auth := Some (ac\<lparr>ac_Resources :=
                   map (\<lambda>r. \<lparr>ar_Type = [], ar_Name = rr_Name r, ar_ProjectID = [], ar_Workspace = False\<rparr>) refs\<rparr>)\<rparr> in
             case check_refs (ck perm (cx_User ctx) (cx_Agent ctx)) True [] (if refs = [] then [None] else map Some refs) of
               Inl e \<Rightarrow> (Some (CheckFailed e), ctx')
             | Inr (allOK, denied) \<Rightarrow>
                 (if allOK then None else Some (PermissionDenied fullMethod perm denied), ctx')))"

definition WrapUnary ::
  "checker \<Rightarrow> (request_context \<Rightarrow> request \<Rightarrow> 's \<Rightarrow> (connect_error, 'r) result \<times> 's) \<Rightarrow>
     request_context \<Rightarrow> request \<Rightarrow> string \<Rightarrow> 's \<Rightarrow> (connect_error, 'r) result \<times> 's" where
  "WrapUnary ck handler ctx req procedure s =
     (case authorize ck ctx req procedure of
        (Some e, _) \<Rightarrow> (Inl e, s)
      | (None, ctx') \<Rightarrow> handler ctx' req s)"

text \<open>A stream is received through the connection below; the argument \<open>msg\<close> is the message the caller asks to be filled.\<close>

definition Receive ::
  "checker \<Rightarrow> ('s \<Rightarrow> (connect_error, pfield list) result \<times> 's) \<Rightarrow> string \<Rightarrow> request_context \<Rightarrow> request \<Rightarrow> 's \<Rightarrow>
     (connect_error, pfield list) result \<times> request_context \<times> 's" where
  "Receive ck recv fullMethod ctx msg s =
     (case authorize ck ctx msg fullMethod of
        (Some e, ctx') \<Rightarrow> (Inl e, ctx', s)
      | (None, ctx') \<Rightarrow> (case recv s of (r, s') \<Rightarrow> (r, ctx', s')))"

definition WrapStreamingHandler ::
  "checker \<Rightarrow> ('s \<Rightarrow> (connect_error, pfield list) result \<times> 's) \<Rightarrow>
     (request_context \<Rightarrow> (request_context \<Rightarrow> request \<Rightarrow> 's \<Rightarrow> (connect_error, pfield list) result \<times> request_context \<times> 's) \<Rightarrow>
        's \<Rightarrow> connect_error option \<times> 's) \<Rightarrow>
     request_context \<Rightarrow> string \<Rightarrow> 's \<Rightarrow> connect_error option \<times> 's" where
  "WrapStreamingHandler ck recv handler ctx procedure s =
     (let skipUpfront = (case cx_Auth ctx of
            None \<Rightarrow> False
          | Some ac \<Rightarrow> ac_AuthMethod ac = AuthMethodIAM \<and> ac_Permission ac \<noteq> [] \<and> IsResourceScoped (ac_Permission ac)) in
      if skipUpfront then handler ctx (Receive ck recv procedure) s
      else
        (case authorize ck ctx None procedure of
           (Some e, _) \<Rightarrow> (Some e, s)
         | (None, ctx') \<Rightarrow> handler ctx' (Receive ck recv procedure) s))"


section \<open>Resolution\<close>

lemma ref_key_inject: "ref_key a = ref_key b \<longleftrightarrow> a = b"
  by (cases a; cases b) (auto simp: ref_key_def dest: resource_string_inject)

lemma dedupe_loop_set: "set (dedupe_loop seen rs) = {r \<in> set rs. ref_key r \<notin> set seen}"
  by (induction rs arbitrary: seen) (auto simp: ref_key_inject)

lemma dedupe_loop_distinct: "distinct (dedupe_loop seen rs)"
  by (induction rs arbitrary: seen) (auto simp: dedupe_loop_set)

lemma resolve_set: "set (resolveResources (Some fs)) = (\<Union>fd \<in> set fs. set (field_refs fd))"
  by (auto simp: resolveResources_def dedupeRefs_def dedupe_loop_set collectResourceRefs_def)

lemma resolve_distinct: "distinct (resolveResources msg)"
  by (auto simp: resolveResources_def dedupeRefs_def dedupe_loop_distinct split: option.split)

text \<open>The annotated names of a field, the elements of a repeated message field one by one.\<close>

definition names_of :: "pfield \<Rightarrow> string list" where
  "names_of fd =
     (case fd_Value fd of
        StringValue v \<Rightarrow> [v]
      | MessageValue m \<Rightarrow> append_ref (in_name m)
      | MessageList ms \<Rightarrow> concat (map (\<lambda>m. append_ref (in_name m)) ms)
      | _ \<Rightarrow> [])"

definition annotated :: "pfield \<Rightarrow> bool" where
  "annotated fd \<longleftrightarrow> resourceReferenceType fd \<noteq> [] \<and> (resourceReferenceType fd = ''laelia/File'' \<longrightarrow> (\<forall>v. fd_Value fd \<noteq> StringValue v))"

lemma append_ref_set [simp]: "set (append_ref r) = set_option r"
  by (auto simp: append_ref_def split: option.splits)

lemma refFromMessageName_Some: "refFromMessageName m = Some r \<longleftrightarrow> (\<exists>name. in_name m = Some name \<and> classifyResource name = Some r)"
  by (auto simp: refFromMessageName_def split: option.splits)

lemma field_refs_names:
  assumes "annotated fd"
  shows "set (field_refs fd) = {r. \<exists>name \<in> set (names_of fd). classifyResource name = Some r}"
  using assms
  by (cases "fd_Value fd")
    (force simp: field_refs_def annotated_def names_of_def Let_def refFromMessageName_Some)+

lemma parent_of_child:
  assumes "CHR ''/'' \<notin> set c" "rest = [] \<or> hd rest = CHR ''/''"
  shows "parentResourceName (pre @ c @ rest) pre = pre @ c"
proof -
  have "takeWhile (\<lambda>ch. ch \<noteq> CHR ''/'') (c @ rest) = c @ takeWhile (\<lambda>ch. ch \<noteq> CHR ''/'') rest"
    using assms(1) by (intro takeWhile_append2) auto
  also have "takeWhile (\<lambda>ch. ch \<noteq> CHR ''/'') rest = []" using assms(2) by (cases rest) auto
  finally show ?thesis by (simp add: parentResourceName_def)
qed

lemma classify_conversation:
  assumes "CHR ''/'' \<notin> set c" "rest = [] \<or> hd rest = CHR ''/''"
  shows "classifyResource (ConversationNamePrefix @ c @ rest) =
    Some \<lparr>rr_ResourceType = CONVERSATION, rr_Name = ConversationNamePrefix @ c\<rparr>"
  by (simp add: classifyResource_def parent_of_child [OF assms])

text \<open>What a name refers to, by its grammar.\<close>

inductive refers :: "string \<Rightarrow> resource_ref \<Rightarrow> bool" where
  conversation: "CHR ''/'' \<notin> set c \<Longrightarrow> rest = [] \<or> hd rest = CHR ''/'' \<Longrightarrow>
    refers (''conversations/'' @ c @ rest) \<lparr>rr_ResourceType = CONVERSATION, rr_Name = ''conversations/'' @ c\<rparr>"
| command: "''agents/'' @ x = a @ ''/commands/'' @ b \<Longrightarrow>
    refers (''agents/'' @ x) \<lparr>rr_ResourceType = COMMAND, rr_Name = ''agents/'' @ x\<rparr>"
| agent: "CHR ''/'' \<notin> set c \<Longrightarrow> rest = [] \<or> hd rest = CHR ''/'' \<Longrightarrow> \<nexists>a b. ''agents/'' @ c @ rest = a @ ''/commands/'' @ b \<Longrightarrow>
    refers (''agents/'' @ c @ rest) \<lparr>rr_ResourceType = AGENT, rr_Name = ''agents/'' @ c\<rparr>"
| reminder: "refers (''reminders/'' @ x) \<lparr>rr_ResourceType = REMINDER, rr_Name = ''reminders/'' @ x\<rparr>"
| stored: "refers (''files/'' @ x) \<lparr>rr_ResourceType = FILE, rr_Name = ''files/'' @ x\<rparr>"
| provisioner: "refers (''provisioners/'' @ x) \<lparr>rr_ResourceType = PROVISIONER, rr_Name = ''provisioners/'' @ x\<rparr>"

lemma child_of_prefix:
  assumes "prefix pre name"
  obtains c rest where "name = pre @ c @ rest" "CHR ''/'' \<notin> set c" "rest = [] \<or> hd rest = CHR ''/''"
proof -
  obtain x where x: "name = pre @ x" using assms by (auto simp: prefix_def)
  let ?c = "takeWhile (\<lambda>ch. ch \<noteq> CHR ''/'') x" and ?rest = "dropWhile (\<lambda>ch. ch \<noteq> CHR ''/'') x"
  have "CHR ''/'' \<notin> set ?c" by (auto dest: set_takeWhileD)
  moreover have "?rest = [] \<or> hd ?rest = CHR ''/''" using hd_dropWhile [of "\<lambda>ch. ch \<noteq> CHR ''/''" x] by auto
  ultimately show thesis using that [of ?c ?rest] x by simp
qed

lemma refers_classify: "refers name r \<longleftrightarrow> classifyResource name = Some r"
proof
  assume "refers name r"
  then show "classifyResource name = Some r"
  proof cases
    case (conversation c rest)
    then show ?thesis using parent_of_child [OF conversation(3,4), of "''conversations/''"]
      by (simp add: classifyResource_def ConversationNamePrefix_def)
  next
    case (command x a b)
    then have "sublist ''/commands/'' (''agents/'' @ x)" by (auto simp: sublist_def)
    then show ?thesis using command(1,2) by (simp add: classifyResource_def ConversationNamePrefix_def AgentNamePrefix_def)
  next
    case (agent c rest)
    then have "\<not> sublist ''/commands/'' (''agents/'' @ c @ rest)" by (auto simp: sublist_def)
    then show ?thesis using agent(1,2) parent_of_child [OF agent(3,4), of "''agents/''"]
      by (simp add: classifyResource_def ConversationNamePrefix_def AgentNamePrefix_def)
  qed (simp_all add: classifyResource_def ConversationNamePrefix_def AgentNamePrefix_def ProvisionerNamePrefix_def)
next
  assume r: "classifyResource name = Some r"
  then consider "prefix ''conversations/'' name" | "prefix ''agents/'' name" | "prefix ''reminders/'' name" | "prefix ''files/'' name"
    | "prefix ''provisioners/'' name"
    by (auto simp: classifyResource_def ConversationNamePrefix_def AgentNamePrefix_def ProvisionerNamePrefix_def split: if_splits)
  then show "refers name r"
  proof cases
    case 1
    then obtain c rest where c: "name = ''conversations/'' @ c @ rest" "CHR ''/'' \<notin> set c" "rest = [] \<or> hd rest = CHR ''/''"
      by (rule child_of_prefix)
    have e: "r = \<lparr>rr_ResourceType = CONVERSATION, rr_Name = ''conversations/'' @ c\<rparr>"
      using r parent_of_child [OF c(2,3), of "''conversations/''"] by (simp add: c(1) classifyResource_def ConversationNamePrefix_def)
    show ?thesis unfolding e c(1) by (rule refers.conversation [OF c(2,3)])
  next
    case 2
    then obtain c rest where c: "name = ''agents/'' @ c @ rest" "CHR ''/'' \<notin> set c" "rest = [] \<or> hd rest = CHR ''/''"
      by (rule child_of_prefix)
    show ?thesis
    proof (cases "sublist ''/commands/'' name")
      case True
      then obtain a b where "''agents/'' @ c @ rest = a @ ''/commands/'' @ b" using c(1) by (auto simp: sublist_def)
      note k = refers.command [OF this]
      have e: "r = \<lparr>rr_ResourceType = COMMAND, rr_Name = name\<rparr>"
        using r True 2 by (auto simp: classifyResource_def ConversationNamePrefix_def AgentNamePrefix_def prefix_def split: if_splits)
      show ?thesis unfolding e c(1) by (rule k)
    next
      case False
      then have "\<nexists>a b. ''agents/'' @ c @ rest = a @ ''/commands/'' @ b" using c(1) by (auto simp: sublist_def)
      note k = refers.agent [OF c(2,3) this]
      have e: "r = \<lparr>rr_ResourceType = AGENT, rr_Name = ''agents/'' @ c\<rparr>"
        using r False parent_of_child [OF c(2,3), of "''agents/''"]
        by (simp add: c(1) classifyResource_def ConversationNamePrefix_def AgentNamePrefix_def)
      show ?thesis unfolding e c(1) by (rule k)
    qed
  next
    case 3
    then obtain x where "name = ''reminders/'' @ x" by (auto simp: prefix_def)
    with r show ?thesis using refers.reminder [of x] by (simp add: classifyResource_def ConversationNamePrefix_def AgentNamePrefix_def)
  next
    case 4
    then obtain x where "name = ''files/'' @ x" by (auto simp: prefix_def)
    with r show ?thesis using refers.stored [of x] by (simp add: classifyResource_def ConversationNamePrefix_def AgentNamePrefix_def)
  next
    case 5
    then obtain x where "name = ''provisioners/'' @ x" by (auto simp: prefix_def)
    with r show ?thesis using refers.provisioner [of x]
      by (simp add: classifyResource_def ConversationNamePrefix_def AgentNamePrefix_def ProvisionerNamePrefix_def)
  qed
qed

text \<open>What an annotated field names: a string under the file annotation is the id of a file, every other name speaks for itself.\<close>

definition names_resource :: "pfield \<Rightarrow> resource_ref \<Rightarrow> bool" where
  "names_resource fd r \<longleftrightarrow> resourceReferenceType fd \<noteq> [] \<and>
     (if resourceReferenceType fd = ''laelia/File'' \<and> (\<exists>v. fd_Value fd = StringValue v)
      then \<exists>v. fd_Value fd = StringValue v \<and> v \<noteq> [] \<and> r = \<lparr>rr_ResourceType = FILE, rr_Name = ''files/'' @ v\<rparr>
      else \<exists>name \<in> set (names_of fd). refers name r)"

lemma field_refs_exact: "set (field_refs fd) = {r. names_resource fd r}"
proof (cases "annotated fd")
  case True
  then show ?thesis
    unfolding field_refs_names [OF True] by (auto simp: names_resource_def annotated_def refers_classify)
next
  case False
  then show ?thesis
    by (auto simp: field_refs_def names_resource_def annotated_def Let_def classifyFileID_def split: field_value.splits if_splits)
qed

section \<open>Outcomes\<close>

definition ref_label :: "resource_ref option \<Rightarrow> string" where
  "ref_label ref = (case ref of None \<Rightarrow> ''workspaces/-'' | Some r \<Rightarrow> rr_Name r)"

lemma check_refs_passes:
  "(\<exists>d'. check_refs ck ok d refs = Inr (True, d')) \<longleftrightarrow> ok \<and> (\<forall>r \<in> set refs. ck r = Inr True)"
  by (induction refs arbitrary: ok d) (auto split: sum.splits bool.splits)

lemma check_refs_denies:
  assumes "\<forall>r \<in> set refs. \<exists>b. ck r = Inr b"
  shows "check_refs ck ok d refs =
    Inr (ok \<and> (\<forall>r \<in> set refs. ck r = Inr True), d @ map ref_label (filter (\<lambda>r. ck r = Inr False) refs))"
  using assms
proof (induction refs arbitrary: ok d)
  case (Cons r refs)
  then obtain b where "ck r = Inr b" by auto
  with Cons show ?case by (cases b) (auto simp: ref_label_def)
qed simp

text \<open>What a gated request is checked on: its resources, or the workspace when it names none.\<close>

definition gate_targets :: "string \<Rightarrow> request \<Rightarrow> resource_ref option list" where
  "gate_targets perm msg =
     (if IsResourceScoped perm \<and> resolveResources msg \<noteq> [] then map Some (resolveResources msg) else [None])"

lemma gate_targets_alt:
  "(let refs = (if IsResourceScoped perm then resolveResources msg else []) in if refs = [] then [None] else map Some refs) =
     gate_targets perm msg"
  by (auto simp: gate_targets_def)

lemma authorize_open: "\<not> (\<exists>ac. cx_Auth ctx = Some ac \<and> gated ac) \<Longrightarrow> authorize ck ctx msg m = (None, ctx)"
  by (auto simp: authorize_def gated_def split: option.split)

lemma authorize_gated:
  assumes "cx_Auth ctx = Some ac" "gated ac" "cx_User ctx \<noteq> None \<or> cx_Agent ctx \<noteq> None"
  shows "fst (authorize ck ctx msg m) =
    (case check_refs (ck (ac_Permission ac) (cx_User ctx) (cx_Agent ctx)) True [] (gate_targets (ac_Permission ac) msg) of
       Inl e \<Rightarrow> Some (CheckFailed e)
     | Inr (allOK, denied) \<Rightarrow> if allOK then None else Some (PermissionDenied m (ac_Permission ac) denied))"
  using assms unfolding gate_targets_alt [symmetric]
  by (auto simp: authorize_def gated_def Let_def split: sum.split)

lemma authorize_anonymous:
  assumes "cx_Auth ctx = Some ac" "gated ac" "cx_User ctx = None" "cx_Agent ctx = None"
  shows "authorize ck ctx msg m = (Some Unauthenticated, ctx)"
  using assms by (simp add: authorize_def gated_def)

lemma authorize_passes:
  assumes "cx_Auth ctx = Some ac" "gated ac" "cx_User ctx \<noteq> None \<or> cx_Agent ctx \<noteq> None"
  shows "fst (authorize ck ctx msg m) = None \<longleftrightarrow>
    (\<forall>ref \<in> set (gate_targets (ac_Permission ac) msg). ck (ac_Permission ac) (cx_User ctx) (cx_Agent ctx) ref = Inr True)"
proof -
  let ?c = "check_refs (ck (ac_Permission ac) (cx_User ctx) (cx_Agent ctx)) True [] (gate_targets (ac_Permission ac) msg)"
  have "fst (authorize ck ctx msg m) = None \<longleftrightarrow> (\<exists>d. ?c = Inr (True, d))"
    unfolding authorize_gated [OF assms] by (auto split: sum.splits if_splits)
  then show ?thesis by (simp add: check_refs_passes)
qed

lemma authorize_denies:
  assumes "cx_Auth ctx = Some ac" "gated ac" "cx_User ctx \<noteq> None \<or> cx_Agent ctx \<noteq> None"
    "\<forall>ref \<in> set (gate_targets (ac_Permission ac) msg). \<exists>b. ck (ac_Permission ac) (cx_User ctx) (cx_Agent ctx) ref = Inr b"
    "\<exists>ref \<in> set (gate_targets (ac_Permission ac) msg). ck (ac_Permission ac) (cx_User ctx) (cx_Agent ctx) ref = Inr False"
  shows "fst (authorize ck ctx msg m) = Some (PermissionDenied m (ac_Permission ac)
    (map ref_label (filter (\<lambda>ref. ck (ac_Permission ac) (cx_User ctx) (cx_Agent ctx) ref = Inr False)
       (gate_targets (ac_Permission ac) msg))))"
proof -
  let ?ck = "ck (ac_Permission ac) (cx_User ctx) (cx_Agent ctx)"
  have "\<not> (\<forall>ref \<in> set (gate_targets (ac_Permission ac) msg). ?ck ref = Inr True)" using assms(5) by force
  then show ?thesis unfolding authorize_gated [OF assms(1-3)] check_refs_denies [OF assms(4)] by simp
qed

lemma single_target_denied:
  assumes "cx_Auth ctx = Some ac" "gated ac" "cx_User ctx \<noteq> None \<or> cx_Agent ctx \<noteq> None"
    "gate_targets (ac_Permission ac) msg = [ref]" "ck (ac_Permission ac) (cx_User ctx) (cx_Agent ctx) ref = Inr False"
  shows "fst (authorize ck ctx msg m) = Some (PermissionDenied m (ac_Permission ac) [ref_label ref])"
  unfolding authorize_gated [OF assms(1-3)] by (simp add: assms(4,5) ref_label_def)

lemma unary_stops: "fst (authorize ck ctx msg m) = Some e \<Longrightarrow> WrapUnary ck handler ctx msg m s = (Inl e, s)"
  by (cases "authorize ck ctx msg m") (simp add: WrapUnary_def)

section \<open>The checker\<close>

locale permission_checker =
  fixes ck :: checker
  assumes workspace_suffices: "ck perm user agent None = Inr True \<Longrightarrow> ck perm user agent ref = Inr True"
begin

text \<open>A caller who holds the permission workspace-wide passes, whatever the request names.\<close>

lemma workspace_caller_passes:
  assumes "cx_Auth ctx = Some ac" "gated ac" "cx_User ctx \<noteq> None \<or> cx_Agent ctx \<noteq> None"
    "ck (ac_Permission ac) (cx_User ctx) (cx_Agent ctx) None = Inr True"
  shows "fst (authorize ck ctx msg m) = None"
  unfolding authorize_passes [OF assms(1-3)] using workspace_suffices [OF assms(4)] by blast

lemma workspace_caller_receives:
  assumes "cx_Auth ctx = Some ac" "gated ac" "cx_User ctx \<noteq> None \<or> cx_Agent ctx \<noteq> None"
    "ck (ac_Permission ac) (cx_User ctx) (cx_Agent ctx) None = Inr True"
  shows "fst (Receive ck recv m ctx msg s) = fst (recv s)"
  using workspace_caller_passes [OF assms, of msg m]
  by (cases "authorize ck ctx msg m"; cases "recv s") (simp add: Receive_def)

end

interpretation engine: permission_checker "CheckPermission env db" for env db
proof
  show "CheckPermission env db perm user agent ref = Inr True" if "CheckPermission env db perm user agent None = Inr True" for perm user agent ref
    using that unfolding check_workspace_only by (simp add: CheckPermission_def)
qed


section \<open>Examples\<close>

text \<open>b, a member of the conversation in which command 1 runs, and the context in which b calls a method of some permission.\<close>

definition stream_db :: iam_db where
  "stream_db = (sample_iam_db (snd (AddConversationMembers channel_env no_fail 7 1
       [\<lparr>mi_MemberType = MemberTypeUser, mi_MemberID = ''b'', mi_ExpireAt = None\<rparr>] channel_db)))
     \<lparr>ia_commands := sample_db\<lparr>db_agents := [1 \<mapsto> ''x''], db_links := [(1, 1)]\<rparr>\<rparr>"

definition call_of :: "string \<Rightarrow> request_context" where
  "call_of perm = \<lparr>cx_Auth = Some \<lparr>ac_Audit = False, ac_AllowWithoutCredential = False, ac_Permission = perm,
     ac_AuthMethod = AuthMethodIAM, ac_Resources = []\<rparr>, cx_User = Some bob, cx_Agent = None\<rparr>"

definition named_request :: "string \<Rightarrow> string \<Rightarrow> pfield list" where
  "named_request t name = [\<lparr>fd_Reference = Some t, fd_Value = StringValue name\<rparr>]"

lemma call_of_gated:
  "cx_Auth (call_of perm) = Some \<lparr>ac_Audit = False, ac_AllowWithoutCredential = False, ac_Permission = perm,
     ac_AuthMethod = AuthMethodIAM, ac_Resources = []\<rparr>"
  "cx_User (call_of perm) = Some bob" "cx_Agent (call_of perm) = None"
  by (simp_all add: call_of_def)

section \<open>Properties\<close>

text \<open>C13: The gate lets a request through exactly when the caller holds the method's permission on everything the request names. Methods
  outside the IAM scheme pass. For the others a caller without credentials is refused; a resource-scoped permission is
  checked on every resolved resource, and any permission on the workspace when there is none. When no check fails with an error, a
  refusal names exactly the refused resources, in order; and a refused unary request never reaches the handler.\<close>

theorem gate_requires_every:
  "(fst (authorize ck ctx msg m) = None \<longleftrightarrow>
      (\<forall>ac. cx_Auth ctx = Some ac \<and> gated ac \<longrightarrow>
        (cx_User ctx \<noteq> None \<or> cx_Agent ctx \<noteq> None) \<and>
        (\<forall>ref \<in> set (gate_targets (ac_Permission ac) msg). ck (ac_Permission ac) (cx_User ctx) (cx_Agent ctx) ref = Inr True))) \<and>
   (\<forall>ac. cx_Auth ctx = Some ac \<and> gated ac \<and> (cx_User ctx \<noteq> None \<or> cx_Agent ctx \<noteq> None) \<and>
      (\<forall>ref \<in> set (gate_targets (ac_Permission ac) msg). \<exists>b. ck (ac_Permission ac) (cx_User ctx) (cx_Agent ctx) ref = Inr b) \<and>
      fst (authorize ck ctx msg m) \<noteq> None \<longrightarrow>
      fst (authorize ck ctx msg m) = Some (PermissionDenied m (ac_Permission ac)
        (map ref_label (filter (\<lambda>ref. ck (ac_Permission ac) (cx_User ctx) (cx_Agent ctx) ref = Inr False)
          (gate_targets (ac_Permission ac) msg))))) \<and>
   (\<forall>e. fst (authorize ck ctx msg m) = Some e \<longrightarrow> WrapUnary ck handler ctx msg m s = (Inl e, s))"
proof (intro conjI allI impI, goal_cases)
  case 1
  show ?case
  proof (cases "\<exists>ac. cx_Auth ctx = Some ac \<and> gated ac")
    case False
    then show ?thesis using authorize_open [OF False] by auto
  next
    case True
    then obtain ac where ac: "cx_Auth ctx = Some ac" "gated ac" by blast
    show ?thesis
    proof (cases "cx_User ctx = None \<and> cx_Agent ctx = None")
      case True
      then show ?thesis using authorize_anonymous [OF ac] ac by auto
    next
      case False
      then show ?thesis using authorize_passes [OF ac] ac by auto
    qed
  qed
next
  case (2 ac)
  then have "\<exists>ref \<in> set (gate_targets (ac_Permission ac) msg). ck (ac_Permission ac) (cx_User ctx) (cx_Agent ctx) ref = Inr False"
    using authorize_passes [of ctx ac ck msg m] by fastforce
  then show ?case using 2 authorize_denies [of ctx ac msg ck m] by blast
qed (rule unary_stops)

theorem gate_requires_every_witness:
  "fst (authorize (CheckPermission sample_env stream_db) (call_of CommandsWatch)
     (Some (named_request ''laelia/Command'' ''agents/x/commands/1'')) ''Watch'') = None"
proof -
  have "\<forall>ref \<in> set (gate_targets CommandsWatch (Some (named_request ''laelia/Command'' ''agents/x/commands/1''))).
      CheckPermission sample_env stream_db CommandsWatch (Some bob) None ref = Inr True"
    by code_simp
  then show ?thesis
    unfolding conjunct1 [OF gate_requires_every [where ck = "CheckPermission sample_env stream_db" and ctx = "call_of CommandsWatch" and
        msg = "Some (named_request ''laelia/Command'' ''agents/x/commands/1'')" and m = "''Watch''"]] call_of_gated by simp
qed

text \<open>C14: No name slips past the gate. The resources of a request are exactly what its annotated fields name, each once: a
  string under the file annotation the file of that id, every other string, nested message or element of a repeated message what the grammar of
  names makes of it, which is the conversation or the agent for a path below one, and the command, reminder, file or provisioner itself;
  a list of plain strings names nothing. A call under a resource permission that names something on which
  the caller lacks the permission is refused, whatever else it names.\<close>

theorem no_name_slips_past:
  assumes "cx_Auth ctx = Some ac" "gated ac" "IsResourceScoped (ac_Permission ac)"
  shows "distinct (resolveResources (Some fs)) \<and> set (resolveResources (Some fs)) = {r. \<exists>fd \<in> set fs. names_resource fd r} \<and>
    (\<forall>r fd. fd \<in> set fs \<longrightarrow> names_resource fd r \<longrightarrow> ck (ac_Permission ac) (cx_User ctx) (cx_Agent ctx) (Some r) \<noteq> Inr True \<longrightarrow>
       fst (authorize ck ctx (Some fs) m) \<noteq> None)"
proof -
  have rs: "set (resolveResources (Some fs)) = {r. \<exists>fd \<in> set fs. names_resource fd r}"
    by (auto simp: resolve_set field_refs_exact)
  have "fst (authorize ck ctx (Some fs) m) \<noteq> None"
    if "fd \<in> set fs" "names_resource fd r" "ck (ac_Permission ac) (cx_User ctx) (cx_Agent ctx) (Some r) \<noteq> Inr True" for r fd
  proof -
    have "r \<in> set (resolveResources (Some fs))" using that(1,2) rs by blast
    then have "Some r \<in> set (gate_targets (ac_Permission ac) (Some fs))" using assms(3) by (auto simp: gate_targets_def)
    then show ?thesis using authorize_passes [OF assms(1,2)] authorize_anonymous [OF assms(1,2)] that(3) by fastforce
  qed
  with rs resolve_distinct show ?thesis by blast
qed

theorem no_name_slips_past_witness:
  "fst (authorize (CheckPermission sample_env (sample_iam_db channel_db)) (call_of ConversationsRead)
     (Some (named_request ''laelia/Conversation'' ''conversations/c/messages/1'')) ''Get'') \<noteq> None"
proof -
  let ?fd = "\<lparr>fd_Reference = Some ''laelia/Conversation'', fd_Value = StringValue ''conversations/c/messages/1''\<rparr>"
  let ?r = "\<lparr>rr_ResourceType = CONVERSATION, rr_Name = ''conversations/c''\<rparr>"
  have "names_resource ?fd ?r" using refers.conversation [of "''c''" "''/messages/1''"]
    by (simp add: names_resource_def resourceReferenceType_def names_of_def)
  moreover have "CheckPermission sample_env (sample_iam_db channel_db) ConversationsRead (Some bob) None (Some ?r) \<noteq> Inr True"
    by code_simp
  moreover have "IsResourceScoped ConversationsRead" by code_simp
  ultimately show ?thesis
    using no_name_slips_past [where ctx = "call_of ConversationsRead" and fs = "named_request ''laelia/Conversation'' ''conversations/c/messages/1''"
        and ck = "CheckPermission sample_env (sample_iam_db channel_db)", OF call_of_gated(1)]
    by (simp add: gated_def named_request_def call_of_gated)
qed

text \<open>C15: A removed member is stopped at the gate. Once the removal of a user from a conversation whose policy binds only named members
  has succeeded, every gated unary request of that user, under a resource permission, that names the conversation is answered with an error, and no handler
  runs; when a single string field of another annotation than a file's names it, or a path below it, the error is a refusal that lists just the conversation. This is
  of users who hold neither the permission nor the one to review the conversations of agents for the whole workspace, and no call
  of the database fails while the request is judged.\<close>

theorem removed_member_stopped:
  assumes "iv_fails env = no_fail" "names_conversation env (ConversationNamePrefix @ c) convID"
    "conversation_ok (iv_members env) convID pol (ia_members db)" "named_only pol"
    "RemoveConversationMember (iv_members env) fails now convID MemberTypeUser (us_Handle u) (ia_members db) = (None, md')"
    "db' = db\<lparr>ia_members := md'\<rparr>" "\<not> holds_workspace env db' ConversationsReviewAgentDM (Some u)"
    "cx_Auth ctx = Some ac" "gated ac" "IsResourceScoped (ac_Permission ac)" "cx_User ctx = Some u" "cx_Agent ctx = None"
    "CheckWorkspace env db' (ac_Permission ac) (Some u) = Inr False"
  shows "(\<forall>fs fd. fd \<in> set fs \<longrightarrow> names_resource fd \<lparr>rr_ResourceType = CONVERSATION, rr_Name = ConversationNamePrefix @ c\<rparr> \<longrightarrow>
      (\<exists>e. WrapUnary (CheckPermission env db') handler ctx (Some fs) m s = (Inl e, s))) \<and>
    (\<forall>t rest. CHR ''/'' \<notin> set c \<longrightarrow> rest = [] \<or> hd rest = CHR ''/'' \<longrightarrow> t \<noteq> [] \<longrightarrow> t \<noteq> ''laelia/File'' \<longrightarrow>
      WrapUnary (CheckPermission env db') handler ctx
        (Some [\<lparr>fd_Reference = Some t, fd_Value = StringValue (ConversationNamePrefix @ c @ rest)\<rparr>]) m s =
      (Inl (PermissionDenied m (ac_Permission ac) [ConversationNamePrefix @ c]), s))"
proof (intro conjI allI impI)
  let ?r = "\<lparr>rr_ResourceType = CONVERSATION, rr_Name = ConversationNamePrefix @ c\<rparr>"
  have d: "CheckPermission env db' (ac_Permission ac) (Some u) None (Some ?r) = Inr False"
    using removed_member_denied [OF assms(1-7)] check_conversation_resource [OF assms(13)] by simp
  show "\<exists>e. WrapUnary (CheckPermission env db') handler ctx (Some fs) m s = (Inl e, s)"
    if "fd \<in> set fs" "names_resource fd ?r" for fs fd
  proof -
    have "?r \<in> set (resolveResources (Some fs))" using that by (auto simp: resolve_set field_refs_exact)
    then have "Some ?r \<in> set (gate_targets (ac_Permission ac) (Some fs))" using assms(10) by (auto simp: gate_targets_def)
    moreover have "CheckPermission env db' (ac_Permission ac) (cx_User ctx) (cx_Agent ctx) (Some ?r) \<noteq> Inr True"
      unfolding assms(11,12) d by simp
    moreover have "cx_User ctx \<noteq> None \<or> cx_Agent ctx \<noteq> None" using assms(11) by simp
    ultimately have "fst (authorize (CheckPermission env db') ctx (Some fs) m) \<noteq> None"
      using authorize_passes [OF assms(8,9)] by metis
    then obtain e where e: "fst (authorize (CheckPermission env db') ctx (Some fs) m) = Some e" by blast
    show ?thesis by (rule exI) (rule unary_stops [OF e])
  qed
  fix t rest
  assume n: "CHR ''/'' \<notin> set c" "rest = [] \<or> hd rest = CHR ''/''" "t \<noteq> []" "t \<noteq> ''laelia/File''"
  let ?msg = "Some [\<lparr>fd_Reference = Some t, fd_Value = StringValue (ConversationNamePrefix @ c @ rest)\<rparr>]"
  have "resolveResources ?msg = [?r]"
    using n(3,4) by (simp add: resolveResources_def dedupeRefs_def collectResourceRefs_def field_refs_def resourceReferenceType_def
        append_ref_def classify_conversation [OF n(1,2)])
  then have t: "gate_targets (ac_Permission ac) ?msg = [Some ?r]" using assms(10) by (simp add: gate_targets_def)
  have "fst (authorize (CheckPermission env db') ctx ?msg m) = Some (PermissionDenied m (ac_Permission ac) [ConversationNamePrefix @ c])"
    using single_target_denied [OF assms(8,9) _ t] d assms(11,12) by (simp add: ref_label_def)
  then show "WrapUnary (CheckPermission env db') handler ctx ?msg m s =
      (Inl (PermissionDenied m (ac_Permission ac) [ConversationNamePrefix @ c]), s)" by (rule unary_stops)
qed

theorem removed_member_stopped_witness:
  "\<exists>md'. RemoveConversationMember channel_env no_fail 7 1 MemberTypeUser ''b'' channel_db = (None, md') \<and>
     WrapUnary (CheckPermission sample_env (sample_iam_db md')) (\<lambda>_ _. Pair (Inr ()) \<circ> Suc) (call_of ConversationsSend)
       (Some (named_request ''laelia/Conversation'' ''conversations/c/messages/1'')) ''Send'' (0 :: nat) =
     (Inl (PermissionDenied ''Send'' ConversationsSend [''conversations/c'']), 0)"
proof -
  define md' where "md' = snd (RemoveConversationMember channel_env no_fail 7 1 MemberTypeUser ''b'' channel_db)"
  have r: "RemoveConversationMember channel_env no_fail 7 1 MemberTypeUser (us_Handle bob) channel_db = (None, md')"
    using channel_ops_succeed(1) by (simp add: md'_def bob_def prod_eq_iff)
  have w: "CheckWorkspace sample_env (sample_iam_db md') ConversationsSend (Some bob) = Inr False"
    "\<not> holds_workspace sample_env (sample_iam_db md') ConversationsReviewAgentDM (Some bob)" unfolding md'_def by code_simp+
  have n: "names_conversation sample_env (ConversationNamePrefix @ ''c'') 1" using sample_names by (simp add: ConversationNamePrefix_def)
  have i: "IsResourceScoped ConversationsSend" by code_simp
  have e: "sample_iam_db md' = (sample_iam_db channel_db)\<lparr>ia_members := md'\<rparr>" by (simp add: sample_iam_db_def)
  let ?ctx = "call_of ConversationsSend" and ?ac = "the (cx_Auth (call_of ConversationsSend))"
  have g: "cx_Auth ?ctx = Some ?ac" "gated ?ac" "IsResourceScoped (ac_Permission ?ac)" "ac_Permission ?ac = ConversationsSend"
    using i by (simp_all add: call_of_gated gated_def)
  note stopped = removed_member_stopped [OF sample_no_fail(1) n _ channel_named _ e w(2) g(1-3) call_of_gated(2,3), of
      no_fail 7 "\<lambda>_ _. Pair (Inr ()) \<circ> Suc" "''Send''" 0, unfolded sample_no_fail(2) sample_members g(4), OF channel_ok r w(1)]
  from conjunct2 [OF stopped, rule_format, of "''/messages/1''" "''laelia/Conversation''"]
  have "WrapUnary (CheckPermission sample_env (sample_iam_db md')) (\<lambda>_ _. Pair (Inr ()) \<circ> Suc) ?ctx
      (Some (named_request ''laelia/Conversation'' ''conversations/c/messages/1'')) ''Send'' (0 :: nat) =
    (Inl (PermissionDenied ''Send'' ConversationsSend [''conversations/c'']), 0)"
    by (simp add: named_request_def ConversationNamePrefix_def)
  then show ?thesis using r by (intro exI [of _ md']) (simp add: bob_def)
qed

text \<open>C16: Streams are closed to members. The gate judges a stream message before it is filled. So for a resource-scoped
  permission every receive into a fresh message is refused on the workspace, and nothing is read, for a caller whose access rests on the
  resource, although the gate passes the message that waits in the stream. A caller who holds the permission workspace-wide
  receives every message.\<close>

theorem streams_deny_members:
  assumes "cx_Auth ctx = Some ac" "gated ac" "cx_User ctx \<noteq> None \<or> cx_Agent ctx \<noteq> None"
    "resolveResources (Some fs) = [ref]" "IsResourceScoped (ac_Permission ac)"
    "CheckPermission env db (ac_Permission ac) (cx_User ctx) (cx_Agent ctx) (Some ref) = Inr True"
  shows "fst (authorize (CheckPermission env db) ctx (Some fs) m) = None \<and>
    (CheckPermission env db (ac_Permission ac) (cx_User ctx) (cx_Agent ctx) None = Inr False \<longrightarrow>
       (\<exists>ctx'. Receive (CheckPermission env db) recv m ctx (Some []) s =
          (Inl (PermissionDenied m (ac_Permission ac) [''workspaces/-'']), ctx', s))) \<and>
    (CheckPermission env db (ac_Permission ac) (cx_User ctx) (cx_Agent ctx) None = Inr True \<longrightarrow>
       fst (Receive (CheckPermission env db) recv m ctx msg s) = fst (recv s))"
proof (intro conjI impI, goal_cases)
  case 1
  show ?case unfolding authorize_passes [OF assms(1-3)] using assms(4-6) by (simp add: gate_targets_def)
next
  case 2
  have t: "gate_targets (ac_Permission ac) (Some []) = [None]"
    by (simp add: gate_targets_def resolveResources_def dedupeRefs_def collectResourceRefs_def)
  have "fst (authorize (CheckPermission env db) ctx (Some []) m) = Some (PermissionDenied m (ac_Permission ac) [''workspaces/-''])"
    using single_target_denied [OF assms(1-3) t] 2 by (simp add: ref_label_def)
  then show ?case by (cases "authorize (CheckPermission env db) ctx (Some []) m") (simp add: Receive_def)
next
  case 3
  then show ?case by (rule engine.workspace_caller_receives [OF assms(1-3)])
qed

theorem streams_deny_members_witness:
  "fst (authorize (CheckPermission sample_env stream_db) (call_of CommandsWatch)
      (Some (named_request ''laelia/Command'' ''agents/x/commands/1'')) ''Watch'') = None \<and>
   fst (Receive (CheckPermission sample_env stream_db)
       (\<lambda>_. (Inr (named_request ''laelia/Command'' ''agents/x/commands/1''), ())) ''Watch'' (call_of CommandsWatch) (Some []) ()) =
     Inl (PermissionDenied ''Watch'' CommandsWatch [''workspaces/-''])"
proof -
  let ?r = "\<lparr>rr_ResourceType = COMMAND, rr_Name = ''agents/x/commands/1''\<rparr>"
  have "resolveResources (Some (named_request ''laelia/Command'' ''agents/x/commands/1'')) = [?r]" "IsResourceScoped CommandsWatch"
    "CheckPermission sample_env stream_db CommandsWatch (Some bob) None (Some ?r) = Inr True"
    "CheckPermission sample_env stream_db CommandsWatch (Some bob) None None = Inr False"
    by code_simp+
  note facts = this
  let ?recv = "\<lambda>_. (Inr (named_request ''laelia/Command'' ''agents/x/commands/1''), ())"
  have g: "gated \<lparr>ac_Audit = False, ac_AllowWithoutCredential = False, ac_Permission = CommandsWatch,
     ac_AuthMethod = AuthMethodIAM, ac_Resources = []\<rparr>" by (simp add: gated_def)
  note used = streams_deny_members [where ctx = "call_of CommandsWatch" and m = "''Watch''" and recv = ?recv and s = "()", OF call_of_gated(1) g _ facts(1), unfolded call_of_gated
      auth_context.simps, OF _ facts(2,3)]
  obtain ctx' where "Receive (CheckPermission sample_env stream_db) ?recv ''Watch'' (call_of CommandsWatch) (Some []) () =
      (Inl (PermissionDenied ''Watch'' CommandsWatch [''workspaces/-'']), ctx', ())"
    using used facts(4) by auto
  then show ?thesis using used by simp
qed

end
