(* ===== verification/Chat_Service.thy ===== *)
theory Chat_Service
  imports Mentions Reactions Room_Hub Task_Store IAM_Gate
begin

text \<open>
  The message handlers (\<open>backend/manager/api/v1/message_create.go\<close>, \<open>channel_message.go\<close>, \<open>command_message.go\<close>,
  \<open>channel_file_service.go\<close>): posting by users and agents, thread subscriptions, wakes, and the paged reads.

  The state joins the chat tables with the membership policies, which share the member rows; a wake handed to
  the dispatcher and an activity request handed to the activity generator are recorded in lists. Agents and users are looked up through
  the parameters of the mention resolver. A handler runs its statements in order; where the code leaves room for
  another request between two statements and the lemmas need it, the other requests are a function \<open>others\<close> on the tables. An error
  is the code of the connect error.
\<close>

section \<open>State\<close>

datatype code = CodeInvalidArgument | CodeNotFound | CodePermissionDenied | CodeUnauthenticated | CodeFailedPrecondition | CodeInternal

record chat_file =
  cf_ID :: uuid
  cf_ConversationID :: "uuid option"
  cf_OriginalName :: string
  cf_MimeType :: string
  cf_SizeBytes :: int

datatype agent_wake =
    NewMessages (wk_agent: int) (wk_conversation: uuid) (wk_version: int)
  | ThreadMention (wk_agent: int) (wk_conversation: uuid) (wk_version: int) (wk_root: uuid)

record service =
  sv_members :: member_db
  sv_chat :: chat_db
  sv_index :: "mention_index option"
  sv_files :: "chat_file list"
  sv_wakes :: "agent_wake list"
  sv_activity :: "(chat_message \<times> bool \<times> bool) list"

record agent_caller = agent_message +
  ag_Name :: string

record caller =
  ca_User :: "user_message option"
  ca_Agent :: "agent_caller option"

text \<open>The texts of the system lines.\<close>

datatype notice =
    NoticeCreated string int string
  | NoticeConverted string int string
  | NoticeClaimed string int string
  | NoticeReleased string int
  | NoticeReview string int
  | NoticeCompleted string int
  | NoticeAssigned string int string
  | NoticeClosed string int string

record service_env =
  sn_members :: member_env
  sn_chat :: chat_env
  sn_mentions :: mention_env
  sn_fails :: "string \<Rightarrow> bool"
  sn_now :: int
  sn_newID :: "string \<Rightarrow> uuid"
  sn_handle :: "int \<Rightarrow> string option"
  sn_Sprintf :: "notice \<Rightarrow> string"

definition sn_uuid :: "service_env \<Rightarrow> uuid_env" where
  "sn_uuid env = mn_uuid (sn_members env)"

definition sn_Parse :: "service_env \<Rightarrow> string \<Rightarrow> uuid option" where
  "sn_Parse env = uuid_Parse (sn_uuid env)"

definition i16 :: "int \<Rightarrow> int" where
  "i16 x = (x + 2 ^ 15) mod 2 ^ 16 - 2 ^ 15"

text \<open>The membership code and the chat code work on the same member rows.\<close>

definition in_members :: "(member_db \<Rightarrow> 'a \<times> member_db) \<Rightarrow> service \<Rightarrow> 'a \<times> service" where
  "in_members f s =
     (let (r, md) = f ((sv_members s)\<lparr>md_meta := cd_meta (sv_chat s)\<rparr>) in
      (r, s\<lparr>sv_members := md, sv_chat := (sv_chat s)\<lparr>cd_meta := md_meta md\<rparr>\<rparr>))"

definition in_chat :: "(chat_db \<Rightarrow> 'a \<times> chat_db) \<Rightarrow> service \<Rightarrow> 'a \<times> service" where
  "in_chat f s = (let (r, db) = f (sv_chat s) in (r, s\<lparr>sv_chat := db\<rparr>))"

definition blank_message :: "uuid \<Rightarrow> chat_message" where
  "blank_message convID = \<lparr>msg_ID = 0, msg_ConversationID = convID, msg_PrincipalID = 0, msg_PrincipalName = [], msg_PrincipalHandle = [],
     msg_SenderAgentID = None, msg_AgentResourceID = [], msg_AgentName = [], msg_Role = 0, msg_Content = [], msg_CommandID = None,
     msg_CreatedAt = 0, msg_RoomVersion = 0, msg_SenderType = 0, msg_Mentions = [], msg_Attachments = [], msg_ThreadRoot = None,
     msg_ThreadReplyCount = 0, msg_TaskInfo = None\<rparr>"

section \<open>Names and callers\<close>

definition parseConversationID :: "uuid_env \<Rightarrow> string \<Rightarrow> uuid option" where
  "parseConversationID u conversation =
     (case split_on CHR ''/'' conversation of
        [kind, i] \<Rightarrow> if kind = ''conversations'' then uuid_Parse u i else uuid_Parse u conversation
      | _ \<Rightarrow> uuid_Parse u conversation)"

definition requireAgentMemberByConvID ::
  "service_env \<Rightarrow> caller \<Rightarrow> uuid \<Rightarrow> service \<Rightarrow> (code, agent_caller) result \<times> service" where
  "requireAgentMemberByConvID env who convID s =
     (case ca_Agent who of
        None \<Rightarrow> (Inl CodeUnauthenticated, s)
      | Some agent \<Rightarrow>
          (case in_members (IsConversationMember (sn_members env) (sn_fails env) convID MemberTypeAgent (ag_ResourceID agent)) s of
             (Inl _, s1) \<Rightarrow> (Inl CodeInternal, s1)
           | (Inr isMember, s1) \<Rightarrow> (if isMember then Inr agent else Inl CodePermissionDenied, s1)))"

fun resolve_attachments ::
  "service_env \<Rightarrow> chat_file list \<Rightarrow> uuid \<Rightarrow> attachment option list \<Rightarrow> (code, attachment list) result" where
  "resolve_attachments env files convID [] = Inr []"
| "resolve_attachments env files convID (a # as) =
     (case a of
        None \<Rightarrow> Inl CodeInvalidArgument
      | Some att \<Rightarrow>
          if at_id att = [] then Inl CodeInvalidArgument
          else
            (case sn_Parse env (at_id att) of
               None \<Rightarrow> Inl CodeInvalidArgument
             | Some fid \<Rightarrow>
                 if sn_fails env ''get file'' then Inl CodeInternal
                 else
                   (case find (\<lambda>f. cf_ID f = fid) files of
                      None \<Rightarrow> Inl CodeNotFound
                    | Some f \<Rightarrow>
                        if cf_ConversationID f \<noteq> Some convID then Inl CodePermissionDenied
                        else
                          (case resolve_attachments env files convID as of
                             Inl e \<Rightarrow> Inl e
                           | Inr rest \<Rightarrow>
                               Inr (att\<lparr>at_id := uuid_String (mn_uuid (sn_members env)) (cf_ID f), at_name := cf_OriginalName f,
                                    at_mime_type := cf_MimeType f, at_size_bytes := cf_SizeBytes f\<rparr> # rest)))))"

section \<open>Wakes and subscriptions\<close>

definition notifyConversationAgents :: "service_env \<Rightarrow> uuid \<Rightarrow> int \<Rightarrow> int option \<Rightarrow> service \<Rightarrow> service" where
  "notifyConversationAgents env convID version exceptAgentID s =
     (case in_members (ListConversationMembers (sn_members env) (sn_fails env) convID) s of
        (Inl _, s1) \<Rightarrow> s1
      | (Inr members, s1) \<Rightarrow>
          s1\<lparr>sv_wakes := sv_wakes s1 @ List.map_filter
               (\<lambda>m. if cmb_MemberType m \<noteq> MemberTypeAgent then None
                    else (case mv_agent (sn_mentions env) (cmb_MemberID m) of
                            None \<Rightarrow> None
                          | Some a \<Rightarrow> if exceptAgentID = Some (de_ID a) then None else Some (NewMessages (de_ID a) convID version)))
               members\<rparr>)"

definition notifyThreadParticipants :: "service_env \<Rightarrow> uuid \<Rightarrow> uuid \<Rightarrow> int \<Rightarrow> int option \<Rightarrow> service \<Rightarrow> service" where
  "notifyThreadParticipants env convID rootID version exceptAgentID s =
     (case ListThreadParticipantAgents (sn_fails env) rootID (sv_chat s) of
        Inl _ \<Rightarrow> s
      | Inr ids \<Rightarrow> s\<lparr>sv_wakes := sv_wakes s @ map (\<lambda>i. ThreadMention i convID version rootID) (filter (\<lambda>i. exceptAgentID \<noteq> Some i) ids)\<rparr>)"

definition add_id :: "int list \<Rightarrow> int \<Rightarrow> int list" where
  "add_id ids i = (if i > 0 \<and> i \<notin> set ids then ids @ [i] else ids)"

definition mentioned_ids :: "string \<Rightarrow> (string \<Rightarrow> directory_entry option) \<Rightarrow> mention list \<Rightarrow> int list" where
  "mentioned_ids kind look mentions =
     List.map_filter (\<lambda>m. if mt_type m = kind \<and> mt_id m \<noteq> [] then map_option de_ID (look (mt_id m)) else None) mentions"

definition opt_list :: "'a option \<Rightarrow> 'a list" where
  "opt_list x = (case x of None \<Rightarrow> [] | Some a \<Rightarrow> [a])"

definition subscribeAndNotifyThread ::
  "service_env \<Rightarrow> uuid \<Rightarrow> uuid \<Rightarrow> int \<Rightarrow> mention list \<Rightarrow> int option \<Rightarrow> int option \<Rightarrow> service \<Rightarrow> service" where
  "subscribeAndNotifyThread env convID rootID version mentions posterAgentID posterUserID s =
     (let author = (case GetThreadRootSender (sn_fails env) rootID (sv_chat s) of
            Inl _ \<Rightarrow> []
          | Inr (senderType, senderAgentID) \<Rightarrow> if senderType = SenderTypeAgent then opt_list senderAgentID else []);
          agentIDs = foldl add_id [] (mentioned_ids ''agent'' (mv_agent (sn_mentions env)) mentions @ opt_list posterAgentID @ author);
          userIDs = foldl add_id [] (mentioned_ids ''user'' (mv_user (sn_mentions env)) mentions @ opt_list posterUserID);
          s1 = snd (in_chat (AddThreadParticipants (sn_fails env) rootID agentIDs) s);
          s2 = snd (in_chat (AddUserThreadParticipants (sn_fails env) rootID userIDs) s1) in
      notifyThreadParticipants env convID rootID version posterAgentID s2)"

section \<open>Creation\<close>

record create_input =
  ci_convID :: uuid
  ci_content :: string
  ci_attachments :: "attachment list"
  ci_mentions :: "mention list"
  ci_threadRoot :: "uuid option"
  ci_asTask :: bool
  ci_commandID :: "uuid option"
  ci_principalID :: int
  ci_principalName :: string
  ci_principalHandle :: string
  ci_senderAgentID :: "int option"
  ci_role :: int
  ci_senderType :: int
  ci_exceptAgentID :: "int option"
  ci_posterUserID :: "int option"

definition task_message :: "create_input \<Rightarrow> chat_message" where
  "task_message i = (blank_message (ci_convID i))\<lparr>msg_PrincipalID := ci_principalID i, msg_PrincipalName := ci_principalName i,
     msg_PrincipalHandle := ci_principalHandle i, msg_Role := ci_role i, msg_Content := ci_content i, msg_SenderType := ci_senderType i,
     msg_Mentions := ci_mentions i, msg_Attachments := ci_attachments i\<rparr>"

definition plain_message :: "create_input \<Rightarrow> chat_message" where
  "plain_message i = (task_message i)\<lparr>msg_SenderAgentID := ci_senderAgentID i, msg_CommandID := ci_commandID i, msg_ThreadRoot := ci_threadRoot i\<rparr>"

definition createMessage ::
  "service_env \<Rightarrow> create_input \<Rightarrow> service \<Rightarrow> (code, chat_message \<times> int) result \<times> service" where
  "createMessage env i s =
     (case in_chat (if ci_asTask i
              then CreateTaskMessageBumpVersion (sn_chat env) (sn_fails env) (sn_newID env ''message'') (sn_now env) (task_message i)
              else CreateChatMessageBumpVersion (sn_chat env) (sn_fails env) (sn_newID env ''message'') (sn_now env) (plain_message i)) s of
        (Inl _, s1) \<Rightarrow> (Inl CodeInternal, s1)
      | (Inr (msg, newVersion), s1) \<Rightarrow>
          (let s2 = (case ci_threadRoot i of
                 Some root \<Rightarrow> subscribeAndNotifyThread env (ci_convID i) root newVersion (ci_mentions i) (ci_exceptAgentID i) (ci_posterUserID i) s1
               | None \<Rightarrow> notifyConversationAgents env (ci_convID i) newVersion (ci_exceptAgentID i) s1);
               kinds = (case ci_threadRoot i of
                 None \<Rightarrow> (ci_asTask i, False)
               | Some root \<Rightarrow> (case RootMessageKinds (sn_fails env) root (sv_chat s2) of Inl _ \<Rightarrow> (False, False) | Inr k \<Rightarrow> k)) in
           (Inr (msg, newVersion), s2\<lparr>sv_activity := sv_activity s2 @ [(msg, kinds)]\<rparr>)))"

section \<open>System lines\<close>

definition replace_newlines :: "string \<Rightarrow> string" where
  "replace_newlines = map (\<lambda>c. if c = CHR 0x0A then CHR '' '' else c)"

definition singleLinePreview :: "unicode_tables \<Rightarrow> string \<Rightarrow> nat \<Rightarrow> string" where
  "singleLinePreview u text maxRunes =
     (let r = trim_runes u (runes_of (replace_newlines text)) in
      if length r \<le> maxRunes then of_runes r else of_runes (take maxRunes r) @ of_runes [8230])"

definition maxTaskTitleLen :: nat where "maxTaskTitleLen = 60"

definition truncateContent :: "unicode_tables \<Rightarrow> string \<Rightarrow> string" where
  "truncateContent u text = singleLinePreview u text maxTaskTitleLen"

definition postTaskSystemNotification :: "service_env \<Rightarrow> uuid \<Rightarrow> string \<Rightarrow> service \<Rightarrow> service" where
  "postTaskSystemNotification env convID content s =
     (if content = [] then s
      else snd (in_chat (CreateChatMessageBumpVersion (sn_chat env) (sn_fails env) (sn_newID env ''notice'') (sn_now env)
             ((blank_message convID)\<lparr>msg_PrincipalID := 1, msg_PrincipalName := ''SYSTEM'', msg_Role := 1, msg_Content := content,
                msg_SenderType := SenderTypeSystem\<rparr>)) s))"

definition resolveActorName :: "caller \<Rightarrow> string" where
  "resolveActorName who =
     (case ca_User who of Some u \<Rightarrow> us_Name u | None \<Rightarrow> (case ca_Agent who of Some a \<Rightarrow> ag_Name a | None \<Rightarrow> ''Someone''))"

section \<open>Posting\<close>

definition conversation_of :: "service_env \<Rightarrow> uuid \<Rightarrow> service \<Rightarrow> (int \<times> room_row) option" where
  "conversation_of env convID s =
     (if sn_fails env ''get conversation'' then None
      else
        (case (find (\<lambda>c. cv_ID c = convID) (md_convs (sv_members s)), room_of convID (sv_chat s)) of
           (Some c, Some r) \<Rightarrow> Some (cv_Type c, r)
         | _ \<Rightarrow> None))"

text \<open>The validation of a thread root that both handlers make.\<close>

definition thread_root :: "service_env \<Rightarrow> uuid \<Rightarrow> string \<Rightarrow> service \<Rightarrow> (code, uuid option) result" where
  "thread_root env convID root s =
     (if root = [] then Inr None
      else
        (case sn_Parse env root of
           None \<Rightarrow> Inl CodeInvalidArgument
         | Some rootID \<Rightarrow>
             (case IsThreadRoot (sn_fails env) convID rootID (sv_chat s) of
                Inl _ \<Rightarrow> Inl CodeInternal
              | Inr isRoot \<Rightarrow> if isRoot then Inr (Some rootID) else Inl CodeInvalidArgument)))"

record send_request =
  sq_Conversation :: string
  sq_Content :: string
  sq_ThreadRoot :: string
  sq_AsTask :: bool
  sq_Mentions :: "mention option list"
  sq_Attachments :: "attachment option list"

definition validateSendMessageContent :: "send_request \<Rightarrow> bool" where
  "validateSendMessageContent req \<longleftrightarrow> \<not> (sq_Content req = [] \<and> sq_Attachments req = [])"

definition content_mentions :: "service_env \<Rightarrow> uuid \<Rightarrow> string \<Rightarrow> service \<Rightarrow> mention list \<times> service" where
  "content_mentions env convID content s =
     (case in_members (\<lambda>md. case parseContentMentions (sn_mentions env) (sn_members env) (sn_fails env) convID content (sv_index s) md of
              (ms, x, md1) \<Rightarrow> ((ms, x), md1)) s of
        ((ms, x), s1) \<Rightarrow> (ms, s1\<lparr>sv_index := x\<rparr>))"

definition SendMessage :: "service_env \<Rightarrow> caller \<Rightarrow> send_request \<Rightarrow> service \<Rightarrow> (code, chat_message) result \<times> service" where
  "SendMessage env who req s =
     (if \<not> validateSendMessageContent req then (Inl CodeInvalidArgument, s)
      else
        (case parseConversationID (sn_uuid env) (sq_Conversation req) of
           None \<Rightarrow> (Inl CodeInvalidArgument, s)
         | Some convID \<Rightarrow>
             (case ca_User who of
                None \<Rightarrow> (Inl CodePermissionDenied, s)
              | Some user \<Rightarrow>
                  (case conversation_of env convID s of
                     None \<Rightarrow> (Inl CodeNotFound, s)
                   | Some (type, conv) \<Rightarrow>
                       if type = ConversationTypeAgentDM \<or> ro_Archived conv then (Inl CodePermissionDenied, s)
                       else
                         (case thread_root env convID (sq_ThreadRoot req) s of
                            Inl e \<Rightarrow> (Inl e, s)
                          | Inr root \<Rightarrow>
                              if sq_AsTask req \<and> root \<noteq> None then (Inl CodeInvalidArgument, s)
                              else
                                (case resolve_attachments env (sv_files s) convID (sq_Attachments req) of
                                   Inl e \<Rightarrow> (Inl e, s)
                                 | Inr attachments \<Rightarrow>
                                     (case content_mentions env convID (sq_Content req) s of
                                        (parsed, s1) \<Rightarrow>
                                          (case createMessage env \<lparr>ci_convID = convID, ci_content = sq_Content req, ci_attachments = attachments,
                                                  ci_mentions = mergeMentions parsed (sq_Mentions req), ci_threadRoot = root,
                                                  ci_asTask = sq_AsTask req, ci_commandID = None, ci_principalID = us_ID user,
                                                  ci_principalName = us_Name user, ci_principalHandle = us_Handle user, ci_senderAgentID = None,
                                                  ci_role = 1, ci_senderType = SenderTypeUser, ci_exceptAgentID = None,
                                                  ci_posterUserID = Some (us_ID user)\<rparr> s1 of
                                             (Inl e, s2) \<Rightarrow> (Inl e, s2)
                                           | (Inr (msg, _), s2) \<Rightarrow>
                                               (Inr msg,
                                                if sq_AsTask req
                                                then postTaskSystemNotification env convID
                                                  (sn_Sprintf env (NoticeCreated (us_Name user)
                                                     (case msg_TaskInfo msg of None \<Rightarrow> 0 | Some t \<Rightarrow> ti_TaskNumber t)
                                                     (truncateContent (mv_unicode (sn_mentions env)) (sq_Content req)))) s2
                                                else s2)))))))))"

record post_request =
  pq_Conversation :: string
  pq_BaseVersion :: int
  pq_Content :: string
  pq_CommandId :: string
  pq_ThreadRoot :: string
  pq_Attachments :: "attachment option list"

record post_response =
  pp_Committed :: bool
  pp_Message :: "chat_message option"
  pp_CurrentVersion :: int
  pp_NewMessages :: "(chat_message \<times> bool) list"

definition is_own :: "int option \<Rightarrow> chat_message \<Rightarrow> bool" where
  "is_own agentID m \<longleftrightarrow> agentID \<noteq> None \<and> msg_SenderAgentID m = agentID"

text \<open>\<open>others\<close> is what other requests commit between the read of the conversation and the insert.\<close>

definition commit_post ::
  "service_env \<Rightarrow> agent_caller \<Rightarrow> post_request \<Rightarrow> uuid \<Rightarrow> room_row \<Rightarrow> (service \<Rightarrow> service) \<Rightarrow> service \<Rightarrow>
     (code, post_response) result \<times> service" where
  "commit_post env agent req convID conv others s =
     (let principalID = (if ro_OwnerID conv > 0 then ro_OwnerID conv else 1);
          commandID = (if pq_CommandId req = [] then None else sn_Parse env (pq_CommandId req)) in
      case resolve_attachments env (sv_files s) convID (pq_Attachments req) of
        Inl e \<Rightarrow> (Inl e, s)
      | Inr attachments \<Rightarrow>
          (case thread_root env convID (pq_ThreadRoot req) s of
             Inl e \<Rightarrow> (Inl e, s)
           | Inr root \<Rightarrow>
               (case content_mentions env convID (pq_Content req) s of
                  (mentions, s1) \<Rightarrow>
                    (case createMessage env \<lparr>ci_convID = convID, ci_content = pq_Content req, ci_attachments = attachments,
                            ci_mentions = mentions, ci_threadRoot = root, ci_asTask = False, ci_commandID = commandID,
                            ci_principalID = principalID, ci_principalName = [],
                            ci_principalHandle = (case sn_handle env principalID of None \<Rightarrow> [] | Some h \<Rightarrow> h),
                            ci_senderAgentID = Some (i32 (ag_ID agent)), ci_role = 2, ci_senderType = SenderTypeAgent,
                            ci_exceptAgentID = Some (ag_ID agent), ci_posterUserID = None\<rparr> (others s1) of
                       (Inl e, s2) \<Rightarrow> (Inl e, s2)
                     | (Inr (msg, newVersion), s2) \<Rightarrow>
                         (Inr \<lparr>pp_Committed = True, pp_Message = Some msg, pp_CurrentVersion = newVersion, pp_NewMessages = []\<rparr>,
                          snd (in_chat (UpsertCursor (sn_fails env) (ag_ID agent) convID newVersion) s2))))))"

definition PostMessage ::
  "service_env \<Rightarrow> caller \<Rightarrow> post_request \<Rightarrow> (service \<Rightarrow> service) \<Rightarrow> service \<Rightarrow> (code, post_response) result \<times> service" where
  "PostMessage env who req others s =
     (case ca_Agent who of
        None \<Rightarrow> (Inl CodeUnauthenticated, s)
      | Some agent \<Rightarrow>
          (case parseConversationID (sn_uuid env) (pq_Conversation req) of
             None \<Rightarrow> (Inl CodeInvalidArgument, s)
           | Some convID \<Rightarrow>
               (case conversation_of env convID s of
                  None \<Rightarrow> (Inl CodeNotFound, s)
                | Some (type, conv) \<Rightarrow>
                    (case in_members (IsConversationMember (sn_members env) (sn_fails env) convID MemberTypeAgent (ag_ResourceID agent)) s of
                       (Inl _, s1) \<Rightarrow> (Inl CodeInternal, s1)
                     | (Inr isMember, s1) \<Rightarrow>
                         if \<not> isMember \<or> ro_Archived conv then (Inl CodePermissionDenied, s1)
                         else if pq_BaseVersion req = ro_Version conv then commit_post env agent req convID conv others s1
                         else
                           (case ListConversationMessages (sn_chat env) (sn_fails env) convID (pq_BaseVersion req) 0 50 0 (sv_chat s1) (sv_chat s1) of
                              Inl _ \<Rightarrow> (Inl CodeInternal, s1)
                            | Inr (newMsgs, _) \<Rightarrow>
                                (Inr \<lparr>pp_Committed = False, pp_Message = None, pp_CurrentVersion = ro_Version conv,
                                   pp_NewMessages = map (\<lambda>m. (m, is_own (Some (ag_ID agent)) m)) newMsgs\<rparr>, s1))))))"

section \<open>Reading\<close>

record page_env =
  pg_Marshal :: "int \<times> int \<Rightarrow> string"
  pg_Unmarshal :: "string \<Rightarrow> (int \<times> int) option"

definition parseLimitAndOffset :: "page_env \<Rightarrow> string \<Rightarrow> int \<Rightarrow> int \<Rightarrow> (code, int \<times> int) result" where
  "parseLimitAndOffset pages token limit maximum =
     (let clamp = (\<lambda>l :: int. let l' = (if l \<le> 0 then 10 else l) in if l' > maximum then maximum else l') in
      if token = [] then Inr (clamp limit, 0)
      else
        (case pg_Unmarshal pages token of
           None \<Rightarrow> Inl CodeInvalidArgument
         | Some (l, off) \<Rightarrow> if l < 0 then Inl CodeInvalidArgument else Inr (clamp limit, off)))"

definition getNextPageToken :: "page_env \<Rightarrow> int \<Rightarrow> int \<Rightarrow> string" where
  "getNextPageToken pages limit offset = pg_Marshal pages (i32 limit, i32 (offset + limit))"

record list_request =
  lq_Conversation :: string
  lq_ThreadRoot :: string
  lq_AfterVersion :: int
  lq_BeforeVersion :: int
  lq_PageSize :: int
  lq_PageToken :: string
  lq_WaitMs :: int

record list_response =
  lp_Messages :: "(chat_message \<times> bool \<times> reaction list) list"
  lp_NextPageToken :: string
  lp_CurrentVersion :: int

definition maxLongPollWaitMs :: int where "maxLongPollWaitMs = 30000"

text \<open>A statement of a read runs in the pair of states of its two reads; a negative offset is refused by the database.\<close>

definition store_read ::
  "(nat \<Rightarrow> nat \<Rightarrow> chat_db \<Rightarrow> chat_db \<Rightarrow> (chat_error, chat_message list \<times> int) result) \<Rightarrow> int \<Rightarrow> int \<Rightarrow> chat_db \<times> chat_db \<Rightarrow>
     (code, chat_message list \<times> int) result" where
  "store_read read limit offset d =
     (if offset < 0 then Inl CodeInternal
      else (case read (nat limit) (nat offset) (fst d) (snd d) of Inl _ \<Rightarrow> Inl CodeInternal | Inr x \<Rightarrow> Inr x))"

text \<open>The three read modes: \<open>read after before\<close> is the store's query, \<open>few\<close> says that a delta holds nothing new.\<close>

definition read_modes ::
  "(int \<Rightarrow> int \<Rightarrow> nat \<Rightarrow> nat \<Rightarrow> chat_db \<Rightarrow> chat_db \<Rightarrow> (chat_error, chat_message list \<times> int) result) \<Rightarrow>
     (chat_message list \<Rightarrow> bool) \<Rightarrow> list_request \<Rightarrow> int \<Rightarrow> int \<Rightarrow> chat_db \<times> chat_db \<Rightarrow> chat_db \<times> chat_db \<Rightarrow>
     (chat_db \<times> chat_db) poll_event list \<Rightarrow> (code, chat_message list \<times> int) result option" where
  "read_modes read few req limit offset d d1 events =
     (let waitMs = (if lq_WaitMs req > maxLongPollWaitMs then maxLongPollWaitMs else lq_WaitMs req) in
      if lq_BeforeVersion req > 0 then Some (store_read (read 0 (lq_BeforeVersion req)) limit 0 d)
      else if lq_AfterVersion req > 0 then
        (let readDelta = store_read (read (lq_AfterVersion req) 0) (limit + 1) offset in
         case readDelta d of
           Inl e \<Rightarrow> Some (Inl e)
         | Inr (msgs, v) \<Rightarrow>
             if few msgs \<and> waitMs > 0 then longPollDelta True readDelta (\<lambda>ms. \<not> few ms) d1 events else Some (Inr (msgs, v)))
      else Some (store_read (read 0 0) limit 0 d))"

definition next_page ::
  "page_env \<Rightarrow> list_request \<Rightarrow> int \<Rightarrow> int \<Rightarrow> chat_message list \<Rightarrow> chat_message list \<times> string" where
  "next_page pages req limit offset msgs =
     (if lq_BeforeVersion req = 0 \<and> lq_AfterVersion req > 0 \<and> int (length msgs) = limit + 1
      then (take (nat limit) msgs, getNextPageToken pages limit offset) else (msgs, []))"

text \<open>The link of the reading agent's running command; \<open>cmdID\<close> is what the dispatcher tracks for the agent.\<close>

definition link_on_read :: "service_env \<Rightarrow> caller \<Rightarrow> string \<Rightarrow> uuid \<Rightarrow> command_db \<Rightarrow> command_db" where
  "link_on_read env who cmdID convID cdb =
     (if ca_Agent who = None \<or> cmdID = [] then cdb
      else (case sn_Parse env cmdID of None \<Rightarrow> cdb | Some cid \<Rightarrow> snd (LinkCommandConversation (sn_fails env) cid convID cdb)))"

definition reactionCallerFromContext :: "caller \<Rightarrow> int option \<times> int option" where
  "reactionCallerFromContext who =
     (case ca_Agent who of Some a \<Rightarrow> (None, Some (ag_ID a)) | None \<Rightarrow> (map_option us_ID (ca_User who), None))"

definition fillReactions ::
  "service_env \<Rightarrow> (string \<Rightarrow> nat) \<Rightarrow> caller \<Rightarrow> chat_message list \<Rightarrow> reaction_db \<Rightarrow>
     (code, (chat_message \<times> bool \<times> reaction list) list) result" where
  "fillReactions env rank who msgs rdb =
     (let own = is_own (map_option ag_ID (ca_Agent who)) in
      if msgs = [] then Inr []
      else
        (case reactionCallerFromContext who of
           (p, a) \<Rightarrow>
             (case ListReactionsForMessages rank (sn_fails env) (map msg_ID msgs) p a rdb of
                Inl _ \<Rightarrow> Inl CodeInternal
              | Inr by_id \<Rightarrow> Inr (map (\<lambda>m. (m, own m, by_id (msg_ID m))) msgs))))"

definition answer_read ::
  "service_env \<Rightarrow> page_env \<Rightarrow> (string \<Rightarrow> nat) \<Rightarrow> caller \<Rightarrow> list_request \<Rightarrow> uuid \<Rightarrow> int \<Rightarrow> int \<Rightarrow> string \<Rightarrow> reaction_db \<Rightarrow> command_db \<Rightarrow>
     (code, chat_message list \<times> int) result option \<Rightarrow> (code, list_response) result option \<times> command_db" where
  "answer_read env pages rank who req convID limit offset cmdID rdb cdb outcome =
     (case outcome of
        None \<Rightarrow> (None, cdb)
      | Some (Inl e) \<Rightarrow> (Some (Inl e), cdb)
      | Some (Inr (msgs, v)) \<Rightarrow>
          (case next_page pages req limit offset msgs of
             (shown, token) \<Rightarrow>
               (Some (case fillReactions env rank who shown rdb of
                        Inl e \<Rightarrow> Inl e
                      | Inr ms \<Rightarrow> Inr \<lparr>lp_Messages = ms, lp_NextPageToken = token, lp_CurrentVersion = v\<rparr>),
                link_on_read env who cmdID convID cdb)))"

definition list_conversation_messages ::
  "service_env \<Rightarrow> page_env \<Rightarrow> (string \<Rightarrow> nat) \<Rightarrow> caller \<Rightarrow> list_request \<Rightarrow> string \<Rightarrow> chat_db \<times> chat_db \<Rightarrow> chat_db \<times> chat_db \<Rightarrow>
     (chat_db \<times> chat_db) poll_event list \<Rightarrow> reaction_db \<Rightarrow> command_db \<Rightarrow> (code, list_response) result option \<times> command_db" where
  "list_conversation_messages env pages rank who req cmdID d d1 events rdb cdb =
     (case parseConversationID (sn_uuid env) (lq_Conversation req) of
        None \<Rightarrow> (Some (Inl CodeInvalidArgument), cdb)
      | Some convID \<Rightarrow>
          if lq_AfterVersion req > 0 \<and> lq_BeforeVersion req > 0 then (Some (Inl CodeInvalidArgument), cdb)
          else
            (case parseLimitAndOffset pages (lq_PageToken req) (lq_PageSize req) 100 of
               Inl e \<Rightarrow> (Some (Inl e), cdb)
             | Inr (limit, offset) \<Rightarrow>
                 answer_read env pages rank who req convID limit offset cmdID rdb cdb
                   (read_modes (ListConversationMessages (sn_chat env) (sn_fails env) convID) (\<lambda>ms. ms = []) req limit offset d d1 events)))"

definition list_thread_messages ::
  "service_env \<Rightarrow> page_env \<Rightarrow> (string \<Rightarrow> nat) \<Rightarrow> caller \<Rightarrow> list_request \<Rightarrow> string \<Rightarrow> chat_db \<times> chat_db \<Rightarrow> chat_db \<times> chat_db \<Rightarrow>
     (chat_db \<times> chat_db) poll_event list \<Rightarrow> reaction_db \<Rightarrow> command_db \<Rightarrow> (code, list_response) result option \<times> command_db" where
  "list_thread_messages env pages rank who req cmdID d d1 events rdb cdb =
     (case parseConversationID (sn_uuid env) (lq_Conversation req) of
        None \<Rightarrow> (Some (Inl CodeInvalidArgument), cdb)
      | Some convID \<Rightarrow>
          if lq_ThreadRoot req = [] then (Some (Inl CodeInvalidArgument), cdb)
          else
            (case sn_Parse env (lq_ThreadRoot req) of
               None \<Rightarrow> (Some (Inl CodeInvalidArgument), cdb)
             | Some rootID \<Rightarrow>
                 if lq_AfterVersion req > 0 \<and> lq_BeforeVersion req > 0 then (Some (Inl CodeInvalidArgument), cdb)
                 else
                   (case parseLimitAndOffset pages (lq_PageToken req) (lq_PageSize req) 100 of
                      Inl e \<Rightarrow> (Some (Inl e), cdb)
                    | Inr (limit, offset) \<Rightarrow>
                        answer_read env pages rank who req convID limit offset cmdID rdb cdb
                          (read_modes (ListThreadMessages (sn_chat env) (sn_fails env) convID rootID) (\<lambda>ms. length ms \<le> 1) req limit offset
                             d d1 events))))"

section \<open>Pages\<close>

lemma fill_reactions_ok:
  assumes "sn_fails env = no_fail" "reactions_ok rdb"
  shows "\<exists>xs. fillReactions env rank who msgs rdb = Inr xs \<and> map fst xs = msgs"
proof -
  have "reactions_of rank (rd_chat rdb) p a (rd_rows rdb) i \<noteq> None" for p a i
  proof -
    have "aggregate (rd_chat rdb) p a (filter (\<lambda>r. rx_MessageID r = i) (rd_rows rdb)) e \<noteq> None" for e
      using aggregate_exact [OF assms(2) refl, where msgID = i and p = p and a = a and emoji = e] by auto
    then have "None \<notin> set (map (aggregate (rd_chat rdb) p a (filter (\<lambda>r. rx_MessageID r = i) (rd_rows rdb))) es)" for es
      unfolding set_map by (metis imageE)
    then have "all_some (map (aggregate (rd_chat rdb) p a (filter (\<lambda>r. rx_MessageID r = i) (rd_rows rdb))) es) \<noteq> None" for es
      unfolding all_some_eq by simp
    then show ?thesis unfolding reactions_of_def Let_def .
  qed
  then have "\<exists>m. ListReactionsForMessages rank no_fail ids p a rdb = Inr m" for ids p a
    by (simp add: ListReactionsForMessages_def queryReactions_def Let_def list_ex_iff del: not_None_eq)
  moreover obtain p a where "reactionCallerFromContext who = (p, a)" by fastforce
  ultimately obtain m where "ListReactionsForMessages rank no_fail (map msg_ID msgs) p a rdb = Inr m" by blast
  then show ?thesis using assms(1) \<open>reactionCallerFromContext who = (p, a)\<close> by (auto simp: fillReactions_def Let_def o_def)
qed

lemma page_limit:
  assumes "parseLimitAndOffset pages token sz 100 = Inr (limit, off)"
  shows "1 \<le> limit" "limit \<le> 100"
  using assms by (auto simp: parseLimitAndOffset_def Let_def split: if_splits option.splits)

text \<open>What a read that does not wait answers.\<close>

definition answered :: "(code, list_response) result option \<times> command_db \<Rightarrow> uuid list \<Rightarrow> string \<Rightarrow> int \<Rightarrow> bool" where
  "answered r ids token v \<longleftrightarrow> (\<exists>resp. fst r = Some (Inr resp) \<and> map (\<lambda>(m, _). msg_ID m) (lp_Messages resp) = ids \<and>
     lp_NextPageToken resp = token \<and> lp_CurrentVersion resp = v)"

lemma answer_read_page:
  assumes "sn_fails env = no_fail" "reactions_ok rdb" "lq_BeforeVersion req = 0" "lq_AfterVersion req > 0"
  shows "answered (answer_read env pages rank who req convID limit off cmdID rdb cdb (Some (Inr (msgs, v))))
    (map msg_ID (if int (length msgs) = limit + 1 then take (nat limit) msgs else msgs))
    (if int (length msgs) = limit + 1 then getNextPageToken pages limit off else []) v"
proof -
  let ?shown = "if int (length msgs) = limit + 1 then take (nat limit) msgs else msgs"
  obtain xs where xs: "fillReactions env rank who ?shown rdb = Inr xs" "map fst xs = ?shown" using fill_reactions_ok [OF assms(1,2)] by blast
  have "map (\<lambda>(m, _). msg_ID m) xs = map msg_ID (map fst xs)" by auto
  then show ?thesis using xs assms(3,4) by (simp add: answered_def answer_read_def next_page_def split: if_splits)
qed

text \<open>The delta of a conversation, one page of it.\<close>

definition delta_ids :: "uuid \<Rightarrow> int \<Rightarrow> chat_db \<Rightarrow> uuid list" where
  "delta_ids convID a db = map mr_ID (conversation_delta convID a db)"

definition plain_delta :: "list_request \<Rightarrow> bool" where
  "plain_delta req \<longleftrightarrow> lq_AfterVersion req > 0 \<and> lq_BeforeVersion req = 0 \<and> lq_WaitMs req \<le> 0"

lemma channel_page:
  assumes "sn_fails env = no_fail" "rows_ok (sn_chat env) db" "room_of convID db = Some room" "reactions_ok rdb" "plain_delta req"
    and "parseConversationID (sn_uuid env) (lq_Conversation req) = Some convID"
    and "parseLimitAndOffset pages (lq_PageToken req) (lq_PageSize req) 100 = Inr (limit, off)" "0 \<le> off"
    and "ids = delta_ids convID (lq_AfterVersion req) db"
  shows "answered (list_conversation_messages env pages rank who req cmdID (db, db) d1 events rdb cdb)
    (take (nat limit) (drop (nat off) ids)) (if length ids > nat off + nat limit then getNextPageToken pages limit off else []) (ro_Version room)"
proof -
  let ?a = "lq_AfterVersion req"
  have a: "?a > 0" "lq_BeforeVersion req = 0" "\<not> lq_WaitMs req > 0" using assms(5) by (auto simp: plain_delta_def)
  have l: "1 \<le> limit" using page_limit [OF assms(7)] by simp
  obtain msgs where m: "ListConversationMessages (sn_chat env) no_fail convID ?a 0 (nat (limit + 1)) (nat off) db db = Inr (msgs, ro_Version room)"
    "map msg_ID msgs = map mr_ID (conversation_query convID ?a 0 (nat (limit + 1)) (nat off) db)"
    using conversation_read_exact [OF assms(2,3), of ?a 0 "nat (limit + 1)" "nat off"] a(1) by (auto simp: id_def)
  have ids: "map msg_ID msgs = take (nat (limit + 1)) (drop (nat off) ids)"
    unfolding m(2) conversation_query_delta [OF a(1)] limited_def assms(9) delta_ids_def by (simp add: take_map drop_map)
  have len: "int (length msgs) = limit + 1 \<longleftrightarrow> length ids > nat off + nat limit"
    using arg_cong [OF ids, of length] l by (auto simp: min_def) 
  have page: "map msg_ID (if int (length msgs) = limit + 1 then take (nat limit) msgs else msgs) = take (nat limit) (drop (nat off) ids)"
  proof (cases "length ids > nat off + nat limit")
    case True
    then show ?thesis using len ids l by (simp add: take_map [symmetric] min_def)
  next
    case False
    then show ?thesis using len ids l by simp
  qed
  have modes: "read_modes (ListConversationMessages (sn_chat env) (sn_fails env) convID) (\<lambda>ms. ms = []) req limit off (db, db) d1 events =
      Some (Inr (msgs, ro_Version room))"
    using a m(1) assms(1,8) by (simp add: read_modes_def store_read_def Let_def maxLongPollWaitMs_def)
  show ?thesis
    using answer_read_page [OF assms(1,4) a(2,1), of pages rank who convID limit off cmdID cdb msgs "ro_Version room"] a(2) assms(6,7)
    unfolding page unfolding len by (simp add: list_conversation_messages_def modes)
qed

lemma thread_page:
  assumes "sn_fails env = no_fail" "rows_ok (sn_chat env) db" "room_of convID db = Some room" "reactions_ok rdb" "plain_delta req"
    and "parseConversationID (sn_uuid env) (lq_Conversation req) = Some convID" "lq_ThreadRoot req \<noteq> []" "sn_Parse env (lq_ThreadRoot req) = Some rootID"
    and "parseLimitAndOffset pages (lq_PageToken req) (lq_PageSize req) 100 = Inr (limit, off)" "0 \<le> off"
    and "find (\<lambda>r. mr_ID r = rootID \<and> mr_ConversationID r = convID \<and> mr_ThreadRoot r = None) (cd_messages db) = Some root"
    and "ids = map mr_ID (thread_delta rootID (lq_AfterVersion req) db)" "left = length ids - nat off"
  shows "answered (list_thread_messages env pages rank who req cmdID (db, db) d1 events rdb cdb)
    (rootID # take (if left = nat limit then nat limit - 1 else nat limit + 1) (drop (nat off) ids))
    (if left = nat limit then getNextPageToken pages limit off else []) (ro_Version room)"
proof -
  let ?a = "lq_AfterVersion req"
  have a: "?a > 0" "lq_BeforeVersion req = 0" "\<not> lq_WaitMs req > 0" using assms(5) by (auto simp: plain_delta_def)
  have l: "1 \<le> limit" using page_limit [OF assms(9)] by simp
  obtain msgs where m: "ListThreadMessages (sn_chat env) no_fail convID rootID ?a 0 (nat (limit + 1)) (nat off) db db = Inr (msgs, ro_Version room)"
    "map msg_ID msgs = rootID # map mr_ID (thread_query rootID ?a 0 (nat (limit + 1)) (nat off) db)"
    using thread_read_exact [OF assms(2,3) _ assms(11), of ?a 0 "nat (limit + 1)" "nat off"] a(1) by (auto simp: id_def)
  have ids: "map msg_ID msgs = rootID # take (nat (limit + 1)) (drop (nat off) ids)"
    unfolding m(2) thread_query_delta [OF a(1)] limited_def assms(12) by (simp add: take_map drop_map)
  have n: "nat (limit + 1) = Suc (nat limit)" using l by simp
  have len: "int (length msgs) = limit + 1 \<longleftrightarrow> left = nat limit"
    using arg_cong [OF ids, of length] l assms(13) by (auto simp: min_def)
  have page: "map msg_ID (if int (length msgs) = limit + 1 then take (nat limit) msgs else msgs) =
      rootID # take (if left = nat limit then nat limit - 1 else nat limit + 1) (drop (nat off) ids)"
  proof (cases "left = nat limit")
    case True
    have "nat limit = Suc (nat limit - 1)" using l by simp
    then have "take (nat limit) (map msg_ID msgs) = rootID # take (nat limit - 1) (drop (nat off) ids)"
      unfolding ids by (metis take_Suc_Cons take_take min.absorb1 diff_le_self le_SucI n)
    then show ?thesis using True len by (simp add: take_map)
  next
    case False
    then show ?thesis using len ids n by simp
  qed
  have modes: "read_modes (ListThreadMessages (sn_chat env) (sn_fails env) convID rootID) (\<lambda>ms. length ms \<le> 1) req limit off (db, db) d1 events =
      Some (Inr (msgs, ro_Version room))"
    using a m(1) assms(1,10) by (simp add: read_modes_def store_read_def Let_def maxLongPollWaitMs_def)
  show ?thesis
    using answer_read_page [OF assms(1,4) a(2,1), of pages rank who convID limit off cmdID cdb msgs "ro_Version room"] a(2) assms(6-9)
    unfolding page unfolding len by (simp add: list_thread_messages_def modes [simplified])
qed

section \<open>Following the tokens\<close>

text \<open>A client that asks for the next page until no token comes back.\<close>

fun walk_pages :: "(string \<Rightarrow> (uuid list \<times> string) option) \<Rightarrow> nat \<Rightarrow> string \<Rightarrow> uuid list option" where
  "walk_pages read 0 token = None"
| "walk_pages read (Suc n) token =
     (case read token of
        None \<Rightarrow> None
      | Some (ids, token') \<Rightarrow> if token' = [] then Some ids else map_option ((@) ids) (walk_pages read n token'))"

definition page_ids :: "(code, list_response) result option \<times> command_db \<Rightarrow> (uuid list \<times> string) option" where
  "page_ids r =
     (case fst r of Some (Inr resp) \<Rightarrow> Some (map (\<lambda>(m, _). msg_ID m) (lp_Messages resp), lp_NextPageToken resp) | _ \<Rightarrow> None)"

lemma page_ids_answered: "answered r ids token v \<Longrightarrow> page_ids r = Some (ids, token)"
  by (auto simp: answered_def page_ids_def)

definition channel_read ::
  "service_env \<Rightarrow> page_env \<Rightarrow> (string \<Rightarrow> nat) \<Rightarrow> caller \<Rightarrow> list_request \<Rightarrow> chat_db \<Rightarrow> reaction_db \<Rightarrow> command_db \<Rightarrow> string \<Rightarrow>
     (uuid list \<times> string) option" where
  "channel_read env pages rank who req db rdb cdb token =
     page_ids (list_conversation_messages env pages rank who (req\<lparr>lq_PageToken := token\<rparr>) [] (db, db) (db, db) [] rdb cdb)"

text \<open>The documented behaviour of the token codec: what it encodes it decodes, and a page token is not empty.\<close>

definition tokens_ok :: "page_env \<Rightarrow> bool" where
  "tokens_ok pages \<longleftrightarrow> (\<forall>l off. 0 < l \<longrightarrow> l \<le> 100 \<longrightarrow> 0 \<le> off \<longrightarrow> off < 2 ^ 31 \<longrightarrow>
     pg_Marshal pages (l, off) \<noteq> [] \<and> pg_Unmarshal pages (pg_Marshal pages (l, off)) = Some (l, off))"

lemma token_offset:
  assumes "tokens_ok pages" "parseLimitAndOffset pages [] sz 100 = Inr (limit, 0)" "0 \<le> off" "off + limit < 2 ^ 31"
  shows "getNextPageToken pages limit off \<noteq> []"
    and "parseLimitAndOffset pages (getNextPageToken pages limit off) sz 100 = Inr (limit, off + limit)"
proof -
  have l: "1 \<le> limit" "limit \<le> 100" using page_limit [OF assms(2)] by auto
  have t: "getNextPageToken pages limit off = pg_Marshal pages (limit, off + limit)"
    using l assms(3,4) by (simp add: getNextPageToken_def i32_id)
  have "pg_Marshal pages (limit, off + limit) \<noteq> [] \<and> pg_Unmarshal pages (pg_Marshal pages (limit, off + limit)) = Some (limit, off + limit)"
    using assms(1) l assms(3,4) unfolding tokens_ok_def by simp
  then show "getNextPageToken pages limit off \<noteq> []" "parseLimitAndOffset pages (getNextPageToken pages limit off) sz 100 = Inr (limit, off + limit)"
    using assms(2) l unfolding t by (auto simp: parseLimitAndOffset_def Let_def)
qed

lemma walk_from:
  assumes "sn_fails env = no_fail" "rows_ok (sn_chat env) db" "room_of convID db = Some room" "reactions_ok rdb" "plain_delta req"
    and "parseConversationID (sn_uuid env) (lq_Conversation req) = Some convID" "tokens_ok pages"
    and "parseLimitAndOffset pages [] (lq_PageSize req) 100 = Inr (limit, 0)"
    and "ids = delta_ids convID (lq_AfterVersion req) db" "int (length ids) + 100 < 2 ^ 31"
  shows "parseLimitAndOffset pages token (lq_PageSize req) 100 = Inr (limit, off) \<Longrightarrow> 0 \<le> off \<Longrightarrow> off \<le> int (length ids) \<Longrightarrow>
    length ids - nat off < n \<Longrightarrow> walk_pages (channel_read env pages rank who req db rdb cdb) n token = Some (drop (nat off) ids)"
proof (induction n arbitrary: token off)
  case (Suc n)
  let ?more = "length ids > nat off + nat limit"
  let ?next = "getNextPageToken pages limit off"
  have l: "1 \<le> limit" "limit \<le> 100" using page_limit [OF assms(8)] by auto
  have "answered (list_conversation_messages env pages rank who (req\<lparr>lq_PageToken := token\<rparr>) [] (db, db) (db, db) [] rdb cdb)
      (take (nat limit) (drop (nat off) ids)) (if ?more then ?next else []) (ro_Version room)"
    by (rule channel_page [OF assms(1-4)]) (use assms(5,6,9) Suc.prems in \<open>simp_all add: plain_delta_def\<close>)
  then have read: "channel_read env pages rank who req db rdb cdb token = Some (take (nat limit) (drop (nat off) ids), if ?more then ?next else [])"
    unfolding channel_read_def by (rule page_ids_answered)
  show ?case
  proof (cases ?more)
    case True
    then have o: "off + limit \<le> int (length ids)" "off + limit < 2 ^ 31" using assms(10) Suc.prems(2) l by linarith+
    have s: "nat (off + limit) = nat off + nat limit" using l Suc.prems(2) by simp
    have "length ids - nat (off + limit) < n" using Suc.prems(2,4) True l unfolding s by linarith
    then have "walk_pages (channel_read env pages rank who req db rdb cdb) n ?next = Some (drop (nat (off + limit)) ids)"
      using Suc.IH [OF token_offset(2) [OF assms(7,8) Suc.prems(2) o(2)]] o(1) Suc.prems(2) l by simp
    moreover have "take (nat limit) (drop (nat off) ids) @ drop (nat (off + limit)) ids = drop (nat off) ids"
      unfolding s by (metis append_take_drop_id drop_drop add.commute)
    ultimately show ?thesis using read True token_offset(1) [OF assms(7,8) Suc.prems(2) o(2)] by simp
  next
    case False
    then show ?thesis using read by simp
  qed
qed simp

text \<open>C25: Following the page tokens of a channel delta from the first page to the page without a token returns every message after the
  given version exactly once and in order, whatever page size is asked for, as long as nothing is posted in between.\<close>

theorem channel_pages_complete:
  assumes "sn_fails env = no_fail" "rows_ok (sn_chat env) db" "room_of convID db = Some room" "reactions_ok rdb" "plain_delta req"
    and "parseConversationID (sn_uuid env) (lq_Conversation req) = Some convID" "tokens_ok pages"
    and "int (length (delta_ids convID (lq_AfterVersion req) db)) + 100 < 2 ^ 31"
  shows "walk_pages (channel_read env pages rank who req db rdb cdb) (length (delta_ids convID (lq_AfterVersion req) db) + 1) [] =
    Some (delta_ids convID (lq_AfterVersion req) db)"
proof -
  obtain limit where l: "parseLimitAndOffset pages [] (lq_PageSize req) 100 = Inr (limit, 0)" by (simp add: parseLimitAndOffset_def Let_def)
  show ?thesis using walk_from [OF assms(1-7) l refl assms(8) l, of "length (delta_ids convID (lq_AfterVersion req) db) + 1"] by simp
qed

text \<open>C26: A thread delta is paged wrongly. With exactly a page of new replies left, the answer drops the last of them and issues the token of the
  page that starts after it; with more than a page left the answer holds one reply more than asked for and no token, so that
  from two replies more on the rest is neither shown nor announced. With less than a page left, or with a page and one reply, everything is
  shown and there is no token.\<close>

theorem thread_pages_lose_replies:
  assumes "sn_fails env = no_fail" "rows_ok (sn_chat env) db" "room_of convID db = Some room" "reactions_ok rdb" "plain_delta req"
    and "parseConversationID (sn_uuid env) (lq_Conversation req) = Some convID" "lq_ThreadRoot req \<noteq> []" "sn_Parse env (lq_ThreadRoot req) = Some rootID"
    and "parseLimitAndOffset pages (lq_PageToken req) (lq_PageSize req) 100 = Inr (limit, off)" "0 \<le> off"
    and "find (\<lambda>r. mr_ID r = rootID \<and> mr_ConversationID r = convID \<and> mr_ThreadRoot r = None) (cd_messages db) = Some root"
    and "ids = map mr_ID (thread_delta rootID (lq_AfterVersion req) db)" "left = length ids - nat off"
    and "page_ids (list_thread_messages env pages rank who req cmdID (db, db) d1 events rdb cdb) = Some (shown, token)"
  shows "(left < nat limit \<longrightarrow> shown = rootID # drop (nat off) ids \<and> token = []) \<and>
    (left = nat limit \<longrightarrow> shown = rootID # butlast (drop (nat off) ids) \<and> token = getNextPageToken pages limit off) \<and>
    (left > nat limit \<longrightarrow> shown = rootID # take (nat limit + 1) (drop (nat off) ids) \<and> token = [])"
proof -
  from page_ids_answered [OF thread_page [OF assms(1-13)]] assms(14)
  have s: "shown = rootID # take (if left = nat limit then nat limit - 1 else nat limit + 1) (drop (nat off) ids)"
    "token = (if left = nat limit then getNextPageToken pages limit off else [])" by simp_all
  then show ?thesis using assms(13) by (auto simp: butlast_conv_take)
qed

section \<open>What a handler leaves alone\<close>

lemma in_chat_state: "sv_chat (snd (in_chat f s)) = snd (f (sv_chat s))" "fst (in_chat f s) = fst (f (sv_chat s))"
  by (simp_all add: in_chat_def split: prod.split)

lemma in_members_tables:
  "cd_tasks (sv_chat (snd (in_members f s))) = cd_tasks (sv_chat s)"
  "cd_messages (sv_chat (snd (in_members f s))) = cd_messages (sv_chat s)"
  "cd_rooms (sv_chat (snd (in_members f s))) = cd_rooms (sv_chat s)"
  "cd_agent_cursors (sv_chat (snd (in_members f s))) = cd_agent_cursors (sv_chat s)"
  by (simp_all add: in_members_def Let_def split: prod.split)

lemma post_tables:
  "cd_tasks (snd (CreateChatMessageBumpVersion env fails newID now msg db)) = cd_tasks db"
  "cd_agent_cursors (snd (CreateChatMessageBumpVersion env fails newID now msg db)) = cd_agent_cursors db"
proof -
  obtain r db' where p: "CreateChatMessageBumpVersion env fails newID now msg db = (r, db')" by fastforce
  from post_effect [OF p] have "cd_tasks db' = cd_tasks db \<and> cd_agent_cursors db' = cd_agent_cursors db"
    by (cases r) (auto simp: map_rooms_def)
  with p show "cd_tasks (snd (CreateChatMessageBumpVersion env fails newID now msg db)) = cd_tasks db"
    "cd_agent_cursors (snd (CreateChatMessageBumpVersion env fails newID now msg db)) = cd_agent_cursors db" by simp_all
qed


section \<open>What a committed post covers\<close>

lemma created_version:
  assumes "createMessage env i s = (Inr (msg, v), s')" "ci_asTask i = False"
  shows "\<exists>room. room_of (ci_convID i) (sv_chat s) = Some room \<and> v = ro_Version room + 1"
proof -
  let ?f = "CreateChatMessageBumpVersion (sn_chat env) (sn_fails env) (sn_newID env ''message'') (sn_now env) (plain_message i)"
  obtain r db where p: "?f (sv_chat s) = (r, db)" by fastforce
  have "r = Inr (msg, v)" using assms p by (cases r) (auto simp: createMessage_def in_chat_def Let_def)
  with post_effect [OF p] show ?thesis by (auto simp: plain_message_def task_message_def blank_message_def)
qed

lemma content_mentions_tables:
  assumes "content_mentions env convID content s = (ms, s')"
  shows "cd_messages (sv_chat s') = cd_messages (sv_chat s)" "cd_rooms (sv_chat s') = cd_rooms (sv_chat s)"
proof -
  let ?f = "\<lambda>md. case parseContentMentions (sn_mentions env) (sn_members env) (sn_fails env) convID content (sv_index s) md of
              (ms, x, md1) \<Rightarrow> ((ms, x), md1)"
  obtain r s1 where m: "in_members ?f s = (r, s1)" by fastforce
  then have "sv_chat s' = sv_chat s1" using assms by (cases r) (auto simp: content_mentions_def)
  then show "cd_messages (sv_chat s') = cd_messages (sv_chat s)" "cd_rooms (sv_chat s') = cd_rooms (sv_chat s)"
    using in_members_tables(2,3) [of ?f s] m by simp_all
qed

lemma room_of_cong: "cd_rooms db = cd_rooms db' \<Longrightarrow> room_of c db = room_of c db'"
  by (simp add: room_of_def)

text \<open>C27: The check that an agent has read everything before it posts is not atomic with the post. A post is committed only when the version the agent
  names was the conversation's when the handler read it; what other requests commit from then to the insert is neither refused nor shown: the post takes
  the version after theirs, and the handler moves the agent's cursor over it, so that no later delta of the agent holds their messages. Only if
  nothing comes in between is the new version the next one.\<close>

theorem post_covers_unseen:
  assumes "PostMessage env who req others s = (Inr resp, s')" "pp_Committed resp" "ca_Agent who = Some agent"
    and "parseConversationID (sn_uuid env) (pq_Conversation req) = Some convID" "\<not> sn_fails env ''agent cursor''"
  shows "\<exists>conv s1 room v. room_of convID (sv_chat s) = Some conv \<and> pq_BaseVersion req = ro_Version conv \<and>
    cd_messages (sv_chat s1) = cd_messages (sv_chat s) \<and> cd_rooms (sv_chat s1) = cd_rooms (sv_chat s) \<and>
    room_of convID (sv_chat (others s1)) = Some room \<and> pp_CurrentVersion resp = ro_Version room + 1 \<and>
    cd_agent_cursors (sv_chat s') (ag_ID agent, convID) = Some v \<and> v \<ge> pp_CurrentVersion resp \<and>
    (\<forall>r \<in> set (cd_messages (sv_chat (others s1))). mr_RoomVersion r \<le> ro_Version room \<longrightarrow> r \<notin> set (conversation_delta convID v (sv_chat s')))"
proof -
  let ?f = "IsConversationMember (sn_members env) (sn_fails env) convID MemberTypeAgent (ag_ResourceID agent)"
  obtain type conv where conv: "conversation_of env convID s = Some (type, conv)"
    using assms(1,3,4) by (cases "conversation_of env convID s") (auto simp: PostMessage_def)
  obtain mem sm where m: "in_members ?f s = (mem, sm)" by fastforce
  have base: "pq_BaseVersion req = ro_Version conv" and commit: "commit_post env agent req convID conv others sm = (Inr resp, s')"
    using assms(1-4) conv m by (auto simp: PostMessage_def split: sum.splits if_splits prod.splits)
  obtain mentions s1 where cm: "content_mentions env convID (pq_Content req) sm = (mentions, s1)" by fastforce
  obtain i msg v s2 where create: "createMessage env i (others s1) = (Inr (msg, v), s2)" "ci_asTask i = False" "ci_convID i = convID"
    and resp: "pp_CurrentVersion resp = v" and s': "s' = snd (in_chat (UpsertCursor (sn_fails env) (ag_ID agent) convID v) s2)"
    using commit cm by (auto simp: commit_post_def Let_def split: sum.splits prod.splits)
  obtain room where room: "room_of convID (sv_chat (others s1)) = Some room" "v = ro_Version room + 1"
    using created_version [OF create(1,2)] create(3) by blast
  obtain w cs where w: "raise_cursor (ag_ID agent, convID) v (cd_agent_cursors (sv_chat s2)) = (w, cs)" by fastforce
  then have cs: "cs (ag_ID agent, convID) = Some w" "w \<ge> v" by (auto simp: raise_cursor_def Let_def split: option.splits)
  have chat: "cd_agent_cursors (sv_chat s') = cs" unfolding s' using w assms(5) by (simp add: in_chat_state UpsertCursor_def)
  have "room_of convID (sv_chat s) = Some conv" using conv by (auto simp: conversation_of_def split: if_splits option.splits)
  moreover have "cd_messages (sv_chat s1) = cd_messages (sv_chat s)" "cd_rooms (sv_chat s1) = cd_rooms (sv_chat s)"
    using content_mentions_tables [OF cm] in_members_tables(2,3) [of ?f s] m by simp_all
  moreover have "r \<notin> set (conversation_delta convID w (sv_chat s'))" if "mr_RoomVersion r \<le> ro_Version room" for r
    using that cs(2) room(2) by (auto simp: conversation_delta_def asc_def)
  ultimately show ?thesis using base room chat cs resp by (intro exI [of _ conv] exI [of _ s1] exI [of _ room] exI [of _ w]) simp
qed


section \<open>Examples\<close>

text \<open>The conversation \<open>c\<close> with the message \<open>m\<close>, and tokens in unary.\<close>

definition unary_tokens :: page_env where
  "unary_tokens = \<lparr>pg_Marshal = (\<lambda>(l, off). replicate (nat l) CHR ''a'' @ replicate (nat off) CHR ''b''),
     pg_Unmarshal = (\<lambda>s. Some (int (length (takeWhile (\<lambda>c. c = CHR ''a'') s)), int (length (dropWhile (\<lambda>c. c = CHR ''a'') s))))\<rparr>"

lemma unary_tokens_ok: "tokens_ok unary_tokens"
proof -
  have t: "takeWhile (\<lambda>c. c = CHR ''a'') (replicate m CHR ''a'' @ replicate n CHR ''b'') = replicate m CHR ''a''" for m n
    by (induction m) (auto simp: takeWhile_eq_Nil_iff hd_replicate)
  have d: "dropWhile (\<lambda>c. c = CHR ''a'') (replicate m CHR ''a'' @ replicate n CHR ''b'') = replicate n CHR ''b''" for m n
    by (induction m) (auto simp: dropWhile_eq_self_iff hd_replicate)
  show ?thesis by (auto simp: tokens_ok_def unary_tokens_def t d)
qed

definition post_names :: uuid_env where
  "post_names = \<lparr>uuid_Parse = (\<lambda>s. if s = ''c'' then Some 1 else if s = ''m'' then Some 5 else None), uuid_String = (\<lambda>_. ''c'')\<rparr>"

definition post_env :: service_env where
  "post_env = \<lparr>sn_members = channel_env\<lparr>mn_uuid := post_names\<rparr>, sn_chat = sample_chat_env, sn_mentions = sample_mentions,
     sn_fails = no_fail, sn_now = 9, sn_newID = (\<lambda>_. 6), sn_handle = (\<lambda>_. None), sn_Sprintf = (\<lambda>_. ''notice'')\<rparr>"

definition delta_request :: "string \<Rightarrow> list_request" where
  "delta_request token = \<lparr>lq_Conversation = ''conversations/c'', lq_ThreadRoot = ''m'', lq_AfterVersion = 1, lq_BeforeVersion = 0, lq_PageSize = 2,
     lq_PageToken = token, lq_WaitMs = 0\<rparr>"

definition nobody :: caller where
  "nobody = \<lparr>ca_User = None, ca_Agent = None\<rparr>"

definition two_replies :: chat_db where
  "two_replies = sample_chat [sample_message_row 5 1 None, sample_message_row 6 2 (Some 5), sample_message_row 7 3 (Some 5)]"

lemma rows_ok_sample: "rows_ok sample_chat_env (sample_chat (map (\<lambda>(i, v, root). sample_message_row i v root) ms))"
  by (auto simp: rows_ok_def sample_chat_def sample_message_row_def scanChatMessageRow_def decode_json_def sample_chat_env_def principal_row_def split: prod.splits)

lemma post_env_simps:
  "sn_fails post_env = no_fail" "sn_chat post_env = sample_chat_env" "parseConversationID (sn_uuid post_env) ''conversations/c'' = Some 1"
  "sn_Parse post_env ''m'' = Some 5"
  by (simp_all add: post_env_def, code_simp+)

lemma no_reactions_ok: "reactions_ok \<lparr>rd_rows = [], rd_chat = db\<rparr>"
  by (simp add: reactions_ok_def)

theorem channel_pages_complete_witness:
  "\<forall>cdb. walk_pages (channel_read post_env unary_tokens (\<lambda>_. 0) nobody (delta_request []) one_message \<lparr>rd_rows = [], rd_chat = one_message\<rparr> cdb) 2 [] =
     Some [5]"
proof
  fix cdb
  have "delta_ids 1 1 one_message = [5]" by code_simp
  moreover have "plain_delta (delta_request [])" by code_simp
  ultimately show "walk_pages (channel_read post_env unary_tokens (\<lambda>_. 0) nobody (delta_request []) one_message \<lparr>rd_rows = [], rd_chat = one_message\<rparr> cdb) 2 [] = Some [5]"
    using channel_pages_complete [of post_env one_message 1 sample_room "\<lparr>rd_rows = [], rd_chat = one_message\<rparr>" "delta_request []" unary_tokens
        "\<lambda>_. 0" nobody cdb] post_env_simps one_message_ok(1,2) no_reactions_ok unary_tokens_ok by (simp add: delta_request_def numeral_2_eq_2)
qed

theorem thread_pages_lose_replies_witness:
  "\<forall>cdb. \<exists>token. page_ids (list_thread_messages post_env unary_tokens (\<lambda>_. 0) nobody (delta_request []) [] (two_replies, two_replies)
     (two_replies, two_replies) [] \<lparr>rd_rows = [], rd_chat = two_replies\<rparr> cdb) = Some ([5, 6], token) \<and> token \<noteq> []"
proof
  fix cdb
  let ?r = "list_thread_messages post_env unary_tokens (\<lambda>_. 0) nobody (delta_request []) [] (two_replies, two_replies)
     (two_replies, two_replies) [] \<lparr>rd_rows = [], rd_chat = two_replies\<rparr> cdb"
  have f: "find (\<lambda>r. mr_ID r = 5 \<and> mr_ConversationID r = 1 \<and> mr_ThreadRoot r = None) (cd_messages two_replies) = Some (sample_message_row 5 1 None)"
    by (simp add: two_replies_def sample_chat_def sample_message_row_def)
  have i: "map mr_ID (thread_delta 5 1 two_replies) = [6, 7]" by code_simp
  have ok: "rows_ok sample_chat_env two_replies" "room_of 1 two_replies = Some sample_room"
    using rows_ok_sample [of "[(5, 1, None), (6, 2, Some 5), (7, 3, Some 5)]"] by (simp_all add: two_replies_def room_of_def sample_chat_def sample_room_def)
  have p: "parseLimitAndOffset unary_tokens [] 2 100 = Inr (2, 0)" "plain_delta (delta_request [])" by code_simp+
  obtain shown token where r: "page_ids ?r = Some (shown, token)"
    using page_ids_answered [OF thread_page [of post_env two_replies 1 sample_room "\<lparr>rd_rows = [], rd_chat = two_replies\<rparr>" "delta_request []" 5 unary_tokens 2 0
        "sample_message_row 5 1 None" "[6, 7]" 2]] f i ok p post_env_simps no_reactions_ok by (auto simp: delta_request_def)
  have "shown = [5, 6] \<and> token = getNextPageToken unary_tokens 2 0"
    using thread_pages_lose_replies [of post_env two_replies 1 sample_room "\<lparr>rd_rows = [], rd_chat = two_replies\<rparr>" "delta_request []" 5 unary_tokens 2 0
        "sample_message_row 5 1 None" "[6, 7]" 2, OF _ _ _ _ _ _ _ _ _ _ _ _ _ r] f i ok p post_env_simps no_reactions_ok
    by (simp add: delta_request_def)
  moreover have "getNextPageToken unary_tokens 2 0 \<noteq> []" by code_simp
  ultimately show "\<exists>token. page_ids ?r = Some ([5, 6], token) \<and> token \<noteq> []" using r by blast
qed

text \<open>The conversation \<open>c\<close> with the agents a and b, the message \<open>m\<close> and the task \<open>t\<close>; \<open>d\<close> is another conversation.\<close>

definition desk_names :: uuid_env where
  "desk_names = \<lparr>uuid_Parse = (\<lambda>s. if s = ''c'' then Some 1 else if s = ''d'' then Some 2 else if s = ''m'' then Some 5 else if s = ''t'' then Some 6 else None),
     uuid_String = (\<lambda>_. ''c'')\<rparr>"

definition desk_agent_entry :: "string \<Rightarrow> directory_entry option" where
  "desk_agent_entry k =
     (if k = ''a'' then Some \<lparr>de_ID = 1, de_Type = ''agent'', de_Handle = ''a'', de_Name = ''A'', de_Deleted = False\<rparr> else None)"

definition desk_env :: service_env where
  "desk_env = \<lparr>sn_members = \<lparr>mn_uuid = desk_names,
       mn_json = table_codec [([owner_binding [''users/a''], member_binding [''agents/a'', ''agents/b''] None], ''5'')], mn_rfc3339 = (\<lambda>_. ''2030'')\<rparr>,
     sn_chat = sample_chat_env, sn_mentions = sample_mentions\<lparr>mv_agent := desk_agent_entry\<rparr>,
     sn_fails = no_fail, sn_now = 9, sn_newID = (\<lambda>_. 8), sn_handle = (\<lambda>_. None), sn_Sprintf = (\<lambda>_. ''notice'')\<rparr>"

definition desk :: "chat_db \<Rightarrow> service" where
  "desk db = \<lparr>sv_members = channel_db\<lparr>md_policies := \<lparr>ps_rows = [iam_row CONVERSATION ''conversations/c'' ''5''], ps_cache = Map.empty,
       ps_enableCache = True\<rparr>\<rparr>, sv_chat = db\<lparr>cd_principals := (1, ''SYSTEM'', ''system-bot'') # cd_principals db\<rparr>, sv_index = None,
     sv_files = [], sv_wakes = [], sv_activity = []\<rparr>"

definition desk_agent :: "int \<Rightarrow> string \<Rightarrow> agent_caller" where
  "desk_agent i key = \<lparr>ag_ID = i, ag_ResourceID = key, ag_OwnerID = 10, ag_FollowOwnerPermissions = True, ag_CanManageChannelMembers = False,
     ag_Name = key\<rparr>"

definition agent_call :: "int \<Rightarrow> string \<Rightarrow> caller" where
  "agent_call i key = \<lparr>ca_User = None, ca_Agent = Some (desk_agent i key)\<rparr>"


definition desk_post :: post_request where
  "desk_post = \<lparr>pq_Conversation = ''conversations/c'', pq_BaseVersion = 3, pq_Content = ''hi'', pq_CommandId = [], pq_ThreadRoot = [], pq_Attachments = []\<rparr>"

text \<open>A user posts while an agent's post is on its way.\<close>

definition user_posts :: "service \<Rightarrow> service" where
  "user_posts s = snd (in_chat (CreateChatMessageBumpVersion sample_chat_env no_fail 7 8 sample_post) s)"

theorem post_covers_unseen_witness:
  "\<exists>resp s' v. PostMessage desk_env (agent_call 1 ''a'') desk_post user_posts (desk one_message) = (Inr resp, s') \<and> pp_Committed resp \<and>
     pp_CurrentVersion resp = 5 \<and> cd_agent_cursors (sv_chat s') (1, 1) = Some v \<and> v \<ge> 5"
proof -
  let ?r = "PostMessage desk_env (agent_call 1 ''a'') desk_post user_posts (desk one_message)"
  have c: "case fst ?r of Inr resp \<Rightarrow> pp_Committed resp \<and> pp_CurrentVersion resp = 5 | Inl _ \<Rightarrow> False" by code_simp
  then obtain resp s' where r: "?r = (Inr resp, s')" by (cases ?r) (auto split: sum.splits)
  with c have p: "pp_Committed resp" "pp_CurrentVersion resp = 5" by simp_all
  have "parseConversationID (sn_uuid desk_env) ''conversations/c'' = Some 1" by code_simp
  with post_covers_unseen [OF r p(1), of "desk_agent 1 ''a''" 1] r p show ?thesis
    by (auto simp: desk_post_def agent_call_def desk_agent_def desk_env_def)
qed

end
