(* ===== verification/Task_API.thy ===== *)
theory Task_API
  imports Chat_Service
begin

text \<open>
  The task handlers (\<open>backend/manager/api/v1/task.go\<close>) over the service state: parsing of message names, conversion, creation, claim,
  release, status change, assignment, closing, the board, and the work that follows the assignment of a team.

  \<open>others\<close> is what other requests make of the chat tables between an update and the re-read of the message. The wording of the
  system lines is a function of the notice.
\<close>

section \<open>Names\<close>

definition parseMessageName :: "service_env \<Rightarrow> string \<Rightarrow> (code, uuid \<times> uuid) result" where
  "parseMessageName env message =
     (case split_on CHR ''/'' message of
        [kind, c, kind', m] \<Rightarrow>
          if kind = ''conversations'' \<and> kind' = ''messages'' then
            (case (sn_Parse env c, sn_Parse env m) of (Some convID, Some msgID) \<Rightarrow> Inr (convID, msgID) | _ \<Rightarrow> Inl CodeInvalidArgument)
          else Inl CodeInvalidArgument
      | _ \<Rightarrow> Inl CodeInvalidArgument)"

definition task_number :: "chat_message \<Rightarrow> int" where
  "task_number m = (case msg_TaskInfo m of None \<Rightarrow> 0 | Some t \<Rightarrow> ti_TaskNumber t)"

definition is_team_task :: "chat_message \<Rightarrow> bool" where
  "is_team_task m \<longleftrightarrow> (case msg_TaskInfo m of None \<Rightarrow> False | Some t \<Rightarrow> ti_AssigneeType t = 3)"

definition notify_task :: "service_env \<Rightarrow> uuid \<Rightarrow> notice \<Rightarrow> service \<Rightarrow> service" where
  "notify_task env convID n s = postTaskSystemNotification env convID (sn_Sprintf env n) s"

definition task_title :: "service_env \<Rightarrow> string \<Rightarrow> string" where
  "task_title env content = truncateContent (mv_unicode (sn_mentions env)) content"

definition add_activity :: "chat_message \<Rightarrow> bool \<Rightarrow> bool \<Rightarrow> service \<Rightarrow> service" where
  "add_activity m isTask isReminder s = s\<lparr>sv_activity := sv_activity s @ [(m, isTask, isReminder)]\<rparr>"

section \<open>The board\<close>

definition convert_message_to_task ::
  "service_env \<Rightarrow> caller \<Rightarrow> (chat_db \<Rightarrow> chat_db) \<Rightarrow> string \<Rightarrow> service \<Rightarrow> (code, chat_message) result \<times> service" where
  "convert_message_to_task env who others message s =
     (case parseMessageName env message of
        Inl e \<Rightarrow> (Inl e, s)
      | Inr (convID, msgID) \<Rightarrow>
          (case IsThreadRoot (sn_fails env) convID msgID (sv_chat s) of
             Inl _ \<Rightarrow> (Inl CodeInternal, s)
           | Inr isRoot \<Rightarrow>
               if \<not> isRoot then (Inl CodeInvalidArgument, s)
               else
                 (case in_chat (ConvertMessageToTask (sn_chat env) (sn_fails env) others (sn_now env) msgID convID) s of
                    (Inl e, s1) \<Rightarrow> (Inl (if e = ErrTaskAlreadyExists then CodeFailedPrecondition else CodeInternal), s1)
                  | (Inr msg, s1) \<Rightarrow>
                      (Inr msg, add_activity msg True False
                         (notify_task env convID (NoticeConverted (resolveActorName who) (task_number msg) (task_title env (msg_Content msg))) s1)))))"

definition list_tasks ::
  "service_env \<Rightarrow> string \<Rightarrow> int list \<Rightarrow> int \<Rightarrow> string \<Rightarrow> service \<Rightarrow> (code, chat_message list \<times> string) result" where
  "list_tasks env conversation statusFilter pageSize pageToken s =
     (case parseConversationID (sn_uuid env) conversation of
        None \<Rightarrow> Inl CodeInvalidArgument
      | Some convID \<Rightarrow>
          (case ListTasks (sn_chat env) (sn_fails env) convID (map i16 (filter (\<lambda>st. st \<noteq> 0) statusFilter)) pageSize pageToken (sv_chat s) of
             Inl _ \<Rightarrow> Inl CodeInternal | Inr r \<Rightarrow> Inr r))"

definition list_task_counts :: "service_env \<Rightarrow> string \<Rightarrow> service \<Rightarrow> (code, int \<times> int \<times> int \<times> int) result" where
  "list_task_counts env conversation s =
     (case parseConversationID (sn_uuid env) conversation of
        None \<Rightarrow> Inl CodeInvalidArgument
      | Some convID \<Rightarrow> (case ListTaskCounts (sn_fails env) convID (sv_chat s) of Inl _ \<Rightarrow> Inl CodeInternal | Inr r \<Rightarrow> Inr r))"

record task_request =
  tq_Conversation :: string
  tq_Content :: string
  tq_Mentions :: "mention list"
  tq_Attachments :: "attachment option list"

definition create_task ::
  "service_env \<Rightarrow> caller \<Rightarrow> task_request \<Rightarrow> service \<Rightarrow> (code, chat_message) result \<times> service" where
  "create_task env who req s =
     (if tq_Content req = [] then (Inl CodeInvalidArgument, s)
      else
        (case parseConversationID (sn_uuid env) (tq_Conversation req) of
           None \<Rightarrow> (Inl CodeInvalidArgument, s)
         | Some convID \<Rightarrow>
             (case requireAgentMemberByConvID env who convID s of
                (Inl e, s1) \<Rightarrow> (Inl e, s1)
              | (Inr agent, s1) \<Rightarrow>
                  (case resolve_attachments env (sv_files s1) convID (tq_Attachments req) of
                     Inl e \<Rightarrow> (Inl e, s1)
                   | Inr attachments \<Rightarrow>
                       (case in_chat (CreateTaskMessageBumpVersion (sn_chat env) (sn_fails env) (sn_newID env ''message'') (sn_now env)
                               ((blank_message convID)\<lparr>msg_PrincipalID := 1, msg_PrincipalHandle := SystemBotHandle,
                                  msg_SenderAgentID := Some (i32 (ag_ID agent)), msg_AgentResourceID := ag_ResourceID agent,
                                  msg_AgentName := ag_Name agent, msg_Role := 2, msg_Content := tq_Content req, msg_SenderType := SenderTypeAgent,
                                  msg_Mentions := tq_Mentions req, msg_Attachments := attachments\<rparr>)) s1 of
                          (Inl _, s2) \<Rightarrow> (Inl CodeInternal, s2)
                        | (Inr (msg, newVersion), s2) \<Rightarrow>
                            (Inr msg, add_activity msg True False
                               (notify_task env convID (NoticeCreated (ag_Name agent) (task_number msg) (task_title env (msg_Content msg)))
                                 (notifyConversationAgents env convID newVersion None s2))))))))"

section \<open>Team assignments\<close>

definition nl :: string where "nl = [CHR 0x0A]"

definition agentNameForTeam :: "team_member \<Rightarrow> string" where
  "agentNameForTeam m = (if tb_AgentResourceID m \<noteq> [] then tb_AgentResourceID m else ''agent-'' @ int_string (tb_AgentID m))"

definition teamLeaderMember :: "team_message \<Rightarrow> team_member option" where
  "teamLeaderMember team = find (\<lambda>m. tb_Role m = AgentTeamRoleLeader) (ta_Members team)"

definition buildTeamAssignmentMessage :: "team_message \<Rightarrow> chat_message \<Rightarrow> string" where
  "buildTeamAssignmentMessage team msg =
     (let leads = (\<lambda>m. tb_Role m = AgentTeamRoleLeader);
          line = (\<lambda>m. ''- '' @ agentNameForTeam m @ '' ('' @ (if leads m then ''leader'' else ''member'') @ '')'' @
            (if tb_Responsibility m \<noteq> [] then '': '' @ tb_Responsibility m else []) @
            (if leads m
             then ''. You are the leader. You own the task outcome. You must break the work into subtasks, coordinate other members, track progress, and ensure the task moves from IN_PROGRESS to IN_REVIEW/DONE.''
             else ''. Follow the leader'' @ [CHR 0x27] @ ''s coordination and complete the assigned subtasks.'') @ nl) in
      ''[TEAM ASSIGNMENT]'' @ nl @ ''Team: '' @ ta_Title team @ nl @ ''Team ID: '' @ FormatAgentTeamName (ta_ResourceID team) @ nl @
      concat (map (\<lambda>m. ''Leader: '' @ agentNameForTeam m @ nl) (filter leads (ta_Members team))) @
      (if ta_TeamPrompt team \<noteq> [] then ''Team Prompt: '' @ ta_TeamPrompt team @ nl else []) @
      nl @ ''Task Instruction: '' @ msg_Content msg @ nl @ nl @ ''Roles:'' @ nl @ concat (map line (ta_Members team)))"

definition postTeamAssignmentMessage :: "service_env \<Rightarrow> uuid \<Rightarrow> uuid \<Rightarrow> team_message \<Rightarrow> chat_message \<Rightarrow> service \<Rightarrow> service" where
  "postTeamAssignmentMessage env convID msgID team msg s =
     (let content = buildTeamAssignmentMessage team msg in
      if content = [] then s
      else
        (case teamLeaderMember team of
           None \<Rightarrow> s
         | Some leader \<Rightarrow>
             snd (in_chat (CreateChatMessageBumpVersion (sn_chat env) (sn_fails env) (sn_newID env ''team'') (sn_now env)
               ((blank_message convID)\<lparr>msg_PrincipalID := 1, msg_PrincipalHandle := SystemBotHandle, msg_Role := 2, msg_Content := content,
                  msg_SenderType := SenderTypeAgent, msg_SenderAgentID := Some (i32 (tb_AgentID leader)),
                  msg_AgentResourceID := tb_AgentResourceID leader, msg_AgentName := tb_AgentResourceID leader,
                  msg_ThreadRoot := Some msgID\<rparr>)) s)))"

text \<open>The loop over the team: the agents that are members already, and those to add.\<close>

fun split_team ::
  "service_env \<Rightarrow> uuid \<Rightarrow> team_member list \<Rightarrow> int list \<times> string list \<Rightarrow> service \<Rightarrow> (code, int list \<times> string list) result \<times> service" where
  "split_team env convID [] acc s = (Inr acc, s)"
| "split_team env convID (m # ms) (ids, adds) s =
     (case in_members (GetConversationMembership (sn_members env) (sn_fails env) convID MemberTypeAgent (tb_AgentResourceID m)) s of
        (Inl _, s1) \<Rightarrow> (Inl CodeInternal, s1)
      | (Inr (role, _), s1) \<Rightarrow>
          if role \<noteq> 0
          then split_team env convID ms (ids @ map de_ID (opt_list (mv_agent (sn_mentions env) (tb_AgentResourceID m))), adds) s1
          else split_team env convID ms (ids, adds @ [tb_AgentResourceID m]) s1)"

definition seed_all :: "service_env \<Rightarrow> uuid \<Rightarrow> int list \<Rightarrow> chat_db \<Rightarrow> chat_db" where
  "seed_all env convID ids db = foldl (\<lambda>db i. snd (SeedCursorOnJoin (sn_fails env) i convID db db)) db ids"

definition agent_inputs :: "string list \<Rightarrow> member_input list" where
  "agent_inputs adds = map (\<lambda>a. \<lparr>mi_MemberType = MemberTypeAgent, mi_MemberID = a, mi_ExpireAt = None\<rparr>) adds"

definition activate_team ::
  "service_env \<Rightarrow> uuid \<Rightarrow> uuid \<Rightarrow> team_message \<Rightarrow> chat_message \<Rightarrow> int list \<Rightarrow> service \<Rightarrow> service" where
  "activate_team env convID msgID team msg ids s =
     notifyConversationAgents env convID 0 None
       (postTeamAssignmentMessage env convID msgID team msg
          (if ids = [] then s
           else s\<lparr>sv_chat := seed_all env convID ids (snd (AddThreadParticipants (sn_fails env) msgID ids (sv_chat s)))\<rparr>))"

definition afterTeamAssign :: "service_env \<Rightarrow> uuid \<Rightarrow> uuid \<Rightarrow> chat_message \<Rightarrow> service \<Rightarrow> code option \<times> service" where
  "afterTeamAssign env convID msgID msg s =
     (case map_option ti_AssigneeTeamID (msg_TaskInfo msg) of
        None \<Rightarrow> (None, s)
      | Some teamID \<Rightarrow>
          if teamID = [] then (None, s)
          else
            (case GetAgentTeamByResourceID (sn_fails env) teamID (sv_chat s) of
               Inr (Some team) \<Rightarrow>
                 (case split_team env convID (ta_Members team) ([], []) s of
                    (Inl e, s1) \<Rightarrow> (Some e, s1)
                  | (Inr (ids, adds), s1) \<Rightarrow>
                      if adds = [] then (None, activate_team env convID msgID team msg ids s1)
                      else
                        (case in_members (AddConversationMembers (sn_members env) (sn_fails env) (sn_now env) convID (agent_inputs adds)) s1 of
                           (Some _, s2) \<Rightarrow> (Some CodeInternal, s2)
                         | (None, s2) \<Rightarrow>
                             (None, activate_team env convID msgID team msg
                                (ids @ map de_ID (List.map_filter (mv_agent (sn_mentions env)) adds)) s2)))
             | _ \<Rightarrow> (Some CodeInternal, s)))"

section \<open>The life of a task\<close>

definition claim_code :: "chat_error \<Rightarrow> code" where
  "claim_code e = (if e = ErrTaskNotClaimable then CodeFailedPrecondition else if e = ErrTaskNotFound then CodeNotFound else CodeInternal)"

definition claim_task ::
  "service_env \<Rightarrow> caller \<Rightarrow> (chat_db \<Rightarrow> chat_db) \<Rightarrow> string \<Rightarrow> service \<Rightarrow> (code, chat_message) result \<times> service" where
  "claim_task env who others message s =
     (case parseMessageName env message of
        Inl e \<Rightarrow> (Inl e, s)
      | Inr (convID, msgID) \<Rightarrow>
          (case requireAgentMemberByConvID env who convID s of
             (Inl e, s1) \<Rightarrow> (Inl e, s1)
           | (Inr agent, s1) \<Rightarrow>
               (case GetTaskMessage (sn_chat env) (sn_fails env) msgID (sv_chat s1) of
                  Inl e \<Rightarrow> (Inl (if e = ErrTaskNotFound then CodeNotFound else CodeInternal), s1)
                | Inr before \<Rightarrow>
                    (case in_chat (\<lambda>db. if is_team_task before
                              then ClaimTeamTask (sn_chat env) (sn_fails env) others (sn_now env) msgID convID (ag_ID agent) db db
                              else ClaimTask (sn_chat env) (sn_fails env) others (sn_now env) msgID convID (ag_ID agent) db) s1 of
                       (Inl e, s2) \<Rightarrow> (Inl (claim_code e), s2)
                     | (Inr msg, s2) \<Rightarrow>
                         (let s3 = snd (in_chat (AddThreadParticipants (sn_fails env) msgID [ag_ID agent]) s2);
                              teamID = (case msg_TaskInfo msg of None \<Rightarrow> [] | Some t \<Rightarrow> ti_AssigneeTeamID t);
                              s4 = (if is_team_task before \<and> teamID \<noteq> []
                                then (case GetAgentTeamByResourceID (sn_fails env) teamID (sv_chat s3) of
                                        Inr (Some team) \<Rightarrow> postTeamAssignmentMessage env convID msgID team msg s3 | _ \<Rightarrow> s3)
                                else s3) in
                          (Inr msg, notify_task env convID (NoticeClaimed (ag_Name agent) (task_number msg) (task_title env (msg_Content msg))) s4))))))"

definition unclaim_task ::
  "service_env \<Rightarrow> caller \<Rightarrow> (chat_db \<Rightarrow> chat_db) \<Rightarrow> string \<Rightarrow> service \<Rightarrow> (code, chat_message) result \<times> service" where
  "unclaim_task env who others message s =
     (case parseMessageName env message of
        Inl e \<Rightarrow> (Inl e, s)
      | Inr (convID, msgID) \<Rightarrow>
          (case requireAgentMemberByConvID env who convID s of
             (Inl e, s1) \<Rightarrow> (Inl e, s1)
           | (Inr agent, s1) \<Rightarrow>
               (case in_chat (UnclaimTask (sn_chat env) (sn_fails env) others (sn_now env) msgID (ag_ID agent)) s1 of
                  (Inl e, s2) \<Rightarrow>
                    (Inl (if e = ErrTaskNotOwner then CodeFailedPrecondition else if e = ErrTaskNotFound then CodeNotFound else CodeInternal), s2)
                | (Inr msg, s2) \<Rightarrow> (Inr msg, notify_task env convID (NoticeReleased (ag_Name agent) (task_number msg)) s2))))"

definition update_task_status ::
  "service_env \<Rightarrow> caller \<Rightarrow> (chat_db \<Rightarrow> chat_db) \<Rightarrow> string \<Rightarrow> int \<Rightarrow> service \<Rightarrow> (code, chat_message) result \<times> service" where
  "update_task_status env who others message status s =
     (case parseMessageName env message of
        Inl e \<Rightarrow> (Inl e, s)
      | Inr (convID, msgID) \<Rightarrow>
          (let target = i16 status in
           if target = 0 then (Inl CodeInvalidArgument, s)
           else
             (case in_chat (UpdateTaskStatus (sn_chat env) (sn_fails env) others (sn_now env) msgID target) s of
                (Inl e, s1) \<Rightarrow>
                  (Inl (if e = ErrTaskInvalidTransition then CodeInvalidArgument else if e = ErrTaskNotFound then CodeNotFound else CodeInternal), s1)
              | (Inr msg, s1) \<Rightarrow>
                  (Inr msg,
                   if target = TaskStatusInReview then notify_task env convID (NoticeReview (resolveActorName who) (task_number msg)) s1
                   else if target = TaskStatusDone then notify_task env convID (NoticeCompleted (resolveActorName who) (task_number msg)) s1
                   else s1))))"

definition assign_code :: "chat_error \<Rightarrow> code" where
  "assign_code e =
     (if e = ErrTaskNotFound then CodeNotFound
      else if e = ErrTaskAssigneeNotMember then CodeInvalidArgument
      else if e = ErrTaskTeamAlreadyAssigned then CodeFailedPrecondition
      else CodeInternal)"

definition assign_task ::
  "service_env \<Rightarrow> caller \<Rightarrow> (chat_db \<Rightarrow> chat_db) \<Rightarrow> string \<Rightarrow> int \<Rightarrow> string \<Rightarrow> service \<Rightarrow> (code, chat_message) result \<times> service" where
  "assign_task env who others message memberType memberID s =
     (case parseMessageName env message of
        Inl e \<Rightarrow> (Inl e, s)
      | Inr (convID, msgID) \<Rightarrow>
          if memberID = [] then (Inl CodeInvalidArgument, s)
          else
            (case in_chat (\<lambda>db. AssignTask (sn_chat env) (sn_fails env) others (sn_now env) msgID convID memberType memberID db db) s of
               (Inl e, s1) \<Rightarrow> (Inl (assign_code e), s1)
             | (Inr msg, s1) \<Rightarrow>
                 (case (if memberType = 3 then afterTeamAssign env convID msgID msg s1 else (None, s1)) of
                    (Some e, s2) \<Rightarrow> (Inl e, s2)
                  | (None, s2) \<Rightarrow>
                      (Inr msg, notify_task env convID (NoticeAssigned (resolveActorName who) (task_number msg)
                         (case msg_TaskInfo msg of None \<Rightarrow> [] | Some t \<Rightarrow> ti_AssigneeName t)) s2))))"

definition close_task ::
  "service_env \<Rightarrow> caller \<Rightarrow> (chat_db \<Rightarrow> chat_db) \<Rightarrow> string \<Rightarrow> service \<Rightarrow> (code, chat_message) result \<times> service" where
  "close_task env who others message s =
     (case parseMessageName env message of
        Inl e \<Rightarrow> (Inl e, s)
      | Inr (convID, msgID) \<Rightarrow>
          (case in_chat (CloseTask (sn_chat env) (sn_fails env) others (sn_now env) msgID convID) s of
             (Inl e, s1) \<Rightarrow> (Inl (if e = ErrTaskNotFound then CodeNotFound else CodeInternal), s1)
           | (Inr (msg, changed), s1) \<Rightarrow>
               (Inr msg,
                if changed then notify_task env convID (NoticeClosed (resolveActorName who) (task_number msg) (task_title env (msg_Content msg))) s1
                else s1)))"

section \<open>Requests and their effect on the tables\<close>

lemma agent_member_tables:
  assumes "requireAgentMemberByConvID env who convID s = (r, s')"
  shows "cd_tasks (sv_chat s') = cd_tasks (sv_chat s)"
proof (cases "ca_Agent who")
  case (Some agent)
  let ?f = "IsConversationMember (sn_members env) (sn_fails env) convID MemberTypeAgent (ag_ResourceID agent)"
  have "s' = snd (in_members ?f s)" using assms Some by (auto simp: requireAgentMemberByConvID_def split: prod.splits sum.splits)
  then show ?thesis by (simp add: in_members_tables)
qed (use assms in \<open>simp add: requireAgentMemberByConvID_def\<close>)

lemma task_notice_tables [simp]:
  "cd_tasks (sv_chat (notify_task env convID n s)) = cd_tasks (sv_chat s)"
  "cd_agent_cursors (sv_chat (notify_task env convID n s)) = cd_agent_cursors (sv_chat s)"
  by (simp_all add: notify_task_def postTaskSystemNotification_def in_chat_state post_tables)

section \<open>The scope of the task handlers\<close>

lemma map_filter_kept: "\<forall>u \<in> set us. F (g u) = F u \<Longrightarrow> List.map_filter F (map g us) = List.map_filter F us"
  by (induction us) (auto simp: List.map_filter_simps split: option.split)

text \<open>An update of one row by its message id that leaves the teams' index alone.\<close>

lemma status_update:
  assumes "tasks_ok db" "t \<in> set (cd_tasks db)" "TaskStatusTodo \<le> target" "target \<le> TaskStatusDone" "tk_TeamID t = None" "\<not> fails ''task status''"
    and "db1 = snd (UpdateTaskStatus env fails others now (tk_MessageID t) target db)"
  shows "fst (UpdateTaskStatus env fails others now (tk_MessageID t) target db) = GetTaskMessage env fails (tk_MessageID t) (others db1)"
    and "filter (\<lambda>u. tk_MessageID u = tk_MessageID t) (cd_tasks db1) =
      [t\<lparr>tk_Status := target, tk_CompletedAt := (if target = TaskStatusDone then Some now else None), tk_UpdatedAt := now\<rparr>]"
proof -
  let ?p = "\<lambda>u. tk_MessageID u = tk_MessageID t"
  let ?f = "\<lambda>t. t\<lparr>tk_Status := target, tk_CompletedAt := (if target = TaskStatusDone then Some now else None), tk_UpdatedAt := now\<rparr>"
  let ?g = "\<lambda>u. if ?p u then ?f u else u"
  have ix: "task_indexes (cd_tasks db)" using assms(1) by (simp add: tasks_ok_def)
  then have "distinct (map tk_MessageID (cd_tasks db))" by (simp add: task_indexes_def)
  then have only: "u = t" if "u \<in> set (cd_tasks db)" "?p u" for u using that assms(2) by (auto simp: distinct_map inj_on_def)
  let ?F = "\<lambda>t. if tk_Status t \<in> {1, 2, 3} then tk_TeamID t else None"
  have F: "?F (?g u) = ?F u" if "u \<in> set (cd_tasks db)" for u
    by (cases "tk_MessageID u = tk_MessageID t") (use only [OF that] assms(5) in simp_all)
  have "List.map_filter ?F (map ?g (cd_tasks db)) = List.map_filter ?F (cd_tasks db)" by (rule map_filter_kept) (use F in blast)
  then have ot: "open_teams (map ?g (cd_tasks db)) = open_teams (cd_tasks db)" unfolding open_teams_def .
  have keys: "map tk_MessageID (map ?g (cd_tasks db)) = map tk_MessageID (cd_tasks db)"
    "map (\<lambda>t. (tk_ConversationID t, tk_Number t)) (map ?g (cd_tasks db)) = map (\<lambda>t. (tk_ConversationID t, tk_Number t)) (cd_tasks db)" by auto
  have x: "task_indexes (map ?g (cd_tasks db))" using ix unfolding task_indexes_def keys ot .
  have k: "\<And>u. ?p u \<Longrightarrow> ?p u" "tk_MessageID (?f t) = tk_MessageID t" by simp_all
  note u = update_one [where p = ?p and f = ?f and fails = fails and label = "''task status''", OF assms(1,2) refl k(1) assms(6) x k(2)]
  have d: "db1 = snd (update_tasks fails ''task status'' ?p ?f db)" using assms(3,4,7) by (simp add: UpdateTaskStatus_def reread_state)
  obtain db2 where "update_tasks fails ''task status'' ?p ?f db = (Inr 1, db2)" using u(1) by (metis prod.collapse)
  then show "fst (UpdateTaskStatus env fails others now (tk_MessageID t) target db) = GetTaskMessage env fails (tk_MessageID t) (others db1)"
    using assms(3,4) d by (simp add: UpdateTaskStatus_def reread_def)
  show "filter ?p (cd_tasks db1) = [?f t]" using u(2) d by simp
qed

lemma foreign_refused:
  assumes "\<forall>u \<in> set (cd_tasks db). \<not> (tk_MessageID u = msgID \<and> tk_ConversationID u = convID)"
  shows "\<exists>e. ClaimTask env fails others now msgID convID a db = (Inl e, db)"
    and "\<exists>e. ClaimTeamTask env fails others now msgID convID a db db = (Inl e, db)"
    and "\<exists>e. AssignTask env fails others now msgID convID memberType memberID db db = (Inl e, db)"
    and "snd (CloseTask env fails others now msgID convID db) = db"
proof -
  show "\<exists>e. ClaimTask env fails others now msgID convID a db = (Inl e, db)"
    unfolding ClaimTask_def by (rule refused) (use assms in \<open>auto simp: claimable_def\<close>)
  have "find (\<lambda>t. tk_MessageID t = msgID \<and> tk_ConversationID t = convID \<and> tk_Status t = TaskStatusTodo) (cd_tasks db) = None"
    using assms by (auto simp: find_None_iff)
  then show "\<exists>e. ClaimTeamTask env fails others now msgID convID a db db = (Inl e, db)" by (simp add: ClaimTeamTask_def)
  show "\<exists>e. AssignTask env fails others now msgID convID memberType memberID db db = (Inl e, db)"
    using refused [where p = "\<lambda>t. tk_MessageID t = msgID \<and> tk_ConversationID t = convID"] assms
    by (auto simp: AssignTask_def split: sum.split)
  let ?c = "update_tasks fails ''close'' (\<lambda>t. tk_MessageID t = msgID \<and> tk_ConversationID t = convID \<and> tk_Status t \<noteq> TaskStatusDone)
      (\<lambda>t. t\<lparr>tk_Status := TaskStatusDone, tk_CompletedAt := Some now, tk_UpdatedAt := now\<rparr>) db"
  have "snd (CloseTask env fails others now msgID convID db) = snd ?c" unfolding CloseTask_def by (auto split: prod.split sum.split)
  also have "\<dots> = db" by (rule update_none [THEN conjunct1]) (use assms in auto)
  finally show "snd (CloseTask env fails others now msgID convID db) = db" .
qed

lemma foreign_tasks_kept:
  assumes "parseMessageName env message = Inr (convID, msgID)"
    "\<forall>u \<in> set (cd_tasks (sv_chat s)). \<not> (tk_MessageID u = msgID \<and> tk_ConversationID u = convID)"
  shows "cd_tasks (sv_chat (snd (claim_task env who others message s))) = cd_tasks (sv_chat s)"
    and "cd_tasks (sv_chat (snd (assign_task env who others message memberType memberID s))) = cd_tasks (sv_chat s)"
    and "cd_tasks (sv_chat (snd (close_task env who others message s))) = cd_tasks (sv_chat s)"
proof -
  obtain r s1 where m: "requireAgentMemberByConvID env who convID s = (r, s1)" by fastforce
  note k = agent_member_tables [OF m]
  show "cd_tasks (sv_chat (snd (claim_task env who others message s))) = cd_tasks (sv_chat s)"
  proof (cases r)
    case (Inr agent)
    let ?db = "sv_chat s1"
    have "\<forall>u \<in> set (cd_tasks ?db). \<not> (tk_MessageID u = msgID \<and> tk_ConversationID u = convID)" using assms(2) k by simp
    note f = foreign_refused(1,2) [OF this]
    show ?thesis
    proof (cases "GetTaskMessage (sn_chat env) (sn_fails env) msgID ?db")
      case (Inr before)
      let ?f = "\<lambda>db. if is_team_task before
          then ClaimTeamTask (sn_chat env) (sn_fails env) others (sn_now env) msgID convID (ag_ID agent) db db
          else ClaimTask (sn_chat env) (sn_fails env) others (sn_now env) msgID convID (ag_ID agent) db"
      obtain e where "?f ?db = (Inl e, ?db)"
        using f(1) [of "sn_chat env" "sn_fails env" others "sn_now env" "ag_ID agent"]
          f(2) [of "sn_chat env" "sn_fails env" others "sn_now env" "ag_ID agent"] by (cases "is_team_task before") auto
      then have "in_chat ?f s1 = (Inl e, s1)" by (simp add: in_chat_def)
      then show ?thesis using assms(1) m \<open>r = Inr agent\<close> k Inr by (simp add: claim_task_def)
    qed (use assms(1) m Inr k in \<open>simp add: claim_task_def\<close>)
  qed (use assms(1) m k in \<open>simp add: claim_task_def\<close>)
  obtain e where "AssignTask (sn_chat env) (sn_fails env) others (sn_now env) msgID convID memberType memberID (sv_chat s) (sv_chat s) = (Inl e, sv_chat s)"
    using foreign_refused(3) [OF assms(2)] by blast
  then show "cd_tasks (sv_chat (snd (assign_task env who others message memberType memberID s))) = cd_tasks (sv_chat s)"
    using assms(1) by (simp add: assign_task_def in_chat_def)
  obtain r' where "CloseTask (sn_chat env) (sn_fails env) others (sn_now env) msgID convID (sv_chat s) = (r', sv_chat s)"
    using foreign_refused(4) [OF assms(2)] by (metis prod.collapse)
  then show "cd_tasks (sv_chat (snd (close_task env who others message s))) = cd_tasks (sv_chat s)"
    using assms(1) by (auto simp: close_task_def in_chat_def split: sum.split prod.split)
qed

text \<open>C23: Claims, assignments and closings are confined to the conversation their message name gives: a name that joins one conversation with
  a task of another changes no task. The change of a status is not: if the task is assigned to no team, it moves the task of the other
  conversation and answers with that task's message.\<close>

theorem status_crosses_conversations:
  assumes "tasks_ok (sv_chat s)" "t \<in> set (cd_tasks (sv_chat s))" "parseMessageName env message = Inr (convID, tk_MessageID t)"
    and "tk_ConversationID t \<noteq> convID" "TaskStatusTodo \<le> status" "status \<le> TaskStatusDone" "tk_TeamID t = None" "\<not> sn_fails env ''task status''"
  shows "cd_tasks (sv_chat (snd (claim_task env who others message s))) = cd_tasks (sv_chat s) \<and>
    cd_tasks (sv_chat (snd (assign_task env who others message memberType memberID s))) = cd_tasks (sv_chat s) \<and>
    cd_tasks (sv_chat (snd (close_task env who others message s))) = cd_tasks (sv_chat s) \<and>
    filter (\<lambda>u. tk_MessageID u = tk_MessageID t) (cd_tasks (sv_chat (snd (update_task_status env who others message status s)))) =
      [t\<lparr>tk_Status := status, tk_CompletedAt := (if status = TaskStatusDone then Some (sn_now env) else None), tk_UpdatedAt := sn_now env\<rparr>] \<and>
    (\<exists>db. cd_tasks db = cd_tasks (sv_chat (snd (update_task_status env who others message status s))) \<and>
       (\<forall>msg. fst (update_task_status env who others message status s) = Inr msg \<longleftrightarrow>
          GetTaskMessage (sn_chat env) (sn_fails env) (tk_MessageID t) (others db) = Inr msg))"
proof -
  have "distinct (map tk_MessageID (cd_tasks (sv_chat s)))" using assms(1) by (simp add: tasks_ok_def task_indexes_def)
  then have "\<forall>u \<in> set (cd_tasks (sv_chat s)). \<not> (tk_MessageID u = tk_MessageID t \<and> tk_ConversationID u = convID)"
    using assms(2,4) by (auto simp: distinct_map inj_on_def)
  note kept = foreign_tasks_kept [OF assms(3) this]
  have i: "i16 status = status" "status \<noteq> 0" using assms(5,6) by (auto simp: i16_def task_status_defs)
  obtain r db1 where u: "UpdateTaskStatus (sn_chat env) (sn_fails env) others (sn_now env) (tk_MessageID t) status (sv_chat s) = (r, db1)" by fastforce
  have d: "db1 = snd (UpdateTaskStatus (sn_chat env) (sn_fails env) others (sn_now env) (tk_MessageID t) status (sv_chat s))" using u by simp
  note e = status_update [where fails = "sn_fails env", OF assms(1,2,5-8) d]
  have r: "r = GetTaskMessage (sn_chat env) (sn_fails env) (tk_MessageID t) (others db1)" using e(1) u by simp
  have tables: "cd_tasks (sv_chat (snd (update_task_status env who others message status s))) = cd_tasks db1"
    using assms(3) i u by (cases r) (simp_all add: update_task_status_def in_chat_def)
  moreover have "fst (update_task_status env who others message status s) = Inr msg \<longleftrightarrow> r = Inr msg" for msg
    using assms(3) i u by (cases r) (simp_all add: update_task_status_def in_chat_def)
  ultimately show ?thesis using kept e(2) r by (intro conjI exI [of _ db1]) simp_all
qed

lemma scan_rows_source: "scan_rows f rows = Inr xs \<Longrightarrow> x \<in> set xs \<Longrightarrow> \<exists>r \<in> set rows. f r = Inr x"
  by (induction rows arbitrary: xs) (auto split: sum.splits)

lemma get_task_found:
  assumes "GetTaskMessage env fails msgID db = Inr m"
  shows "\<exists>ti t. msg_TaskInfo m = Some ti \<and> t \<in> set (cd_tasks db) \<and> tk_MessageID t = msgID \<and> scan_task db t = Inr ti"
proof -
  from assms obtain row msg msgs1 msgs2 where row: "find (\<lambda>r. mr_ID r = msgID) (joined db) = Some row" "scanChatMessageRow env db row = Inr msg"
    and f: "fillThreadReplyCounts fails db [msg] = Inr msgs1" "fillTaskInfo fails db msgs1 = Inr msgs2" "msg_TaskInfo (hd msgs2) \<noteq> None" "m = hd msgs2"
    by (auto simp: GetTaskMessage_def split: if_splits option.splits sum.splits)
  have "mr_ID row = msgID" using row(1) by (auto simp: find_Some_iff)
  then have msg: "msg_ID msg = msgID" "msg_TaskInfo msg = None" using scan_message_fields [OF row(2)] by simp_all
  obtain msg1 where m1: "msgs1 = [msg1]" "msg_ID msg1 = msgID" "msg_TaskInfo msg1 = None"
    using f(1) msg by (auto simp: fillThreadReplyCounts_def split: if_splits)
  have root: "msg_ThreadRoot msg1 = None" using f(2-4) m1 by (auto simp: fillTaskInfo_def Let_def split: if_splits)
  let ?scan = "\<lambda>t. case scan_task db t of Inl e \<Rightarrow> Inl e | Inr ti \<Rightarrow> Inr (tk_MessageID t, ti)"
  let ?rows = "filter (\<lambda>t. tk_MessageID t \<in> set (map msg_ID [msg1])) (cd_tasks db)"
  obtain infos where i: "scan_rows ?scan ?rows = Inr infos" and m: "m = (case map_of infos msgID of None \<Rightarrow> msg1 | Some ti \<Rightarrow> msg1\<lparr>msg_TaskInfo := Some ti\<rparr>)"
    using f(2,4) m1 root by (auto simp: fillTaskInfo_def Let_def split: if_splits sum.splits)
  then obtain ti where ti: "map_of infos msgID = Some ti" "msg_TaskInfo m = Some ti" using f(3,4) m1(3) by (auto split: option.splits)
  from scan_rows_source [OF i map_of_SomeD [OF ti(1)]] obtain t where "t \<in> set ?rows" "?scan t = Inr (msgID, ti)" by blast
  then show ?thesis using ti(2) by (auto split: sum.splits)
qed

lemma team_task_kind:
  assumes "GetTaskMessage env fails msgID db = Inr m" "\<forall>t \<in> set (cd_tasks db). tk_MessageID t = msgID \<longrightarrow> tk_Type t \<noteq> Some 3"
  shows "\<not> is_team_task m"
proof -
  from get_task_found [OF assms(1)] obtain ti t where t: "msg_TaskInfo m = Some ti" "t \<in> set (cd_tasks db)" "tk_MessageID t = msgID"
    "scan_task db t = Inr ti" by blast
  have "tk_Type t \<noteq> Some 3" using assms(2) t by blast
  then have "ti_AssigneeType ti \<noteq> 3" using t(4)
    by (cases "agent_text db (tk_AgentID t)"; cases "principal_text db (tk_UserID t)"; cases "team_text db (tk_TeamID t)")
      (auto simp: scan_task_def Let_def split: if_splits option.splits)
  then show ?thesis using t(1) by (simp add: is_team_task_def)
qed

lemma release_effect:
  assumes "tasks_ok db" "t \<in> set (cd_tasks db)" "tk_AgentID t = Some a" "tk_Status t = TaskStatusInProgress" "\<not> fails ''unclaim''"
    and "db1 = snd (UnclaimTask env fails others now (tk_MessageID t) a db)"
  shows "filter (\<lambda>u. tk_MessageID u = tk_MessageID t) (cd_tasks db1) =
      [t\<lparr>tk_Status := TaskStatusTodo, tk_AgentID := None, tk_Type := None, tk_UpdatedAt := now\<rparr>]"
    and "tasks_ok db1"
proof -
  let ?p = "\<lambda>u. tk_MessageID u = tk_MessageID t \<and> tk_AgentID u = Some a \<and> tk_Status u = TaskStatusInProgress"
  let ?f = "\<lambda>t. t\<lparr>tk_Status := TaskStatusTodo, tk_AgentID := None, tk_Type := None, tk_UpdatedAt := now\<rparr>"
  have d: "db1 = snd (update_tasks fails ''unclaim'' ?p ?f db)" using assms(6) by (simp add: UnclaimTask_def reread_state)
  have "task_indexes (cd_tasks db)" using assms(1) by (simp add: tasks_ok_def)
  then have x: "task_indexes (map (\<lambda>u. if ?p u then ?f u else u) (cd_tasks db))" by (rule indexes_kept) (simp add: task_status_defs)
  show "filter (\<lambda>u. tk_MessageID u = tk_MessageID t) (cd_tasks db1) = [?f t]"
    unfolding d by (rule update_one(2) [where p = ?p and f = ?f and fails = fails, OF assms(1,2) _ _ assms(5) x]) (use assms(3,4) in simp_all)
  show "tasks_ok db1" using tasks_updated_ok [OF task_ops_update(3) assms(1)] assms(6) by simp
qed

text \<open>C24: A team's task that its leader has claimed and released is open to every agent of the conversation: the row keeps the team, so that the
  team stays busy and cannot be given another task, but the release has cleared the kind of the assignee, so a claim no longer asks for the
  leader and the first agent that claims takes the task over.\<close>

theorem released_team_task_open:
  assumes "tasks_ok db" "t \<in> set (cd_tasks db)" "tk_AgentID t = Some leader" "tk_Status t = TaskStatusInProgress" "tk_TeamID t = Some team"
    and "\<not> fails ''unclaim''" "cd_tasks (sv_chat s) = cd_tasks (snd (UnclaimTask cenv fails others now (tk_MessageID t) leader db))"
    and "parseMessageName env message = Inr (tk_ConversationID t, tk_MessageID t)"
    and "requireAgentMemberByConvID env who (tk_ConversationID t) s = (Inr agent, s1)"
    and "GetTaskMessage (sn_chat env) (sn_fails env) (tk_MessageID t) (sv_chat s1) = Inr before" "\<not> sn_fails env ''claim''"
  shows "TeamHasActiveTask no_fail team (sv_chat s) = Inr True \<and>
    filter (\<lambda>u. tk_MessageID u = tk_MessageID t) (cd_tasks (sv_chat (snd (claim_task env who others' message s)))) =
      [t\<lparr>tk_Status := TaskStatusInProgress, tk_AgentID := Some (ag_ID agent), tk_Type := Some 2, tk_UpdatedAt := sn_now env\<rparr>]"
proof -
  let ?msg = "tk_MessageID t"
  let ?t = "t\<lparr>tk_Status := TaskStatusTodo, tk_AgentID := None, tk_Type := None, tk_UpdatedAt := now\<rparr>"
  note r = release_effect [where others = others and now = now and env = cenv and fails = fails, OF assms(1-4,6) refl]
  have tables: "cd_tasks (sv_chat s1) = cd_tasks (sv_chat s)" using agent_member_tables [OF assms(9)] .
  have rows: "filter (\<lambda>u. tk_MessageID u = ?msg) (cd_tasks (sv_chat s1)) = [?t]" and ok: "tasks_ok (sv_chat s1)"
    using r tasks_ok_cong [of "sv_chat s1"] assms(7) unfolding tables by metis+
  have mem: "?t \<in> set (cd_tasks (sv_chat s1))" using rows by (metis filter_is_subset list.set_intros(1) subsetD)
  have "\<not> is_team_task before"
    by (rule team_task_kind [OF assms(10)]) (use held_by [OF rows] in fastforce)
  obtain c db2 where c: "ClaimTask (sn_chat env) (sn_fails env) others' (sn_now env) ?msg (tk_ConversationID t) (ag_ID agent) (sv_chat s1) = (c, db2)"
    by fastforce
  have "claimable ?msg (tk_ConversationID t) ?t" by (simp add: claimable_def)
  from claim_effect(2) [where others = others' and fails = "sn_fails env", OF ok mem this assms(11) refl, of "sn_chat env" "sn_now env" "ag_ID agent"]
  have "filter (\<lambda>u. tk_MessageID u = ?msg) (cd_tasks db2) =
      [t\<lparr>tk_Status := TaskStatusInProgress, tk_AgentID := Some (ag_ID agent), tk_Type := Some 2, tk_UpdatedAt := sn_now env\<rparr>]"
    unfolding c by simp
  moreover obtain p db3 where p: "AddThreadParticipants (sn_fails env) ?msg [ag_ID agent] db2 = (p, db3)" by fastforce
  then have "cd_tasks db3 = cd_tasks db2" using side_tables(9) [of "sn_fails env" ?msg "[ag_ID agent]" db2] by simp
  with p have "cd_tasks (sv_chat (snd (claim_task env who others' message s))) = cd_tasks db2"
    using assms(8-10) \<open>\<not> is_team_task before\<close> c by (cases c) (simp_all add: claim_task_def in_chat_def Let_def split: prod.split)
  moreover have "TeamHasActiveTask no_fail team (sv_chat s) = Inr True"
    using mem assms(5) unfolding tables by (auto simp: TeamHasActiveTask_def list_ex_iff task_status_defs intro!: bexI [of _ ?t])
  ultimately show ?thesis by simp
qed

section \<open>Archived conversations\<close>

lemma post_appends:
  "\<exists>rows. cd_messages (snd (CreateChatMessageBumpVersion env fails newID now msg db)) = cd_messages db @ rows"
proof -
  obtain r db' where p: "CreateChatMessageBumpVersion env fails newID now msg db = (r, db')" by fastforce
  from post_effect [OF p] have "\<exists>rows. cd_messages db' = cd_messages db @ rows" by (cases r) (auto simp: map_rooms_def)
  with p show ?thesis by simp
qed

lemma task_notice_appends: "\<exists>rows. cd_messages (sv_chat (notify_task env convID n s)) = cd_messages (sv_chat s) @ rows"
  using post_appends by (auto simp: notify_task_def postTaskSystemNotification_def in_chat_state)

lemma wake_agents_chat: "cd_messages (sv_chat (notifyConversationAgents env convID v a s)) = cd_messages (sv_chat s)"
  using in_members_tables(2) [of "ListConversationMembers (sn_members env) (sn_fails env) convID" s]
  by (cases "in_members (ListConversationMembers (sn_members env) (sn_fails env) convID) s")
    (simp add: notifyConversationAgents_def split: sum.split)

lemma agent_member_messages:
  assumes "requireAgentMemberByConvID env who convID s = (r, s')"
  shows "cd_messages (sv_chat s') = cd_messages (sv_chat s)"
proof (cases "ca_Agent who")
  case (Some agent)
  let ?f = "IsConversationMember (sn_members env) (sn_fails env) convID MemberTypeAgent (ag_ResourceID agent)"
  have "s' = snd (in_members ?f s)" using assms Some by (auto simp: requireAgentMemberByConvID_def split: prod.splits sum.splits)
  then show ?thesis by (simp add: in_members_tables)
qed (use assms in \<open>simp add: requireAgentMemberByConvID_def\<close>)

text \<open>Posting to an archived conversation is refused, to users and to agents, and writes no message. Creating a task is not: an agent of
  an archived conversation that calls it posts a message there, because the handler never looks at the archive flag.\<close>

theorem archive_stops_posts_only:
  assumes "conversation_of env convID s = Some (type, conv)" "ro_Archived conv"
    and "parseConversationID (sn_uuid env) (sq_Conversation sreq) = Some convID" "parseConversationID (sn_uuid env) (pq_Conversation preq) = Some convID"
    and "parseConversationID (sn_uuid env) (tq_Conversation treq) = Some convID"
  shows "(\<exists>e. SendMessage env who sreq s = (Inl e, s)) \<and>
    (\<exists>e s'. PostMessage env who preq others s = (Inl e, s') \<and> cd_messages (sv_chat s') = cd_messages (sv_chat s)) \<and>
    (\<forall>msg. fst (create_task env who treq s) = Inr msg \<longrightarrow>
       (\<exists>row rows. cd_messages (sv_chat (snd (create_task env who treq s))) = cd_messages (sv_chat s) @ row # rows \<and>
          mr_ConversationID row = convID))"
proof (intro conjI allI impI)
  show "\<exists>e. SendMessage env who sreq s = (Inl e, s)"
    using assms(1-3) by (cases "ca_User who") (auto simp: SendMessage_def)
  show "\<exists>e s'. PostMessage env who preq others s = (Inl e, s') \<and> cd_messages (sv_chat s') = cd_messages (sv_chat s)"
  proof (cases "ca_Agent who")
    case (Some agent)
    let ?f = "IsConversationMember (sn_members env) (sn_fails env) convID MemberTypeAgent (ag_ResourceID agent)"
    show ?thesis using assms(1,2,4) Some in_members_tables(2) [of ?f s]
      by (cases "in_members ?f s"; cases "fst (in_members ?f s)") (auto simp: PostMessage_def)
  qed (simp add: PostMessage_def)
  fix msg
  assume c: "fst (create_task env who treq s) = Inr msg"
  obtain r s1 where m: "requireAgentMemberByConvID env who convID s = (r, s1)" by fastforce
  with c assms(5) obtain agent where r: "r = Inr agent" by (cases r) (auto simp: create_task_def split: if_splits)
  obtain atts where a: "resolve_attachments env (sv_files s1) convID (tq_Attachments treq) = Inr atts"
    using c assms(5) m r by (cases "resolve_attachments env (sv_files s1) convID (tq_Attachments treq)") (auto simp: create_task_def split: if_splits)
  define post where "post = (blank_message convID)\<lparr>msg_PrincipalID := 1, msg_PrincipalHandle := SystemBotHandle,
      msg_SenderAgentID := Some (i32 (ag_ID agent)), msg_AgentResourceID := ag_ResourceID agent,
      msg_AgentName := ag_Name agent, msg_Role := 2, msg_Content := tq_Content treq, msg_SenderType := SenderTypeAgent,
      msg_Mentions := tq_Mentions treq, msg_Attachments := atts\<rparr>"
  let ?f = "CreateTaskMessageBumpVersion (sn_chat env) (sn_fails env) (sn_newID env ''message'') (sn_now env) post"
  obtain q db where p: "?f (sv_chat s1) = (q, db)" by fastforce
  have eq: "create_task env who treq s = (case in_chat ?f s1 of
      (Inl _, s2) \<Rightarrow> (Inl CodeInternal, s2)
    | (Inr (msg, newVersion), s2) \<Rightarrow>
        (Inr msg, add_activity msg True False
           (notify_task env convID (NoticeCreated (ag_Name agent) (task_number msg) (task_title env (msg_Content msg)))
             (notifyConversationAgents env convID newVersion None s2))))"
    using c assms(5) m r a by (auto simp: create_task_def post_def split: if_splits)
  from c obtain m v where q: "q = Inr (m, v)" unfolding eq by (cases q) (auto simp: in_chat_def p)
  from task_post_effect [OF p] q obtain row where row: "cd_messages db = cd_messages (sv_chat s1) @ [row]" "mr_ConversationID row = convID"
    by (auto simp: post_def blank_message_def)
  let ?s2 = "notifyConversationAgents env convID v None (s1\<lparr>sv_chat := db\<rparr>)"
  obtain rows where "cd_messages (sv_chat (notify_task env convID
      (NoticeCreated (ag_Name agent) (task_number m) (task_title env (msg_Content m))) ?s2)) = cd_messages (sv_chat ?s2) @ rows"
    using task_notice_appends by blast
  then have "cd_messages (sv_chat (snd (create_task env who treq s))) = cd_messages (sv_chat s) @ row # rows"
    unfolding eq by (simp add: in_chat_def p q add_activity_def wake_agents_chat row(1) agent_member_messages [OF m])
  then show "\<exists>row rows. cd_messages (sv_chat (snd (create_task env who treq s))) = cd_messages (sv_chat s) @ row # rows \<and> mr_ConversationID row = convID"
    using row(2) by blast
qed

section \<open>What the assignment of a team covers\<close>

lemma seed_one:
  assumes "room_of convID db = Some room" "fails = no_fail"
  shows "room_of convID (snd (SeedCursorOnJoin fails a convID db db)) = Some room"
    and "(\<exists>v. cd_agent_cursors db (i, convID) = Some v \<and> v \<ge> ro_Version room) \<or> i = a \<Longrightarrow>
      \<exists>v. cd_agent_cursors (snd (SeedCursorOnJoin fails a convID db db)) (i, convID) = Some v \<and> v \<ge> ro_Version room"
proof -
  obtain w cs where w: "raise_cursor (a, convID) (ro_Version room) (cd_agent_cursors db) = (w, cs)" by fastforce
  then have s: "snd (SeedCursorOnJoin fails a convID db db) = db\<lparr>cd_agent_cursors := cs\<rparr>"
    using assms by (simp add: SeedCursorOnJoin_def GetConversationVersion_def UpsertCursor_def)
  show "room_of convID (snd (SeedCursorOnJoin fails a convID db db)) = Some room" unfolding s using assms(1) by (simp add: room_of_def)
  show "\<exists>v. cd_agent_cursors (snd (SeedCursorOnJoin fails a convID db db)) (i, convID) = Some v \<and> v \<ge> ro_Version room"
    if "(\<exists>v. cd_agent_cursors db (i, convID) = Some v \<and> v \<ge> ro_Version room) \<or> i = a"
    unfolding s using w that by (auto simp: raise_cursor_def Let_def split: option.splits)
qed

lemma seed_cursors:
  assumes "room_of convID db = Some room" "sn_fails env = no_fail"
    and "(\<exists>v. cd_agent_cursors db (i, convID) = Some v \<and> v \<ge> ro_Version room) \<or> i \<in> set ids"
  shows "\<exists>v. cd_agent_cursors (seed_all env convID ids db) (i, convID) = Some v \<and> v \<ge> ro_Version room"
  using assms(1,3)
proof (induction ids arbitrary: db)
  case (Cons a ids)
  let ?db = "snd (SeedCursorOnJoin (sn_fails env) a convID db db)"
  have "(\<exists>v. cd_agent_cursors ?db (i, convID) = Some v \<and> v \<ge> ro_Version room) \<or> i \<in> set ids"
    using Cons.prems(2) seed_one(2) [OF Cons.prems(1) assms(2), of i a] by auto
  from Cons.IH [OF seed_one(1) [OF Cons.prems(1) assms(2)] this] show ?case by (simp add: seed_all_def)
qed (auto simp: seed_all_def)

text \<open>The members of a team that the loop finds in the conversation already.\<close>

lemma split_team_ids:
  assumes "split_team env convID ms (ids, adds) s = (Inr (ids', adds'), s')"
  shows "set ids \<subseteq> set ids' \<and> cd_agent_cursors (sv_chat s') = cd_agent_cursors (sv_chat s) \<and> cd_rooms (sv_chat s') = cd_rooms (sv_chat s) \<and>
    (\<forall>m \<in> set ms. \<forall>a. mv_agent (sn_mentions env) (tb_AgentResourceID m) = Some a \<longrightarrow> tb_AgentResourceID m \<in> set adds' \<or> de_ID a \<in> set ids') \<and> set adds \<subseteq> set adds'"
  using assms
proof (induction ms arbitrary: ids adds s)
  case (Cons m ms)
  let ?f = "GetConversationMembership (sn_members env) (sn_fails env) convID MemberTypeAgent (tb_AgentResourceID m)"
  obtain r s1 where g: "in_members ?f s = (r, s1)" by fastforce
  with Cons.prems obtain role ty where r: "r = Inr (role, ty)" by (cases r) (auto split: prod.splits)
  have t: "cd_agent_cursors (sv_chat s1) = cd_agent_cursors (sv_chat s)" "cd_rooms (sv_chat s1) = cd_rooms (sv_chat s)"
    using in_members_tables(3,4) [of ?f s] g by simp_all
  show ?case
  proof (cases "role = 0")
    case True
    then have "split_team env convID ms (ids, adds @ [tb_AgentResourceID m]) s1 = (Inr (ids', adds'), s')" using Cons.prems g r by simp
    from Cons.IH [OF this] t show ?thesis by auto
  next
    case False
    then have "split_team env convID ms (ids @ map de_ID (opt_list (mv_agent (sn_mentions env) (tb_AgentResourceID m))), adds) s1 = (Inr (ids', adds'), s')"
      using Cons.prems g r by simp
    from Cons.IH [OF this] t show ?thesis by (auto simp: opt_list_def)
  qed
qed simp

lemma activate_cursors:
  "cd_agent_cursors (sv_chat (activate_team env convID msgID team msg ids s)) =
     (if ids = [] then cd_agent_cursors (sv_chat s)
      else cd_agent_cursors (seed_all env convID ids (snd (AddThreadParticipants (sn_fails env) msgID ids (sv_chat s)))))"
proof -
  have wake: "cd_agent_cursors (sv_chat (notifyConversationAgents env convID v a s)) = cd_agent_cursors (sv_chat s)" for v a s
    using in_members_tables(4) [of "ListConversationMembers (sn_members env) (sn_fails env) convID" s]
    by (cases "in_members (ListConversationMembers (sn_members env) (sn_fails env) convID) s")
      (simp add: notifyConversationAgents_def split: sum.split)
  have post: "cd_agent_cursors (sv_chat (postTeamAssignmentMessage env convID msgID team msg s)) = cd_agent_cursors (sv_chat s)" for s
    by (simp add: postTeamAssignmentMessage_def Let_def in_chat_state post_tables split: option.split)
  show ?thesis by (simp add: activate_team_def wake post)
qed

text \<open>The assignment of a task to a team moves the cursor of every agent of the team to the version of the conversation, of those that
  have just been added and of those that were members before: a message that such a member had not read yet is in none of its later deltas.\<close>

theorem team_assignment_skips_unread:
  assumes "afterTeamAssign env convID msgID msg s = (None, s')" "map_option ti_AssigneeTeamID (msg_TaskInfo msg) = Some teamID" "teamID \<noteq> []"
    and "GetAgentTeamByResourceID no_fail teamID (sv_chat s) = Inr (Some team)" "m \<in> set (ta_Members team)"
    and "mv_agent (sn_mentions env) (tb_AgentResourceID m) = Some a" "room_of convID (sv_chat s) = Some room" "sn_fails env = no_fail"
  shows "\<exists>v. cd_agent_cursors (sv_chat s') (de_ID a, convID) = Some v \<and> v \<ge> ro_Version room \<and>
    (\<forall>r \<in> set (cd_messages (sv_chat s)). mr_RoomVersion r \<le> ro_Version room \<longrightarrow> r \<notin> set (conversation_delta convID v (sv_chat s')))"
proof -
  obtain r s1 where sp: "split_team env convID (ta_Members team) ([], []) s = (r, s1)" by fastforce
  obtain ids adds where r: "r = Inr (ids, adds)" using assms(1-4,8) sp by (cases r) (auto simp: afterTeamAssign_def split: option.splits)
  note ids = split_team_ids [OF sp [unfolded r]]
  have room1: "room_of convID (sv_chat s1) = Some room" using ids assms(7) room_of_cong by metis
  have "\<exists>s2 ids'. s' = activate_team env convID msgID team msg ids' s2 \<and> de_ID a \<in> set ids' \<and> room_of convID (sv_chat s2) = Some room"
  proof (cases "adds = []")
    case True
    then have "s' = activate_team env convID msgID team msg ids s1" using assms(1-4,8) sp r by (auto simp: afterTeamAssign_def split: option.splits)
    then show ?thesis using ids True assms(5,6) room1 by fastforce
  next
    case False
    let ?f = "AddConversationMembers (sn_members env) (sn_fails env) (sn_now env) convID (agent_inputs adds)"
    obtain e s2 where a: "in_members ?f s1 = (e, s2)" by fastforce
    then have s': "s' = activate_team env convID msgID team msg (ids @ map de_ID (List.map_filter (mv_agent (sn_mentions env)) adds)) s2"
      using assms(1-4,8) sp r False by (cases e) (auto simp: afterTeamAssign_def split: option.splits)
    have "room_of convID (sv_chat s2) = Some room" using in_members_tables(3) [of ?f s1] a room1 room_of_cong by (metis snd_conv)
    moreover have mf: "a \<in> set (List.map_filter (mv_agent (sn_mentions env)) adds)" if "tb_AgentResourceID m \<in> set adds"
      using that assms(6) by (force simp: List.map_filter_def)
    moreover from mf have "de_ID a \<in> set (ids @ map de_ID (List.map_filter (mv_agent (sn_mentions env)) adds))"
      using ids assms(5,6) by auto
    ultimately show ?thesis using s' by blast
  qed
  then obtain s2 ids' where s2: "s' = activate_team env convID msgID team msg ids' s2" "de_ID a \<in> set ids'" "room_of convID (sv_chat s2) = Some room"
    by blast
  let ?db = "snd (AddThreadParticipants (sn_fails env) msgID ids' (sv_chat s2))"
  have "room_of convID ?db = Some room" using s2(3) side_tables(8) room_of_cong by metis
  then obtain v where "cd_agent_cursors (seed_all env convID ids' ?db) (de_ID a, convID) = Some v" "v \<ge> ro_Version room"
    using seed_cursors [of convID ?db room env "de_ID a" ids'] assms(8) s2(2) by blast
  then have "cd_agent_cursors (sv_chat s') (de_ID a, convID) = Some v" "v \<ge> ro_Version room" using s2 by (auto simp: activate_cursors)
  then show ?thesis by (auto simp: conversation_delta_def asc_def)
qed

section \<open>Examples\<close>

definition team_task :: task_row where
  "team_task = \<lparr>tk_MessageID = 5, tk_ConversationID = 1, tk_Number = 1, tk_Status = TaskStatusInProgress, tk_AgentID = Some 1, tk_Type = Some 3,
     tk_UserID = None, tk_TeamID = Some ''T'', tk_UpdatedAt = 9, tk_CompletedAt = None\<rparr>"

definition team_chat :: chat_db where
  "team_chat = one_message\<lparr>cd_tasks := [team_task], cd_teams := [\<lparr>te_ID = ''T'', te_ResourceID = ''t'', te_Name = ''Team'', te_Description = [],
     te_TeamPrompt = [], te_LeaderAgentID = Some 1, te_OwnerID = 10, te_CreatedBy = 10, te_CreatedAt = 1, te_UpdatedAt = 1, te_Deleted = False\<rparr>],
     cd_team_members := [\<lparr>tm_TeamID = ''T'', tm_AgentID = 1, tm_Role = AgentTeamRoleLeader, tm_Responsibility = [], tm_JoinedAt = 1\<rparr>]\<rparr>"

definition frozen_chat :: chat_db where
  "frozen_chat = one_message\<lparr>cd_rooms := [sample_room\<lparr>ro_Archived := True\<rparr>]\<rparr>"

definition released_desk :: service where
  "released_desk = desk (snd (UnclaimTask sample_chat_env no_fail (\<lambda>db. db) 9 5 1 team_chat))"

definition frozen_task :: task_request where
  "frozen_task = \<lparr>tq_Conversation = ''conversations/c'', tq_Content = ''do'', tq_Mentions = [], tq_Attachments = []\<rparr>"

definition desk_send :: send_request where
  "desk_send = \<lparr>sq_Conversation = ''conversations/c'', sq_Content = ''hi'', sq_ThreadRoot = [], sq_AsTask = False, sq_Mentions = [], sq_Attachments = []\<rparr>"

definition team_message_of_task :: chat_message where
  "team_message_of_task = sample_post\<lparr>msg_TaskInfo := Some \<lparr>ti_TaskNumber = 1, ti_Status = 1, ti_AssigneeAgentID = None, ti_AssigneeUserID = None,
     ti_AssigneeType = 3, ti_AssigneeName = [], ti_AssigneeResourceID = [], ti_AssigneeTeamID = ''t'', ti_AssigneeTeamName = [],
     ti_AssigneeTeamLeader = []\<rparr>\<rparr>"

theorem status_crosses_conversations_witness:
  "map tk_Status (filter (\<lambda>u. tk_MessageID u = 6) (cd_tasks (sv_chat (snd (update_task_status desk_env (agent_call 2 ''b'') (\<lambda>db. db)
     ''conversations/d/messages/t'' TaskStatusDone (desk task_chat)))))) = [TaskStatusDone]"
proof -
  let ?t = "\<lparr>tk_MessageID = 6, tk_ConversationID = 1, tk_Number = 1, tk_Status = TaskStatusTodo, tk_AgentID = None, tk_Type = None,
     tk_UserID = None, tk_TeamID = None, tk_UpdatedAt = 9, tk_CompletedAt = None\<rparr> :: task_row"
  have "cd_tasks (sv_chat (desk task_chat)) = cd_tasks task_chat" by (simp add: desk_def)
  with task_chat_ok have ok: "tasks_ok (sv_chat (desk task_chat))" using tasks_ok_cong by metis
  have "?t \<in> set (cd_tasks (sv_chat (desk task_chat)))" by (simp add: desk_def task_chat_tasks)
  moreover have "parseMessageName desk_env ''conversations/d/messages/t'' = Inr (2, tk_MessageID ?t)" by code_simp
  moreover have "tk_ConversationID ?t \<noteq> 2" "TaskStatusTodo \<le> TaskStatusDone" "tk_TeamID ?t = None" "\<not> sn_fails desk_env ''task status''"
    by (simp_all add: task_status_defs desk_env_def)
  ultimately have "filter (\<lambda>u. tk_MessageID u = tk_MessageID ?t) (cd_tasks (sv_chat (snd (update_task_status desk_env (agent_call 2 ''b'') (\<lambda>db. db)
      ''conversations/d/messages/t'' TaskStatusDone (desk task_chat))))) = [?t\<lparr>tk_Status := TaskStatusDone,
        tk_CompletedAt := (if TaskStatusDone = TaskStatusDone then Some (sn_now desk_env) else None), tk_UpdatedAt := sn_now desk_env\<rparr>]"
    using status_crosses_conversations [OF ok, of ?t desk_env _ 2 TaskStatusDone "agent_call 2 ''b''" "\<lambda>db. db", THEN conjunct2, THEN conjunct2,
        THEN conjunct2, THEN conjunct1] by blast
  then show ?thesis by simp
qed

theorem released_team_task_open_witness:
  "map tk_AgentID (filter (\<lambda>u. tk_MessageID u = 5) (cd_tasks (sv_chat (snd (claim_task desk_env (agent_call 2 ''b'') (\<lambda>db. db)
     ''conversations/c/messages/m'' released_desk))))) = [Some 2]"
proof -
  let ?who = "agent_call 2 ''b''" and ?db = "snd (UnclaimTask sample_chat_env no_fail (\<lambda>db. db) 9 5 1 team_chat)"
  have ok: "tasks_ok team_chat" by code_simp
  have t: "team_task \<in> set (cd_tasks team_chat)" "tk_AgentID team_task = Some 1" "tk_Status team_task = TaskStatusInProgress" "tk_TeamID team_task = Some ''T''"
    "tk_MessageID team_task = 5" "tk_ConversationID team_task = 1" by (simp_all add: team_chat_def team_task_def)
  have p: "parseMessageName desk_env ''conversations/c/messages/m'' = Inr (1, 5)" by code_simp
  have "fst (requireAgentMemberByConvID desk_env ?who 1 released_desk) = Inr (desk_agent 2 ''b'')" by code_simp
  then obtain s1 where s1: "requireAgentMemberByConvID desk_env ?who 1 released_desk = (Inr (desk_agent 2 ''b''), s1)" by (metis prod.collapse)
  have "case GetTaskMessage (sn_chat desk_env) (sn_fails desk_env) 5 (sv_chat (snd (requireAgentMemberByConvID desk_env ?who 1 released_desk))) of
      Inr _ \<Rightarrow> True | Inl _ \<Rightarrow> False" by code_simp
  then obtain before where "GetTaskMessage (sn_chat desk_env) (sn_fails desk_env) 5 (sv_chat s1) = Inr before" unfolding s1 by (auto split: sum.splits)
  moreover have "cd_tasks (sv_chat released_desk) = cd_tasks ?db" by (simp add: released_desk_def desk_def)
  ultimately show ?thesis
    using released_team_task_open [OF ok t(1-4), where fails = no_fail and s = released_desk and cenv = sample_chat_env and others = "\<lambda>db. db" and now = 9
        and message = "''conversations/c/messages/m''" and env = desk_env and who = ?who and ?s1.0 = s1 and agent = "desk_agent 2 ''b''" and before = before
        and others' = "\<lambda>db. db"] p s1 t
    by (simp add: desk_env_def desk_agent_def)
qed

theorem archive_stops_posts_only_witness:
  "(\<exists>e. SendMessage desk_env (agent_call 2 ''b'') desk_send (desk frozen_chat) = (Inl e, desk frozen_chat)) \<and>
   map mr_Content (cd_messages (sv_chat (snd (create_task desk_env (agent_call 2 ''b'') frozen_task (desk frozen_chat))))) = [''hi'', ''do'', ''notice'']"
proof -
  have c: "conversation_of desk_env 1 (desk frozen_chat) = Some (2, sample_room\<lparr>ro_Archived := True\<rparr>)" by code_simp
  have p: "parseConversationID (sn_uuid desk_env) ''conversations/c'' = Some 1" by code_simp
  have "map mr_Content (cd_messages (sv_chat (snd (create_task desk_env (agent_call 2 ''b'') frozen_task (desk frozen_chat))))) = [''hi'', ''do'', ''notice'']"
    by code_simp
  then show ?thesis
    using archive_stops_posts_only [OF c, of desk_send desk_post frozen_task "agent_call 2 ''b''" "\<lambda>s. s"] p
    by (simp add: desk_send_def desk_post_def frozen_task_def)
qed

theorem team_assignment_skips_unread_witness:
  "\<exists>s' v. afterTeamAssign desk_env 1 5 team_message_of_task (desk team_chat) = (None, s') \<and> cd_agent_cursors (sv_chat s') (1, 1) = Some v \<and> v \<ge> 3"
proof -
  let ?r = "afterTeamAssign desk_env 1 5 team_message_of_task (desk team_chat)"
  have "fst ?r = None" by code_simp
  then obtain s' where r: "?r = (None, s')" by (metis prod.collapse)
  have "case GetAgentTeamByResourceID no_fail ''t'' (sv_chat (desk team_chat)) of Inr (Some team) \<Rightarrow> map tb_AgentResourceID (ta_Members team) = [''a''] | _ \<Rightarrow> False"
    by code_simp
  then obtain team where t: "GetAgentTeamByResourceID no_fail ''t'' (sv_chat (desk team_chat)) = Inr (Some team)"
    "map tb_AgentResourceID (ta_Members team) = [''a'']" by (auto split: sum.splits option.splits)
  then obtain m where m: "m \<in> set (ta_Members team)" "tb_AgentResourceID m = ''a''" by auto
  have a: "mv_agent (sn_mentions desk_env) ''a'' = Some \<lparr>de_ID = 1, de_Type = ''agent'', de_Handle = ''a'', de_Name = ''A'', de_Deleted = False\<rparr>" by code_simp
  have "room_of 1 (sv_chat (desk team_chat)) = Some sample_room" by code_simp
  with team_assignment_skips_unread [OF r _ _ t(1) m(1), of _ sample_room] a m(2) r show ?thesis
    by (auto simp: team_message_of_task_def desk_env_def sample_room_def)
qed

end
