(* ===== verification/Reaction_API.thy ===== *)
theory Reaction_API
  imports Task_API
begin

text \<open>
  The reaction handlers (\<open>backend/manager/api/v1/command_reaction.go\<close>): the check of the caller, adding and removing. The reaction rows are
  beside the service state; the store reads the messages and members of the service.
\<close>

section \<open>Handlers\<close>

definition reaction_state :: "service \<Rightarrow> reaction_row list \<Rightarrow> reaction_db" where
  "reaction_state s rows = \<lparr>rd_rows = rows, rd_chat = sv_chat s\<rparr>"

definition requireReactionCaller ::
  "service_env \<Rightarrow> caller \<Rightarrow> uuid \<Rightarrow> uuid \<Rightarrow> service \<Rightarrow> (code, int option \<times> int option) result \<times> service" where
  "requireReactionCaller env who convID msgID s =
     (case MessageExistsInConversation (sn_fails env) convID msgID (sv_chat s) of
        Inl _ \<Rightarrow> (Inl CodeInternal, s)
      | Inr exists \<Rightarrow>
          if \<not> exists then (Inl CodeNotFound, s)
          else
            (case ca_Agent who of
               Some agent \<Rightarrow>
                 (case requireAgentMemberByConvID env who convID s of
                    (Inl e, s1) \<Rightarrow> (Inl e, s1)
                  | (Inr _, s1) \<Rightarrow> (Inr (None, Some (ag_ID agent)), s1))
             | None \<Rightarrow>
                 (case ca_User who of
                    Some user \<Rightarrow> (Inr (Some (us_ID user), None), s)
                  | None \<Rightarrow> (Inl CodeUnauthenticated, s))))"

text \<open>What both handlers do before they call the store.\<close>

definition reaction_target ::
  "service_env \<Rightarrow> caller \<Rightarrow> string \<Rightarrow> string \<Rightarrow> service \<Rightarrow>
     (code, uuid \<times> uuid \<times> string \<times> int option \<times> int option) result \<times> service" where
  "reaction_target env who message emoji s =
     (case parseMessageName env message of
        Inl e \<Rightarrow> (Inl e, s)
      | Inr (convID, msgID) \<Rightarrow>
          (case NormalizeReactionEmoji (mv_unicode (sn_mentions env)) emoji of
             None \<Rightarrow> (Inl CodeInvalidArgument, s)
           | Some e \<Rightarrow>
               (case requireReactionCaller env who convID msgID s of
                  (Inl err, s1) \<Rightarrow> (Inl err, s1)
                | (Inr (p, a), s1) \<Rightarrow> (Inr (convID, msgID, e, p, a), s1))))"

definition add_reaction ::
  "service_env \<Rightarrow> (string \<Rightarrow> nat) \<Rightarrow> caller \<Rightarrow> string \<Rightarrow> string \<Rightarrow> service \<times> reaction_row list \<Rightarrow>
     (code, string \<times> reaction list) result \<times> service \<times> reaction_row list" where
  "add_reaction env rank who message emoji st =
     (case reaction_target env who message emoji (fst st) of
        (Inl e, s1) \<Rightarrow> (Inl e, s1, snd st)
      | (Inr (convID, msgID, e, p, a), s1) \<Rightarrow>
          (case AddReaction rank (sn_fails env) (sn_now env) convID msgID p a e (reaction_state s1 (snd st)) of
             (r, db) \<Rightarrow>
               (case r of Inl _ \<Rightarrow> Inl CodeInternal | Inr reactions \<Rightarrow> Inr (message, reactions),
                s1\<lparr>sv_chat := rd_chat db\<rparr>, rd_rows db)))"

definition remove_reaction ::
  "service_env \<Rightarrow> (string \<Rightarrow> nat) \<Rightarrow> caller \<Rightarrow> string \<Rightarrow> string \<Rightarrow> service \<times> reaction_row list \<Rightarrow>
     (code, string \<times> reaction list) result \<times> service \<times> reaction_row list" where
  "remove_reaction env rank who message emoji st =
     (case reaction_target env who message emoji (fst st) of
        (Inl e, s1) \<Rightarrow> (Inl e, s1, snd st)
      | (Inr (convID, msgID, e, p, a), s1) \<Rightarrow>
          (case RemoveReaction rank (sn_fails env) convID msgID p a e (reaction_state s1 (snd st)) of
             (r, db) \<Rightarrow>
               (case r of
                  Inl _ \<Rightarrow> Inl CodeInternal
                | Inr res \<Rightarrow> if \<not> rr_Removed res \<and> rr_Others res then Inl CodePermissionDenied else Inr (message, rr_Reactions res),
                s1\<lparr>sv_chat := rd_chat db\<rparr>, rd_rows db)))"

section \<open>Whose reactions, and where\<close>

lemma target_exact:
  assumes "reaction_target env who message emoji s = (Inr (convID, msgID, e, p, a), s1)"
  shows "parseMessageName env message = Inr (convID, msgID)" "(p, a) = reactionCallerFromContext who"
    "MessageExistsInConversation (sn_fails env) convID msgID (sv_chat s) = Inr True"
    "NormalizeReactionEmoji (mv_unicode (sn_mentions env)) emoji = Some e"
  using assms
  by (auto simp: reaction_target_def requireReactionCaller_def reactionCallerFromContext_def
      split: sum.splits prod.splits option.splits if_splits)

lemma add_rows:
  "AddReaction rank fails now convID msgID p a e st = (r, st') \<Longrightarrow>
     rd_rows st' = rd_rows st \<or> rd_rows st' = rd_rows st @ [\<lparr>rx_MessageID = msgID, rx_PrincipalID = p, rx_AgentID = a, rx_Emoji = e, rx_CreatedAt = now\<rparr>]"
  by (auto simp: AddReaction_def Let_def split: if_splits)

lemma remove_rows:
  "RemoveReaction rank fails convID msgID p a e st = (r, st') \<Longrightarrow>
     rd_rows st' = rd_rows st \<or> rd_rows st' = filter (\<lambda>r. \<not> (rx_MessageID r = msgID \<and> rx_Emoji r = e \<and> by_caller p a r)) (rd_rows st)"
  by (auto simp: RemoveReaction_def Let_def split: if_splits sum.splits)

text \<open>A reaction call touches the reactions of its caller only, on one message of the conversation its name gives: every row an add brings
  and every row a remove takes carries the caller's identity, the emoji of the call and that message, and when the message is not in the
  conversation nothing changes.\<close>

theorem reactions_by_caller_only:
  assumes "add_reaction env rank who message emoji (s, rows) = (r1, s1, rows1)" "remove_reaction env rank who message emoji (s, rows) = (r2, s2, rows2)"
    and "reactionCallerFromContext who = (p, a)"
  shows "set rows \<subseteq> set rows1 \<and> set rows2 \<subseteq> set rows \<and>
    (\<forall>x \<in> (set rows1 - set rows) \<union> (set rows - set rows2). by_caller p a x \<and>
       NormalizeReactionEmoji (mv_unicode (sn_mentions env)) emoji = Some (rx_Emoji x) \<and>
       (\<exists>convID. parseMessageName env message = Inr (convID, rx_MessageID x) \<and>
          MessageExistsInConversation (sn_fails env) convID (rx_MessageID x) (sv_chat s) = Inr True))"
proof (cases "reaction_target env who message emoji s")
  case (Pair t s')
  show ?thesis
  proof (cases t)
    case (Inl e)
    then show ?thesis using assms(1,2) Pair by (auto simp: add_reaction_def remove_reaction_def)
  next
    case (Inr target)
    obtain convID msgID e p' a' where target: "target = (convID, msgID, e, p', a')" by (cases target) auto
    note x = target_exact [OF Pair [unfolded Inr target]]
    have pa: "p' = p" "a' = a" using x(2) assms(3) by auto
    have "rows1 = rows \<or> rows1 = rows @ [\<lparr>rx_MessageID = msgID, rx_PrincipalID = p, rx_AgentID = a, rx_Emoji = e, rx_CreatedAt = sn_now env\<rparr>]"
      using add_rows assms(1) Pair Inr target pa by (fastforce simp: add_reaction_def reaction_state_def split: prod.splits)
    moreover have "rows2 = rows \<or> rows2 = filter (\<lambda>r. \<not> (rx_MessageID r = msgID \<and> rx_Emoji r = e \<and> by_caller p a r)) rows"
      using remove_rows assms(2) Pair Inr target pa by (fastforce simp: remove_reaction_def reaction_state_def split: prod.splits)
    ultimately show ?thesis using x by (auto simp: by_caller_def)
  qed
qed

text \<open>A user adds a reaction in one conversation; the same call under the name of another conversation changes nothing.\<close>

definition desk_user :: caller where
  "desk_user = \<lparr>ca_User = Some (systemBotUser\<lparr>us_ID := 10\<rparr>), ca_Agent = None\<rparr>"

theorem reactions_by_caller_only_witness:
  "\<exists>r s rows. add_reaction desk_env (\<lambda>_. 0) desk_user ''conversations/c/messages/m'' ''ok'' (desk one_message, []) = (r, s, rows) \<and>
     map rx_Emoji rows = [''ok''] \<and> list_all (by_caller (Some 10) None) rows"
proof -
  let ?a = "add_reaction desk_env (\<lambda>_. 0) desk_user ''conversations/c/messages/m'' ''ok'' (desk one_message, [])"
  obtain r1 s1 rows1 where a: "?a = (r1, s1, rows1)" by (cases ?a) auto
  obtain r2 s2 rows2 where b: "remove_reaction desk_env (\<lambda>_. 0) desk_user ''conversations/c/messages/m'' ''ok'' (desk one_message, []) = (r2, s2, rows2)"
    by (cases "remove_reaction desk_env (\<lambda>_. 0) desk_user ''conversations/c/messages/m'' ''ok'' (desk one_message, [])") auto
  have "map rx_Emoji (snd (snd ?a)) = [''ok'']" by code_simp
  moreover have "reactionCallerFromContext desk_user = (Some 10, None)" by (simp add: reactionCallerFromContext_def desk_user_def)
  ultimately show ?thesis using reactions_by_caller_only [OF a b] a by (auto simp: list_all_iff)
qed

end
