(* ===== verification/Channel_Members.thy ===== *)
theory Channel_Members
  imports Reaction_API
begin

text \<open>
  The handlers that change who is in a channel (\<open>backend/manager/api/v1/channel_members.go\<close>, \<open>authz_helper.go\<close>; joining and archiving from
  \<open>channel.go\<close>): adding members and groups, removing, transferring, role changes, leaving.

  The state joins the permission engine's tables, in which the membership policies and the users are, with the chat tables, which
  hold the cursors and the archive flag. Both see the member rows and the row of the conversation, so that a write to these reaches both. The handlers run behind the permission gate of \<open>IAM_Gate\<close>, which is not repeated here. Agents are
  looked up by a parameter; a look-up that fails and one that finds nothing are the same to every caller here.
\<close>

section \<open>State\<close>

record addable_agent = agent_message +
  ag_AllowAddToChannel :: bool

record channels_env =
  xn_iam :: iam_env
  xn_agents :: "string \<Rightarrow> addable_agent option"

record channels =
  xs_iam :: iam_db
  xs_chat :: chat_db

definition xn_fails :: "channels_env \<Rightarrow> string \<Rightarrow> bool" where
  "xn_fails env = iv_fails (xn_iam env)"

definition xn_members :: "channels_env \<Rightarrow> member_env" where
  "xn_members env = iv_members (xn_iam env)"

definition xs_members :: "channels \<Rightarrow> member_db" where
  "xs_members s = (ia_members (xs_iam s))\<lparr>md_meta := cd_meta (xs_chat s)\<rparr>"

definition on_members :: "(member_db \<Rightarrow> 'a \<times> member_db) \<Rightarrow> channels \<Rightarrow> 'a \<times> channels" where
  "on_members f s =
     (case f (xs_members s) of
        (r, md) \<Rightarrow> (r, s\<lparr>xs_iam := (xs_iam s)\<lparr>ia_members := md\<rparr>, xs_chat := (xs_chat s)\<lparr>cd_meta := md_meta md\<rparr>\<rparr>))"

definition on_users :: "(user_store \<Rightarrow> 'a \<times> user_store) \<Rightarrow> channels \<Rightarrow> 'a \<times> channels" where
  "on_users f s = (case f (ia_users (xs_iam s)) of (r, us) \<Rightarrow> (r, s\<lparr>xs_iam := (xs_iam s)\<lparr>ia_users := us\<rparr>\<rparr>))"

definition channel_id :: "channels_env \<Rightarrow> string \<Rightarrow> uuid option" where
  "channel_id env = parseConversationID (mn_uuid (xn_members env))"

definition get_channel :: "channels_env \<Rightarrow> uuid \<Rightarrow> channels \<Rightarrow> conv_row option" where
  "get_channel env convID s = (case GetConversation (xn_iam env) (xs_iam s) convID of ConvFound c \<Rightarrow> Some c | _ \<Rightarrow> None)"

definition ConversationTypeChannel :: int where "ConversationTypeChannel = 2"

section \<open>Callers\<close>

definition requireChannelOwner :: "caller \<Rightarrow> conv_row \<Rightarrow> bool" where
  "requireChannelOwner who conv \<longleftrightarrow> (case ca_User who of None \<Rightarrow> False | Some user \<Rightarrow> cv_OwnerID conv = us_ID user)"

definition caller_member :: "caller \<Rightarrow> (int \<times> string) option" where
  "caller_member who = callerMemberInfo (ca_User who) (map_option agent_message.truncate (ca_Agent who))"

definition resolveUserHandle :: "channels_env \<Rightarrow> int \<Rightarrow> channels \<Rightarrow> string \<times> channels" where
  "resolveUserHandle env principalID s =
     (if principalID = 0 then ([], s)
      else
        (case on_users (GetUserByID (xn_fails env) principalID) s of
           (Inr (Some u), s1) \<Rightarrow> (us_Handle u, s1)
         | (_, s1) \<Rightarrow> ([], s1)))"

definition isUserWorkspaceAdmin :: "channels_env \<Rightarrow> user_message \<Rightarrow> channels \<Rightarrow> (code, bool) result \<times> channels" where
  "isUserWorkspaceAdmin env user s =
     (case on_members (\<lambda>md. case GetWorkspaceIamPolicy (mn_json (xn_members env)) (xn_fails env) (md_policies md) of
              (r, ps) \<Rightarrow> (r, md\<lparr>md_policies := ps\<rparr>)) s of
        (Inl _, s1) \<Rightarrow> (Inl CodeInternal, s1)
      | (Inr m, s1) \<Rightarrow>
          (Inr (GetUserFormattedRolesMap (xn_iam env) (xs_iam s1) user (im_Policy m) (FormatRole WorkspaceAdminRole)), s1))"

definition checkAgentAddableByCaller :: "channels_env \<Rightarrow> caller \<Rightarrow> addable_agent \<Rightarrow> channels \<Rightarrow> code option \<times> channels" where
  "checkAgentAddableByCaller env who agent s =
     (case ca_User who of
        None \<Rightarrow> (Some CodePermissionDenied, s)
      | Some user \<Rightarrow>
          if ag_OwnerID agent \<noteq> 0 \<and> ag_OwnerID agent = us_ID user then (None, s)
          else
            (case isUserWorkspaceAdmin env user s of
               (Inl e, s1) \<Rightarrow> (Some e, s1)
             | (Inr isAdmin, s1) \<Rightarrow> (if isAdmin then None else Some CodePermissionDenied, s1)))"

definition validateChannelUserMember :: "user_message option \<Rightarrow> bool" where
  "validateChannelUserMember user =
     (case user of None \<Rightarrow> False | Some u \<Rightarrow> \<not> us_MemberDeleted u \<and> us_Type u \<noteq> ''SYSTEM_BOT'')"

section \<open>Adding\<close>

record add_member =
  am_Group :: string
  am_MemberType :: int
  am_MemberID :: string
  am_ExpireTime :: "int option"

type_synonym add_acc = "(int \<times> string) list \<times> member_input list"

definition membership_of ::
  "channels_env \<Rightarrow> uuid \<Rightarrow> int \<Rightarrow> string \<Rightarrow> channels \<Rightarrow> (policy_error, int \<times> int) result \<times> channels" where
  "membership_of env convID memberType memberID =
     on_members (GetConversationMembership (xn_members env) (xn_fails env) convID memberType memberID)"

text \<open>The members of a group; who cannot join is skipped.\<close>

fun add_group ::
  "channels_env \<Rightarrow> uuid \<Rightarrow> string \<Rightarrow> int option \<Rightarrow> string list \<Rightarrow> add_acc \<Rightarrow> channels \<Rightarrow> (code, add_acc) result \<times> channels" where
  "add_group env convID owner expireAt [] acc s = (Inr acc, s)"
| "add_group env convID owner expireAt (gm # gms) (seen, inputs) s =
     (case GetUserHandle gm of
        Inl _ \<Rightarrow> add_group env convID owner expireAt gms (seen, inputs) s
      | Inr h \<Rightarrow>
          if (MemberTypeUser, h) \<in> set seen \<or> h = owner then add_group env convID owner expireAt gms (seen, inputs) s
          else
            (case membership_of env convID MemberTypeUser h s of
               (Inl _, s1) \<Rightarrow> (Inl CodeInternal, s1)
             | (Inr (role, _), s1) \<Rightarrow>
                 if role \<noteq> 0 then add_group env convID owner expireAt gms (seen, inputs) s1
                 else
                   (case on_users (GetUserByHandle (xn_fails env) h) s1 of
                      (Inl _, s2) \<Rightarrow> (Inl CodeInternal, s2)
                    | (Inr user, s2) \<Rightarrow>
                        if validateChannelUserMember user
                        then add_group env convID owner expireAt gms
                          (seen @ [(MemberTypeUser, h)], inputs @ [\<lparr>mi_MemberType = MemberTypeUser, mi_MemberID = h, mi_ExpireAt = expireAt\<rparr>]) s2
                        else add_group env convID owner expireAt gms (seen, inputs) s2)))"

text \<open>What is checked of a member of its kind; a kind that is neither agent nor user is not checked.\<close>

definition check_kind :: "channels_env \<Rightarrow> caller \<Rightarrow> int \<Rightarrow> string \<Rightarrow> channels \<Rightarrow> code option \<times> channels" where
  "check_kind env who memberType memberID s =
     (if memberType = MemberTypeAgent then
        (case xn_agents env memberID of
           None \<Rightarrow> (Some CodeNotFound, s)
         | Some agent \<Rightarrow> if \<not> ag_AllowAddToChannel agent then checkAgentAddableByCaller env who agent s else (None, s))
      else if memberType = MemberTypeUser then
        (case on_users (GetUserByHandle (xn_fails env) memberID) s of
           (Inl _, s1) \<Rightarrow> (Some CodeInternal, s1)
         | (Inr user, s1) \<Rightarrow> (if validateChannelUserMember user then None else Some CodeInvalidArgument, s1))
      else (None, s))"

definition add_single ::
  "channels_env \<Rightarrow> caller \<Rightarrow> uuid \<Rightarrow> string \<Rightarrow> add_member \<Rightarrow> add_acc \<Rightarrow> channels \<Rightarrow> (code, add_acc) result \<times> channels" where
  "add_single env who convID owner m acc s =
     (let key = (am_MemberType m, am_MemberID m) in
      if key \<in> set (fst acc) then (Inl CodeInvalidArgument, s)
      else if am_MemberType m = MemberTypeUser \<and> am_MemberID m = owner then (Inl CodeInvalidArgument, s)
      else
        (case membership_of env convID (am_MemberType m) (am_MemberID m) s of
           (Inl _, s1) \<Rightarrow> (Inl CodeInternal, s1)
         | (Inr (role, _), s1) \<Rightarrow>
             if role \<noteq> 0 then (Inl CodeInvalidArgument, s1)
             else
               (case check_kind env who (am_MemberType m) (am_MemberID m) s1 of
                  (Some e, s2) \<Rightarrow> (Inl e, s2)
                | (None, s2) \<Rightarrow>
                    (Inr (fst acc @ [key], snd acc @ [\<lparr>mi_MemberType = am_MemberType m, mi_MemberID = am_MemberID m, mi_ExpireAt = am_ExpireTime m\<rparr>]), s2))))"

definition add_entry_of ::
  "channels_env \<Rightarrow> caller \<Rightarrow> uuid \<Rightarrow> string \<Rightarrow> add_member \<Rightarrow> add_acc \<Rightarrow> channels \<Rightarrow> (code, add_acc) result \<times> channels" where
  "add_entry_of env who convID owner m acc s =
     (if (case am_ExpireTime m of None \<Rightarrow> False | Some t \<Rightarrow> \<not> t > iv_now (xn_iam env)) then (Inl CodeInvalidArgument, s)
      else if am_Group m \<noteq> [] then
        (if am_MemberType m \<noteq> 0 \<or> am_MemberID m \<noteq> [] then (Inl CodeInvalidArgument, s)
         else
           (case GetGroupByName (xn_fails env) (am_Group m) (ia_users (xs_iam s)) of
              Inl _ \<Rightarrow> (Inl CodeInternal, s)
            | Inr None \<Rightarrow> (Inl CodeNotFound, s)
            | Inr (Some g) \<Rightarrow> add_group env convID owner (am_ExpireTime m) (gr_Members g) acc s))
      else add_single env who convID owner m acc s)"

fun add_each ::
  "channels_env \<Rightarrow> caller \<Rightarrow> uuid \<Rightarrow> string \<Rightarrow> add_member list \<Rightarrow> add_acc \<Rightarrow> channels \<Rightarrow> (code, add_acc) result \<times> channels" where
  "add_each env who convID owner [] acc s = (Inr acc, s)"
| "add_each env who convID owner (m # ms) acc s =
     (case add_entry_of env who convID owner m acc s of
        (Inl e, s1) \<Rightarrow> (Inl e, s1)
      | (Inr acc1, s1) \<Rightarrow> add_each env who convID owner ms acc1 s1)"

definition seed_added :: "channels_env \<Rightarrow> uuid \<Rightarrow> member_input list \<Rightarrow> channels \<Rightarrow> channels" where
  "seed_added env convID inputs s =
     s\<lparr>xs_chat := foldl (\<lambda>db m.
         if mi_MemberType m = MemberTypeAgent
         then (case xn_agents env (mi_MemberID m) of
                 None \<Rightarrow> db | Some agent \<Rightarrow> snd (SeedCursorOnJoin (xn_fails env) (ag_ID agent) convID db db))
         else db) (xs_chat s) inputs\<rparr>"

definition AddChannelMember ::
  "channels_env \<Rightarrow> caller \<Rightarrow> string \<Rightarrow> add_member list \<Rightarrow> channels \<Rightarrow> (code, (int \<times> string) list) result \<times> channels" where
  "AddChannelMember env who conversation members s =
     (case channel_id env conversation of
        None \<Rightarrow> (Inl CodeInvalidArgument, s)
      | Some convID \<Rightarrow>
          (case get_channel env convID s of
             None \<Rightarrow> (Inl CodeNotFound, s)
           | Some conv \<Rightarrow>
               if members = [] then (Inl CodeInvalidArgument, s)
               else
                 (case resolveUserHandle env (cv_OwnerID conv) s of
                    (owner, s1) \<Rightarrow>
                      (case add_each env who convID owner members ([], []) s1 of
                         (Inl e, s2) \<Rightarrow> (Inl e, s2)
                       | (Inr (_, inputs), s2) \<Rightarrow>
                           if inputs = [] then (Inr [], s2)
                           else
                             (case on_members (AddConversationMembers (xn_members env) (xn_fails env) (iv_now (xn_iam env)) convID inputs) s2 of
                                (Some _, s3) \<Rightarrow> (Inl CodeInternal, s3)
                              | (None, s3) \<Rightarrow>
                                  (Inr (map (\<lambda>m. (mi_MemberType m, mi_MemberID m)) inputs), seed_added env convID inputs s3))))))"

section \<open>Removing, leaving, ownership, roles\<close>

definition RemoveChannelMember ::
  "channels_env \<Rightarrow> string \<Rightarrow> int \<Rightarrow> string \<Rightarrow> channels \<Rightarrow> code option \<times> channels" where
  "RemoveChannelMember env conversation memberType memberID s =
     (case channel_id env conversation of
        None \<Rightarrow> (Some CodeInvalidArgument, s)
      | Some convID \<Rightarrow>
          (case get_channel env convID s of
             None \<Rightarrow> (Some CodeNotFound, s)
           | Some conv \<Rightarrow>
               (case resolveUserHandle env (cv_OwnerID conv) s of
                  (owner, s1) \<Rightarrow>
                    if memberType = MemberTypeUser \<and> memberID = owner then (Some CodeInvalidArgument, s1)
                    else
                      (case on_members (RemoveConversationMember (xn_members env) (xn_fails env) (iv_now (xn_iam env)) convID memberType memberID) s1 of
                         (Some _, s2) \<Rightarrow> (Some CodeInternal, s2)
                       | (None, s2) \<Rightarrow> (None, s2)))))"

text \<open>The chat tables' copy of the owner.\<close>

definition room_owned :: "int \<Rightarrow> uuid \<Rightarrow> int \<Rightarrow> channels \<Rightarrow> channels" where
  "room_owned now convID owner s =
     s\<lparr>xs_chat := map_rooms (\<lambda>r. r\<lparr>ro_OwnerID := owner, ro_UpdatedAt := now\<rparr>) convID (xs_chat s)\<rparr>"

definition transfer_channel ::
  "channels_env \<Rightarrow> caller \<Rightarrow> string \<Rightarrow> int \<Rightarrow> string \<Rightarrow> channels \<Rightarrow> (code, conv_row) result \<times> channels" where
  "transfer_channel env who conversation memberType memberID s =
     (case channel_id env conversation of
        None \<Rightarrow> (Inl CodeInvalidArgument, s)
      | Some convID \<Rightarrow>
          (case get_channel env convID s of
             None \<Rightarrow> (Inl CodeNotFound, s)
           | Some conv \<Rightarrow>
               if cv_Type conv \<noteq> ConversationTypeChannel then (Inl CodeInvalidArgument, s)
               else if \<not> requireChannelOwner who conv then (Inl CodePermissionDenied, s)
               else if memberType \<noteq> MemberTypeUser then (Inl CodeInvalidArgument, s)
               else
                 (case on_users (GetUserByHandle (xn_fails env) memberID) s of
                    (Inr (Some user), s1) \<Rightarrow>
                      (case resolveUserHandle env (cv_OwnerID conv) s1 of
                         (owner, s2) \<Rightarrow>
                           if us_Handle user = owner then (Inl CodeInvalidArgument, s2)
                           else
                             (case membership_of env convID MemberTypeUser (us_Handle user) s2 of
                                (Inl _, s3) \<Rightarrow> (Inl CodeInternal, s3)
                              | (Inr (role, _), s3) \<Rightarrow>
                                  if role = 0 then (Inl CodeFailedPrecondition, s3)
                                  else
                                    (case on_members (TransferChannelOwnership (xn_members env) (xn_fails env) (iv_now (xn_iam env)) convID
                                            owner (us_Handle user) (us_ID user)) s3 of
                                       (Some _, s4) \<Rightarrow> (Inl CodeInternal, s4)
                                     | (None, s4) \<Rightarrow>
                                         (let s5 = room_owned (iv_now (xn_iam env)) convID (us_ID user) s4 in
                                          case get_channel env convID s5 of
                                            None \<Rightarrow> (Inl CodeInternal, s5) | Some updated \<Rightarrow> (Inr updated, s5)))))
                  | (_, s1) \<Rightarrow> (Inl CodeInvalidArgument, s1))))"

definition UpdateChannelMemberRole ::
  "channels_env \<Rightarrow> caller \<Rightarrow> string \<Rightarrow> int \<Rightarrow> string \<Rightarrow> int \<Rightarrow> channels \<Rightarrow> (code, int \<times> string \<times> int) result \<times> channels" where
  "UpdateChannelMemberRole env who conversation memberType memberID targetRole s =
     (case channel_id env conversation of
        None \<Rightarrow> (Inl CodeInvalidArgument, s)
      | Some convID \<Rightarrow>
          (case get_channel env convID s of
             None \<Rightarrow> (Inl CodeNotFound, s)
           | Some conv \<Rightarrow>
               if cv_Type conv \<noteq> ConversationTypeChannel then (Inl CodeInvalidArgument, s)
               else if \<not> requireChannelOwner who conv then (Inl CodePermissionDenied, s)
               else if targetRole \<noteq> MemberRoleMember \<and> targetRole \<noteq> MemberRoleAdmin then (Inl CodeInvalidArgument, s)
               else
                 (case resolveUserHandle env (cv_OwnerID conv) s of
                    (owner, s1) \<Rightarrow>
                      if memberType = MemberTypeUser \<and> memberID = owner then (Inl CodeInvalidArgument, s1)
                      else
                        (case membership_of env convID memberType memberID s1 of
                           (Inl _, s2) \<Rightarrow> (Inl CodeInternal, s2)
                         | (Inr (role, _), s2) \<Rightarrow>
                             if role = 0 then (Inl CodeFailedPrecondition, s2)
                             else
                               (case on_members (UpdateConversationMemberRole (xn_members env) (xn_fails env) (iv_now (xn_iam env)) convID
                                       memberType memberID targetRole) s2 of
                                  (Some _, s3) \<Rightarrow> (Inl CodeInternal, s3)
                                | (None, s3) \<Rightarrow> (Inr (memberType, memberID, targetRole), s3))))))"

definition LeaveChannel :: "channels_env \<Rightarrow> caller \<Rightarrow> string \<Rightarrow> channels \<Rightarrow> code option \<times> channels" where
  "LeaveChannel env who conversation s =
     (case channel_id env conversation of
        None \<Rightarrow> (Some CodeInvalidArgument, s)
      | Some convID \<Rightarrow>
          (case get_channel env convID s of
             None \<Rightarrow> (Some CodeNotFound, s)
           | Some conv \<Rightarrow>
               if cv_Type conv \<noteq> ConversationTypeChannel then (Some CodeInvalidArgument, s)
               else
                 (case caller_member who of
                    None \<Rightarrow> (Some CodeUnauthenticated, s)
                  | Some (memberType, memberID) \<Rightarrow>
                      if (case ca_User who of None \<Rightarrow> False | Some user \<Rightarrow> cv_OwnerID conv = us_ID user) then (Some CodeFailedPrecondition, s)
                      else
                        (case membership_of env convID memberType memberID s of
                           (Inl _, s1) \<Rightarrow> (Some CodeInternal, s1)
                         | (Inr (role, _), s1) \<Rightarrow>
                             if role = 0 then (Some CodeFailedPrecondition, s1)
                             else
                               (case on_members (RemoveConversationMember (xn_members env) (xn_fails env) (iv_now (xn_iam env)) convID memberType memberID) s1 of
                                  (Some _, s2) \<Rightarrow> (Some CodeInternal, s2)
                                | (None, s2) \<Rightarrow> (None, s2))))))"

definition JoinChannel :: "channels_env \<Rightarrow> caller \<Rightarrow> string \<Rightarrow> channels \<Rightarrow> code option \<times> channels" where
  "JoinChannel env who conversation s =
     (case ca_Agent who of
        None \<Rightarrow> (Some CodeUnauthenticated, s)
      | Some agent \<Rightarrow>
          (case channel_id env conversation of
             None \<Rightarrow> (Some CodeInvalidArgument, s)
           | Some convID \<Rightarrow>
               (case get_channel env convID s of
                  None \<Rightarrow> (Some CodeNotFound, s)
                | Some conv \<Rightarrow>
                    if cv_Type conv \<noteq> ConversationTypeChannel then (Some CodeInvalidArgument, s)
                    else
                      (case on_members (IsConversationMember (xn_members env) (xn_fails env) convID MemberTypeAgent (ag_ResourceID agent)) s of
                         (Inl _, s1) \<Rightarrow> (Some CodeInternal, s1)
                       | (Inr isMember, s1) \<Rightarrow>
                           if isMember then (None, s1)
                           else
                             (case on_members (AddConversationMembers (xn_members env) (xn_fails env) (iv_now (xn_iam env)) convID
                                     [\<lparr>mi_MemberType = MemberTypeAgent, mi_MemberID = ag_ResourceID agent, mi_ExpireAt = None\<rparr>]) s1 of
                                (Some _, s2) \<Rightarrow> (Some CodeInternal, s2)
                              | (None, s2) \<Rightarrow>
                                  (None, s2\<lparr>xs_chat := snd (SeedCursorOnJoin (xn_fails env) (ag_ID agent) convID (xs_chat s2) (xs_chat s2))\<rparr>))))))"

definition SetConversationArchived :: "(string \<Rightarrow> bool) \<Rightarrow> int \<Rightarrow> uuid \<Rightarrow> bool \<Rightarrow> chat_db \<Rightarrow> (chat_error, room_row) result \<times> chat_db" where
  "SetConversationArchived fails now convID archived db =
     (if fails ''archive'' then (Inl (ChatSql ''archive''), db)
      else
        (let f = (\<lambda>r. r\<lparr>ro_Archived := archived, ro_UpdatedAt := now\<rparr>) in
         case room_of convID db of
           None \<Rightarrow> (Inl (ChatNoRows ''archive''), db)
         | Some room \<Rightarrow> (Inr (f room), map_rooms f convID db)))"

text \<open>The membership tables' copy of \<open>updated_at\<close>.\<close>

definition row_touched :: "int \<Rightarrow> uuid \<Rightarrow> channels \<Rightarrow> channels" where
  "row_touched now convID s =
     s\<lparr>xs_iam := (xs_iam s)\<lparr>ia_members := (ia_members (xs_iam s))
        \<lparr>md_convs := map (\<lambda>c. if cv_ID c = convID then c\<lparr>cv_UpdatedAt := now\<rparr> else c) (md_convs (ia_members (xs_iam s)))\<rparr>\<rparr>\<rparr>"

definition setChannelArchived ::
  "channels_env \<Rightarrow> caller \<Rightarrow> string \<Rightarrow> bool \<Rightarrow> channels \<Rightarrow> (code, room_row) result \<times> channels" where
  "setChannelArchived env who name archived s =
     (case channel_id env name of
        None \<Rightarrow> (Inl CodeInvalidArgument, s)
      | Some convID \<Rightarrow>
          (case get_channel env convID s of
             None \<Rightarrow> (Inl CodeNotFound, s)
           | Some conv \<Rightarrow>
               if \<not> requireChannelOwner who conv then (Inl CodePermissionDenied, s)
               else
                 (case SetConversationArchived (xn_fails env) (iv_now (xn_iam env)) convID archived (xs_chat s) of
                    (Inl _, db) \<Rightarrow> (Inl CodeInternal, s\<lparr>xs_chat := db\<rparr>)
                  | (Inr room, db) \<Rightarrow> (Inr room, row_touched (iv_now (xn_iam env)) convID (s\<lparr>xs_chat := db\<rparr>)))))"

section \<open>Reads\<close>

text \<open>A step that reads: it may fill the caches of the policies and of the users, and changes no table of the membership.\<close>

definition reads_only :: "channels \<Rightarrow> channels \<Rightarrow> bool" where
  "reads_only s s' \<longleftrightarrow> ps_rows (md_policies (xs_members s')) = ps_rows (md_policies (xs_members s)) \<and>
     md_meta (xs_members s') = md_meta (xs_members s) \<and> md_convs (xs_members s') = md_convs (xs_members s) \<and> xs_chat s' = xs_chat s \<and>
     (policies_ok (md_policies (xs_members s)) \<longrightarrow> policies_ok (md_policies (xs_members s')))"

lemma shared_meta [simp]: "md_meta (xs_members s) = cd_meta (xs_chat s)" "(xs_chat s)\<lparr>cd_meta := cd_meta (xs_chat s)\<rparr> = xs_chat s"
  by (simp_all add: xs_members_def)

lemma reads_only_refl [simp]: "reads_only s s"
  by (simp add: reads_only_def)

lemma reads_only_trans: "reads_only s s1 \<Longrightarrow> reads_only s1 s2 \<Longrightarrow> reads_only s s2"
  by (simp add: reads_only_def)

lemma reads_only_ok: "reads_only s s' \<Longrightarrow> conversation_ok env convID pol (xs_members s) \<Longrightarrow> conversation_ok env convID pol (xs_members s')"
  by (simp add: reads_only_def conversation_ok_def)

lemma getIamPolicy_reads_only:
  assumes "getIamPolicy pj fails q ps = (r, ps')"
  shows "ps_rows ps' = ps_rows ps" "policies_ok ps \<Longrightarrow> policies_ok ps'"
proof -
  obtain x ps1 where g: "GetPolicyV2 fails (q\<lparr>fp_Type := Some IAM\<rparr>) ps = (x, ps1)" by fastforce
  then have p: "ps' = ps1" using assms by (cases x) (auto simp: getIamPolicy_decode)
  show "ps_rows ps' = ps_rows ps"
    using g unfolding p by (auto simp: GetPolicyV2_def cache_add_def split: if_splits option.splits sum.splits list.splits)
  show "policies_ok ps \<Longrightarrow> policies_ok ps'" using GetPolicyV2_ok [OF _ g] unfolding p by blast
qed

lemma read_policy_reads_only:
  assumes "read_policy env fails convID md = (r, md')"
  shows "ps_rows (md_policies md') = ps_rows (md_policies md)" "md_meta md' = md_meta md" "md_convs md' = md_convs md"
    "policies_ok (md_policies md) \<Longrightarrow> policies_ok (md_policies md')"
    "conversation_ok env convID pol md \<Longrightarrow> r = Inr p \<Longrightarrow> p = pol"
proof -
  obtain x ps where g: "GetConversationIamPolicy env fails convID (md_policies md) = (x, ps)" by fastforce
  then have md': "md' = md\<lparr>md_policies := ps\<rparr>" using assms by (cases x) (auto simp: read_policy_def)
  note k = getIamPolicy_reads_only [OF g [unfolded GetConversationIamPolicy_def]]
  show "ps_rows (md_policies md') = ps_rows (md_policies md)" "md_meta md' = md_meta md" "md_convs md' = md_convs md"
    "policies_ok (md_policies md) \<Longrightarrow> policies_ok (md_policies md')" using k by (simp_all add: md')
  assume ok: "conversation_ok env convID pol md" and r: "r = Inr p"
  obtain y ps1 where y: "GetPolicyV2 fails \<lparr>fp_ResourceType = Some CONVERSATION, fp_Resource = Some (conversationPolicyResource env convID),
      fp_Type = Some IAM, fp_ShowAll = False\<rparr> (md_policies md) = (y, ps1)" by fastforce
  from GetPolicyV2_reads [OF _ y] ok
  have "(\<exists>err. y = Inl err) \<or> y = Inr (lookup_policy CONVERSATION (conversationPolicyResource env convID) IAM (md_policies md))"
    by (auto simp: conversation_ok_def)
  then show "p = pol"
    using assms r y ok
    by (auto simp: read_policy_def GetConversationIamPolicy_def getIamPolicy_decode find_of_def decode_policy_def conversation_ok_def
        conversation_policy_def lookup_policy_def split: option.splits sum.splits prod.splits)
qed

lemma on_users_reads_only: "on_users f s = (r, s') \<Longrightarrow> reads_only s s'"
  by (auto simp: on_users_def reads_only_def xs_members_def split: prod.splits)

lemma resolve_reads_only: "resolveUserHandle env i s = (h, s') \<Longrightarrow> reads_only s s'"
  using on_users_reads_only by (fastforce simp: resolveUserHandle_def split: if_splits prod.splits sum.splits option.splits)

text \<open>A membership that reads as none: the member holds no role of a conversation.\<close>

definition newcomer :: "iam_policy \<Rightarrow> string \<Rightarrow> bool" where
  "newcomer pol m \<longleftrightarrow> (\<forall>r. holds_role pol m r \<longrightarrow> conversationRoleFromName r = 0)"

lemma membership_reads_only:
  assumes "membership_of env convID k i s = (r, s')"
  shows "reads_only s s'"
    and "conversation_ok (xn_members env) convID pol (xs_members s) \<Longrightarrow> r = Inr (role, ty) \<Longrightarrow> role = 0 \<longleftrightarrow> newcomer pol (conversationMemberName k i)"
proof -
  obtain x md where g: "GetConversationMembership (xn_members env) (xn_fails env) convID k i (xs_members s) = (x, md)" by fastforce
  then have s': "r = x" "s' = s\<lparr>xs_iam := (xs_iam s)\<lparr>ia_members := md\<rparr>, xs_chat := (xs_chat s)\<lparr>cd_meta := md_meta md\<rparr>\<rparr>" using assms by (auto simp: membership_of_def on_members_def)
  then have m: "xs_members s' = md" by (simp add: xs_members_def)
  obtain p md1 where p: "read_policy (xn_members env) (xn_fails env) convID (xs_members s) = (p, md1)" by fastforce
  have "md = md1 \<or> md = xs_members s" using g p
    by (cases p) (auto simp: GetConversationMembership_def Let_def split: if_splits option.splits prod.splits)
  then show "reads_only s s'" using read_policy_reads_only(1-4) [OF p] m s'(2) by (auto simp: reads_only_def)
  assume ok: "conversation_ok (xn_members env) convID pol (xs_members s)" and r: "r = Inr (role, ty)"
  let ?m = "conversationMemberName k i"
  obtain cv where cv: "find (\<lambda>c. cv_ID c = convID) (md_convs (xs_members s)) = Some cv" "\<not> xn_fails env ''select conversation''"
    using g r s'(1) by (auto simp: GetConversationMembership_def split: if_splits option.splits)
  then obtain pol' where pol': "p = Inr pol'" using g r s'(1) p by (cases p) (auto simp: GetConversationMembership_def)
  have "pol' = pol" using read_policy_reads_only(5) [OF p ok pol'] .
  then have role: "role = (case find (\<lambda>b. conversationRoleFromName (b_Role b) \<noteq> 0 \<and> ?m \<in> set (b_Members b)) pol of
      None \<Rightarrow> 0 | Some b \<Rightarrow> conversationRoleFromName (b_Role b))"
    using g r s'(1) p pol' cv by (auto simp: GetConversationMembership_def Let_def split: option.splits)
  show "role = 0 \<longleftrightarrow> newcomer pol ?m"
  proof (cases "find (\<lambda>b. conversationRoleFromName (b_Role b) \<noteq> 0 \<and> ?m \<in> set (b_Members b)) pol")
    case None
    then have "role = 0" using role by simp
    with None show ?thesis by (auto simp: find_None_iff newcomer_def holds_role_def)
  next
    case (Some b)
    then have "role \<noteq> 0" using role find_found [OF Some] by simp
    with find_found [OF Some] show ?thesis by (auto simp: newcomer_def holds_role_def)
  qed
qed

section \<open>The checks of an addition\<close>

lemma admin_reads_only: "isUserWorkspaceAdmin env user s = (r, s') \<Longrightarrow> reads_only s s'"
proof -
  assume a: "isUserWorkspaceAdmin env user s = (r, s')"
  obtain x ps where g: "GetWorkspaceIamPolicy (mn_json (xn_members env)) (xn_fails env) (md_policies (xs_members s)) = (x, ps)" by fastforce
  then have "s' = s\<lparr>xs_iam := (xs_iam s)\<lparr>ia_members := (xs_members s)\<lparr>md_policies := ps\<rparr>\<rparr>,
      xs_chat := (xs_chat s)\<lparr>cd_meta := md_meta (xs_members s)\<rparr>\<rparr>"
    using a by (cases x) (auto simp: isUserWorkspaceAdmin_def on_members_def)
  then show ?thesis using getIamPolicy_reads_only [OF g [unfolded GetWorkspaceIamPolicy_def]] by (simp add: reads_only_def xs_members_def)
qed

lemma check_kind_reads_only:
  assumes "check_kind env who k i s = (r, s')"
  shows "reads_only s s'"
proof (cases "k = MemberTypeAgent")
  case True
  then show ?thesis
    using assms admin_reads_only
    by (fastforce simp: check_kind_def checkAgentAddableByCaller_def split: option.splits if_splits prod.splits sum.splits)
next
  case False
  then show ?thesis
    using assms on_users_reads_only by (fastforce simp: check_kind_def split: if_splits prod.splits sum.splits)
qed

text \<open>What the loop has gathered: newcomers only.\<close>

definition newcomers :: "iam_policy \<Rightarrow> member_input list \<Rightarrow> bool" where
  "newcomers pol inputs \<longleftrightarrow> (\<forall>i \<in> set inputs. newcomer pol (input_name i))"

lemma add_single_ok:
  assumes "add_single env who convID owner m acc s = (r, s')" "conversation_ok (xn_members env) convID pol (xs_members s)" "newcomers pol (snd acc)"
  shows "reads_only s s' \<and> (\<forall>acc'. r = Inr acc' \<longrightarrow> newcomers pol (snd acc'))"
proof (cases "(am_MemberType m, am_MemberID m) \<in> set (fst acc) \<or> am_MemberType m = MemberTypeUser \<and> am_MemberID m = owner")
  case True
  then have "s' = s \<and> r = Inl CodeInvalidArgument" using assms(1) by (elim disjE) (simp_all add: add_single_def Let_def split: if_splits)
  then show ?thesis by simp
next
  case False
  obtain x s1 where x: "membership_of env convID (am_MemberType m) (am_MemberID m) s = (x, s1)" by fastforce
  note q = membership_reads_only [OF x]
  show ?thesis
  proof (cases x)
    case (Inr y)
    obtain role ty where y: "y = (role, ty)" by (cases y)
    obtain c s2 where c: "check_kind env who (am_MemberType m) (am_MemberID m) s1 = (c, s2)" by fastforce
    have "reads_only s s2" using q(1) check_kind_reads_only [OF c] reads_only_trans by blast
    moreover have "newcomer pol (conversationMemberName (am_MemberType m) (am_MemberID m))" if "role = 0"
      using q(2) [OF assms(2)] Inr y that by simp
    ultimately show ?thesis using assms(1,3) False x Inr y c q(1)
      by (cases "role = 0"; cases c) (auto simp: add_single_def Let_def newcomers_def input_name_def)
  qed (use assms(1) False x q(1) in \<open>auto simp: add_single_def Let_def\<close>)
qed

lemma add_group_ok:
  "add_group env convID owner expireAt gms acc s = (r, s') \<Longrightarrow> conversation_ok (xn_members env) convID pol (xs_members s) \<Longrightarrow>
     newcomers pol (snd acc) \<Longrightarrow> reads_only s s' \<and> (\<forall>acc'. r = Inr acc' \<longrightarrow> newcomers pol (snd acc'))"
proof (induction gms arbitrary: acc s)
  case (Cons gm gms)
  obtain seen inputs where acc: "acc = (seen, inputs)" by (cases acc)
  show ?case
  proof (cases "GetUserHandle gm")
    case (Inr h)
    show ?thesis
    proof (cases "(MemberTypeUser, h) \<in> set seen \<or> h = owner")
      case False
      obtain x s1 where x: "membership_of env convID MemberTypeUser h s = (x, s1)" by fastforce
      note q = membership_reads_only [OF x]
      show ?thesis
      proof (cases x)
        case (Inr y)
        obtain role ty where y: "y = (role, ty)" by (cases y)
        obtain u s2 where u: "on_users (GetUserByHandle (xn_fails env) h) s1 = (u, s2)" by fastforce
        have r2: "reads_only s s2" using q(1) on_users_reads_only [OF u] reads_only_trans by blast
        let ?in = "\<lparr>mi_MemberType = MemberTypeUser, mi_MemberID = h, mi_ExpireAt = expireAt\<rparr>"
        have new: "newcomers pol (inputs @ [?in])" if "role = 0"
          using q(2) [OF Cons.prems(2)] Inr y that Cons.prems(3) acc by (auto simp: newcomers_def input_name_def)
        have go: ?thesis if "add_group env convID owner expireAt gms acc1 t = (r, s')" "reads_only s t" "newcomers pol (snd acc1)" for acc1 t
          using Cons.IH [OF that(1) reads_only_ok [OF that(2) Cons.prems(2)] that(3)] reads_only_trans [OF that(2)] by blast
        note e = Cons.prems(1) [unfolded acc] \<open>GetUserHandle gm = Inr h\<close> False x Inr y
        show ?thesis
        proof (cases "role = 0")
          case True
          show ?thesis
          proof (cases u)
            case (Inr user)
            show ?thesis
            proof (cases "validateChannelUserMember user")
              case True
              show ?thesis
              by (rule go [of "(seen @ [(MemberTypeUser, h)], inputs @ [?in])", OF _ r2])
                (use e u \<open>role = 0\<close> \<open>u = Inr user\<close> True in simp, use new \<open>role = 0\<close> in simp)
            next
              case False
              show ?thesis by (rule go [OF _ r2 Cons.prems(3)]) (use e u \<open>role = 0\<close> \<open>u = Inr user\<close> False in \<open>simp add: acc\<close>)
            qed
          qed (use e u True r2 in auto)
        next
          case False
          show ?thesis by (rule go [OF _ q(1) Cons.prems(3)]) (use e False in \<open>simp add: acc\<close>)
        qed
      qed (use Cons.prems(1) acc \<open>GetUserHandle gm = Inr h\<close> False x q(1) in auto)
    next
      case True
      show ?thesis
        by (rule Cons.IH [OF _ Cons.prems(2,3)]) (use Cons.prems(1) acc \<open>GetUserHandle gm = Inr h\<close> True in simp)
    qed
  next
    case (Inl e)
    show ?thesis by (rule Cons.IH [OF _ Cons.prems(2,3)]) (use Cons.prems(1) acc Inl in simp)
  qed
qed auto

lemma add_each_ok:
  "add_each env who convID owner ms acc s = (r, s') \<Longrightarrow> conversation_ok (xn_members env) convID pol (xs_members s) \<Longrightarrow>
     newcomers pol (snd acc) \<Longrightarrow> reads_only s s' \<and> (\<forall>acc'. r = Inr acc' \<longrightarrow> newcomers pol (snd acc'))"
proof (induction ms arbitrary: acc s)
  case (Cons m ms)
  obtain x s1 where x: "add_entry_of env who convID owner m acc s = (x, s1)" by fastforce
  have one: "reads_only s s1 \<and> (\<forall>acc'. x = Inr acc' \<longrightarrow> newcomers pol (snd acc'))"
    using x add_single_ok [OF _ Cons.prems(2,3)] add_group_ok [OF _ Cons.prems(2,3)]
    by (auto simp: add_entry_of_def split: if_splits option.splits sum.splits)
  show ?case
  proof (cases x)
    case (Inr acc1)
    then have "add_each env who convID owner ms acc1 s1 = (r, s')" using Cons.prems(1) x by simp
    from Cons.IH [OF this reads_only_ok [OF conjunct1 [OF one] Cons.prems(2)]] one Inr show ?thesis using reads_only_trans by blast
  qed (use Cons.prems(1) x one in auto)
qed auto

text \<open>Whom a request asks for: a name it spells out, or the user a member of a group it names stands for; with the expiry it gives.\<close>

definition asked_for :: "channels_env \<Rightarrow> user_store \<Rightarrow> add_member list \<Rightarrow> member_input \<Rightarrow> bool" where
  "asked_for env us members p \<longleftrightarrow> (\<exists>m \<in> set members. mi_ExpireAt p = am_ExpireTime m \<and>
     (if am_Group m = [] then mi_MemberType p = am_MemberType m \<and> mi_MemberID p = am_MemberID m
      else mi_MemberType p = MemberTypeUser \<and>
        (\<exists>g gm. GetGroupByName (xn_fails env) (am_Group m) us = Inr (Some g) \<and> gm \<in> set (gr_Members g) \<and> GetUserHandle gm = Inr (mi_MemberID p))))"

lemma asked_for_Cons: "asked_for env us (m # ms) p \<longleftrightarrow> asked_for env us [m] p \<or> asked_for env us ms p"
  by (simp add: asked_for_def)

text \<open>The look-ups of users leave the groups alone.\<close>

abbreviation groups_at :: "channels \<Rightarrow> group_row list" where
  "groups_at s \<equiv> id_groups (ia_users (xs_iam s))"

lemma GetGroupByName_groups: "id_groups st' = id_groups st \<Longrightarrow> GetGroupByName fails name st' = GetGroupByName fails name st"
  by (simp add: GetGroupByName_def GetGroup_def GetGroupByID_def ListGroups_def split: sum.split)

lemma lookup_groups:
  "on_users (GetUserByHandle fails h) s = (u, s') \<Longrightarrow> groups_at s' = groups_at s"
  "on_users (GetUserByID fails i) s = (u, s') \<Longrightarrow> groups_at s' = groups_at s"
  by (auto simp: on_users_def GetUserByHandle_def GetUserByID_def cached_or_found_def cacheActiveUser_def
      split: prod.splits option.splits sum.splits if_splits)

lemma resolve_groups: "resolveUserHandle env i s = (h, s') \<Longrightarrow> groups_at s' = groups_at s"
  using lookup_groups(2) by (fastforce simp: resolveUserHandle_def split: if_splits prod.splits sum.splits option.splits)

lemma membership_groups: "membership_of env convID k i s = (r, s') \<Longrightarrow> groups_at s' = groups_at s"
  by (auto simp: membership_of_def on_members_def split: prod.splits)

lemma check_kind_groups: "check_kind env who k i s = (r, s') \<Longrightarrow> groups_at s' = groups_at s"
  using lookup_groups(1)
  by (fastforce simp: check_kind_def checkAgentAddableByCaller_def isUserWorkspaceAdmin_def on_members_def
      split: if_splits prod.splits sum.splits option.splits)

lemma add_group_asked:
  "add_group env convID owner expireAt gms acc s = (Inr acc', s') \<Longrightarrow> groups_at s' = groups_at s \<and>
     (\<forall>p \<in> set (snd acc'). p \<in> set (snd acc) \<or>
        mi_ExpireAt p = expireAt \<and> mi_MemberType p = MemberTypeUser \<and> (\<exists>gm \<in> set gms. GetUserHandle gm = Inr (mi_MemberID p)))"
proof (induction gms arbitrary: acc s)
  case (Cons gm gms)
  obtain seen inputs where acc: "acc = (seen, inputs)" by (cases acc)
  have skip: ?case if "add_group env convID owner expireAt gms acc t = (Inr acc', s')" "groups_at t = groups_at s" for t
    using Cons.IH [OF that(1)] that(2) by auto
  show ?case
  proof (cases "GetUserHandle gm")
    case (Inr h)
    let ?in = "\<lparr>mi_MemberType = MemberTypeUser, mi_MemberID = h, mi_ExpireAt = expireAt\<rparr>"
    obtain x s1 where x: "membership_of env convID MemberTypeUser h s = (x, s1)" by fastforce
    obtain u s2 where u: "on_users (GetUserByHandle (xn_fails env) h) s1 = (u, s2)" by fastforce
    have g: "groups_at s1 = groups_at s" "groups_at s2 = groups_at s" using membership_groups [OF x] lookup_groups(1) [OF u] by simp_all
    from Cons.prems Inr acc x u consider
        "add_group env convID owner expireAt gms acc s = (Inr acc', s')"
      | "add_group env convID owner expireAt gms acc s1 = (Inr acc', s')"
      | "add_group env convID owner expireAt gms acc s2 = (Inr acc', s')"
      | "add_group env convID owner expireAt gms (seen @ [(MemberTypeUser, h)], inputs @ [?in]) s2 = (Inr acc', s')"
      by (auto split: if_splits sum.splits prod.splits)
    then show ?thesis
    proof cases
      case 4
      from Cons.IH [OF this] g Inr show ?thesis by (auto simp: acc)
    qed (use skip g in simp_all)
  next
    case (Inl e)
    show ?thesis by (rule skip [OF _ refl]) (use Cons.prems acc Inl in simp)
  qed
qed simp

lemma add_each_asked:
  "add_each env who convID owner ms acc s = (Inr acc', s') \<Longrightarrow>
     \<forall>p \<in> set (snd acc'). p \<in> set (snd acc) \<or> asked_for env (ia_users (xs_iam s)) ms p"
proof (induction ms arbitrary: acc s)
  case (Cons m ms)
  obtain x s1 where x: "add_entry_of env who convID owner m acc s = (x, s1)" by fastforce
  with Cons.prems obtain acc1 where acc1: "x = Inr acc1" "add_each env who convID owner ms acc1 s1 = (Inr acc', s')" by (cases x) auto
  have one: "groups_at s1 = groups_at s \<and> (\<forall>p \<in> set (snd acc1). p \<in> set (snd acc) \<or> asked_for env (ia_users (xs_iam s)) [m] p)"
  proof (cases "am_Group m = []")
    case True
    obtain y t where y: "membership_of env convID (am_MemberType m) (am_MemberID m) s = (y, t)" by fastforce
    obtain c t2 where c: "check_kind env who (am_MemberType m) (am_MemberID m) t = (c, t2)" by fastforce
    from True x acc1(1) y c have "s1 = t2" "snd acc1 = snd acc @ [\<lparr>mi_MemberType = am_MemberType m, mi_MemberID = am_MemberID m, mi_ExpireAt = am_ExpireTime m\<rparr>]"
      by (auto simp: add_entry_of_def add_single_def Let_def split: if_splits sum.splits option.splits prod.splits)
    then show ?thesis using membership_groups [OF y] check_kind_groups [OF c] True by (auto simp: asked_for_def)
  next
    case False
    then obtain g where g: "GetGroupByName (xn_fails env) (am_Group m) (ia_users (xs_iam s)) = Inr (Some g)"
      and "add_group env convID owner (am_ExpireTime m) (gr_Members g) acc s = (Inr acc1, s1)"
      using x acc1(1) by (auto simp: add_entry_of_def split: if_splits option.splits sum.splits)
    from add_group_asked [OF this(2)] False g show ?thesis by (auto simp: asked_for_def)
  qed
  have "asked_for env (ia_users (xs_iam s1)) ms p \<longleftrightarrow> asked_for env (ia_users (xs_iam s)) ms p" for p
    using one GetGroupByName_groups [of "ia_users (xs_iam s1)" "ia_users (xs_iam s)"] by (simp add: asked_for_def)
  with Cons.IH [OF acc1(2)] one have "p \<in> set (snd acc) \<or> asked_for env (ia_users (xs_iam s)) [m] p \<or> asked_for env (ia_users (xs_iam s)) ms p"
    if "p \<in> set (snd acc')" for p using that by blast
  then show ?case unfolding asked_for_Cons [of _ _ m ms] by blast
qed simp

section \<open>What an addition does to the policy\<close>

text \<open>Whoever is not added keeps every binding, and whoever is added is bound, also when a name is added twice.\<close>

lemma add_all_others:
  "members_distinct pol \<Longrightarrow> members_distinct (add_all env ms pol) \<and>
     (m \<notin> input_name ` set ms \<longrightarrow> (bound_under (add_all env ms pol) m r c \<longleftrightarrow> bound_under pol m r c))"
proof (induction ms arbitrary: pol)
  case (Cons i ms)
  note a = add_with_condition_ok [OF Cons.prems, of "input_name i" "conversationRoleName MemberRoleMember" "memberExpirationCondition env (mi_ExpireAt i)"]
  show ?case using Cons.IH [OF a(1)] a(2) by (simp add: input_name_def)
qed simp

lemma add_all_binds:
  "members_distinct pol \<Longrightarrow> m \<in> input_name ` set ms \<or> holds_role pol m (conversationRoleName MemberRoleMember) \<Longrightarrow>
     holds_role (add_all env ms pol) m (conversationRoleName MemberRoleMember)"
proof (induction ms arbitrary: pol)
  case (Cons i ms)
  note a = add_with_condition_ok [OF Cons.prems(1), of "input_name i" "conversationRoleName MemberRoleMember" "memberExpirationCondition env (mi_ExpireAt i)"]
  have "m \<in> input_name ` set ms \<or> holds_role (add_with_condition (input_name i) (conversationRoleName MemberRoleMember)
      (memberExpirationCondition env (mi_ExpireAt i)) pol) m (conversationRoleName MemberRoleMember)"
    using Cons.prems(2) by (cases "m = input_name i") (auto simp: holds_role_bound a(2))
  from Cons.IH [OF a(1) this] show ?case by (simp add: input_name_def)
qed simp

section \<open>The handlers\<close>




lemma on_members_step:
  assumes "on_members f s = (r, s')" shows "f (xs_members s) = (r, xs_members s')"
  using assms by (auto simp: on_members_def xs_members_def split: prod.splits)


lemma AddConversationMembers_effect:
  assumes "conversation_ok env convID pol md" "AddConversationMembers env fails now convID ms md = (None, md')"
  shows "conversation_ok env convID (add_all env ms pol) md' \<and> md_convs md' = md_convs md"
proof -
  note d = conversation_okD [OF assms(1)]
  note body = add_members_ok [OF d(2,3,5), where fails = fails and now = now and ms = ms]
  have b: "changes_policy env convID (add_all env ms pol) (tx_of md) tx" if "add_members env fails now convID ms (tx_of md) = Inr tx" for tx
    using body [OF that] by (simp add: changes_policy_def)
  have "members_distinct (add_all env ms pol)" using add_all_others [OF d(4)] by blast
  note t = transaction_ok [OF assms(1) assms(2) [unfolded AddConversationMembers_def] b this, unfolded option.case]
  then obtain tx where "add_members env fails now convID ms (tx_of md) = Inr tx" "md_convs md' = mt_convs tx" by blast
  with body [OF this(1)] t show ?thesis by (simp add: tx_of_def)
qed


lemma room_owned_members [simp]:
  "xs_members (room_owned now convID owner s) = xs_members s" "get_channel env i (room_owned now convID owner s) = get_channel env i s"
  by (simp_all add: room_owned_def map_rooms_def xs_members_def get_channel_def GetConversation_def)

lemma SeedCursorOnJoin_meta: "cd_meta (snd (SeedCursorOnJoin fails a convID db db)) = cd_meta db"
  by (auto simp: SeedCursorOnJoin_def UpsertCursor_def Let_def split: option.split sum.split prod.split)

lemma seed_added_members [simp]: "xs_members (seed_added env convID inputs s) = xs_members s"
proof -
  have "cd_meta (foldl (\<lambda>db m. if mi_MemberType m = MemberTypeAgent
      then (case xn_agents env (mi_MemberID m) of None \<Rightarrow> db | Some agent \<Rightarrow> snd (SeedCursorOnJoin (xn_fails env) (ag_ID agent) convID db db))
      else db) db inputs) = cd_meta db" for db
    by (induction inputs arbitrary: db) (auto simp: SeedCursorOnJoin_meta split: option.split)
  then show ?thesis by (simp add: seed_added_def xs_members_def)
qed

section \<open>Examples\<close>

text \<open>The channel of the membership examples, and the accounts of its owner a, its member b and of c, who is not in it.\<close>

definition account :: "int \<Rightarrow> string \<Rightarrow> user_message" where
  "account i h = ran\<lparr>us_ID := i, us_Handle := h\<rparr>"

definition seats_codec :: policy_json where
  "seats_codec = table_codec
     [(channel, ''0''),
      ([owner_binding [''users/a''], member_binding [''users/b''] expiry, member_binding [''users/c''] None], ''1''),
      ([member_binding [''users/b''] expiry], ''2''),
      ([member_binding [''users/b'', ''users/a''] expiry], ''3''),
      ([member_binding [''users/a''] expiry, owner_binding [''users/b'']], ''4''),
      ([owner_binding [''users/a''], member_binding [''users/b'', ''users/''] expiry], ''5''),
      ([owner_binding [''users/a'', ''users/b''], member_binding [''users/''] expiry], ''6'')]"

definition seats_env :: channels_env where
  "seats_env = \<lparr>xn_iam = sample_env\<lparr>iv_members := channel_env\<lparr>mn_json := seats_codec\<rparr>\<rparr>, xn_agents = (\<lambda>_. None)\<rparr>"

definition seats :: channels where
  "seats = \<lparr>xs_iam = (sample_iam_db channel_db)\<lparr>ia_users := ran_store
       \<lparr>id_userIDCache := [10 \<mapsto> account 10 ''a''],
        id_userHandleCache := [''a'' \<mapsto> account 10 ''a'', ''b'' \<mapsto> account 11 ''b'', ''c'' \<mapsto> account 12 ''c'']\<rparr>\<rparr>,
     xs_chat = blank_chat\<rparr>"

definition seat_owner :: caller where
  "seat_owner = \<lparr>ca_User = Some (account 10 ''a''), ca_Agent = None\<rparr>"

lemma seats_codec_ok: "codec_ok seats_codec"
  by (auto simp: codec_ok_def seats_codec_def table_codec_def split: if_splits)

lemma seats_env_ok: "xn_members seats_env = channel_env\<lparr>mn_json := seats_codec\<rparr>" "channel_id seats_env ''conversations/c'' = Some 1"
  by (simp add: seats_env_def xn_members_def) code_simp

lemma seats_ok: "conversation_ok (xn_members seats_env) 1 channel (xs_members seats)"
proof -
  have m: "xs_members seats = channel_db" by (simp add: seats_def xs_members_def blank_chat_def channel_db_def)
  show ?thesis unfolding m seats_env_ok using seats_codec_ok
    by (simp add: conversation_ok_def policies_ok_def conversation_policy_def members_distinct_def)
      (simp add: channel_defs op_defs seats_codec_def)
qed

lemma seats_ops:
  "fst (AddChannelMember seats_env seat_owner ''conversations/c''
     [\<lparr>am_Group = [], am_MemberType = MemberTypeUser, am_MemberID = ''c'', am_ExpireTime = None\<rparr>] seats) = Inr [(MemberTypeUser, ''c'')]"
  "fst (RemoveChannelMember seats_env ''conversations/c'' 0 ''a'' seats) = None"
  "fst (RemoveChannelMember seats_env ''conversations/c'' MemberTypeUser ''a'' seats) = Some CodeInvalidArgument"
  "map_option cv_OwnerID (case fst (transfer_channel seats_env seat_owner ''conversations/c'' MemberTypeUser ''b'' seats) of
     Inl _ \<Rightarrow> None | Inr c \<Rightarrow> Some c) = Some 11"
  by code_simp+

text \<open>A transfer while the table of users cannot be read, and the old owner is not cached: the channel has two owners.\<close>

lemma transfer_leaves_two_owners:
  "let env = seats_env\<lparr>xn_iam := (xn_iam seats_env)\<lparr>iv_fails := (\<lambda>label. label = ''list users'')\<rparr>\<rparr>;
       s = seats\<lparr>xs_iam := (xs_iam seats)\<lparr>ia_users := (ia_users (xs_iam seats))\<lparr>id_userIDCache := Map.empty\<rparr>\<rparr>\<rparr>;
       (r, s') = transfer_channel env seat_owner ''conversations/c'' MemberTypeUser ''b'' s
     in \<not> isl r \<and> (case conversation_policy (xn_members env) 1 (ps_rows (md_policies (xs_members s'))) of None \<Rightarrow> False
       | Some pol \<Rightarrow> holds_role pol ''users/a'' ''roles/conversationOwner'' \<and> holds_role pol ''users/b'' ''roles/conversationOwner'')"
  by code_simp

section \<open>Properties\<close>

text \<open>C9: Adding never touches who is in, and adds nobody the request does not ask for. When the call succeeds, every member reported as
  added was asked for, by a name the request spells out or as a user of a group it names, held no role in the channel, and holds the member's role now. Every
  binding of every other name is as it was, those of everyone who had a role, the owner included, among them. A request that asks for no
  newcomer changes nothing.\<close>

theorem adding_keeps_members:
  assumes "AddChannelMember env who conversation members s = (Inr added, s')" "channel_id env conversation = Some convID"
    "conversation_ok (xn_members env) convID pol (xs_members s)"
  shows "\<exists>pol'. conversation_ok (xn_members env) convID pol' (xs_members s') \<and> md_convs (xs_members s') = md_convs (xs_members s) \<and>
    (\<forall>k i. (k, i) \<in> set added \<longrightarrow> newcomer pol (conversationMemberName k i) \<and>
       (\<exists>p. asked_for env (ia_users (xs_iam s)) members p \<and> mi_MemberType p = k \<and> mi_MemberID p = i) \<and>
       holds_role pol' (conversationMemberName k i) (conversationRoleName MemberRoleMember)) \<and>
    (\<forall>m r c. \<not> (\<exists>k i. (k, i) \<in> set added \<and> m = conversationMemberName k i) \<longrightarrow> (bound_under pol' m r c \<longleftrightarrow> bound_under pol m r c)) \<and>
    (\<forall>m r c. \<not> newcomer pol m \<longrightarrow> (bound_under pol' m r c \<longleftrightarrow> bound_under pol m r c)) \<and>
    ((\<forall>p. asked_for env (ia_users (xs_iam s)) members p \<longrightarrow> \<not> newcomer pol (input_name p)) \<longrightarrow> pol' = pol)"
proof -
  from assms(1,2) obtain conv where conv: "get_channel env convID s = Some conv" "members \<noteq> []"
    by (auto simp: AddChannelMember_def split: option.splits if_splits)
  obtain owner s1 where o: "resolveUserHandle env (cv_OwnerID conv) s = (owner, s1)" by fastforce
  obtain x s2 where e: "add_each env who convID owner members ([], []) s1 = (x, s2)" by fastforce
  note r1 = resolve_reads_only [OF o]
  note each = add_each_ok [OF e reads_only_ok [OF r1 assms(3)]]
  have r2: "reads_only s s2" using reads_only_trans [OF r1] each by (simp add: newcomers_def)
  note ok2 = reads_only_ok [OF r2 assms(3)]
  from assms(1,2) conv o e obtain seen inputs where x: "x = Inr (seen, inputs)" by (cases x) (auto simp: AddChannelMember_def)
  have new: "newcomers pol inputs" using each x by (simp add: newcomers_def)
  have "asked_for env (ia_users (xs_iam s1)) members p \<longleftrightarrow> asked_for env (ia_users (xs_iam s)) members p" for p
    using GetGroupByName_groups [of "ia_users (xs_iam s1)" "ia_users (xs_iam s)"] resolve_groups [OF o] by (simp add: asked_for_def)
  with add_each_asked [OF e [unfolded x]] have asked: "asked_for env (ia_users (xs_iam s)) members p" if "p \<in> set inputs" for p
    using that by simp
  show ?thesis
  proof (cases "inputs = []")
    case True
    then have "added = []" "s' = s2" using assms(1,2) conv o e x by (auto simp: AddChannelMember_def)
    then show ?thesis using ok2 r2 by (intro exI [of _ pol]) (simp add: reads_only_def)
  next
    case False
    obtain err s3 where a: "on_members (AddConversationMembers (xn_members env) (xn_fails env) (iv_now (xn_iam env)) convID inputs) s2 = (err, s3)"
      by fastforce
    then have "err = None" "s' = seed_added env convID inputs s3" "added = map (\<lambda>m. (mi_MemberType m, mi_MemberID m)) inputs"
      using assms(1,2) conv o e x False by (auto simp: AddChannelMember_def split: option.splits)
    note f = this
    have m: "xs_members s' = xs_members s3" by (simp add: f(2))
    note eff = AddConversationMembers_effect [OF ok2 on_members_step [OF a, unfolded f(1)]]
    have d: "members_distinct pol" using assms(3) by (simp add: conversation_ok_def)
    let ?pol = "add_all (xn_members env) inputs pol"
    have names: "m \<in> input_name ` set inputs \<longleftrightarrow> (\<exists>k i. (k, i) \<in> set added \<and> m = conversationMemberName k i)" for m
      by (auto simp: f(3) input_name_def)
    have kept: "m \<notin> input_name ` set inputs \<Longrightarrow> bound_under ?pol m r c \<longleftrightarrow> bound_under pol m r c" for m r c
      using add_all_others [OF d, of "xn_members env" inputs m r c] by simp
    have came: "newcomer pol (conversationMemberName k i)" "holds_role ?pol (conversationMemberName k i) (conversationRoleName MemberRoleMember)"
      "\<exists>p. asked_for env (ia_users (xs_iam s)) members p \<and> mi_MemberType p = k \<and> mi_MemberID p = i"
      if "(k, i) \<in> set added" for k i
    proof -
      from that obtain p where p: "p \<in> set inputs" "mi_MemberType p = k" "mi_MemberID p = i" by (auto simp: f(3))
      then have n: "input_name p = conversationMemberName k i" by (simp add: input_name_def)
      with p(1) have "conversationMemberName k i \<in> input_name ` set inputs" by (metis imageI)
      with n p(1) new add_all_binds [OF d] show "newcomer pol (conversationMemberName k i)"
        "holds_role ?pol (conversationMemberName k i) (conversationRoleName MemberRoleMember)" by (auto simp: newcomers_def)
      show "\<exists>p. asked_for env (ia_users (xs_iam s)) members p \<and> mi_MemberType p = k \<and> mi_MemberID p = i" using asked p by blast
    qed
    have "\<exists>p. asked_for env (ia_users (xs_iam s)) members p \<and> newcomer pol (input_name p)"
      using asked new False by (cases inputs) (auto simp: newcomers_def)
    moreover have "md_convs (xs_members s') = md_convs (xs_members s)" using eff r2 m by (simp add: reads_only_def)
    moreover have "m \<notin> input_name ` set inputs" if "\<not> newcomer pol m" for m using that new by (auto simp: newcomers_def)
    ultimately show ?thesis using eff m kept came names by (intro exI [of _ ?pol]) (simp, blast)
  qed
qed

theorem adding_keeps_members_witness:
  "\<exists>s' pol'. AddChannelMember seats_env seat_owner ''conversations/c''
       [\<lparr>am_Group = [], am_MemberType = MemberTypeUser, am_MemberID = ''c'', am_ExpireTime = None\<rparr>] seats = (Inr [(MemberTypeUser, ''c'')], s') \<and>
     conversation_ok (xn_members seats_env) 1 pol' (xs_members s') \<and> holds_role pol' ''users/c'' ''roles/conversationMember'' \<and>
     bound_under pol' ''users/a'' ''roles/conversationOwner'' None"
proof -
  obtain s' where r: "AddChannelMember seats_env seat_owner ''conversations/c''
      [\<lparr>am_Group = [], am_MemberType = MemberTypeUser, am_MemberID = ''c'', am_ExpireTime = None\<rparr>] seats = (Inr [(MemberTypeUser, ''c'')], s')"
    using seats_ops(1) by (metis prod.collapse)
  have n: "conversationMemberName MemberTypeUser ''c'' = ''users/c''" "conversationRoleName MemberRoleMember = ''roles/conversationMember''"
    by (simp_all add: op_defs)
  have "holds_role channel ''users/a'' ''roles/conversationOwner''" "conversationRoleFromName ''roles/conversationOwner'' \<noteq> 0" by code_simp+
  then have a: "\<not> newcomer channel ''users/a''" by (auto simp: newcomer_def)
  have b: "bound_under channel ''users/a'' ''roles/conversationOwner'' None" by code_simp
  from adding_keeps_members [OF r seats_env_ok(2) seats_ok] obtain pol' where
    "conversation_ok (xn_members seats_env) 1 pol' (xs_members s')"
    "\<forall>m r c. \<not> newcomer channel m \<longrightarrow> (bound_under pol' m r c \<longleftrightarrow> bound_under channel m r c)"
    "holds_role pol' (conversationMemberName MemberTypeUser ''c'') (conversationRoleName MemberRoleMember)" by auto
  with r a b show ?thesis unfolding n by blast
qed





end
