(* ===== verification/Spec2Isabelle.thy ===== *)
theory Spec2Isabelle
  imports Quantity Resource_Names Upload_Server Channel_Members
begin

text \<open>
  Verification of laelia.

  \<^bold>\<open>The program.\<close> Laelia runs coding agents on machines and lets people and agents talk in conversations. A \<^emph>\<open>manager\<close> keeps all state in
  a database and serves connect calls; a \<^emph>\<open>machine\<close> runs agents, whose turns produce progress rows, events and a result. A machine does
  not call the manager for every row: it appends them to a durable outbox on its disk, and an uploader sends them in batches and removes what the manager
  has settled. Around this core the manager has a permission engine with a gate in front of every call, the stores of policies, roles,
  users, members, messages, tasks and teams, and the handlers that post, read, claim and assign.

  \<^bold>\<open>Conventions.\<close> A Go \<open>(T, error)\<close> is a value of \<open>'e + 'a\<close>, \<open>Inl\<close> the error. A store is a record of tables, a table the list of its rows in
  insertion order; an operation maps a store to its result and the new store, and a transaction that fails returns the store it was given. A call of
  the database fails when the argument \<open>fails\<close> says so of its label, so that every error return of the code is a branch of its definition. Functions of
  libraries and of the clock (uuid, JSON, the log library, time, Unicode tables, page token encoding) are parameters gathered in records such as
  \<open>uuid_env\<close>, \<open>json_env\<close>, \<open>wal_env\<close>, \<open>chat_env\<close>; what is assumed of them is named where it is assumed (\<open>disk_contract\<close>, \<open>wal_contract\<close>, \<open>codec_ok\<close>, \<open>tokens_ok\<close>) and
  each has an instance in the examples. Fixed-width integers wrap where the code lets them (\<open>i32\<close>, \<open>i16\<close>, the 64-bit arithmetic of quantities). Where other requests may run between two statements of an
  operation, the operation takes both states, or what the others do is a function \<open>others\<close>.

  \<^bold>\<open>Theories\<close>, in the order of the calls:
  \<^item> \<open>Laelia_Prelude\<close>: results, fixed-width integers, the parts of Go's strings and strconv packages the code calls, lemmas on lists and maps.
  \<^item> \<open>Quantity\<close> (\<open>backend/common/quantity\<close>) and \<open>Resource_Names\<close> (\<open>backend/common/resource_name.go\<close>, \<open>handle.go\<close>): parsers and printers. One locale, \<open>name_codec\<close>, states
    what a formatter and its parser owe each other, and is interpreted on every kind of name.
  \<^item> \<open>Upload_Wire\<close>, \<open>Outbox\<close>, \<open>Uploader\<close> (\<open>backend/agent/outbox\<close>, \<open>backend/agent/client/command_outbox.go\<close>): the entries, the write-ahead outbox with its
    buffer, cap, eviction and reads, and the upload cycle with its fold of a response, backoff, drain, barrier and recovery. \<open>queue\<close> is the abstract view of an outbox, the list of
    the entries it holds; the outbox refines it. The locales \<open>upload_server\<close> and \<open>draining_server\<close> state what the uploader needs of the other end.
    \<open>Faulty_Disk\<close> runs the same outbox and uploader on a log whose calls may fail, and shows that no record is lost even so.
  \<^item> \<open>Command_Store\<close>, \<open>Dispatcher\<close>, \<open>Command_Upload\<close> (\<open>backend/manager/store/command.go\<close>, \<open>command_upload.go\<close>, \<open>backend/manager/component/dispatcher\<close>): the command tables, the buses of live watchers, the
    sessions and the reaper, the conversion of entries and the batch transaction. \<open>Upload_Server\<close> shows what the transaction promises and interprets both
    locales on it, so that the lemmas of the uploader hold of the real manager.
  \<^item> \<open>Policy_Store\<close>, \<open>Membership\<close>, \<open>Role_Store\<close>, \<open>Identity_Store\<close>, \<open>IAM\<close>, \<open>IAM_Gate\<close> (\<open>policy.go\<close>, \<open>conversation_policy.go\<close>, \<open>conversation_member.go\<close>, \<open>role.go\<close>, \<open>predefined_roles.go\<close>, \<open>principal.go\<close>, \<open>group.go\<close>,
    \<open>component/iam\<close>, \<open>api/v1/iam.go\<close>, \<open>resource_resolver.go\<close>): cached tables, the policy of a conversation as a set of bindings, the checks of the engine, the resources a request
    names. The locale \<open>permission_checker\<close> is what the gate needs of an engine.
  \<^item> \<open>Chat_Store\<close>, \<open>Team_Store\<close>, \<open>Task_Store\<close>, \<open>Mentions\<close>, \<open>Reactions\<close>, \<open>Room_Hub\<close> (\<open>chat_message.go\<close>, \<open>conversation_version.go\<close>, the cursor files, \<open>agent_team.go\<close>, \<open>task.go\<close>, \<open>mention.go\<close>,
    \<open>message_reaction.go\<close>, \<open>roomhub.go\<close>): the message table with its room versions, read cursors, teams, tasks, at-sign tokens, emoji reactions and the hub of the
    long polls. The locales \<open>numbering\<close> and \<open>gapless\<close> say when an operation issues numbers in order; \<open>chat_step\<close> collects all operations on these tables and interprets them.
  \<^item> \<open>Chat_Service\<close>, \<open>Task_API\<close>, \<open>Reaction_API\<close> (\<open>api/v1/message_create.go\<close>, \<open>channel_message.go\<close>, \<open>command_message.go\<close>, \<open>task.go\<close>, \<open>command_reaction.go\<close>): the handlers, whose state \<open>service\<close> joins the chat tables with the
    membership policies and records the wakes handed to the dispatcher.
  \<^item> \<open>Channel_Members\<close> (\<open>api/v1/channel_members.go\<close>, \<open>authz_helper.go\<close>, parts of \<open>channel.go\<close>): the handlers that change who is in a channel and who owns it, over the permission engine's tables
    and the chat tables.

  \<^bold>\<open>What the lemmas show.\<close>
  \<^item> From the turn loop to the tables (this theory): no interleaving of appends, flushes, uploads, retransmissions and failures of the disk, the network and the database loses a record, and an outbox
    with a working disk and a reachable manager drains.
  \<^item> Uploads: every entry of a committed batch is stored or refused with its reason, a command moves forward only, a retransmitted batch
    changes nothing; a watcher's channel is never used after it is closed, and a machine has at most one registered session, which can be written to.
  \<^item> Access: removal takes every role of a member and of nobody else, a transfer swaps exactly the two roles, caches agree with their tables as long as requests do not
    overlap, the gate passes a call only if every resource it names is allowed, adding members never changes who is
    in, and ownership moves by the owner's hand.
  \<^item> Chat: room versions and task numbers are issued in order, a claim has one winner, mention tokens agree with their grammar, the reactions refine a set, no wake-up of a
    long poll is lost, and the pages of a conversation's delta are complete.
  \<^item> Where the code does not do what its comments say, the theorem states what it does: a cache filled by a read that races with a removal or with the update of a role, a transfer
    that leaves two owners when the old one cannot be looked up, a stream judged before its message arrives, a delta whose version is read
    after its rows, a thread page that drops a reply, a post that covers what its sender has not seen, a status change that leaves its conversation, a released team task that anybody takes, an archived
    conversation that still takes tasks, an assignment that skips unread messages, a removal that unseats the owner.

  \<^bold>\<open>Loops and bounds.\<close> Loops over data are structural recursions; scans by index have a measure. The read loop of the outbox and the scan for orphaned groups may
  spin when the log library keeps failing: they are partial functions into \<open>option\<close>, \<open>None\<close> meaning that they do not return, and are
  proved to return on a log that keeps its contract. The drain and the long poll run over a schedule of events; the drain's theorem asks
  for at least as many rounds as records are left, the long poll without a further event is still waiting. Following page tokens takes the number of messages plus one as fuel, because every page but the
  last has at least one.

  \<^bold>\<open>Not modelled.\<close> Generated code; subprocess, network and command line plumbing (executors, runner, daemon, provisioners, mail, push, server wiring); JWT and OAuth2; the RPC wrappers of the dispatcher;
  the activity feed, search, and the row accessors of the remaining tables; the handlers of agents, users, settings and files, and those that create, list and delete channels; the conversion of rows to protocol
  messages. The database is taken at its documented isolation: each statement sees a committed state, and unique and foreign keys are checked where an insert or update needs them.
\<close>

section \<open>From the turn loop to the tables\<close>


text \<open>The manager of the examples: one running command, no watcher.\<close>

definition sample_uuid_env :: uuid_env where
  "sample_uuid_env = \<lparr>uuid_Parse = (\<lambda>s. if s = ''1'' then Some 1 else None), uuid_String = nat_string\<rparr>"

definition sample_json :: json_env where
  "sample_json = \<lparr>pj_Payload = (\<lambda>_. None), pj_Struct = (\<lambda>_. None)\<rparr>"

definition sample_manager :: manager where
  "sample_manager = \<lparr>mg_dispatcher = \<lparr>dp_db = sample_db,
       dp_bus = \<lparr>cb_output = newBus, cb_event = newBus\<rparr>, dp_tracker = Map.empty, dp_closing = []\<rparr>,
     mg_responses = [], mg_calls = 0\<rparr>"

definition sample_result :: upload_entry where
  "sample_result = resultEnvelope
     \<lparr>cr_command_id = ''1'', cr_exit_code = 0, cr_duration_ms = 0, cr_error_message = [],
      cr_last_seq_no = 0, cr_final_summary = [], cr_result = None\<rparr>"



text \<open>C2: The outbox drains. On a working disk, with the manager reachable and its database up, a queue that ends
  with a result and whose entries are well formed (canonical command ids, results with a summary and a
  structure or neither) is emptied by \<open>Drain\<close> after at most as many cycles as it has records left
  to send; a refused entry does not stop it.\<close>

theorem drain_empties_outbox:
  assumes "wal_contract env ok view" "drainable env ok view (well_formed_entry uenv jenv) u"
    "left_to_send env view u \<le> length sched" "\<forall>(now, w) \<in> set sched. w = Woken" "manager_ready m"
  shows "\<exists>u' m'. Drain env (machine_rpc uenv jenv (calm clock) machineID) sched u m = Some (u', m') \<and>
    queue env view (up_ob u') = []"
proof -
  have "healthy env ok (up_ob u)" using assms(2) by (simp add: drainable_def)
  from calm_rpc.Drain_empties_queue [OF assms(1) this, of uenv jenv sched m clock machineID] assms(2-5)
  show ?thesis by blast
qed

theorem drain_empties_outbox_witness:
  "\<exists>u' m'. Drain (reference_wal [sample_result]) (machine_rpc sample_uuid_env sample_json (calm int) 7)
      [(0, Woken)] (NewUploader (reference_outbox [sample_result])) sample_manager = Some (u', m') \<and>
    queue (reference_wal [sample_result]) id (up_ob u') = []"
proof -
  let ?env = "reference_wal [sample_result]" and ?u = "NewUploader (reference_outbox [sample_result])"
  have h: "healthy ?env reference_ok (reference_outbox [sample_result])" by (rule reference_healthy) simp
  have one: "nat_string 1 = ''1''" by code_simp
  have "uuid_String sample_uuid_env u = ''1'' \<longleftrightarrow> u = 1" for u
    using nat_string_inject [of u 1] unfolding one by (simp add: sample_uuid_env_def)
  then have "well_formed_entry sample_uuid_env sample_json sample_result"
    by (auto simp: well_formed_entry_def sample_result_def resultEnvelope_def convertUploadEntry_def
        sample_uuid_env_def sample_json_def good_row_def half_summary_def blank_row_def)
  with h have "drainable ?env reference_ok id (well_formed_entry sample_uuid_env sample_json) ?u"
    by (simp add: drainable_def NewUploader_def reference_queue reference_log_base ends_terminal_def
        sample_result_def resultEnvelope_def)
  moreover have "left_to_send ?env id ?u = 1"
    by (simp add: left_to_send_def NewUploader_def reference_queue reference_log_base)
  moreover have "manager_ready sample_manager"
    using sample_db_wf by (simp add: manager_ready_def manager_ok_def sample_manager_def room_def sample_simps
        regradable_def buses_wf_def bus_wf_def newBus_def watched_def)
  ultimately show ?thesis
    using drain_empties_outbox [OF reference_contract, of "[sample_result]" sample_uuid_env sample_json ?u
        "[(0, Woken)]" sample_manager int 7] by simp
qed

end
